(* ===== verification/Prelude.thy ===== *)
theory Prelude
  imports Complex_Main "HOL-Library.Multiset"
begin

text \<open>
  Shared ground of the development: the exceptions of the modelled Python code as values,
  Python's string methods on HOL strings, the list idioms the program repeats
  (chunking, stable sorting, mean, median), and the insertion-ordered dictionary.

  A Python \<open>str\<close> is a HOL \<open>string\<close> holding its UTF-8 bytes.  Searching, splitting and
  replacing are the same on bytes as on code points because UTF-8 is self-synchronising;
  \<open>isspace\<close>, \<open>lower\<close> and the regular-expression classes are those of ASCII.
\<close>

named_theorems py_simps \<open>unfolding rules of the Python string and list idioms\<close>

subsection \<open>Exceptions as values\<close>

datatype py_exn =
    ValueError | TypeError | KeyError | IndexError | ZeroDivisionError
  | AssertionError | AttributeError | ArgumentTypeError | FileNotFoundError
  | StopIteration | RuntimeError | NotImplementedError | TimeoutError | NameError

type_synonym 'a res = "py_exn + 'a"

definition res_bind :: "'a res \<Rightarrow> ('a \<Rightarrow> 'b res) \<Rightarrow> 'b res" where
  "res_bind r k = (case r of Inl e \<Rightarrow> Inl e | Inr x \<Rightarrow> k x)"

lemma res_bind_Inl [simp]: "res_bind (Inl e) k = Inl e"
  by (simp add: res_bind_def)

lemma res_bind_Inr [simp]: "res_bind (Inr x) k = k x"
  by (simp add: res_bind_def)

lemma res_bind_eq_Inr_iff: "res_bind r k = Inr y \<longleftrightarrow> (\<exists>x. r = Inr x \<and> k x = Inr y)"
  by (cases r) auto

fun map_res :: "('a \<Rightarrow> 'b res) \<Rightarrow> 'a list \<Rightarrow> 'b list res" where
  "map_res f [] = Inr []"
| "map_res f (x # xs) =
     res_bind (f x) (\<lambda>y. res_bind (map_res f xs) (\<lambda>ys. Inr (y # ys)))"

lemma map_res_Inr_iff:
  "map_res f xs = Inr ys \<longleftrightarrow> list_all2 (\<lambda>x y. f x = Inr y) xs ys"
proof (induction xs arbitrary: ys)
  case Nil
  then show ?case by auto
next
  case (Cons x xs)
  then show ?case
    by (cases ys) (auto simp: res_bind_eq_Inr_iff)
qed

lemma map_res_all: "(\<And>x. x \<in> set xs \<Longrightarrow> f x = Inr (g x)) \<Longrightarrow> map_res f xs = Inr (map g xs)"
  by (induction xs) simp_all

subsection \<open>Characters\<close>

definition is_ws :: "char \<Rightarrow> bool" where
  "is_ws c = (let n = of_char c :: nat in (9 \<le> n \<and> n \<le> 13) \<or> (28 \<le> n \<and> n \<le> 32))"

definition is_digit :: "char \<Rightarrow> bool" where
  "is_digit c = (let n = of_char c :: nat in 48 \<le> n \<and> n \<le> 57)"

definition is_alpha :: "char \<Rightarrow> bool" where
  "is_alpha c = (let n = of_char c :: nat in (65 \<le> n \<and> n \<le> 90) \<or> (97 \<le> n \<and> n \<le> 122))"

definition is_word :: "char \<Rightarrow> bool" where
  "is_word c = (is_alpha c \<or> is_digit c \<or> c = CHR ''_'')"

definition lower_char :: "char \<Rightarrow> char" where
  "lower_char c = (let n = of_char c :: nat in if 65 \<le> n \<and> n \<le> 90 then char_of (n + 32) else c)"

definition lower :: "string \<Rightarrow> string" where
  "lower s = map lower_char s"

lemma length_lower [simp]: "length (lower s) = length s"
  by (simp add: lower_def)

lemma lower_char_idem [simp]: "lower_char (lower_char c) = lower_char c"
  by (auto simp: lower_char_def Let_def of_char_of)

lemma lower_idem [simp]: "lower (lower s) = lower s"
  by (simp add: lower_def o_def)

text \<open>The full-width separators U+FF1B and U+FF0C, as the UTF-8 bytes of a source literal.\<close>

definition fw_semicolon :: string where
  "fw_semicolon = [CHR 0xEF, CHR 0xBC, CHR 0x9B]"

definition fw_comma :: string where
  "fw_comma = [CHR 0xEF, CHR 0xBC, CHR 0x8C]"

subsection \<open>String methods\<close>

definition lstrip :: "string \<Rightarrow> string" where
  "lstrip s = dropWhile is_ws s"

definition rstrip :: "string \<Rightarrow> string" where
  "rstrip s = rev (dropWhile is_ws (rev s))"

definition strip :: "string \<Rightarrow> string" where
  "strip s = rstrip (lstrip s)"

definition strip_chars :: "string \<Rightarrow> string \<Rightarrow> string" where
  "strip_chars cs s = rev (dropWhile (\<lambda>c. c \<in> set cs) (rev (dropWhile (\<lambda>c. c \<in> set cs) s)))"

definition starts_with :: "string \<Rightarrow> string \<Rightarrow> bool" where
  "starts_with p s = (take (length p) s = p)"

definition ends_with :: "string \<Rightarrow> string \<Rightarrow> bool" where
  "ends_with p s = starts_with (rev p) (rev s)"

text \<open>\<open>str.find\<close>: the text before and after the first occurrence of a substring.\<close>

fun find_sub :: "string \<Rightarrow> string \<Rightarrow> (string \<times> string) option" where
  "find_sub p [] = (if p = [] then Some ([], []) else None)"
| "find_sub p (c # s) =
     (if starts_with p (c # s) then Some ([], drop (length p) (c # s))
      else map_option (\<lambda>(a, b). (c # a, b)) (find_sub p s))"

definition contains :: "string \<Rightarrow> string \<Rightarrow> bool" where
  "contains p s = (find_sub p s \<noteq> None)"

lemma starts_with_append [simp]: "starts_with p (p @ s)"
  by (simp add: starts_with_def)

lemma starts_withD: "starts_with p s \<Longrightarrow> s = p @ drop (length p) s"
  unfolding starts_with_def by (metis append_take_drop_id)

lemma find_sub_Some: "find_sub p s = Some (a, b) \<Longrightarrow> s = a @ p @ b"
proof (induction p s arbitrary: a b rule: find_sub.induct)
  case (1 p)
  then show ?case by (auto split: if_splits)
next
  case (2 p c s)
  show ?case
  proof (cases "starts_with p (c # s)")
    case True
    with "2.prems" show ?thesis using starts_withD [OF True] by auto
  next
    case False
    with 2 show ?thesis by auto
  qed
qed

lemma find_sub_shrinks: "find_sub p s = Some (a, b) \<Longrightarrow> p \<noteq> [] \<Longrightarrow> length b < length s"
  by (drule find_sub_Some) auto

lemma contains_iff: "contains p s \<longleftrightarrow> (\<exists>a b. s = a @ p @ b)"
proof
  assume "contains p s"
  then show "\<exists>a b. s = a @ p @ b"
    by (auto simp: contains_def dest: find_sub_Some)
next
  assume "\<exists>a b. s = a @ p @ b"
  then obtain a b where "s = a @ p @ b" by blast
  then show "contains p s"
  proof (induction a arbitrary: s)
    case Nil
    then have "starts_with p s" by simp
    then show ?case
      by (cases s) (auto simp: contains_def starts_with_def)
  next
    case (Cons x a)
    then show ?case
      by (cases "starts_with p s") (auto simp: contains_def)
  qed
qed

function split_str :: "string \<Rightarrow> string \<Rightarrow> string list" where
  "split_str p s =
     (if p = [] then [s]
      else case find_sub p s of None \<Rightarrow> [s] | Some (a, b) \<Rightarrow> a # split_str p b)"
  by pat_completeness auto
termination
  by (relation "measure (\<lambda>(p, s). length s)") (auto dest: find_sub_shrinks)

declare split_str.simps [simp del]

fun join :: "string \<Rightarrow> string list \<Rightarrow> string" where
  "join sep [] = []"
| "join sep [x] = x"
| "join sep (x # xs) = x @ sep @ join sep xs"

definition replace :: "string \<Rightarrow> string \<Rightarrow> string \<Rightarrow> string" where
  "replace old new s = join new (split_str old s)"

text \<open>\<open>split\<close>, \<open>join\<close> and \<open>replace\<close> for a separator of one character.\<close>

fun split_char :: "char \<Rightarrow> string \<Rightarrow> string list" where
  "split_char c [] = [[]]"
| "split_char c (x # s) =
     (if x = c then [] # split_char c s
      else case split_char c s of [] \<Rightarrow> [[x]] | h # t \<Rightarrow> (x # h) # t)"

definition replace_char :: "char \<Rightarrow> string \<Rightarrow> string \<Rightarrow> string" where
  "replace_char c new s = concat (map (\<lambda>x. if x = c then new else [x]) s)"

lemma split_char_nonempty [simp]: "split_char c s \<noteq> []"
  by (induction s) (auto split: list.splits)

lemma length_split_char: "length (split_char c s) = Suc (count_list s c)"
proof (induction s)
  case (Cons x s)
  then show ?case by (cases "split_char c s") auto
qed simp

lemma split_char_no_sep: "p \<in> set (split_char c s) \<Longrightarrow> c \<notin> set p"
proof (induction s arbitrary: p)
  case (Cons x s)
  then show ?case by (cases "split_char c s") (auto split: if_splits)
qed simp

lemma join_Cons: "xs \<noteq> [] \<Longrightarrow> join sep (x # xs) = x @ sep @ join sep xs"
  by (cases xs) auto

lemma join_split_char: "join [c] (split_char c s) = s"
proof (induction s)
  case (Cons x s)
  obtain h t where ht: "split_char c s = h # t" by (cases "split_char c s") auto
  show ?case
  proof (cases "x = c")
    case True
    with Cons ht show ?thesis by simp
  next
    case False
    with Cons ht show ?thesis by (cases t) auto
  qed
qed simp

lemma count_list_join:
  assumes "\<forall>p \<in> set ps. c \<notin> set p"
  shows "count_list (join [c] ps) c = length ps - 1"
  using assms
proof (induction ps)
  case (Cons p ps)
  then show ?case
    by (cases ps) (auto simp: count_list_append count_notin)
qed simp

lemma count_list_join_butlast:
  "count_list (join [c] (butlast (split_char c s))) c = count_list s c - 1"
proof -
  have "\<forall>p \<in> set (butlast (split_char c s)). c \<notin> set p"
    by (auto dest: in_set_butlastD split_char_no_sep)
  then show ?thesis
    by (simp add: count_list_join length_split_char)
qed

lemma count_list_dropWhile_le: "count_list (dropWhile P s) c \<le> count_list s c"
  by (induction s) auto

lemma count_list_strip_le: "count_list (strip s) c \<le> count_list s c"
proof -
  have r: "count_list (rev t) c = count_list t c" for t :: string
    by (induction t) (auto simp: count_list_append)
  have "count_list (strip s) c \<le> count_list (lstrip s) c"
    unfolding strip_def rstrip_def
    using count_list_dropWhile_le [of is_ws "rev (lstrip s)" c] by (simp add: r)
  also have "\<dots> \<le> count_list s c" by (simp add: lstrip_def count_list_dropWhile_le)
  finally show ?thesis .
qed

lemma strip_idem [simp]: "strip (strip s) = strip s"
proof -
  have d: "dropWhile P (dropWhile P t) = dropWhile P t" for P and t :: string
    by (rule dropWhile_idem)
  have l: "lstrip (rstrip (lstrip s)) = rstrip (lstrip s)"
  proof (cases "rstrip (lstrip s)")
    case Nil
    then show ?thesis by (simp add: lstrip_def)
  next
    case (Cons x t)
    obtain w where w: "lstrip s = rstrip (lstrip s) @ w"
      unfolding rstrip_def by (metis rev_append rev_rev_ident takeWhile_dropWhile_id)
    then have "lstrip s \<noteq> [] \<and> hd (lstrip s) = x" using Cons by simp
    then have "\<not> is_ws x"
      using hd_dropWhile [of is_ws s] by (auto simp: lstrip_def)
    then show ?thesis using Cons by (simp add: lstrip_def)
  qed
  have r: "rstrip (rstrip t) = rstrip t" for t by (simp add: rstrip_def)
  show ?thesis by (simp add: strip_def l r)
qed

text \<open>\<open>s.split()\<close>: the maximal runs of non-blank characters.\<close>

function split_ws :: "string \<Rightarrow> string list" where
  "split_ws s =
     (let t = lstrip s in
      if t = [] then []
      else takeWhile (\<lambda>c. \<not> is_ws c) t # split_ws (dropWhile (\<lambda>c. \<not> is_ws c) t))"
  by pat_completeness auto
termination
proof (relation "measure length")
  fix s x
  assume x: "x = lstrip s" and ne: "x \<noteq> []"
  then have "\<not> is_ws (hd x)" using hd_dropWhile [of is_ws s] by (simp add: lstrip_def)
  with ne have "length (dropWhile (\<lambda>c. \<not> is_ws c) x) < length x"
    by (cases x) (auto simp: le_imp_less_Suc length_dropWhile_le)
  moreover have "length x \<le> length s" by (simp add: x lstrip_def length_dropWhile_le)
  ultimately show "(dropWhile (\<lambda>c. \<not> is_ws c) x, s) \<in> measure length" by simp
qed simp

declare split_ws.simps [simp del]

text \<open>\<open>s.rsplit(c, 1)\<close> and \<open>s.split(c, 1)\<close> for a separator that occurs.\<close>

definition split1 :: "char \<Rightarrow> string \<Rightarrow> string \<times> string" where
  "split1 c s = (takeWhile (\<lambda>d. d \<noteq> c) s, tl (dropWhile (\<lambda>d. d \<noteq> c) s))"

definition rsplit1 :: "char \<Rightarrow> string \<Rightarrow> string \<times> string" where
  "rsplit1 c s = (let (a, b) = split1 c (rev s) in (rev b, rev a))"

subsection \<open>List idioms\<close>

function chunks :: "nat \<Rightarrow> 'a list \<Rightarrow> 'a list list" where
  "chunks n xs = (if n = 0 \<or> xs = [] then [] else take n xs # chunks n (drop n xs))"
  by pat_completeness auto
termination
  by (relation "measure (\<lambda>(n, xs). length xs)") auto

declare chunks.simps [simp del]

lemma concat_chunks: "0 < n \<Longrightarrow> concat (chunks n xs) = xs"
proof (induction n xs rule: chunks.induct)
  case (1 n xs)
  then show ?case by (cases "xs = []") (simp_all add: chunks.simps [of n xs] chunks.simps [of n "[]"])
qed

lemma chunks_bound: "c \<in> set (chunks n xs) \<Longrightarrow> c \<noteq> [] \<and> length c \<le> n"
proof (induction n xs rule: chunks.induct)
  case (1 n xs)
  then show ?case by (auto simp: chunks.simps [of n xs] split: if_splits)
qed

lemma chunks_map: "chunks n (map f xs) = map (map f) (chunks n xs)"
proof (induction n xs rule: chunks.induct)
  case (1 n xs)
  then show ?case
    by (cases "n = 0 \<or> xs = []") (simp_all add: chunks.simps [of n xs] chunks.simps [of n "map f xs"] take_map drop_map)
qed

text \<open>
  \<open>sorted(key=f, reverse=True)\<close> keeps the order of equal elements, so it is the stable
  ascending sort of the reversed list, reversed.
\<close>

definition sort_desc :: "('a \<Rightarrow> 'k::linorder) \<Rightarrow> 'a list \<Rightarrow> 'a list" where
  "sort_desc f xs = rev (sort_key f (rev xs))"

lemma mset_sort_desc [simp]: "mset (sort_desc f xs) = mset xs"
  by (simp add: sort_desc_def)

lemma set_sort_desc [simp]: "set (sort_desc f xs) = set xs"
  by (simp add: sort_desc_def)

lemma length_sort_desc [simp]: "length (sort_desc f xs) = length xs"
  by (simp add: sort_desc_def)

lemma sorted_sort_desc: "sorted_wrt (\<lambda>x y. f y \<le> f x) (sort_desc f xs)"
proof -
  have "sorted_wrt (\<lambda>x y. f x \<le> f y) (sort_key f (rev xs))"
    using sorted_sort_key [of f "rev xs"] by (simp only: sorted_map)
  then show ?thesis by (simp add: sort_desc_def sorted_wrt_rev)
qed

lemma sort_desc_take_max:
  assumes "x \<in> set (take k (sort_desc f xs))" and "y \<in> set (drop k (sort_desc f xs))"
  shows "f y \<le> f x"
  using sorted_sort_desc [of f xs] assms
  by (metis append_take_drop_id sorted_wrt_append)

text \<open>\<open>xs[:k]\<close>, where a negative \<open>k\<close> counts from the end.\<close>

definition slice_to :: "int \<Rightarrow> 'a list \<Rightarrow> 'a list" where
  "slice_to k xs = (if 0 \<le> k then take (nat k) xs else take (length xs - nat (- k)) xs)"

definition mean :: "real list \<Rightarrow> real" where
  "mean xs = sum_list xs / real (length xs)"

text \<open>\<open>np.std\<close>: the population standard deviation.\<close>

definition pstd :: "real list \<Rightarrow> real" where
  "pstd xs = sqrt (mean (map (\<lambda>x. (x - mean xs)\<^sup>2) xs))"

definition median :: "real list \<Rightarrow> real" where
  "median xs =
     (let s = sort xs; n = length s
      in if odd n then s ! (n div 2) else (s ! (n div 2 - 1) + s ! (n div 2)) / 2)"

lemma sum_list_bounds:
  fixes lo hi :: real
  assumes "\<forall>x \<in> set xs. lo \<le> x \<and> x \<le> hi"
  shows "lo * real (length xs) \<le> sum_list xs \<and> sum_list xs \<le> hi * real (length xs)"
  using assms by (induction xs) (auto simp: algebra_simps)

lemma mean_bounds:
  assumes "\<forall>x \<in> set xs. lo \<le> x \<and> x \<le> hi" and "xs \<noteq> []"
  shows "lo \<le> mean xs \<and> mean xs \<le> hi"
  using sum_list_bounds [OF assms(1)] assms(2)
  by (simp add: mean_def field_simps)

lemma pstd_nonneg: "0 \<le> pstd xs"
  unfolding pstd_def mean_def
  by (intro real_sqrt_ge_zero divide_nonneg_nonneg sum_list_nonneg) auto

lemma sum_list_nonneg_real: "(\<And>x. x \<in> set xs \<Longrightarrow> (0::real) \<le> x) \<Longrightarrow> 0 \<le> sum_list xs"
  by (rule sum_list_nonneg) auto

lemma median_in_range:
  assumes "xs \<noteq> []" and "\<forall>x \<in> set xs. lo \<le> x \<and> x \<le> hi"
  shows "lo \<le> median xs \<and> median xs \<le> hi"
proof -
  let ?s = "sort xs"
  have len: "length ?s = length xs" by simp
  have a: "lo \<le> ?s ! i \<and> ?s ! i \<le> hi" if "i < length xs" for i
    using assms(2) that nth_mem [of i ?s] by simp
  have n: "length xs div 2 < length xs" and m: "length xs div 2 - 1 < length xs"
    using assms(1) by (simp_all add: less_imp_diff_less)
  show ?thesis
    using a [OF n] a [OF m] by (auto simp: median_def Let_def len)
qed

subsection \<open>Insertion-ordered dictionaries\<close>

text \<open>
  A \<open>dict\<close> is an association list with distinct keys in insertion order: assignment to a
  present key keeps its place, a new key goes to the end.
\<close>

type_synonym ('k, 'v) dict = "('k \<times> 'v) list"

fun dset :: "'k \<Rightarrow> 'v \<Rightarrow> ('k, 'v) dict \<Rightarrow> ('k, 'v) dict" where
  "dset k v [] = [(k, v)]"
| "dset k v ((k', v') # d) = (if k' = k then (k, v) # d else (k', v') # dset k v d)"

abbreviation dget :: "('k, 'v) dict \<Rightarrow> 'k \<Rightarrow> 'v option" where
  "dget \<equiv> map_of"

definition dget_or :: "('k, 'v) dict \<Rightarrow> 'k \<Rightarrow> 'v \<Rightarrow> 'v" where
  "dget_or d k v = (case dget d k of None \<Rightarrow> v | Some w \<Rightarrow> w)"

definition dsetdefault :: "'k \<Rightarrow> 'v \<Rightarrow> ('k, 'v) dict \<Rightarrow> ('k, 'v) dict" where
  "dsetdefault k v d = (if dget d k = None then dset k v d else d)"

text \<open>\<open>d.setdefault(k, []).append(x)\<close>, the grouping idiom.\<close>

definition dappend :: "'k \<Rightarrow> 'v \<Rightarrow> ('k, 'v list) dict \<Rightarrow> ('k, 'v list) dict" where
  "dappend k x d = dset k (dget_or d k [] @ [x]) d"

fun dupdate :: "('k, 'v) dict \<Rightarrow> ('k, 'v) dict \<Rightarrow> ('k, 'v) dict" where
  "dupdate d [] = d"
| "dupdate d ((k, v) # e) = dupdate (dset k v d) e"

lemma dget_dset [simp]: "dget (dset k v d) k' = (if k' = k then Some v else dget d k')"
  by (induction d) auto

lemma fst_set_dset [simp]: "fst ` set (dset k v d) = insert k (fst ` set d)"
proof (induction d)
  case Nil
  then show ?case by simp
next
  case (Cons p d)
  obtain a b where "p = (a, b)" by (cases p)
  with Cons show ?case by (cases "a = k") (simp_all add: insert_commute)
qed

lemma distinct_dset: "distinct (map fst d) \<Longrightarrow> distinct (map fst (dset k v d))"
  by (induction d) auto

definition group_by :: "('a \<Rightarrow> 'k) \<Rightarrow> 'a list \<Rightarrow> ('k, 'a list) dict" where
  "group_by f xs = fold (\<lambda>x d. dappend (f x) x d) xs []"

lemma group_by_snoc: "group_by f (xs @ [x]) = dappend (f x) x (group_by f xs)"
  by (simp add: group_by_def)

lemma group_by_Nil [simp]: "group_by f [] = []"
  by (simp add: group_by_def)

lemma dget_or_dappend [simp]: "dget_or (dappend k x d) k' [] =
    (if k' = k then dget_or d k [] @ [x] else dget_or d k' [])"
  by (simp add: dappend_def dget_or_def)

lemma dget_or_Nil [simp]: "dget_or [] k v = v"
  by (simp add: dget_or_def)

text \<open>A group holds exactly the elements of its key, in their order.\<close>

lemma dget_or_group_by: "dget_or (group_by f xs) k [] = filter (\<lambda>x. f x = k) xs"
  by (induction xs rule: rev_induct) (auto simp: group_by_snoc)

lemma keys_group_by [simp]: "fst ` set (group_by f xs) = f ` set xs"
  by (induction xs rule: rev_induct) (auto simp: group_by_snoc dappend_def)

lemma distinct_group_by: "distinct (map fst (group_by f xs))"
  by (induction xs rule: rev_induct) (auto simp: group_by_snoc dappend_def intro: distinct_dset)

lemma group_by_entry:
  assumes "(k, ys) \<in> set (group_by f xs)"
  shows "ys = filter (\<lambda>x. f x = k) xs"
  using dget_or_group_by [of f xs k] assms distinct_group_by [of f xs]
  by (simp add: dget_or_def)

lemma group_by_nonempty:
  assumes "(k, ys) \<in> set (group_by f xs)"
  shows "ys \<noteq> []"
proof -
  have "k \<in> fst ` set (group_by f xs)"
    by (rule image_eqI [where x = "(k, ys)"]) (use assms in simp_all)
  then have "k \<in> f ` set xs" by simp
  then show ?thesis unfolding group_by_entry [OF assms] by (auto simp: filter_empty_conv)
qed

lemma mset_concat_group_by: "mset (concat (map snd (group_by f xs))) = mset xs"
proof (induction xs rule: rev_induct)
  case Nil
  then show ?case by simp
next
  case (snoc x xs)
  have "mset (concat (map snd (dappend k y d))) = add_mset y (mset (concat (map snd d)))"
    for k :: 'b and y :: 'a and d
    by (induction d) (auto simp: dappend_def dget_or_def)
  then show ?case using snoc by (simp add: group_by_snoc)
qed

subsection \<open>Choosing part of a list\<close>

text \<open>
  The contract of everything in the program that keeps k of n candidates: the result is a
  part of the list (no candidate is invented or repeated), of the size asked for.
\<close>

locale chooser =
  fixes pick :: "'a list \<Rightarrow> nat \<Rightarrow> 'a list"
  assumes pick_mset: "mset (pick xs k) \<subseteq># mset xs"
    and pick_length: "length (pick xs k) = min k (length xs)"
begin

lemma pick_rest: "\<exists>rest. mset xs = mset (pick xs k @ rest)"
proof -
  obtain R where "mset xs = mset (pick xs k) + R"
    using pick_mset [of xs k] by (metis subset_mset.add_diff_inverse)
  moreover obtain rest where "mset rest = R" using ex_mset by blast
  ultimately show ?thesis by (intro exI [of _ rest]) simp
qed

lemma pick_set: "set (pick xs k) \<subseteq> set xs"
proof -
  obtain rest where "mset xs = mset (pick xs k @ rest)" using pick_rest by blast
  from mset_eq_setD [OF this] show ?thesis by simp
qed

lemma pick_all:
  assumes "length xs \<le> k"
  shows "mset (pick xs k) = mset xs"
proof -
  obtain rest where r: "mset xs = mset (pick xs k @ rest)" using pick_rest by blast
  from mset_eq_length [OF this] have "rest = []"
    using assms by (simp add: pick_length min_absorb2)
  then show ?thesis using r by simp
qed

lemma pick_distinct:
  assumes "distinct xs"
  shows "distinct (pick xs k)"
proof -
  obtain rest where "mset xs = mset (pick xs k @ rest)" using pick_rest by blast
  from mset_eq_imp_distinct_iff [OF this] show ?thesis using assms by simp
qed

end

end
