(* ===== verification/PyValue.thy ===== *)
theory PyValue
  imports Prelude
begin

text \<open>
  The dynamic values the program passes around as \<open>Any\<close>: what \<open>json.loads\<close> returns and
  what a row of a dataset holds.  Floats are finite and modelled as reals; \<open>nan\<close> and the
  infinities are outside the type, so a function that meets one of them returns what the
  source returns for a value it cannot convert.  \<open>str\<close> of a float, a list or a dict is the
  argument \<open>rp\<close> of the functions that print one.
\<close>

datatype pyval =
    PNone
  | PBool bool
  | PInt int
  | PFloat real
  | PStr string
  | PList "pyval list"
  | PDict "(string \<times> pyval) list"

type_synonym pydict = "(string \<times> pyval) list"

fun truthy :: "pyval \<Rightarrow> bool" where
  "truthy PNone = False"
| "truthy (PBool b) = b"
| "truthy (PInt i) = (i \<noteq> 0)"
| "truthy (PFloat x) = (x \<noteq> 0)"
| "truthy (PStr s) = (s \<noteq> [])"
| "truthy (PList xs) = (xs \<noteq> [])"
| "truthy (PDict d) = (d \<noteq> [])"

text \<open>\<open>d.get(k)\<close> and \<open>d.get(k, default)\<close>.\<close>

definition pget :: "pydict \<Rightarrow> string \<Rightarrow> pyval" where
  "pget d k = dget_or d k PNone"

lemma pget_Nil [simp]: "pget [] k = PNone"
  by (simp add: pget_def)

lemma pget_Cons [simp]: "pget ((k', v) # d) k = (if k' = k then v else pget d k)"
  by (simp add: pget_def dget_or_def)

lemma pget_dset [simp]: "pget (dset k v d) k' = (if k' = k then v else pget d k')"
  by (simp add: pget_def dget_or_def)

definition has_key :: "pydict \<Rightarrow> string \<Rightarrow> bool" where
  "has_key d k = (dget d k \<noteq> None)"

fun as_dict :: "pyval \<Rightarrow> pydict option" where
  "as_dict (PDict d) = Some d"
| "as_dict _ = None"

fun as_str :: "pyval \<Rightarrow> string option" where
  "as_str (PStr s) = Some s"
| "as_str _ = None"

fun is_str :: "pyval \<Rightarrow> bool" where
  "is_str (PStr s) = True"
| "is_str _ = False"

subsection \<open>Numbers and their text\<close>

definition digit_val :: "char \<Rightarrow> nat" where
  "digit_val c = (of_char c :: nat) - 48"

definition nat_of_digits :: "string \<Rightarrow> nat" where
  "nat_of_digits ds = foldl (\<lambda>n c. 10 * n + digit_val c) 0 ds"

text \<open>A run of digits, where single underscores between digits are skipped as \<open>float\<close> does.\<close>

fun digit_run :: "string \<Rightarrow> string \<times> string" where
  "digit_run [] = ([], [])"
| "digit_run [c] = (if is_digit c then ([c], []) else ([], [c]))"
| "digit_run (c # d # s) =
     (if \<not> is_digit c then ([], c # d # s)
      else if d = CHR ''_'' \<and> s \<noteq> [] \<and> is_digit (hd s) then
        (let (ds, r) = digit_run s in (c # ds, r))
      else (let (ds, r) = digit_run (d # s) in (c # ds, r)))"

definition sign_of :: "string \<Rightarrow> real \<times> string" where
  "sign_of s =
     (case s of
        [] \<Rightarrow> (1, s)
      | c # t \<Rightarrow> if c = CHR ''-'' then (-1, t) else if c = CHR ''+'' then (1, t) else (1, s))"

definition decimal :: "string \<Rightarrow> string \<Rightarrow> real" where
  "decimal ip fp = real (nat_of_digits ip) + real (nat_of_digits fp) / 10 ^ length fp"

definition exponent_of :: "string \<Rightarrow> real option" where
  "exponent_of s =
     (case s of
        [] \<Rightarrow> Some 1
      | c # t \<Rightarrow>
          if c \<noteq> CHR ''e'' \<and> c \<noteq> CHR ''E'' then None
          else let (sg, u) = sign_of t; (ds, r) = digit_run u in
            if ds = [] \<or> r \<noteq> [] then None
            else if sg < 0 then Some (1 / 10 ^ nat_of_digits ds)
            else Some (10 ^ nat_of_digits ds))"

text \<open>\<open>float(s)\<close> for a string; \<open>None\<close> stands for the \<open>ValueError\<close>.\<close>

definition float_of_str :: "string \<Rightarrow> real option" where
  "float_of_str s =
     (let (sg, u) = sign_of (strip s);
          (ip, u1) = digit_run u;
          (fp, u2) = (case u1 of [] \<Rightarrow> ([], []) | c # t \<Rightarrow> if c = CHR ''.'' then digit_run t else ([], u1))
      in if ip = [] \<and> fp = [] then None
         else map_option (\<lambda>e. sg * decimal ip fp * e) (exponent_of u2))"

text \<open>\<open>float(v)\<close> with \<open>TypeError\<close> and \<open>ValueError\<close> turned into \<open>None\<close>.\<close>

fun py_float :: "pyval \<Rightarrow> real option" where
  "py_float (PBool b) = Some (if b then 1 else 0)"
| "py_float (PInt i) = Some (of_int i)"
| "py_float (PFloat x) = Some x"
| "py_float (PStr s) = float_of_str s"
| "py_float _ = None"

fun show_nat :: "nat \<Rightarrow> string" where
  "show_nat n = (if n < 10 then [char_of (48 + n)] else show_nat (n div 10) @ [char_of (48 + n mod 10)])"

declare show_nat.simps [simp del]

definition show_int :: "int \<Rightarrow> string" where
  "show_int i = (if i < 0 then CHR ''-'' # show_nat (nat (- i)) else show_nat (nat i))"

definition py_str :: "(pyval \<Rightarrow> string) \<Rightarrow> pyval \<Rightarrow> string" where
  "py_str rp v =
     (case v of
        PStr s \<Rightarrow> s
      | PNone \<Rightarrow> ''None''
      | PBool b \<Rightarrow> (if b then ''True'' else ''False'')
      | PInt i \<Rightarrow> show_int i
      | _ \<Rightarrow> rp v)"

lemma py_str_PStr [simp]: "py_str rp (PStr s) = s"
  by (simp add: py_str_def)

text \<open>\<open>==\<close> on values: numbers compare across types, dictionaries ignore the order of keys.\<close>

fun num_of :: "pyval \<Rightarrow> real option" where
  "num_of (PBool b) = Some (if b then 1 else 0)"
| "num_of (PInt i) = Some (of_int i)"
| "num_of (PFloat x) = Some x"
| "num_of _ = None"

fun py_eq :: "pyval \<Rightarrow> pyval \<Rightarrow> bool" where
  "py_eq PNone w = (w = PNone)"
| "py_eq (PStr s) w = (w = PStr s)"
| "py_eq (PList xs) w = (case w of PList ys \<Rightarrow> list_all2 py_eq xs ys | _ \<Rightarrow> False)"
| "py_eq (PDict d) w =
     (case w of
        PDict e \<Rightarrow> length d = length e \<and>
          list_all (\<lambda>p. case dget e (fst p) of None \<Rightarrow> False | Some y \<Rightarrow> py_eq (snd p) y) d
      | _ \<Rightarrow> False)"
| "py_eq v w = (num_of v = num_of w)"

lemma digit_val_less: "is_digit c \<Longrightarrow> digit_val c < 10"
  by (auto simp: is_digit_def digit_val_def Let_def)

lemma nat_of_digits_snoc: "nat_of_digits (ds @ [c]) = 10 * nat_of_digits ds + digit_val c"
  by (simp add: nat_of_digits_def)

lemma digit_val_char_of: "n < 10 \<Longrightarrow> digit_val (char_of (48 + n)) = n"
  by (simp add: digit_val_def of_char_of)

text \<open>Printing a natural number and reading its digits back is the identity.\<close>

lemma nat_of_digits_show_nat: "nat_of_digits (show_nat n) = n"
proof (induction n rule: show_nat.induct)
  case (1 n)
  show ?case
  proof (cases "n < 10")
    case True
    then show ?thesis
      by (simp add: show_nat.simps [of n] nat_of_digits_def digit_val_char_of)
  next
    case False
    then have "nat_of_digits (show_nat n) = 10 * (n div 10) + n mod 10"
      using 1 by (subst show_nat.simps) (simp add: nat_of_digits_snoc digit_val_char_of)
    then show ?thesis by simp
  qed
qed

end
