(* ===== verification/PyPath.thy ===== *)
theory PyPath
  imports PyValue "HOL-Library.Product_Lexorder" "HOL-Library.List_Lexorder" "HOL-Library.Char_ord"
begin

text \<open>
  The pure part of \<open>pathlib.PurePosixPath\<close> on strings (\<open>name\<close>, \<open>stem\<close>, \<open>suffix\<close>, the name of
  the parent, joining), and the readers of a row of a JSONL file with Python's exceptions.
  The imports order tuples and strings the way Python compares them.
\<close>

definition path_parts :: "string \<Rightarrow> string list" where
  "path_parts s = filter (\<lambda>p. p \<noteq> [] \<and> p \<noteq> ''.'') (split_char (CHR ''/'') s)"

definition path_name :: "string \<Rightarrow> string" where
  "path_name s = (case rev (path_parts s) of [] \<Rightarrow> [] | p # _ \<Rightarrow> p)"

text \<open>A name splits at its last dot unless the dot is its first or its last character.\<close>

definition name_split :: "string \<Rightarrow> string \<times> string" where
  "name_split n =
     (if CHR ''.'' \<in> set n \<and> fst (rsplit1 (CHR ''.'') n) \<noteq> [] \<and> snd (rsplit1 (CHR ''.'') n) \<noteq> []
      then (fst (rsplit1 (CHR ''.'') n), CHR ''.'' # snd (rsplit1 (CHR ''.'') n)) else (n, []))"

definition pure_stem :: "string \<Rightarrow> string" where
  "pure_stem s = fst (name_split (path_name s))"

definition path_suffix :: "string \<Rightarrow> string" where
  "path_suffix s = snd (name_split (path_name s))"

definition path_parent_name :: "string \<Rightarrow> string" where
  "path_parent_name s = (case rev (path_parts s) of _ # p # _ \<Rightarrow> p | _ \<Rightarrow> [])"

definition path_join :: "string \<Rightarrow> string \<Rightarrow> string" where
  "path_join a b = (if a = [] then b else if b = [] then a else a @ ''/'' @ b)"

subsection \<open>Rows\<close>

definition float_res :: "pyval \<Rightarrow> real res" where
  "float_res v = (case py_float v of Some x \<Rightarrow> Inr x | None \<Rightarrow> Inl (if is_str v then ValueError else TypeError))"

text \<open>\<open>float(row.get(k, 0.0))\<close>, \<open>row[k]\<close> and \<open>str(row.get(k, ''))\<close>.\<close>

definition row_float :: "pydict \<Rightarrow> string \<Rightarrow> real res" where
  "row_float row k = float_res (dget_or row k (PFloat 0))"

definition row_item :: "pydict \<Rightarrow> string \<Rightarrow> pyval res" where
  "row_item row k = (case dget row k of None \<Rightarrow> Inl KeyError | Some v \<Rightarrow> Inr v)"

definition row_str :: "(pyval \<Rightarrow> string) \<Rightarrow> pydict \<Rightarrow> string \<Rightarrow> string" where
  "row_str rp row k = py_str rp (dget_or row k (PStr []))"

lemma dget_or_dset [simp]: "dget_or (dset k v d) k' w = (if k' = k then v else dget_or d k' w)"
  by (simp add: dget_or_def)

lemma row_str_dset [simp]:
  "row_str rp (dset k v d) k' = (if k' = k then py_str rp v else row_str rp d k')"
  by (simp add: row_str_def)

lemma row_item_dset [simp]: "row_item (dset k v d) k' = (if k' = k then Inr v else row_item d k')"
  by (simp add: row_item_def)

text \<open>The first of the keys whose value is a text that is not blank.\<close>

definition first_text :: "pydict \<Rightarrow> string list \<Rightarrow> string option" where
  "first_text row ks =
     (case List.find (\<lambda>k. case pget row k of PStr v \<Rightarrow> strip v \<noteq> [] | _ \<Rightarrow> False) ks of
        Some k \<Rightarrow> as_str (pget row k) | None \<Rightarrow> None)"

end
