(* ===== verification/PyRegex.thy ===== *)
theory PyRegex
  imports Prelude
begin

text \<open>
  The part of Python's \<open>re\<close> that the program uses, as a backtracking matcher.  A position
  in the subject is a pair of the text already passed (reversed) and the text ahead.
  Matching returns every way the expression can match at a position, best first: the order
  is the one in which Python's engine tries them (alternatives left to right, greedy
  repetition longest first, lazy repetition shortest first), so the first element is the
  match that \<open>re\<close> reports.  Groups are recorded with their text.
\<close>

datatype rx =
    Cls "char \<Rightarrow> bool"
  | Eps
  | Seq rx rx
  | Alt rx rx
  | Star bool rx
  | Grp nat rx
  | Bol
  | BolM
  | Eos
  | EolZ
  | EolM
  | WordB
  | Look rx

type_synonym rpos = "string \<times> string"
type_synonym groups = "(nat \<times> string) list"

subsection \<open>Repetition\<close>

text \<open>
  \<open>rx_iter n g f\<close> repeats \<open>f\<close> while it makes progress; every round shortens the text
  ahead, so as many rounds as that text has characters are enough.
\<close>

fun rx_iter :: "nat \<Rightarrow> bool \<Rightarrow> (rpos \<times> groups \<Rightarrow> (rpos \<times> groups) list) \<Rightarrow> rpos \<times> groups \<Rightarrow> (rpos \<times> groups) list" where
  "rx_iter 0 g f st = [st]"
| "rx_iter (Suc n) g f st =
     (let more = concat (map (rx_iter n g f)
                   (filter (\<lambda>st'. length (snd (fst st')) < length (snd (fst st))) (f st)))
      in if g then more @ [st] else st # more)"

definition passed :: "rpos \<Rightarrow> rpos \<Rightarrow> string" where
  "passed p q = take (length (snd p) - length (snd q)) (snd p)"

definition at_word_boundary :: "rpos \<Rightarrow> bool" where
  "at_word_boundary p =
     ((fst p \<noteq> [] \<and> is_word (hd (fst p))) \<noteq> (snd p \<noteq> [] \<and> is_word (hd (snd p))))"

fun rx_match :: "rx \<Rightarrow> rpos \<times> groups \<Rightarrow> (rpos \<times> groups) list" where
  "rx_match (Cls P) st =
     (case st of ((b, a), gs) \<Rightarrow>
        (case a of [] \<Rightarrow> [] | c # a' \<Rightarrow> if P c then [((c # b, a'), gs)] else []))"
| "rx_match Eps st = [st]"
| "rx_match (Seq r s) st = concat (map (rx_match s) (rx_match r st))"
| "rx_match (Alt r s) st = rx_match r st @ rx_match s st"
| "rx_match (Star g r) st = rx_iter (length (snd (fst st))) g (rx_match r) st"
| "rx_match (Grp n r) st =
     map (\<lambda>st'. (fst st', (n, passed (fst st) (fst st')) # snd st')) (rx_match r st)"
| "rx_match Bol st = (if fst (fst st) = [] then [st] else [])"
| "rx_match BolM st = (if fst (fst st) = [] \<or> hd (fst (fst st)) = CHR 0x0A then [st] else [])"
| "rx_match Eos st = (if snd (fst st) = [] then [st] else [])"
| "rx_match EolZ st = (if snd (fst st) = [] \<or> snd (fst st) = [CHR 0x0A] then [st] else [])"
| "rx_match EolM st = (if snd (fst st) = [] \<or> hd (snd (fst st)) = CHR 0x0A then [st] else [])"
| "rx_match WordB st = (if at_word_boundary (fst st) then [st] else [])"
| "rx_match (Look r) st = (if rx_match r st = [] then [] else [st])"

subsection \<open>Building expressions\<close>

definition chr_ci :: "char \<Rightarrow> char \<Rightarrow> bool" where
  "chr_ci c d = (lower_char c = lower_char d)"

fun seqs :: "rx list \<Rightarrow> rx" where
  "seqs [] = Eps"
| "seqs [r] = r"
| "seqs (r # rs) = Seq r (seqs rs)"

fun alts :: "rx list \<Rightarrow> rx" where
  "alts [] = Cls (\<lambda>_. False)"
| "alts [r] = r"
| "alts (r # rs) = Alt r (alts rs)"

definition lit :: "string \<Rightarrow> rx" where
  "lit s = seqs (map (\<lambda>c. Cls (\<lambda>d. d = c)) s)"

definition lit_ci :: "string \<Rightarrow> rx" where
  "lit_ci s = seqs (map (\<lambda>c. Cls (chr_ci c)) s)"

definition rx_opt :: "rx \<Rightarrow> rx" where
  "rx_opt r = Alt r Eps"

definition rx_plus :: "rx \<Rightarrow> rx" where
  "rx_plus r = Seq r (Star True r)"

fun rx_upto :: "nat \<Rightarrow> rx \<Rightarrow> rx" where
  "rx_upto 0 r = Eps"
| "rx_upto (Suc n) r = Alt (Seq r (rx_upto n r)) Eps"

definition dot_all :: rx where
  "dot_all = Cls (\<lambda>_. True)"

definition blank :: rx where
  "blank = Cls is_ws"

definition blanks :: rx where
  "blanks = Star True blank"

subsection \<open>Search, findall, split and sub\<close>

text \<open>The best match starting exactly here, with its groups and its end.\<close>

definition match_at :: "rx \<Rightarrow> rpos \<Rightarrow> (rpos \<times> groups) option" where
  "match_at r p = (case rx_match r (p, []) of [] \<Rightarrow> None | st # _ \<Rightarrow> Some st)"

text \<open>The leftmost match at or after a position: where it starts, where it ends, its groups.\<close>

fun search_from :: "rx \<Rightarrow> string \<Rightarrow> string \<Rightarrow> (rpos \<times> rpos \<times> groups) option" where
  "search_from r b [] = map_option (\<lambda>(q, gs). ((b, []), q, gs)) (match_at r (b, []))"
| "search_from r b (c # a) =
     (case match_at r (b, c # a) of
        Some (q, gs) \<Rightarrow> Some ((b, c # a), q, gs)
      | None \<Rightarrow> search_from r (c # b) a)"

definition re_search :: "rx \<Rightarrow> string \<Rightarrow> groups option" where
  "re_search r s = map_option (\<lambda>(p, q, gs). (0, passed p q) # gs) (search_from r [] s)"

definition re_test :: "rx \<Rightarrow> string \<Rightarrow> bool" where
  "re_test r s = (re_search r s \<noteq> None)"

definition re_match :: "rx \<Rightarrow> string \<Rightarrow> groups option" where
  "re_match r s = map_option (\<lambda>(q, gs). (0, passed ([], s) q) # gs) (match_at r ([], s))"

definition re_fullmatch :: "rx \<Rightarrow> string \<Rightarrow> bool" where
  "re_fullmatch r s = (\<exists>st \<in> set (rx_match r (([], s), [])). snd (fst st) = [])"

definition group :: "nat \<Rightarrow> groups \<Rightarrow> string" where
  "group n gs = dget_or gs n []"

text \<open>
  Successive leftmost matches that do not overlap, each with the unmatched text before it.
  A round consumes the match, or one character when the match is empty, so the length of
  the subject bounds the rounds.
\<close>

fun matches_from :: "nat \<Rightarrow> rx \<Rightarrow> rpos \<Rightarrow> (string \<times> string \<times> groups) list \<times> string" where
  "matches_from 0 r p = ([], snd p)"
| "matches_from (Suc n) r p =
     (case search_from r (fst p) (snd p) of
        None \<Rightarrow> ([], snd p)
      | Some (q0, q1, gs) \<Rightarrow>
          (if length (snd q1) < length (snd q0) then
             (let (ms, rest) = matches_from n r q1
              in ((passed p q0, passed q0 q1, gs) # ms, rest))
           else
             (case snd q1 of
                [] \<Rightarrow> ([(passed p q0, [], gs)], [])
              | c # a \<Rightarrow>
                  (let (ms, rest) = matches_from n r (c # fst q1, a)
                   in ((passed p q0, [], gs) #
                       (case ms of [] \<Rightarrow> [] | (pre, m, gs') # ms' \<Rightarrow> (c # pre, m, gs') # ms'),
                       if ms = [] then c # rest else rest)))))"

definition re_matches :: "rx \<Rightarrow> string \<Rightarrow> (string \<times> string \<times> groups) list \<times> string" where
  "re_matches r s = matches_from (Suc (length s)) r ([], s)"

text \<open>\<open>re.findall\<close> for a pattern without groups, and for one with a single group.\<close>

definition re_findall0 :: "rx \<Rightarrow> string \<Rightarrow> string list" where
  "re_findall0 r s = map (\<lambda>(pre, m, gs). m) (fst (re_matches r s))"

definition re_findall1 :: "rx \<Rightarrow> string \<Rightarrow> string list" where
  "re_findall1 r s = map (\<lambda>(pre, m, gs). group 1 gs) (fst (re_matches r s))"

definition re_split :: "rx \<Rightarrow> string \<Rightarrow> string list" where
  "re_split r s = (let (ms, rest) = re_matches r s in map fst ms @ [rest])"

text \<open>\<open>re.sub(r, f, s)\<close>, the replacement computed from the match.\<close>

definition re_sub :: "rx \<Rightarrow> (string \<times> groups \<Rightarrow> string) \<Rightarrow> string \<Rightarrow> string" where
  "re_sub r f s =
     (let (ms, rest) = re_matches r s
      in concat (map (\<lambda>(pre, m, gs). pre @ f (m, gs)) ms) @ rest)"

definition re_sub1 :: "rx \<Rightarrow> string \<Rightarrow> string \<Rightarrow> string" where
  "re_sub1 r new s =
     (case search_from r [] s of
        None \<Rightarrow> s
      | Some (p, q, gs) \<Rightarrow> rev (fst p) @ new @ snd q)"
subsection \<open>Matching loses no text\<close>

text \<open>\<open>q\<close> is reached from \<open>p\<close> by passing some text.\<close>

definition reaches :: "rpos \<Rightarrow> rpos \<Rightarrow> bool" where
  "reaches p q \<longleftrightarrow> (\<exists>m. snd p = m @ snd q \<and> fst q = rev m @ fst p)"

lemma reaches_refl [simp, intro]: "reaches p p"
  unfolding reaches_def by (rule exI [of _ "[]"]) simp

lemma reaches_trans: "reaches p q \<Longrightarrow> reaches q r \<Longrightarrow> reaches p r"
proof -
  assume "reaches p q" "reaches q r"
  then obtain m m' where "snd p = m @ snd q" "fst q = rev m @ fst p" "snd q = m' @ snd r" "fst r = rev m' @ fst q"
    by (auto simp: reaches_def)
  then show ?thesis unfolding reaches_def by (intro exI [of _ "m @ m'"]) simp
qed

lemma reaches_step [simp, intro]: "reaches (b, c # a) (c # b, a)"
  unfolding reaches_def by (rule exI [of _ "[c]"]) simp

lemma reaches_passed: "reaches p q \<Longrightarrow> snd p = passed p q @ snd q"
  by (auto simp: reaches_def passed_def)

lemma rx_iter_after:
  assumes "\<And>st st'. st' \<in> set (f st) \<Longrightarrow> reaches (fst st) (fst st')"
  shows "st' \<in> set (rx_iter n g f st) \<Longrightarrow> reaches (fst st) (fst st')"
proof (induction n arbitrary: st)
  case (Suc n)
  have "st' = st \<or> (\<exists>st1 \<in> set (f st). st' \<in> set (rx_iter n g f st1))"
    using Suc.prems by (cases g) (simp_all add: Let_def, blast+)
  then show ?case
  proof
    assume "\<exists>st1 \<in> set (f st). st' \<in> set (rx_iter n g f st1)"
    then obtain st1 where h: "st1 \<in> set (f st)" "st' \<in> set (rx_iter n g f st1)" by (rule bexE)
    have "reaches (fst st) (fst st1)" by (rule assms) (rule h(1))
    moreover have "reaches (fst st1) (fst st')" by (rule Suc.IH) (rule h(2))
    ultimately show ?thesis by (rule reaches_trans)
  qed simp
qed simp

lemma rx_match_after: "st' \<in> set (rx_match r st) \<Longrightarrow> reaches (fst st) (fst st')"
proof (induction r arbitrary: st st')
  case (Seq r s)
  then obtain st1 where "st1 \<in> set (rx_match r st)" "st' \<in> set (rx_match s st1)" by auto
  then show ?case by (intro reaches_trans [OF Seq.IH(1) Seq.IH(2)])
next
  case (Star g r)
  then show ?case using rx_iter_after [of "rx_match r"] by simp
next
  case (Cls P)
  then show ?case by (auto split: prod.splits list.splits if_splits)
qed (auto split: if_splits)

lemma match_at_after: "match_at r p = Some (q, gs) \<Longrightarrow> reaches p q"
  using rx_match_after [of "(q, gs)" r "(p, [])"] unfolding match_at_def
  by (auto split: list.splits)

lemma search_from_after:
  "search_from r b a = Some (q0, q1, gs) \<Longrightarrow> reaches (b, a) q0 \<and> reaches q0 q1"
proof (induction r b a rule: search_from.induct)
  case (1 r b)
  then show ?case by (auto dest: match_at_after)
next
  case (2 r b c a)
  then show ?case by (auto split: option.splits dest: match_at_after intro: reaches_trans)
qed

text \<open>The unmatched texts, the matches and the rest make up the subject.\<close>

lemma matches_from_text:
  "matches_from n r p = (ms, rest) \<Longrightarrow> concat (map (\<lambda>(pre, m, gs). pre @ m) ms) @ rest = snd p"
proof (induction n arbitrary: p ms rest)
  case 0
  then show ?case by simp
next
  case (Suc n)
  show ?case
  proof (cases "search_from r (fst p) (snd p)")
    case None
    then show ?thesis using Suc.prems by simp
  next
    case (Some x)
    then obtain q0 q1 gs where s: "search_from r (fst p) (snd p) = Some (q0, q1, gs)" by (cases x) auto
    then have a: "reaches p q0" "reaches q0 q1" using search_from_after [of r "fst p" "snd p"] by auto
    have t: "passed p q0 @ passed q0 q1 @ snd q1 = snd p"
      using reaches_passed [OF a(1)] reaches_passed [OF a(2)] by simp
    show ?thesis
    proof (cases "length (snd q1) < length (snd q0)")
      case True
      then show ?thesis using Suc.prems s t Suc.IH [of q1] by (auto simp: Let_def split: prod.splits)
    next
      case False
      then have e: "snd q0 = snd q1" using reaches_passed [OF a(2)] by (cases "passed q0 q1") auto
      then have pe: "passed p q0 @ snd q1 = snd p" using reaches_passed [OF a(1)] by simp
      show ?thesis
      proof (cases "snd q1")
        case Nil
        then show ?thesis using Suc.prems s e pe by auto
      next
        case (Cons c aa)
        obtain ms' rest' where m: "matches_from n r (c # fst q1, aa) = (ms', rest')" by fastforce
        have "concat (map (\<lambda>(pre, m, gs). pre @ m) ms') @ rest' = aa" using Suc.IH [OF m] by simp
        then show ?thesis using Suc.prems s e pe Cons m by (cases ms') (auto simp: Let_def)
      qed
    qed
  qed
qed

lemma re_matches_text:
  "re_matches r s = (ms, rest) \<Longrightarrow> concat (map (\<lambda>(pre, m, gs). pre @ m) ms) @ rest = s"
  unfolding re_matches_def by (drule matches_from_text) simp

end
