(* ===== verification/PyJson.thy ===== *)
theory PyJson
  imports PyValue
begin

text \<open>
  \<open>json.loads\<close> on a string, as the recursive-descent reader of the standard library: \<open>None\<close>
  is the \<open>JSONDecodeError\<close>.  A later pair of an object overwrites an earlier one with the
  same key.  The \<open>NaN\<close> and \<open>Infinity\<close> extensions have no value in \<open>pyval\<close> and are
  refused.  Every call of the mutual recursion passes less fuel, and each consumes a
  character before the next value is read, so the length of the text is enough.
\<close>

definition is_json_ws :: "char \<Rightarrow> bool" where
  "is_json_ws c = (c = CHR '' '' \<or> c = CHR 0x09 \<or> c = CHR 0x0A \<or> c = CHR 0x0D)"

definition skip_ws :: "string \<Rightarrow> string" where
  "skip_ws s = dropWhile is_json_ws s"

definition hex_val :: "char \<Rightarrow> nat option" where
  "hex_val c =
     (let n = of_char c :: nat in
      if 48 \<le> n \<and> n \<le> 57 then Some (n - 48)
      else if 65 \<le> n \<and> n \<le> 70 then Some (n - 55)
      else if 97 \<le> n \<and> n \<le> 102 then Some (n - 87)
      else None)"

definition hex4 :: "string \<Rightarrow> nat option" where
  "hex4 s =
     (if length s < 4 then None
      else case map hex_val (take 4 s) of
        [Some a, Some b, Some c, Some d] \<Rightarrow> Some (((a * 16 + b) * 16 + c) * 16 + d)
      | _ \<Rightarrow> None)"

definition utf8 :: "nat \<Rightarrow> string" where
  "utf8 n =
     (if n < 128 then [char_of n]
      else if n < 2048 then [char_of (192 + n div 64), char_of (128 + n mod 64)]
      else if n < 65536 then
        [char_of (224 + n div 4096), char_of (128 + n div 64 mod 64), char_of (128 + n mod 64)]
      else
        [char_of (240 + n div 262144), char_of (128 + n div 4096 mod 64),
         char_of (128 + n div 64 mod 64), char_of (128 + n mod 64)])"

text \<open>The code point of a \<open>\u\<close> escape, joining a surrogate pair, and what follows it.\<close>

definition unicode_escape :: "string \<Rightarrow> (nat \<times> string) option" where
  "unicode_escape s =
     (case hex4 s of
        None \<Rightarrow> None
      | Some hi \<Rightarrow>
          let r = drop 4 s in
          if 55296 \<le> hi \<and> hi \<le> 56319 \<and> starts_with [CHR 0x5C, CHR ''u''] r then
            (case hex4 (drop 2 r) of
               None \<Rightarrow> None
             | Some lo \<Rightarrow>
                 if 56320 \<le> lo \<and> lo \<le> 57343
                 then Some (65536 + (hi - 55296) * 1024 + (lo - 56320), drop 6 r)
                 else Some (hi, r))
          else Some (hi, r))"

definition simple_escape :: "char \<Rightarrow> char option" where
  "simple_escape c =
     (if c = CHR 0x22 \<or> c = CHR 0x5C \<or> c = CHR ''/'' then Some c
      else if c = CHR ''b'' then Some (CHR 0x08)
      else if c = CHR ''f'' then Some (CHR 0x0C)
      else if c = CHR ''n'' then Some (CHR 0x0A)
      else if c = CHR ''r'' then Some (CHR 0x0D)
      else if c = CHR ''t'' then Some (CHR 0x09)
      else None)"

text \<open>The rest of a string literal after its opening quote: its value and the text after it.\<close>

fun read_string :: "nat \<Rightarrow> string \<Rightarrow> (string \<times> string) option" where
  "read_string 0 s = None"
| "read_string (Suc n) [] = None"
| "read_string (Suc n) (c # s) =
     (if c = CHR 0x22 then Some ([], s)
      else if c = CHR 0x5C then
        (case s of
           [] \<Rightarrow> None
         | e # t \<Rightarrow>
             if e = CHR ''u'' then
               (case unicode_escape t of
                  None \<Rightarrow> None
                | Some (u, r) \<Rightarrow> map_option (\<lambda>(x, r'). (utf8 u @ x, r')) (read_string n r))
             else
               (case simple_escape e of
                  None \<Rightarrow> None
                | Some d \<Rightarrow> map_option (\<lambda>(x, r'). (d # x, r')) (read_string n t)))
      else if (of_char c :: nat) < 32 then None
      else map_option (\<lambda>(x, r). (c # x, r)) (read_string n s))"

definition int_part :: "string \<Rightarrow> (string \<times> string) option" where
  "int_part s =
     (case s of
        [] \<Rightarrow> None
      | c # t \<Rightarrow>
          if c = CHR ''0'' then Some ([c], t)
          else if is_digit c then Some (takeWhile is_digit s, dropWhile is_digit s)
          else None)"

definition frac_part :: "string \<Rightarrow> string \<times> string" where
  "frac_part s =
     (case s of
        c # d # t \<Rightarrow>
          if c = CHR ''.'' \<and> is_digit d then (takeWhile is_digit (d # t), dropWhile is_digit (d # t))
          else ([], s)
      | _ \<Rightarrow> ([], s))"

definition exp_part :: "string \<Rightarrow> (real option) \<times> string" where
  "exp_part s =
     (case s of
        [] \<Rightarrow> (None, s)
      | c # t \<Rightarrow>
          if c \<noteq> CHR ''e'' \<and> c \<noteq> CHR ''E'' then (None, s)
          else let (sg, u) = sign_of t; ds = takeWhile is_digit u in
            if ds = [] then (None, s)
            else (Some (if sg < 0 then 1 / 10 ^ nat_of_digits ds else 10 ^ nat_of_digits ds),
                  dropWhile is_digit u))"

definition read_number :: "string \<Rightarrow> (pyval \<times> string) option" where
  "read_number s =
     (let neg = starts_with ''-'' s; u = (if neg then tl s else s) in
      case int_part u of
        None \<Rightarrow> None
      | Some (ip, u1) \<Rightarrow>
          let (fp, u2) = frac_part u1; (e, u3) = exp_part u2 in
          if fp = [] \<and> e = None then
            Some (PInt (if neg then - int (nat_of_digits ip) else int (nat_of_digits ip)), u3)
          else
            Some (PFloat ((if neg then -1 else 1) * decimal ip fp * (case e of None \<Rightarrow> 1 | Some x \<Rightarrow> x)), u3))"

fun read_value :: "nat \<Rightarrow> string \<Rightarrow> (pyval \<times> string) option"
  and read_items :: "nat \<Rightarrow> string \<Rightarrow> (pyval list \<times> string) option"
  and read_pairs :: "nat \<Rightarrow> pydict \<Rightarrow> string \<Rightarrow> (pydict \<times> string) option"
where
  "read_value 0 s = None"
| "read_value (Suc n) s =
     (case s of
        [] \<Rightarrow> None
      | c # t \<Rightarrow>
          if c = CHR 0x22 then map_option (\<lambda>(x, r). (PStr x, r)) (read_string (length s) t)
          else if c = CHR ''{'' then
            (if starts_with ''}'' (skip_ws t) then Some (PDict [], tl (skip_ws t))
             else map_option (\<lambda>(d, r). (PDict d, r)) (read_pairs n [] (skip_ws t)))
          else if c = CHR ''['' then
            (if starts_with '']'' (skip_ws t) then Some (PList [], tl (skip_ws t))
             else map_option (\<lambda>(xs, r). (PList xs, r)) (read_items n (skip_ws t)))
          else if starts_with ''null'' s then Some (PNone, drop 4 s)
          else if starts_with ''true'' s then Some (PBool True, drop 4 s)
          else if starts_with ''false'' s then Some (PBool False, drop 5 s)
          else read_number s)"
| "read_items 0 s = None"
| "read_items (Suc n) s =
     (case read_value n s of
        None \<Rightarrow> None
      | Some (v, r) \<Rightarrow>
          let u = skip_ws r in
          if starts_with '']'' u then Some ([v], tl u)
          else if starts_with '','' u then
            map_option (\<lambda>(vs, r'). (v # vs, r')) (read_items n (skip_ws (tl u)))
          else None)"
| "read_pairs 0 d s = None"
| "read_pairs (Suc n) d s =
     (if \<not> starts_with [CHR 0x22] s then None
      else case read_string (length s) (tl s) of
        None \<Rightarrow> None
      | Some (k, r) \<Rightarrow>
          let u = skip_ws r in
          if \<not> starts_with '':'' u then None
          else case read_value n (skip_ws (tl u)) of
            None \<Rightarrow> None
          | Some (v, r') \<Rightarrow>
              let w = skip_ws r'; d' = dset k v d in
              if starts_with ''}'' w then Some (d', tl w)
              else if starts_with '','' w then read_pairs n d' (skip_ws (tl w))
              else None)"

definition json_loads :: "string \<Rightarrow> pyval option" where
  "json_loads s =
     (case read_value (Suc (2 * length s)) (skip_ws s) of
        None \<Rightarrow> None
      | Some (v, r) \<Rightarrow> if skip_ws r = [] then Some v else None)"

text \<open>A JSON object read from the text, when the text is one.\<close>

definition json_object :: "string \<Rightarrow> pydict option" where
  "json_object s = Option.bind (json_loads s) as_dict"

end
