(* ===== verification/GeoMath.thy ===== *)
theory GeoMath
  imports Prelude
begin

text \<open>
  Great-circle distance and the GeoScore, as the reward, the data selector, the latitude
  and longitude benchmark and the evaluation script compute them.  \<open>math.sqrt\<close> and
  \<open>math.asin\<close> raise outside their domain, so they return a result here, and that the
  haversine term stays inside the domain is a lemma, not an assumption.
\<close>

subsection \<open>The standard library functions with a domain\<close>

definition py_sqrt :: "real \<Rightarrow> real res" where
  "py_sqrt x = (if x < 0 then Inl ValueError else Inr (sqrt x))"

definition py_asin :: "real \<Rightarrow> real res" where
  "py_asin x = (if x < -1 \<or> 1 < x then Inl ValueError else Inr (arcsin x))"

definition radians :: "real \<Rightarrow> real" where
  "radians x = x * pi / 180"

subsection \<open>The haversine distance\<close>

definition haversine_a :: "real \<Rightarrow> real \<Rightarrow> real \<Rightarrow> real \<Rightarrow> real" where
  "haversine_a lat1 lon1 lat2 lon2 =
     (let p1 = radians lat1; l1 = radians lon1; p2 = radians lat2; l2 = radians lon2;
          dlat = p2 - p1; dlon = l2 - l1
      in (sin (dlat / 2))\<^sup>2 + cos p1 * cos p2 * (sin (dlon / 2))\<^sup>2)"

text \<open>\<open>GeoScoreAccuracy._calculate_distance\<close>: no guard around the arc sine.\<close>

definition calculate_distance :: "real \<Rightarrow> real \<Rightarrow> real \<Rightarrow> real \<Rightarrow> real res" where
  "calculate_distance lat1 lon1 lat2 lon2 =
     res_bind (py_sqrt (haversine_a lat1 lon1 lat2 lon2)) (\<lambda>s.
     res_bind (py_asin s) (\<lambda>a. Inr (2 * a * 6371)))"

text \<open>\<open>geodesic_km\<close> of the selector: the root is capped at 1 first.\<close>

definition geodesic_km :: "real \<Rightarrow> real \<Rightarrow> real \<Rightarrow> real \<Rightarrow> real res" where
  "geodesic_km lat1 lon1 lat2 lon2 =
     res_bind (py_sqrt (haversine_a lat1 lon1 lat2 lon2)) (\<lambda>s.
     res_bind (py_asin (min 1 s)) (\<lambda>a. Inr (6371 * (2 * a))))"

text \<open>The distance as a total function, which the lemmas below justify.\<close>

definition gc_dist :: "real \<Rightarrow> real \<Rightarrow> real \<Rightarrow> real \<Rightarrow> real" where
  "gc_dist lat1 lon1 lat2 lon2 = 2 * arcsin (sqrt (haversine_a lat1 lon1 lat2 lon2)) * 6371"

subsection \<open>The haversine term lies in the unit interval\<close>

lemma dot_bound:
  fixes s1 c1 s2 c2 k :: real
  assumes "s1\<^sup>2 + c1\<^sup>2 = 1" and "s2\<^sup>2 + c2\<^sup>2 = 1" and "\<bar>k\<bar> \<le> 1"
  shows "\<bar>s1 * s2 + c1 * c2 * k\<bar> \<le> 1"
proof -
  have "\<bar>c1 * c2 * k\<bar> \<le> \<bar>c1 * c2\<bar>"
    using assms(3) by (simp add: abs_mult mult_left_le)
  moreover have "2 * \<bar>s1 * s2\<bar> \<le> s1\<^sup>2 + s2\<^sup>2"
    using sum_squares_bound [of "\<bar>s1\<bar>" "\<bar>s2\<bar>"] by (simp add: abs_mult)
  moreover have "2 * \<bar>c1 * c2\<bar> \<le> c1\<^sup>2 + c2\<^sup>2"
    using sum_squares_bound [of "\<bar>c1\<bar>" "\<bar>c2\<bar>"] by (simp add: abs_mult)
  ultimately show ?thesis using assms(1,2) by linarith
qed

lemma sin_half_sq: "(sin (x / 2))\<^sup>2 = (1 - cos x) / (2::real)"
  using cos_double_sin [of "x / 2"] by simp

lemma haversine_a_dot:
  "haversine_a lat1 lon1 lat2 lon2 =
     (1 - (sin (radians lat1) * sin (radians lat2)
           + cos (radians lat1) * cos (radians lat2) * cos (radians lon2 - radians lon1))) / 2"
  by (simp add: haversine_a_def Let_def sin_half_sq cos_diff algebra_simps diff_divide_distrib)
     (simp add: field_simps)

lemma haversine_a_bounds: "0 \<le> haversine_a lat1 lon1 lat2 lon2 \<and> haversine_a lat1 lon1 lat2 lon2 \<le> 1"
proof -
  have "\<bar>sin (radians lat1) * sin (radians lat2)
          + cos (radians lat1) * cos (radians lat2) * cos (radians lon2 - radians lon1)\<bar> \<le> 1"
    by (rule dot_bound) simp_all
  then show ?thesis unfolding haversine_a_dot by (simp add: abs_le_iff)
qed

lemma haversine_a_sym: "haversine_a lat1 lon1 lat2 lon2 = haversine_a lat2 lon2 lat1 lon1"
proof -
  have "cos (radians lon2 - radians lon1) = cos (radians lon1 - radians lon2)"
    by (metis cos_minus minus_diff_eq)
  then show ?thesis by (simp add: haversine_a_dot mult.commute)
qed

lemma haversine_a_same [simp]: "haversine_a lat lon lat lon = 0"
  by (simp add: haversine_a_def)

lemma sqrt_haversine_bounds:
  "0 \<le> sqrt (haversine_a lat1 lon1 lat2 lon2) \<and> sqrt (haversine_a lat1 lon1 lat2 lon2) \<le> 1"
  using haversine_a_bounds by simp

lemma minus_one_le_sqrt_haversine: "-1 \<le> sqrt (haversine_a lat1 lon1 lat2 lon2)"
  using sqrt_haversine_bounds [of lat1 lon1 lat2 lon2] by linarith

lemma min_sqrt_haversine:
  "min 1 (sqrt (haversine_a lat1 lon1 lat2 lon2)) = sqrt (haversine_a lat1 lon1 lat2 lon2)"
  by (rule min_absorb2) (use sqrt_haversine_bounds in blast)

lemma calculate_distance_eq [simp]:
  "calculate_distance lat1 lon1 lat2 lon2 = Inr (gc_dist lat1 lon1 lat2 lon2)"
  using haversine_a_bounds [of lat1 lon1 lat2 lon2]
  by (simp add: calculate_distance_def py_sqrt_def py_asin_def gc_dist_def not_less minus_one_le_sqrt_haversine)

lemma geodesic_km_eq [simp]:
  "geodesic_km lat1 lon1 lat2 lon2 = Inr (gc_dist lat1 lon1 lat2 lon2)"
  using haversine_a_bounds [of lat1 lon1 lat2 lon2]
  by (simp add: geodesic_km_def py_sqrt_def py_asin_def gc_dist_def not_less min_sqrt_haversine
      minus_one_le_sqrt_haversine)

lemma gc_dist_same [simp]: "gc_dist lat lon lat lon = 0"
  by (simp add: gc_dist_def)

lemma gc_dist_nonneg [simp]: "0 \<le> gc_dist lat1 lon1 lat2 lon2"
  using sqrt_haversine_bounds [of lat1 lon1 lat2 lon2] arcsin_le_arcsin [of 0 "sqrt (haversine_a lat1 lon1 lat2 lon2)"]
  by (simp add: gc_dist_def)

lemma gc_dist_le: "gc_dist lat1 lon1 lat2 lon2 \<le> 6371 * pi"
  using sqrt_haversine_bounds [of lat1 lon1 lat2 lon2] arcsin_ubound [of "sqrt (haversine_a lat1 lon1 lat2 lon2)"]
  by (simp add: gc_dist_def minus_one_le_sqrt_haversine)

lemma gc_dist_sym: "gc_dist lat1 lon1 lat2 lon2 = gc_dist lat2 lon2 lat1 lon1"
  by (simp add: gc_dist_def haversine_a_sym [of lat1 lon1])

subsection \<open>The GeoScore\<close>

text \<open>The training reward: \<open>GeoScoreAccuracy._calculate_geoscore\<close> and the selector's copy.\<close>

definition calculate_geoscore :: "real \<Rightarrow> real \<Rightarrow> real" where
  "calculate_geoscore max_distance distance =
     (if max_distance \<le> distance then 0 else exp (-10 * (distance / max_distance)))"

text \<open>The reported score of the metric class (no cut-off, scaled to 5000).\<close>

definition metric_geoscore :: "real \<Rightarrow> real \<Rightarrow> real" where
  "metric_geoscore max_distance distance = 5000 * exp (-10 * (distance / max_distance))"

definition report_geoscore :: "real \<Rightarrow> real" where
  "report_geoscore distance_km = 5000 * exp (-10 * distance_km / 18050)"

lemma calculate_geoscore_bounds:
  assumes "0 \<le> d"
  shows "0 \<le> calculate_geoscore m d \<and> calculate_geoscore m d \<le> 1"
  using assms by (auto simp: calculate_geoscore_def divide_nonneg_pos)

lemma calculate_geoscore_antimono:
  assumes "0 \<le> d" and "d \<le> d'"
  shows "calculate_geoscore m d' \<le> calculate_geoscore m d"
  using assms by (auto simp: calculate_geoscore_def divide_right_mono)

lemma calculate_geoscore_zero [simp]: "0 < m \<Longrightarrow> calculate_geoscore m 0 = 1"
  by (simp add: calculate_geoscore_def)

lemma calculate_geoscore_pos_iff: "0 < calculate_geoscore m d \<longleftrightarrow> d < m"
  by (simp add: calculate_geoscore_def)

lemma report_geoscore_metric: "report_geoscore d = metric_geoscore 18050 d"
  by (simp add: report_geoscore_def metric_geoscore_def)

lemma metric_geoscore_bounds:
  assumes "0 \<le> d" and "0 < m"
  shows "0 < metric_geoscore m d \<and> metric_geoscore m d \<le> 5000"
  using assms by (simp add: metric_geoscore_def divide_nonneg_pos)

subsection \<open>Properties\<close>

text \<open>
  C25. The distance of the reward never raises (the term under the root and the argument of
  the arc sine stay in their domains for every four coordinates), lies between 0 and half
  the circumference of the modelled sphere, is symmetric, is 0 from a point to itself, and
  equals the selector's capped variant.
\<close>

theorem distance_total_and_metric:
  "\<exists>d. calculate_distance lat1 lon1 lat2 lon2 = Inr d \<and> geodesic_km lat1 lon1 lat2 lon2 = Inr d
     \<and> 0 \<le> d \<and> d \<le> 6371 * pi
     \<and> calculate_distance lat2 lon2 lat1 lon1 = Inr d
     \<and> calculate_distance lat1 lon1 lat1 lon1 = Inr 0"
  by (simp add: gc_dist_le gc_dist_sym [of lat2 lon2])

end
