(* ===== verification/GeoCoder.thy ===== *)
theory GeoCoder
  imports PyValue PyRegex
begin

text \<open>
  The OpenCage client of the reward (\<open>GeoScoreAccuracy\<close> of \<open>swift/rewards/orm.py\<close>) and of
  the evaluation script's local fallback: API keys, the write-once address cache in memory
  and on disk, and the retrying geocoding call.  The service is the parameter \<open>net\<close>: what
  the n-th request with a given query text brings back.  A call that still waits when its
  fuel is spent is \<open>None\<close>; fuel is the depth of the source's recursion.
\<close>

subsection \<open>Dynamic access\<close>

definition py_item :: "pyval \<Rightarrow> string \<Rightarrow> pyval res" where
  "py_item v k =
     (case v of
        PDict d \<Rightarrow> (case dget d k of None \<Rightarrow> Inl KeyError | Some w \<Rightarrow> Inr w)
      | _ \<Rightarrow> Inl TypeError)"

definition py_get :: "pyval \<Rightarrow> string \<Rightarrow> pyval \<Rightarrow> pyval res" where
  "py_get v k dflt = (case v of PDict d \<Rightarrow> Inr (dget_or d k dflt) | _ \<Rightarrow> Inl AttributeError)"

definition py_in :: "string \<Rightarrow> pyval \<Rightarrow> bool res" where
  "py_in k v =
     (case v of
        PDict d \<Rightarrow> Inr (has_key d k)
      | PList xs \<Rightarrow> Inr (list_ex (py_eq (PStr k)) xs)
      | PStr s \<Rightarrow> Inr (contains k s)
      | _ \<Rightarrow> Inl TypeError)"

definition py_len :: "pyval \<Rightarrow> nat res" where
  "py_len v =
     (case v of
        PDict d \<Rightarrow> Inr (length d) | PList xs \<Rightarrow> Inr (length xs) | PStr s \<Rightarrow> Inr (length s)
      | _ \<Rightarrow> Inl TypeError)"

text \<open>\<open>v[0]\<close>; a dictionary read from JSON has no key 0.\<close>

definition py_first :: "pyval \<Rightarrow> pyval res" where
  "py_first v =
     (case v of
        PList [] \<Rightarrow> Inl IndexError | PList (x # _) \<Rightarrow> Inr x
      | PStr [] \<Rightarrow> Inl IndexError | PStr (c # _) \<Rightarrow> Inr (PStr [c])
      | PDict _ \<Rightarrow> Inl KeyError
      | _ \<Rightarrow> Inl TypeError)"

text \<open>\<open>int(v)\<close>.\<close>

definition py_int :: "pyval \<Rightarrow> int res" where
  "py_int v =
     (case v of
        PBool b \<Rightarrow> Inr (if b then 1 else 0)
      | PInt i \<Rightarrow> Inr i
      | PFloat x \<Rightarrow> Inr (if 0 \<le> x then \<lfloor>x\<rfloor> else \<lceil>x\<rceil>)
      | PStr s \<Rightarrow>
          (let (sg, u) = sign_of (strip s); (ds, r) = digit_run u in
           if ds = [] \<or> r \<noteq> [] then Inl ValueError
           else Inr (if sg < 0 then - int (nat_of_digits ds) else int (nat_of_digits ds)))
      | _ \<Rightarrow> Inl TypeError)"

subsection \<open>Configuration\<close>

text \<open>
  \<open>exn_text\<close> is the text of an exception that reading a body raises; it depends on the client and
  the body (a \<open>KeyError\<close> names the first key the client misses).
\<close>

record geo_config =
  api_list :: "string list"
  api_key :: string
  max_distance :: real
  daily_limit :: nat
  rate_limit_retry_seconds :: real
  quota_retry_seconds :: real
  has_cache_file :: bool
  exn_text :: "pyval \<Rightarrow> py_exn \<Rightarrow> string"

text \<open>The argument is \<open>None\<close>, one string, or a list whose elements print as strings.\<close>

definition split_api_keys :: "string list option \<Rightarrow> string list" where
  "split_api_keys api_keys =
     (case api_keys of
        None \<Rightarrow> []
      | Some raw_keys \<Rightarrow>
          concat (map (\<lambda>raw. filter (\<lambda>k. k \<noteq> []) (map strip (split_ws (replace_char (CHR '','') '' '' raw))))
            raw_keys))"

definition resolve_api_keys ::
  "string list option option \<Rightarrow> string option \<Rightarrow> string list option \<Rightarrow> string list res" where
  "resolve_api_keys args_keys env_keys api_keys =
     (let k1 = split_api_keys api_keys;
          k2 = (case args_keys of Some a \<Rightarrow> if k1 = [] then split_api_keys a else k1 | None \<Rightarrow> k1);
          k3 = (if k2 = [] then split_api_keys (map_option (\<lambda>e. [e]) env_keys) else k2)
      in if k3 = [] then Inl ValueError else Inr k3)"

definition resolve_max_distance :: "real option \<Rightarrow> real \<Rightarrow> real" where
  "resolve_max_distance args_distance md = (case args_distance of Some d \<Rightarrow> d | None \<Rightarrow> md)"

text \<open>The key of this process: its GPU number modulo the number of keys.\<close>

definition select_api_key :: "int \<Rightarrow> string list \<Rightarrow> string" where
  "select_api_key current_gpu keys =
     (let key_index = (if 0 \<le> current_gpu then nat current_gpu else 0) in keys ! (key_index mod length keys))"

definition mask_api_key :: "string \<Rightarrow> string" where
  "mask_api_key k = (if length k \<le> 8 then ''***'' else ''***'' @ drop (length k - 4) k)"

definition url_key_re :: rx where
  "url_key_re =
     seqs [Grp 1 (Seq (Cls (\<lambda>c. c = CHR ''?'' \<or> c = CHR ''&'')) (lit ''key='')),
           rx_plus (Cls (\<lambda>c. c \<noteq> CHR ''&'' \<and> \<not> is_ws c))]"

definition sanitize_api_error :: "string list \<Rightarrow> string \<Rightarrow> string" where
  "sanitize_api_error keys error =
     re_sub url_key_re (\<lambda>(m, gs). group 1 gs @ ''***'')
       (fold (\<lambda>key message. if key = [] then message else replace key (mask_api_key key) message) keys error)"

subsection \<open>Cache keys\<close>

text \<open>The query text and the first step of the cache key: every separator becomes a comma.\<close>

definition comma_separated :: "string \<Rightarrow> string" where
  "comma_separated a = replace fw_comma '','' (replace fw_semicolon '','' (replace_char (CHR '';'') '','' a))"

definition cache_key :: "string \<Rightarrow> string" where
  "cache_key address =
     (let n1 = comma_separated address;
          n2 = re_sub (seqs [blanks, lit '','', blanks]) (\<lambda>_. '','') n1
      in lower (strip (re_sub (rx_plus blank) (\<lambda>_. '' '') n2)))"

subsection \<open>The client and its cache\<close>

datatype cache_disk = No_file | Unreadable | Holds pydict

record geo_client =
  query_count :: nat
  mem_cache :: pydict
  disk :: cache_disk
  sent :: nat
  slept :: "real list"

definition read_cache_file :: "geo_config \<Rightarrow> cache_disk \<Rightarrow> pydict" where
  "read_cache_file C f =
     (if \<not> has_cache_file C then [] else case f of Holds d \<Rightarrow> d | Unreadable \<Rightarrow> [] | No_file \<Rightarrow> [])"

definition get_cached_geocoding :: "geo_config \<Rightarrow> string \<Rightarrow> geo_client \<Rightarrow> pyval \<times> geo_client" where
  "get_cached_geocoding C address s =
     (let key = cache_key address in
      case dget (mem_cache s) key of
        Some v \<Rightarrow> (v, s)
      | None \<Rightarrow>
          (case dget (read_cache_file C (disk s)) key of
             Some v \<Rightarrow> (v, s\<lparr>mem_cache := dset key v (mem_cache s)\<rparr>)
           | None \<Rightarrow> (PNone, s)))"

definition write_cache_once :: "geo_config \<Rightarrow> string \<Rightarrow> pyval \<Rightarrow> geo_client \<Rightarrow> geo_client" where
  "write_cache_once C address result s =
     (let key = cache_key address in
      if has_key (mem_cache s) key then s
      else if \<not> has_cache_file C then s\<lparr>mem_cache := dset key result (mem_cache s)\<rparr>
      else
        let disk_cache = read_cache_file C (disk s) in
        if has_key disk_cache key then s\<lparr>mem_cache := disk_cache\<rparr>
        else
          let d = dset key result disk_cache in
          s\<lparr>disk := Holds d, mem_cache := d\<rparr>)"

subsection \<open>What one request leads to\<close>

record http_response =
  status_code :: int
  retry_after :: "string option"
  resp_body :: "pyval option"
  err_text :: string

text \<open>
  A request raises a \<open>RequestException\<close>, raises something else, or is answered.
  \<open>err_text\<close> is the text of the exception that \<open>raise_for_status\<close> or \<open>json\<close> raises for the
  response; \<open>resp_body\<close> is \<open>None\<close> when the body is not JSON, which \<open>requests\<close> reports as a
  \<open>RequestException\<close> too.
\<close>

datatype http_outcome =
    Request_failed string
  | Other_failed string
  | Responded http_response

datatype geo_action =
    Answered pyval
  | Shorter string
  | Throttled "string option"
  | Again

definition usage_codes :: "int list" where
  "usage_codes = [402, 429, 503]"

definition is_usage_limit_status :: "pyval \<Rightarrow> bool res" where
  "is_usage_limit_status code =
     (case code of
        PList _ \<Rightarrow> Inl TypeError | PDict _ \<Rightarrow> Inl TypeError
      | _ \<Rightarrow> Inr (list_ex (\<lambda>c. py_eq code (PInt c)) usage_codes))"

definition error_result :: "pyval \<Rightarrow> pyval \<Rightarrow> string \<Rightarrow> pyval" where
  "error_result code message address =
     PDict [(''status'', PStr ''error''), (''code'', code), (''message'', message), (''address'', PStr address)]"

definition invalid_query :: "string \<Rightarrow> pyval" where
  "invalid_query address =
     PDict [(''status'', PStr ''error''), (''message'', PStr ''invalid geocoding query''),
            (''address'', PStr address)]"

definition success_result :: "pyval \<Rightarrow> pyval \<Rightarrow> pyval \<Rightarrow> pyval \<Rightarrow> pyval \<Rightarrow> pyval" where
  "success_result lng lat confidence formatted components =
     PDict [(''status'', PStr ''success''), (''longitude'', lng), (''latitude'', lat),
            (''confidence'', confidence), (''formatted_address'', formatted), (''components'', components)]"

text \<open>Printing the remaining quota needs a number: \<open>remaining % 100\<close>, \<open>remaining < 20\<close>.\<close>

definition check_rate :: "pyval \<Rightarrow> unit res" where
  "check_rate data =
     res_bind (py_in ''rate'' data) (\<lambda>b.
       if \<not> b then Inr ()
       else res_bind (py_item data ''rate'') (\<lambda>rate.
            res_bind (py_in ''remaining'' rate) (\<lambda>b2.
              if \<not> b2 then Inr ()
              else res_bind (py_item rate ''remaining'') (\<lambda>rem.
                   if num_of rem = None then Inl TypeError else Inr ()))))"

text \<open>The first result: the reward reads the latitude first, the evaluation script the longitude.\<close>

definition first_place :: "pyval \<Rightarrow> pyval res" where
  "first_place results =
     res_bind (py_first results) (\<lambda>place.
     res_bind (py_item place ''geometry'') (\<lambda>coordinates.
     res_bind (py_item coordinates ''lat'') (\<lambda>lat.
     res_bind (py_item coordinates ''lng'') (\<lambda>lng.
     res_bind (py_get place ''components'' (PDict [])) (\<lambda>components.
     res_bind (py_get place ''formatted'' (PStr [])) (\<lambda>formatted.
     res_bind (py_get place ''confidence'' (PInt 0)) (\<lambda>confidence.
       Inr (success_result lng lat confidence formatted components))))))))"

definition local_place :: "pyval \<Rightarrow> pyval res" where
  "local_place results =
     res_bind (py_first results) (\<lambda>place.
     res_bind (py_item place ''geometry'') (\<lambda>coordinates.
     res_bind (py_item coordinates ''lng'') (\<lambda>lng.
     res_bind (py_item coordinates ''lat'') (\<lambda>lat.
     res_bind (py_get place ''confidence'' (PInt 0)) (\<lambda>confidence.
     res_bind (py_get place ''formatted'' (PStr [])) (\<lambda>formatted.
     res_bind (py_get place ''components'' (PDict [])) (\<lambda>components.
       Inr (success_result lng lat confidence formatted components))))))))"

definition shorten :: "string \<Rightarrow> string option" where
  "shorten address =
     (let parts = split_char (CHR '';'') address in
      if 1 < length parts then Some (join '';'' (butlast parts)) else None)"

text \<open>The body of an answered request, as the reward reads it.\<close>

definition orm_read :: "string \<Rightarrow> nat \<Rightarrow> pyval \<Rightarrow> geo_action res" where
  "orm_read address retry_count data =
     res_bind (check_rate data) (\<lambda>_.
     res_bind (py_item data ''status'') (\<lambda>status.
     res_bind (py_item status ''code'') (\<lambda>code.
       if py_eq code (PInt 200) then
         res_bind (py_item data ''results'') (\<lambda>results.
         res_bind (py_len results) (\<lambda>n.
           if n = 0 then
             res_bind (py_item status ''message'') (\<lambda>message.
               case shorten address of
                 Some a \<Rightarrow> Inr (Shorter a)
               | None \<Rightarrow> Inr (Answered (error_result (PInt 200) message address)))
           else
             res_bind (first_place results) (\<lambda>r. Inr (Answered r))))
       else
         res_bind (is_usage_limit_status code) (\<lambda>limited.
           if limited then
             Inr (Throttled None)
           else
             res_bind (py_item status ''message'') (\<lambda>message.
               if py_eq code (PInt 410) then
                 (case shorten address of
                    Some a \<Rightarrow> Inr (Shorter a)
                  | None \<Rightarrow> Inr (Answered (error_result (PInt 410) message address)))
               else if py_eq code (PInt 408) then
                 (if retry_count < 5 then Inr Again
                  else Inr (Answered (error_result (PInt 408) message address)))
               else if py_eq code (PInt 403) then
                 Inr (Answered (error_result (PInt 403) message address))
               else
                 Inr (Answered (error_result code message address)))))))"

text \<open>The same step of the evaluation script's fallback.\<close>

definition local_read :: "string \<Rightarrow> nat \<Rightarrow> pyval \<Rightarrow> geo_action res" where
  "local_read address retry_count data =
     res_bind (py_get data ''status'' (PDict [])) (\<lambda>status.
     res_bind (py_get status ''code'' PNone) (\<lambda>code.
     res_bind (py_get status ''message'' PNone) (\<lambda>message.
       if py_eq code (PInt 200) then
         res_bind (py_get data ''results'' PNone) (\<lambda>results.
           if \<not> truthy results then
             (case shorten address of
                Some a \<Rightarrow> Inr (Shorter a)
              | None \<Rightarrow> Inr (Answered (error_result (PInt 200) message address)))
           else
             res_bind (local_place results) (\<lambda>r. Inr (Answered r)))
       else
         res_bind (py_int code) (\<lambda>i.
           if i \<in> set usage_codes then Inr (Throttled None)
           else if py_eq code (PInt 410) \<and> shorten address \<noteq> None then
             Inr (Shorter (the (shorten address)))
           else if py_eq code (PInt 408) \<and> retry_count < 5 then Inr Again
           else Inr (Answered (error_result code message address))))))"

text \<open>The \<open>RequestException\<close> handler, the same in both clients.\<close>

definition on_request_error :: "geo_config \<Rightarrow> string \<Rightarrow> nat \<Rightarrow> string \<Rightarrow> geo_action" where
  "on_request_error C address retry_count msg =
     (if retry_count < 5 then Again
      else Answered (error_result (PInt 0) (PStr (sanitize_api_error (api_list C) msg)) address))"

definition on_outcome ::
  "(string \<Rightarrow> nat \<Rightarrow> pyval \<Rightarrow> geo_action res) \<Rightarrow> geo_config \<Rightarrow> string \<Rightarrow> nat \<Rightarrow> http_outcome \<Rightarrow> geo_action" where
  "on_outcome read C address retry_count outcome =
     (case outcome of
        Request_failed msg \<Rightarrow> on_request_error C address retry_count msg
      | Other_failed msg \<Rightarrow> Answered (error_result (PInt 999) (PStr msg) address)
      | Responded rsp \<Rightarrow>
          if status_code rsp \<in> set usage_codes then Throttled (retry_after rsp)
          else if 400 \<le> status_code rsp \<and> status_code rsp < 600 then
            on_request_error C address retry_count (err_text rsp)
          else
            (case resp_body rsp of
               None \<Rightarrow> on_request_error C address retry_count (err_text rsp)
             | Some data \<Rightarrow>
                 (case read address retry_count data of
                    Inl e \<Rightarrow> Answered (error_result (PInt 999) (PStr (exn_text C data e)) address)
                  | Inr act \<Rightarrow> act)))"

subsection \<open>The geocoding call\<close>

definition sleep_for_usage_limit :: "geo_config \<Rightarrow> nat \<Rightarrow> string option \<Rightarrow> geo_client \<Rightarrow> geo_client" where
  "sleep_for_usage_limit C retry_count after s =
     (let w1 = (case Option.bind after float_of_str of
                  None \<Rightarrow> rate_limit_retry_seconds C
                | Some x \<Rightarrow> max (rate_limit_retry_seconds C) x);
          w2 = (if 5 \<le> retry_count then max w1 (quota_retry_seconds C) else w1)
      in s\<lparr>slept := slept s @ [w2]\<rparr>)"

definition number_re :: rx where
  "number_re =
     seqs [rx_opt (Cls (\<lambda>c. c = CHR ''-'' \<or> c = CHR ''+'')), rx_plus (Cls is_digit),
           rx_opt (seqs [lit ''.'', rx_plus (Cls is_digit)])]"

definition invalid_address :: "string \<Rightarrow> bool" where
  "invalid_address address = (address = [] \<or> re_fullmatch number_re address)"

fun geo_call ::
  "(string \<Rightarrow> nat \<Rightarrow> pyval \<Rightarrow> geo_action res) \<Rightarrow> nat \<Rightarrow> geo_config \<Rightarrow> (nat \<Rightarrow> string \<Rightarrow> http_outcome)
     \<Rightarrow> string \<Rightarrow> nat \<Rightarrow> geo_client \<Rightarrow> (pyval \<times> geo_client) option" where
  "geo_call read 0 C net raw retry_count s = None"
| "geo_call read (Suc n) C net raw retry_count s =
     (let address = strip raw in
      if invalid_address address then Some (invalid_query address, s)
      else
        let (cached, s1) = (if retry_count = 0 then get_cached_geocoding C address s else (PNone, s)) in
        if cached \<noteq> PNone then Some (cached, s1)
        else
          let s2 = s1\<lparr>query_count := query_count s1 + 1\<rparr> in
          if daily_limit C < query_count s2 then
            geo_call read n C net address (retry_count + 1)
              ((sleep_for_usage_limit C retry_count None s2)\<lparr>query_count := 0\<rparr>)
          else
            let s3 = s2\<lparr>sent := sent s2 + 1\<rparr> in
            case on_outcome read C address retry_count (net (sent s2) (comma_separated address)) of
              Answered r \<Rightarrow> Some (r, write_cache_once C address r s3)
            | Shorter a \<Rightarrow>
                (case geo_call read n C net a retry_count s3 of
                   None \<Rightarrow> None
                 | Some (r, s4) \<Rightarrow> Some (r, write_cache_once C address r s4))
            | Throttled after \<Rightarrow>
                geo_call read n C net address (retry_count + 1) (sleep_for_usage_limit C retry_count after s3)
            | Again \<Rightarrow>
                geo_call read n C net address (retry_count + 1) (s3\<lparr>slept := slept s3 @ [1 / 10]\<rparr>))"

declare geo_call.simps(2) [simp del]

definition call_opencage_geocoding ::
  "nat \<Rightarrow> geo_config \<Rightarrow> (nat \<Rightarrow> string \<Rightarrow> http_outcome) \<Rightarrow> string \<Rightarrow> nat \<Rightarrow> geo_client \<Rightarrow> (pyval \<times> geo_client) option" where
  "call_opencage_geocoding = geo_call orm_read"

definition local_call_opencage_geocoding ::
  "nat \<Rightarrow> geo_config \<Rightarrow> (nat \<Rightarrow> string \<Rightarrow> http_outcome) \<Rightarrow> string \<Rightarrow> nat \<Rightarrow> geo_client \<Rightarrow> (pyval \<times> geo_client) option" where
  "local_call_opencage_geocoding = geo_call local_read"

subsection \<open>The cache as a write-once store\<close>

definition disk_lookup :: "geo_config \<Rightarrow> geo_client \<Rightarrow> string \<Rightarrow> pyval option" where
  "disk_lookup C s k = dget (read_cache_file C (disk s)) k"

definition cache_lookup :: "geo_config \<Rightarrow> geo_client \<Rightarrow> string \<Rightarrow> pyval option" where
  "cache_lookup C s k =
     (case dget (mem_cache s) k of Some v \<Rightarrow> Some v | None \<Rightarrow> disk_lookup C s k)"

text \<open>With a cache file, the entries in memory are entries of the file.\<close>

definition coherent :: "geo_config \<Rightarrow> geo_client \<Rightarrow> bool" where
  "coherent C s = (has_cache_file C \<longrightarrow>
     (\<forall>k v. dget (mem_cache s) k = Some v \<longrightarrow> disk_lookup C s k = Some v))"

locale memo_cache =
  fixes inv :: "'s \<Rightarrow> bool"
    and lookup :: "'s \<Rightarrow> string \<Rightarrow> 'v option"
    and put :: "string \<Rightarrow> 'v \<Rightarrow> 's \<Rightarrow> 's"
    and key_of :: "string \<Rightarrow> string"
  assumes put_inv: "inv s \<Longrightarrow> inv (put a v s)"
    and put_fresh: "inv s \<Longrightarrow> lookup s (key_of a) = None \<Longrightarrow> lookup (put a v s) (key_of a) = Some v"
    and put_other: "inv s \<Longrightarrow> k \<noteq> key_of a \<Longrightarrow> lookup (put a v s) k = lookup s k"
begin

definition remember :: "(string \<Rightarrow> 'v) \<Rightarrow> string \<Rightarrow> 's \<Rightarrow> 'v \<times> 's" where
  "remember f a s = (case lookup s (key_of a) of Some v \<Rightarrow> (v, s) | None \<Rightarrow> (f a, put a (f a) s))"

lemma remember_inv: "inv s \<Longrightarrow> inv (snd (remember f a s))"
  by (auto simp: remember_def put_inv split: option.split)

text \<open>A remembered answer is repeated, whatever the computation would say now.\<close>

lemma remember_again:
  "inv s \<Longrightarrow> key_of b = key_of a \<Longrightarrow> remember g b (snd (remember f a s)) = remember f a s"
  by (auto simp: remember_def put_fresh split: option.splits)

end

locale write_once_cache = memo_cache inv lookup put key_of
  for inv :: "'s \<Rightarrow> bool"
    and lookup :: "'s \<Rightarrow> string \<Rightarrow> 'v option"
    and put :: "string \<Rightarrow> 'v \<Rightarrow> 's \<Rightarrow> 's"
    and key_of :: "string \<Rightarrow> string" +
  fixes get :: "string \<Rightarrow> 's \<Rightarrow> 'v \<times> 's"
    and absent :: 'v
  assumes get_value: "fst (get a s) = (case lookup s (key_of a) of None \<Rightarrow> absent | Some v \<Rightarrow> v)"
    and get_inv: "inv s \<Longrightarrow> inv (snd (get a s))"
    and get_keeps: "inv s \<Longrightarrow> lookup (snd (get a s)) k = lookup s k"
    and put_present: "inv s \<Longrightarrow> lookup s (key_of a) = Some w \<Longrightarrow> lookup (put a v s) (key_of a) = Some w"
begin

lemma put_lookup: "inv s \<Longrightarrow>
    lookup (put a v s) k = (if k = key_of a \<and> lookup s k = None then Some v else lookup s k)"
  using put_fresh [of s a v] put_other [of s k a v] put_present [of s a _ v] by (cases "lookup s k") auto

lemma get_after_put:
  assumes "inv s" and "lookup s (key_of a) = None" and "key_of b = key_of a"
  shows "fst (get b (put a v s)) = v"
  using assms by (simp add: get_value put_fresh)

lemma put_monotone: "inv s \<Longrightarrow> lookup s k = Some w \<Longrightarrow> lookup (put a v s) k = Some w"
  by (simp add: put_lookup)

definition put_all :: "(string \<times> 'v) list \<Rightarrow> 's \<Rightarrow> 's" where
  "put_all ws s = fold (\<lambda>(a, v). put a v) ws s"

text \<open>Over any sequence of writes the first one of a key wins, and an older entry beats all.\<close>

lemma put_all_lookup:
  assumes "inv s"
  shows "inv (put_all ws s) \<and>
    lookup (put_all ws s) k =
      (case lookup s k of Some v \<Rightarrow> Some v | None \<Rightarrow> map_of (map (\<lambda>(a, v). (key_of a, v)) ws) k)"
  using assms
proof (induction ws arbitrary: s)
  case Nil
  then show ?case by (simp add: put_all_def split: option.split)
next
  case (Cons p ws)
  obtain a v where p: "p = (a, v)" by (cases p)
  have "put_all (p # ws) s = put_all ws (put a v s)" by (simp add: put_all_def p)
  then show ?case
    using Cons.IH [OF put_inv [OF Cons.prems, of a v]] Cons.prems
    by (auto simp: put_lookup p split: option.splits)
qed

end

lemma get_cached_value:
  "fst (get_cached_geocoding C a s) =
     (case cache_lookup C s (cache_key a) of None \<Rightarrow> PNone | Some v \<Rightarrow> v)"
  by (auto simp: get_cached_geocoding_def cache_lookup_def disk_lookup_def Let_def split: option.splits)

lemma get_cached_mem:
  "dget (mem_cache (snd (get_cached_geocoding C a s))) k =
     (if k = cache_key a then cache_lookup C s k else dget (mem_cache s) k)"
  by (auto simp: get_cached_geocoding_def cache_lookup_def disk_lookup_def Let_def split: option.splits)

lemma get_cached_disk [simp]: "disk (snd (get_cached_geocoding C a s)) = disk s"
  by (auto simp: get_cached_geocoding_def Let_def split: option.splits)

lemma get_cached_sent [simp]: "sent (snd (get_cached_geocoding C a s)) = sent s"
  by (auto simp: get_cached_geocoding_def Let_def split: option.splits)

lemma get_cached_query_count [simp]: "query_count (snd (get_cached_geocoding C a s)) = query_count s"
  by (auto simp: get_cached_geocoding_def Let_def split: option.splits)

lemma get_cached_slept [simp]: "slept (snd (get_cached_geocoding C a s)) = slept s"
  by (auto simp: get_cached_geocoding_def Let_def split: option.splits)

lemma get_cached_disk_lookup [simp]:
  "disk_lookup C (snd (get_cached_geocoding C a s)) = disk_lookup C s"
  by (simp add: disk_lookup_def fun_eq_iff)

lemma write_cache_mem:
  "dget (mem_cache (write_cache_once C a v s)) k =
     (if has_key (mem_cache s) (cache_key a) then dget (mem_cache s) k
      else if \<not> has_cache_file C then (if k = cache_key a then Some v else dget (mem_cache s) k)
      else if k = cache_key a \<and> disk_lookup C s k = None then Some v
      else disk_lookup C s k)"
  by (auto simp: write_cache_once_def disk_lookup_def Let_def has_key_def)

lemma write_cache_disk:
  "disk_lookup C (write_cache_once C a v s) k =
     (if \<not> has_key (mem_cache s) (cache_key a) \<and> has_cache_file C \<and> k = cache_key a \<and> disk_lookup C s k = None
      then Some v else disk_lookup C s k)"
  by (auto simp: write_cache_once_def disk_lookup_def Let_def has_key_def read_cache_file_def)

lemma disk_lookup_memory_only [simp]: "\<not> has_cache_file C \<Longrightarrow> disk_lookup C s k = None"
  by (simp add: disk_lookup_def read_cache_file_def)

lemma write_cache_sent [simp]: "sent (write_cache_once C a v s) = sent s"
  by (simp add: write_cache_once_def Let_def)

lemma write_cache_slept [simp]: "slept (write_cache_once C a v s) = slept s"
  by (simp add: write_cache_once_def Let_def)

lemma write_cache_query_count [simp]: "query_count (write_cache_once C a v s) = query_count s"
  by (simp add: write_cache_once_def Let_def)

lemma coherent_lookup: "coherent C s \<Longrightarrow> has_cache_file C \<Longrightarrow> cache_lookup C s k = disk_lookup C s k"
  by (auto simp: coherent_def cache_lookup_def split: option.splits)

lemma get_cached_coherent: "coherent C s \<Longrightarrow> coherent C (snd (get_cached_geocoding C a s))"
  by (auto simp: coherent_def get_cached_mem cache_lookup_def split: option.splits if_splits)

lemma write_cache_coherent: "coherent C s \<Longrightarrow> coherent C (write_cache_once C a v s)"
  unfolding coherent_def by (auto simp: write_cache_mem write_cache_disk split: if_splits)

lemma get_cached_lookup: "cache_lookup C (snd (get_cached_geocoding C a s)) k = cache_lookup C s k"
  by (auto simp: cache_lookup_def get_cached_mem split: option.splits)

lemma write_cache_lookup:
  assumes "coherent C s"
  shows "cache_lookup C (write_cache_once C a v s) k =
    (if k = cache_key a \<and> cache_lookup C s k = None then Some v else cache_lookup C s k)"
proof (cases "has_cache_file C")
  case True
  then show ?thesis
    using assms write_cache_coherent [OF assms, of a v]
    by (auto simp: coherent_lookup write_cache_disk has_key_def coherent_def)
next
  case False
  then show ?thesis
    by (auto simp: cache_lookup_def write_cache_mem has_key_def split: option.splits)
qed

interpretation geo_cache: write_once_cache "coherent C" "cache_lookup C" "write_cache_once C" cache_key
    "get_cached_geocoding C" PNone for C
  by unfold_locales
     (simp_all add: write_cache_coherent write_cache_lookup get_cached_value get_cached_coherent get_cached_lookup)

subsection \<open>Several workers on one cache file\<close>

type_synonym pool = "(nat \<Rightarrow> geo_client) \<times> cache_disk"

inductive cache_step :: "geo_config \<Rightarrow> pool \<Rightarrow> pool \<Rightarrow> bool" for C where
  lookup_step:
    "cache_step C (ws, D) (ws(i := snd (get_cached_geocoding C a ((ws i)\<lparr>disk := D\<rparr>))), D)"
| write_step:
    "s' = write_cache_once C a v ((ws i)\<lparr>disk := D\<rparr>) \<Longrightarrow> cache_step C (ws, D) (ws(i := s'), disk s')"

definition pool_ok :: "geo_config \<Rightarrow> pool \<Rightarrow> bool" where
  "pool_ok C p = (\<forall>i. coherent C ((fst p i)\<lparr>disk := snd p\<rparr>))"

lemma coherent_disk_mono:
  assumes "coherent C s" and "has_cache_file C"
    and "\<And>k v. disk_lookup C s k = Some v \<Longrightarrow> dget (read_cache_file C D) k = Some v"
  shows "coherent C (s\<lparr>disk := D\<rparr>)"
  using assms by (auto simp: coherent_def disk_lookup_def)

lemma disk_lookup_update: "disk_lookup C (s\<lparr>disk := D\<rparr>) k = dget (read_cache_file C D) k"
  by (simp add: disk_lookup_def)

lemma pool_step:
  assumes "cache_step C p q" and "pool_ok C p" and "has_cache_file C"
  shows "pool_ok C q"
  using assms(1)
proof cases
  case (lookup_step ws D i a)
  let ?s = "snd (get_cached_geocoding C a ((ws i)\<lparr>disk := D\<rparr>))"
  have "coherent C ((ws i)\<lparr>disk := D\<rparr>)" using assms(2) lookup_step by (simp add: pool_ok_def)
  then have c: "coherent C ?s" by (rule get_cached_coherent)
  have "?s\<lparr>disk := D\<rparr> = ?s" by (rule geo_client.equality) simp_all
  then have "coherent C (?s\<lparr>disk := D\<rparr>)" using c by (simp only:)
  then show ?thesis using assms(2) lookup_step by (simp add: pool_ok_def)
next
  case (write_step s' a v D ws i)
  have c: "coherent C ((ws j)\<lparr>disk := D\<rparr>)" for j using assms(2) write_step by (simp add: pool_ok_def)
  have "coherent C s'" unfolding write_step by (rule write_cache_coherent [OF c])
  then have 1: "coherent C (s'\<lparr>disk := disk s'\<rparr>)" by simp
  have "dget (read_cache_file C (disk s')) k = Some w" if "dget (read_cache_file C D) k = Some w" for k w
    using that write_cache_disk [of C a v "(ws i)\<lparr>disk := D\<rparr>" k]
    by (auto simp: write_step disk_lookup_def split: if_splits)
  then have "coherent C ((ws j)\<lparr>disk := disk s'\<rparr>)" for j
    using coherent_disk_mono [OF c assms(3), of j "disk s'"] by (simp add: disk_lookup_update)
  with 1 show ?thesis using write_step by (simp add: pool_ok_def)
qed

subsection \<open>Reasoning about the call\<close>

definition same_store :: "geo_client \<Rightarrow> geo_client \<Rightarrow> bool" where
  "same_store s t = (mem_cache s = mem_cache t \<and> disk s = disk t)"

lemma same_store_lookups:
  assumes "same_store s t"
  shows "cache_lookup C s = cache_lookup C t" and "disk_lookup C s = disk_lookup C t"
    and "mem_cache s = mem_cache t"
  using assms
  by (auto simp: same_store_def cache_lookup_def disk_lookup_def fun_eq_iff split: option.splits)

lemma same_store_sleep [simp]: "same_store s (sleep_for_usage_limit C rc after t) = same_store s t"
  by (simp add: same_store_def sleep_for_usage_limit_def Let_def)

lemma same_store_updates [simp]:
  "same_store s (t\<lparr>query_count := q\<rparr>) = same_store s t"
  "same_store s (t\<lparr>sent := m\<rparr>) = same_store s t"
  "same_store s (t\<lparr>slept := l\<rparr>) = same_store s t"
  "same_store s s"
  by (simp_all add: same_store_def)

lemma sleep_usage_simps [simp]:
  "sent (sleep_for_usage_limit C rc after s) = sent s"
  "query_count (sleep_for_usage_limit C rc after s) = query_count s"
  "mem_cache (sleep_for_usage_limit C rc after s) = mem_cache s"
  "disk (sleep_for_usage_limit C rc after s) = disk s"
  by (simp_all add: sleep_for_usage_limit_def Let_def)

text \<open>
  What a call does to the store, whatever the address and the retry count: an induction
  rule over the calls that return.
\<close>

lemma geo_call_induct [consumes 1, case_names invalid hit look tick answer shorter]:
  assumes "geo_call read n C net raw rc s = Some (r, s')"
    and invalid: "\<And>a s. invalid_address a \<Longrightarrow> Q a s (invalid_query a) s"
    and hit: "\<And>a s. fst (get_cached_geocoding C a s) \<noteq> PNone \<Longrightarrow>
      Q a s (fst (get_cached_geocoding C a s)) (snd (get_cached_geocoding C a s))"
    and look: "\<And>a s r s'. Q a (snd (get_cached_geocoding C a s)) r s' \<Longrightarrow> Q a s r s'"
    and tick: "\<And>a s t r s'. same_store s t \<Longrightarrow> Q a t r s' \<Longrightarrow> Q a s r s'"
    and answer: "\<And>a rc out r s t. on_outcome read C a rc out = Answered r \<Longrightarrow> same_store s t \<Longrightarrow>
      Q a s r (write_cache_once C a r t)"
    and shorter: "\<And>a b s r s'. Q b s r s' \<Longrightarrow> Q a s r (write_cache_once C a r s')"
  shows "Q (strip raw) s r s'"
  using assms(1)
proof (induction n arbitrary: raw rc s r s')
  case 0
  then show ?case by simp
next
  case (Suc n)
  let ?a = "strip raw"
  let ?p = "if rc = 0 then get_cached_geocoding C ?a s else (PNone, s)"
  let ?s2 = "(snd ?p)\<lparr>query_count := query_count (snd ?p) + 1\<rparr>"
  let ?s3 = "?s2\<lparr>sent := sent ?s2 + 1\<rparr>"
  let ?out = "on_outcome read C ?a rc (net (sent ?s2) (comma_separated ?a))"
  show ?case
  proof (cases "invalid_address ?a \<or> fst ?p \<noteq> PNone")
    case True
    then show ?thesis
      using Suc.prems invalid [of ?a s] hit [of ?a s]
      by (auto simp: geo_call.simps(2) Let_def case_prod_beta split: if_splits)
  next
    case False
    have "Q ?a (snd ?p) r s'"
    proof (cases "daily_limit C < query_count ?s2")
      case True
      then have "geo_call read n C net ?a (rc + 1)
          ((sleep_for_usage_limit C rc None ?s2)\<lparr>query_count := 0\<rparr>) = Some (r, s')"
        using Suc.prems False by (simp add: geo_call.simps(2) Let_def case_prod_beta)
      then have "Q ?a ((sleep_for_usage_limit C rc None ?s2)\<lparr>query_count := 0\<rparr>) r s'"
        using Suc.IH by fastforce
      then show ?thesis by (rule tick [rotated]) simp
    next
      case within: False
      note prems = Suc.prems within False
      show ?thesis
      proof (cases ?out)
        case (Answered v)
        then have "r = v" and s': "s' = write_cache_once C ?a v ?s3"
          using prems by (auto simp: geo_call.simps(2) Let_def case_prod_beta)
        then show ?thesis unfolding s' by (simp only: answer [OF Answered] same_store_updates)
      next
        case (Shorter b)
        then obtain s4 where s4: "geo_call read n C net b rc ?s3 = Some (r, s4)"
          and s': "s' = write_cache_once C ?a r s4"
          using prems by (auto simp: geo_call.simps(2) Let_def case_prod_beta split: option.splits)
        have "Q (strip b) (snd ?p) r s4" by (rule tick [OF _ Suc.IH [OF s4]]) simp
        then show ?thesis unfolding s' by (rule shorter)
      next
        case (Throttled after)
        then have "geo_call read n C net ?a (rc + 1) (sleep_for_usage_limit C rc after ?s3) = Some (r, s')"
          using prems by (simp add: geo_call.simps(2) Let_def case_prod_beta)
        from Suc.IH [OF this, simplified strip_idem] show ?thesis by (rule tick [rotated]) simp
      next
        case Again
        then have "geo_call read n C net ?a (rc + 1) (?s3\<lparr>slept := slept ?s3 @ [1 / 10]\<rparr>) = Some (r, s')"
          using prems by (simp add: geo_call.simps(2) Let_def case_prod_beta)
        from Suc.IH [OF this, simplified strip_idem] show ?thesis by (rule tick [rotated]) simp
      qed
    qed
    then show ?thesis by (cases "rc = 0") (auto intro: look)
  qed
qed


subsection \<open>Well-formed replies\<close>

text \<open>
  A reply reports a place with both coordinates, or an error whose code is none of the
  usage-limit codes; \<open>store_ok\<close> says so of every cached reply.
\<close>

definition reply_ok :: "pyval \<Rightarrow> bool" where
  "reply_ok v =
     (case v of
        PDict d \<Rightarrow>
          (pget d ''status'' = PStr ''success'' \<and> has_key d ''latitude'' \<and> has_key d ''longitude'') \<or>
          (pget d ''status'' = PStr ''error'' \<and> is_usage_limit_status (pget d ''code'') \<noteq> Inr True)
      | _ \<Rightarrow> False)"

definition store_ok :: "geo_config \<Rightarrow> geo_client \<Rightarrow> bool" where
  "store_ok C s = list_all (\<lambda>(k, v). reply_ok v) (mem_cache s @ read_cache_file C (disk s))"

lemma list_all_dset: "P (k, v) \<Longrightarrow> list_all P d \<Longrightarrow> list_all P (dset k v d)"
  by (induction d) auto

lemma list_all_dget: "list_all P d \<Longrightarrow> dget d k = Some v \<Longrightarrow> P (k, v)"
  by (auto simp: list_all_iff dest: map_of_SomeD)

lemma reply_ok_not_none: "reply_ok r \<Longrightarrow> r \<noteq> PNone"
  by (auto simp: reply_ok_def)

lemma store_ok_lookup: "store_ok C s \<Longrightarrow> cache_lookup C s k = Some v \<Longrightarrow> reply_ok v"
  by (auto simp: store_ok_def cache_lookup_def disk_lookup_def split: option.splits
      dest: list_all_dget)

lemma store_ok_same: "same_store s t \<Longrightarrow> store_ok C s = store_ok C t"
  by (simp add: same_store_def store_ok_def)

lemma store_ok_get: "store_ok C s \<Longrightarrow> store_ok C (snd (get_cached_geocoding C a s))"
  by (auto simp: store_ok_def get_cached_geocoding_def Let_def split: option.splits
      intro!: list_all_dset dest: list_all_dget)

lemma store_ok_write: "store_ok C s \<Longrightarrow> reply_ok v \<Longrightarrow> store_ok C (write_cache_once C a v s)"
  by (auto simp: store_ok_def write_cache_once_def read_cache_file_def Let_def intro!: list_all_dset)

lemma usage_code_int: "is_usage_limit_status (PInt i) = Inr (i \<in> set usage_codes)"
  by (auto simp: is_usage_limit_status_def usage_codes_def)

lemma reply_ok_error: "is_usage_limit_status code \<noteq> Inr True \<Longrightarrow> reply_ok (error_result code m a)"
  by (simp add: reply_ok_def error_result_def)

lemma reply_ok_error_int [simp]: "reply_ok (error_result (PInt i) m a) = (i \<notin> set usage_codes)"
  by (simp add: reply_ok_def error_result_def usage_code_int)

lemma reply_ok_invalid [simp]: "reply_ok (invalid_query a)"
  by (simp add: reply_ok_def invalid_query_def is_usage_limit_status_def usage_codes_def)

lemma reply_ok_place: "first_place v = Inr r \<Longrightarrow> reply_ok r"
  by (auto simp: first_place_def res_bind_eq_Inr_iff success_result_def reply_ok_def has_key_def)

lemma orm_read_answer_ok: "orm_read a rc data = Inr (Answered r) \<Longrightarrow> reply_ok r"
  by (auto simp: orm_read_def res_bind_eq_Inr_iff usage_codes_def reply_ok_place reply_ok_error
      split: if_splits option.splits)

lemma on_outcome_answer_ok: "on_outcome orm_read C a rc out = Answered r \<Longrightarrow> reply_ok r"
  by (auto simp: on_outcome_def on_request_error_def usage_codes_def
      dest!: orm_read_answer_ok split: http_outcome.splits if_splits option.splits sum.splits)

lemma geo_call_store_ok:
  assumes "geo_call orm_read n C net raw rc s = Some (r, s')"
  shows "store_ok C s \<longrightarrow> reply_ok r \<and> store_ok C s'"
  using assms
proof (induction rule: geo_call_induct)
  case (hit a s)
  then show ?case
    by (auto simp: get_cached_value store_ok_get split: option.splits dest: store_ok_lookup)
qed (auto simp: store_ok_same on_outcome_answer_ok store_ok_get intro!: store_ok_write)

subsection \<open>What a call leaves in the cache\<close>

lemma geo_call_store_effect:
  assumes "geo_call read n C net raw rc s = Some (r, s')"
  shows "dget (mem_cache s') k \<in> {dget (mem_cache s) k, disk_lookup C s k, Some r}
           \<and> disk_lookup C s' k \<in> {disk_lookup C s k, Some r}"
  using assms
proof (induction rule: geo_call_induct)
  case (hit a s)
  then show ?case
    by (auto simp: get_cached_mem cache_lookup_def split: option.splits)
next
  case (look a s r s')
  then show ?case
    by (cases "dget (mem_cache s) k") (auto simp: get_cached_mem cache_lookup_def split: if_splits)
next
  case (tick a s t r s')
  then show ?case by (simp add: same_store_lookups [OF tick(1)])
next
  case (answer a rc out r s t)
  show ?case
    by (simp add: write_cache_mem write_cache_disk same_store_lookups [OF answer(2)])
next
  case (shorter a b s r s')
  have "dget (mem_cache (write_cache_once C a r s')) k \<in> {dget (mem_cache s') k, disk_lookup C s' k, Some r}"
    and "disk_lookup C (write_cache_once C a r s') k \<in> {disk_lookup C s' k, Some r}"
    by (simp_all add: write_cache_mem write_cache_disk)
  with shorter show ?case by (elim conjE insertE) simp_all
qed auto

lemma geo_call_caches:
  assumes "geo_call read n C net raw rc s = Some (r, s')"
  shows "\<not> invalid_address (strip raw) \<longrightarrow> dget (mem_cache s') (cache_key (strip raw)) \<noteq> None"
  using assms
proof (induction rule: geo_call_induct)
  case (hit a s)
  then show ?case by (auto simp: get_cached_mem get_cached_value split: option.splits)
qed (auto simp: write_cache_mem has_key_def)

lemma geo_call_caches_reply:
  assumes call: "geo_call orm_read n C net raw 0 s = Some (r, s')"
    and ok: "store_ok C s" and valid: "\<not> invalid_address (strip raw)"
  shows "dget (mem_cache s') (cache_key (strip raw)) = Some r"
proof (cases "cache_lookup C s (cache_key (strip raw))")
  case None
  then have "dget (mem_cache s) (cache_key (strip raw)) = None"
    and "disk_lookup C s (cache_key (strip raw)) = None"
    by (auto simp: cache_lookup_def split: option.splits)
  then show ?thesis
    using geo_call_store_effect [OF call, of "cache_key (strip raw)"]
      geo_call_caches [OF call] valid by auto
next
  case (Some v)
  have "v \<noteq> PNone" using store_ok_lookup [OF ok Some] reply_ok_not_none by blast
  moreover have "fst (get_cached_geocoding C (strip raw) s) = v" by (simp add: get_cached_value Some)
  ultimately show ?thesis
    using call valid Some
    by (cases n) (auto simp: geo_call.simps(2) Let_def case_prod_beta get_cached_mem)
qed

lemma geo_call_hit:
  assumes "dget (mem_cache s) (cache_key (strip raw)) = Some r" and "r \<noteq> PNone"
    and "\<not> invalid_address (strip raw)"
  shows "geo_call read (Suc n) C net raw 0 s = Some (r, s)"
  using assms by (simp add: geo_call.simps(2) get_cached_geocoding_def)

subsection \<open>How many requests a call makes\<close>

definition limited_outcome :: "http_outcome \<Rightarrow> bool" where
  "limited_outcome out =
     (case out of
        Responded rsp \<Rightarrow>
          status_code rsp \<in> set usage_codes \<or>
          (case resp_body rsp of
             None \<Rightarrow> False
           | Some data \<Rightarrow>
               (case py_item data ''status'' of
                  Inl e \<Rightarrow> False
                | Inr status \<Rightarrow>
                    (case py_item status ''code'' of
                       Inl e \<Rightarrow> False | Inr code \<Rightarrow> is_usage_limit_status code = Inr True)))
      | _ \<Rightarrow> False)"

lemma orm_read_throttled:
  assumes "orm_read a rc data = Inr (Throttled after)"
  shows "\<exists>status code. py_item data ''status'' = Inr status \<and> py_item status ''code'' = Inr code
    \<and> is_usage_limit_status code = Inr True"
  using assms by (auto simp: orm_read_def res_bind_eq_Inr_iff split: if_splits option.splits)

lemma on_outcome_throttled:
  assumes "on_outcome orm_read C a rc out = Throttled after"
  shows "limited_outcome out"
  using assms
  by (auto simp: on_outcome_def on_request_error_def limited_outcome_def
      dest!: orm_read_throttled split: http_outcome.splits if_splits option.splits sum.splits)

lemma orm_read_again: "orm_read a rc data = Inr Again \<Longrightarrow> rc < 5"
  by (auto simp: orm_read_def res_bind_eq_Inr_iff split: if_splits option.splits)

lemma on_outcome_again: "on_outcome orm_read C a rc out = Again \<Longrightarrow> rc < 5"
  by (auto simp: on_outcome_def on_request_error_def
      dest!: orm_read_again split: http_outcome.splits if_splits option.splits sum.splits)

lemma shorten_fewer:
  assumes "shorten a = Some b"
  shows "count_list b (CHR '';'') < count_list a (CHR '';'')"
proof -
  have "1 < length (split_char (CHR '';'') a)" and b: "b = join '';'' (butlast (split_char (CHR '';'') a))"
    using assms by (auto simp: shorten_def Let_def split: if_splits)
  then have "0 < count_list a (CHR '';'')" by (simp add: length_split_char)
  then show ?thesis using count_list_join_butlast [of "CHR '';''" a] by (simp add: b)
qed

lemma orm_read_shorter: "orm_read a rc data = Inr (Shorter b) \<Longrightarrow> shorten a = Some b"
  by (auto simp: orm_read_def res_bind_eq_Inr_iff split: if_splits option.splits)

lemma on_outcome_shorter: "on_outcome orm_read C a rc out = Shorter b \<Longrightarrow> shorten a = Some b"
  by (auto simp: on_outcome_def on_request_error_def
      dest!: orm_read_shorter split: http_outcome.splits if_splits option.splits sum.splits)

text \<open>The most requests a call can make: the retries left, and one per component dropped.\<close>

definition request_bound :: "string \<Rightarrow> nat \<Rightarrow> nat" where
  "request_bound address retry_count = (5 - retry_count) + count_list address (CHR '';'') + 1"

lemma geo_call_returns:
  assumes free: "\<And>k q. \<not> limited_outcome (net k q)"
    and fuel: "request_bound (strip raw) rc \<le> n"
    and quota: "query_count s + request_bound (strip raw) rc \<le> daily_limit C"
  shows "\<exists>r s'. geo_call orm_read n C net raw rc s = Some (r, s')
    \<and> sent s' \<le> sent s + request_bound (strip raw) rc"
  using fuel quota
proof (induction n arbitrary: raw rc s)
  case 0
  then show ?case by (simp add: request_bound_def)
next
  case (Suc n)
  let ?a = "strip raw"
  let ?p = "if rc = 0 then get_cached_geocoding C ?a s else (PNone, s)"
  let ?s2 = "(snd ?p)\<lparr>query_count := query_count (snd ?p) + 1\<rparr>"
  let ?s3 = "?s2\<lparr>sent := sent ?s2 + 1\<rparr>"
  let ?out = "on_outcome orm_read C ?a rc (net (sent ?s2) (comma_separated ?a))"
  have counts: "query_count ?s3 = query_count s + 1" "sent ?s3 = sent s + 1" "sent (snd ?p) = sent s" by auto
  show ?case
  proof (cases "invalid_address ?a \<or> fst ?p \<noteq> PNone")
    case True
    then have "\<exists>r s'. geo_call orm_read (Suc n) C net raw rc s = Some (r, s') \<and> sent s' = sent s"
      by (cases "invalid_address ?a"; cases "rc = 0";
          cases "get_cached_geocoding C ?a s"; use get_cached_sent [of C ?a s] in
          \<open>simp add: geo_call.simps(2) Let_def\<close>)
    then show ?thesis by auto
  next
    case False
    have within: "\<not> daily_limit C < query_count ?s2"
      using Suc.prems counts by (simp add: request_bound_def)
    note step = geo_call.simps(2) Let_def case_prod_beta
    show ?thesis
    proof (cases ?out)
      case (Answered v)
      then have "geo_call orm_read (Suc n) C net raw rc s = Some (v, write_cache_once C ?a v ?s3)"
        using False within by (simp add: step del: if_split)
      moreover have "sent (write_cache_once C ?a v ?s3) = sent s + 1" using counts by simp
      ultimately show ?thesis by (auto simp: request_bound_def)
    next
      case (Shorter b)
      have less: "request_bound (strip b) rc < request_bound ?a rc"
        using shorten_fewer [OF on_outcome_shorter [OF Shorter]] count_list_strip_le [of b "CHR '';''"]
        by (simp add: request_bound_def)
      then obtain r s4 where "geo_call orm_read n C net b rc ?s3 = Some (r, s4)"
        and "sent s4 \<le> sent ?s3 + request_bound (strip b) rc"
        using Suc.IH [of b rc ?s3] Suc.prems counts by auto
      then show ?thesis
        using False within Shorter less counts by (auto simp: step simp del: if_split)
    next
      case (Throttled after)
      then show ?thesis using on_outcome_throttled free by blast
    next
      case Again
      have less: "request_bound ?a (rc + 1) < request_bound ?a rc"
        using on_outcome_again [OF Again] by (simp add: request_bound_def)
      let ?s4 = "?s3\<lparr>slept := slept ?s3 @ [1 / 10]\<rparr>"
      have "query_count ?s4 = query_count s + 1" and "sent ?s4 = sent s + 1" using counts by simp_all
      then obtain r s' where "geo_call orm_read n C net ?a (rc + 1) ?s4 = Some (r, s')"
        and "sent s' \<le> sent ?s4 + request_bound ?a (rc + 1)"
        using Suc.IH [of ?a "rc + 1" ?s4] Suc.prems less by auto
      then show ?thesis
        using False within Again less counts by (auto simp: step simp del: if_split)
    qed
  qed
qed

subsection \<open>Waiting for the quota\<close>

definition http_limited :: "http_outcome \<Rightarrow> bool" where
  "http_limited out = (case out of Responded rsp \<Rightarrow> status_code rsp \<in> set usage_codes | _ \<Rightarrow> False)"

lemma http_limited_throttled:
  "http_limited out \<Longrightarrow> \<exists>after. on_outcome read C a rc out = Throttled after"
  by (auto simp: http_limited_def on_outcome_def split: http_outcome.splits)

lemma sleep_usage_slept:
  "\<exists>w. slept (sleep_for_usage_limit C rc after s) = slept s @ [w] \<and> rate_limit_retry_seconds C \<le> w
     \<and> (5 \<le> rc \<longrightarrow> quota_retry_seconds C \<le> w)"
  by (auto simp: sleep_for_usage_limit_def Let_def split: option.splits)

text \<open>One throttled request: the call goes on with one more retry and one more wait.\<close>

lemma geo_call_throttled:
  assumes "http_limited (net (sent s) (comma_separated (strip raw)))"
    and "\<not> invalid_address (strip raw)"
    and "rc = 0 \<longrightarrow> cache_lookup C s (cache_key (strip raw)) = None"
    and "query_count s < daily_limit C"
  shows "\<exists>s1 w. (\<forall>n. geo_call read (Suc n) C net raw rc s = geo_call read n C net (strip raw) (Suc rc) s1)
    \<and> same_store s s1 \<and> sent s1 = sent s + 1 \<and> query_count s1 = query_count s + 1
    \<and> slept s1 = slept s @ [w] \<and> rate_limit_retry_seconds C \<le> w
    \<and> (5 \<le> rc \<longrightarrow> quota_retry_seconds C \<le> w)"
proof -
  let ?a = "strip raw"
  have miss: "get_cached_geocoding C ?a s = (PNone, s)" if "rc = 0"
    using assms(3) that by (auto simp: get_cached_geocoding_def cache_lookup_def disk_lookup_def
        Let_def split: option.splits)
  let ?s3 = "s\<lparr>query_count := query_count s + 1, sent := sent s + 1\<rparr>"
  obtain after where after:
    "on_outcome read C ?a rc (net (sent s) (comma_separated ?a)) = Throttled after"
    using http_limited_throttled [OF assms(1)] by blast
  let ?s1 = "sleep_for_usage_limit C rc after ?s3"
  obtain w where w: "slept ?s1 = slept ?s3 @ [w]" "rate_limit_retry_seconds C \<le> w"
    "5 \<le> rc \<longrightarrow> quota_retry_seconds C \<le> w"
    using sleep_usage_slept by blast
  have "geo_call read (Suc n) C net raw rc s = geo_call read n C net ?a (Suc rc) ?s1" for n
    using assms(2,4) miss after by (cases "rc = 0") (simp_all add: geo_call.simps(2))
  then show ?thesis using w by (intro exI [of _ ?s1] exI [of _ w]) simp
qed

lemma geo_call_waits:
  assumes "\<forall>k < m. http_limited (net (sent s + k) (comma_separated (strip raw)))"
    and "\<not> invalid_address (strip raw)"
    and "rc = 0 \<longrightarrow> cache_lookup C s (cache_key (strip raw)) = None"
    and "query_count s + m \<le> daily_limit C" and "n \<le> m"
  shows "geo_call read n C net raw rc s = None"
  using assms
proof (induction n arbitrary: m raw rc s)
  case 0
  then show ?case by simp
next
  case (Suc n)
  have "http_limited (net (sent s) (comma_separated (strip raw)))"
    using Suc.prems(1,5) by (metis add.right_neutral less_le_trans zero_less_Suc)
  from geo_call_throttled [where net = net and raw = raw and rc = rc and read = read, OF this Suc.prems(2,3)] obtain s1 where s1:
    "geo_call read (Suc n) C net raw rc s = geo_call read n C net (strip raw) (Suc rc) s1"
    "sent s1 = sent s + 1" "query_count s1 = query_count s + 1"
    using Suc.prems(4,5) by auto
  have "\<forall>k < m - 1. http_limited (net (sent s1 + k) (comma_separated (strip (strip raw))))"
  proof (intro allI impI)
    fix k assume "k < m - 1"
    then have "Suc k < m" by simp
    with Suc.prems(1) have "http_limited (net (sent s + Suc k) (comma_separated (strip raw)))" by blast
    then show "http_limited (net (sent s1 + k) (comma_separated (strip (strip raw))))"
      by (simp add: s1)
  qed
  then have "geo_call read n C net (strip raw) (Suc rc) s1 = None"
    using Suc.prems s1 by (intro Suc.IH [of "m - 1"]) auto
  then show ?case using s1 by simp
qed

lemma geo_call_waited_out:
  assumes "\<forall>k < m. http_limited (net (sent s + k) (comma_separated (strip raw)))"
    and "\<not> invalid_address (strip raw)"
    and "rc = 0 \<longrightarrow> cache_lookup C s (cache_key (strip raw)) = None"
    and "query_count s + m < daily_limit C"
    and "on_outcome read C (strip raw) (rc + m) (net (sent s + m) (comma_separated (strip raw))) = Answered v"
  shows "\<exists>s1 s' waits. geo_call read (Suc m) C net raw rc s = Some (v, write_cache_once C (strip raw) v s1)
    \<and> same_store s s1 \<and> sent s1 = sent s + m + 1 \<and> slept s1 = slept s @ waits \<and> length waits = m
    \<and> (\<forall>w \<in> set waits. rate_limit_retry_seconds C \<le> w)"
  using assms
proof (induction m arbitrary: raw rc s)
  case 0
  have miss: "get_cached_geocoding C (strip raw) s = (PNone, s)" if "rc = 0"
    using 0(3) that by (auto simp: get_cached_geocoding_def cache_lookup_def disk_lookup_def
        Let_def split: option.splits)
  let ?s1 = "s\<lparr>query_count := query_count s + 1, sent := sent s + 1\<rparr>"
  have "geo_call read (Suc 0) C net raw rc s = Some (v, write_cache_once C (strip raw) v ?s1)"
    using 0 miss by (cases "rc = 0") (simp_all add: geo_call.simps(2) del: geo_call.simps(1))
  then show ?case by (intro exI [of _ ?s1] exI [of _ "[]"]) simp
next
  case (Suc m)
  have "http_limited (net (sent s) (comma_separated (strip raw)))"
    using Suc.prems(1) by (metis add.right_neutral zero_less_Suc)
  from geo_call_throttled [where net = net and raw = raw and rc = rc and read = read, OF this Suc.prems(2,3)] obtain s1 w where s1:
    "geo_call read (Suc (Suc m)) C net raw rc s = geo_call read (Suc m) C net (strip raw) (Suc rc) s1"
    "same_store s s1" "sent s1 = sent s + 1" "query_count s1 = query_count s + 1"
    "slept s1 = slept s @ [w]" "rate_limit_retry_seconds C \<le> w"
    using Suc.prems(4) by auto
  have "\<forall>k < m. http_limited (net (sent s1 + k) (comma_separated (strip (strip raw))))"
    using Suc.prems(1) s1(3) by auto
  then obtain s2 waits where "geo_call read (Suc m) C net (strip raw) (Suc rc) s1
      = Some (v, write_cache_once C (strip raw) v s2)"
    "same_store s1 s2" "sent s2 = sent s1 + m + 1" "slept s2 = slept s1 @ waits" "length waits = m"
    "\<forall>w \<in> set waits. rate_limit_retry_seconds C \<le> w"
    using Suc.IH [of s1 "strip raw" "Suc rc"] Suc.prems s1 by auto
  then show ?case
    using s1 by (intro exI [of _ s2] exI [of _ "w # waits"]) (auto simp: same_store_def)
qed

subsection \<open>The evaluation script's fallback\<close>

text \<open>
  The bodies the service documents: a status with a code and a message; when the code is 200, a list
  of results, each with a geometry that has a latitude and a longitude.
\<close>

definition dict_item :: "pydict \<Rightarrow> string \<Rightarrow> pydict option" where
  "dict_item d k = Option.bind (dget d k) as_dict"

definition int_item :: "pydict \<Rightarrow> string \<Rightarrow> int option" where
  "int_item d k = (case dget d k of Some (PInt i) \<Rightarrow> Some i | _ \<Rightarrow> None)"

definition list_item :: "pydict \<Rightarrow> string \<Rightarrow> pyval list option" where
  "list_item d k = (case dget d k of Some (PList xs) \<Rightarrow> Some xs | _ \<Rightarrow> None)"

lemma item_Some:
  "as_dict v = Some d \<longleftrightarrow> v = PDict d"
  "dict_item d k = Some e \<longleftrightarrow> dget d k = Some (PDict e)"
  "int_item d k = Some i \<longleftrightarrow> dget d k = Some (PInt i)"
  "list_item d k = Some xs \<longleftrightarrow> dget d k = Some (PList xs)"
proof -
  show as: "as_dict v = Some d \<longleftrightarrow> v = PDict d" for v d by (cases v) simp_all
  show "dict_item d k = Some e \<longleftrightarrow> dget d k = Some (PDict e)"
    by (auto simp: dict_item_def bind_eq_Some_conv as)
qed (auto simp: int_item_def list_item_def split: option.splits pyval.splits)

definition place_body :: "pyval \<Rightarrow> bool" where
  "place_body v =
     (case Option.bind (as_dict v) (\<lambda>d. dict_item d ''geometry'') of
        None \<Rightarrow> False
      | Some g \<Rightarrow> has_key g ''lat'' \<and> has_key g ''lng'')"

lemma places_agree:
  assumes "list_all place_body xs" "xs \<noteq> []"
  shows "\<exists>r. first_place (PList xs) = Inr r \<and> local_place (PList xs) = Inr r"
proof -
  obtain v vs where xs: "xs = v # vs" using assms(2) by (cases xs) auto
  then obtain d g lat lng where v: "v = PDict d" "dget d ''geometry'' = Some (PDict g)" "dget g ''lat'' = Some lat" "dget g ''lng'' = Some lng"
    using assms(1) by (auto simp: place_body_def has_key_def item_Some bind_eq_Some_conv split: option.split_asm)
  then show ?thesis
    by (simp add: xs first_place_def local_place_def py_first_def py_item_def py_get_def)
qed

definition service_body :: "pyval \<Rightarrow> bool" where
  "service_body data =
     (case as_dict data of
        None \<Rightarrow> False
      | Some d \<Rightarrow>
          check_rate data = Inr () \<and>
          (case dict_item d ''status'' of
             None \<Rightarrow> False
           | Some st \<Rightarrow>
               (case int_item st ''code'' of
                  None \<Rightarrow> False
                | Some i \<Rightarrow> has_key st ''message'' \<and> 
                    (i = 200 \<longrightarrow> (case list_item d ''results'' of None \<Rightarrow> False | Some xs \<Rightarrow> list_all place_body xs)))))"

definition service_outcome :: "http_outcome \<Rightarrow> bool" where
  "service_outcome out =
     (case out of
        Responded rsp \<Rightarrow>
          (400 \<le> status_code rsp \<and> status_code rsp < 600) \<or>
          (case resp_body rsp of None \<Rightarrow> True | Some data \<Rightarrow> service_body data)
      | _ \<Rightarrow> True)"

lemma local_read_eq:
  assumes "service_body data"
  shows "\<exists>act. local_read a rc data = Inr act \<and> orm_read a rc data = Inr act"
proof -
  obtain d st i m where data: "data = PDict d" and rate: "check_rate data = Inr ()"
    and st: "dget d ''status'' = Some (PDict st)" and code: "dget st ''code'' = Some (PInt i)"
    and msg: "dget st ''message'' = Some m"
    and res: "i = 200 \<longrightarrow> (\<exists>xs. dget d ''results'' = Some (PList xs) \<and> list_all place_body xs)"
    using assms
    by (auto simp: service_body_def has_key_def item_Some split: option.split_asm)
  have [simp]: "py_item data ''status'' = Inr (PDict st)" "py_item (PDict st) ''code'' = Inr (PInt i)"
    "py_item (PDict st) ''message'' = Inr m" "py_get data ''status'' (PDict []) = Inr (PDict st)"
    "py_get (PDict st) ''code'' PNone = Inr (PInt i)" "py_get (PDict st) ''message'' PNone = Inr m"
    by (simp_all add: data st code msg py_item_def py_get_def dget_or_def)
  show ?thesis
  proof (cases "i = 200")
    case True
    with res obtain xs where xs: "dget d ''results'' = Some (PList xs)" "list_all place_body xs" by blast
    have "py_item data ''results'' = Inr (PList xs)" "py_get data ''results'' PNone = Inr (PList xs)"
      by (simp_all add: data xs py_item_def py_get_def dget_or_def)
    then show ?thesis
      using places_agree [OF xs(2)] by (cases "xs = []") (auto simp: local_read_def orm_read_def rate True py_len_def split: option.split)
  next
    case False
    then show ?thesis
      by (auto simp: local_read_def orm_read_def rate usage_code_int py_int_def
          usage_codes_def split: option.splits)
  qed
qed

text \<open>Only the reading of a body looks at the texts of exceptions.\<close>

lemma exn_text_unused [simp]:
  "get_cached_geocoding (C\<lparr>exn_text := t\<rparr>) = get_cached_geocoding C"
  "write_cache_once (C\<lparr>exn_text := t\<rparr>) = write_cache_once C"
  "sleep_for_usage_limit (C\<lparr>exn_text := t\<rparr>) = sleep_for_usage_limit C"
  "on_request_error (C\<lparr>exn_text := t\<rparr>) = on_request_error C"
  by (simp_all add: fun_eq_iff get_cached_geocoding_def write_cache_once_def sleep_for_usage_limit_def on_request_error_def
      read_cache_file_def Let_def cong: option.case_cong)

lemma geo_call_read_cong:
  assumes "\<And>k q a rc. on_outcome read1 (C\<lparr>exn_text := t\<rparr>) a rc (net k q) = on_outcome read2 C a rc (net k q)"
  shows "geo_call read1 n (C\<lparr>exn_text := t\<rparr>) net raw rc s = geo_call read2 n C net raw rc s"
proof (induction n arbitrary: raw rc s)
  case (Suc n)
  have "geo_call read1 n (C\<lparr>exn_text := t\<rparr>) net = geo_call read2 n C net"
    using Suc.IH by (simp add: fun_eq_iff)
  then show ?case by (simp add: geo_call.simps(2) assms cong: if_cong option.case_cong geo_action.case_cong)
qed simp

lemma local_outcome_eq:
  assumes "service_outcome out"
  shows "on_outcome local_read (C\<lparr>exn_text := t\<rparr>) a rc out = on_outcome orm_read C a rc out"
proof (cases out)
  case (Responded rsp)
  show ?thesis
  proof (cases "resp_body rsp")
    case (Some data)
    then show ?thesis
      using assms Responded local_read_eq [of data a rc]
      by (auto simp: on_outcome_def service_outcome_def usage_codes_def)
  qed (simp add: on_outcome_def Responded)
qed (simp_all add: on_outcome_def)

lemma geo_call_more_fuel:
  "geo_call read n C net raw rc s = Some x \<Longrightarrow> n \<le> m \<Longrightarrow> geo_call read m C net raw rc s = Some x"
proof (induction n arbitrary: m raw rc s x)
  case (Suc n)
  from Suc.prems(2) obtain m' where m: "m = Suc m'" "n \<le> m'" by (cases m) auto
  have mono: "geo_call read n C net a k t = Some y \<Longrightarrow> geo_call read m' C net a k t = Some y" for a k t y
    using Suc.IH m(2) by blast
  let ?a = "strip raw"
  let ?p = "if rc = 0 then get_cached_geocoding C ?a s else (PNone, s)"
  let ?s2 = "(snd ?p)\<lparr>query_count := query_count (snd ?p) + 1\<rparr>"
  let ?s3 = "?s2\<lparr>sent := sent ?s2 + 1\<rparr>"
  note step = geo_call.simps(2) Let_def case_prod_beta
  consider (invalid) "invalid_address ?a" | (hit) "\<not> invalid_address ?a" "fst ?p \<noteq> PNone"
    | (daily) "\<not> (invalid_address ?a \<or> fst ?p \<noteq> PNone)" "daily_limit C < query_count ?s2"
    | (request) "\<not> (invalid_address ?a \<or> fst ?p \<noteq> PNone)" "\<not> daily_limit C < query_count ?s2"
    by blast
  then show ?case
  proof cases
    case invalid
    then show ?thesis using Suc.prems(1) unfolding m(1) by (simp add: step del: if_split)
  next
    case hit
    then have "geo_call read (Suc k) C net raw rc s = Some ?p" for k
      by (simp add: step del: if_split)
    then show ?thesis using Suc.prems(1) unfolding m(1) by simp
  next
    case daily
    then have "geo_call read (Suc k) C net raw rc s = geo_call read k C net ?a (rc + 1)
        ((sleep_for_usage_limit C rc None ?s2)\<lparr>query_count := 0\<rparr>)" for k
      by (simp add: step del: if_split)
    then show ?thesis using Suc.prems(1) m(1) mono by simp
  next
    case request
    let ?out = "on_outcome read C ?a rc (net (sent ?s2) (comma_separated ?a))"
    have "geo_call read (Suc k) C net raw rc s =
        (case ?out of
           Answered r \<Rightarrow> Some (r, write_cache_once C ?a r ?s3)
         | Shorter a \<Rightarrow> (case geo_call read k C net a rc ?s3 of None \<Rightarrow> None
             | Some (r, s4) \<Rightarrow> Some (r, write_cache_once C ?a r s4))
         | Throttled after \<Rightarrow> geo_call read k C net ?a (rc + 1) (sleep_for_usage_limit C rc after ?s3)
         | Again \<Rightarrow> geo_call read k C net ?a (rc + 1) (?s3\<lparr>slept := slept ?s3 @ [1 / 10]\<rparr>))" for k
      using request by (cases ?out) (simp_all only: step de_Morgan_disj simp_thms if_False geo_action.case
          cong: option.case_cong)
    note eq = this
    show ?thesis
    proof (cases ?out)
      case (Answered v)
      then show ?thesis using Suc.prems(1) unfolding m(1) eq by (simp only: geo_action.case)
    next
      case (Shorter b)
      obtain y where y: "geo_call read n C net b rc ?s3 = Some y"
        using Suc.prems(1) unfolding eq Shorter by (cases "geo_call read n C net b rc ?s3") simp_all
      then show ?thesis
        using Suc.prems(1) mono [OF y] unfolding m(1) eq Shorter by (simp only: geo_action.case option.case)
    next
      case (Throttled after)
      then show ?thesis using Suc.prems(1) mono unfolding m(1) eq by (simp only: geo_action.case)
    next
      case Again
      then show ?thesis using Suc.prems(1) mono unfolding m(1) eq by (simp only: geo_action.case)
    qed
  qed
qed simp

subsection \<open>Properties\<close>

definition sample_config :: geo_config where
  "sample_config =
     \<lparr>api_list = [''0123456789abcdef''], api_key = ''0123456789abcdef'', max_distance = 2000,
      daily_limit = 100000, rate_limit_retry_seconds = 30, quota_retry_seconds = 600,
      has_cache_file = True, exn_text = (\<lambda>data e. ''error'')\<rparr>"

definition sample_client :: geo_client where
  "sample_client = \<lparr>query_count = 0, mem_cache = [], disk = No_file, sent = 0, slept = []\<rparr>"

definition sample_place :: pyval where
  "sample_place = PDict
     [(''status'', PDict [(''code'', PInt 200), (''message'', PStr ''OK'')]),
      (''results'', PList [PDict [(''geometry'', PDict [(''lat'', PInt 48), (''lng'', PInt 2)])]])]"

definition answer_with :: "int \<Rightarrow> pyval \<Rightarrow> http_outcome" where
  "answer_with c v = Responded \<lparr>status_code = c, retry_after = None, resp_body = Some v, err_text = []\<rparr>"

lemma sample_valid: "strip ''Paris; France'' = ''Paris; France'' \<and> \<not> invalid_address ''Paris; France''"
  by code_simp

text \<open>
  C6. A geocoding call always returns when the service reports no usage limit and the
  process is under its daily limit: five retries and one attempt per address component are
  enough, and the number of requests sent is within the same bound.
\<close>

theorem geocoding_returns:
  assumes "\<And>k q. \<not> limited_outcome (net k q)"
    and "query_count s + request_bound (strip raw) rc \<le> daily_limit C"
  shows "\<exists>r s'. (\<forall>n \<ge> request_bound (strip raw) rc. call_opencage_geocoding n C net raw rc s = Some (r, s'))
    \<and> sent s' \<le> sent s + request_bound (strip raw) rc"
proof -
  obtain r s' where "geo_call orm_read (request_bound (strip raw) rc) C net raw rc s = Some (r, s')"
    and "sent s' \<le> sent s + request_bound (strip raw) rc"
    using geo_call_returns [where net = net, OF assms(1) order_refl assms(2)] by blast
  then show ?thesis
    unfolding call_opencage_geocoding_def by (blast intro: geo_call_more_fuel)
qed

lemma geocoding_returns_witness:
  "\<exists>r s'. (\<forall>n \<ge> request_bound (strip ''Paris; France'') 0.
      call_opencage_geocoding n sample_config (\<lambda>k q. Request_failed ''timeout'') ''Paris; France'' 0 sample_client
        = Some (r, s'))
    \<and> sent s' \<le> sent sample_client + request_bound (strip ''Paris; France'') 0"
  by (rule geocoding_returns)
     (simp_all add: limited_outcome_def sample_client_def sample_config_def sample_valid request_bound_def)

text \<open>
  C5. A usage limit is never turned into an error reply: every reply of the call is either a
  place with both coordinates or an error whose code is not 402, 429 or 503, and the same
  holds of everything the call leaves in the cache.
\<close>

theorem usage_limit_never_reported:
  assumes "store_ok C s" and "call_opencage_geocoding n C net raw rc s = Some (r, s')"
  shows "reply_ok r \<and> store_ok C s'"
  using geo_call_store_ok assms unfolding call_opencage_geocoding_def by blast

lemma usage_limit_never_reported_witness:
  "\<exists>r s'. call_opencage_geocoding 8 sample_config (\<lambda>k q. answer_with 200 sample_place)
      ''Paris; France'' 0 sample_client = Some (r, s') \<and> reply_ok r \<and> store_ok sample_config s'"
proof -
  have ok: "store_ok sample_config sample_client"
    by (simp add: store_ok_def sample_client_def read_cache_file_def)
  have "\<not> limited_outcome (answer_with 200 sample_place)"
    by (simp add: limited_outcome_def answer_with_def sample_place_def usage_codes_def py_item_def
        is_usage_limit_status_def)
  then obtain r s' where "call_opencage_geocoding 8 sample_config (\<lambda>k q. answer_with 200 sample_place)
      ''Paris; France'' 0 sample_client = Some (r, s')"
    unfolding call_opencage_geocoding_def
    using geo_call_returns [of "\<lambda>k q. answer_with 200 sample_place" "''Paris; France''" 0 8 sample_client sample_config]
    by (auto simp: request_bound_def sample_valid sample_client_def sample_config_def)
  with usage_limit_never_reported [OF ok this] show ?thesis by blast
qed

text \<open>
  C1. Usage limits are waited out: after m replies with status 402, 429 or 503 the call has
  slept m times, each time at least the configured pause, has returned nothing yet (no
  amount of fuel up to m produces a reply), and then answers with what the service says,
  which is the reply it caches.
\<close>

theorem usage_limit_waited_out:
  assumes "\<forall>k < m. http_limited (net (sent s + k) (comma_separated (strip raw)))"
    and "\<not> invalid_address (strip raw)" and "cache_lookup C s (cache_key (strip raw)) = None"
    and "query_count s + m < daily_limit C"
    and "on_outcome orm_read C (strip raw) m (net (sent s + m) (comma_separated (strip raw))) = Answered v"
  shows "(\<forall>n \<le> m. call_opencage_geocoding n C net raw 0 s = None) \<and>
    (\<exists>s' waits. call_opencage_geocoding (Suc m) C net raw 0 s = Some (v, s')
       \<and> sent s' = sent s + m + 1 \<and> slept s' = slept s @ waits \<and> length waits = m
       \<and> (\<forall>w \<in> set waits. rate_limit_retry_seconds C \<le> w)
       \<and> cache_lookup C s' (cache_key (strip raw)) = Some v)"
proof -
  have none: "\<forall>n \<le> m. geo_call orm_read n C net raw 0 s = None"
    using geo_call_waits [where net = net and m = m, OF assms(1,2)] assms(3,4) by auto
  obtain s1 waits where w: "geo_call orm_read (Suc m) C net raw 0 s = Some (v, write_cache_once C (strip raw) v s1)"
    "same_store s s1" "sent s1 = sent s + m + 1" "slept s1 = slept s @ waits" "length waits = m"
    "\<forall>w \<in> set waits. rate_limit_retry_seconds C \<le> w"
    using geo_call_waited_out [where net = net and rc = 0 and C = C and v = v and read = orm_read, OF assms(1,2)] assms(3-5)
    by auto
  have "dget (mem_cache s1) (cache_key (strip raw)) = None" "disk_lookup C s1 (cache_key (strip raw)) = None"
    using assms(3) same_store_lookups [OF w(2)] by (auto simp: cache_lookup_def split: option.splits)
  then have "cache_lookup C (write_cache_once C (strip raw) v s1) (cache_key (strip raw)) = Some v"
    by (simp add: cache_lookup_def write_cache_mem has_key_def)
  with none w show ?thesis unfolding call_opencage_geocoding_def by auto
qed

definition sample_net :: "nat \<Rightarrow> string \<Rightarrow> http_outcome" where
  "sample_net k q = (if k < 2 then answer_with 429 PNone else answer_with 200 sample_place)"

lemma sample_place_answer:
  "on_outcome orm_read sample_config ''Paris; France'' rc (answer_with 200 sample_place)
     = Answered (success_result (PInt 2) (PInt 48) (PInt 0) (PStr []) (PDict []))"
  by (simp add: on_outcome_def answer_with_def sample_place_def orm_read_def check_rate_def py_in_def has_key_def
      py_item_def usage_codes_def py_len_def first_place_def py_first_def py_get_def dget_or_def)

lemma sample_miss: "cache_lookup sample_config sample_client k = None"
  by (simp add: cache_lookup_def disk_lookup_def read_cache_file_def sample_client_def)

lemma usage_limit_waited_out_witness:
  "\<exists>s' waits. call_opencage_geocoding 3 sample_config sample_net ''Paris; France'' 0 sample_client
      = Some (success_result (PInt 2) (PInt 48) (PInt 0) (PStr []) (PDict []), s')
     \<and> sent s' = 3 \<and> length waits = 2 \<and> slept s' = waits"
proof -
  have "\<forall>k < 2. http_limited (sample_net (sent sample_client + k) (comma_separated (strip ''Paris; France'')))"
    by (simp add: sample_net_def sample_client_def http_limited_def answer_with_def usage_codes_def)
  moreover have "\<not> invalid_address (strip ''Paris; France'')" by (simp only: sample_valid) simp
  moreover have "query_count sample_client + 2 < daily_limit sample_config"
    by (simp add: sample_client_def sample_config_def)
  moreover have "on_outcome orm_read sample_config (strip ''Paris; France'') 2
      (sample_net (sent sample_client + 2) (comma_separated (strip ''Paris; France'')))
      = Answered (success_result (PInt 2) (PInt 48) (PInt 0) (PStr []) (PDict []))"
    by (simp only: sample_valid) (simp add: sample_net_def sample_client_def sample_place_answer)
  ultimately show ?thesis
    using usage_limit_waited_out [where m = 2 and net = sample_net and s = sample_client
        and raw = "''Paris; France''" and C = sample_config] sample_miss
    by (fastforce simp: sample_client_def)
qed

text \<open>
  C3. The cache answers repeated questions: after a call for an address has returned a
  reply, a call for any address with the same cache key returns the same reply, makes no
  request, does not wait and leaves the client as it was, whatever the network does by then.
\<close>

theorem geocoding_is_cached:
  assumes "store_ok C s" and "call_opencage_geocoding n C net a 0 s = Some (r, s')"
    and "\<not> invalid_address (strip a)" and "\<not> invalid_address (strip b)"
    and "cache_key (strip b) = cache_key (strip a)"
  shows "call_opencage_geocoding (Suc m) C net' b 0 s' = Some (r, s')"
proof -
  have call: "geo_call orm_read n C net a 0 s = Some (r, s')"
    using assms(2) by (simp add: call_opencage_geocoding_def)
  have "r \<noteq> PNone"
    using geo_call_store_ok [OF call] assms(1) reply_ok_not_none by blast
  then show ?thesis
    using geo_call_caches_reply [OF call assms(1,3)] assms(4,5)
    unfolding call_opencage_geocoding_def by (intro geo_call_hit) simp_all
qed

lemma sample_call:
  "geo_call orm_read 1 sample_config (\<lambda>k q. answer_with 200 sample_place) ''Paris; France'' 0 sample_client
     = Some (success_result (PInt 2) (PInt 48) (PInt 0) (PStr []) (PDict []),
             write_cache_once sample_config ''Paris; France''
               (success_result (PInt 2) (PInt 48) (PInt 0) (PStr []) (PDict []))
               (sample_client\<lparr>query_count := 1, sent := 1\<rparr>))"
proof -
  have "get_cached_geocoding sample_config ''Paris; France'' sample_client = (PNone, sample_client)"
    by (simp add: get_cached_geocoding_def sample_client_def read_cache_file_def)
  moreover have "\<not> daily_limit sample_config < 1" "query_count sample_client = 0" "sent sample_client = 0"
    by (simp_all add: sample_client_def sample_config_def)
  ultimately show ?thesis
    using sample_valid by (simp only: One_nat_def geo_call.simps(2) Let_def) (simp add: sample_place_answer)
qed

lemma geocoding_is_cached_witness:
  "\<exists>r s'. call_opencage_geocoding 1 sample_config (\<lambda>k q. answer_with 200 sample_place) ''Paris; France'' 0 sample_client
      = Some (r, s')
    \<and> call_opencage_geocoding 1 sample_config (\<lambda>k q. Request_failed ''down'') '' PARIS ,France'' 0 s' = Some (r, s')"
proof -
  have ok: "store_ok sample_config sample_client"
    by (simp add: store_ok_def sample_client_def read_cache_file_def)
  have "\<not> invalid_address (strip '' PARIS ,France'')"
    and "cache_key (strip '' PARIS ,France'') = cache_key (strip ''Paris; France'')"
    by code_simp+
  then show ?thesis
    using geocoding_is_cached [OF ok, of 1 "\<lambda>k q. answer_with 200 sample_place" "''Paris; France''" _ _
        "'' PARIS ,France''" 0 "\<lambda>k q. Request_failed ''down''"] sample_call sample_valid
    by (simp add: call_opencage_geocoding_def del: geo_call.simps(1))
qed

text \<open>
  C18. The evaluation script's fallback agrees with the training client: on every service
  whose JSON bodies have the documented shape (a status with an integer code and a message, a rate
  block that can be printed, and for code 200 a list of results, each with a geometry that has a
  latitude and a longitude; failed requests, HTTP errors and bodies that are not JSON are included),
  the two calls return the same reply and leave the same client.  The texts of exceptions, which
  may differ between the clients, play no part there: no such body raises in either.  A geometry
  without coordinates is outside: the reward misses the latitude first and the script the longitude,
  so their replies carry different texts.
\<close>

theorem local_fallback_agrees:
  assumes "\<And>k q. service_outcome (net k q)"
  shows "local_call_opencage_geocoding n (C\<lparr>exn_text := t\<rparr>) net raw rc s = call_opencage_geocoding n C net raw rc s"
  unfolding local_call_opencage_geocoding_def call_opencage_geocoding_def
  by (rule geo_call_read_cong, rule local_outcome_eq, rule assms)

lemma local_fallback_agrees_witness:
  "local_call_opencage_geocoding 9 (sample_config\<lparr>exn_text := (\<lambda>data e. ''another text'')\<rparr>) sample_net ''Paris; France'' 0 sample_client
     = call_opencage_geocoding 9 sample_config sample_net ''Paris; France'' 0 sample_client"
proof (rule local_fallback_agrees)
  have "service_body sample_place"
    by (simp add: sample_place_def service_body_def place_body_def dict_item_def int_item_def list_item_def has_key_def
        check_rate_def py_in_def)
  then show "service_outcome (sample_net k q)" for k q
    by (simp add: sample_net_def service_outcome_def answer_with_def)
qed

text \<open>
  C9. Workers that share a cache file agree: whatever interleaving of lookups and locked
  writes they run, starting from empty memories and whatever file there is, two workers
  that both hold a key hold the same reply for it, and it is the file's.
\<close>

theorem workers_agree:
  assumes "(cache_step C)\<^sup>*\<^sup>* (ws, D) (ws', D')"
    and "has_cache_file C" and "\<forall>i. mem_cache (ws i) = []"
    and "dget (mem_cache (ws' i)) k = Some v" and "dget (mem_cache (ws' j)) k = Some w"
  shows "v = w \<and> dget (read_cache_file C D') k = Some v"
proof -
  have "pool_ok C (ws, D)" using assms(3) by (simp add: pool_ok_def coherent_def)
  with assms(1) have "pool_ok C (ws', D')"
    by (induction rule: rtranclp_induct) (auto intro: pool_step assms(2))
  then have "disk_lookup C ((ws' l)\<lparr>disk := D'\<rparr>) k = Some u"
    if "dget (mem_cache (ws' l)) k = Some u" for l u
    using that assms(2) by (simp add: pool_ok_def coherent_def)
  then have "dget (read_cache_file C D') k = Some v" and "dget (read_cache_file C D') k = Some w"
    using assms(4,5) unfolding disk_lookup_update by blast+
  then show ?thesis by simp
qed

lemma workers_agree_witness:
  "dget (mem_cache (write_cache_once sample_config ''Paris'' sample_place sample_client)) (cache_key ''Paris'')
     = Some sample_place
   \<and> dget (read_cache_file sample_config
        (disk (write_cache_once sample_config ''Paris'' sample_place sample_client))) (cache_key ''Paris'')
     = Some sample_place"
proof -
  let ?D = "disk sample_client"
  let ?s = "write_cache_once sample_config ''Paris'' sample_place ((\<lambda>i. sample_client) 0\<lparr>disk := ?D\<rparr>)"
  have m: "dget (mem_cache ?s) (cache_key ''Paris'') = Some sample_place"
    by (simp add: write_cache_mem has_key_def sample_client_def disk_lookup_def read_cache_file_def)
  have "(cache_step sample_config)\<^sup>*\<^sup>* (\<lambda>i. sample_client, ?D) ((\<lambda>i. sample_client)(0 := ?s), disk ?s)"
    by (rule r_into_rtranclp, rule write_step) simp
  from workers_agree [OF this, where k = "cache_key ''Paris''" and i = 0 and j = 0
      and v = sample_place and w = sample_place] m
  show ?thesis by (simp add: sample_config_def sample_client_def)
qed

end
