(* ===== verification/Rewards.thy ===== *)
theory Rewards
  imports GeoCoder PyJson GeoMath
begin

text \<open>
  The reward functions of \<open>swift/rewards/orm.py\<close>: the generic ones (accuracy, format,
  cosine, repetition, length, tool calls, math), the format rewards of the geolocation
  task, and the GeoScore reward on top of the geocoding client.  The math parsers and the
  Rouge scorer are parameters.
\<close>

subsection \<open>Accuracy, formats and length rewards\<close>

definition tag_re :: rx where
  "tag_re = seqs [lit ''<answer>'', Grp 1 (Star False dot_all), lit ''</answer>'']"

definition tagged :: "string \<Rightarrow> string option" where
  "tagged s = map_option (\<lambda>gs. strip (group 1 gs)) (re_search tag_re s)"

definition math_accuracy ::
  "(string \<Rightarrow> 'e list) \<Rightarrow> (string \<Rightarrow> 'e list) \<Rightarrow> ('e list \<Rightarrow> 'e list \<Rightarrow> real option)
     \<Rightarrow> string list \<Rightarrow> string list option \<Rightarrow> real list" where
  "math_accuracy parse parse_loose verify completions solution =
     (case solution of
        None \<Rightarrow> replicate (length completions) 0
      | Some sols \<Rightarrow>
          map (\<lambda>(content, sol).
            if sol = [] then 0
            else
              let content_match = tagged content;
                  content_to_parse = (case content_match of Some t \<Rightarrow> t | None \<Rightarrow> content);
                  sol_to_parse = (case tagged sol of Some t \<Rightarrow> t | None \<Rightarrow> sol);
                  gold_parsed = parse sol_to_parse
              in if gold_parsed \<noteq> [] then
                   let answer_parsed =
                     (if content_match \<noteq> None then parse content_to_parse else parse_loose content_to_parse)
                   in (case verify gold_parsed answer_parsed of Some r \<Rightarrow> r | None \<Rightarrow> 0)
                 else 0)
            (zip completions sols))"

definition format_re :: rx where
  "format_re = seqs [Bol, lit ''<think>'', Star False dot_all, lit ''</think>'', blanks,
                     lit ''<answer>'', Star False dot_all, lit ''</answer>'', Eos]"

definition format_reward :: "string list \<Rightarrow> real list" where
  "format_reward completions = map (\<lambda>content. if re_match format_re content \<noteq> None then 1 else 0) completions"

definition react_format_re :: rx where
  "react_format_re = seqs [Bol, lit ''<think>'', Star False dot_all, lit ''</think>'', blanks,
                           lit ''Action:'', Star False dot_all, lit ''Action Input:'', Star False dot_all, EolM]"

definition react_format_reward :: "string list \<Rightarrow> real list" where
  "react_format_reward completions =
     map (\<lambda>content. if re_match react_format_re content \<noteq> None then 1 else 0) completions"

record cosine_config =
  min_len_value_wrong :: real
  max_len_value_wrong :: real
  min_len_value_correct :: real
  max_len_value_correct :: real
  max_len :: real

definition cosfn :: "real \<Rightarrow> real \<Rightarrow> real \<Rightarrow> real \<Rightarrow> real" where
  "cosfn t T min_value max_value = max_value - (max_value - min_value) * (1 - cos (t * pi / T)) / 2"

text \<open>The rewards from the accuracy rewards and the token lists (the words when not given).\<close>

definition cosine_one :: "cosine_config \<Rightarrow> nat \<Rightarrow> real \<Rightarrow> real" where
  "cosine_one K gen_len acc_reward =
     (let (min_value, max_value) =
        (if 1 \<le> acc_reward then (max_len_value_correct K, min_len_value_correct K)
         else (max_len_value_wrong K, min_len_value_wrong K))
      in cosfn (real gen_len) (max_len K) min_value max_value)"

definition cosine_reward :: "cosine_config \<Rightarrow> string list \<Rightarrow> nat list option \<Rightarrow> real list \<Rightarrow> real list" where
  "cosine_reward K completions response_lengths acc_rewards =
     (let lengths = (case response_lengths of
        None \<Rightarrow> map (\<lambda>c. length (split_ws c)) completions | Some ls \<Rightarrow> ls)
      in map (\<lambda>(n, acc). cosine_one K n acc) (zip lengths acc_rewards))"

definition zipngram :: "string \<Rightarrow> nat \<Rightarrow> string list list" where
  "zipngram text n =
     (let words = split_ws (lower text)
      in if n = 0 then [] else map (\<lambda>i. take n (drop i words)) [0 ..< length words + 1 - n])"

definition repetition_one :: "nat \<Rightarrow> real \<Rightarrow> string \<Rightarrow> real res" where
  "repetition_one ngram_size max_penalty completion =
     (if completion = [] then Inr 0
      else if length (split_ws completion) < ngram_size then Inr 0
      else
        let ngs = zipngram completion ngram_size; total = length ngs
        in if total = 0 then Inl ZeroDivisionError
           else Inr ((1 - real (length (remdups ngs)) / real total) * max_penalty))"

definition repetition_penalty :: "nat \<Rightarrow> real \<Rightarrow> string list \<Rightarrow> real list res" where
  "repetition_penalty ngram_size max_penalty = map_res (repetition_one ngram_size max_penalty)"

text \<open>The constructor asserts that the cache length is below the maximal length.\<close>

definition soft_overlong :: "int \<Rightarrow> int \<Rightarrow> nat list \<Rightarrow> real list res" where
  "soft_overlong soft_max_length soft_cache_length lengths =
     (if \<not> soft_cache_length < soft_max_length then Inl AssertionError
      else map_res (\<lambda>n.
        let exceed_len = int n - (soft_max_length - soft_cache_length)
        in if soft_cache_length = 0 then Inl ZeroDivisionError
           else Inr (min (- real_of_int exceed_len / real_of_int soft_cache_length) 0)) lengths)"

subsection \<open>Tool calls\<close>

text \<open>
  \<open>len(d) + 1e-30\<close> in double precision is the length itself unless the dictionary is empty.
\<close>

definition eps_len :: "nat \<Rightarrow> real" where
  "eps_len n = (if n = 0 then 1 / 10 ^ 30 else real n)"

text \<open>The keys of the reference that the candidate has: with equal values, and with others.\<close>

definition matches_of :: "pydict \<Rightarrow> pydict \<Rightarrow> nat \<times> nat" where
  "matches_of rj cj =
     (length (filter (\<lambda>(k, v). case dget cj k of Some w \<Rightarrow> py_eq w v | None \<Rightarrow> False) rj),
      length (filter (\<lambda>(k, v). case dget cj k of Some w \<Rightarrow> \<not> py_eq w v | None \<Rightarrow> False) rj))"

definition dict_f1 :: "pydict \<Rightarrow> pydict \<Rightarrow> real" where
  "dict_f1 rj cj =
     (if rj = [] then (if cj = [] then 1 else 0)
      else
        let (full_match, half_match) = matches_of rj cj;
            m = real half_match / 2 + real full_match;
            recall = m / eps_len (length rj); precision = m / eps_len (length cj)
        in if recall + precision = 0 then 0 else (2 * recall * precision) / (recall + precision))"

definition action_f1 :: "(string \<Rightarrow> string \<Rightarrow> real option) \<Rightarrow> string \<Rightarrow> string \<Rightarrow> string \<Rightarrow> string \<Rightarrow> real" where
  "action_f1 rougel pred_action ref_action cand_input ref_input =
     (case (json_loads ref_input, json_loads cand_input) of
        (rj, cj) \<Rightarrow>
          if ref_action \<noteq> pred_action \<or> (rj \<noteq> None) \<noteq> (cj \<noteq> None) then 0
          else if rj = None \<and> cj = None then
            (case rougel ref_input cand_input of
               None \<Rightarrow> 0
             | Some f \<Rightarrow> if f < 10 then 0 else if f < 20 then 1 / 10 else 1)
          else
            (case (Option.bind rj as_dict, Option.bind cj as_dict) of
               (Some d, Some e) \<Rightarrow> dict_f1 d e
             | _ \<Rightarrow> 0))"

definition evaluate_action_reward ::
  "(string \<Rightarrow> string \<Rightarrow> real option) \<Rightarrow> string list \<Rightarrow> string list \<Rightarrow> string list \<Rightarrow> string list \<Rightarrow> bool res" where
  "evaluate_action_reward rougel action_pred action_ref cand_list ref_list =
     (if length action_ref < length action_pred \<or> length ref_list < length action_pred
         \<or> length cand_list < length action_pred then Inl IndexError
      else
        (case map (\<lambda>i. action_f1 rougel (action_pred ! i) (action_ref ! i) (cand_list ! i) (ref_list ! i))
                [0 ..< length action_pred] of
           [] \<Rightarrow> Inl IndexError
         | f # _ \<Rightarrow> Inr (f = 1)))"

text \<open>\<open>text[text.rindex(p) + len(p):]\<close> for a substring that occurs.\<close>

definition after_last :: "string \<Rightarrow> string \<Rightarrow> string" where
  "after_last p s = last (split_str p s)"

definition parse_action :: "string \<Rightarrow> string \<times> string" where
  "parse_action s =
     (let action_input = (if contains ''Action Input:'' s then strip (after_last ''Action Input:'' s) else ''{}'');
          action =
            (if contains ''Action:'' s then
               let a = strip (after_last ''Action:'' s)
               in (case find_sub ''Action Input:'' a of Some (pre, _) \<Rightarrow> strip pre | None \<Rightarrow> a)
             else ''none'')
      in (action, action_input))"

definition react_one :: "(string \<Rightarrow> string \<Rightarrow> real option) \<Rightarrow> string \<Rightarrow> string \<Rightarrow> real res" where
  "react_one rougel prediction0 ground_truth =
     (if ground_truth = [] then Inr 0
      else
        let p1 = (if ends_with ''Observation:'' prediction0 then
                    (case find_sub ''Observation:'' prediction0 of Some (pre, _) \<Rightarrow> strip pre | None \<Rightarrow> prediction0)
                  else prediction0);
            prediction = strip (replace ''<|im_end|>'' [] (replace ''<|endoftext|>'' [] p1));
            (ref_action, ref_input) = parse_action ground_truth;
            (pred_action, pred_input) = parse_action prediction
        in res_bind (evaluate_action_reward rougel [pred_action] [ref_action] [pred_input] [ref_input])
             (\<lambda>b. Inr (if b then 1 else 0)))"

definition react_orm :: "(string \<Rightarrow> string \<Rightarrow> real option) \<Rightarrow> string list \<Rightarrow> string list option \<Rightarrow> real list res" where
  "react_orm rougel predictions solution =
     (case solution of
        None \<Rightarrow> Inr (replicate (length predictions) 0)
      | Some sols \<Rightarrow>
          if predictions = [] then Inl IndexError
          else map_res (\<lambda>(p, g). react_one rougel p g) (zip predictions sols))"

subsection \<open>Math answers\<close>

definition boxed_re :: rx where
  "boxed_re = seqs [lit ([CHR 0x5C] @ ''boxed{''), Grp 1 (Star True (Cls (\<lambda>c. c \<noteq> CHR ''}''))), lit ''}'']"

definition extract_boxed_result :: "string \<Rightarrow> string" where
  "extract_boxed_result s = (case re_search boxed_re s of Some gs \<Rightarrow> strip (group 1 gs) | None \<Rightarrow> s)"

definition check_terminate :: "string list \<Rightarrow> bool list" where
  "check_terminate answers = map (contains ([CHR 0x5C] @ ''boxed'')) answers"

definition delimiter_re :: rx where
  "delimiter_re = alts (map (\<lambda>c. lit [CHR 0x5C, c]) ''()[]'')"

definition clean_latex :: "string \<Rightarrow> string" where
  "clean_latex s =
     strip (replace_char (CHR ''}'') [] (replace_char (CHR ''{'') [] (replace ''}}'' ''}''
       (re_sub delimiter_re (\<lambda>_. []) s))))"

text \<open>
  \<open>parse\<close> is \<open>simplify(parse_latex(s))\<close> with an exception as \<open>None\<close>, the value the source
  returns for it; \<open>eqs\<close> is sympy's three-valued \<open>equals\<close>.
\<close>

definition compare_consecutive ::
  "(string \<Rightarrow> 'e option) \<Rightarrow> ('e \<Rightarrow> 'e \<Rightarrow> bool option) \<Rightarrow> string \<Rightarrow> string \<Rightarrow> bool" where
  "compare_consecutive parse eqs first second =
     (case (parse (clean_latex first), parse (clean_latex second)) of
        (Some a, Some b) \<Rightarrow> (case eqs a b of Some v \<Rightarrow> v | None \<Rightarrow> False)
      | (None, None) \<Rightarrow> True
      | _ \<Rightarrow> False)"

definition after_answer :: "string \<Rightarrow> string" where
  "after_answer s = (if contains ''# Answer'' s then split_str ''# Answer'' s ! 1 else s)"

definition math_orm :: "(string \<Rightarrow> string \<Rightarrow> bool) \<Rightarrow> string list \<Rightarrow> string list option \<Rightarrow> real list res" where
  "math_orm compare predictions ground_truths =
     (case ground_truths of
        None \<Rightarrow> Inr (replicate (length predictions) 0)
      | Some gts \<Rightarrow>
          if predictions = [] then Inl IndexError
          else Inr (map (\<lambda>(prediction, ground_truth).
            if ground_truth = [] then 0
            else if compare (extract_boxed_result (strip (after_answer prediction)))
                            (extract_boxed_result (strip (after_answer ground_truth)))
            then 1 else 0) (zip predictions gts)))"

subsection \<open>Lemmas on the generic rewards\<close>

lemma matches_of_le:
  "fst (matches_of rj cj) + snd (matches_of rj cj)
     = length (filter (\<lambda>p. dget cj (fst p) \<noteq> None) rj)"
  by (induction rj) (auto simp: matches_of_def split: option.splits)

lemma length_filter_eq_iff: "length (filter P xs) = length xs \<longleftrightarrow> (\<forall>x \<in> set xs. P x)"
  using length_filter_less [of _ xs P] by (auto simp: filter_id_conv) fastforce

lemma common_keys_le:
  assumes "distinct (map fst rj)"
  shows "length (filter (\<lambda>p. dget cj (fst p) \<noteq> None) rj) \<le> length cj"
proof -
  let ?ks = "map fst (filter (\<lambda>p. dget cj (fst p) \<noteq> None) rj)"
  have "length ?ks = card (set ?ks)"
    using assms by (intro distinct_card [symmetric] distinct_map_filter)
  also have "\<dots> \<le> card (set (map fst cj))"
    by (rule card_mono) (auto simp: map_of_eq_None_iff image_iff)
  also have "\<dots> \<le> length (map fst cj)" by (rule card_length)
  finally show ?thesis by simp
qed

lemma f1_eq_1:
  fixes f h n m :: nat
  assumes "f + h \<le> n" and "f + h \<le> m" and "0 < n"
  defines "x \<equiv> real h / 2 + real f"
  shows "(let r = x / eps_len n; p = x / eps_len m in
      if r + p = 0 then 0 else (2 * r * p) / (r + p)) = 1 \<longleftrightarrow> f = n \<and> n = m"
proof (cases "x = 0")
  case True
  then show ?thesis using assms(3) by (auto simp: x_def Let_def)
next
  case False
  then have x: "0 < x" by (simp add: x_def)
  then have m: "0 < m" using assms(2) by (auto simp: x_def)
  have "x / n + x / m = x * (n + m) / (n * m)" "2 * (x / n) * (x / m) = 2 * x * x / (n * m)"
    using assms(3) m by (simp_all add: field_simps)
  then have "(2 * (x / n) * (x / m)) / (x / n + x / m) = 2 * x / (n + m)"
    using x assms(3) m by simp
  moreover have "x / n + x / m \<noteq> 0"
    using x assms(3) m by (metis add_pos_pos divide_pos_pos less_irrefl of_nat_0_less_iff)
  moreover have "2 * x / (n + m) = 1 \<longleftrightarrow> h + 2 * f = n + m"
  proof -
    have "2 * x = real (h + 2 * f)" by (simp add: x_def)
    then show ?thesis using assms(3) by (simp only: divide_eq_1_iff of_nat_eq_iff) simp
  qed
  moreover have "h + 2 * f = n + m \<longleftrightarrow> f = n \<and> n = m" using assms(1,2) by auto
  ultimately show ?thesis using assms(3) m by (simp add: eps_len_def Let_def)
qed

text \<open>The F1 of two dictionaries is 1 exactly when they have the same keys with equal values.\<close>

lemma dict_f1_eq_1_iff:
  assumes d: "distinct (map fst rj)"
  shows "dict_f1 rj cj = 1 \<longleftrightarrow>
    length rj = length cj \<and> (\<forall>(k, v) \<in> set rj. \<exists>w. dget cj k = Some w \<and> py_eq w v)"
proof (cases "rj = []")
  case True
  then show ?thesis by (auto simp: dict_f1_def)
next
  case False
  let ?full = "fst (matches_of rj cj)" and ?half = "snd (matches_of rj cj)"
  have le: "?full + ?half \<le> length rj" "?full + ?half \<le> length cj"
    unfolding matches_of_le using common_keys_le [OF d] by simp_all
  have "?full = length rj \<longleftrightarrow> (\<forall>(k, v) \<in> set rj. \<exists>w. dget cj k = Some w \<and> py_eq w v)"
    unfolding matches_of_def fst_conv length_filter_eq_iff by (fastforce split: option.splits)
  moreover have "dict_f1 rj cj = 1 \<longleftrightarrow> ?full = length rj \<and> length rj = length cj"
    using f1_eq_1 [OF le] False by (simp add: dict_f1_def case_prod_beta Let_def)
  ultimately show ?thesis by blast
qed

lemma react_one_text:
  assumes "\<And>r c f. rougel r c = Some f \<Longrightarrow> f \<le> 1"
    and "json_loads ref_input = None"
  shows "action_f1 rougel p a cand_input ref_input = 0"
  using assms(1) [of ref_input cand_input] assms(2)
  by (auto simp: action_f1_def split: option.splits dest: order_trans [of _ 1 "20 :: real"])

lemma cosfn_ends [simp]: "cosfn 0 T a b = b" "0 < T \<Longrightarrow> cosfn T T a b = a"
  by (simp_all add: cosfn_def diff_divide_distrib)

lemma cosfn_antimono:
  assumes "a \<le> b" and "0 \<le> t" and "t \<le> u" and "u \<le> T" and "0 < T"
  shows "cosfn u T a b \<le> cosfn t T a b"
proof -
  have "t * pi / T \<le> u * pi / T" "0 \<le> t * pi / T" "u * pi / T \<le> pi"
    using assms by (simp_all add: divide_right_mono mult_right_mono field_simps)
  then have "cos (u * pi / T) \<le> cos (t * pi / T)" by (intro cos_monotone_0_pi_le) simp_all
  then have "(b - a) * (1 - cos (t * pi / T)) \<le> (b - a) * (1 - cos (u * pi / T))"
    using assms(1) by (intro mult_left_mono) simp_all
  then show ?thesis by (simp add: cosfn_def divide_right_mono)
qed

lemma length_zipngram: "0 < n \<Longrightarrow> length (zipngram s n) = length (split_ws (lower s)) + 1 - n"
  by (simp add: zipngram_def Let_def)

lemma is_ws_lower [simp]: "is_ws (lower_char c) = is_ws c"
  by (auto simp: is_ws_def lower_char_def Let_def of_char_of)

lemma lstrip_lower: "lstrip (lower s) = lower (lstrip s)"
  by (simp add: lstrip_def lower_def dropWhile_map o_def)

lemma split_ws_lower: "split_ws (lower s) = map lower (split_ws s)"
proof (induction s rule: split_ws.induct)
  case (1 s)
  have tw: "takeWhile (\<lambda>c. \<not> is_ws c) (lower t) = lower (takeWhile (\<lambda>c. \<not> is_ws c) t)"
    "dropWhile (\<lambda>c. \<not> is_ws c) (lower t) = lower (dropWhile (\<lambda>c. \<not> is_ws c) t)" for t
    by (simp_all add: lower_def takeWhile_map dropWhile_map o_def)
  show ?case
  proof (cases "lstrip s = []")
    case True
    then have "lstrip (lower s) = []" by (simp add: lstrip_lower) (simp add: lower_def)
    with True show ?thesis by (simp add: split_ws.simps [of s] split_ws.simps [of "lower s"])
  next
    case False
    then have "lower (lstrip s) \<noteq> []" by (simp add: lower_def)
    with 1 [OF refl False] False show ?thesis
      by (simp add: split_ws.simps [of s] split_ws.simps [of "lower s"] lstrip_lower tw Let_def)
  qed
qed


subsection \<open>Properties\<close>

text \<open>
  The tool-call reward on JSON inputs: it is 1 exactly when the predicted action is the
  reference action and the two argument objects have the same keys with equal values, and 0
  otherwise; partial matches count for nothing.
\<close>

theorem tool_call_reward_exact:
  assumes "json_loads ref_input = Some (PDict rj)" and "json_loads cand_input = Some (PDict cj)"
    and "distinct (map fst rj)"
  shows "evaluate_action_reward rougel [pred_action] [ref_action] [cand_input] [ref_input] =
    Inr (ref_action = pred_action \<and> length rj = length cj
         \<and> (\<forall>(k, v) \<in> set rj. \<exists>w. dget cj k = Some w \<and> py_eq w v))"
  using assms(1,2) dict_f1_eq_1_iff [OF assms(3)]
  by (auto simp: evaluate_action_reward_def action_f1_def)

lemma tool_call_reward_exact_witness:
  "evaluate_action_reward (\<lambda>r c. None) [''get''] [''get''] [''{\"b\": 2, \"a\": 1}''] [''{\"a\": 1, \"b\": 2}'']
     = Inr True"
proof -
  have "json_loads ''{\"a\": 1, \"b\": 2}'' = Some (PDict [(''a'', PInt 1), (''b'', PInt 2)])"
    "json_loads ''{\"b\": 2, \"a\": 1}'' = Some (PDict [(''b'', PInt 2), (''a'', PInt 1)])"
    by code_simp+
  from tool_call_reward_exact [OF this, of "\<lambda>r c. None" "''get''" "''get''"] show ?thesis by simp
qed

text \<open>
  Tool calls whose reference input is not JSON are never rewarded: the scorer compares
  Rouge-L with thresholds 10 and 20, and the F-measure of Rouge-L is at most 1.
\<close>

theorem text_tool_call_never_rewarded:
  assumes "\<And>r c f. rougel r c = Some f \<Longrightarrow> f \<le> 1" and "json_loads ref_input = None"
  shows "evaluate_action_reward rougel [pred_action] [ref_action] [cand_input] [ref_input] = Inr False"
  using react_one_text [OF assms] by (simp add: evaluate_action_reward_def)

lemma text_tool_call_never_rewarded_witness:
  "evaluate_action_reward (\<lambda>r c. if r = c then Some 1 else Some 0) [''say''] [''say''] [''hello world''] [''hello world'']
     = Inr False"
proof -
  have "json_loads ''hello world'' = None" by code_simp
  then show ?thesis by (intro text_tool_call_never_rewarded) (auto split: if_splits)
qed

text \<open>
  The cosine reward of a correct answer starts at its value for the empty response,
  falls with the length, and stays at or above its value for the maximal length, which it
  reaches there.
\<close>

lemma cosine_reward_interpolates:
  assumes "max_len_value_correct K \<le> min_len_value_correct K" and "0 < max_len K" and "1 \<le> acc"
    and "m \<le> n" and "real n \<le> max_len K"
  shows "cosine_one K 0 acc = min_len_value_correct K
    \<and> cosine_one K n acc \<le> cosine_one K m acc
    \<and> max_len_value_correct K \<le> cosine_one K n acc
    \<and> (real n = max_len K \<longrightarrow> cosine_one K n acc = max_len_value_correct K)"
proof -
  have c: "cosine_one K k acc = cosfn (real k) (max_len K) (max_len_value_correct K) (min_len_value_correct K)" for k
    using assms(3) by (simp add: cosine_one_def)
  have "cosfn (max_len K) (max_len K) (max_len_value_correct K) (min_len_value_correct K)
      \<le> cosfn (real n) (max_len K) (max_len_value_correct K) (min_len_value_correct K)"
    using assms by (intro cosfn_antimono) simp_all
  then show ?thesis
    unfolding c using assms by (auto intro!: cosfn_antimono)
qed

lemma cosine_reward_interpolates_witness:
  "cosine_one \<lparr>min_len_value_wrong = -1, max_len_value_wrong = 0, min_len_value_correct = 1,
              max_len_value_correct = 0, max_len = 100\<rparr> 100 1 = 0"
  using cosine_reward_interpolates [of "\<lparr>min_len_value_wrong = -1, max_len_value_wrong = 0,
      min_len_value_correct = 1, max_len_value_correct = 0, max_len = 100\<rparr>" 1 7 100]
  by simp

text \<open>
  The repetition penalty never divides by zero for a positive n-gram size, lies between
  the maximal penalty (not reached) and 0, and is 0 exactly when no n-gram is repeated,
  ignoring case.
\<close>

lemma repetition_penalty_bounds:
  assumes "0 < ngram_size" and "max_penalty < 0"
  shows "\<exists>r. repetition_one ngram_size max_penalty completion = Inr r \<and> max_penalty < r \<and> r \<le> 0
    \<and> (r = 0 \<longleftrightarrow> completion = [] \<or> distinct (zipngram completion ngram_size))"
proof (cases "completion = [] \<or> length (split_ws completion) < ngram_size")
  case True
  moreover have "zipngram completion ngram_size = []" if "length (split_ws completion) < ngram_size"
    using that assms(1) by (simp add: zipngram_def split_ws_lower Let_def)
  ultimately show ?thesis using assms by (auto simp: repetition_one_def)
next
  case False
  let ?z = "zipngram completion ngram_size"
  have t: "0 < length ?z" using False assms(1) by (simp add: length_zipngram split_ws_lower)
  have u: "0 < length (remdups ?z)" "length (remdups ?z) \<le> length ?z"
    using t by (simp_all add: length_greater_0_conv del: length_0_conv)
  let ?q = "real (length (remdups ?z)) / real (length ?z)"
  have q: "0 < ?q" "?q \<le> 1" "?q = 1 \<longleftrightarrow> distinct ?z"
    using t u by (auto simp: divide_le_eq_1 length_remdups_card_conv distinct_card intro: card_distinct)
  have "max_penalty < (1 - ?q) * max_penalty"
    using mult_pos_neg [OF q(1) assms(2)] by (simp only: left_diff_distrib mult_1_left)
  moreover have "(1 - ?q) * max_penalty \<le> 0" using q(2) assms(2) by (simp add: mult_nonneg_nonpos)
  moreover have "(1 - ?q) * max_penalty = 0 \<longleftrightarrow> distinct ?z" using q(3) assms(2) by simp
  moreover have "repetition_one ngram_size max_penalty completion = Inr ((1 - ?q) * max_penalty)"
    using False t by (simp add: repetition_one_def Let_def)
  ultimately show ?thesis using False by blast
qed

lemma repetition_penalty_bounds_witness:
  "\<exists>r. repetition_one 2 (-1) ''go go go on'' = Inr r \<and> -1 < r \<and> r < 0"
proof -
  have "\<not> distinct (zipngram ''go go go on'' 2)" by code_simp
  with repetition_penalty_bounds [of 2 "-1" "''go go go on''"] show ?thesis by force
qed

end
