(* ===== verification/GeoRewards.thy ===== *)
theory GeoRewards
  imports Rewards
begin

text \<open>
  The rewards of the geolocation task: the answer-format rewards and the GeoScore reward
  (\<open>GeoScoreAccuracy.__call__\<close>), which geocodes the predicted place name and scores its
  distance to the ground truth.  \<open>rp\<close> prints a float, a list or a dictionary.
\<close>

subsection \<open>Answer blocks\<close>

definition answer_re :: rx where
  "answer_re = seqs [lit_ci ''<answer>'', blanks, Grp 1 (Star False dot_all), blanks, lit_ci ''</answer>'']"

definition extract_answer_blocks :: "string \<Rightarrow> string list" where
  "extract_answer_blocks completion = map strip (re_findall1 answer_re completion)"

definition brace_re :: rx where
  "brace_re = seqs [lit ''{'', Star False dot_all, lit ''}'']"

definition parse_json_object :: "string \<Rightarrow> pydict option" where
  "parse_json_object s =
     (if s = [] then None
      else case json_object (strip s) of
        Some d \<Rightarrow> Some d
      | None \<Rightarrow>
          (case List.find (\<lambda>c. json_object c \<noteq> None) (re_findall0 brace_re s) of
             None \<Rightarrow> None | Some c \<Rightarrow> json_object c))"

text \<open>\<open>str(data["FinalAnswer"]).strip()\<close>, when the value is there and not null.\<close>

definition final_answer_of :: "(pyval \<Rightarrow> string) \<Rightarrow> pydict option \<Rightarrow> string option" where
  "final_answer_of rp data =
     (case data of
        None \<Rightarrow> None
      | Some d \<Rightarrow> if pget d ''FinalAnswer'' = PNone then None
                  else Some (strip (py_str rp (pget d ''FinalAnswer''))))"

definition final_answer_re :: rx where
  "final_answer_re =
     seqs [lit [CHR 0x22], lit ''FinalAnswer'', lit [CHR 0x22], blanks, lit '':'', blanks, lit [CHR 0x22],
           Grp 1 (rx_plus (Cls (\<lambda>c. c \<noteq> CHR 0x22))), lit [CHR 0x22]]"

definition extract_answer_content :: "(pyval \<Rightarrow> string) \<Rightarrow> string \<Rightarrow> string option" where
  "extract_answer_content rp completion =
     (let answer_blocks = extract_answer_blocks completion in
      if answer_blocks \<noteq> [] then
        (case final_answer_of rp (parse_json_object (last answer_blocks)) of
           Some a \<Rightarrow> Some a
         | None \<Rightarrow> Some (last answer_blocks))
      else
        (case final_answer_of rp (parse_json_object completion) of
           Some a \<Rightarrow> Some a
         | None \<Rightarrow> map_option (\<lambda>gs. strip (group 1 gs)) (re_search final_answer_re completion)))"

definition in_range :: "real \<Rightarrow> real \<Rightarrow> bool" where
  "in_range lat lon = (-90 \<le> lat \<and> lat \<le> 90 \<and> -180 \<le> lon \<and> lon \<le> 180)"

definition coordinates_of :: "pydict \<Rightarrow> (real \<times> real) option" where
  "coordinates_of data =
     (case (py_float (dget_or data ''latitude'' (pget data ''lat'')),
            py_float (dget_or data ''longitude'' (dget_or data ''lon'' (pget data ''lng'')))) of
        (Some lat, Some lon) \<Rightarrow> if in_range lat lon then Some (lat, lon) else None
      | _ \<Rightarrow> None)"

fun first_some :: "('a \<Rightarrow> 'b option) \<Rightarrow> 'a list \<Rightarrow> 'b option" where
  "first_some f [] = None"
| "first_some f (x # xs) = (case f x of Some y \<Rightarrow> Some y | None \<Rightarrow> first_some f xs)"

definition extract_pred_coordinates :: "string \<Rightarrow> (real \<times> real) option" where
  "extract_pred_coordinates completion =
     first_some (\<lambda>source. Option.bind (parse_json_object source) coordinates_of)
       (extract_answer_blocks completion @ [completion])"

subsection \<open>Format rewards\<close>

definition separator_re :: rx where
  "separator_re = Alt (lit '';'') (lit fw_semicolon)"

definition answer_parts :: "string \<Rightarrow> string list" where
  "answer_parts final_answer =
     filter (\<lambda>p. p \<noteq> []) (map strip (re_split separator_re final_answer))"

definition extract_final_answer :: "(pyval \<Rightarrow> string) \<Rightarrow> string \<Rightarrow> string option" where
  "extract_final_answer rp answer_content = final_answer_of rp (json_object answer_content)"

definition geo_answer_format_one :: "(pyval \<Rightarrow> string) \<Rightarrow> string \<Rightarrow> real" where
  "geo_answer_format_one rp content =
     (case re_findall1 answer_re (strip content) of
        [] \<Rightarrow> 0
      | ms \<Rightarrow>
          (case extract_final_answer rp (strip (last ms)) of
             None \<Rightarrow> 0
           | Some a \<Rightarrow> if a = [] then 0 else if length (answer_parts a) = 3 then 1 else 0))"

definition geo_answer_format :: "(pyval \<Rightarrow> string) \<Rightarrow> string list \<Rightarrow> real list" where
  "geo_answer_format rp = map (geo_answer_format_one rp)"

definition words_ci :: "string list \<Rightarrow> rx" where
  "words_ci xs = alts (map lit_ci xs)"

definition final_banned_re :: rx where
  "final_banned_re = alts
     [seqs [WordB,
            alts [lit_ci ''unknown'', seqs [lit_ci ''n'', rx_opt (lit ''/''), lit_ci ''a''],
                  words_ci [''unspecified'', ''undetermined'', ''unidentified'', ''uncertain'', ''unclear'',
                            ''placeholder'', ''generic'']],
            WordB],
      words_ci [''not enough'', ''cannot be determined'', ''can not be determined'',
                ''not possible to determine'', ''hard to determine'', ''difficult to determine'']]"

definition ws_plus :: rx where
  "ws_plus = rx_plus blank"

definition some_words :: rx where
  "some_words = rx_upto 3 (seqs [rx_plus (Cls is_word), ws_plus])"

definition refusal_re :: rx where
  "refusal_re = alts
     [seqs [WordB, words_ci [''cannot'', ''can not'', ''can'' @ [CHR 0x27] @ ''t'', ''unable to''], ws_plus,
            rx_opt (seqs [lit_ci ''be'', ws_plus]), some_words,
            alts [seqs [lit_ci ''determin'', words_ci [''e'', ''ed'']],
                  seqs [lit_ci ''identif'', words_ci [''y'', ''ied'']],
                  seqs [lit_ci ''infer'', rx_opt (lit_ci ''red'')],
                  seqs [lit_ci ''locate'', rx_opt (lit_ci ''d'')],
                  seqs [lit_ci ''geolocate'', rx_opt (lit_ci ''d'')],
                  seqs [lit_ci ''pinpoint'', rx_opt (lit_ci ''ed'')]],
            WordB],
      seqs [WordB, words_ci [''impossible'', ''not possible'', ''hard'', ''difficult''], ws_plus, lit_ci ''to'',
            ws_plus, some_words,
            words_ci [''determine'', ''identify'', ''infer'', ''locate'', ''geolocate'', ''pinpoint''], WordB],
      seqs [WordB, words_ci [''insufficient'', ''not enough''], ws_plus, rx_opt (seqs [lit_ci ''visual'', ws_plus]),
            words_ci [''information'', ''evidence'', ''clues'', ''detail'', ''details'', ''context''], WordB],
      seqs [WordB, lit_ci ''no identifiable'', ws_plus, rx_opt (seqs [lit_ci ''geographic'', ws_plus]),
            words_ci [''information'', ''features'', ''landmarks'', ''location'', ''place'', ''clues''], WordB],
      seqs [WordB, lit_ci ''lack'', rx_opt (words_ci [''s'', ''ing'']), ws_plus, rx_opt (seqs [lit_ci ''any'', ws_plus]),
            lit_ci ''identifiable'', ws_plus, rx_opt (seqs [lit_ci ''geographic'', ws_plus]),
            words_ci [''information'', ''features'', ''landmarks'', ''location'', ''place'', ''clues''], WordB]]"

definition im_end_re :: rx where
  "im_end_re = seqs [blanks, lit ''<|im_end|>'', blanks, EolZ]"

definition strip_special_tokens :: "string \<Rightarrow> string" where
  "strip_special_tokens content = re_sub im_end_re (\<lambda>_. []) (strip content)"

definition has_unknown_or_refusal :: "(pyval \<Rightarrow> string) \<Rightarrow> string \<Rightarrow> bool" where
  "has_unknown_or_refusal rp content0 =
     (let content = strip_special_tokens content0;
          banned =
            (case re_findall1 answer_re content of
               [] \<Rightarrow> False
             | ms \<Rightarrow> (case extract_final_answer rp (strip (last ms)) of
                 None \<Rightarrow> False
               | Some a \<Rightarrow> a \<noteq> [] \<and> re_test final_banned_re a))
      in banned \<or> re_test refusal_re content)"

definition geo_no_unknown :: "(pyval \<Rightarrow> string) \<Rightarrow> string list \<Rightarrow> real list" where
  "geo_no_unknown rp = map (\<lambda>content. if has_unknown_or_refusal rp content then 0 else 1)"

definition block_re :: rx where
  "block_re = seqs [Bol, lit_ci ''<think>'', blanks, Grp 1 (Star False dot_all), blanks, lit_ci ''</think>'', blanks,
                    lit_ci ''<answer>'', blanks, Grp 2 (Star False dot_all), blanks, lit_ci ''</answer>'', blanks, EolZ]"

definition nonblank_strings :: "pyval \<Rightarrow> bool" where
  "nonblank_strings v =
     (case v of
        PList xs \<Rightarrow> xs \<noteq> [] \<and> list_all (\<lambda>x. case x of PStr t \<Rightarrow> strip t \<noteq> [] | _ \<Rightarrow> False) xs
      | _ \<Rightarrow> False)"

definition nonblank_string :: "pyval \<Rightarrow> bool" where
  "nonblank_string v = (case v of PStr t \<Rightarrow> strip t \<noteq> [] | _ \<Rightarrow> False)"

definition same_elements :: "string list \<Rightarrow> string list \<Rightarrow> bool" where
  "same_elements xs ys = (list_all (\<lambda>x. x \<in> set ys) xs \<and> list_all (\<lambda>y. y \<in> set xs) ys)"

text \<open>
  \<open>set(v) != ks\<close> for a JSON value: the keys of a dictionary, the characters of a string,
  the elements of a list (unhashable ones raise), and \<open>TypeError\<close> for the rest.
\<close>

definition set_differs :: "pyval \<Rightarrow> string list \<Rightarrow> bool res" where
  "set_differs v ks =
     (case v of
        PDict d \<Rightarrow> Inr (\<not> same_elements (map fst d) ks)
      | PStr s \<Rightarrow> Inr (\<not> same_elements (map (\<lambda>c. [c]) s) ks)
      | PList xs \<Rightarrow>
          if list_ex (\<lambda>x. case x of PList _ \<Rightarrow> True | PDict _ \<Rightarrow> True | _ \<Rightarrow> False) xs then Inl TypeError
          else if list_all is_str xs then
            Inr (\<not> same_elements (map (\<lambda>x. case x of PStr t \<Rightarrow> t | _ \<Rightarrow> []) xs) ks)
          else Inr True
      | _ \<Rightarrow> Inl TypeError)"

definition geo_strict_format_one :: "(pyval \<Rightarrow> string) \<Rightarrow> string \<Rightarrow> real res" where
  "geo_strict_format_one rp content0 =
     (let content = strip_special_tokens content0 in
      if has_unknown_or_refusal rp content then Inr 0
      else case re_match block_re content of
        None \<Rightarrow> Inr 0
      | Some gs \<Rightarrow>
          (case (json_loads (strip (group 1 gs)), json_loads (strip (group 2 gs))) of
             (Some think_json, Some answer_json) \<Rightarrow>
               res_bind (set_differs think_json [''Clues'', ''Reasoning'']) (\<lambda>b1.
               res_bind (if b1 then Inr True else set_differs answer_json [''FinalAnswer'']) (\<lambda>b2.
                 if b2 then Inr 0
                 else
                   res_bind (py_get think_json ''Clues'' PNone) (\<lambda>clues.
                   res_bind (py_get think_json ''Reasoning'' PNone) (\<lambda>reasoning.
                   res_bind (py_get answer_json ''FinalAnswer'' (PStr [])) (\<lambda>fa.
                     if nonblank_strings clues \<and> nonblank_string reasoning
                        \<and> length (answer_parts (strip (py_str rp fa))) = 3
                     then Inr 1 else Inr 0)))))
           | _ \<Rightarrow> Inr 0))"

definition geo_strict_format :: "(pyval \<Rightarrow> string) \<Rightarrow> string list \<Rightarrow> real list res" where
  "geo_strict_format rp = map_res (geo_strict_format_one rp)"

definition empty_think_re :: rx where
  "empty_think_re = seqs [Bol, blanks, lit_ci ''<think>'', blanks, lit_ci ''</think>'', blanks]"

definition strip_auto_think_prefix :: "string \<Rightarrow> string" where
  "strip_auto_think_prefix content = re_sub1 empty_think_re [] content"

definition geo_json_strict_format_one :: "string \<Rightarrow> real" where
  "geo_json_strict_format_one content0 =
     (let content = strip_auto_think_prefix (strip_special_tokens content0) in
      if re_test refusal_re content then 0
      else case json_object content of
        None \<Rightarrow> 0
      | Some data \<Rightarrow>
          if \<not> same_elements (map fst data) [''Clues'', ''Reasoning'', ''FinalAnswer''] then 0
          else if \<not> nonblank_strings (pget data ''Clues'') \<or> \<not> nonblank_string (pget data ''Reasoning'') then 0
          else case pget data ''FinalAnswer'' of
            PStr final_answer \<Rightarrow>
              if re_test final_banned_re final_answer then 0
              else if length (answer_parts final_answer) = 3 then 1 else 0
          | _ \<Rightarrow> 0)"

definition geo_json_strict_format :: "string list \<Rightarrow> real list" where
  "geo_json_strict_format = map geo_json_strict_format_one"

subsection \<open>The ground truth\<close>

definition as_list :: "pyval \<Rightarrow> nat \<Rightarrow> pyval list" where
  "as_list v n = (case v of PNone \<Rightarrow> replicate n PNone | PList xs \<Rightarrow> xs | _ \<Rightarrow> replicate n v)"

definition get_indexed_value :: "pyval \<Rightarrow> nat \<Rightarrow> nat \<Rightarrow> pyval" where
  "get_indexed_value v index len =
     (let values = as_list v len in
      if values = [] then PNone
      else if length values = 1 \<and> 0 < index then values ! 0
      else if length values \<le> index then PNone
      else values ! index)"

text \<open>The first column that is given decides, even when its value is missing.\<close>

definition column_value :: "pydict \<Rightarrow> string list \<Rightarrow> nat \<Rightarrow> real option" where
  "column_value kwargs keys index =
     (case List.find (\<lambda>k. pget kwargs k \<noteq> PNone) keys of
        None \<Rightarrow> None
      | Some k \<Rightarrow> py_float (get_indexed_value (pget kwargs k) index (index + 1)))"

definition get_gt_coordinates :: "nat \<Rightarrow> pydict \<Rightarrow> (real \<times> real) option" where
  "get_gt_coordinates index kwargs =
     (case (column_value kwargs [''latitude'', ''gt_latitude'', ''lat''] index,
            column_value kwargs [''longitude'', ''gt_longitude'', ''lon'', ''lng''] index) of
        (Some lat, Some lon) \<Rightarrow> if in_range lat lon then Some (lat, lon) else None
      | _ \<Rightarrow> None)"

definition solution_dict_coordinates :: "pydict \<Rightarrow> (real \<times> real) option" where
  "solution_dict_coordinates d =
     (case (py_float (dget_or d ''latitude'' (pget d ''gt_latitude'')),
            py_float (dget_or d ''longitude'' (dget_or d ''gt_longitude'' (pget d ''lng'')))) of
        (Some lat, Some lon) \<Rightarrow> Some (lat, lon)
      | _ \<Rightarrow> None)"

definition get_gt_coordinates_from_solution :: "pyval \<Rightarrow> (real \<times> real) option" where
  "get_gt_coordinates_from_solution sol =
     (case sol of
        PDict d \<Rightarrow> solution_dict_coordinates d
      | PStr s \<Rightarrow> Option.bind (json_object s) solution_dict_coordinates
      | _ \<Rightarrow> None)"

subsection \<open>The GeoScore reward\<close>

text \<open>
  One sample: the reward and the client after it.  \<open>None\<close> is a geocoding call that still
  waits.  An exception inside the loop body gives reward 0 (coordinates that are not
  numbers), as the handler of the source does.
\<close>

definition place_coordinates :: "pyval \<Rightarrow> (pyval \<times> pyval) option" where
  "place_coordinates reply =
     (case reply of
        PDict d \<Rightarrow>
          if pget d ''status'' = PStr ''success'' then Some (pget d ''latitude'', pget d ''longitude'') else None
      | _ \<Rightarrow> None)"

definition distance_reward :: "geo_config \<Rightarrow> pyval \<times> pyval \<Rightarrow> pyval \<times> pyval \<Rightarrow> real" where
  "distance_reward C pred gt =
     (case (num_of (fst pred), num_of (snd pred), num_of (fst gt), num_of (snd gt)) of
        (Some plat, Some plng, Some glat, Some glng) \<Rightarrow>
          (case calculate_distance plat plng glat glng of
             Inl e \<Rightarrow> 0
           | Inr d \<Rightarrow> calculate_geoscore (max_distance C) d)
      | _ \<Rightarrow> 0)"

definition score_sample ::
  "nat \<Rightarrow> geo_config \<Rightarrow> (nat \<Rightarrow> string \<Rightarrow> http_outcome) \<Rightarrow> (pyval \<Rightarrow> string) \<Rightarrow> pydict
     \<Rightarrow> nat \<Rightarrow> string \<Rightarrow> pyval \<Rightarrow> geo_client \<Rightarrow> (real \<times> geo_client) option" where
  "score_sample n C net rp kwargs i completion sol s =
     (case extract_answer_content rp completion of
        None \<Rightarrow> Some (0, s)
      | Some pred_answer \<Rightarrow>
          if pred_answer = [] then Some (0, s)
          else
            case call_opencage_geocoding n C net pred_answer 0 s of
              None \<Rightarrow> None
            | Some (pred_result, s1) \<Rightarrow>
                (case place_coordinates pred_result of
                   None \<Rightarrow> Some (0, s1)
                 | Some pred \<Rightarrow>
                     (case (case get_gt_coordinates i kwargs of
                              Some g \<Rightarrow> Some g | None \<Rightarrow> get_gt_coordinates_from_solution sol) of
                        Some (glat, glng) \<Rightarrow> Some (distance_reward C pred (PFloat glat, PFloat glng), s1)
                      | None \<Rightarrow>
                          (case extract_answer_content rp (py_str rp sol) of
                             None \<Rightarrow> Some (0, s1)
                           | Some gt_answer \<Rightarrow>
                               if gt_answer = [] then Some (0, s1)
                               else
                                 case call_opencage_geocoding n C net gt_answer 0 s1 of
                                   None \<Rightarrow> None
                                 | Some (gt_result, s2) \<Rightarrow>
                                     (case place_coordinates gt_result of
                                        None \<Rightarrow> Some (0, s2)
                                      | Some gt \<Rightarrow> Some (distance_reward C pred gt, s2))))))"

fun score_samples ::
  "nat \<Rightarrow> geo_config \<Rightarrow> (nat \<Rightarrow> string \<Rightarrow> http_outcome) \<Rightarrow> (pyval \<Rightarrow> string) \<Rightarrow> pydict
     \<Rightarrow> nat \<Rightarrow> (string \<times> pyval) list \<Rightarrow> geo_client \<Rightarrow> (real list \<times> geo_client) option" where
  "score_samples n C net rp kwargs i [] s = Some ([], s)"
| "score_samples n C net rp kwargs i ((completion, sol) # rest) s =
     (case score_sample n C net rp kwargs i completion sol s of
        None \<Rightarrow> None
      | Some (r, s1) \<Rightarrow>
          (case score_samples n C net rp kwargs (Suc i) rest s1 of
             None \<Rightarrow> None
           | Some (rs, s2) \<Rightarrow> Some (r # rs, s2)))"

definition align_solutions :: "pyval \<Rightarrow> nat \<Rightarrow> pyval list" where
  "align_solutions solution n =
     (let solutions = as_list solution n in
      if length solutions = 1 \<and> 1 < n then replicate n (solutions ! 0)
      else if length solutions \<noteq> n then replicate n PNone
      else solutions)"

definition geoscore_accuracy ::
  "nat \<Rightarrow> geo_config \<Rightarrow> (nat \<Rightarrow> string \<Rightarrow> http_outcome) \<Rightarrow> (pyval \<Rightarrow> string) \<Rightarrow> string list \<Rightarrow> pyval \<Rightarrow> pydict
     \<Rightarrow> geo_client \<Rightarrow> (real list \<times> geo_client) option" where
  "geoscore_accuracy n C net rp completions solution kwargs s =
     score_samples n C net rp kwargs 0 (zip completions (align_solutions solution (length completions))) s"

subsection \<open>Lemmas on the GeoScore reward\<close>

lemma distance_reward_range: "0 \<le> distance_reward C pred gt \<and> distance_reward C pred gt \<le> 1"
  using calculate_geoscore_bounds by (auto simp: distance_reward_def split: option.splits)

lemma call_store_ok:
  "call_opencage_geocoding n C net a rc s = Some (r, s') \<Longrightarrow> store_ok C s \<Longrightarrow> store_ok C s'"
  using geo_call_store_ok unfolding call_opencage_geocoding_def by blast

lemma score_sample_ok:
  assumes "score_sample n C net rp kwargs i completion sol s = Some (r, s')" and "store_ok C s"
  shows "0 \<le> r \<and> r \<le> 1 \<and> store_ok C s'"
  using assms distance_reward_range
  by (auto simp: score_sample_def dest: call_store_ok split: option.splits if_splits prod.splits)

lemma score_samples_ok:
  assumes "score_samples n C net rp kwargs i xs s = Some (rs, s')" and "store_ok C s"
  shows "length rs = length xs \<and> (\<forall>r \<in> set rs. 0 \<le> r \<and> r \<le> 1) \<and> store_ok C s'"
  using assms
proof (induction xs arbitrary: i s rs)
  case (Cons x xs)
  obtain completion sol where x: "x = (completion, sol)" by (cases x)
  then obtain r s1 rs1 where r: "score_sample n C net rp kwargs i completion sol s = Some (r, s1)"
    and rs1: "score_samples n C net rp kwargs (Suc i) xs s1 = Some (rs1, s')" and rs: "rs = r # rs1"
    using Cons.prems(1) by (auto split: option.splits)
  show ?case
    using score_sample_ok [OF r Cons.prems(2)] Cons.IH [OF rs1] by (simp add: rs)
qed simp

lemma length_align_solutions [simp]: "length (align_solutions solution n) = n"
  by (simp add: align_solutions_def Let_def)

subsection \<open>Properties\<close>

text \<open>
  C35. When every number in the solutions, the columns and the replies of the service is finite, the
  GeoScore reward returns one reward per completion, each between 0 and 1, and leaves a well-formed
  cache, whatever the completions, solutions and columns are otherwise.  The finiteness is that of
  the values of this model: a true latitude or longitude written as \<open>NaN\<close> is outside.  The code
  checks the range of the columns only, so such a solution gives the reward \<open>nan\<close> there.
\<close>

theorem geoscore_rewards_in_range:
  assumes "geoscore_accuracy n C net rp completions solution kwargs s = Some (rewards, s')"
    and "store_ok C s"
  shows "length rewards = length completions \<and> (\<forall>r \<in> set rewards. 0 \<le> r \<and> r \<le> 1) \<and> store_ok C s'"
  using score_samples_ok assms unfolding geoscore_accuracy_def by fastforce

lemma geoscore_rewards_in_range_witness:
  "\<exists>rewards s'. geoscore_accuracy 1 sample_config sample_net (\<lambda>_. []) [''no answer'', ''none''] PNone [] sample_client
      = Some (rewards, s') \<and> length rewards = 2"
proof -
  have "extract_answer_content (\<lambda>_. []) ''no answer'' = None"
    "extract_answer_content (\<lambda>_. []) ''none'' = None" by code_simp+
  then have "geoscore_accuracy 1 sample_config sample_net (\<lambda>_. []) [''no answer'', ''none''] PNone [] sample_client
      = Some ([0, 0], sample_client)"
    by (simp add: geoscore_accuracy_def align_solutions_def as_list_def score_sample_def numeral_2_eq_2)
  moreover have "store_ok sample_config sample_client"
    by (simp add: store_ok_def sample_client_def read_cache_file_def)
  ultimately show ?thesis using geoscore_rewards_in_range by fastforce
qed

text \<open>
  C30. What a scored sample earns: when the predicted place geocodes to numeric coordinates
  and the columns give the ground truth, the reward is the GeoScore of the great-circle
  distance between them, positive exactly below the distance limit, 1 for a perfect
  prediction, and the client is as the one geocoding call left it (the reference side makes
  no request).
\<close>

theorem geoscore_of_sample:
  assumes "extract_answer_content rp completion = Some answer" and "answer \<noteq> []"
    and "call_opencage_geocoding n C net answer 0 s = Some (reply, s')"
    and "place_coordinates reply = Some (lat, lng)"
    and "num_of lat = Some plat" and "num_of lng = Some plng"
    and "get_gt_coordinates i kwargs = Some (glat, glng)" and "0 < max_distance C"
  shows "\<exists>r. score_sample n C net rp kwargs i completion sol s = Some (r, s')
    \<and> r = calculate_geoscore (max_distance C) (gc_dist plat plng glat glng)
    \<and> (0 < r \<longleftrightarrow> gc_dist plat plng glat glng < max_distance C)
    \<and> (plat = glat \<and> plng = glng \<longrightarrow> r = 1)"
  using assms
  by (auto simp: score_sample_def distance_reward_def calculate_geoscore_pos_iff)

lemma geoscore_of_sample_witness:
  "\<exists>s'. score_sample 1 sample_config (\<lambda>k q. answer_with 200 sample_place) (\<lambda>_. [])
      [(''latitude'', PList [PInt 48]), (''longitude'', PList [PInt 2])] 0
      ''<answer>Paris; France</answer>'' PNone sample_client = Some (1, s')"
proof -
  have a: "extract_answer_content (\<lambda>_. []) ''<answer>Paris; France</answer>'' = Some ''Paris; France''"
    by code_simp
  have c: "call_opencage_geocoding 1 sample_config (\<lambda>k q. answer_with 200 sample_place) ''Paris; France'' 0 sample_client
     = Some (success_result (PInt 2) (PInt 48) (PInt 0) (PStr []) (PDict []),
             write_cache_once sample_config ''Paris; France''
               (success_result (PInt 2) (PInt 48) (PInt 0) (PStr []) (PDict []))
               (sample_client\<lparr>query_count := 1, sent := 1\<rparr>))"
    unfolding call_opencage_geocoding_def by (rule sample_call)
  have g: "get_gt_coordinates 0 [(''latitude'', PList [PInt 48]), (''longitude'', PList [PInt 2])] = Some (48, 2)"
    by (simp add: get_gt_coordinates_def column_value_def get_indexed_value_def as_list_def in_range_def)
  have p: "place_coordinates (success_result (PInt 2) (PInt 48) (PInt 0) (PStr []) (PDict [])) = Some (PInt 48, PInt 2)"
    by (simp add: place_coordinates_def success_result_def)
  show ?thesis
    using geoscore_of_sample [OF a _ c p _ _ g, of 48 2] by (auto simp: sample_config_def)
qed

text \<open>
  The strict format reward raises on a completion whose thinking block is JSON but
  neither an object, a list nor a string: the key test is applied before the type is known.
\<close>

theorem strict_format_raises:
  "geo_strict_format rp [''<think>1</think><answer>{}</answer>''] = Inl TypeError"
proof -
  show ?thesis by code_simp
qed

end
