(* ===== verification/GeoMetric.thy ===== *)
theory GeoMetric
  imports GeoRewards
begin

text \<open>
  The training-time metrics of \<open>swift/metrics/geo_metric.py\<close>: its own OpenCage client
  (bounded retries, no cache), the accumulating metric classes, the two geolocation metrics
  and token accuracy.  \<open>geopy\<close>'s geodesic distance is a parameter; an infinite distance
  (a sample without coordinates) is \<open>None\<close>.
\<close>

subsection \<open>The metric's geocoder\<close>

datatype metric_action =
    Found pyval pyval
  | Give_up
  | Shorter_query string
  | Retry_query

text \<open>The body of an answered request; an exception ends the call with \<open>None\<close>.\<close>

definition metric_read :: "string \<Rightarrow> nat \<Rightarrow> pyval \<Rightarrow> metric_action res" where
  "metric_read address retry_count data =
     res_bind (py_item data ''status'') (\<lambda>status.
     res_bind (py_item status ''code'') (\<lambda>code.
       if py_eq code (PInt 200) then
         res_bind (py_item data ''results'') (\<lambda>results.
         res_bind (py_len results) (\<lambda>n.
           if n = 0 then
             res_bind (py_item status ''message'') (\<lambda>_.
               case shorten address of Some a \<Rightarrow> Inr (Shorter_query a) | None \<Rightarrow> Inr Give_up)
           else
             res_bind (first_place results) (\<lambda>r.
               case place_coordinates r of Some (lat, lng) \<Rightarrow> Inr (Found lat lng) | None \<Rightarrow> Inr Give_up)))
       else if py_eq code (PInt 429) \<or> py_eq code (PInt 408) then
         res_bind (py_item status ''message'') (\<lambda>_.
           if retry_count < 5 then Inr Retry_query else Inr Give_up)
       else if py_eq code (PInt 410) then
         res_bind (py_item status ''message'') (\<lambda>_.
           case shorten address of Some a \<Rightarrow> Inr (Shorter_query a) | None \<Rightarrow> Inr Give_up)
       else Inr Give_up))"

definition metric_outcome :: "string \<Rightarrow> nat \<Rightarrow> http_outcome \<Rightarrow> metric_action" where
  "metric_outcome address retry_count outcome =
     (let failed = (if retry_count < 5 then Retry_query else Give_up) in
      case outcome of
        Request_failed msg \<Rightarrow> failed
      | Other_failed msg \<Rightarrow> Give_up
      | Responded rsp \<Rightarrow>
          if 400 \<le> status_code rsp \<and> status_code rsp < 600 then failed
          else
            (case resp_body rsp of
               None \<Rightarrow> failed
             | Some data \<Rightarrow>
                 (case metric_read address retry_count data of Inl e \<Rightarrow> Give_up | Inr act \<Rightarrow> act)))"

lemma metric_outcome_shorter:
  "metric_outcome address rc out = Shorter_query a \<Longrightarrow> shorten address = Some a"
  by (auto simp: metric_outcome_def metric_read_def Let_def res_bind_eq_Inr_iff
      split: http_outcome.splits if_splits option.splits sum.splits)

lemma metric_outcome_retry: "metric_outcome address rc out = Retry_query \<Longrightarrow> rc < 5"
  by (auto simp: metric_outcome_def metric_read_def Let_def res_bind_eq_Inr_iff
      split: http_outcome.splits if_splits option.splits sum.splits)

text \<open>The coordinates found and the number of requests sent so far.\<close>

function metric_geocode ::
  "string list \<Rightarrow> (nat \<Rightarrow> string \<Rightarrow> http_outcome) \<Rightarrow> string \<Rightarrow> nat \<Rightarrow> nat \<Rightarrow> (pyval \<times> pyval) option \<times> nat" where
  "metric_geocode keys net address retry_count n =
     (if keys = [] then (None, n)
      else case metric_outcome address retry_count (net n (comma_separated address)) of
        Found lat lng \<Rightarrow> (Some (lat, lng), n + 1)
      | Give_up \<Rightarrow> (None, n + 1)
      | Shorter_query a \<Rightarrow> metric_geocode keys net a retry_count (n + 1)
      | Retry_query \<Rightarrow> metric_geocode keys net address (retry_count + 1) (n + 1))"
  by pat_completeness auto
termination
proof (relation "measure (\<lambda>(keys, net, address, rc, n). (5 - rc) + count_list address (CHR '';''))", goal_cases)
  case 1
  then show ?case by simp
next
  case (2 keys net address rc n a)
  then show ?case using shorten_fewer [OF metric_outcome_shorter] by simp
next
  case (3 keys net address rc n)
  then show ?case using metric_outcome_retry by fastforce
qed

declare metric_geocode.simps [simp del]

definition geocode_old :: "http_outcome \<Rightarrow> (pyval \<times> pyval) option" where
  "geocode_old outcome =
     (case outcome of
        Responded rsp \<Rightarrow>
          if 400 \<le> status_code rsp \<and> status_code rsp < 600 then None
          else
            (case resp_body rsp of
               Some (PDict data) \<Rightarrow>
                 if truthy (pget data ''results'') then
                   (case res_bind (py_first (pget data ''results'')) (\<lambda>result.
                          res_bind (py_item result ''geometry'') (\<lambda>coordinates.
                          res_bind (py_item coordinates ''lat'') (\<lambda>lat.
                          res_bind (py_item coordinates ''lng'') (\<lambda>lng. Inr (lat, lng))))) of
                      Inl e \<Rightarrow> None | Inr c \<Rightarrow> Some c)
                 else None
             | _ \<Rightarrow> None)
      | _ \<Rightarrow> None)"

subsection \<open>Mean and inference statistics\<close>

record mean_metric =
  mm_state :: real
  mm_count :: nat

definition mean_metric_init :: mean_metric where
  "mean_metric_init = \<lparr>mm_state = 0, mm_count = 0\<rparr>"

text \<open>An update with a sequence adds its sum and length; a scalar is a sequence of one.\<close>

definition mean_update :: "real list \<Rightarrow> mean_metric \<Rightarrow> mean_metric" where
  "mean_update values m = m\<lparr>mm_state := mm_state m + sum_list values, mm_count := mm_count m + length values\<rparr>"

definition mean_compute :: "real \<Rightarrow> mean_metric \<Rightarrow> real" where
  "mean_compute nan_value m = (if mm_count m = 0 then nan_value else mm_state m / real (mm_count m))"

record infer_stats =
  start_runtime :: real
  num_prompt_tokens :: "(string, nat) dict"
  num_generated_tokens :: "(string, nat) dict"

definition infer_stats_update :: "string \<Rightarrow> nat \<Rightarrow> nat \<Rightarrow> infer_stats \<Rightarrow> infer_stats" where
  "infer_stats_update i prompt_tokens completion_tokens st =
     st\<lparr>num_prompt_tokens := dset i prompt_tokens (num_prompt_tokens st),
        num_generated_tokens := dset i completion_tokens (num_generated_tokens st)\<rparr>"

record infer_report =
  ir_prompt_tokens :: nat
  ir_generated_tokens :: nat
  ir_samples :: nat
  ir_runtime :: real
  ir_samples_per_s :: real
  ir_tokens_per_s :: real

definition infer_stats_compute :: "real \<Rightarrow> infer_stats \<Rightarrow> infer_report res" where
  "infer_stats_compute now st =
     (let runtime = now - start_runtime st;
          samples = length (num_generated_tokens st);
          generated = sum_list (map snd (num_generated_tokens st))
      in if runtime = 0 then Inl ZeroDivisionError
         else Inr \<lparr>ir_prompt_tokens = sum_list (map snd (num_prompt_tokens st)),
                   ir_generated_tokens = generated, ir_samples = samples, ir_runtime = runtime,
                   ir_samples_per_s = real samples / runtime, ir_tokens_per_s = real generated / runtime\<rparr>)"

subsection \<open>The geolocation metric\<close>

definition json_answer_re :: rx where
  "json_answer_re =
     (let inner = Star True (Cls (\<lambda>c. c \<noteq> CHR ''{'' \<and> c \<noteq> CHR ''}''))
      in seqs [lit ''{'', inner, lit ([CHR 0x22] @ ''answer'' @ [CHR 0x22]), inner, lit ''}''])"

definition final_answer_field_re :: rx where
  "final_answer_field_re =
     seqs [lit ([CHR 0x22] @ ''FinalAnswer'' @ [CHR 0x22] @ '':''), blanks, lit [CHR 0x22],
           Grp 1 (Star True (Cls (\<lambda>c. c \<noteq> CHR 0x22))), lit [CHR 0x22]]"

text \<open>
  \<open>_extract_answer_from_json\<close>.  Text that starts like an object but is not JSON raises
  inside the function, which turns it into \<open>None\<close> without trying the other patterns.
\<close>

definition extract_answer_from_json :: "string \<Rightarrow> pyval" where
  "extract_answer_from_json response =
     (let rest =
        (case re_search json_answer_re response of
           Some gs \<Rightarrow>
             (case json_object (group 0 gs) of
                Some d \<Rightarrow> dget_or d ''answer'' (PStr [])
              | None \<Rightarrow> PNone)
         | None \<Rightarrow>
             (case re_search final_answer_field_re response of
                Some gs \<Rightarrow> PStr (group 1 gs) | None \<Rightarrow> PNone))
      in if starts_with ''{'' (strip response) then
           (case json_object response of
              None \<Rightarrow> PNone
            | Some d \<Rightarrow>
                if has_key d ''answer'' then pget d ''answer''
                else if has_key d ''FinalAnswer'' then pget d ''FinalAnswer''
                else rest)
         else rest)"

record metric_state =
  distances :: "real option list"
  valid_predictions :: nat
  total_samples :: nat
  predicted_coordinates :: "(pyval \<times> pyval \<times> string option) option list"
  individual_geoscores :: "real list"

definition metric_init :: metric_state where
  "metric_init = \<lparr>distances = [], valid_predictions = 0, total_samples = 0, predicted_coordinates = [],
                  individual_geoscores = []\<rparr>"

definition add_missing :: "metric_state \<Rightarrow> metric_state" where
  "add_missing m = m\<lparr>distances := distances m @ [None], predicted_coordinates := predicted_coordinates m @ [None],
                     individual_geoscores := individual_geoscores m @ [0]\<rparr>"

text \<open>
  A located prediction: coordinates and distance are appended first, then the score is computed (a
  distance limit of zero raises there), and only then the valid prediction is counted.  An exception
  is reported beside the state that the statements before it left.
\<close>

type_synonym 's ended = "py_exn option \<times> 's"

definition add_prediction ::
  "real \<Rightarrow> real option \<Rightarrow> pyval \<times> pyval \<times> string option \<Rightarrow> metric_state \<Rightarrow> metric_state ended" where
  "add_prediction md distance coordinates m =
     (let m1 = m\<lparr>predicted_coordinates := predicted_coordinates m @ [Some coordinates], distances := distances m @ [distance]\<rparr>
      in case distance of
           None \<Rightarrow> (None, m1\<lparr>individual_geoscores := individual_geoscores m1 @ [0]\<rparr>)
         | Some d \<Rightarrow>
             if md = 0 then (Some ZeroDivisionError, m1)
             else (None, m1\<lparr>valid_predictions := valid_predictions m1 + 1,
                            individual_geoscores := individual_geoscores m1 @ [metric_geoscore md d]\<rparr>))"

definition true_coordinates :: "pydict \<Rightarrow> pyval \<times> pyval" where
  "true_coordinates label =
     (dget_or label ''lat_bd'' (dget_or label ''lat'' (PInt 0)),
      dget_or label ''lon_bd'' (dget_or label ''lon'' (PInt 0)))"

text \<open>Up to \<open>k\<close> times, drop the last part of the address and ask again.\<close>

fun drop_parts ::
  "nat \<Rightarrow> (string \<Rightarrow> nat \<Rightarrow> (pyval \<times> pyval) option \<times> nat) \<Rightarrow> string \<Rightarrow> nat
     \<Rightarrow> (pyval \<times> pyval) option \<times> string \<times> nat" where
  "drop_parts 0 geocode temp n = (None, temp, n)"
| "drop_parts (Suc k) geocode temp n =
     (if CHR '';'' \<notin> set temp then (None, temp, n)
      else
        let parts = map strip (split_char (CHR '';'') temp) in
        if length parts \<le> 1 then (None, temp, n)
        else
          let shorter = join ''; '' (butlast parts); (coords, n') = geocode shorter n in
          if length parts = 2 then (coords, shorter, n')
          else if coords \<noteq> None then (coords, shorter, n')
          else drop_parts k geocode shorter n')"

definition locate ::
  "(string \<Rightarrow> nat \<Rightarrow> (pyval \<times> pyval) option \<times> nat) \<Rightarrow> string \<Rightarrow> nat
     \<Rightarrow> (pyval \<times> pyval) option \<times> string \<times> nat" where
  "locate geocode answer n =
     (let (coords, n1) = geocode answer n in
      if coords \<noteq> None then (coords, answer, n1) else drop_parts 2 geocode answer n1)"

text \<open>
  An answer that is a number, a list or a dictionary: with API keys the geocoder asks it for
  \<open>replace\<close>; without keys it finds nothing and the answer is searched for a semicolon.
\<close>

definition other_answer :: "string list \<Rightarrow> pyval \<Rightarrow> py_exn option" where
  "other_answer keys v =
     (if keys \<noteq> [] then Some AttributeError
      else case v of
        PList vs \<Rightarrow> if PStr '';'' \<in> set vs then Some AttributeError else None
      | PDict d \<Rightarrow> if has_key d '';'' then Some AttributeError else None
      | _ \<Rightarrow> Some TypeError)"

definition metric_client ::
  "string list \<Rightarrow> (nat \<Rightarrow> string \<Rightarrow> http_outcome) \<Rightarrow> string \<Rightarrow> nat \<Rightarrow> (pyval \<times> pyval) option \<times> nat" where
  "metric_client keys net address n = metric_geocode keys net address 0 n"

text \<open>
  One sample of the two metrics.  The state carries the requests sent so far; the sample is counted
  before any work, so the count stays when the work raises.  The agent metric drops a place found
  only after shortening when it is more than 250 km from the truth.
\<close>

definition agent_sample ::
  "real \<Rightarrow> (pyval \<times> pyval \<Rightarrow> pyval \<times> pyval \<Rightarrow> real option) \<Rightarrow> string list \<Rightarrow> (nat \<Rightarrow> string \<Rightarrow> http_outcome)
     \<Rightarrow> string \<Rightarrow> pydict \<Rightarrow> metric_state \<times> nat \<Rightarrow> (metric_state \<times> nat) ended" where
  "agent_sample md geodesic keys net pred label st =
     (let m = (fst st)\<lparr>total_samples := total_samples (fst st) + 1\<rparr>; n = snd st;
          answer = extract_answer_from_json pred
      in if \<not> truthy answer then (None, add_missing m, n)
         else case answer of
           PStr a \<Rightarrow>
             (let (coords, temp, n') = locate (metric_client keys net) a n;
                  kept =
                    (case coords of
                       Some c \<Rightarrow>
                         if temp \<noteq> a \<and> (case geodesic (true_coordinates label) c of None \<Rightarrow> True | Some d \<Rightarrow> 250 < d)
                         then None else Some c
                     | None \<Rightarrow> None)
              in case kept of
                   None \<Rightarrow> (None, add_missing m, n')
                 | Some (lat, lon) \<Rightarrow>
                     (let (e, m') = add_prediction md (geodesic (true_coordinates label) (lat, lon)) (lat, lon, Some a) m
                      in (e, m', n')))
         | v \<Rightarrow> (case other_answer keys v of None \<Rightarrow> (None, add_missing m, n) | Some e \<Rightarrow> (Some e, m, n)))"

text \<open>
  A prediction of the plain metric is a text or a dictionary of coordinates; a dictionary
  without them fails inside the answer extraction, which reports it as no answer.
\<close>

definition plain_sample ::
  "real \<Rightarrow> (pyval \<times> pyval \<Rightarrow> pyval \<times> pyval \<Rightarrow> real option) \<Rightarrow> string list \<Rightarrow> (nat \<Rightarrow> string \<Rightarrow> http_outcome)
     \<Rightarrow> string + pydict \<Rightarrow> pydict \<Rightarrow> metric_state \<times> nat \<Rightarrow> (metric_state \<times> nat) ended" where
  "plain_sample md geodesic keys net pred label st =
     (let m = (fst st)\<lparr>total_samples := total_samples (fst st) + 1\<rparr>; n = snd st in
      case pred of
        Inr d \<Rightarrow>
          if \<not> has_key d ''pred_lat'' then (None, add_missing m, n)
          else if \<not> truthy (pget d ''pred_lat'') then (None, add_missing m, n)
          else if \<not> has_key d ''pred_lon'' then (Some KeyError, m, n)
          else
            let c = (pget d ''pred_lat'', pget d ''pred_lon'');
                (e, m') = add_prediction md (geodesic (true_coordinates label) c) (fst c, snd c, None) m
            in (e, m', n)
      | Inl s \<Rightarrow>
          if contains ''pred_lat'' s then (Some TypeError, m, n)
          else
            let answer = extract_answer_from_json s in
            if \<not> truthy answer then (None, add_missing m, n)
            else case answer of
              PStr a \<Rightarrow>
                (case locate (metric_client keys net) a n of
                   (None, temp, n') \<Rightarrow> (None, add_missing m, n')
                 | (Some (lat, lon), temp, n') \<Rightarrow>
                     (let (e, m') = add_prediction md (geodesic (true_coordinates label) (lat, lon)) (lat, lon, Some a) m
                      in (e, m', n')))
            | v \<Rightarrow> (case other_answer keys v of None \<Rightarrow> (None, add_missing m, n) | Some e \<Rightarrow> (Some e, m, n)))"

text \<open>The loop of \<open>update\<close>: an exception ends it with the state of that moment.\<close>

fun fold_samples :: "('p \<Rightarrow> pydict \<Rightarrow> metric_state \<times> nat \<Rightarrow> (metric_state \<times> nat) ended)
     \<Rightarrow> ('p \<times> pydict) list \<Rightarrow> metric_state \<times> nat \<Rightarrow> (metric_state \<times> nat) ended" where
  "fold_samples f [] st = (None, st)"
| "fold_samples f ((p, l) # rest) st =
     (case f p l st of (Some e, st') \<Rightarrow> (Some e, st') | (None, st') \<Rightarrow> fold_samples f rest st')"

definition agent_update ::
  "real \<Rightarrow> (pyval \<times> pyval \<Rightarrow> pyval \<times> pyval \<Rightarrow> real option) \<Rightarrow> string list \<Rightarrow> (nat \<Rightarrow> string \<Rightarrow> http_outcome)
     \<Rightarrow> string list \<Rightarrow> pydict list \<Rightarrow> metric_state \<times> nat \<Rightarrow> (metric_state \<times> nat) ended" where
  "agent_update md geodesic keys net predictions labels =
     fold_samples (agent_sample md geodesic keys net) (zip predictions labels)"

definition plain_update ::
  "real \<Rightarrow> (pyval \<times> pyval \<Rightarrow> pyval \<times> pyval \<Rightarrow> real option) \<Rightarrow> string list \<Rightarrow> (nat \<Rightarrow> string \<Rightarrow> http_outcome)
     \<Rightarrow> (string + pydict) list \<Rightarrow> pydict list \<Rightarrow> metric_state \<times> nat \<Rightarrow> (metric_state \<times> nat) ended" where
  "plain_update md geodesic keys net predictions labels =
     fold_samples (plain_sample md geodesic keys net) (zip predictions labels)"

record geo_metrics =
  mean_distance :: real
  median_distance :: real
  continent_accuracy :: real
  country_accuracy :: real
  region_accuracy :: real
  city_accuracy :: real
  street_accuracy :: real
  mean_geoscore :: real
  median_geoscore :: real
  gm_valid_predictions :: nat
  gm_total_samples :: nat

definition percent_below :: "real \<Rightarrow> real list \<Rightarrow> real" where
  "percent_below threshold ds = mean (map (\<lambda>d. if d < threshold then 1 else 0) ds) * 100"

text \<open>\<open>compute\<close>, where \<open>None\<close> is the empty dictionary.\<close>

definition metric_compute :: "metric_state \<Rightarrow> geo_metrics option" where
  "metric_compute m =
     (if distances m = [] then None
      else
        let valid_distances = List.map_filter id (distances m) in
        if valid_distances = [] then
          Some \<lparr>mean_distance = 0, median_distance = 0, continent_accuracy = 0, country_accuracy = 0,
                region_accuracy = 0, city_accuracy = 0, street_accuracy = 0, mean_geoscore = 0,
                median_geoscore = 0, gm_valid_predictions = 0, gm_total_samples = total_samples m\<rparr>
        else
          let scores = map fst (filter (\<lambda>(s, d). d \<noteq> None) (zip (individual_geoscores m) (distances m))) in
          Some \<lparr>mean_distance = mean valid_distances, median_distance = median valid_distances,
                continent_accuracy = percent_below 2500 valid_distances,
                country_accuracy = percent_below 750 valid_distances,
                region_accuracy = percent_below 200 valid_distances,
                city_accuracy = percent_below 25 valid_distances,
                street_accuracy = percent_below 1 valid_distances,
                mean_geoscore = (if scores = [] then 0 else mean scores),
                median_geoscore = (if scores = [] then 0 else median scores),
                gm_valid_predictions = valid_predictions m, gm_total_samples = total_samples m\<rparr>)"

definition individual_metrics :: "metric_state \<Rightarrow> (real option \<times> real) list" where
  "individual_metrics m = zip (distances m) (individual_geoscores m)"

subsection \<open>Labels\<close>

definition label_of :: "string \<Rightarrow> pydict" where
  "label_of label_str =
     (let (lat, lon) =
        (case json_object label_str of
           None \<Rightarrow> (PInt 0, PInt 0)
         | Some d \<Rightarrow>
             if has_key d ''content'' then
               true_coordinates
                 (case pget d ''content'' of
                    PStr s \<Rightarrow> (case json_object s of Some e \<Rightarrow> e | None \<Rightarrow> [])
                  | PDict e \<Rightarrow> e
                  | _ \<Rightarrow> [])
             else true_coordinates d)
      in [(''lat'', lat), (''lon'', lon)])"

definition compute_geometric_metrics ::
  "real \<Rightarrow> (pyval \<times> pyval \<Rightarrow> pyval \<times> pyval \<Rightarrow> real option) \<Rightarrow> string list \<Rightarrow> (nat \<Rightarrow> string \<Rightarrow> http_outcome)
     \<Rightarrow> string list \<Rightarrow> string list \<Rightarrow> geo_metrics option res" where
  "compute_geometric_metrics md geodesic keys net preds labels =
     (case plain_update md geodesic keys net (map Inl preds) (map label_of labels) (metric_init, 0) of
        (Some e, m, n) \<Rightarrow> Inl e
      | (None, m, n) \<Rightarrow> Inr (metric_compute m))"

subsection \<open>Token accuracy\<close>

text \<open>
  \<open>compute_acc\<close> for a batch of token rows (\<open>Inr\<close>) or a flat array (\<open>Inl\<close>); \<open>None\<close> is the
  empty result.  Labels \<open>-100\<close> are masked; rows are shifted by one for decoder models.
\<close>

definition acc_row :: "int list \<Rightarrow> int list \<Rightarrow> bool list" where
  "acc_row preds labels = map (\<lambda>(p, l). p = l) (filter (\<lambda>(p, l). l \<noteq> -100) (zip preds labels))"

definition compute_acc_flat :: "int list \<Rightarrow> int list \<Rightarrow> bool list option" where
  "compute_acc_flat preds labels = (if length preds \<noteq> length labels then None else Some (acc_row preds labels))"

definition compute_acc :: "bool \<Rightarrow> bool \<Rightarrow> int list list \<Rightarrow> int list list \<Rightarrow> bool list option" where
  "compute_acc token_strategy is_encoder_decoder preds0 labels0 =
     (let labels = (if is_encoder_decoder then labels0 else map tl labels0);
          preds = (if is_encoder_decoder then preds0 else map butlast preds0)
      in if map length preds \<noteq> map length labels then None
         else
           let rows = map2 acc_row preds labels
           in Some (if token_strategy then concat rows else map (list_all id) rows))"

subsection \<open>The invariant of the metric state\<close>

definition score_of :: "real \<Rightarrow> real option \<Rightarrow> real" where
  "score_of md d = (case d of None \<Rightarrow> 0 | Some x \<Rightarrow> metric_geoscore md x)"

text \<open>The lists are in step with each other, and \<open>k\<close> counted samples have no entry.\<close>

definition in_step :: "real \<Rightarrow> nat \<Rightarrow> metric_state \<Rightarrow> bool" where
  "in_step md k m \<longleftrightarrow>
     total_samples m = length (distances m) + k \<and> length (predicted_coordinates m) = length (distances m)
      \<and> individual_geoscores m = map (score_of md) (distances m)
      \<and> valid_predictions m = length (List.map_filter id (distances m))"

text \<open>The samples of a run that raised.\<close>

definition raised :: "py_exn option \<Rightarrow> nat" where
  "raised e = (if e = None then 0 else 1)"

lemma map_filter_id_append [simp]:
  "List.map_filter id (xs @ ys) = List.map_filter id xs @ List.map_filter id ys"
  by (simp add: map_filter_def)

lemma map_filter_id_single [simp]:
  "List.map_filter id [None] = []" "List.map_filter id [Some x] = [x]"
  by (simp_all add: map_filter_def)

lemma in_step_init [simp]: "in_step md 0 metric_init"
  by (simp add: in_step_def metric_init_def map_filter_def)

lemma count_sample: "in_step md k m \<Longrightarrow> in_step md (Suc k) (m\<lparr>total_samples := Suc (total_samples m)\<rparr>)"
  by (simp add: in_step_def)

lemma add_missing_in_step: "in_step md (Suc k) m \<Longrightarrow> in_step md k (add_missing m)"
  by (simp add: in_step_def add_missing_def score_of_def)

lemma add_prediction_in_step:
  "md \<noteq> 0 \<Longrightarrow> in_step md (Suc k) m \<Longrightarrow> \<exists>m'. add_prediction md d c m = (None, m') \<and> in_step md k m' \<and> total_samples m' = total_samples m"
  by (cases d) (simp_all add: in_step_def add_prediction_def score_of_def)

lemma added_total [simp]: "total_samples (add_missing m) = total_samples m"
  by (simp add: add_missing_def)

text \<open>What one sample does to the state, whichever way it ends.\<close>

definition one_counted :: "real \<Rightarrow> nat \<Rightarrow> metric_state \<Rightarrow> (metric_state \<times> nat) ended \<Rightarrow> bool" where
  "one_counted md k m r \<longleftrightarrow>
     (case r of (e, m', n') \<Rightarrow> in_step md (k + raised e) m' \<and> total_samples m' = Suc (total_samples m))"

lemma one_counted_missing: "in_step md k m \<Longrightarrow> one_counted md k m (None, add_missing (m\<lparr>total_samples := Suc (total_samples m)\<rparr>), n)"
  by (simp add: one_counted_def raised_def add_missing_in_step count_sample)

lemma one_counted_raise: "in_step md k m \<Longrightarrow> one_counted md k m (Some e, m\<lparr>total_samples := Suc (total_samples m)\<rparr>, n)"
  by (simp add: one_counted_def raised_def count_sample)

lemma one_counted_prediction:
  assumes "in_step md k m" "md \<noteq> 0"
  shows "one_counted md k m (let (e, m') = add_prediction md d c (m\<lparr>total_samples := Suc (total_samples m)\<rparr>) in (e, m', n))"
  using add_prediction_in_step [OF assms(2) count_sample [OF assms(1)], of d c] by (auto simp: one_counted_def raised_def)

lemmas one_counted_intros = one_counted_missing one_counted_raise one_counted_prediction [unfolded Let_def]

lemma plain_sample_counted:
  assumes "in_step md k m" "md \<noteq> 0"
  shows "one_counted md k m (plain_sample md geodesic keys net p l (m, n))"
  using one_counted_intros [OF assms(1)] assms(2)
  by (simp add: plain_sample_def Let_def split: sum.split pyval.split option.split prod.split)

lemma agent_sample_counted:
  assumes "in_step md k m" "md \<noteq> 0"
  shows "one_counted md k m (agent_sample md geodesic keys net p l (m, n))"
  using one_counted_intros [OF assms(1)] assms(2)
  by (simp add: agent_sample_def Let_def split: pyval.split option.split prod.split)

text \<open>
  A run over samples: without an exception all are counted and none is left without entries, with
  one the samples up to it are counted and the last has none.
\<close>

definition counted_run :: "real \<Rightarrow> nat \<Rightarrow> nat \<Rightarrow> metric_state \<Rightarrow> (metric_state \<times> nat) ended \<Rightarrow> bool" where
  "counted_run md k len m r \<longleftrightarrow>
     (case r of (e, m', n') \<Rightarrow> in_step md (k + raised e) m' \<and>
        (if e = None then total_samples m' = total_samples m + len
         else total_samples m < total_samples m' \<and> total_samples m' \<le> total_samples m + len))"

lemma fold_samples_counted:
  assumes step: "\<And>p l m n. in_step md k m \<Longrightarrow> one_counted md k m (f p l (m, n))"
    and "in_step md k m"
  shows "counted_run md k (length xs) m (fold_samples f xs (m, n))"
  using assms(2)
proof (induction xs arbitrary: m n)
  case Nil
  then show ?case by (simp add: counted_run_def raised_def)
next
  case (Cons x xs)
  obtain p l where x: "x = (p, l)" by (cases x)
  obtain e m1 n1 where s: "f p l (m, n) = (e, m1, n1)" by (cases "f p l (m, n)") auto
  from step [OF Cons.prems, of p l n] Cons.IH [of m1 n1] show ?case
    by (cases e) (auto simp: x s one_counted_def counted_run_def raised_def split: if_splits)
qed

lemma fold_samples_append:
  "fold_samples f (xs @ ys) st =
    (case fold_samples f xs st of (Some e, st') \<Rightarrow> (Some e, st') | (None, st') \<Rightarrow> fold_samples f ys st')"
proof (induction xs arbitrary: st)
  case (Cons x xs)
  obtain p l where "x = (p, l)" by (cases x)
  then show ?case by (cases "f p l st") (simp add: Cons.IH split: option.split)
qed simp

lemma percent_below_mono:
  assumes "a \<le> b"
  shows "percent_below a ds \<le> percent_below b ds"
proof -
  have "sum_list (map (\<lambda>d. if d < a then 1 else 0) ds) \<le> sum_list (map (\<lambda>d. if d < b then (1::real) else 0) ds)"
    using assms by (intro sum_list_mono) auto
  then show ?thesis by (simp add: percent_below_def mean_def divide_right_mono)
qed

lemma percent_below_bounds:
  assumes "ds \<noteq> []"
  shows "0 \<le> percent_below t ds \<and> percent_below t ds \<le> 100"
proof -
  have "\<forall>x \<in> set (map (\<lambda>d. if d < t then 1 else 0) ds). 0 \<le> x \<and> x \<le> (1::real)" by auto
  then have "0 \<le> mean (map (\<lambda>d. if d < t then 1 else 0) ds) \<and> mean (map (\<lambda>d. if d < t then 1 else 0) ds) \<le> 1"
    by (rule mean_bounds) (use assms in simp)
  then show ?thesis by (simp add: percent_below_def)
qed

lemma valid_scores:
  "map fst (filter (\<lambda>(s, d). d \<noteq> None) (zip (map (score_of md) ds) ds))
     = map (metric_geoscore md) (List.map_filter id ds)"
  by (induction ds) (auto simp: map_filter_def score_of_def)

text \<open>Sending at most one request per retry left and per address part.\<close>

lemma metric_geocode_requests:
  "snd (metric_geocode keys net address rc n) \<le> n + request_bound address rc"
proof (induction keys net address rc n rule: metric_geocode.induct)
  case (1 keys net address rc n)
  let ?out = "metric_outcome address rc (net n (comma_separated address))"
  show ?case
  proof (cases "keys = []")
    case True
    then show ?thesis by (simp add: metric_geocode.simps)
  next
    case False
    show ?thesis
    proof (cases ?out)
      case (Shorter_query a)
      have "request_bound a rc < request_bound address rc"
        using shorten_fewer [OF metric_outcome_shorter [OF Shorter_query]] by (simp add: request_bound_def)
      with 1(1) [OF False Shorter_query] show ?thesis
        using False Shorter_query by (subst metric_geocode.simps) simp
    next
      case Retry_query
      have "request_bound address (rc + 1) < request_bound address rc"
        using metric_outcome_retry [OF Retry_query] by (simp add: request_bound_def)
      with 1(2) [OF False Retry_query] show ?thesis
        using False Retry_query by (subst metric_geocode.simps) simp
    qed (use False in \<open>subst metric_geocode.simps, simp add: request_bound_def\<close>)+
  qed
qed


subsection \<open>Properties\<close>

text \<open>
  C38. The metric's lists never get out of step with each other, whichever way an update ends, in
  either metric (for a distance limit other than 0).  Start from a state in which \<open>k\<close> counted samples
  have no entry (\<open>k = 0\<close> for a new metric).  An update that returns adds one distance, one coordinate
  entry and one score per counted sample and leaves \<open>k\<close> alone; each score is the GeoScore of its
  distance (0 without one), and the valid counter is the number of finite distances.  An update that
  raises (a text with \<open>pred_lat\<close>, a dictionary without \<open>pred_lon\<close>, an answer that is not a text) has
  already counted the sample at fault: the lists agree as before, and the sample counter is one
  further ahead of them.
\<close>

theorem metric_update_invariant:
  assumes "in_step md k m" "md \<noteq> 0"
  shows "counted_run md k (min (length preds) (length labels)) m (plain_update md geodesic keys net preds labels (m, n)) \<and>
    counted_run md k (min (length texts) (length labels)) m (agent_update md geodesic keys net texts labels (m, n))"
  using fold_samples_counted [of md k "plain_sample md geodesic keys net" m "zip preds labels" n]
    fold_samples_counted [of md k "agent_sample md geodesic keys net" m "zip texts labels" n]
    plain_sample_counted agent_sample_counted assms
  by (simp add: plain_update_def agent_update_def)

text \<open>Two updates: the first returns, the second fails at a prediction without a longitude.\<close>

lemma metric_update_invariant_witness:
  "\<exists>m1 m2. plain_update 20000 (\<lambda>a b. Some 5) [] (\<lambda>k q. Request_failed [])
        [Inr [(''pred_lat'', PInt 1), (''pred_lon'', PInt 2)], Inl ''no answer''] [[], []] (metric_init, 0) = (None, m1, 0)
      \<and> in_step 20000 0 m1 \<and> total_samples m1 = 2
      \<and> plain_update 20000 (\<lambda>a b. Some 5) [] (\<lambda>k q. Request_failed []) [Inr [(''pred_lat'', PInt 1)], Inl ''no answer''] [[], []] (m1, 0)
          = (Some KeyError, m2, 0)
      \<and> in_step 20000 1 m2"
proof -
  let ?up = "plain_update 20000 (\<lambda>a b. Some 5) [] (\<lambda>k q. Request_failed [])" and ?net = "\<lambda>(k :: nat) (q :: string). Request_failed []"
  have e: "extract_answer_from_json ''no answer'' = PNone" "\<not> contains ''pred_lat'' ''no answer''" by code_simp+
  obtain m1 where m1: "?up [Inr [(''pred_lat'', PInt 1), (''pred_lon'', PInt 2)], Inl ''no answer''] [[], []] (metric_init, 0) = (None, m1, 0)"
    by (simp add: plain_update_def plain_sample_def has_key_def e add_prediction_def)
  then have ok: "in_step 20000 0 m1 \<and> total_samples m1 = 2"
    using metric_update_invariant [OF in_step_init, where md = 20000 and geodesic = "\<lambda>a b. Some 5"
        and preds = "[Inr [(''pred_lat'', PInt 1), (''pred_lon'', PInt 2)], Inl ''no answer'']"
        and labels = "[[], []]" and keys = "[]" and net = ?net and n = 0]
    by (simp add: counted_run_def raised_def metric_init_def)
  obtain m2 where m2: "?up [Inr [(''pred_lat'', PInt 1)], Inl ''no answer''] [[], []] (m1, 0) = (Some KeyError, m2, 0)"
    by (simp add: plain_update_def plain_sample_def has_key_def)
  then have "in_step 20000 1 m2"
    using metric_update_invariant [of 20000 0 m1, where geodesic = "\<lambda>a b. Some 5" and preds = "[Inr [(''pred_lat'', PInt 1)], Inl ''no answer'']"
        and labels = "[[], []]" and keys = "[]" and net = ?net and n = 0] ok
    by (simp add: counted_run_def raised_def)
  with m1 m2 ok show ?thesis by blast
qed

text \<open>
  What the metric reports is ordered and bounded: the accuracies lie between 0 and 100
  and grow with the radius, the GeoScore averages lie between 0 and 5000, and no more samples
  are valid than there are.
\<close>

theorem metric_report_bounds:
  assumes "in_step md k m" and "0 < md" and "\<forall>d. Some d \<in> set (distances m) \<longrightarrow> 0 \<le> d"
    and "metric_compute m = Some r"
  shows "0 \<le> street_accuracy r \<and> street_accuracy r \<le> city_accuracy r \<and> city_accuracy r \<le> region_accuracy r
    \<and> region_accuracy r \<le> country_accuracy r \<and> country_accuracy r \<le> continent_accuracy r
    \<and> continent_accuracy r \<le> 100
    \<and> 0 \<le> mean_geoscore r \<and> mean_geoscore r \<le> 5000 \<and> 0 \<le> median_geoscore r \<and> median_geoscore r \<le> 5000
    \<and> gm_valid_predictions r \<le> gm_total_samples r"
proof (cases "List.map_filter id (distances m) = []")
  case True
  then show ?thesis using assms(4) by (auto simp: metric_compute_def split: if_splits)
next
  case False
  let ?v = "List.map_filter id (distances m)"
  let ?s = "map (metric_geoscore md) ?v"
  have scores: "map fst (filter (\<lambda>(s, d). d \<noteq> None) (zip (individual_geoscores m) (distances m))) = ?s"
    using assms(1) valid_scores by (simp add: in_step_def)
  have pos: "\<forall>d \<in> set ?v. 0 \<le> d"
    using assms(3) by (auto simp: map_filter_def)
  have range: "\<forall>x \<in> set ?s. 0 \<le> x \<and> x \<le> 5000"
    using pos metric_geoscore_bounds [OF _ assms(2)] less_imp_le by fastforce
  have ne: "?s \<noteq> []" using False by simp
  have nonempty: "distances m \<noteq> []" using False by (auto simp: map_filter_def)
  have le: "valid_predictions m \<le> total_samples m"
    using assms(1) by (simp add: in_step_def map_filter_def trans_le_add1)
  have "r = \<lparr>mean_distance = mean ?v, median_distance = median ?v,
                continent_accuracy = percent_below 2500 ?v, country_accuracy = percent_below 750 ?v,
                region_accuracy = percent_below 200 ?v, city_accuracy = percent_below 25 ?v,
                street_accuracy = percent_below 1 ?v, mean_geoscore = mean ?s, median_geoscore = median ?s,
                gm_valid_predictions = valid_predictions m, gm_total_samples = total_samples m\<rparr>"
    using assms(4) False ne nonempty unfolding metric_compute_def Let_def scores by simp
  then show ?thesis
    using percent_below_bounds [OF False] mean_bounds [OF range ne] median_in_range [OF ne range] le
    by (simp add: percent_below_mono)
qed

lemma metric_report_bounds_witness:
  "\<exists>r. metric_compute (snd (add_prediction 20000 (Some 5) (PInt 1, PInt 2, None) (metric_init\<lparr>total_samples := 1\<rparr>))) = Some r
     \<and> street_accuracy r \<le> city_accuracy r"
proof -
  let ?m = "snd (add_prediction 20000 (Some 5) (PInt 1, PInt 2, None) (metric_init\<lparr>total_samples := 1\<rparr>))"
  have "in_step 20000 0 ?m"
    using add_prediction_in_step [OF _ count_sample [OF in_step_init], of 20000 "Some 5" "(PInt 1, PInt 2, None)"]
    by (auto simp: metric_init_def)
  moreover have "distances ?m = [Some 5]" by (simp add: add_prediction_def metric_init_def)
  moreover obtain r where "metric_compute ?m = Some r"
    using \<open>distances ?m = [Some 5]\<close> unfolding metric_compute_def Let_def by (simp add: map_filter_def)
  ultimately show ?thesis using metric_report_bounds [of 20000 0 ?m r] by simp
qed

text \<open>
  The metric can be fed in batches: updating with two batches one after the other gives
  the state, the geocoding requests and the errors of one update with both.
\<close>

theorem metric_update_batches:
  assumes "length preds1 = length labels1"
  shows "plain_update md geodesic keys net (preds1 @ preds2) (labels1 @ labels2) st =
    (case plain_update md geodesic keys net preds1 labels1 st of
       (Some e, st') \<Rightarrow> (Some e, st') | (None, st') \<Rightarrow> plain_update md geodesic keys net preds2 labels2 st')"
  using assms by (simp add: plain_update_def fold_samples_append cong: option.case_cong)

text \<open>
  A prediction on the equator is counted as missing: a latitude of 0 is taken for an
  absent one, so an exact prediction of a point at latitude 0 scores nothing.
\<close>

theorem equator_counted_missing:
  "plain_sample md geodesic keys net (Inr [(''pred_lat'', PFloat 0), (''pred_lon'', PFloat lon)])
      [(''lat'', PFloat 0), (''lon'', PFloat lon)] (metric_init, 0)
    = (None, add_missing (metric_init\<lparr>total_samples := 1\<rparr>), 0)"
  by (simp add: plain_sample_def has_key_def metric_init_def)

text \<open>
  The metric's geocoder always stops, and sends at most one request per retry left and
  per address component (it gives up on usage limits instead of waiting).
\<close>

theorem metric_geocode_bounded:
  "snd (metric_geocode keys net address retry_count n) \<le> n + (5 - retry_count) + count_list address (CHR '';'') + 1"
  using metric_geocode_requests [of keys net address retry_count n] by (simp add: request_bound_def)

end
