(* ===== verification/SelParse.thy ===== *)
theory SelParse
  imports GeoRewards
begin

text \<open>
  The data selector (\<open>data_clean/geo_data_selector.py\<close>), first half: its configuration
  checks, the model profile read from a checkpoint's configuration files, the annotations
  and the dataset built from them, and the parsers of what the models and the judge return.
  File contents are arguments; \<open>rp\<close> prints a float, a list or a dictionary.
\<close>

subsection \<open>Configuration\<close>

definition parse_csv_list :: "string \<Rightarrow> string list" where
  "parse_csv_list value = filter (\<lambda>p. p \<noteq> []) (map strip (split_char (CHR '','') value))"

definition get_visible_device_count :: "string \<Rightarrow> nat" where
  "get_visible_device_count devices = length (filter (\<lambda>d. d \<noteq> []) (parse_csv_list devices))"

definition validate_parallel_config :: "string \<Rightarrow> int \<Rightarrow> int \<Rightarrow> unit res" where
  "validate_parallel_config cuda_visible_devices tensor_parallel_size data_parallel_size =
     (if tensor_parallel_size < 1 then Inl ValueError
      else if data_parallel_size < 1 then Inl ValueError
      else if int (get_visible_device_count cuda_visible_devices) < tensor_parallel_size * data_parallel_size
      then Inl ValueError
      else Inr ())"

record engine_args =
  tensor_parallel_size :: int
  data_parallel_size :: int
  gpu_memory_utilization :: real
  max_model_len :: int
  max_num_seqs :: int
  enforce_eager :: bool
  disable_custom_all_reduce :: bool

definition build_vllm_engine_kwargs :: "engine_args \<Rightarrow> pydict \<Rightarrow> pydict" where
  "build_vllm_engine_kwargs a model_profile =
     [(''tensor_parallel_size'', PInt (tensor_parallel_size a)),
      (''gpu_memory_utilization'', PFloat (gpu_memory_utilization a)),
      (''max_model_len'', PInt (max_model_len a)),
      (''max_num_seqs'', PInt (max_num_seqs a)),
      (''enforce_eager'', PBool (enforce_eager a))]
     @ (if truthy (pget model_profile ''limit_mm_per_prompt'')
        then [(''limit_mm_per_prompt'', pget model_profile ''limit_mm_per_prompt'')] else [])
     @ (if disable_custom_all_reduce a then [(''disable_custom_all_reduce'', PBool True)] else [])
     @ (if 1 < data_parallel_size a
        then [(''use_async_engine'', PBool True),
              (''engine_kwargs'', PDict [(''data_parallel_size'', PInt (data_parallel_size a))])]
        else [])"

definition maybe_float :: "pyval \<Rightarrow> real option" where
  "maybe_float v = (if v = PNone \<or> v = PStr [] then None else py_float v)"

definition unsafe_re :: rx where
  "unsafe_re = rx_plus (Cls (\<lambda>c. \<not> (is_alpha c \<or> is_digit c \<or> c = CHR ''.'' \<or> c = CHR ''_'' \<or> c = CHR ''-'')))"

definition sanitize_name :: "string \<Rightarrow> string" where
  "sanitize_name value =
     (let s = re_sub unsafe_re (\<lambda>_. ''_'') (strip_chars ''/'' value) in if s = [] then ''model'' else s)"

text \<open>The digest and the stem of the path are arguments.\<close>

definition stable_item_id :: "(string \<Rightarrow> string) \<Rightarrow> (string \<Rightarrow> string) \<Rightarrow> string \<Rightarrow> string" where
  "stable_item_id md5 stem relative_path =
     sanitize_name (stem relative_path) @ ''_'' @ take 12 (md5 relative_path)"

definition or_empty :: "pyval \<Rightarrow> pyval" where
  "or_empty v = (if truthy v then v else PStr [])"

definition should_strip_think_tokens :: "(pyval \<Rightarrow> string) \<Rightarrow> pydict \<Rightarrow> bool" where
  "should_strip_think_tokens rp model_profile =
     (let get = (\<lambda>k. lower (py_str rp (or_empty (pget model_profile k))));
          combined = join '' '' [get ''swift_model_type'', get ''swift_template_type'', get ''model_dir_name'',
                                 get ''model_path'']
      in list_ex (\<lambda>marker. contains marker combined)
           [''internvl3_5'', ''internvl3.5'', ''intern3_5vl'', ''intern3.5vl''])"

definition adapt_prompt_for_model :: "(pyval \<Rightarrow> string) \<Rightarrow> string \<Rightarrow> pydict \<Rightarrow> string" where
  "adapt_prompt_for_model rp system_prompt model_profile =
     (if should_strip_think_tokens rp model_profile
      then replace ''</think>'' [] (replace ''<think>'' [] system_prompt)
      else system_prompt)"

subsection \<open>The model profile\<close>

definition py_iter :: "pyval \<Rightarrow> pyval list res" where
  "py_iter v =
     (case v of
        PList xs \<Rightarrow> Inr xs
      | PStr s \<Rightarrow> Inr (map (\<lambda>c. PStr [c]) s)
      | PDict d \<Rightarrow> Inr (map (\<lambda>p. PStr (fst p)) d)
      | _ \<Rightarrow> Inl TypeError)"

datatype family = Generic | Internvl | Qwen3_vl | Qwen3_5 | Gemma3 | Qwen3

definition detect_family :: "string \<Rightarrow> string \<Rightarrow> string list \<Rightarrow> family" where
  "detect_family model_type processor_class architectures =
     (if contains ''internvl'' model_type \<or> contains ''internvl'' processor_class
         \<or> list_ex (contains ''internvl'') architectures then Internvl
      else if contains ''qwen3_vl'' model_type \<or> list_ex (contains ''qwen3vl'') architectures then Qwen3_vl
      else if model_type = ''qwen3_5'' then Qwen3_5
      else if contains ''gemma3'' model_type \<or> list_ex (contains ''gemma3'') architectures then Gemma3
      else if contains ''qwen3'' model_type \<or> list_ex (contains ''qwen3'') architectures then Qwen3
      else Generic)"

definition both :: "string \<Rightarrow> string option \<times> string option" where
  "both t = (Some t, Some t)"

definition internvl_types :: "string \<Rightarrow> string \<Rightarrow> string option \<times> string option" where
  "internvl_types model_name config_template =
     (if contains ''3_5_gpt'' model_name \<or> config_template = ''internvl3_5_gpt'' then both ''internvl3_5_gpt''
      else if contains ''3_5'' model_name \<or> contains ''3.5'' model_name then both ''internvl3_5''
      else if contains ''internvl3'' model_name then (Some ''internvl3'', Some ''internvl2_5'')
      else if contains ''2_5'' model_name \<or> contains ''2.5'' model_name \<or> config_template = ''internvl2_5''
      then both ''internvl2_5''
      else if config_template \<in> set [''internvl'', ''internvl2'', ''internvl2_5'', ''internvl3_5'',
                                     ''internvl3_5_gpt'', ''internvl_hf''] then
        (Some (if config_template = ''internvl3_5'' then ''internvl3_5''
               else if config_template = ''internvl3_5_gpt'' then ''internvl3_5_gpt''
               else if config_template = ''internvl2_5'' then ''internvl2_5''
               else if config_template = ''internvl2'' then ''internvl2''
               else if config_template = ''internvl_hf'' then ''internvl_hf''
               else ''internvl''), Some config_template)
      else both ''internvl3_5'')"

definition swift_types :: "family \<Rightarrow> string \<Rightarrow> string \<Rightarrow> bool \<Rightarrow> string option \<times> string option" where
  "swift_types fam model_name config_template is_multimodal =
     (case fam of
        Internvl \<Rightarrow> internvl_types model_name config_template
      | Qwen3_vl \<Rightarrow> both ''qwen3_vl''
      | Qwen3_5 \<Rightarrow> both ''qwen3_5''
      | Gemma3 \<Rightarrow> both (if is_multimodal then ''gemma3_vision'' else ''gemma3_text'')
      | Qwen3 \<Rightarrow> both ''qwen3''
      | Generic \<Rightarrow> (None, None))"

record model_profile =
  mp_model_path :: string
  mp_dir_name :: string
  mp_family :: family
  mp_hf_model_type :: string
  mp_architectures :: pyval
  mp_processor_class :: string
  mp_is_multimodal :: bool
  mp_limit_mm :: "(int \<times> int) option"
  mp_swift_model_type :: "string option"
  mp_swift_template_type :: "string option"
  mp_config_template :: "string option"

definition detect_model_profile ::
  "(pyval \<Rightarrow> string) \<Rightarrow> string \<Rightarrow> string \<Rightarrow> pydict \<Rightarrow> pydict \<Rightarrow> pydict \<Rightarrow> pydict \<Rightarrow> model_profile res" where
  "detect_model_profile rp model_path root_name config processor_cfg preprocessor_cfg tokenizer_cfg =
     (let model_name = lower root_name;
          model_type = lower (py_str rp (dget_or config ''model_type'' (PStr [])));
          processor_class = lower (py_str rp (or_empty
            (if truthy (pget processor_cfg ''processor_class'') then pget processor_cfg ''processor_class''
             else pget preprocessor_cfg ''processor_class'')));
          image_token_like = list_ex (has_key config)
            [''image_token_id'', ''image_token_index'', ''boi_token_index'', ''vision_start_token_id''];
          config_template = strip (py_str rp (dget_or config ''template'' (PStr [])))
      in res_bind (py_iter (dget_or config ''architectures'' (PList []))) (\<lambda>archs.
         res_bind
           (if image_token_like \<or> has_key config ''vision_config'' \<or> has_key preprocessor_cfg ''image_processor_type''
               \<or> has_key processor_cfg ''processor_class'' then Inr True
            else py_in ''vision_start_token_id'' (dget_or tokenizer_cfg ''added_tokens_decoder'' (PDict [])))
           (\<lambda>is_multimodal.
         let fam = detect_family model_type processor_class (map (\<lambda>x. lower (py_str rp x)) archs);
             (mt, tt) = swift_types fam model_name config_template is_multimodal
         in Inr \<lparr>mp_model_path = model_path, mp_dir_name = root_name, mp_family = fam,
                 mp_hf_model_type = model_type, mp_architectures = dget_or config ''architectures'' (PList []),
                 mp_processor_class = processor_class, mp_is_multimodal = is_multimodal,
                 mp_limit_mm = (if is_multimodal then Some (1, 0) else None),
                 mp_swift_model_type = mt, mp_swift_template_type = tt,
                 mp_config_template = (if config_template = [] then None else Some config_template)\<rparr>)))"

subsection \<open>Annotations and the dataset\<close>

definition common_field :: "pydict \<Rightarrow> string \<Rightarrow> string list \<Rightarrow> string option" where
  "common_field row override candidates =
     (if override \<noteq> ''auto'' then (if has_key row override then Some override else None)
      else List.find (has_key row) candidates)"

definition text_fields :: "string list" where
  "text_fields = [''gt_text'', ''ground_truth'', ''ground_truth_text'', ''label'', ''answer'', ''solution'',
                  ''location'', ''gt'']"

definition lat_fields :: "string list" where
  "lat_fields = [''gt_latitude'', ''latitude'', ''lat'', ''gt_lat'']"

definition lon_fields :: "string list" where
  "lon_fields = [''gt_longitude'', ''longitude'', ''lon'', ''lng'', ''gt_lon'', ''gt_lng'']"

definition image_fields :: "string list" where
  "image_fields = [''image'', ''images'', ''image_path'', ''path'', ''file_name'', ''filename'', ''relative_path'']"

definition splitlines :: "string \<Rightarrow> string list" where
  "splitlines s = split_char (CHR 0x0A) s"

text \<open>The rows of a manifest given its text; a line of a JSONL file that is not JSON raises.\<close>

definition jsonl_rows :: "string \<Rightarrow> pyval list res" where
  "jsonl_rows s =
     map_res (\<lambda>line. case json_loads line of Some v \<Rightarrow> Inr v | None \<Rightarrow> Inl ValueError)
       (filter (\<lambda>l. l \<noteq> []) (map strip (splitlines s)))"

definition load_json_or_jsonl :: "bool \<Rightarrow> string \<Rightarrow> pyval list res" where
  "load_json_or_jsonl is_jsonl content =
     (if is_jsonl then jsonl_rows content
      else case json_loads content of
        None \<Rightarrow> Inl ValueError
      | Some (PList xs) \<Rightarrow> Inr xs
      | Some (PDict d) \<Rightarrow>
          (case List.find (\<lambda>k. case pget d k of PList _ \<Rightarrow> True | _ \<Rightarrow> False)
                  [''data'', ''items'', ''annotations'', ''records''] of
             Some k \<Rightarrow> py_iter (pget d k)
           | None \<Rightarrow> Inl ValueError)
      | Some _ \<Rightarrow> Inl ValueError)"

record annotation =
  an_text :: pyval
  an_latitude :: "real option"
  an_longitude :: "real option"
  an_metadata :: pydict

definition annotation_of :: "pydict \<Rightarrow> string option \<Rightarrow> string option \<Rightarrow> string option \<Rightarrow> annotation" where
  "annotation_of row text_key lat_key lon_key =
     \<lparr>an_text = (case text_key of Some k \<Rightarrow> pget row k | None \<Rightarrow> PNone),
      an_latitude = (case lat_key of Some k \<Rightarrow> maybe_float (pget row k) | None \<Rightarrow> None),
      an_longitude = (case lon_key of Some k \<Rightarrow> maybe_float (pget row k) | None \<Rightarrow> None),
      an_metadata = row\<rparr>"

record field_args =
  image_field :: string
  gt_text_field :: string
  gt_lat_field :: string
  gt_lon_field :: string

text \<open>\<open>resolve\<close> resolves an image reference against the data directory.\<close>

fun load_annotations ::
  "(pyval \<Rightarrow> string) \<Rightarrow> (string \<Rightarrow> string) \<Rightarrow> field_args \<Rightarrow> pydict list \<Rightarrow> (string, annotation) dict
     \<Rightarrow> (string, annotation) dict res" where
  "load_annotations rp resolve a [] annotations = Inr annotations"
| "load_annotations rp resolve a (row # rows) annotations =
     (case common_field row (image_field a) image_fields of
        None \<Rightarrow> Inl ValueError
      | Some image_key \<Rightarrow>
          res_bind (case pget row image_key of
                      PList [] \<Rightarrow> Inl IndexError | PList (x # _) \<Rightarrow> Inr x | v \<Rightarrow> Inr v) (\<lambda>image_value.
            load_annotations rp resolve a rows
              (dset (resolve (py_str rp image_value))
                 (annotation_of row (common_field row (gt_text_field a) text_fields)
                    (common_field row (gt_lat_field a) lat_fields)
                    (common_field row (gt_lon_field a) lon_fields)) annotations)))"

definition load_sidecar_annotation :: "pyval option \<Rightarrow> annotation option" where
  "load_sidecar_annotation sidecar =
     (case sidecar of
        Some (PDict row) \<Rightarrow>
          Some (annotation_of row (common_field row ''auto'' text_fields) (common_field row ''auto'' lat_fields)
                  (common_field row ''auto'' lon_fields))
      | _ \<Rightarrow> None)"

record dataset_item =
  di_item_id :: string
  di_image_path :: string
  di_relative_path :: string
  di_gt_text :: pyval
  di_gt_latitude :: "real option"
  di_gt_longitude :: "real option"

text \<open>
  The images (resolved path and path relative to the data directory) in sorted order, the
  annotations and the sidecar of each image.  An image without any ground truth is skipped.
\<close>

definition item_of ::
  "(string \<Rightarrow> string) \<Rightarrow> (string, annotation) dict \<Rightarrow> (string \<Rightarrow> pyval option) \<Rightarrow> string \<times> string
     \<Rightarrow> dataset_item option" where
  "item_of item_id annotations sidecar img =
     (let (resolved, rel_path) = img;
          ann = (case dget annotations resolved of
                   Some an \<Rightarrow> Some an | None \<Rightarrow> load_sidecar_annotation (sidecar resolved))
      in case ann of
           None \<Rightarrow> None
         | Some an \<Rightarrow>
             if an_text an = PNone \<and> (an_latitude an = None \<or> an_longitude an = None) then None
             else Some \<lparr>di_item_id = item_id rel_path, di_image_path = resolved, di_relative_path = rel_path,
                        di_gt_text = an_text an, di_gt_latitude = an_latitude an,
                        di_gt_longitude = an_longitude an\<rparr>)"

definition build_dataset ::
  "(string \<Rightarrow> string) \<Rightarrow> (string, annotation) dict \<Rightarrow> (string \<Rightarrow> pyval option) \<Rightarrow> (string \<times> string) list
     \<Rightarrow> nat option \<Rightarrow> dataset_item list res" where
  "build_dataset item_id annotations sidecar images max_images =
     (let items = List.map_filter (item_of item_id annotations sidecar) images;
          kept = (case max_images of None \<Rightarrow> items | Some k \<Rightarrow> take k items)
      in if kept = [] then Inl ValueError else Inr kept)"

subsection \<open>Reading model outputs\<close>

definition strip_wrapping_quotes :: "string \<Rightarrow> string" where
  "strip_wrapping_quotes value0 =
     (let v = strip value0 in
      if 2 \<le> length v \<and> hd v = last v \<and> hd v \<in> set [CHR 0x22, CHR 0x27] then strip (butlast (tl v)) else v)"

definition extract_answer_block :: "string \<Rightarrow> string option" where
  "extract_answer_block raw_output = map_option (\<lambda>gs. strip (group 1 gs)) (re_search answer_re raw_output)"

definition quote_re :: rx where
  "quote_re = Cls (\<lambda>c. c = CHR 0x22 \<or> c = CHR 0x27)"

definition field_re :: "string \<Rightarrow> rx \<Rightarrow> rx" where
  "field_re field_name value =
     seqs [rx_opt quote_re, lit_ci field_name, rx_opt quote_re, blanks,
           Cls (\<lambda>c. c = CHR '':'' \<or> c = CHR ''=''), blanks, value]"

definition string_field_res :: "string \<Rightarrow> rx list" where
  "string_field_res field_name =
     (let body = (\<lambda>cs. Grp 1 (rx_plus (Cls (\<lambda>c. c \<notin> set cs))))
      in [field_re field_name (seqs [lit [CHR 0x22], body [CHR 0x22, CHR 0x0A, CHR ''<'', CHR ''>''], lit [CHR 0x22]]),
          field_re field_name (seqs [lit [CHR 0x27], body [CHR 0x27, CHR 0x0A, CHR ''<'', CHR ''>''], lit [CHR 0x27]]),
          field_re field_name (body [CHR '','', CHR 0x0A, CHR ''}'', CHR ''<'', CHR ''>''])])"

definition extract_string_field :: "string \<Rightarrow> string \<Rightarrow> string option" where
  "extract_string_field raw_text field_name =
     (if raw_text = [] then None
      else first_some (\<lambda>pattern.
        case re_search pattern raw_text of
          None \<Rightarrow> None
        | Some gs \<Rightarrow>
            let value = strip_chars '' ,'' (strip_wrapping_quotes (group 1 gs))
            in if value = [] then None else Some value) (string_field_res field_name))"

definition signed_number_re :: rx where
  "signed_number_re = seqs [rx_opt (lit ''-''), rx_plus (Cls is_digit), rx_opt (seqs [lit ''.'', rx_plus (Cls is_digit)])]"

definition extract_numeric_field :: "string \<Rightarrow> string list \<Rightarrow> real option" where
  "extract_numeric_field raw_text field_names =
     (if raw_text = [] then None
      else first_some (\<lambda>field_name.
        case re_search (field_re field_name (Grp 1 signed_number_re)) raw_text of
          None \<Rightarrow> None
        | Some gs \<Rightarrow> maybe_float (PStr (group 1 gs))) field_names)"

definition fenced_re :: rx where
  "fenced_re = seqs [lit ''```'', rx_opt (lit ''json''), blanks, Grp 1 brace_re, blanks, lit ''```'']"

definition extract_json_block :: "string \<Rightarrow> pydict option" where
  "extract_json_block raw_text =
     (if raw_text = [] then None
      else
        let fenced = (case re_search fenced_re raw_text of Some gs \<Rightarrow> [group 1 gs] | None \<Rightarrow> [])
        in first_some json_object (fenced @ re_findall0 brace_re raw_text))"

definition extract_answer_text :: "string \<Rightarrow> string option" where
  "extract_answer_text raw_output =
     (if raw_output = [] then None
      else
        let answer_block =
              (case extract_answer_block raw_output of
                 None \<Rightarrow> strip raw_output
               | Some b \<Rightarrow> if b = [] then strip raw_output else b);
            from_json =
              (case extract_json_block answer_block of
                 None \<Rightarrow> None
               | Some d \<Rightarrow>
                   (case pget d ''FinalAnswer'' of
                      PStr a \<Rightarrow> if strip a = [] then None else Some (strip a)
                    | _ \<Rightarrow> None))
        in case from_json of
             Some a \<Rightarrow> Some a
           | None \<Rightarrow>
               (case extract_string_field answer_block ''FinalAnswer'' of
                  Some a \<Rightarrow> Some a
                | None \<Rightarrow>
                    let compact = strip (strip_wrapping_quotes answer_block) in
                    if compact \<noteq> [] \<and> CHR ''<'' \<notin> set compact \<and> CHR ''>'' \<notin> set compact
                       \<and> length compact \<le> 300
                    then Some compact else None))"

definition is_placeholder_judge_json :: "(pyval \<Rightarrow> string) \<Rightarrow> pydict \<Rightarrow> bool" where
  "is_placeholder_judge_json rp payload =
     (let verdict = strip (py_str rp (dget_or payload ''verdict'' (PStr [])));
          reason = strip (py_str rp (dget_or payload ''reason'' (PStr [])))
      in verdict = ''...'' \<or> reason = ''...''
         \<or> (case pget payload ''score'' of
              PStr s \<Rightarrow> strip s \<in> set [''...'', ''0.0''] \<and> (verdict = [] \<or> reason = [])
            | _ \<Rightarrow> False))"

definition judge_payload :: "(pyval \<Rightarrow> string) \<Rightarrow> string \<Rightarrow> pydict option" where
  "judge_payload rp candidate =
     (case json_object candidate of
        None \<Rightarrow> None
      | Some parsed \<Rightarrow>
          if \<not> has_key parsed ''score'' \<or> \<not> has_key parsed ''verdict'' \<or> \<not> has_key parsed ''reason'' then None
          else case maybe_float (pget parsed ''score'') of
            None \<Rightarrow> None
          | Some score \<Rightarrow>
              let p = dset ''score'' (PFloat score) parsed
              in if is_placeholder_judge_json rp p then None else Some p)"

definition extract_last_valid_judge_json :: "(pyval \<Rightarrow> string) \<Rightarrow> string \<Rightarrow> pydict option" where
  "extract_last_valid_judge_json rp raw_text =
     (if raw_text = [] then None
      else
        let valid = List.map_filter (judge_payload rp) (re_findall1 fenced_re raw_text @ re_findall0 brace_re raw_text)
        in if valid \<noteq> [] then Some (last valid)
           else
             (case (extract_numeric_field raw_text [''score''], extract_string_field raw_text ''verdict'',
                    extract_string_field raw_text ''reason'') of
                (Some score, Some verdict, Some reason) \<Rightarrow>
                  let p = [(''score'', PFloat score), (''verdict'', PStr verdict), (''reason'', PStr reason)]
                  in if is_placeholder_judge_json rp p then None else Some p
              | _ \<Rightarrow> None))"

definition json_latlon :: "pydict \<Rightarrow> (real \<times> real) option" where
  "json_latlon source =
     (case (maybe_float (dget_or source ''latitude'' (pget source ''lat'')),
            maybe_float (dget_or source ''longitude'' (dget_or source ''lon'' (pget source ''lng'')))) of
        (Some lat, Some lon) \<Rightarrow> Some (lat, lon)
      | _ \<Rightarrow> None)"

definition labelled_number :: "rx \<Rightarrow> nat \<Rightarrow> rx" where
  "labelled_number label i =
     seqs [label, blanks, Cls (\<lambda>c. c = CHR '':'' \<or> c = CHR ''=''), blanks, Grp i signed_number_re]"

definition pair_patterns :: "rx list" where
  "pair_patterns =
     [seqs [labelled_number (lit_ci ''latitude'') 1, rx_plus (Cls (\<lambda>c. \<not> is_digit c)),
            labelled_number (lit_ci ''longitude'') 2],
      seqs [labelled_number (lit_ci ''lat'') 1, rx_plus (Cls (\<lambda>c. \<not> is_digit c)),
            labelled_number (seqs [lit_ci ''lon'', rx_opt (lit_ci ''gitude'')]) 2],
      seqs [lit ''('', blanks, Grp 1 signed_number_re, blanks, lit '','', blanks, Grp 2 signed_number_re, blanks,
            lit '')'']]"

definition bounded_pair :: "real option \<Rightarrow> real option \<Rightarrow> (real option \<times> real option) option" where
  "bounded_pair lat lon =
     (case (lat, lon) of
        (Some a, Some b) \<Rightarrow> if \<bar>a\<bar> \<le> 90 \<and> \<bar>b\<bar> \<le> 180 then Some (lat, lon) else None
      | _ \<Rightarrow> None)"

definition extract_latlon :: "string \<Rightarrow> real option \<times> real option" where
  "extract_latlon raw_output =
     (let answer_block = extract_answer_block raw_output;
          sources = [extract_json_block (case answer_block of Some b \<Rightarrow> b | None \<Rightarrow> []), extract_json_block raw_output];
          txt = (case answer_block of Some b \<Rightarrow> if b = [] then raw_output else b | None \<Rightarrow> raw_output);
          pairs = [bounded_pair (extract_numeric_field txt [''latitude'', ''lat''])
                                (extract_numeric_field txt [''longitude'', ''lon'', ''lng''])]
                @ map (\<lambda>pattern. map_option (\<lambda>gs. (maybe_float (PStr (group 1 gs)), maybe_float (PStr (group 2 gs))))
                                   (re_search pattern txt)) pair_patterns
                @ [case re_findall0 signed_number_re txt of
                     a # b # _ \<Rightarrow> bounded_pair (maybe_float (PStr a)) (maybe_float (PStr b))
                   | _ \<Rightarrow> None]
      in case first_some (\<lambda>s. Option.bind s json_latlon) sources of
           Some (lat, lon) \<Rightarrow> (Some lat, Some lon)
         | None \<Rightarrow> (case first_some id pairs of Some p \<Rightarrow> p | None \<Rightarrow> (None, None)))"

definition build_judge_prompt :: "string \<Rightarrow> string \<Rightarrow> string \<Rightarrow> string \<Rightarrow> string" where
  "build_judge_prompt prompt_template prediction ground_truth max_distance_text =
     replace ''__GROUND_TRUTH__'' ground_truth
       (replace ''__PREDICTION__'' prediction
         (replace ''__MAX_DISTANCE_KM__'' max_distance_text prompt_template))"

end
