(* ===== verification/Selector.thy ===== *)
theory Selector
  imports SelParse
begin

text \<open>
  The data selector, second half: its geocoder with a cache and a rotating API key, the two
  geolocation scorers and the LLM judge, the sampling probabilities of the images, Gumbel
  top-k sampling, the split of the samples over the models and the check of saved
  generations.  The HTTP session, the inference engine, numpy's \<open>argsort\<close> and the random
  number generator are parameters.
\<close>

subsection \<open>The cached geocoder\<close>

record wrapper =
  ow_cache :: "(string, pydict) dict"
  ow_cursor :: nat

definition opencage_get :: "string \<Rightarrow> wrapper \<Rightarrow> pydict option" where
  "opencage_get address w = dget (ow_cache w) (strip address)"

definition opencage_set :: "string \<Rightarrow> pydict \<Rightarrow> wrapper \<Rightarrow> wrapper" where
  "opencage_set address payload w = w\<lparr>ow_cache := dset (strip address) payload (ow_cache w)\<rparr>"

definition resolve_proxies :: "string \<Rightarrow> string \<Rightarrow> string \<Rightarrow> (string, string) dict" where
  "resolve_proxies http_proxy https_proxy all_proxy =
     (let proxies = (if http_proxy \<noteq> [] then [(''http'', http_proxy)] else [])
                    @ (if https_proxy \<noteq> [] then [(''https'', https_proxy)] else [])
      in if proxies \<noteq> [] then proxies
         else if all_proxy \<noteq> [] \<and> \<not> starts_with ''socks'' (lower all_proxy)
         then [(''http'', all_proxy), (''https'', all_proxy)]
         else [])"

definition place_payload :: "pyval \<Rightarrow> pydict res" where
  "place_payload data =
     res_bind (py_get data ''status'' (PDict [])) (\<lambda>status.
     res_bind (py_get status ''code'' PNone) (\<lambda>code.
     res_bind (py_get data ''results'' PNone) (\<lambda>results.
       if py_eq code (PInt 200) \<and> truthy results then
         res_bind (py_first results) (\<lambda>result.
         res_bind (py_item result ''geometry'') (\<lambda>geometry.
         res_bind (py_item geometry ''lat'') (\<lambda>lat.
         res_bind (py_item geometry ''lng'') (\<lambda>lng.
         res_bind (py_get result ''confidence'' (PInt 0)) (\<lambda>confidence.
         res_bind (py_get result ''formatted'' PNone) (\<lambda>formatted.
           Inr [(''status'', PStr ''success''), (''latitude'', lat), (''longitude'', lng),
                (''confidence'', confidence), (''formatted_address'', formatted)]))))))
       else
         res_bind (py_get status ''message'' PNone) (\<lambda>message.
           Inr [(''status'', PStr ''error''), (''code'', code), (''message'', message)]))))"

definition error_payload :: "string \<Rightarrow> pydict" where
  "error_payload msg = [(''status'', PStr ''error''), (''message'', PStr msg)]"

definition outcome_payload :: "(py_exn \<Rightarrow> string) \<Rightarrow> http_outcome \<Rightarrow> pydict" where
  "outcome_payload exn outcome =
     (case outcome of
        Request_failed msg \<Rightarrow> error_payload msg
      | Other_failed msg \<Rightarrow> error_payload msg
      | Responded rsp \<Rightarrow>
          if 400 \<le> status_code rsp \<and> status_code rsp < 600 then error_payload (err_text rsp)
          else
            (case resp_body rsp of
               None \<Rightarrow> error_payload (err_text rsp)
             | Some data \<Rightarrow>
                 (case place_payload data of Inl e \<Rightarrow> error_payload (exn e) | Inr p \<Rightarrow> p)))"

record wrapper_env =
  we_keys :: "string list"
  we_retry_error_cache :: bool
  we_net :: "nat \<Rightarrow> string \<Rightarrow> string \<Rightarrow> http_outcome"
  we_exn :: "py_exn \<Rightarrow> string"

text \<open>The request number \<open>k\<close> of the network is the cursor, which counts the requests sent.\<close>

definition wrapper_geocode :: "wrapper_env \<Rightarrow> string \<Rightarrow> wrapper \<Rightarrow> pydict option \<times> wrapper" where
  "wrapper_geocode E address0 w =
     (let address = strip address0 in
      if address = [] then (None, w)
      else
        let cached = opencage_get address w in
        if cached \<noteq> None \<and> (pget (the cached) ''status'' \<noteq> PStr ''error'' \<or> \<not> we_retry_error_cache E)
        then (cached, w)
        else
          let api_key = we_keys E ! (ow_cursor w mod length (we_keys E));
              payload = outcome_payload (we_exn E) (we_net E (ow_cursor w) api_key (comma_separated address))
          in (Some payload, opencage_set address payload (w\<lparr>ow_cursor := ow_cursor w + 1\<rparr>)))"

subsection \<open>Samples\<close>

record sample_result =
  sr_item_id :: string
  sr_image_path :: string
  sr_relative_path :: string
  sr_model_name :: string
  sr_sample_index :: int
  sr_reward_mode :: string
  sr_raw_output :: string
  sr_parsed_answer :: "string option"
  sr_parsed_latitude :: "real option"
  sr_parsed_longitude :: "real option"
  sr_reward :: real
  sr_details :: pydict
  sr_gt_text :: "string option"
  sr_gt_latitude :: "real option"
  sr_gt_longitude :: "real option"

definition make_requests :: "bool \<Rightarrow> dataset_item list \<Rightarrow> string \<Rightarrow> pydict list res" where
  "make_requests supports_images items system_prompt =
     (if \<not> supports_images then Inl ValueError
      else Inr (map (\<lambda>item.
        [(''messages'', PList [PDict [(''role'', PStr ''system''), (''content'', PStr system_prompt)],
                               PDict [(''role'', PStr ''user''), (''content'', PStr ''Locate this image.'')]]),
         (''images'', PList [PStr (di_image_path item)])]) items))"

text \<open>One sample built from the raw output of the engine (the empty text for a failed request).\<close>

definition new_sample :: "string \<Rightarrow> string \<Rightarrow> dataset_item \<times> nat \<Rightarrow> string \<Rightarrow> sample_result" where
  "new_sample model_name reward_mode p raw_output =
     (let (item, idx) = p;
          (lat, lon) = (if reward_mode = ''latlon_geoscore'' then extract_latlon raw_output else (None, None))
      in \<lparr>sr_item_id = di_item_id item, sr_image_path = di_image_path item,
          sr_relative_path = di_relative_path item, sr_model_name = model_name, sr_sample_index = int idx,
          sr_reward_mode = reward_mode, sr_raw_output = raw_output, sr_parsed_answer = extract_answer_text raw_output,
          sr_parsed_latitude = lat, sr_parsed_longitude = lon, sr_reward = 0, sr_details = [],
          sr_gt_text = as_str (di_gt_text item), sr_gt_latitude = di_gt_latitude item,
          sr_gt_longitude = di_gt_longitude item\<rparr>)"

definition expand_items :: "nat \<Rightarrow> dataset_item list \<Rightarrow> (dataset_item \<times> nat) list" where
  "expand_items samples_per_image batch =
     concat (map (\<lambda>item. map (\<lambda>idx. (item, idx)) [0 ..< samples_per_image]) batch)"

text \<open>Generation: every batch is sent to the engine with each item repeated.\<close>

definition run_generation ::
  "(pydict list \<Rightarrow> string list) \<Rightarrow> bool \<Rightarrow> string \<Rightarrow> string \<Rightarrow> string \<Rightarrow> nat \<Rightarrow> nat \<Rightarrow> dataset_item list
     \<Rightarrow> sample_result list res" where
  "run_generation infer supports_images model_name reward_mode system_prompt samples_per_image batch_size items =
     res_bind (map_res (\<lambda>batch.
        res_bind (make_requests supports_images batch system_prompt) (\<lambda>base_payloads.
          let payloads = concat (map (replicate samples_per_image) base_payloads)
          in Inr (map2 (\<lambda>raw p. new_sample model_name reward_mode p raw) (infer payloads)
                   (expand_items samples_per_image batch)))) (chunks batch_size items))
       (\<lambda>parts. Inr (concat parts))"

subsection \<open>Scoring\<close>

definition build_geo_point :: "pyval \<Rightarrow> pyval \<Rightarrow> string \<Rightarrow> pydict option \<Rightarrow> pydict res" where
  "build_geo_point latitude longitude source raw_geo =
     (case (py_float latitude, py_float longitude) of
        (Some lat, Some lon) \<Rightarrow>
          Inr ([(''latitude'', PFloat lat), (''longitude'', PFloat lon), (''source'', PStr source)]
               @ (case raw_geo of
                    None \<Rightarrow> []
                  | Some g \<Rightarrow> map (\<lambda>k. (k, pget g k))
                      (filter (\<lambda>k. pget g k \<noteq> PNone) [''status'', ''confidence'', ''formatted'', ''formatted_address''])))
      | _ \<Rightarrow> Inl TypeError)"

definition build_geoscore_details :: "pydict \<Rightarrow> pydict \<Rightarrow> real \<Rightarrow> real \<Rightarrow> pydict" where
  "build_geoscore_details pred_geo gt_geo distance geoscore =
     [(''pred_geo'', PDict pred_geo), (''gt_geo'', PDict gt_geo), (''distance_km'', PFloat distance),
      (''geoscore'', PFloat geoscore)]"

definition num_res :: "pyval \<Rightarrow> real res" where
  "num_res v = (case num_of v of Some x \<Rightarrow> Inr x | None \<Rightarrow> Inl TypeError)"

definition failed_sample :: "string \<Rightarrow> pydict \<Rightarrow> sample_result \<Rightarrow> sample_result" where
  "failed_sample err extra s = s\<lparr>sr_reward := 0, sr_details := (''error'', PStr err) # extra\<rparr>"

definition opt_dict :: "pydict option \<Rightarrow> pyval" where
  "opt_dict g = (case g of None \<Rightarrow> PNone | Some d \<Rightarrow> PDict d)"

definition geo_success :: "pydict option \<Rightarrow> bool" where
  "geo_success g = (case g of None \<Rightarrow> False | Some d \<Rightarrow> pget d ''status'' = PStr ''success'')"

definition geo_distance :: "pydict \<Rightarrow> pydict \<Rightarrow> real res" where
  "geo_distance p g =
     res_bind (py_item (PDict p) ''latitude'') (\<lambda>a. res_bind (py_item (PDict p) ''longitude'') (\<lambda>b.
     res_bind (py_item (PDict g) ''latitude'') (\<lambda>c. res_bind (py_item (PDict g) ''longitude'') (\<lambda>d.
     res_bind (num_res a) (\<lambda>a'. res_bind (num_res b) (\<lambda>b'. res_bind (num_res c) (\<lambda>c'.
     res_bind (num_res d) (\<lambda>d'. geodesic_km a' b' c' d'))))))))"

definition gt_lookup :: "wrapper_env \<Rightarrow> sample_result \<Rightarrow> wrapper \<Rightarrow> pydict option \<times> wrapper" where
  "gt_lookup E s w =
     (case (sr_gt_latitude s, sr_gt_longitude s) of
        (Some lat, Some lon) \<Rightarrow>
          (Some [(''status'', PStr ''success''), (''latitude'', PFloat lat), (''longitude'', PFloat lon)], w)
      | _ \<Rightarrow>
          (case sr_gt_text s of
             Some t \<Rightarrow> if t = [] then (None, w) else wrapper_geocode E t w
           | None \<Rightarrow> (None, w)))"

definition score_text_one ::
  "wrapper_env \<Rightarrow> real \<Rightarrow> int \<Rightarrow> sample_result \<Rightarrow> wrapper \<Rightarrow> (sample_result \<times> wrapper) res" where
  "score_text_one E md confidence_threshold s w =
     (case sr_parsed_answer s of
        None \<Rightarrow> Inr (failed_sample ''missing_answer'' [] s, w)
      | Some pred_text \<Rightarrow>
          if pred_text = [] then Inr (failed_sample ''missing_answer'' [] s, w)
          else
            let (pred_geo, w1) = wrapper_geocode E pred_text w in
            if \<not> geo_success pred_geo then
              Inr (failed_sample ''pred_geocode_failed'' [(''pred_geo'', opt_dict pred_geo)] s, w1)
            else
              let pg = the pred_geo in
              res_bind (num_res (dget_or pg ''confidence'' (PInt 0))) (\<lambda>pc.
                if pc < real_of_int confidence_threshold then
                  Inr (failed_sample ''pred_low_confidence'' [(''pred_geo'', PDict pg)] s, w1)
                else
                  let (gt_geo, w2) = gt_lookup E s w1 in
                  if \<not> geo_success gt_geo then
                    Inr (failed_sample ''gt_geocode_failed''
                           [(''pred_geo'', PDict pg), (''gt_geo'', opt_dict gt_geo)] s, w2)
                  else
                    let gg = the gt_geo in
                    res_bind (num_res (dget_or gg ''confidence'' (PInt confidence_threshold))) (\<lambda>gc.
                      if gc < real_of_int confidence_threshold then
                        Inr (failed_sample ''gt_low_confidence''
                               [(''pred_geo'', PDict pg), (''gt_geo'', PDict gg)] s, w2)
                      else
                        res_bind (geo_distance pg gg) (\<lambda>d.
                        res_bind (build_geo_point (pget pg ''latitude'') (pget pg ''longitude'')
                                    ''geocoded_prediction_text'' (Some pg)) (\<lambda>pp.
                        res_bind (build_geo_point (pget gg ''latitude'') (pget gg ''longitude'')
                                    (if sr_gt_latitude s \<noteq> None \<and> sr_gt_longitude s \<noteq> None then ''annotation_latlon''
                                     else ''geocoded_ground_truth_text'') (Some gg)) (\<lambda>gp.
                          let r = calculate_geoscore md d
                          in Inr (s\<lparr>sr_reward := r, sr_details := build_geoscore_details pp gp d r\<rparr>, w2)))))))"

definition score_latlon_one ::
  "wrapper_env option \<Rightarrow> real \<Rightarrow> sample_result \<Rightarrow> wrapper \<Rightarrow> (sample_result \<times> wrapper) res" where
  "score_latlon_one geocoder md s w =
     (case (sr_parsed_latitude s, sr_parsed_longitude s) of
        (Some plat, Some plon) \<Rightarrow>
          res_bind (build_geo_point (PFloat plat) (PFloat plon) ''parsed_prediction_latlon'' None) (\<lambda>pp.
            let finish = (\<lambda>glat glon source raw w'.
                  res_bind (build_geo_point glat glon source raw) (\<lambda>gp.
                  res_bind (num_res glat) (\<lambda>a. res_bind (num_res glon) (\<lambda>b.
                  res_bind (geodesic_km plat plon a b) (\<lambda>d.
                    let r = calculate_geoscore md d
                    in Inr (s\<lparr>sr_reward := r, sr_details := build_geoscore_details pp gp d r\<rparr>, w'))))))
            in case (sr_gt_latitude s, sr_gt_longitude s) of
                 (Some glat, Some glon) \<Rightarrow> finish (PFloat glat) (PFloat glon) ''annotation_latlon'' None w
               | _ \<Rightarrow>
                   (case (geocoder, sr_gt_text s) of
                      (Some E, Some t) \<Rightarrow>
                        if t = [] then Inr (failed_sample ''missing_gt_latlon'' [] s, w)
                        else
                          let (g, w1) = wrapper_geocode E t w in
                          if \<not> geo_success g then Inr (failed_sample ''gt_geocode_failed'' [] s, w1)
                          else
                            res_bind (py_item (PDict (the g)) ''latitude'') (\<lambda>glat.
                            res_bind (py_item (PDict (the g)) ''longitude'') (\<lambda>glon.
                              finish glat glon ''geocoded_ground_truth_text'' g w1))
                    | _ \<Rightarrow> Inr (failed_sample ''missing_gt_latlon'' [] s, w)))
      | _ \<Rightarrow> Inr (failed_sample ''missing_latlon'' [] s, w))"

fun score_all ::
  "(sample_result \<Rightarrow> wrapper \<Rightarrow> (sample_result \<times> wrapper) res) \<Rightarrow> sample_result list \<Rightarrow> wrapper
     \<Rightarrow> (sample_result list \<times> wrapper) res" where
  "score_all f [] w = Inr ([], w)"
| "score_all f (s # ss) w =
     res_bind (f s w) (\<lambda>(s', w1). res_bind (score_all f ss w1) (\<lambda>(ss', w2). Inr (s' # ss', w2)))"

definition score_text_geocode ::
  "wrapper_env \<Rightarrow> real \<Rightarrow> int \<Rightarrow> sample_result list \<Rightarrow> wrapper \<Rightarrow> (sample_result list \<times> wrapper) res" where
  "score_text_geocode E md confidence_threshold = score_all (score_text_one E md confidence_threshold)"

definition score_latlon_geoscore ::
  "wrapper_env option \<Rightarrow> real \<Rightarrow> sample_result list \<Rightarrow> wrapper \<Rightarrow> (sample_result list \<times> wrapper) res" where
  "score_latlon_geoscore geocoder md = score_all (score_latlon_one geocoder md)"

subsection \<open>The LLM judge\<close>

definition text_of :: "string option \<Rightarrow> string" where
  "text_of t = (case t of None \<Rightarrow> [] | Some s \<Rightarrow> s)"

definition mark_missing :: "sample_result \<Rightarrow> sample_result" where
  "mark_missing s =
     (if text_of (sr_gt_text s) = [] then failed_sample ''missing_gt_text'' [] s
      else if text_of (sr_parsed_answer s) = [] then failed_sample ''missing_parsed_answer'' [] s
      else s)"

definition has_prompt :: "sample_result \<Rightarrow> bool" where
  "has_prompt s = (text_of (sr_gt_text s) \<noteq> [] \<and> text_of (sr_parsed_answer s) \<noteq> [])"

definition skipped :: "sample_result \<Rightarrow> bool" where
  "skipped s = (pget (sr_details s) ''error'' \<in> set [PStr ''missing_gt_text'', PStr ''missing_parsed_answer''])"

definition sample_prompt :: "string \<Rightarrow> string \<Rightarrow> sample_result \<Rightarrow> string" where
  "sample_prompt tmpl md_text s =
     build_judge_prompt tmpl (text_of (sr_parsed_answer s)) (text_of (sr_gt_text s)) md_text"

definition output_truncated :: "string \<Rightarrow> bool" where
  "output_truncated raw = (raw \<noteq> [] \<and> \<not> ends_with ''}'' (rstrip raw))"

definition judged :: "(pyval \<Rightarrow> string) \<Rightarrow> sample_result \<Rightarrow> string \<Rightarrow> sample_result" where
  "judged rp s raw =
     (case extract_last_valid_judge_json rp raw of
        None \<Rightarrow> s\<lparr>sr_reward := 0,
                 sr_details := [(''judge_output'', PStr raw), (''judge_json'', PNone),
                                (''error'', PStr ''judge_json_parse_failed''),
                                (''output_truncated'', PBool (output_truncated raw))]\<rparr>
      | Some parsed \<Rightarrow>
          let score = (case maybe_float (pget parsed ''score'') of Some x \<Rightarrow> x | None \<Rightarrow> 0)
          in s\<lparr>sr_reward := min 1 (max 0 score),
               sr_details := [(''judge_output'', PStr raw), (''judge_json'', PDict parsed),
                              (''output_truncated'', PBool (output_truncated raw))]\<rparr>)"

fun assign_responses ::
  "(pyval \<Rightarrow> string) \<Rightarrow> sample_result list \<Rightarrow> string list \<Rightarrow> sample_result list res" where
  "assign_responses rp [] responses = Inr []"
| "assign_responses rp (s # ss) responses =
     (if skipped s then res_bind (assign_responses rp ss responses) (\<lambda>ss'. Inr (s # ss'))
      else case responses of
        [] \<Rightarrow> Inl StopIteration
      | r # rs \<Rightarrow> res_bind (assign_responses rp ss rs) (\<lambda>ss'. Inr (judged rp s r # ss')))"

definition judge_batch ::
  "(pyval \<Rightarrow> string) \<Rightarrow> (string list \<Rightarrow> string list) \<Rightarrow> string \<Rightarrow> string \<Rightarrow> sample_result list
     \<Rightarrow> sample_result list res" where
  "judge_batch rp infer tmpl md_text batch =
     (let marked = map mark_missing batch;
          payloads = map (sample_prompt tmpl md_text) (filter has_prompt batch)
      in if payloads = [] then Inr marked else assign_responses rp marked (infer payloads))"

definition run_llm_judge ::
  "(pyval \<Rightarrow> string) \<Rightarrow> (string list \<Rightarrow> string list) \<Rightarrow> string \<Rightarrow> string \<Rightarrow> nat \<Rightarrow> sample_result list
     \<Rightarrow> sample_result list res" where
  "run_llm_judge rp infer tmpl md_text batch_size samples =
     res_bind (map_res (judge_batch rp infer tmpl md_text) (chunks batch_size samples)) (\<lambda>bs. Inr (concat bs))"

end
