(* ===== verification/SelStats.thy ===== *)
theory SelStats
  imports Selector
begin

text \<open>
  The statistics of the data selector: reward statistics and sampling probability of every
  image, Gumbel top-k sampling without replacement, the split of the samples over the
  models, and the check that saved generations are complete.
\<close>

subsection \<open>Sampling probabilities\<close>

record prob_args =
  pa_mid_target :: "real option"
  pa_tau_mu :: real
  pa_tau_sigma :: real
  pa_epsilon :: real
  pa_percentile :: bool

record image_stat =
  is_item_id :: string
  is_num_samples :: nat
  is_reward_mean :: real
  is_reward_std :: real
  is_reward_min :: real
  is_reward_max :: real
  is_sample_rewards :: "real list"
  is_s_mid :: real
  is_s_var :: real
  is_value :: real
  is_probability :: real

text \<open>\<open>np.mean\<close> and the like of the rewards of an item, 0 when it has none.\<close>

definition or_zero :: "(real list \<Rightarrow> real) \<Rightarrow> real list \<Rightarrow> real" where
  "or_zero f xs = (if xs = [] then 0 else f xs)"

definition list_min :: "real list \<Rightarrow> real" where
  "list_min xs = foldr min (tl xs) (hd xs)"

definition list_max :: "real list \<Rightarrow> real" where
  "list_max xs = foldr max (tl xs) (hd xs)"

definition item_rewards :: "sample_result list \<Rightarrow> dataset_item \<Rightarrow> real list" where
  "item_rewards samples item = map sr_reward (filter (\<lambda>s. sr_item_id s = di_item_id item) samples)"

definition py_div :: "real \<Rightarrow> real \<Rightarrow> real res" where
  "py_div x y = (if y = 0 then Inl ZeroDivisionError else Inr (x / y))"

definition mid_score :: "prob_args \<Rightarrow> real \<Rightarrow> real \<Rightarrow> real \<Rightarrow> real res" where
  "mid_score A m_mu s_mu mu =
     res_bind (py_div (- ((mu - m_mu)\<^sup>2)) (2 * (pa_tau_mu A * s_mu)\<^sup>2 + pa_epsilon A)) (\<lambda>x. Inr (exp x))"

definition var_score :: "prob_args \<Rightarrow> real \<Rightarrow> real \<Rightarrow> real res" where
  "var_score A s_sigma sigma =
     res_bind (py_div (- sigma) (pa_tau_sigma A * s_sigma + pa_epsilon A)) (\<lambda>x. Inr (1 - exp x))"

definition percentile_ranks :: "(nat list \<Rightarrow> nat list) \<Rightarrow> (real list \<Rightarrow> nat list) \<Rightarrow> real list \<Rightarrow> real list" where
  "percentile_ranks argsort_nat argsort sigmas =
     map (\<lambda>k. real k / real (max 1 (length sigmas - 1))) (argsort_nat (argsort sigmas))"

definition normalise_values :: "real list \<Rightarrow> real list" where
  "normalise_values values =
     (if sum_list values \<le> 0 then replicate (length values) (1 / real (max 1 (length values)))
      else map (\<lambda>v. v / sum_list values) values)"

definition image_values :: "prob_args \<Rightarrow> (nat list \<Rightarrow> nat list) \<Rightarrow> (real list \<Rightarrow> nat list) \<Rightarrow> real list list
    \<Rightarrow> (real \<times> real) list res" where
  "image_values A argsort_nat argsort rewards =
     (let mus = map (or_zero mean) rewards; sigmas = map (or_zero pstd) rewards;
          m_mu = (case pa_mid_target A of Some t \<Rightarrow> t | None \<Rightarrow> mean mus);
          ranks = percentile_ranks argsort_nat argsort sigmas
      in map_res (\<lambda>i.
           res_bind (mid_score A m_mu (pstd mus) (mus ! i)) (\<lambda>s_mid.
           res_bind (if pa_percentile A then Inr (ranks ! i) else var_score A (pstd sigmas) (sigmas ! i)) (\<lambda>s_var.
             Inr (s_mid, s_var)))) [0 ..< length rewards])"

definition compute_probabilities ::
  "prob_args \<Rightarrow> (nat list \<Rightarrow> nat list) \<Rightarrow> (real list \<Rightarrow> nat list) \<Rightarrow> dataset_item list \<Rightarrow> sample_result list
     \<Rightarrow> image_stat list res" where
  "compute_probabilities A argsort_nat argsort items samples =
     (if \<not> list_all (\<lambda>s. sr_item_id s \<in> set (map di_item_id items)) samples then Inl KeyError
      else
        let rewards = map (item_rewards samples) items in
        res_bind (image_values A argsort_nat argsort rewards) (\<lambda>scores.
          let probs = normalise_values (map (\<lambda>(m, v). m * v) scores)
          in Inr (map (\<lambda>(item, rs, (s_mid, s_var), p).
               \<lparr>is_item_id = di_item_id item, is_num_samples = length rs, is_reward_mean = or_zero mean rs,
                is_reward_std = or_zero pstd rs, is_reward_min = or_zero list_min rs,
                is_reward_max = or_zero list_max rs, is_sample_rewards = rs, is_s_mid = s_mid, is_s_var = s_var,
                is_value = s_mid * s_var, is_probability = p\<rparr>)
               (zip items (zip rewards (zip scores probs))))))"

subsection \<open>Gumbel top-k\<close>

definition py_log :: "real \<Rightarrow> real res" where
  "py_log x = (if x \<le> 0 then Inl ValueError else Inr (ln x))"

definition gumbel_key :: "real \<Rightarrow> real \<Rightarrow> real res" where
  "gumbel_key probability draw =
     (let prob = max probability (1 / 10 ^ 12);
          u = min (max draw (1 / 10 ^ 12)) (1 - 1 / 10 ^ 12)
      in res_bind (py_log u) (\<lambda>l. res_bind (py_log (- l)) (\<lambda>ll. res_bind (py_log prob) (\<lambda>lp. Inr (lp + (- ll))))))"

definition gumbel_top_k :: "('a \<Rightarrow> real) \<Rightarrow> (nat \<Rightarrow> real) \<Rightarrow> 'a list \<Rightarrow> int \<Rightarrow> 'a list res" where
  "gumbel_top_k prob draw stats keep_count =
     (if int (length stats) \<le> keep_count then Inr stats
      else
        res_bind (map_res (\<lambda>(i, stat). res_bind (gumbel_key (prob stat) (draw i)) (\<lambda>k. Inr (k, stat)))
                    (enumerate 0 stats))
          (\<lambda>keys. Inr (map snd (slice_to keep_count (sort_desc fst keys)))))"

definition weighted_sample :: "(nat \<Rightarrow> real) \<Rightarrow> image_stat list \<Rightarrow> int \<Rightarrow> image_stat list res" where
  "weighted_sample draw stats keep_count = gumbel_top_k is_probability draw stats keep_count"

definition mark_selected :: "image_stat list \<Rightarrow> image_stat list \<Rightarrow> (image_stat \<times> bool) list" where
  "mark_selected image_stats selected =
     map (\<lambda>stat. (stat, is_item_id stat \<in> set (map is_item_id selected))) image_stats"

subsection \<open>Splitting the work\<close>

definition py_int_str :: "string \<Rightarrow> int res" where
  "py_int_str s = py_int (PStr s)"

text \<open>\<open>allocate_samples\<close>: counts given per model, or the total split evenly.\<close>

definition allocate_samples :: "string list \<Rightarrow> string option \<Rightarrow> int \<Rightarrow> int list res" where
  "allocate_samples models samples_per_model total_samples =
     (let spec = (case samples_per_model of Some t \<Rightarrow> t | None \<Rightarrow> []) in
      if spec \<noteq> [] then
        res_bind (map_res py_int_str (parse_csv_list spec)) (\<lambda>counts.
          if length counts \<noteq> length models then Inl ValueError else Inr counts)
      else if models = [] then Inl ZeroDivisionError
      else
        let base = total_samples div int (length models); extra = total_samples mod int (length models)
        in Inr (map (\<lambda>i. if int i < extra then base + 1 else base) [0 ..< length models]))"

text \<open>
  Saved generations are reused only when they hold every sample index of every item once.
  \<open>seen\<close> is the set of indices recorded per item.
\<close>

fun check_samples ::
  "string \<Rightarrow> string \<Rightarrow> int \<Rightarrow> (string, int list) dict \<Rightarrow> sample_result list \<Rightarrow> (string, int list) dict option" where
  "check_samples run_model_name reward_mode n seen [] = Some seen"
| "check_samples run_model_name reward_mode n seen (s # ss) =
     (if sr_model_name s \<noteq> run_model_name \<or> sr_reward_mode s \<noteq> reward_mode then None
      else case dget seen (sr_item_id s) of
        None \<Rightarrow> None
      | Some idxs \<Rightarrow>
          if \<not> (0 \<le> sr_sample_index s \<and> sr_sample_index s < n) then None
          else if sr_sample_index s \<in> set idxs then None
          else check_samples run_model_name reward_mode n
                 (dset (sr_item_id s) (sr_sample_index s # idxs) seen) ss)"

definition load_complete_model_samples ::
  "sample_result list option \<Rightarrow> string \<Rightarrow> dataset_item list \<Rightarrow> int \<Rightarrow> string \<Rightarrow> sample_result list option" where
  "load_complete_model_samples saved run_model_name items samples_per_image reward_mode =
     (case saved of
        None \<Rightarrow> None
      | Some ss \<Rightarrow>
          if int (length ss) \<noteq> int (length items) * samples_per_image then None
          else
            case check_samples run_model_name reward_mode samples_per_image
                   (fold (\<lambda>item d. dset (di_item_id item) [] d) items []) ss of
              None \<Rightarrow> None
            | Some seen \<Rightarrow>
                if list_ex (\<lambda>p. int (length (snd p)) \<noteq> samples_per_image) seen then None else Some ss)"

subsection \<open>The cache of the geocoder\<close>

interpretation opencage: memo_cache "\<lambda>w. True" "\<lambda>w k. dget (ow_cache w) k" opencage_set strip
  by unfold_locales (simp_all add: opencage_set_def)

lemma wrapper_geocode_fresh:
  assumes "strip a \<noteq> []" and "dget (ow_cache w) (strip a) = None"
  shows "\<exists>p. wrapper_geocode E a w = (Some p, opencage_set a p (w\<lparr>ow_cursor := ow_cursor w + 1\<rparr>))
    \<and> dget (ow_cache (snd (wrapper_geocode E a w))) (strip a) = Some p"
  using assms by (simp add: wrapper_geocode_def opencage_get_def opencage_set_def Let_def)

lemma wrapper_geocode_hit:
  assumes "strip a \<noteq> []" and "dget (ow_cache w) (strip a) = Some p"
    and "pget p ''status'' \<noteq> PStr ''error'' \<or> \<not> we_retry_error_cache E"
  shows "wrapper_geocode E a w = (Some p, w)"
  using assms by (auto simp: wrapper_geocode_def opencage_get_def)

subsection \<open>The judge\<close>

definition judge_spec ::
  "(pyval \<Rightarrow> string) \<Rightarrow> (string \<Rightarrow> string) \<Rightarrow> string \<Rightarrow> string \<Rightarrow> sample_result \<Rightarrow> sample_result" where
  "judge_spec rp f tmpl md_text s =
     (if has_prompt s then judged rp s (f (sample_prompt tmpl md_text s)) else mark_missing s)"

lemma skipped_mark_missing: "\<not> skipped s \<Longrightarrow> skipped (mark_missing s) \<longleftrightarrow> \<not> has_prompt s"
  by (auto simp: mark_missing_def has_prompt_def skipped_def failed_sample_def)

lemma mark_missing_ready: "has_prompt s \<Longrightarrow> mark_missing s = s"
  by (simp add: mark_missing_def has_prompt_def)

lemma assign_responses_map:
  assumes "\<forall>s \<in> set batch. \<not> skipped s"
  shows "assign_responses rp (map mark_missing batch)
      (map f (map (sample_prompt tmpl md_text) (filter has_prompt batch)))
    = Inr (map (judge_spec rp f tmpl md_text) batch)"
  using assms
proof (induction batch)
  case (Cons s batch)
  then have IH: "assign_responses rp (map mark_missing batch)
      (map f (map (sample_prompt tmpl md_text) (filter has_prompt batch)))
    = Inr (map (judge_spec rp f tmpl md_text) batch)" by simp
  show ?case
    using IH skipped_mark_missing [of s] Cons.prems
    by (cases "has_prompt s") (simp_all add: judge_spec_def mark_missing_ready)
qed simp

lemma judge_batch_map:
  assumes "\<forall>s \<in> set batch. \<not> skipped s"
  shows "judge_batch rp (map f) tmpl md_text batch = Inr (map (judge_spec rp f tmpl md_text) batch)"
proof (cases "filter has_prompt batch = []")
  case True
  then have "map mark_missing batch = map (judge_spec rp f tmpl md_text) batch"
    by (auto simp: judge_spec_def filter_empty_conv)
  then show ?thesis using True by (simp add: judge_batch_def)
next
  case False
  then show ?thesis using assign_responses_map [OF assms] by (simp add: judge_batch_def)
qed

lemma map_res_Inr: "(\<forall>x \<in> set xs. f x = Inr (g x)) \<Longrightarrow> map_res f xs = Inr (map g xs)"
  by (induction xs) auto

lemma in_chunk: "x \<in> set c \<Longrightarrow> c \<in> set (chunks n xs) \<Longrightarrow> 0 < n \<Longrightarrow> x \<in> set xs"
  using concat_chunks [of n xs] by (metis UN_I set_concat)

subsection \<open>Probabilities\<close>

lemma normalise_values_sum:
  assumes "values \<noteq> []"
  shows "sum_list (normalise_values values) = 1"
proof (cases "sum_list values \<le> 0")
  case True
  have "max 1 (length values) = length values" using assms by (cases "values") auto
  then show ?thesis using True assms by (simp add: normalise_values_def sum_list_replicate)
next
  case False
  have "sum_list (map (\<lambda>v. v / c) xs) = sum_list xs / c" for c :: real and xs
    by (induction xs) (simp_all add: add_divide_distrib)
  then show ?thesis using False by (simp add: normalise_values_def)
qed

lemma normalise_values_range:
  assumes "\<forall>v \<in> set values. 0 \<le> v" and "p \<in> set (normalise_values values)"
  shows "0 \<le> p \<and> p \<le> 1"
proof (cases "sum_list values \<le> 0")
  case True
  then show ?thesis using assms(2) by (auto simp: normalise_values_def)
next
  case False
  then obtain v where "v \<in> set values" and p: "p = v / sum_list values"
    using assms(2) by (auto simp: normalise_values_def)
  moreover have "v \<le> sum_list values"
    using assms(1) \<open>v \<in> set values\<close> by (intro member_le_sum_list) auto
  ultimately show ?thesis using False assms(1) by (auto simp: divide_le_eq_1)
qed

lemma length_normalise_values [simp]: "length (normalise_values values) = length values"
  by (simp add: normalise_values_def)

lemma mid_score_ok:
  assumes "0 < pa_epsilon A"
  shows "\<exists>x. mid_score A m sd mu = Inr x \<and> 0 < x \<and> x \<le> 1"
proof -
  have d: "0 < 2 * (pa_tau_mu A * sd)\<^sup>2 + pa_epsilon A"
    using assms by (simp add: add_nonneg_pos)
  then have "- ((mu - m)\<^sup>2) / (2 * (pa_tau_mu A * sd)\<^sup>2 + pa_epsilon A) \<le> 0"
    by (simp add: divide_nonpos_pos)
  with d show ?thesis by (simp add: mid_score_def py_div_def)
qed

lemma var_score_ok:
  assumes "0 < pa_epsilon A" and "0 \<le> pa_tau_sigma A" and "0 \<le> sd" and "0 \<le> sigma"
  shows "\<exists>x. var_score A sd sigma = Inr x \<and> 0 \<le> x \<and> x < 1"
proof -
  have d: "0 < pa_tau_sigma A * sd + pa_epsilon A"
    using assms by (simp add: add_nonneg_pos)
  then have "- sigma / (pa_tau_sigma A * sd + pa_epsilon A) \<le> 0"
    using assms(4) by (simp add: divide_nonpos_pos)
  with d show ?thesis by (simp add: var_score_def py_div_def)
qed

lemma or_zero_pstd_nonneg: "0 \<le> or_zero pstd xs"
  by (simp add: or_zero_def pstd_nonneg)

lemma map_res_exists:
  assumes "\<forall>x \<in> set xs. \<exists>y. f x = Inr y \<and> P y"
  shows "\<exists>ys. map_res f xs = Inr ys \<and> length ys = length xs \<and> (\<forall>y \<in> set ys. P y)"
  using assms
proof (induction xs)
  case (Cons x xs)
  then obtain y ys where "f x = Inr y" "P y" "map_res f xs = Inr ys" "length ys = length xs" "\<forall>y \<in> set ys. P y"
    by auto
  then show ?case by simp
qed simp

lemma image_values_ok:
  assumes "0 < pa_epsilon A" and "0 \<le> pa_tau_sigma A"
    and "\<And>xs. length (argsort xs) = length xs" and "\<And>xs. length (argsort_nat xs) = length xs"
  shows "\<exists>scores. image_values A argsort_nat argsort rewards = Inr scores \<and> length scores = length rewards
    \<and> (\<forall>(m, v) \<in> set scores. 0 < m \<and> m \<le> 1 \<and> 0 \<le> v)"
proof -
  let ?mus = "map (or_zero mean) rewards" and ?sigmas = "map (or_zero pstd) rewards"
  let ?m = "case pa_mid_target A of Some t \<Rightarrow> t | None \<Rightarrow> mean ?mus"
  let ?ranks = "percentile_ranks argsort_nat argsort ?sigmas"
  have ranks: "0 \<le> ?ranks ! i" if "i < length rewards" for i
    using that assms(3,4) by (simp add: percentile_ranks_def)
  have sig: "0 \<le> ?sigmas ! i" if "i < length rewards" for i
    using that by (simp add: or_zero_pstd_nonneg)
  have "\<forall>i \<in> set [0 ..< length rewards]. \<exists>p. res_bind (mid_score A ?m (pstd ?mus) (?mus ! i)) (\<lambda>s_mid.
           res_bind (if pa_percentile A then Inr (?ranks ! i) else var_score A (pstd ?sigmas) (?sigmas ! i)) (\<lambda>s_var.
             Inr (s_mid, s_var))) = Inr p \<and> (case p of (m, v) \<Rightarrow> 0 < m \<and> m \<le> 1 \<and> 0 \<le> v)"
  proof
    fix i assume "i \<in> set [0 ..< length rewards]"
    then have i: "i < length rewards" by simp
    obtain x where x: "mid_score A ?m (pstd ?mus) (?mus ! i) = Inr x" "0 < x" "x \<le> 1"
      using mid_score_ok [OF assms(1)] by blast
    obtain y where y: "var_score A (pstd ?sigmas) (?sigmas ! i) = Inr y" "0 \<le> y"
      using var_score_ok [OF assms(1,2) pstd_nonneg sig [OF i]] by blast
    show "\<exists>p. res_bind (mid_score A ?m (pstd ?mus) (?mus ! i)) (\<lambda>s_mid.
           res_bind (if pa_percentile A then Inr (?ranks ! i) else var_score A (pstd ?sigmas) (?sigmas ! i)) (\<lambda>s_var.
             Inr (s_mid, s_var))) = Inr p \<and> (case p of (m, v) \<Rightarrow> 0 < m \<and> m \<le> 1 \<and> 0 \<le> v)"
      unfolding x y using x y ranks [OF i] by (cases "pa_percentile A") simp_all
  qed
  from map_res_exists [OF this] show ?thesis by (simp add: image_values_def Let_def)
qed

subsection \<open>Gumbel top-k\<close>

lemma gumbel_key_total: "\<exists>k. gumbel_key p u = Inr k"
proof -
  let ?u = "min (max u (1 / 10 ^ 12)) (1 - 1 / 10 ^ 12 :: real)"
  have u: "0 < ?u" "?u < 1" by (simp_all add: less_max_iff_disj min_less_iff_disj)
  then have "ln ?u < 0" by simp
  moreover have "\<not> max p (1 / 10 ^ 12 :: real) \<le> 0" by (simp add: not_le less_max_iff_disj)
  ultimately show ?thesis using u unfolding gumbel_key_def py_log_def Let_def by auto
qed

lemma slice_to_take: "0 \<le> k \<Longrightarrow> slice_to k xs = take (nat k) xs"
  by (simp add: slice_to_def)

lemma map_res_total:
  assumes "\<And>x. \<exists>y. f x = Inr y"
  shows "\<exists>ys. map_res f xs = Inr ys \<and> list_all2 (\<lambda>x y. f x = Inr y) xs ys"
proof (induction xs)
  case (Cons x xs)
  obtain y where "f x = Inr y" using assms by blast
  with Cons show ?case by auto
qed simp

lemma keyed_total:
  "\<exists>keys. map_res (\<lambda>(i, stat). res_bind (gumbel_key (prob stat) (draw i)) (\<lambda>k. Inr (k, stat)))
        (enumerate 0 stats) = Inr keys
     \<and> map snd keys = stats
     \<and> (\<forall>i < length stats. gumbel_key (prob (stats ! i)) (draw i) = Inr (fst (keys ! i)))"
proof -
  let ?f = "\<lambda>(i, stat). res_bind (gumbel_key (prob stat) (draw i)) (\<lambda>k. Inr (k, stat))"
  have "\<exists>y. ?f p = Inr y" for p
    using gumbel_key_total [of "prob (snd p)" "draw (fst p)"] by (cases p) auto
  then obtain keys where keys: "map_res ?f (enumerate 0 stats) = Inr keys"
    and all: "list_all2 (\<lambda>p y. ?f p = Inr y) (enumerate 0 stats) keys"
    using map_res_total [of ?f "enumerate 0 stats"] by blast
  have len: "length keys = length stats" using list_all2_lengthD [OF all] by simp
  have at: "gumbel_key (prob (stats ! i)) (draw i) = Inr (fst (keys ! i)) \<and> snd (keys ! i) = stats ! i"
    if i: "i < length stats" for i
  proof -
    have "?f (enumerate 0 stats ! i) = Inr (keys ! i)"
      using list_all2_nthD [OF all] i by simp
    then obtain x where "gumbel_key (prob (stats ! i)) (draw i) = Inr x" "keys ! i = (x, stats ! i)"
      using i by (auto simp: nth_enumerate_eq res_bind_eq_Inr_iff)
    then show ?thesis by simp
  qed
  have "map snd keys = stats" by (rule nth_equalityI) (use len at in simp_all)
  then show ?thesis using keys at by blast
qed

text \<open>An entry whose key is the Gumbel key of an image.\<close>

definition keyed_entry :: "('a \<Rightarrow> real) \<Rightarrow> (nat \<Rightarrow> real) \<Rightarrow> 'a list \<Rightarrow> real \<times> 'a \<Rightarrow> bool" where
  "keyed_entry prob draw stats p =
     list_ex (\<lambda>i. snd p = stats ! i \<and> gumbel_key (prob (stats ! i)) (draw i) = Inr (fst p))
       [0 ..< length stats]"

lemma gumbel_top_k_parts:
  assumes "0 \<le> k"
  shows "\<exists>kept dropped. gumbel_top_k prob draw stats k = Inr (map snd kept)
    \<and> length kept = min (nat k) (length stats)
    \<and> mset stats = mset (map snd (kept @ dropped))
    \<and> (\<forall>p \<in> set kept. \<forall>q \<in> set dropped. fst q \<le> fst p)
    \<and> (\<forall>p \<in> set (kept @ dropped). keyed_entry prob draw stats p)"
proof -
  obtain keys where keys: "map_res (\<lambda>(i, stat). res_bind (gumbel_key (prob stat) (draw i)) (\<lambda>k. Inr (k, stat)))
        (enumerate 0 stats) = Inr keys"
    and snd: "map snd keys = stats"
    and fst: "\<forall>i < length stats. gumbel_key (prob (stats ! i)) (draw i) = Inr (fst (keys ! i))"
    using keyed_total by blast
  have len: "length keys = length stats" using snd by (metis length_map)
  have entry: "keyed_entry prob draw stats p" if p: "p \<in> set keys" for p
  proof -
    obtain i where "i < length stats" "p = keys ! i" using p len by (auto simp: in_set_conv_nth)
    moreover have "map snd keys ! i = stats ! i" by (simp only: snd)
    ultimately show ?thesis using fst len by (auto simp: keyed_entry_def list_ex_iff)
  qed
  show ?thesis
  proof (cases "int (length stats) \<le> k")
    case True
    then have "gumbel_top_k prob draw stats k = Inr (map snd keys)" by (simp add: gumbel_top_k_def snd)
    moreover have "length keys = min (nat k) (length stats)" using True len assms by (simp add: nat_le_iff)
    ultimately show ?thesis
      using entry by (intro exI [of _ keys] exI [of _ "[]"]) (simp add: snd)
  next
    case False
    let ?s = "sort_desc fst keys"
    let ?kept = "take (nat k) ?s" and ?dropped = "drop (nat k) ?s"
    have "gumbel_top_k prob draw stats k = Inr (map snd ?kept)"
      using False assms by (simp add: gumbel_top_k_def keys slice_to_take)
    moreover have "mset stats = mset (map snd (?kept @ ?dropped))"
    proof -
      have "mset (map snd ?s) = mset (map snd keys)" by (simp only: mset_map mset_sort_desc)
      then show ?thesis by (simp only: append_take_drop_id snd)
    qed
    moreover have "length ?kept = min (nat k) (length stats)" using len by simp
    moreover have "\<forall>p \<in> set ?kept. \<forall>q \<in> set ?dropped. fst q \<le> fst p"
      by (intro ballI) (rule sort_desc_take_max)
    moreover have "keyed_entry prob draw stats p" if "p \<in> set (?kept @ ?dropped)" for p
      using that by (intro entry) (simp only: append_take_drop_id set_sort_desc)
    ultimately show ?thesis
      by (intro exI [of _ ?kept] exI [of _ ?dropped] conjI ballI) simp_all
  qed
qed

definition gumbel_pick :: "('a \<Rightarrow> real) \<Rightarrow> (nat \<Rightarrow> real) \<Rightarrow> 'a list \<Rightarrow> nat \<Rightarrow> 'a list" where
  "gumbel_pick prob draw stats k = (case gumbel_top_k prob draw stats (int k) of Inr sel \<Rightarrow> sel | Inl _ \<Rightarrow> [])"

interpretation weighted: chooser "gumbel_pick prob draw" for prob :: "'a \<Rightarrow> real" and draw
proof
  fix xs :: "'a list" and k
  obtain kept dropped :: "(real \<times> 'a) list"
    where "gumbel_top_k prob draw xs (int k) = Inr (map snd kept)"
      and "length kept = min (nat (int k)) (length xs)" and "mset xs = mset (map snd (kept @ dropped))"
    using gumbel_top_k_parts [OF of_nat_0_le_iff, of prob draw xs k] by blast
  then show "mset (gumbel_pick prob draw xs k) \<subseteq># mset xs"
    and "length (gumbel_pick prob draw xs k) = min k (length xs)" by (simp_all add: gumbel_pick_def)
qed

subsection \<open>Even allocation\<close>

lemma sum_list_if_less: "sum_list (map (\<lambda>i. if int i < e then b + 1 else b) [0 ..< n])
    = int n * b + min (max e 0) (int n)"
  by (induction n) (auto simp: algebra_simps min_def max_def)

lemma even_split_sum:
  assumes "0 < n"
  shows "sum_list (map (\<lambda>i. if int i < t mod int n then t div int n + 1 else t div int n) [0 ..< n]) = t"
proof -
  have m: "0 \<le> t mod int n" "t mod int n < int n" using assms by simp_all
  have "int n * (t div int n) + t mod int n = t" by simp
  then show ?thesis using m by (simp add: sum_list_if_less)
qed

subsection \<open>Saved generations\<close>

lemma check_samples_Some:
  assumes "check_samples run mode n seen ss = Some seen'"
  shows "(\<forall>s \<in> set ss. sr_model_name s = run \<and> sr_reward_mode s = mode \<and> dget seen (sr_item_id s) \<noteq> None
            \<and> 0 \<le> sr_sample_index s \<and> sr_sample_index s < n)
    \<and> (\<forall>i idxs. dget seen i = Some idxs \<longrightarrow>
          dget seen' i = Some (rev (map sr_sample_index (filter (\<lambda>s. sr_item_id s = i) ss)) @ idxs)
          \<and> (distinct idxs \<longrightarrow> distinct (rev (map sr_sample_index (filter (\<lambda>s. sr_item_id s = i) ss)) @ idxs)))"
  using assms
proof (induction ss arbitrary: seen)
  case Nil
  then show ?case by simp
next
  case (Cons s ss)
  then obtain idxs0 where d: "dget seen (sr_item_id s) = Some idxs0"
    and ok: "sr_model_name s = run" "sr_reward_mode s = mode" "0 \<le> sr_sample_index s" "sr_sample_index s < n"
      "sr_sample_index s \<notin> set idxs0"
    and r: "check_samples run mode n (dset (sr_item_id s) (sr_sample_index s # idxs0) seen) ss = Some seen'"
    by (auto split: if_splits option.splits)
  note IH = Cons.IH [OF r]
  have 1: "\<forall>s \<in> set (s # ss). sr_model_name s = run \<and> sr_reward_mode s = mode \<and> dget seen (sr_item_id s) \<noteq> None
            \<and> 0 \<le> sr_sample_index s \<and> sr_sample_index s < n"
    using IH d ok by (auto split: if_splits)
  have 2: "dget seen' i = Some (rev (map sr_sample_index (filter (\<lambda>s. sr_item_id s = i) (s # ss))) @ idxs)
          \<and> (distinct idxs \<longrightarrow> distinct (rev (map sr_sample_index (filter (\<lambda>s. sr_item_id s = i) (s # ss))) @ idxs))"
    if i: "dget seen i = Some idxs" for i idxs
  proof (cases "sr_item_id s = i")
    case True
    then have "idxs = idxs0" using d i by simp
    then show ?thesis
      using IH [THEN conjunct2, rule_format, of i "sr_sample_index s # idxs0"] True ok(5) by auto
  next
    case False
    then show ?thesis using IH [THEN conjunct2, rule_format, of i idxs] i by simp
  qed
  show ?case using 1 2 by blast
qed

lemma dget_init_seen:
  "dget (fold (\<lambda>item d. dset (di_item_id item) [] d) items d0) i =
     (if i \<in> di_item_id ` set items then Some [] else dget d0 i)"
  by (induction items arbitrary: d0) auto

lemma full_index_list:
  assumes "distinct xs" and "\<forall>x \<in> set xs. 0 \<le> x \<and> x < n" and "int (length xs) = n" and "0 \<le> j" and "j < n"
  shows "count_list xs j = 1"
proof -
  have "card (set xs) = card {0 ..< n}" using assms(1,3) by (simp add: distinct_card)
  then have "set xs = {0 ..< n}" using assms(2) by (intro card_subset_eq) auto
  then have "j \<in> set xs" using assms(4,5) by simp
  then show ?thesis using assms(1) by (simp add: distinct_count_atmost_1 flip: count_mset)
qed


subsection \<open>Properties\<close>

text \<open>
  C19. The sampling probabilities are a distribution: for a positive epsilon the computation
  never raises, gives one entry per image, mid scores in (0,1] and non-negative values, every
  probability lies in [0,1] and they add up to 1.
\<close>

theorem probabilities_are_distribution:
  assumes "items \<noteq> []" and "\<forall>s \<in> set samples. sr_item_id s \<in> di_item_id ` set items"
    and "0 < pa_epsilon A" and "0 \<le> pa_tau_sigma A"
    and "\<And>xs. length (argsort xs) = length xs" and "\<And>xs. length (argsort_nat xs) = length xs"
  shows "\<exists>stats. compute_probabilities A argsort_nat argsort items samples = Inr stats
    \<and> map is_item_id stats = map di_item_id items
    \<and> sum_list (map is_probability stats) = 1
    \<and> (\<forall>st \<in> set stats. 0 \<le> is_probability st \<and> is_probability st \<le> 1
          \<and> 0 < is_s_mid st \<and> is_s_mid st \<le> 1 \<and> 0 \<le> is_value st)"
proof -
  let ?rewards = "map (item_rewards samples) items"
  obtain scores where scores: "image_values A argsort_nat argsort ?rewards = Inr scores"
    and len: "length scores = length items"
    and ok: "\<forall>(m, v) \<in> set scores. 0 < m \<and> m \<le> 1 \<and> 0 \<le> v"
    using image_values_ok [OF assms(3,4), where argsort = argsort and argsort_nat = argsort_nat and rewards = ?rewards]
      assms(5,6) by auto
  let ?vals = "map (\<lambda>(m, v). m * v) scores"
  let ?probs = "normalise_values ?vals"
  let ?mk = "\<lambda>(item, rs, (s_mid, s_var), p).
               \<lparr>is_item_id = di_item_id item, is_num_samples = length rs, is_reward_mean = or_zero mean rs,
                is_reward_std = or_zero pstd rs, is_reward_min = or_zero list_min rs,
                is_reward_max = or_zero list_max rs, is_sample_rewards = rs, is_s_mid = s_mid, is_s_var = s_var,
                is_value = s_mid * s_var, is_probability = p\<rparr>"
  let ?rows = "zip items (zip ?rewards (zip scores ?probs))"
  have known: "list_all (\<lambda>s. sr_item_id s \<in> set (map di_item_id items)) samples"
    using assms(2) by (simp add: list_all_iff)
  have res: "compute_probabilities A argsort_nat argsort items samples = Inr (map ?mk ?rows)"
    using known by (simp add: compute_probabilities_def scores Let_def)
  have nonneg: "\<forall>v \<in> set ?vals. 0 \<le> v" using ok by (auto intro: mult_nonneg_nonneg)
  have "map is_item_id (map ?mk ?rows) = map (di_item_id \<circ> fst) ?rows" by (simp add: o_def case_prod_beta)
  also have "\<dots> = map di_item_id (map fst ?rows)" by simp
  also have "map fst ?rows = items" using len by (simp only: map_fst_zip length_zip length_map length_normalise_values)
  finally have ids: "map is_item_id (map ?mk ?rows) = map di_item_id items" .
  have "map is_probability (map ?mk ?rows) = map (snd \<circ> snd \<circ> snd) ?rows" by (simp add: o_def case_prod_beta)
  also have "\<dots> = map snd (map snd (map snd ?rows))" by simp
  also have "\<dots> = ?probs" using len by simp
  finally have probs: "map is_probability (map ?mk ?rows) = ?probs" .
  have one: "sum_list (map is_probability (map ?mk ?rows)) = 1"
    unfolding probs using assms(1) len by (intro normalise_values_sum) auto
  have "0 \<le> is_probability (?mk r) \<and> is_probability (?mk r) \<le> 1
          \<and> 0 < is_s_mid (?mk r) \<and> is_s_mid (?mk r) \<le> 1 \<and> 0 \<le> is_value (?mk r)" if r: "r \<in> set ?rows" for r
  proof -
    obtain item rs m v p where req: "r = (item, rs, (m, v), p)" by (cases r) auto
    have "(rs, (m, v), p) \<in> set (zip ?rewards (zip scores ?probs))"
      using r unfolding req by (rule set_zip_rightD)
    then have *: "((m, v), p) \<in> set (zip scores ?probs)" by (rule set_zip_rightD)
    have "(m, v) \<in> set scores" and "p \<in> set ?probs"
      using set_zip_leftD [OF *] set_zip_rightD [OF *] .
    then show ?thesis using ok normalise_values_range [OF nonneg] by (auto simp: req)
  qed
  then show ?thesis using res ids one by (intro exI [of _ "map ?mk ?rows"]) auto
qed

lemma probabilities_are_distribution_witness:
  "\<exists>stats. compute_probabilities \<lparr>pa_mid_target = None, pa_tau_mu = 1, pa_tau_sigma = 1, pa_epsilon = 1, pa_percentile = False\<rparr>
       (\<lambda>xs. [0 ..< length xs]) (\<lambda>xs. [0 ..< length xs])
       [\<lparr>di_item_id = ''a'', di_image_path = ''a.jpg'', di_relative_path = ''a.jpg'', di_gt_text = PStr ''Paris'',
         di_gt_latitude = None, di_gt_longitude = None\<rparr>] [] = Inr stats
     \<and> sum_list (map is_probability stats) = 1"
  using probabilities_are_distribution
    [of "[\<lparr>di_item_id = ''a'', di_image_path = ''a.jpg'', di_relative_path = ''a.jpg'', di_gt_text = PStr ''Paris'',
         di_gt_latitude = None, di_gt_longitude = None\<rparr>]" "[]"
        "\<lparr>pa_mid_target = None, pa_tau_mu = 1, pa_tau_sigma = 1, pa_epsilon = 1, pa_percentile = False\<rparr>"
        "\<lambda>xs. [0 ..< length xs]" "\<lambda>xs. [0 ..< length xs]"]
  by auto

text \<open>
  C26. Weighted sampling without replacement: for every sequence of draws the sampler returns
  exactly \<open>min keep_count n\<close> of the images, each as often as it is present, and an image is
  kept in preference to another only when its Gumbel key is at least as large.
\<close>

theorem weighted_sample_keeps_top_keys:
  assumes "0 \<le> keep_count"
  shows "\<exists>kept dropped. weighted_sample draw stats keep_count = Inr (map snd kept)
    \<and> length kept = min (nat keep_count) (length stats)
    \<and> mset stats = mset (map snd (kept @ dropped))
    \<and> (\<forall>p \<in> set kept. \<forall>q \<in> set dropped. fst q \<le> fst p)
    \<and> (\<forall>p \<in> set (kept @ dropped). keyed_entry is_probability draw stats p)"
  unfolding weighted_sample_def using assms by (rule gumbel_top_k_parts)

definition stat_with :: "string \<Rightarrow> real \<Rightarrow> image_stat" where
  "stat_with item p =
     \<lparr>is_item_id = item, is_num_samples = 1, is_reward_mean = 1 / 2, is_reward_std = 0, is_reward_min = 1 / 2,
      is_reward_max = 1 / 2, is_sample_rewards = [1 / 2], is_s_mid = 1, is_s_var = 0, is_value = p, is_probability = p\<rparr>"

lemma weighted_sample_keeps_top_keys_witness:
  "\<exists>kept dropped :: (real \<times> image_stat) list. weighted_sample (\<lambda>i. 1 / 2) [stat_with ''a'' (1 / 4), stat_with ''b'' (3 / 4)] 1 = Inr (map snd kept)
     \<and> length kept = 1 \<and> length dropped = 1 \<and> (\<forall>p \<in> set kept. \<forall>q \<in> set dropped. fst q \<le> fst p)"
proof -
  let ?stats = "[stat_with ''a'' (1 / 4), stat_with ''b'' (3 / 4)]"
  obtain kept dropped :: "(real \<times> image_stat) list" where k: "weighted_sample (\<lambda>i. 1 / 2) ?stats 1 = Inr (map snd kept)"
      "length kept = min (nat 1) (length ?stats)" "mset ?stats = mset (map snd (kept @ dropped))"
      "\<forall>p \<in> set kept. \<forall>q \<in> set dropped. fst q \<le> fst p"
    using weighted_sample_keeps_top_keys [of 1 "\<lambda>i. 1 / 2" ?stats, OF zero_le_one] by blast
  have "length dropped = 1" using arg_cong [OF k(3), of size] k(2) by simp
  then show ?thesis using k by auto
qed

text \<open>
  Without counts per model the samples are split evenly: the shares add up to the total
  and no two models differ by more than one sample.
\<close>

theorem allocate_samples_even:
  assumes "models \<noteq> []" and "samples_per_model = None"
  shows "\<exists>counts. allocate_samples models samples_per_model total_samples = Inr counts
    \<and> length counts = length models \<and> sum_list counts = total_samples
    \<and> (\<forall>c \<in> set counts. \<forall>c' \<in> set counts. \<bar>c - c'\<bar> \<le> 1)"
  using assms even_split_sum [of "length models" total_samples]
  by (auto simp: allocate_samples_def Let_def)

lemma allocate_samples_even_witness:
  "\<exists>counts. allocate_samples [''a'', ''b'', ''c''] None 8 = Inr counts \<and> sum_list counts = 8"
  using allocate_samples_even [of "[''a'', ''b'', ''c'']" None 8] by auto

lemma dget_in_set: "dget d k = Some v \<Longrightarrow> (k, v) \<in> set d"
  by (induction d) (auto split: if_splits)

text \<open>
  Saved generations are reused only when complete: what is loaded is the saved list, and
  it holds every sample index below \<open>samples_per_image\<close> exactly once for every item.
\<close>

theorem loaded_samples_complete:
  assumes "load_complete_model_samples saved run items n mode = Some ss"
    and "item \<in> set items" and "0 \<le> j" and "j < n"
  shows "saved = Some ss
    \<and> count_list (map sr_sample_index (filter (\<lambda>s. sr_item_id s = di_item_id item) ss)) j = 1
    \<and> list_all (\<lambda>s. sr_model_name s = run \<and> sr_reward_mode s = mode) ss"
proof -
  let ?init = "fold (\<lambda>item d. dset (di_item_id item) [] d) items []"
  let ?idxs = "map sr_sample_index (filter (\<lambda>s. sr_item_id s = di_item_id item) ss)"
  obtain seen where saved: "saved = Some ss" and check: "check_samples run mode n ?init ss = Some seen"
    and full: "\<not> list_ex (\<lambda>p. int (length (snd p)) \<noteq> n) seen"
    using assms(1) by (auto simp: load_complete_model_samples_def split: option.splits if_splits)
  note parts = check_samples_Some [OF check]
  have "dget ?init (di_item_id item) = Some []" using assms(2) by (simp add: dget_init_seen)
  note parts' = parts [THEN conjunct2, THEN spec, THEN spec, THEN mp, OF this]
  have seen: "dget seen (di_item_id item) = Some (rev ?idxs)" "distinct (rev ?idxs)"
    using parts' by simp_all
  have "int (length (rev ?idxs)) = n" using full dget_in_set [OF seen(1)] by (auto simp: list_ex_iff)
  moreover have "\<forall>x \<in> set (rev ?idxs). 0 \<le> x \<and> x < n" using parts by auto
  ultimately have "count_list (rev ?idxs) j = 1" using seen(2) assms(3,4) by (intro full_index_list)
  then show ?thesis using saved parts by (simp add: list_all_iff)
qed

text \<open>
  C36. Judging does not depend on how the samples are batched: with an engine that answers
  every prompt on its own, each sample gets the verdict of its own prompt.
\<close>

theorem llm_judge_is_pointwise:
  assumes "0 < batch_size" and "\<forall>s \<in> set samples. \<not> skipped s"
  shows "run_llm_judge rp (map f) tmpl md_text batch_size samples
    = Inr (map (judge_spec rp f tmpl md_text) samples)"
proof -
  have "map_res (judge_batch rp (map f) tmpl md_text) (chunks batch_size samples)
      = Inr (map (map (judge_spec rp f tmpl md_text)) (chunks batch_size samples))"
  proof (rule map_res_Inr, rule ballI)
    fix c assume "c \<in> set (chunks batch_size samples)"
    then have "\<forall>s \<in> set c. \<not> skipped s" using in_chunk [OF _ _ assms(1)] assms(2) by (meson)
    then show "judge_batch rp (map f) tmpl md_text c = Inr (map (judge_spec rp f tmpl md_text) c)"
      by (rule judge_batch_map)
  qed
  then have "run_llm_judge rp (map f) tmpl md_text batch_size samples
      = Inr (map (judge_spec rp f tmpl md_text) (concat (chunks batch_size samples)))"
    by (simp add: run_llm_judge_def map_concat)
  then show ?thesis using assms(1) by (simp only: concat_chunks)
qed

text \<open>
  The geocoder asks for an address once: after a lookup, a lookup of any text with the same
  stripped form returns the stored answer and leaves the cache and the proxy rotation alone.
\<close>

theorem wrapper_geocode_once:
  assumes "strip a \<noteq> []" and "strip b = strip a" and "\<not> we_retry_error_cache E"
    and "wrapper_geocode E a w = (r, w1)"
  shows "wrapper_geocode E b w1 = (r, w1)"
proof (cases "dget (ow_cache w) (strip a)")
  case None
  then obtain p where "wrapper_geocode E a w = (Some p, opencage_set a p (w\<lparr>ow_cursor := ow_cursor w + 1\<rparr>))"
    "dget (ow_cache (snd (wrapper_geocode E a w))) (strip a) = Some p"
    using wrapper_geocode_fresh [OF assms(1)] by blast
  then show ?thesis using assms wrapper_geocode_hit [of b w1 p E] by simp
next
  case (Some p)
  then show ?thesis
    using assms wrapper_geocode_hit [of a w p E] wrapper_geocode_hit [of b w p E] by simp
qed

definition sample0 :: "string \<Rightarrow> nat \<Rightarrow> string \<Rightarrow> sample_result" where
  "sample0 item_id k raw =
     new_sample ''m'' ''llm_judge_score''
       (\<lparr>di_item_id = item_id, di_image_path = ''a.jpg'', di_relative_path = ''a.jpg'', di_gt_text = PStr ''Paris'',
         di_gt_latitude = None, di_gt_longitude = None\<rparr>, k) raw"

lemma loaded_samples_complete_witness:
  "count_list (map sr_sample_index (filter (\<lambda>s. sr_item_id s = ''a'') [sample0 ''a'' 1 [], sample0 ''a'' 0 []])) 0 = 1"
  using loaded_samples_complete
    [of "Some [sample0 ''a'' 1 [], sample0 ''a'' 0 []]" "''m''"
        "[\<lparr>di_item_id = ''a'', di_image_path = ''a.jpg'', di_relative_path = ''a.jpg'', di_gt_text = PStr ''Paris'',
         di_gt_latitude = None, di_gt_longitude = None\<rparr>]" 2 "''llm_judge_score''"
        "[sample0 ''a'' 1 [], sample0 ''a'' 0 []]" _ 0]
  by (simp add: load_complete_model_samples_def sample0_def new_sample_def)

lemma llm_judge_is_pointwise_witness:
  "run_llm_judge (\<lambda>v. []) (map (\<lambda>p. p)) ''p'' ''m'' 1 [sample0 ''a'' 0 ''x'', sample0 ''b'' 0 ''y'']
     = Inr (map (judge_spec (\<lambda>v. []) (\<lambda>p. p) ''p'' ''m'') [sample0 ''a'' 0 ''x'', sample0 ''b'' 0 ''y''])"
  by (rule llm_judge_is_pointwise) (simp_all add: sample0_def new_sample_def skipped_def pget_def)

lemma wrapper_geocode_once_witness:
  "wrapper_geocode \<lparr>we_keys = [''k''], we_retry_error_cache = False, we_net = \<lambda>n k a. Request_failed ''down'', we_exn = \<lambda>e. []\<rparr>
      '' Rome'' (snd (wrapper_geocode \<lparr>we_keys = [''k''], we_retry_error_cache = False,
                   we_net = \<lambda>n k a. Request_failed ''down'', we_exn = \<lambda>e. []\<rparr> ''Rome '' \<lparr>ow_cache = [], ow_cursor = 0\<rparr>))
   = wrapper_geocode \<lparr>we_keys = [''k''], we_retry_error_cache = False, we_net = \<lambda>n k a. Request_failed ''down'', we_exn = \<lambda>e. []\<rparr>
      ''Rome '' \<lparr>ow_cache = [], ow_cursor = 0\<rparr>"
proof -
  have "strip ''Rome '' \<noteq> []" and "strip '' Rome'' = strip ''Rome ''" by code_simp+
  from wrapper_geocode_once [OF this, where w = "\<lparr>ow_cache = [], ow_cursor = 0\<rparr>"
      and E = "\<lparr>we_keys = [''k''], we_retry_error_cache = False, we_net = \<lambda>n k a. Request_failed ''down'', we_exn = \<lambda>e. []\<rparr>"]
  show ?thesis by (metis prod.collapse wrapper_env.select_convs(2))
qed

end
