(* ===== verification/GroupSel.thy ===== *)
theory GroupSel
  imports SelStats PyPath
begin

text \<open>
  The group selector (\<open>data_clean/group_geo_selector.py\<close>): the groups named by a selection,
  the candidate rows of every group, and the choice of a bounded number of images per group
  by reward spread or by weighted sampling.  A row is a dictionary; \<open>rp\<close> prints a float, a
  list or a dictionary, \<open>draw\<close> gives the random numbers of a group.
\<close>

subsection \<open>Groups\<close>

definition level_suffixes :: "string list" where
  "level_suffixes = [''1'', ''2'', ''3'']"

definition filter_selected_rows :: "pydict list \<Rightarrow> pydict list" where
  "filter_selected_rows rows = filter (\<lambda>row. pget row ''selected'' = PBool True) rows"

definition path_stem :: "string \<Rightarrow> string" where
  "path_stem path_str =
     (let n = path_name path_str in if CHR ''.'' \<in> set n then fst (rsplit1 (CHR ''.'') n) else n)"

definition split_group_stem :: "string \<Rightarrow> string \<times> string" where
  "split_group_stem stem =
     (if CHR ''_'' \<notin> set stem then (stem, stem)
      else let (base, suffix) = rsplit1 (CHR ''_'') stem
           in if suffix \<in> set level_suffixes then (stem, base) else (stem, stem))"

definition infer_row_stem :: "pydict \<Rightarrow> bool \<Rightarrow> string res" where
  "infer_row_stem row selection_mode =
     (case first_text row [''relative_path'', ''image_path'', ''image_name'', ''filename'', ''file_name'', ''filepath''] of
        Some v \<Rightarrow> Inr (path_stem v)
      | None \<Rightarrow>
          (case pget row ''item_id'' of
             PStr i \<Rightarrow>
               if i = [] then Inl ValueError
               else Inr (if selection_mode \<and> CHR ''_'' \<in> set i then fst (rsplit1 (CHR ''_'') i) else i)
           | _ \<Rightarrow> Inl ValueError))"

definition infer_image_path :: "pydict \<Rightarrow> string res" where
  "infer_image_path row =
     (case first_text row [''image_path'', ''relative_path'', ''image_name'', ''filename'', ''file_name'', ''filepath''] of
        Some v \<Rightarrow> Inr v | None \<Rightarrow> Inl ValueError)"

text \<open>The base names of the selected groups in order of appearance, cut at \<open>max_samples\<close>.\<close>

fun collect_target_groups :: "int option \<Rightarrow> string list \<Rightarrow> pydict list \<Rightarrow> string list res" where
  "collect_target_groups max_samples groups [] = Inr groups"
| "collect_target_groups max_samples groups (row # rows) =
     res_bind (infer_row_stem row True) (\<lambda>stem.
       let base = snd (split_group_stem stem) in
       if base \<in> set groups then collect_target_groups max_samples groups rows
       else if (case max_samples of Some m \<Rightarrow> m \<le> int (length (groups @ [base])) | None \<Rightarrow> False)
       then Inr (groups @ [base])
       else collect_target_groups max_samples (groups @ [base]) rows)"

text \<open>
  The candidates.  \<open>original\<close> makes an image reference absolute, \<open>resolve\<close> gives the target
  of the link made below the candidate directory for a relative path.
\<close>

definition candidate_row ::
  "(string \<Rightarrow> string) \<Rightarrow> (string \<Rightarrow> string) \<Rightarrow> string list \<Rightarrow> pydict \<Rightarrow> (string \<times> pydict) option res" where
  "candidate_row original resolve target_groups row =
     res_bind (infer_image_path row) (\<lambda>image_ref.
       let original_path = original image_ref;
           member_stem = path_stem image_ref;
           group_base = snd (split_group_stem member_stem)
       in if group_base \<notin> set target_groups then Inr None
          else
            let relative_path = path_join group_base (member_stem @ path_suffix original_path)
            in Inr (Some (group_base,
                 dset ''group_member_stem'' (PStr member_stem)
                  (dset ''group_id'' (PStr group_base)
                   (dset ''source_image_path'' (PStr original_path)
                    (dset ''relative_path'' (PStr relative_path)
                     (dset ''image_path'' (PStr (resolve relative_path)) row)))))))"

definition singleton_row :: "string \<Rightarrow> pydict \<Rightarrow> pydict" where
  "singleton_row group_id row =
     (let src = (case pget row ''source_image_path'' of PStr s \<Rightarrow> s | _ \<Rightarrow> [])
      in dset ''selected'' (PBool True)
          (dset ''selection_reason'' (PStr ''singleton_group_no_inference'')
           (dset ''group_size'' (PInt 1)
            (dset ''relative_path'' (PStr (path_join group_id (path_name src)))
             (dset ''image_path'' (PStr src) row)))))"

record prep_stats =
  ps_selection_rows :: nat
  ps_selection_groups :: nat
  ps_max_samples :: "int option"
  ps_annotation_rows :: nat
  ps_matched_rows :: nat
  ps_matched_groups :: nat
  ps_multi_item_rows :: nat
  ps_multi_item_groups :: nat
  ps_singleton_groups :: nat
  ps_group_sizes :: "(string \<times> nat) list"

definition is_single :: "string \<times> (string \<times> pydict) list \<Rightarrow> bool" where
  "is_single g = (length (snd g) = 1)"

definition prepare_group_candidates ::
  "(string \<Rightarrow> string) \<Rightarrow> (string \<Rightarrow> string) \<Rightarrow> pydict list \<Rightarrow> pydict list \<Rightarrow> int option
     \<Rightarrow> (pydict list \<times> prep_stats \<times> pydict list) res" where
  "prepare_group_candidates original resolve selection_rows annotation_rows max_samples =
     res_bind (collect_target_groups max_samples [] selection_rows) (\<lambda>target_group_list.
     res_bind (map_res (candidate_row original resolve target_group_list) annotation_rows) (\<lambda>cands.
       let grouped = group_by fst (List.map_filter id cands);
           singles = filter is_single grouped;
           multis = filter (\<lambda>g. \<not> is_single g) grouped;
           filtered_rows = concat (map (map snd \<circ> snd) multis);
           singleton_rows = map (\<lambda>g. singleton_row (fst g) (snd (hd (snd g)))) singles
       in Inr (filtered_rows,
            \<lparr>ps_selection_rows = length selection_rows, ps_selection_groups = length target_group_list,
             ps_max_samples = max_samples, ps_annotation_rows = length annotation_rows,
             ps_matched_rows = sum_list (map (length \<circ> snd) grouped), ps_matched_groups = length grouped,
             ps_multi_item_rows = length filtered_rows, ps_multi_item_groups = length multis,
             ps_singleton_groups = length singles,
             ps_group_sizes = sort_key fst (map (\<lambda>g. (fst g, length (snd g))) grouped)\<rparr>,
            singleton_rows)))"

subsection \<open>Probabilities and choice inside a group\<close>

definition normalise_weights :: "real list \<Rightarrow> real list" where
  "normalise_weights weights =
     (if sum_list weights \<le> 0 then replicate (length weights) (1 / real (max 1 (length weights)))
      else map (\<lambda>w. w / sum_list weights) weights)"

definition score_row :: "real \<Rightarrow> real \<times> real \<Rightarrow> pydict \<Rightarrow> pydict" where
  "score_row spread p row =
     (let (sigma, prob) = p
      in dset ''group_probability_formula'' (PStr ''(reward_std + epsilon) / sum(reward_std + epsilon)'')
          (dset ''probability'' (PFloat prob)
           (dset ''value'' (PFloat prob)
            (dset ''s_var'' (PFloat sigma)
             (dset ''s_mid'' PNone
              (dset ''group_reward_std_std'' (PFloat spread)
               (dset ''group_reward_mean_std'' PNone
                (dset ''group_reward_mean_center'' PNone row))))))))"

definition compute_group_probabilities :: "real \<Rightarrow> pydict list \<Rightarrow> pydict list res" where
  "compute_group_probabilities epsilon rows =
     res_bind (map_res (\<lambda>row. row_float row ''reward_std'') rows) (\<lambda>reward_stds.
       let probs = normalise_weights (map (\<lambda>sd. sd + epsilon) reward_stds)
       in Inr (map2 (score_row (pstd reward_stds)) (zip reward_stds probs) rows))"

definition row_prob :: "pydict \<Rightarrow> real" where
  "row_prob row = (case py_float (pget row ''probability'') of Some p \<Rightarrow> p | None \<Rightarrow> 0)"

definition group_weighted_sample :: "(nat \<Rightarrow> real) \<Rightarrow> pydict list \<Rightarrow> int \<Rightarrow> pydict list res" where
  "group_weighted_sample draw rows keep_count = gumbel_top_k row_prob draw rows keep_count"

definition topk_key :: "(pyval \<Rightarrow> string) \<Rightarrow> pydict \<Rightarrow> (real \<times> real \<times> string \<times> string) res" where
  "topk_key rp row =
     res_bind (row_float row ''reward_std'') (\<lambda>sd.
     res_bind (res_bind (row_item row ''probability'') float_res) (\<lambda>p.
       Inr (sd, p, row_str rp row ''relative_path'', row_str rp row ''item_id'')))"

definition topk_select :: "(pyval \<Rightarrow> string) \<Rightarrow> pydict list \<Rightarrow> int \<Rightarrow> pydict list res" where
  "topk_select rp rows keep_count =
     res_bind (map_res (topk_key rp) rows) (\<lambda>ks.
       Inr (map snd (slice_to keep_count (sort_desc fst (zip ks rows)))))"

subsection \<open>The selection\<close>

definition infer_group_from_relative_path :: "string \<Rightarrow> string \<times> string" where
  "infer_group_from_relative_path relative_path =
     (let member_stem = pure_stem relative_path;
          parent = path_parent_name relative_path
      in (if parent \<noteq> [] then parent else snd (split_group_stem member_stem), member_stem))"

definition enrich :: "(pyval \<Rightarrow> string) \<Rightarrow> pydict \<Rightarrow> string \<times> pydict" where
  "enrich rp row =
     (let (group_id, member_stem) = infer_group_from_relative_path (row_str rp row ''relative_path'')
      in (group_id, dset ''group_member_stem'' (PStr member_stem) (dset ''group_id'' (PStr group_id) row)))"

text \<open>
  One group: the rows it contributes and how many were picked.  The images picked are
  recognised by the text of their item id.
\<close>

definition select_group ::
  "(pyval \<Rightarrow> string) \<Rightarrow> (nat \<Rightarrow> real) \<Rightarrow> int \<Rightarrow> bool \<Rightarrow> real \<Rightarrow> pydict list \<Rightarrow> (pydict list \<times> nat) res" where
  "select_group rp draw keep_count weighted epsilon rows =
     (if length rows = 1 then
        Inr (map (\<lambda>row. dset ''selected'' (PBool True) (dset ''selection_reason'' (PStr ''singleton_group'')
                          (dset ''group_size'' (PInt 1) row))) rows, 1)
      else
        let group_keep_count = min keep_count (int (length rows)) in
        res_bind (compute_group_probabilities epsilon rows) (\<lambda>scored_rows.
        res_bind (if weighted then group_weighted_sample draw scored_rows group_keep_count
                  else topk_select rp scored_rows group_keep_count) (\<lambda>picked.
        res_bind (map_res (\<lambda>row. row_item row ''item_id'') picked) (\<lambda>picked_items.
        res_bind (map_res (\<lambda>row. row_item row ''item_id'') scored_rows) (\<lambda>items.
          let picked_ids = map (py_str rp) picked_items
          in Inr (map2 (\<lambda>item row.
                   dset ''selected'' (PBool (py_str rp item \<in> set picked_ids))
                    (dset ''selection_reason'' (PStr (if weighted then ''group_weighted'' else ''group_topk''))
                     (dset ''group_size'' (PInt (int (length rows))) row))) items scored_rows,
                 length picked))))))"

record group_summary =
  gs_matched_groups :: nat
  gs_total_rows :: nat
  gs_singleton_groups :: nat
  gs_multi_item_groups :: nat
  gs_selected_rows :: nat

definition row_order :: "(pyval \<Rightarrow> string) \<Rightarrow> pydict \<Rightarrow> string \<times> string" where
  "row_order rp row = (row_str rp row ''group_id'', row_str rp row ''relative_path'')"

definition row_selected :: "pydict \<Rightarrow> bool" where
  "row_selected row = truthy (pget row ''selected'')"

definition group_select ::
  "(pyval \<Rightarrow> string) \<Rightarrow> (nat \<Rightarrow> real) \<Rightarrow> int \<Rightarrow> bool \<Rightarrow> real \<Rightarrow> pydict list
     \<Rightarrow> (pydict list \<times> group_summary \<times> pydict list) res" where
  "group_select rp draw keep_count weighted epsilon image_stats =
     (let grouped = sort_key fst (group_by fst (map (enrich rp) image_stats)) in
      res_bind (map_res (\<lambda>g. select_group rp draw keep_count weighted epsilon (map snd (snd g))) grouped) (\<lambda>parts.
        let rows = concat (map fst parts)
        in Inr (sort_key (row_order rp) rows,
             \<lparr>gs_matched_groups = length grouped, gs_total_rows = length image_stats,
              gs_singleton_groups = length (filter (\<lambda>g. length (snd g) = 1) grouped),
              gs_multi_item_groups = length (filter (\<lambda>g. length (snd g) \<noteq> 1) grouped),
              gs_selected_rows = sum_list (map snd parts)\<rparr>,
             sort_key (row_order rp) (filter row_selected rows))))"

text \<open>The command line's entry point after the files are read; the singletons join at the end.\<close>

definition run_group_selector ::
  "(string \<Rightarrow> string) \<Rightarrow> (string \<Rightarrow> string) \<Rightarrow> (pydict list \<Rightarrow> pydict list res) \<Rightarrow> (pyval \<Rightarrow> string) \<Rightarrow> (nat \<Rightarrow> real)
     \<Rightarrow> int \<Rightarrow> bool \<Rightarrow> real \<Rightarrow> int option \<Rightarrow> pydict list \<Rightarrow> pydict list
     \<Rightarrow> (pydict list \<times> group_summary \<times> pydict list) res" where
  "run_group_selector original resolve geo_selector rp draw keep_count weighted epsilon max_samples
       selection_rows annotation_rows =
     (if keep_count < 1 then Inl ValueError
      else if filter_selected_rows selection_rows = [] then Inl ValueError
      else
        res_bind (prepare_group_candidates original resolve (filter_selected_rows selection_rows) annotation_rows
                    max_samples) (\<lambda>(candidates, prep, singleton_rows).
        res_bind (if 0 < ps_multi_item_rows prep then geo_selector candidates else Inr []) (\<lambda>image_stats.
        res_bind (group_select rp draw keep_count weighted epsilon image_stats) (\<lambda>(output_rows, s, selected_rows).
          Inr (sort_key (row_order rp) (output_rows @ singleton_rows),
               s\<lparr>gs_matched_groups := gs_matched_groups s + ps_singleton_groups prep,
                 gs_total_rows := gs_total_rows s + length singleton_rows,
                 gs_singleton_groups := gs_singleton_groups s + ps_singleton_groups prep,
                 gs_selected_rows := gs_selected_rows s + length singleton_rows\<rparr>,
               sort_key (row_order rp) (selected_rows @ singleton_rows))))))"

subsection \<open>Picked rows\<close>

context chooser begin

lemma pick_count:
  assumes "distinct (map f xs)"
  shows "length (filter (\<lambda>x. f x \<in> f ` set (pick xs k)) xs) = min k (length xs)"
proof -
  have inj: "inj_on f (set xs)" and d: "distinct xs" using assms by (simp_all add: distinct_map)
  have "filter (\<lambda>x. f x \<in> f ` set (pick xs k)) xs = filter (\<lambda>x. x \<in> set (pick xs k)) xs"
    using inj pick_set [of xs k] by (intro filter_cong) (auto simp: inj_on_def)
  moreover have "set (filter (\<lambda>x. x \<in> set (pick xs k)) xs) = set (pick xs k)" using pick_set [of xs k] by auto
  then have "length (filter (\<lambda>x. x \<in> set (pick xs k)) xs) = length (pick xs k)"
    using d pick_distinct [OF d] by (metis distinct_card distinct_filter)
  ultimately show ?thesis by (simp add: pick_length)
qed

end

interpretation ranked: chooser "\<lambda>xs k. take k (sort_desc f xs)" for f :: "'a \<Rightarrow> 'k::linorder"
proof
  fix xs :: "'a list" and k
  have "mset (take k (sort_desc f xs)) + mset (drop k (sort_desc f xs)) = mset (sort_desc f xs)"
    by (simp only: mset_append [symmetric] append_take_drop_id)
  then show "mset (take k (sort_desc f xs)) \<subseteq># mset xs" by (metis mset_sort_desc mset_subset_eq_add_left)
  show "length (take k (sort_desc f xs)) = min k (length xs)" by simp
qed

lemma map_res_projr: "map_res f xs = Inr ys \<Longrightarrow> ys = map (\<lambda>x. projr (f x)) xs \<and> (\<forall>x \<in> set xs. \<exists>y. f x = Inr y)"
  by (induction xs arbitrary: ys) (auto simp: res_bind_eq_Inr_iff)

lemma length_map_res: "map_res f xs = Inr ys \<Longrightarrow> length ys = length xs"
  using map_res_projr [of f xs ys] by auto

lemma map_res_row_item:
  "map_res (\<lambda>row. row_item row k) rows = Inr vs \<Longrightarrow> map (py_str rp) vs = map (\<lambda>row. row_str rp row k) rows"
proof (induction rows arbitrary: vs)
  case (Cons row rows)
  then obtain v vs' where v: "row_item row k = Inr v" and "map_res (\<lambda>row. row_item row k) rows = Inr vs'"
    "vs = v # vs'" by (auto simp: res_bind_eq_Inr_iff)
  moreover have "py_str rp v = row_str rp row k"
    using v by (auto simp: row_item_def row_str_def dget_or_def split: option.splits)
  ultimately show ?case using Cons.IH by simp
qed simp

lemma topk_select_parts:
  assumes "topk_select rp rows k = Inr picked" and "0 \<le> k"
  shows "\<exists>ks :: (real \<times> real \<times> string \<times> string) list. length ks = length rows \<and> picked = map snd (take (nat k) (sort_desc fst (zip ks rows)))"
proof -
  obtain ks where ks: "map_res (topk_key rp) rows = Inr ks"
    and "picked = map snd (take (nat k) (sort_desc fst (zip ks rows)))"
    using assms by (auto simp: topk_select_def res_bind_eq_Inr_iff slice_to_take)
  then show ?thesis using length_map_res [OF ks] by blast
qed

definition row_id :: "(pyval \<Rightarrow> string) \<Rightarrow> pydict \<Rightarrow> string" where
  "row_id rp row = row_str rp row ''item_id''"

text \<open>Whatever the selector, with distinct ids exactly the rows picked are marked.\<close>

lemma gumbel_pick_eq: "0 \<le> k \<Longrightarrow> gumbel_top_k prob draw xs k = Inr (gumbel_pick prob draw xs (nat k))"
  using gumbel_top_k_parts [of k prob draw xs] by (auto simp: gumbel_pick_def)

lemma picked_count:
  assumes "(if weighted then group_weighted_sample draw rows k else topk_select rp rows k) = Inr picked"
    and "0 \<le> k" and "distinct (map (row_id rp) rows)"
  shows "length picked = min (nat k) (length rows)
    \<and> length (filter (\<lambda>row. row_id rp row \<in> row_id rp ` set picked) rows) = min (nat k) (length rows)"
proof (cases weighted)
  case True
  then have "picked = gumbel_pick row_prob draw rows (nat k)"
    using assms(1,2) by (simp add: group_weighted_sample_def gumbel_pick_eq)
  then show ?thesis using weighted.pick_count [OF assms(3)] by (simp add: weighted.pick_length)
next
  case False
  then obtain ks :: "(real \<times> real \<times> string \<times> string) list" where len: "length ks = length rows"
    and picked: "picked = map snd (take (nat k) (sort_desc fst (zip ks rows)))"
    using topk_select_parts assms(1,2) by (metis (full_types))
  let ?z = "zip ks rows" and ?f = "\<lambda>p. row_id rp (snd p)"
  have "map ?f ?z = map (row_id rp) (map snd ?z)" by (simp only: map_map o_def)
  also have "map snd ?z = rows" using len by simp
  finally have z: "map ?f ?z = map (row_id rp) rows" .
  have "length (filter (\<lambda>p. ?f p \<in> ?f ` set (take (nat k) (sort_desc fst ?z))) ?z) = min (nat k) (length ?z)"
    using assms(3) by (intro ranked.pick_count) (simp only: z)
  moreover have "?f ` set (take (nat k) (sort_desc fst ?z)) = row_id rp ` set picked"
    by (simp only: picked set_map image_image)
  moreover have "length (filter (\<lambda>row. row_id rp row \<in> S) (map snd ?z)) = length (filter (\<lambda>p. ?f p \<in> S) ?z)" for S
    by (simp only: filter_map length_map o_def)
  ultimately show ?thesis using len by (simp add: picked)
qed

lemma compute_group_probabilities_rows:
  assumes "compute_group_probabilities epsilon rows = Inr scored"
  shows "length scored = length rows
    \<and> (k \<notin> set [''group_probability_formula'', ''probability'', ''value'', ''s_var'', ''s_mid'', ''group_reward_std_std'',
                  ''group_reward_mean_std'', ''group_reward_mean_center'']
        \<longrightarrow> map (\<lambda>row. row_str rp row k) scored = map (\<lambda>row. row_str rp row k) rows)"
proof -
  obtain sds where sds: "map_res (\<lambda>row. row_float row ''reward_std'') rows = Inr sds"
    and scored: "scored = map2 (score_row (pstd sds)) (zip sds (normalise_weights (map (\<lambda>sd. sd + epsilon) sds))) rows"
    using assms by (auto simp: compute_group_probabilities_def res_bind_eq_Inr_iff Let_def)
  let ?z = "zip (zip sds (normalise_weights (map (\<lambda>sd. sd + epsilon) sds))) rows"
  have len: "length sds = length rows" using length_map_res [OF sds] .
  have "map snd ?z = rows" using len by (simp add: normalise_weights_def)
  moreover have "map (\<lambda>row. row_str rp row k) scored = map (\<lambda>p. row_str rp (snd p) k) ?z"
    if "k \<notin> set [''group_probability_formula'', ''probability'', ''value'', ''s_var'', ''s_mid'', ''group_reward_std_std'',
                  ''group_reward_mean_std'', ''group_reward_mean_center'']"
    using that by (auto simp: scored score_row_def split: prod.splits)
  moreover have "map (\<lambda>p. row_str rp (snd p) k) ?z = map (\<lambda>row. row_str rp row k) (map snd ?z)" by simp
  moreover have "length scored = length rows" using len by (simp add: scored normalise_weights_def)
  ultimately show ?thesis by metis
qed

definition marked :: "(pyval \<Rightarrow> string) \<Rightarrow> bool \<Rightarrow> nat \<Rightarrow> string set \<Rightarrow> pydict \<Rightarrow> pydict" where
  "marked rp weighted n ids row =
     dset ''selected'' (PBool (row_id rp row \<in> ids))
       (dset ''selection_reason'' (PStr (if weighted then ''group_weighted'' else ''group_topk''))
         (dset ''group_size'' (PInt (int n)) row))"

lemma select_group_rows:
  assumes "select_group rp draw keep_count weighted epsilon rows = Inr (out, n)"
    and "1 \<le> keep_count" and "distinct (map (row_id rp) rows)"
  shows "n = min (nat keep_count) (length rows) \<and> length (filter row_selected out) = n
    \<and> map (row_id rp) out = map (row_id rp) rows
    \<and> map (\<lambda>row. row_str rp row ''group_id'') out = map (\<lambda>row. row_str rp row ''group_id'') rows"
proof (cases "length rows = 1")
  case True
  then have "n = 1" "out = map (\<lambda>row. dset ''selected'' (PBool True) (dset ''selection_reason'' (PStr ''singleton_group'')
                          (dset ''group_size'' (PInt 1) row))) rows"
    using assms(1) by (auto simp: select_group_def)
  then show ?thesis using True assms(2) by (auto simp: row_id_def row_selected_def filter_id_conv length_Suc_conv)
next
  case False
  let ?k = "min keep_count (int (length rows))"
  obtain scored picked picked_items items where scored: "compute_group_probabilities epsilon rows = Inr scored"
    and picked: "(if weighted then group_weighted_sample draw scored ?k else topk_select rp scored ?k) = Inr picked"
    and pi: "map_res (\<lambda>row. row_item row ''item_id'') picked = Inr picked_items"
    and i: "map_res (\<lambda>row. row_item row ''item_id'') scored = Inr items"
    and n: "n = length picked"
    and out: "out = map2 (\<lambda>item row.
                   dset ''selected'' (PBool (py_str rp item \<in> set (map (py_str rp) picked_items)))
                    (dset ''selection_reason'' (PStr (if weighted then ''group_weighted'' else ''group_topk''))
                     (dset ''group_size'' (PInt (int (length rows))) row))) items scored"
    using assms(1) False by (auto simp: select_group_def res_bind_eq_Inr_iff Let_def)
  note ids = map_res_row_item [OF pi, of rp] map_res_row_item [OF i, of rp]
  have set_ids: "set (map (py_str rp) picked_items) = row_id rp ` set picked"
    unfolding ids(1) by (simp add: row_id_def)
  have len: "length items = length scored" "length scored = length rows"
    using length_map_res [OF i] compute_group_probabilities_rows [OF scored] by simp_all
  have out': "out = map (marked rp weighted (length rows) (row_id rp ` set picked)) scored"
  proof (rule nth_equalityI)
    show "length out = length (map (marked rp weighted (length rows) (row_id rp ` set picked)) scored)"
      using len by (simp add: out)
    fix j assume "j < length out"
    then have j: "j < length scored" "j < length items" using len by (simp_all add: out)
    then have "py_str rp (items ! j) = row_id rp (scored ! j)"
      using ids(2) by (metis nth_map row_id_def)
    then show "out ! j = map (marked rp weighted (length rows) (row_id rp ` set picked)) scored ! j"
      using j by (simp only: out set_ids nth_map nth_zip length_zip min_less_iff_conj prod.case marked_def)
  qed
  have same: "map (row_id rp) scored = map (row_id rp) rows"
    "map (\<lambda>row. row_str rp row ''group_id'') scored = map (\<lambda>row. row_str rp row ''group_id'') rows"
    using compute_group_probabilities_rows [OF scored, of "''item_id''" rp]
      compute_group_probabilities_rows [OF scored, of "''group_id''" rp] by (simp_all add: row_id_def [abs_def])
  have count: "length picked = min (nat keep_count) (length rows)"
    "length (filter (\<lambda>row. row_id rp row \<in> row_id rp ` set picked) scored) = min (nat keep_count) (length rows)"
    using picked_count [OF picked] assms(2,3) same(1) len by (auto simp: min_def nat_le_iff split: if_splits)
  have "row_selected (marked rp weighted (length rows) S row) \<longleftrightarrow> row_id rp row \<in> S" for S row
    by (simp add: marked_def row_selected_def)
  then have "length (filter row_selected out) = min (nat keep_count) (length rows)"
    using count(2) by (simp add: out' filter_map o_def)
  moreover have "map (row_id rp) out = map (row_id rp) scored"
    "map (\<lambda>row. row_str rp row ''group_id'') out = map (\<lambda>row. row_str rp row ''group_id'') scored"
    by (simp_all add: out' marked_def row_id_def)
  ultimately show ?thesis using n count(1) same by simp
qed

lemma enrich_fst: "row_str rp (snd (enrich rp row)) ''group_id'' = fst (enrich rp row)"
  by (simp add: enrich_def case_prod_beta)

lemma enrich_id: "row_id rp (snd (enrich rp row)) = row_id rp row"
  by (simp add: enrich_def row_id_def case_prod_beta)

lemma filter_concat_keyed:
  assumes "distinct (map fst gs)" and "\<And>p x. p \<in> set gs \<Longrightarrow> x \<in> set (F p) \<Longrightarrow> key x = fst p"
  shows "filter (\<lambda>x. key x = g) (concat (map F gs)) = (case map_of gs g of None \<Rightarrow> [] | Some v \<Rightarrow> F (g, v))"
  using assms
proof (induction gs)
  case (Cons p gs)
  then have IH: "filter (\<lambda>x. key x = g) (concat (map F gs)) = (case map_of gs g of None \<Rightarrow> [] | Some v \<Rightarrow> F (g, v))"
    by simp
  show ?case
  proof (cases "fst p = g")
    case True
    have "filter (\<lambda>x. key x = g) (F p) = F p" using Cons.prems(2) [of p] True by (intro filter_True) auto
    moreover have "map_of gs g = None" using Cons.prems(1) True by (auto simp: map_of_eq_None_iff)
    ultimately show ?thesis using IH True by (cases p) simp
  next
    case False
    have "filter (\<lambda>x. key x = g) (F p) = []" using Cons.prems(2) [of p] False by (intro filter_False) auto
    then show ?thesis using IH False by (cases p) simp
  qed
qed simp

lemma map_of_sort_key: "distinct (map fst xs) \<Longrightarrow> map_of (sort_key f xs) = map_of xs"
  by (rule map_of_inject_set [THEN iffD2]) (simp_all add: distinct_map)

lemma map_of_group_by:
  "map_of (group_by f xs) g = Some v \<Longrightarrow> v = filter (\<lambda>x. f x = g) xs"
  using dget_or_group_by [of f xs g] by (simp add: dget_or_def)

lemma map_of_group_by_None:
  "map_of (group_by f xs) g = None \<Longrightarrow> filter (\<lambda>x. f x = g) xs = []"
  using dget_or_group_by [of f xs g] by (simp add: dget_or_def)

lemma selected_in_group:
  assumes "select_group rp draw keep_count weighted epsilon (map snd v) = Inr (rows', n)" "1 \<le> keep_count"
    and v: "v = map (enrich rp) (filter (\<lambda>r. fst (enrich rp r) = g) stats)" and "distinct (map (row_id rp) stats)"
  shows "length (filter row_selected rows') = min (nat keep_count) (length v) \<and>
    (\<forall>x \<in> set rows'. row_str rp x ''group_id'' = g)"
proof -
  have "map (row_id rp) (map snd v) = map (row_id rp) (filter (\<lambda>r. fst (enrich rp r) = g) stats)"
    by (simp add: v enrich_id)
  then have d: "distinct (map (row_id rp) (map snd v))" using assms(4) by (metis distinct_map_filter)
  note R = select_group_rows [OF assms(1,2) d]
  have "map (\<lambda>row. row_str rp row ''group_id'') rows' = map (\<lambda>row. row_str rp row ''group_id'') (map snd v)"
    using R by blast
  also have "\<dots> = map (\<lambda>_. g) v" by (auto simp: v enrich_fst)
  finally have grp: "map (\<lambda>row. row_str rp row ''group_id'') rows' = map (\<lambda>_. g) v" .
  have "row_str rp x ''group_id'' = g" if "x \<in> set rows'" for x
  proof -
    have "row_str rp x ''group_id'' \<in> set (map (\<lambda>_. g) v)" unfolding grp [symmetric] using that by simp
    then show ?thesis by auto
  qed
  then show ?thesis using R by simp
qed

text \<open>
  C39. Group selection is bounded per group: with distinct image ids and a keep count of at
  least one, every group contributes exactly \<open>min keep_count size\<close> selected rows, and the list
  of selected rows is the selected part of the output.
\<close>

theorem group_select_per_group:
  assumes "group_select rp draw keep_count weighted epsilon image_stats = Inr (output, summary, selected)"
    and "1 \<le> keep_count" and "distinct (map (row_id rp) image_stats)"
  shows "selected = filter row_selected output
    \<and> (\<forall>g. length (filter (\<lambda>row. row_str rp row ''group_id'' = g) selected)
           = min (nat keep_count) (length (filter (\<lambda>row. fst (enrich rp row) = g) image_stats)))"
proof -
  let ?enriched = "map (enrich rp) image_stats"
  let ?grouped = "sort_key fst (group_by fst ?enriched)"
  let ?sel = "\<lambda>g. select_group rp draw keep_count weighted epsilon (map snd (snd g))"
  let ?F = "\<lambda>g. fst (projr (?sel g))"
  obtain parts where parts: "map_res ?sel ?grouped = Inr parts"
    and out: "output = sort_key (row_order rp) (concat (map fst parts))"
    and selected: "selected = sort_key (row_order rp) (filter row_selected (concat (map fst parts)))"
    using assms(1) by (auto simp: group_select_def res_bind_eq_Inr_iff Let_def)
  have rows: "concat (map fst parts) = concat (map ?F ?grouped)"
    and ok: "\<And>g. g \<in> set ?grouped \<Longrightarrow> \<exists>y. ?sel g = Inr y"
    using map_res_projr [OF parts] by (simp_all add: o_def)
  have dist: "distinct (map fst ?grouped)" using distinct_group_by [of fst ?enriched] by (simp add: distinct_map)
  have member: "v = filter (\<lambda>x. fst x = g) ?enriched" if "map_of ?grouped g = Some v" for g v
    using that distinct_group_by [of fst ?enriched] by (intro map_of_group_by) (simp add: map_of_sort_key)
  have group: "length (filter row_selected (?F (g, v))) = min (nat keep_count) (length v)
      \<and> (\<forall>x \<in> set (?F (g, v)). row_str rp x ''group_id'' = g)" if gv: "map_of ?grouped g = Some v" for g v
  proof -
    have "(g, v) \<in> set ?grouped" using map_of_SomeD [OF gv] .
    then obtain rows' n where sel: "?sel (g, v) = Inr (rows', n)" using ok [of "(g, v)"] by auto
    have v: "v = map (enrich rp) (filter (\<lambda>r. fst (enrich rp r) = g) image_stats)"
      using member [OF gv] by (simp add: filter_map o_def)
    have "select_group rp draw keep_count weighted epsilon (map snd v) = Inr (rows', n)" using sel by simp
    from selected_in_group [OF this assms(2) v assms(3)] show ?thesis using sel by simp
  qed
  have key: "row_str rp x ''group_id'' = fst p" if "p \<in> set ?grouped" "x \<in> set (?F p)" for p x
  proof -
    have "map_of ?grouped (fst p) = Some (snd p)" using that(1) dist by (simp add: map_of_is_SomeI)
    from group [OF this] show ?thesis using that(2) by simp
  qed
  have "length (filter (\<lambda>row. row_str rp row ''group_id'' = g) selected)
      = min (nat keep_count) (length (filter (\<lambda>row. fst (enrich rp row) = g) image_stats))" for g
  proof -
    have "length (filter (\<lambda>row. row_str rp row ''group_id'' = g) selected)
        = length (filter row_selected (filter (\<lambda>row. row_str rp row ''group_id'' = g) (concat (map ?F ?grouped))))"
      by (simp add: selected rows filter_sort conj_commute)
    also have "\<dots> = length (filter row_selected (case map_of ?grouped g of None \<Rightarrow> [] | Some v \<Rightarrow> ?F (g, v)))"
      by (simp only: filter_concat_keyed [OF dist key])
    also have "\<dots> = min (nat keep_count) (length (filter (\<lambda>x. fst x = g) ?enriched))"
    proof (cases "map_of ?grouped g")
      case None
      then have "filter (\<lambda>x. fst x = g) ?enriched = []"
        using distinct_group_by [of fst ?enriched] by (intro map_of_group_by_None) (simp add: map_of_sort_key)
      then show ?thesis using None by simp
    next
      case (Some v)
      then show ?thesis using group [OF Some] member [OF Some] by simp
    qed
    also have "length (filter (\<lambda>x. fst x = g) ?enriched) = length (filter (\<lambda>row. fst (enrich rp row) = g) image_stats)"
      by (simp add: filter_map o_def)
    finally show ?thesis .
  qed
  moreover have "selected = filter row_selected output" by (simp add: selected out filter_sort)
  ultimately show ?thesis by blast
qed

definition two_rows :: "pydict list" where
  "two_rows =
     [[(''item_id'', PStr ''a''), (''relative_path'', PStr ''g/a.jpg''), (''reward_std'', PFloat 1)],
      [(''item_id'', PStr ''b''), (''relative_path'', PStr ''g/b.jpg''), (''reward_std'', PFloat 2)]]"

lemma two_rows_grouped:
  "sort_key fst (group_by fst (map (enrich rp) two_rows)) =
     [(''g'', map (\<lambda>r. (''g'', dset ''group_member_stem'' (PStr (row_str rp r ''item_id''))
                                (dset ''group_id'' (PStr ''g'') r))) two_rows)]"
proof -
  have "infer_group_from_relative_path ''g/a.jpg'' = (''g'', ''a'')"
    and "infer_group_from_relative_path ''g/b.jpg'' = (''g'', ''b'')" by code_simp+
  then show ?thesis
    by (simp add: two_rows_def enrich_def row_str_def dget_or_def group_by_def dappend_def)
qed

lemma two_rows_select: "\<exists>rows summary selected. group_select rp draw 1 False 0 two_rows = Inr (rows, summary, selected)"
  unfolding group_select_def two_rows_grouped
  by (simp add: two_rows_def select_group_def compute_group_probabilities_def topk_select_def topk_key_def
      score_row_def row_float_def float_res_def dget_or_def row_item_def row_str_def sort_desc_def slice_to_def
      normalise_weights_def Let_def)

lemma group_select_per_group_witness:
  "\<exists>rows summary selected. group_select (\<lambda>v. []) (\<lambda>i. 0) 1 False 0 two_rows = Inr (rows, summary, selected)
     \<and> length (filter (\<lambda>row. row_str (\<lambda>v. []) row ''group_id'' = ''g'') selected)
         = min (nat 1) (length (filter (\<lambda>row. fst (enrich (\<lambda>v. []) row) = ''g'') two_rows))"
proof -
  obtain rows summary selected
    where s: "group_select (\<lambda>v. []) (\<lambda>i. 0) 1 False 0 two_rows = Inr (rows, summary, selected)"
    using two_rows_select by blast
  have "distinct (map (row_id (\<lambda>v. [])) two_rows)"
    by (simp add: two_rows_def row_id_def row_str_def dget_or_def)
  from group_select_per_group [OF s _ this] s show ?thesis by auto
qed

text \<open>
  The candidates are accounted for: every matched row is either inferred with its group or
  is the only row of a group kept without inference, and no more groups match than were selected.
\<close>

theorem candidates_accounted:
  assumes "prepare_group_candidates original resolve selection_rows annotation_rows max_samples
    = Inr (filtered_rows, st, singleton_rows)"
  shows "ps_matched_rows st = length filtered_rows + length singleton_rows
    \<and> ps_matched_groups st = ps_multi_item_groups st + ps_singleton_groups st
    \<and> ps_matched_groups st \<le> ps_selection_groups st \<and> ps_matched_rows st \<le> ps_annotation_rows st"
proof -
  obtain target cands where t: "collect_target_groups max_samples [] selection_rows = Inr target"
    and c: "map_res (candidate_row original resolve target) annotation_rows = Inr cands"
    using assms by (auto simp: prepare_group_candidates_def res_bind_eq_Inr_iff Let_def)
  let ?rows = "List.map_filter id cands"
  let ?g = "group_by fst ?rows"
  have parts: "sum_list (map (length \<circ> snd) gs)
      = length (concat (map (map snd \<circ> snd) (filter (\<lambda>g. \<not> is_single g) gs))) + length (filter is_single gs)"
    for gs :: "(string \<times> (string \<times> pydict) list) list"
    by (induction gs) (auto simp: is_single_def)
  have "length gs = length (filter (\<lambda>g. \<not> P g) gs) + length (filter P gs)" for P and gs :: "'x list"
    using sum_length_filter_compl [of P gs] by simp
  moreover have "fst ` set ?rows \<subseteq> set target"
  proof -
    have "fst p \<in> set target" if r: "row \<in> set annotation_rows" "candidate_row original resolve target row = Inr (Some p)" for row p
      using r(2) by (auto simp: candidate_row_def res_bind_eq_Inr_iff Let_def split: if_splits)
    moreover have "\<exists>row \<in> set annotation_rows. candidate_row original resolve target row = Inr (Some p)"
      if "p \<in> set ?rows" for p
    proof -
      have "Some p \<in> set cands" using that by (auto simp: List.map_filter_def)
      then show ?thesis using map_res_projr [OF c] by force
    qed
    ultimately show ?thesis by fastforce
  qed
  then have "card (fst ` set ?g) \<le> length target"
    by (metis card_length card_mono finite_set keys_group_by order_trans)
  then have "length ?g \<le> length target"
    using distinct_group_by [of fst ?rows] by (metis distinct_card length_map set_map)
  moreover have "sum_list (map (length \<circ> snd) ?g) \<le> length annotation_rows"
  proof -
    have "sum_list (map (length \<circ> snd) ?g) = length (concat (map snd ?g))" by (simp add: length_concat)
    also have "\<dots> = length ?rows" using mset_concat_group_by [of fst ?rows] by (metis size_mset)
    also have "\<dots> \<le> length cands" by (simp add: List.map_filter_def)
    finally show ?thesis using length_map_res [OF c] by simp
  qed
  ultimately show ?thesis
    using assms parts [of ?g] by (auto simp: prepare_group_candidates_def t c Let_def)
qed

lemma candidates_accounted_witness:
  "\<exists>filtered_rows st singleton_rows.
     prepare_group_candidates (\<lambda>p. p) (\<lambda>p. p) [[(''image_path'', PStr ''x_1.jpg'')]]
       [[(''image_path'', PStr ''x_1.jpg'')], [(''image_path'', PStr ''y.jpg'')]] None
       = Inr (filtered_rows, st, singleton_rows)
     \<and> ps_matched_rows st = length filtered_rows + length singleton_rows"
proof -
  have "infer_row_stem [(''image_path'', PStr ''x_1.jpg'')] True = Inr ''x_1''"
    and "infer_image_path [(''image_path'', PStr ''x_1.jpg'')] = Inr ''x_1.jpg''"
    and "infer_image_path [(''image_path'', PStr ''y.jpg'')] = Inr ''y.jpg''"
    and "snd (split_group_stem ''x_1'') = ''x''" and "snd (split_group_stem ''y'') = ''y''"
    and "path_stem ''x_1.jpg'' = ''x_1''" and "path_stem ''y.jpg'' = ''y''" by code_simp+
  then obtain f st s where p: "prepare_group_candidates (\<lambda>p. p) (\<lambda>p. p) [[(''image_path'', PStr ''x_1.jpg'')]]
       [[(''image_path'', PStr ''x_1.jpg'')], [(''image_path'', PStr ''y.jpg'')]] None = Inr (f, st, s)"
    by (simp add: prepare_group_candidates_def candidate_row_def Let_def)
  from candidates_accounted [OF p] p show ?thesis by blast
qed

text \<open>With \<open>max_samples\<close> at least one the target groups are distinct and at most that many.\<close>

lemma collect_target_groups_parts:
  assumes "collect_target_groups max_samples groups rows = Inr targets" and "distinct groups"
  shows "distinct targets \<and> (\<forall>m. max_samples = Some m \<longrightarrow> int (length groups) < m \<longrightarrow> int (length targets) \<le> m)"
  using assms
proof (induction max_samples groups rows rule: collect_target_groups.induct)
  case (2 max_samples groups row rows)
  then show ?case
    by (fastforce simp: res_bind_eq_Inr_iff Let_def split: if_splits option.splits)
qed auto

end
