(* ===== verification/Postprocess.thy ===== *)
theory Postprocess
  imports GroupSel
begin

text \<open>
  Re-scoring of a finished selection run (\<open>data_clean/postprocess_grpo_run.py\<close>): rank scores of
  mean, spread and maximum of the rewards, hard filters, the combined value, the new sampling
  probabilities, the new selection and the report that compares it with the original one.
\<close>

subsection \<open>Rank scores\<close>

text \<open>\<open>np.argsort(xs, kind="stable")\<close>.\<close>

definition argsort_stable :: "'a::linorder list \<Rightarrow> nat list" where
  "argsort_stable xs = map snd (sort_key fst (zip xs [0 ..< length xs]))"

definition stable_ranks :: "real list \<Rightarrow> real list" where
  "stable_ranks values =
     (if values = [] then []
      else map (\<lambda>k. real k / real (max 1 (length values - 1))) (argsort_stable (argsort_stable values)))"

subsection \<open>Scoring a row\<close>

record post_args =
  po_keep_count :: "int option"
  po_weighted :: bool
  po_product :: bool
  po_include_mean :: bool
  po_mean_weight :: real
  po_std_weight :: real
  po_max_weight :: real
  po_min_mean :: "real option"
  po_min_std :: "real option"
  po_min_max :: "real option"

definition below :: "real \<Rightarrow> real option \<Rightarrow> bool" where
  "below x limit = (case limit of None \<Rightarrow> False | Some l \<Rightarrow> x < l)"

definition passes_filter :: "post_args \<Rightarrow> real \<Rightarrow> real \<Rightarrow> real \<Rightarrow> bool" where
  "passes_filter A reward_mean reward_std reward_max =
     (\<not> below reward_mean (po_min_mean A) \<and> \<not> below reward_std (po_min_std A) \<and> \<not> below reward_max (po_min_max A))"

definition active_components :: "post_args \<Rightarrow> real \<Rightarrow> real \<Rightarrow> real \<Rightarrow> (string \<times> real \<times> real) list" where
  "active_components A mean_score std_score max_score =
     (if po_include_mean A then [(''mean_score'', mean_score, po_mean_weight A)] else [])
     @ [(''std_score'', std_score, po_std_weight A), (''max_score'', max_score, po_max_weight A)]"

text \<open>\<open>x ** w\<close> for a score, which is never negative.\<close>

definition py_pow :: "real \<Rightarrow> real \<Rightarrow> real res" where
  "py_pow x w =
     (if x = 0 then (if w = 0 then Inr 1 else if w < 0 then Inl ZeroDivisionError else Inr 0) else Inr (x powr w))"

definition combined_value :: "post_args \<Rightarrow> bool \<Rightarrow> (string \<times> real \<times> real) list \<Rightarrow> real res" where
  "combined_value A passes comps =
     (if \<not> passes then Inr 0
      else if po_product A then res_bind (map_res (\<lambda>(_, score, w). py_pow score w) comps) (\<lambda>ps. Inr (prod_list ps))
      else
        let total_weight = sum_list (map (\<lambda>(_, _, w). w) comps);
            weighted_sum = sum_list (map (\<lambda>(_, score, w). score * w) comps)
        in Inr (if 0 < total_weight then weighted_sum / total_weight else 0))"

definition score_formula :: "(pyval \<Rightarrow> string) \<Rightarrow> post_args \<Rightarrow> (string \<times> real \<times> real) list \<Rightarrow> string" where
  "score_formula rp A comps =
     (let part = (\<lambda>op. join '', '' (map (\<lambda>(name, _, w). name @ op @ py_str rp (PFloat w)) comps))
      in if po_product A then ''product('' @ part ''^'' @ '')'' else ''weighted_average('' @ part ''*'' @ '')'')"

definition hashable :: "pyval \<Rightarrow> bool" where
  "hashable v = (case v of PList _ \<Rightarrow> False | PDict _ \<Rightarrow> False | _ \<Rightarrow> True)"

definition hash_res :: "pyval \<Rightarrow> pyval res" where
  "hash_res v = (if hashable v then Inr v else Inl TypeError)"

definition set_member :: "pyval \<Rightarrow> pyval list \<Rightarrow> bool" where
  "set_member v vs = list_ex (py_eq v) vs"

definition uniq :: "pyval list \<Rightarrow> pyval list" where
  "uniq vs = fold (\<lambda>v acc. if set_member v acc then acc else acc @ [v]) vs []"

definition item_ids :: "pydict list \<Rightarrow> pyval list res" where
  "item_ids rows =
     res_bind (map_res (\<lambda>row. res_bind (row_item row ''item_id'') hash_res) rows) (\<lambda>ids. Inr (uniq ids))"

definition post_row ::
  "(pyval \<Rightarrow> string) \<Rightarrow> post_args \<Rightarrow> pyval list \<Rightarrow> pydict \<times> real \<times> real \<times> real \<Rightarrow> (real \<times> pydict) res" where
  "post_row rp A original_ids p =
     (let (row, mean_score, std_score, max_score) = p;
          comps = active_components A mean_score std_score max_score
      in res_bind (row_float row ''reward_mean'') (\<lambda>reward_mean.
         res_bind (row_float row ''reward_std'') (\<lambda>reward_std.
         res_bind (row_float row ''reward_max'') (\<lambda>reward_max.
         let passes = passes_filter A reward_mean reward_std reward_max in
         res_bind (combined_value A passes comps) (\<lambda>v.
         res_bind (hash_res (pget row ''item_id'')) (\<lambda>i.
           Inr (v,
             dset ''value'' (PFloat v)
              (dset ''s_var'' (PFloat std_score)
               (dset ''s_mid'' (PFloat mean_score)
                (dset ''score_filter_pass'' (PBool passes)
                 (dset ''max_score'' (PFloat max_score)
                  (dset ''std_score'' (PFloat std_score)
                   (dset ''mean_score'' (PFloat mean_score)
                    (dset ''score_formula_weights''
                       (PDict [(''mean_weight'', PFloat (po_mean_weight A)), (''std_weight'', PFloat (po_std_weight A)),
                               (''max_weight'', PFloat (po_max_weight A))])
                     (dset ''include_mean_score'' (PBool (po_include_mean A))
                      (dset ''combine_mode'' (PStr (if po_product A then ''product'' else ''sum''))
                       (dset ''score_formula'' (PStr (score_formula rp A comps))
                        (dset ''original_selected'' (PBool (set_member i original_ids))
                         (dset ''original_probability'' (pget row ''probability'')
                          (dset ''original_value'' (pget row ''value'')
                           (dset ''original_s_var'' (pget row ''s_var'')
                            (dset ''original_s_mid'' (pget row ''s_mid'') row))))))))))))))))))))))"

text \<open>The rows with their new values and probabilities.\<close>

definition post_probabilities ::
  "(pyval \<Rightarrow> string) \<Rightarrow> post_args \<Rightarrow> pyval list \<Rightarrow> pydict list \<Rightarrow> pydict list res" where
  "post_probabilities rp A original_ids image_stats =
     res_bind (map_res (\<lambda>row. row_float row ''reward_mean'') image_stats) (\<lambda>means.
     res_bind (map_res (\<lambda>row. row_float row ''reward_std'') image_stats) (\<lambda>stds.
     res_bind (map_res (\<lambda>row. row_float row ''reward_max'') image_stats) (\<lambda>maxs.
     res_bind (map_res (post_row rp A original_ids)
                 (zip image_stats (zip (stable_ranks means) (zip (stable_ranks stds) (stable_ranks maxs))))) (\<lambda>scored.
       Inr (map2 (\<lambda>(v, row) p. dset ''probability'' (PFloat p) row) scored (normalise_values (map fst scored)))))))"

subsection \<open>The new selection\<close>

definition int_of :: "pyval \<Rightarrow> int option" where
  "int_of v = (case v of PInt i \<Rightarrow> Some i | PBool b \<Rightarrow> Some (if b then 1 else 0) | _ \<Rightarrow> None)"

definition resolve_keep_count :: "post_args \<Rightarrow> pydict \<Rightarrow> pydict \<Rightarrow> nat \<Rightarrow> int" where
  "resolve_keep_count A run_config summary num_items =
     (case po_keep_count A of
        Some k \<Rightarrow> min k (int num_items)
      | None \<Rightarrow>
          (case int_of (pget run_config ''keep_count'') of
             Some k \<Rightarrow> min k (int num_items)
           | None \<Rightarrow>
               (case int_of (pget summary ''num_selected'') of
                  Some k \<Rightarrow> min k (int num_items)
                | None \<Rightarrow> int num_items)))"

definition post_key :: "(pyval \<Rightarrow> string) \<Rightarrow> pydict \<Rightarrow> real \<times> real \<times> string" where
  "post_key rp row =
     ((case py_float (pget row ''value'') of Some v \<Rightarrow> v | None \<Rightarrow> 0), row_prob row, row_str rp row ''item_id'')"

definition post_select ::
  "(pyval \<Rightarrow> string) \<Rightarrow> (nat \<Rightarrow> real) \<Rightarrow> post_args \<Rightarrow> int \<Rightarrow> pydict list \<Rightarrow> pydict list res" where
  "post_select rp draw A keep_count rows =
     (if po_weighted A then gumbel_top_k row_prob draw rows keep_count
      else Inr (slice_to keep_count (sort_desc (post_key rp) rows)))"

record compare_report =
  cr_original_num_selected :: nat
  cr_postprocessed_num_selected :: nat
  cr_overlap_selected :: nat
  cr_overlap_rate_vs_original :: real
  cr_overlap_rate_vs_postprocessed :: real
  cr_newly_selected :: nat
  cr_dropped :: nat

definition compare_selections :: "pyval list \<Rightarrow> pyval list \<Rightarrow> compare_report" where
  "compare_selections original_ids selected_ids =
     (let overlap = length (filter (\<lambda>i. set_member i original_ids) selected_ids) in
      \<lparr>cr_original_num_selected = length original_ids, cr_postprocessed_num_selected = length selected_ids,
       cr_overlap_selected = overlap,
       cr_overlap_rate_vs_original = (if original_ids = [] then 0 else real overlap / real (length original_ids)),
       cr_overlap_rate_vs_postprocessed = (if selected_ids = [] then 0 else real overlap / real (length selected_ids)),
       cr_newly_selected = length (filter (\<lambda>i. \<not> set_member i original_ids) selected_ids),
       cr_dropped = length (filter (\<lambda>i. \<not> set_member i selected_ids) original_ids)\<rparr>)"

definition postprocess_run ::
  "(pyval \<Rightarrow> string) \<Rightarrow> (nat \<Rightarrow> real) \<Rightarrow> post_args \<Rightarrow> pydict \<Rightarrow> pydict \<Rightarrow> pydict list \<Rightarrow> pydict list
     \<Rightarrow> (pydict list \<times> pydict list \<times> compare_report) res" where
  "postprocess_run rp draw A run_config summary image_stats original_selection =
     (if image_stats = [] then Inl ValueError
      else
        res_bind (item_ids (filter (\<lambda>row. truthy (pget row ''selected'')) original_selection)) (\<lambda>original_ids.
        res_bind (post_probabilities rp A original_ids image_stats) (\<lambda>rows.
        res_bind (post_select rp draw A (resolve_keep_count A run_config summary (length rows)) rows) (\<lambda>selected_rows.
        res_bind (item_ids selected_rows) (\<lambda>selected_ids.
        res_bind (map_res (\<lambda>row. res_bind (res_bind (row_item row ''item_id'') hash_res) (\<lambda>i.
                    Inr (dset ''selected'' (PBool (set_member i selected_ids)) row))) rows) (\<lambda>flagged.
          Inr (sort_desc row_prob flagged, selected_rows, compare_selections original_ids selected_ids)))))))"

subsection \<open>Rank scores\<close>

lemma argsort_stable_perm:
  "mset (argsort_stable xs) = mset [0 ..< length xs]"
  "length (argsort_stable xs) = length xs"
proof -
  have "mset (argsort_stable xs) = image_mset snd (mset (sort_key fst (zip xs [0 ..< length xs])))"
    by (simp only: argsort_stable_def mset_map)
  also have "\<dots> = mset (map snd (zip xs [0 ..< length xs]))" by (simp only: mset_sort mset_map)
  also have "map snd (zip xs [0 ..< length xs]) = [0 ..< length xs]" by simp
  finally show p: "mset (argsort_stable xs) = mset [0 ..< length xs]" .
  show "length (argsort_stable xs) = length xs" using mset_eq_length [OF p] by simp
qed

lemma argsort_stable_sorted: "sorted (map (\<lambda>i. xs ! i) (argsort_stable xs))"
proof -
  let ?s = "sort_key fst (zip xs [0 ..< length xs])"
  have "map (\<lambda>i. xs ! i) (argsort_stable xs) = map (\<lambda>p. xs ! snd p) ?s" by (simp add: argsort_stable_def)
  also have "\<dots> = map fst ?s" by (auto simp: in_set_zip)
  finally show ?thesis by simp
qed

lemma argsort_stable_set: "set (argsort_stable xs) = {0 ..< length xs}" "distinct (argsort_stable xs)"
  using mset_eq_setD [OF argsort_stable_perm(1) [of xs]]
    mset_eq_imp_distinct_iff [OF argsort_stable_perm(1) [of xs]] by simp_all

text \<open>Sorting the positions of a permutation inverts it.\<close>

lemma argsort_stable_inverse:
  assumes "k < length xs"
  shows "argsort_stable xs ! (argsort_stable (argsort_stable xs) ! k) = k"
proof -
  let ?p = "argsort_stable xs" and ?q = "argsort_stable (argsort_stable xs)"
  let ?r = "map (\<lambda>i. ?p ! i) ?q"
  have "mset ?r = image_mset (\<lambda>i. ?p ! i) (mset [0 ..< length ?p])"
    using argsort_stable_perm(1) [of ?p] by (simp only: mset_map)
  also have "\<dots> = mset (map (\<lambda>i. ?p ! i) [0 ..< length ?p])" by (simp only: mset_map)
  also have "\<dots> = mset ?p" by (simp only: map_nth)
  finally have "mset ?r = mset [0 ..< length xs]" using argsort_stable_perm(1) [of xs] by simp
  moreover have "sorted ?r" by (rule argsort_stable_sorted)
  ultimately have "?r = sort [0 ..< length xs]" by (metis properties_for_sort)
  then have "?r = [0 ..< length xs]" by (simp add: sorted_sort_id)
  then have "?r ! k = k" using assms by simp
  then show ?thesis using assms by (simp add: argsort_stable_perm)
qed

lemma double_argsort_less:
  assumes "i < length xs" and "j < length xs" and "xs ! i < xs ! j"
  shows "argsort_stable (argsort_stable xs) ! i < argsort_stable (argsort_stable xs) ! j"
proof (rule ccontr)
  let ?p = "argsort_stable xs" and ?q = "argsort_stable (argsort_stable xs)"
  assume "\<not> ?q ! i < ?q ! j"
  moreover have "?q ! i < length xs"
    using assms(1) argsort_stable_set(1) [of ?p] nth_mem [of i ?q] by (simp add: argsort_stable_perm)
  ultimately have "xs ! (?p ! (?q ! j)) \<le> xs ! (?p ! (?q ! i))"
    using sorted_nth_mono [OF argsort_stable_sorted, of "?q ! j" "?q ! i" xs] by (simp add: argsort_stable_perm)
  then show False using assms by (simp add: argsort_stable_inverse)
qed

lemma length_stable_ranks [simp]: "length (stable_ranks xs) = length xs"
  by (simp add: stable_ranks_def argsort_stable_perm)

lemma stable_ranks_range:
  assumes "i < length xs"
  shows "0 \<le> stable_ranks xs ! i \<and> stable_ranks xs ! i \<le> 1"
proof -
  let ?q = "argsort_stable (argsort_stable xs)"
  have "?q ! i < length xs"
    using assms argsort_stable_set(1) [of "argsort_stable xs"] nth_mem [of i ?q] by (simp add: argsort_stable_perm)
  then have "?q ! i \<le> max 1 (length xs - 1)" by simp
  then have "real (?q ! i) / real (max 1 (length xs - 1)) \<le> 1"
    by (simp only: divide_le_eq_1 of_nat_le_iff) simp
  then show ?thesis using assms by (auto simp: stable_ranks_def argsort_stable_perm)
qed

text \<open>
  The rank scores order the rows as their values do: a smaller value has a strictly smaller
  score, and every score lies in [0, 1].
\<close>

theorem stable_ranks_monotone:
  assumes "i < length xs" and "j < length xs" and "xs ! i < xs ! j"
  shows "0 \<le> stable_ranks xs ! i \<and> stable_ranks xs ! i < stable_ranks xs ! j \<and> stable_ranks xs ! j \<le> 1"
proof -
  have "0 < real (max 1 (length xs - 1))" by simp
  then have "real (argsort_stable (argsort_stable xs) ! i) / real (max 1 (length xs - 1))
      < real (argsort_stable (argsort_stable xs) ! j) / real (max 1 (length xs - 1))"
    using double_argsort_less [OF assms] by (intro divide_strict_right_mono) simp_all
  then have "stable_ranks xs ! i < stable_ranks xs ! j"
    using assms(1,2) by (auto simp: stable_ranks_def argsort_stable_perm)
  then show ?thesis using stable_ranks_range assms(1,2) by blast
qed

lemma stable_ranks_monotone_witness:
  "stable_ranks [3, 1, 2] ! 1 < stable_ranks [3, 1, 2] ! 0 \<and> stable_ranks [3, 1, 2] ! 0 \<le> 1"
  using stable_ranks_monotone [of 1 "[3, 1, 2]" 0] by simp

subsection \<open>Probabilities\<close>

definition nonneg_weights :: "post_args \<Rightarrow> bool" where
  "nonneg_weights A = (0 \<le> po_mean_weight A \<and> 0 \<le> po_std_weight A \<and> 0 \<le> po_max_weight A)"

lemma combined_value_ok:
  assumes "nonneg_weights A" and "0 \<le> a" and "0 \<le> b" and "0 \<le> c"
  shows "\<exists>v. combined_value A passes (active_components A a b c) = Inr v \<and> 0 \<le> v \<and> (\<not> passes \<longrightarrow> v = 0)"
proof -
  have "\<exists>y. py_pow x w = Inr y \<and> 0 \<le> y" if "0 \<le> x" "0 \<le> w" for x w
    using that by (auto simp: py_pow_def)
  then obtain x y z where "py_pow a (po_mean_weight A) = Inr x" "0 \<le> x" "py_pow b (po_std_weight A) = Inr y" "0 \<le> y"
    "py_pow c (po_max_weight A) = Inr z" "0 \<le> z"
    using assms unfolding nonneg_weights_def by meson
  then show ?thesis
    using assms by (auto simp: combined_value_def active_components_def nonneg_weights_def Let_def)
qed

text \<open>The numbers and the hard filters of a row that is written, and the image it is about.\<close>

definition row_num :: "pydict \<Rightarrow> string \<Rightarrow> real" where
  "row_num row k = (case py_float (pget row k) of Some v \<Rightarrow> v | None \<Rightarrow> 0)"

definition row_passes :: "post_args \<Rightarrow> pydict \<Rightarrow> bool" where
  "row_passes A row =
     (case (row_float row ''reward_mean'', row_float row ''reward_std'', row_float row ''reward_max'') of
        (Inr m, Inr s, Inr x) \<Rightarrow> passes_filter A m s x
      | _ \<Rightarrow> False)"

definition image_of :: "pydict \<Rightarrow> pyval \<times> pyval \<times> pyval \<times> pyval" where
  "image_of row = (pget row ''item_id'', pget row ''reward_mean'', pget row ''reward_std'', pget row ''reward_max'')"

text \<open>The value of a row is the combination of its three scores, and 0 when a hard filter fails.\<close>

definition valued_row :: "post_args \<Rightarrow> pydict \<Rightarrow> bool" where
  "valued_row A row \<longleftrightarrow>
     pget row ''score_filter_pass'' = PBool (row_passes A row) \<and> 0 \<le> row_num row ''value''
     \<and> (\<not> row_passes A row \<longrightarrow> row_num row ''value'' = 0)
     \<and> combined_value A (row_passes A row)
          (active_components A (row_num row ''mean_score'') (row_num row ''std_score'') (row_num row ''max_score''))
        = Inr (row_num row ''value'')"

text \<open>Probabilities are the shares of the values, and uniform exactly when all values are 0.\<close>

definition fair_rows :: "post_args \<Rightarrow> pydict list \<Rightarrow> bool" where
  "fair_rows A rows \<longleftrightarrow>
     (let everything = sum_list (map (\<lambda>r. row_num r ''value'') rows)
      in list_all (valued_row A) rows
         \<and> list_all (\<lambda>r. row_prob r = (if everything = 0 then 1 / real (length rows) else row_num r ''value'' / everything)) rows)"

lemma row_num_dset [simp]: "row_num (dset k v row) k' = (if k' = k then (case py_float v of Some x \<Rightarrow> x | None \<Rightarrow> 0) else row_num row k')"
  by (simp add: row_num_def)

lemma row_passes_dset [simp]: "k \<notin> {''reward_mean'', ''reward_std'', ''reward_max''} \<Longrightarrow> row_passes A (dset k v row) = row_passes A row"
  by (auto simp: row_passes_def row_float_def)

lemma image_of_dset [simp]: "k \<notin> {''item_id'', ''reward_mean'', ''reward_std'', ''reward_max''} \<Longrightarrow> image_of (dset k v row) = image_of row"
  by (auto simp: image_of_def)

lemma post_row_ok:
  assumes "nonneg_weights A" and "0 \<le> a" and "0 \<le> b" and "0 \<le> c"
    and "post_row rp A ids (row, a, b, c) = Inr (v, row')"
  shows "valued_row A row' \<and> row_num row' ''value'' = v \<and> image_of row' = image_of row"
proof -
  obtain m s x where r: "row_float row ''reward_mean'' = Inr m" "row_float row ''reward_std'' = Inr s" "row_float row ''reward_max'' = Inr x"
    and c: "combined_value A (passes_filter A m s x) (active_components A a b c) = Inr v"
    and v: "row_num row' ''value'' = v" "row_num row' ''mean_score'' = a" "row_num row' ''std_score'' = b" "row_num row' ''max_score'' = c"
      "pget row' ''score_filter_pass'' = PBool (passes_filter A m s x)" "row_passes A row' = row_passes A row" "image_of row' = image_of row"
    using assms(5) by (auto simp: post_row_def res_bind_eq_Inr_iff Let_def)
  have "row_passes A row = passes_filter A m s x" using r by (simp add: row_passes_def)
  then show ?thesis
    using combined_value_ok [OF assms(1-4), of "passes_filter A m s x"] c v by (simp add: valued_row_def)
qed

lemma post_probabilities_parts:
  assumes "nonneg_weights A" and "post_probabilities rp A ids stats = Inr rows"
  shows "\<exists>scored. length scored = length stats
    \<and> rows = map2 (\<lambda>(v, row) p. dset ''probability'' (PFloat p) row) scored (normalise_values (map fst scored))
    \<and> list_all2 (\<lambda>row (v, row'). valued_row A row' \<and> row_num row' ''value'' = v \<and> image_of row' = image_of row) stats scored"
proof -
  obtain means stds maxs scored
    where m: "map_res (\<lambda>row. row_float row ''reward_mean'') stats = Inr means"
      "map_res (\<lambda>row. row_float row ''reward_std'') stats = Inr stds"
      "map_res (\<lambda>row. row_float row ''reward_max'') stats = Inr maxs"
      and s: "map_res (post_row rp A ids)
                 (zip stats (zip (stable_ranks means) (zip (stable_ranks stds) (stable_ranks maxs)))) = Inr scored"
      and rows: "rows = map2 (\<lambda>(v, row) p. dset ''probability'' (PFloat p) row) scored (normalise_values (map fst scored))"
    using assms(2) by (auto simp: post_probabilities_def res_bind_eq_Inr_iff)
  note len = m [THEN length_map_res]
  let ?z = "zip stats (zip (stable_ranks means) (zip (stable_ranks stds) (stable_ranks maxs)))"
  have "valued_row A row' \<and> row_num row' ''value'' = v \<and> image_of row' = image_of (stats ! j)"
    if j: "j < length stats" and vr: "scored ! j = (v, row')" for j v row'
  proof -
    have "?z ! j = (stats ! j, stable_ranks means ! j, stable_ranks stds ! j, stable_ranks maxs ! j)"
      using len j by simp
    moreover have "post_row rp A ids (?z ! j) = Inr (scored ! j)"
      using s len j by (simp add: map_res_Inr_iff list_all2_conv_all_nth)
    ultimately show ?thesis
      using post_row_ok [OF assms(1), of "stable_ranks means ! j" "stable_ranks stds ! j" "stable_ranks maxs ! j" rp ids
          "stats ! j" v row'] stable_ranks_range j vr len by simp
  qed
  then show ?thesis using rows length_map_res [OF s] len
    by (intro exI [of _ scored]) (auto simp: list_all2_conv_all_nth)
qed

lemma row_prob_dset [simp]: "row_prob (dset k v row) = (if k = ''probability'' then (case py_float v of Some p \<Rightarrow> p | None \<Rightarrow> 0) else row_prob row)"
  by (simp add: row_prob_def)

lemma valued_row_dset [simp]:
  "valued_row A (dset ''probability'' v row) = valued_row A row"
  "valued_row A (dset ''selected'' v row) = valued_row A row"
  by (simp_all add: valued_row_def)

lemma post_probabilities_fair:
  assumes "nonneg_weights A" and "post_probabilities rp A ids stats = Inr rows" and "stats \<noteq> []"
  shows "map image_of rows = map image_of stats \<and> fair_rows A rows \<and> sum_list (map row_prob rows) = 1"
proof -
  obtain scored where len: "length scored = length stats"
    and rows: "rows = map2 (\<lambda>(v, row) p. dset ''probability'' (PFloat p) row) scored (normalise_values (map fst scored))"
    and ok: "list_all2 (\<lambda>row (v, row'). valued_row A row' \<and> row_num row' ''value'' = v \<and> image_of row' = image_of row) stats scored"
    using post_probabilities_parts [OF assms(1,2)] by blast
  let ?vs = "map fst scored" and ?ps = "normalise_values (map fst scored)"
  have okj: "valued_row A (snd (scored ! j))" "row_num (snd (scored ! j)) ''value'' = fst (scored ! j)"
    "image_of (snd (scored ! j)) = image_of (stats ! j)" if "j < length stats" for j
    using list_all2_nthD [OF ok that] by (simp_all add: case_prod_beta)
  have row: "rows ! j = dset ''probability'' (PFloat (?ps ! j)) (snd (scored ! j))" if "j < length stats" for j
    using that len by (simp add: rows case_prod_beta)
  have n: "length rows = length stats" using len by (simp add: rows)
  have probs: "map row_prob rows = ?ps" by (rule nth_equalityI) (simp_all add: rows case_prod_beta)
  have vals: "map (\<lambda>r. row_num r ''value'') rows = ?vs"
    by (rule nth_equalityI) (simp_all add: n len row okj)
  have "0 \<le> v" if "v \<in> set ?vs" for v
  proof -
    obtain j where j: "j < length stats" "v = fst (scored ! j)" using \<open>v \<in> set ?vs\<close> len by (auto simp: in_set_conv_nth)
    then show ?thesis using okj(1,2) [OF j(1)] by (simp add: valued_row_def)
  qed
  then have pos: "0 \<le> sum_list ?vs" by (rule sum_list_nonneg)
  have "row_prob (rows ! j) = (if sum_list ?vs = 0 then 1 / real (length rows) else row_num (rows ! j) ''value'' / sum_list ?vs)"
    if j: "j < length rows" for j
  proof -
    have "row_prob (rows ! j) = ?ps ! j" "row_num (rows ! j) ''value'' = ?vs ! j"
      using j probs vals by (metis nth_map)+
    moreover have "max 1 (length rows) = length rows" using j by simp
    ultimately show ?thesis using pos j n len by (simp add: normalise_values_def)
  qed
  moreover have "valued_row A (rows ! j)" if "j < length rows" for j
    using that n okj(1) by (simp add: row)
  ultimately have "fair_rows A rows" by (simp add: fair_rows_def vals list_all_length)
  moreover have "map image_of rows = map image_of stats"
    by (rule nth_equalityI) (simp_all add: n row okj)
  moreover have "sum_list (map row_prob rows) = 1"
    unfolding probs using assms(3) len by (intro normalise_values_sum) auto
  ultimately show ?thesis by blast
qed

lemma fair_rows_mset:
  assumes "fair_rows A rows" and "mset rows' = mset rows"
  shows "fair_rows A rows'"
proof -
  have "sum_list (map (\<lambda>r. row_num r ''value'') rows') = sum_list (map (\<lambda>r. row_num r ''value'') rows)"
    using assms(2) by (metis mset_map sum_mset_sum_list)
  then show ?thesis
    using assms(1) mset_eq_setD [OF assms(2)] mset_eq_length [OF assms(2)] by (simp add: fair_rows_def Let_def list_all_iff)
qed

lemma fair_rows_flagged:
  assumes "list_all2 (\<lambda>r r'. \<exists>b. r' = dset ''selected'' b r) rows flagged"
  shows "fair_rows A flagged = fair_rows A rows" "map row_prob flagged = map row_prob rows" "map image_of flagged = map image_of rows"
proof -
  have f: "map f flagged = map f rows" if "\<And>b r. f (dset ''selected'' b r) = f r" for f :: "pydict \<Rightarrow> 'a"
    using assms by (induction rule: list_all2_induct) (auto simp: that)
  show "map row_prob flagged = map row_prob rows" "map image_of flagged = map image_of rows" by (simp_all add: f)
  have all: "list_all (\<lambda>r. P (row_prob r) (row_num r ''value'')) flagged = list_all (\<lambda>r. P (row_prob r) (row_num r ''value'')) rows" for P
    using assms by (induction rule: list_all2_induct) auto
  have len: "length flagged = length rows" using list_all2_lengthD [OF assms] by simp
  have "list_all (valued_row A) flagged = list_all (valued_row A) rows"
    using assms by (induction rule: list_all2_induct) auto
  moreover have vals: "map (\<lambda>r. row_num r ''value'') flagged = map (\<lambda>r. row_num r ''value'') rows" by (simp add: f)
  ultimately show "fair_rows A flagged = fair_rows A rows"
    unfolding fair_rows_def Let_def vals len
    using all [of "\<lambda>p v. p = (if sum_list (map (\<lambda>r. row_num r ''value'') rows) = 0 then 1 / real (length rows) else v / sum_list (map (\<lambda>r. row_num r ''value'') rows))"]
    by (simp only:)
qed

lemma post_select_length:
  assumes "post_select rp draw A k rows = Inr selected" and "0 \<le> k"
  shows "length selected = min (nat k) (length rows)"
proof (cases "po_weighted A")
  case True
  then have "selected = gumbel_pick row_prob draw rows (nat k)"
    using assms by (simp add: post_select_def gumbel_pick_eq)
  then show ?thesis by (simp add: weighted.pick_length)
next
  case False
  then show ?thesis using assms by (auto simp: post_select_def slice_to_take)
qed

text \<open>
  C40. A re-scored run is consistent, when the three weights are not negative and the resolved keep
  count is not negative (the command line accepts any numbers).  The rows written are the images of
  the run with their rewards, in descending order of their new probabilities, which sum to 1.  Each
  row's value is the combination of its scores that the arguments ask for, never negative, and 0 when
  a hard filter on its rewards fails.  The probabilities are the shares of the values, so an image
  that fails a filter has probability 0; they are uniform only when all values are 0.  The rows
  selected are as many as the resolved keep count.
\<close>

theorem postprocess_run_consistent:
  assumes "postprocess_run rp draw A run_config summary image_stats original_selection = Inr (rows, selected, report)"
    and "nonneg_weights A" and "0 \<le> resolve_keep_count A run_config summary (length image_stats)"
  shows "mset (map image_of rows) = mset (map image_of image_stats) \<and> fair_rows A rows \<and> sum_list (map row_prob rows) = 1
    \<and> sorted_wrt (\<lambda>r r'. row_prob r' \<le> row_prob r) rows
    \<and> int (length selected) = resolve_keep_count A run_config summary (length image_stats)"
proof -
  obtain original_ids scored selected_ids flagged where ne: "image_stats \<noteq> []"
    and scored: "post_probabilities rp A original_ids image_stats = Inr scored"
    and sel: "post_select rp draw A (resolve_keep_count A run_config summary (length scored)) scored = Inr selected"
    and flag: "map_res (\<lambda>row. res_bind (res_bind (row_item row ''item_id'') hash_res) (\<lambda>i.
                    Inr (dset ''selected'' (PBool (set_member i selected_ids)) row))) scored = Inr flagged"
    and rows: "rows = sort_desc row_prob flagged"
    using assms(1) by (auto simp: postprocess_run_def res_bind_eq_Inr_iff split: if_splits)
  note S = post_probabilities_fair [OF assms(2) scored ne]
  have "list_all2 (\<lambda>r r'. \<exists>b. r' = dset ''selected'' b r) scored flagged"
    using flag by (auto simp: map_res_Inr_iff res_bind_eq_Inr_iff elim!: list_all2_mono)
  note G = fair_rows_flagged [OF this]
  have perm: "mset rows = mset flagged" unfolding rows by (rule mset_sort_desc)
  have "mset (map image_of rows) = mset (map image_of image_stats)"
    using S G(3) by (metis mset_map perm)
  moreover have "sum_list (map row_prob rows) = 1"
    using S G(2) by (metis mset_map perm sum_mset_sum_list)
  moreover have "fair_rows A rows" using fair_rows_mset [OF _ perm] G(1) S by blast
  moreover have "int (length selected) = resolve_keep_count A run_config summary (length image_stats)"
  proof -
    let ?k = "resolve_keep_count A run_config summary (length image_stats)"
    have "length scored = length image_stats" using S by (metis length_map)
    then have "length selected = min (nat ?k) (length image_stats)"
      using post_select_length [OF sel] assms(3) by simp
    moreover have "?k \<le> int (length image_stats)" by (simp add: resolve_keep_count_def split: option.splits)
    ultimately show ?thesis using assms(3) by simp
  qed
  ultimately show ?thesis using sorted_sort_desc [of row_prob flagged] by (simp add: rows)
qed

definition post_example :: "post_args" where
  "post_example =
     \<lparr>po_keep_count = Some 1, po_weighted = False, po_product = False, po_include_mean = True, po_mean_weight = 1,
      po_std_weight = 1, po_max_weight = 1, po_min_mean = Some 1, po_min_std = None, po_min_max = None\<rparr>"

definition post_rows_example :: "pydict list" where
  "post_rows_example =
     [[(''item_id'', PStr ''a''), (''reward_mean'', PFloat 2), (''reward_std'', PFloat 1), (''reward_max'', PFloat 1)],
      [(''item_id'', PStr ''b''), (''reward_mean'', PFloat 0), (''reward_std'', PFloat 2), (''reward_max'', PFloat 2)]]"

lemma post_example_runs:
  "\<exists>rows selected report. postprocess_run (\<lambda>v. []) (\<lambda>i. 0) post_example [] [] post_rows_example [] = Inr (rows, selected, report)"
  by (simp add: postprocess_run_def post_example_def post_rows_example_def item_ids_def uniq_def post_probabilities_def
      row_float_def float_res_def dget_or_def post_row_def hash_res_def hashable_def combined_value_def
      post_select_def res_bind_eq_Inr_iff row_item_def Let_def stable_ranks_def argsort_stable_def normalise_values_def
      active_components_def passes_filter_def below_def resolve_keep_count_def slice_to_def sort_desc_def post_key_def
      row_prob_def row_str_def)

lemma postprocess_run_consistent_witness:
  "\<exists>rows selected report. postprocess_run (\<lambda>v. []) (\<lambda>i. 0) post_example [] [] post_rows_example [] = Inr (rows, selected, report)
     \<and> fair_rows post_example rows \<and> sum_list (map row_prob rows) = 1 \<and> int (length selected) = 1"
proof -
  obtain rows selected report
    where r: "postprocess_run (\<lambda>v. []) (\<lambda>i. 0) post_example [] [] post_rows_example [] = Inr (rows, selected, report)"
    using post_example_runs by blast
  have "nonneg_weights post_example" and k: "resolve_keep_count post_example [] [] (length post_rows_example) = 1"
    by (simp_all add: nonneg_weights_def post_example_def resolve_keep_count_def post_rows_example_def)
  from postprocess_run_consistent [OF r this(1)] k r show ?thesis by auto
qed

text \<open>
  Without the sign condition on the weights the claim fails: with a negative weight for the spread a
  row gets a negative value, and from it a negative probability.
\<close>

lemma negative_weight_negative_share:
  defines "A \<equiv> post_example\<lparr>po_std_weight := - 1 / 2\<rparr>"
  shows "combined_value A True (active_components A 0 1 0) = Inr (- 1 / 3)" "normalise_values [1, - 1 / 3] = [3 / 2, - 1 / 2]"
  by (simp_all add: A_def post_example_def combined_value_def active_components_def normalise_values_def Let_def)

end
