(* ===== verification/EvalRows.thy ===== *)
theory EvalRows
  imports GeoRewards PyPath
begin

text \<open>
  The benchmark evaluator (\<open>GeoVerse-Val/eval_geoverse_val_geoscore.py\<close>), first half: the
  settings, the rows of the input files and their metadata, the search for an image file, and
  the batched inference loop.  File contents, the directory and the engine are arguments.
\<close>

subsection \<open>Settings\<close>

definition split_words :: "string list \<Rightarrow> string list" where
  "split_words values = concat (map (\<lambda>v. split_ws (replace_char (CHR '','') '' '' v)) values)"

definition parse_gpu_list :: "string \<Rightarrow> string list" where
  "parse_gpu_list gpu_arg = filter (\<lambda>i. i \<noteq> []) (map strip (split_char (CHR '','') gpu_arg))"

definition resolve_tensor_parallel_size :: "int option \<Rightarrow> string \<Rightarrow> int res" where
  "resolve_tensor_parallel_size tensor_parallel_size gpu =
     (case tensor_parallel_size of
        Some n \<Rightarrow> if n < 1 then Inl ValueError else Inr n
      | None \<Rightarrow> Inr (int (max 1 (length (parse_gpu_list gpu)))))"

definition parse_json_dict :: "string option \<Rightarrow> pydict option res" where
  "parse_json_dict txt =
     (case txt of
        None \<Rightarrow> Inr None
      | Some t \<Rightarrow>
          if strip t = [] then Inr None
          else case json_loads t of Some (PDict d) \<Rightarrow> Inr (Some d) | _ \<Rightarrow> Inl ValueError)"

definition api_keys_re :: rx where
  "api_keys_re =
     seqs [BolM, blanks, lit ''GEOSCORE_API_KEYS'', blanks, lit ''='', blanks,
           rx_opt (Cls (\<lambda>c. c = CHR 0x27 \<or> c = CHR 0x22)),
           Grp 1 (rx_plus (Cls (\<lambda>c. c \<noteq> CHR 0x27 \<and> c \<noteq> CHR 0x22 \<and> c \<noteq> CHR 0x0A)))]"

definition read_api_keys_from_config :: "string option \<Rightarrow> string list" where
  "read_api_keys_from_config content =
     (case content of
        None \<Rightarrow> []
      | Some t \<Rightarrow> (case re_search api_keys_re t of None \<Rightarrow> [] | Some gs \<Rightarrow> split_words [group 1 gs]))"

definition eval_api_keys :: "string list \<Rightarrow> string \<Rightarrow> string option \<Rightarrow> string list" where
  "eval_api_keys args_keys env_keys config =
     (if split_words args_keys \<noteq> [] then split_words args_keys
      else if split_words [env_keys] \<noteq> [] then split_words [env_keys]
      else read_api_keys_from_config config)"

definition slug_re :: rx where
  "slug_re = rx_plus (Cls (\<lambda>c. \<not> (is_alpha c \<or> is_digit c \<or> c = CHR ''_'' \<or> c = CHR ''.'' \<or> c = CHR ''-'')))"

definition safe_slug :: "string \<Rightarrow> string" where
  "safe_slug value =
     (let s = strip_chars ''_.-'' (re_sub slug_re (\<lambda>_. ''_'') value) in if s = [] then ''geoverse'' else s)"

definition infer_run_slug :: "string \<Rightarrow> string list \<Rightarrow> string \<Rightarrow> string" where
  "infer_run_slug answer_field adapters model_path =
     (if answer_field \<noteq> [] then re_sub (seqs [lit ''_answer'', EolZ]) (\<lambda>_. []) answer_field
      else if adapters \<noteq> [] then safe_slug (path_name (hd adapters))
      else if model_path \<noteq> [] then safe_slug (path_name model_path)
      else ''model'')"

definition field_names :: "string \<Rightarrow> string \<Rightarrow> string list \<Rightarrow> string \<Rightarrow> string \<times> string" where
  "field_names answer_field success_field adapters model_path =
     (let slug = infer_run_slug answer_field adapters model_path
      in (if answer_field \<noteq> [] then answer_field else slug @ ''_answer'',
          if success_field \<noteq> [] then success_field else slug @ ''_inference_completed''))"

definition read_json_file :: "string option \<Rightarrow> pydict" where
  "read_json_file content =
     (case content of None \<Rightarrow> [] | Some t \<Rightarrow> (case json_object t of Some d \<Rightarrow> d | None \<Rightarrow> []))"

text \<open>\<open>args_files\<close> gives the contents of the \<open>args.json\<close> files of an adapter, in the order tried.\<close>

definition find_adapter_args :: "(string \<Rightarrow> string option list) \<Rightarrow> string list \<Rightarrow> pydict" where
  "find_adapter_args args_files adapters =
     (case List.find (\<lambda>d. d \<noteq> []) (concat (map (\<lambda>a. map read_json_file (args_files a)) adapters)) of
        Some d \<Rightarrow> d | None \<Rightarrow> [])"

definition py_or :: "pyval \<Rightarrow> pyval \<Rightarrow> pyval" where
  "py_or a b = (if truthy a then a else b)"

record model_settings =
  ms_model_path :: string
  ms_model_type :: pyval
  ms_template_type :: pyval
  ms_torch_dtype :: string

definition resolve_model_settings ::
  "(pyval \<Rightarrow> string) \<Rightarrow> pydict \<Rightarrow> string \<Rightarrow> string option \<Rightarrow> string option \<Rightarrow> string \<Rightarrow> model_settings res" where
  "resolve_model_settings rp adapter_args model_path model_type template_type torch_dtype =
     (let path = (if model_path \<noteq> [] then model_path
                  else py_str rp (foldr py_or (map (pget adapter_args)
                         [''model'', ''model_id_or_path'', ''model_dir'', ''base_model_name_or_path'']) (PStr [])))
      in if path = [] then Inl ValueError
         else Inr \<lparr>ms_model_path = path,
                   ms_model_type = (case model_type of Some t \<Rightarrow> PStr t | None \<Rightarrow> pget adapter_args ''model_type''),
                   ms_template_type = (case template_type of Some t \<Rightarrow> PStr t | None \<Rightarrow> pget adapter_args ''template''),
                   ms_torch_dtype = (if torch_dtype \<noteq> [] then torch_dtype
                                     else py_str rp (py_or (pget adapter_args ''torch_dtype'') (PStr ''bfloat16'')))\<rparr>)"

datatype torch_dtype = Bfloat16 | Float16 | Float32

definition torch_dtype_from_name :: "string \<Rightarrow> torch_dtype option res" where
  "torch_dtype_from_name name =
     (let normalized = replace ''torch.'' [] (lower name) in
      if normalized = ''auto'' \<or> normalized = ''none'' then Inr None
      else if normalized = ''bfloat16'' \<or> normalized = ''bf16'' then Inr (Some Bfloat16)
      else if normalized = ''float16'' \<or> normalized = ''fp16'' then Inr (Some Float16)
      else if normalized = ''float32'' \<or> normalized = ''fp32'' then Inr (Some Float32)
      else Inl ValueError)"

definition read_prompt :: "string option \<Rightarrow> string res" where
  "read_prompt content =
     (case content of
        None \<Rightarrow> Inl FileNotFoundError
      | Some t \<Rightarrow> if strip t = [] then Inl ValueError else Inr (strip t))"

subsection \<open>Input rows\<close>

text \<open>The values in order, each of which must be a dictionary, up to \<open>limit\<close> when it is positive.\<close>

fun collect_dicts :: "int \<Rightarrow> pydict list \<Rightarrow> pyval res list \<Rightarrow> pydict list res" where
  "collect_dicts limit rows [] = Inr rows"
| "collect_dicts limit rows (v # vs) =
     res_bind v (\<lambda>value.
       case value of
         PDict d \<Rightarrow>
           if 0 < limit \<and> limit \<le> int (length (rows @ [d])) then Inr (rows @ [d])
           else collect_dicts limit (rows @ [d]) vs
       | _ \<Rightarrow> Inl ValueError)"

definition load_json_rows :: "bool \<Rightarrow> string \<Rightarrow> int \<Rightarrow> pydict list res" where
  "load_json_rows is_jsonl content limit =
     (let parse = (\<lambda>t. case json_loads t of Some v \<Rightarrow> Inr v | None \<Rightarrow> Inl ValueError) in
      if is_jsonl then
        collect_dicts limit [] (map parse (filter (\<lambda>l. l \<noteq> []) (map strip (split_char (CHR 0x0A) content))))
      else
        res_bind (parse content) (\<lambda>data.
          let root = (case data of
                        PDict d \<Rightarrow>
                          (case List.find (\<lambda>k. case pget d k of PList _ \<Rightarrow> True | _ \<Rightarrow> False)
                                  [''data'', ''samples'', ''items'', ''records'', ''annotations''] of
                             Some k \<Rightarrow> pget d k | None \<Rightarrow> data)
                      | _ \<Rightarrow> data)
          in case root of PList items \<Rightarrow> collect_dicts limit [] (map Inr items) | _ \<Rightarrow> Inl ValueError))"

definition domain_map :: "(string, string) dict" where
  "domain_map =
     [(''gadm_metadata'', ''GADM_shape''), (''indoor_metadata'', ''Indoor''), (''vectormap_metadata'', ''VectorMap''),
      (''benchmark_1500_ground_surface'', ''ground_surface''), (''landmark_metadata'', ''landmark''),
      (''remote_metadata'', ''remote_sensing_images''), (''roadnet_metadata'', ''roadnet-eval''),
      (''space_metadata'', ''space''), (''street_metadata'', ''street''), (''uav_metadata'', ''uav_eval_500'')]"

text \<open>The domain of a file given its path parts below the data root (\<open>None\<close>: it is not below).\<close>

definition domain_from_path :: "string list option \<Rightarrow> string" where
  "domain_from_path relative =
     (case relative of
        Some [f] \<Rightarrow> dget_or domain_map (lower (pure_stem f)) (pure_stem f)
      | Some (d # _) \<Rightarrow> d
      | _ \<Rightarrow> ''UNKNOWN'')"

definition blank_value :: "pyval \<Rightarrow> bool" where
  "blank_value v = (v = PNone \<or> v = PStr [])"

definition annotate_domain :: "string \<Rightarrow> pydict list \<Rightarrow> pydict list" where
  "annotate_domain domain rows =
     (if domain = ''UNKNOWN'' then rows
      else map (\<lambda>row. if blank_value (pget row ''domain'') then dset ''domain'' (PStr domain) row else row) rows)"

subsection \<open>Metadata\<close>

definition metadata_fields :: "string list" where
  "metadata_fields = [''continent'', ''continent_code'', ''country'', ''ISO_2'', ''ISO_3'', ''gt_text'']"

text \<open>The index by image name over the lines of all metadata files; the first entry of a name stays.\<close>

definition index_line :: "(pyval \<Rightarrow> string) \<Rightarrow> string \<Rightarrow> (string, pydict) dict \<Rightarrow> (string, pydict) dict" where
  "index_line rp line idx =
     (if strip line = [] then idx
      else case json_object (strip line) of
        None \<Rightarrow> idx
      | Some item \<Rightarrow>
          if truthy (pget item ''image_name'') then dsetdefault (py_str rp (pget item ''image_name'')) item idx else idx)"

definition load_metadata :: "(pyval \<Rightarrow> string) \<Rightarrow> string list list \<Rightarrow> (string, pydict) dict" where
  "load_metadata rp files = fold (index_line rp) (concat files) []"

definition patch_field :: "pydict \<Rightarrow> string \<Rightarrow> pydict \<Rightarrow> pydict" where
  "patch_field meta field row =
     (if blank_value (pget row field) \<and> \<not> blank_value (pget meta field) then dset field (pget meta field) row else row)"

definition patch_row :: "(pyval \<Rightarrow> string) \<Rightarrow> (string, pydict) dict \<Rightarrow> pydict \<Rightarrow> pydict" where
  "patch_row rp idx row =
     (let name = (if truthy (pget row ''image_name'') then py_str rp (pget row ''image_name'')
                  else if truthy (pget row ''image_path'') then path_name (py_str rp (pget row ''image_path''))
                  else [])
      in if name = [] then row
         else case dget idx name of
           None \<Rightarrow> row
         | Some meta \<Rightarrow> fold (patch_field meta) metadata_fields row)"

definition patch_rows :: "(pyval \<Rightarrow> string) \<Rightarrow> (string, pydict) dict \<Rightarrow> pydict list \<Rightarrow> pydict list" where
  "patch_rows rp idx rows = (if idx = [] then rows else map (patch_row rp idx) rows)"

subsection \<open>Images\<close>

text \<open>\<open>present\<close> tells whether a path exists and gives its resolved form.\<close>

definition tail_after_data_val :: "string \<Rightarrow> string option" where
  "tail_after_data_val path =
     (let tail = tl (dropWhile (\<lambda>p. p \<noteq> ''data_val'') (path_parts path))
      in if ''data_val'' \<notin> set (path_parts path) \<or> tail = [] then None else Some (join ''/'' tail))"

definition image_candidates :: "string \<Rightarrow> string option \<Rightarrow> string \<Rightarrow> string list" where
  "image_candidates data_val_root image_root raw =
     (if starts_with ''/'' raw then [raw]
      else (case image_root of Some r \<Rightarrow> [path_join r raw] | None \<Rightarrow> []) @ [path_join data_val_root raw])
     @ (case tail_after_data_val raw of Some t \<Rightarrow> [path_join data_val_root t] | None \<Rightarrow> [])"

definition resolve_image ::
  "(pyval \<Rightarrow> string) \<Rightarrow> (string \<Rightarrow> string option) \<Rightarrow> (string, string) dict \<Rightarrow> string \<Rightarrow> string option \<Rightarrow> pyval
     \<Rightarrow> string option" where
  "resolve_image rp present basename_index data_val_root image_root raw_path =
     (if raw_path = PNone then None
      else
        let raw = strip (py_str rp raw_path) in
        if raw = [] then None
        else case List.map_filter present (image_candidates data_val_root image_root raw) of
          p # _ \<Rightarrow> Some p
        | [] \<Rightarrow> if path_name raw = [] then None else Option.bind (dget basename_index (path_name raw)) present)"

subsection \<open>Inference\<close>

datatype infer_response =
    Resp_exception string
  | Resp_unreadable string
  | Resp_content "string option"

datatype batch_outcome =
    Batch_timeout
  | Batch_failed
  | Responses "infer_response list"

record infer_args =
  ia_image_field :: string
  ia_answer_field :: string
  ia_success_field :: string
  ia_batch_size :: int

definition mark_missing_image :: "infer_args \<Rightarrow> pydict \<Rightarrow> pydict" where
  "mark_missing_image A row =
     dset (ia_success_field A @ ''_error'') (PStr (''missing image path from field '' @ ia_image_field A))
      (dset (ia_success_field A) (PBool False) (dset (ia_answer_field A) (PStr []) row))"

definition apply_response :: "infer_args \<Rightarrow> infer_response \<Rightarrow> pydict \<Rightarrow> pydict" where
  "apply_response A r row =
     (case r of
        Resp_exception e \<Rightarrow>
          dset (ia_success_field A @ ''_error'') (PStr e)
           (dset (ia_success_field A) (PBool False) (dset (ia_answer_field A) (PStr []) row))
      | Resp_unreadable e \<Rightarrow>
          dset (ia_success_field A) (PBool False)
           (dset (ia_answer_field A) (PStr []) (dset (ia_success_field A @ ''_error'') (PStr e) row))
      | Resp_content c \<Rightarrow>
          (let content = (case c of Some t \<Rightarrow> t | None \<Rightarrow> [])
           in dset (ia_success_field A) (PBool (content \<noteq> [])) (dset (ia_answer_field A) (PStr content) row)))"

text \<open>
  The loop over batches of row indices.  \<open>infer k\<close> answers the \<open>k\<close>-th batch sent; a timeout or
  a failure of the engine ends the loop with what has been written so far.
\<close>

fun run_batches ::
  "infer_args \<Rightarrow> (pyval \<Rightarrow> string option) \<Rightarrow> (nat \<Rightarrow> string list \<Rightarrow> batch_outcome) \<Rightarrow> nat \<Rightarrow> nat list list
     \<Rightarrow> pydict list \<Rightarrow> pydict list \<times> bool" where
  "run_batches A resolve infer k [] rows = (rows, True)"
| "run_batches A resolve infer k (batch # batches) rows =
     (let image = (\<lambda>i. resolve (pget (rows ! i) (ia_image_field A)));
          valid = filter (\<lambda>i. image i \<noteq> None) batch;
          rows1 = fold (\<lambda>i rs. rs[i := mark_missing_image A (rs ! i)]) (filter (\<lambda>i. image i = None) batch) rows
      in if valid = [] then run_batches A resolve infer k batches rows1
         else case infer k (map (\<lambda>i. the (image i)) valid) of
           Responses rs \<Rightarrow>
             run_batches A resolve infer (k + 1) batches
               (fold (\<lambda>(r, i) rs'. rs'[i := apply_response A r (rs' ! i)]) (zip rs valid) rows1)
         | _ \<Rightarrow> (rows1, False))"

definition run_inference_for_rows ::
  "infer_args \<Rightarrow> (pyval \<Rightarrow> string option) \<Rightarrow> (nat \<Rightarrow> string list \<Rightarrow> batch_outcome) \<Rightarrow> pydict list
     \<Rightarrow> pydict list \<times> bool" where
  "run_inference_for_rows A resolve infer rows =
     run_batches A resolve infer 0 (chunks (nat (max 1 (ia_batch_size A))) [0 ..< length rows])
       (map (\<lambda>row. dsetdefault (ia_success_field A) (PBool False) (dsetdefault (ia_answer_field A) (PStr []) row)) rows)"

end
