(* ===== verification/EvalScore.thy ===== *)
theory EvalScore
  imports EvalRows
begin

text \<open>
  The benchmark evaluator, second half: the answer read from a model's output, the geocoding of
  an answer with broader and broader addresses, the scored rows, and the metrics of a report.
  The request to the geocoder is the function \<open>call\<close> on its state; the last section plugs in
  the reward's own client.
\<close>

subsection \<open>The answer\<close>

definition normalize_answer :: "string \<Rightarrow> string" where
  "normalize_answer v = strip (re_sub (rx_plus blank) (\<lambda>_. '' '') v)"

definition line_break :: "char \<Rightarrow> bool" where
  "line_break c = (c \<in> set [CHR 0x0A, CHR 0x0B, CHR 0x0C, CHR 0x0D, CHR 0x1C, CHR 0x1D, CHR 0x1E])"

text \<open>\<open>str.splitlines\<close>; the first argument is the current line, reversed.\<close>

fun split_lines :: "string \<Rightarrow> string \<Rightarrow> string list" where
  "split_lines cur [] = (if cur = [] then [] else [rev cur])"
| "split_lines cur [c] = (if line_break c then [rev cur] else [rev (c # cur)])"
| "split_lines cur (c # d # s) =
     (if c = CHR 0x0D \<and> d = CHR 0x0A then rev cur # split_lines [] s
      else if line_break c then rev cur # split_lines [] (d # s)
      else split_lines (c # cur) (d # s))"

definition strip_code_fences :: "string \<Rightarrow> string" where
  "strip_code_fences txt =
     (let lines = split_lines [] (strip txt) in
      if 2 \<le> length lines \<and> starts_with ''```'' (hd lines) \<and> starts_with ''```'' (last lines)
      then strip (join [CHR 0x0A] (butlast (tl lines))) else strip txt)"

definition eval_final_answer_re :: rx where
  "eval_final_answer_re =
     (let quote = Cls (\<lambda>c. c = CHR 0x22); backslash = Cls (\<lambda>c. c = CHR 0x5C)
      in seqs [quote, lit_ci ''FinalAnswer'', quote, blanks, lit '':'', blanks, quote,
               Grp 1 (Star True (Alt (Seq backslash dot_all) (Cls (\<lambda>c. c \<noteq> CHR 0x22 \<and> c \<noteq> CHR 0x5C)))), quote])"

definition extract_final_answer_text :: "pyval \<Rightarrow> string option" where
  "extract_final_answer_text raw_answer =
     (case raw_answer of
        PStr s \<Rightarrow>
          (let txt = strip s in
           if txt = [] then None
           else
             let payload = strip_code_fences
                   (case re_search answer_re txt of Some gs \<Rightarrow> strip (group 1 gs) | None \<Rightarrow> txt);
                 from_json = (case json_object payload of
                   Some d \<Rightarrow>
                     (case py_or (pget d ''FinalAnswer'') (pget d ''final_answer'') of
                        PStr v \<Rightarrow> if strip v = [] then None else Some (normalize_answer v) | _ \<Rightarrow> None)
                 | None \<Rightarrow> None)
             in case from_json of
                  Some a \<Rightarrow> Some a
                | None \<Rightarrow>
                    (case (case re_search eval_final_answer_re payload of
                             Some gs \<Rightarrow> Some gs | None \<Rightarrow> re_search eval_final_answer_re txt) of
                       None \<Rightarrow> None
                     | Some gs \<Rightarrow>
                         Some (normalize_answer
                           (case json_loads ([CHR 0x22] @ group 1 gs @ [CHR 0x22]) of
                              Some (PStr t) \<Rightarrow> t | _ \<Rightarrow> group 1 gs))))
      | _ \<Rightarrow> None)"

definition eval_extract_answer :: "(pyval \<Rightarrow> string) \<Rightarrow> pyval \<Rightarrow> string option" where
  "eval_extract_answer rp raw_answer =
     (case raw_answer of
        PStr s \<Rightarrow>
          if strip s = [] then None
          else (case extract_answer_content rp s of
                  Some a \<Rightarrow> if strip a = [] then extract_final_answer_text raw_answer else Some (normalize_answer a)
                | None \<Rightarrow> extract_final_answer_text raw_answer)
      | _ \<Rightarrow> None)"

definition to_bool :: "pyval \<Rightarrow> bool" where
  "to_bool v =
     (case v of
        PStr s \<Rightarrow> lower (strip s) \<notin> set [''false'', ''0'', ''no'', ''n'', []]
      | _ \<Rightarrow> truthy v)"

subsection \<open>Geocoding with broader addresses\<close>

definition split_address_parts :: "string \<Rightarrow> string list" where
  "split_address_parts final_answer =
     filter (\<lambda>p. p \<noteq> [])
       (map strip (re_split (seqs [blanks, Alt (lit '';'') (lit fw_semicolon), blanks]) (strip final_answer)))"

definition address_prefixes :: "string list \<Rightarrow> string list" where
  "address_prefixes parts = map (\<lambda>n. strip (join ''; '' (take n parts))) (rev [1 ..< Suc (length parts)])"

definition build_geocode_candidates :: "string \<Rightarrow> string list" where
  "build_geocode_candidates final_answer =
     fold (\<lambda>c cs. if c = [] \<or> c \<in> set cs then cs else cs @ [c]) (address_prefixes (split_address_parts final_answer)) []"

definition attempt_record :: "string \<Rightarrow> pyval \<Rightarrow> pydict" where
  "attempt_record candidate geo_result =
     (case geo_result of
        PDict d \<Rightarrow> dsetdefault ''address'' (PStr candidate) d
      | _ \<Rightarrow> [(''status'', PStr ''error''), (''message'', PStr ''invalid geocode result''), (''address'', PStr candidate)])"

definition has_coordinates :: "pyval \<Rightarrow> bool" where
  "has_coordinates geo_result =
     (case geo_result of
        PDict d \<Rightarrow> py_float (pget d ''latitude'') \<noteq> None \<and> py_float (pget d ''longitude'') \<noteq> None
      | _ \<Rightarrow> False)"

definition resolved_result :: "string \<Rightarrow> string \<Rightarrow> pydict list \<Rightarrow> pyval \<Rightarrow> pyval" where
  "resolved_result final_answer candidate attempts geo_result =
     (case geo_result of
        PDict d \<Rightarrow>
          if candidate = final_answer then geo_result
          else PDict (dset ''fallback_attempts'' (PList (map PDict attempts))
                 (dset ''original_final_answer'' (PStr final_answer)
                   (dset ''resolved_from'' (PStr candidate) d)))
      | _ \<Rightarrow> geo_result)"

fun try_candidates ::
  "(string \<Rightarrow> 's \<Rightarrow> (pyval \<times> 's) option) \<Rightarrow> string \<Rightarrow> pydict list \<Rightarrow> string list \<Rightarrow> 's \<Rightarrow> (pyval \<times> 's) option" where
  "try_candidates call final_answer attempts [] s =
     Some (PDict (dset ''fallback_attempts'' (PList (map PDict attempts))
             (dset ''original_final_answer'' (PStr final_answer) (last attempts))), s)"
| "try_candidates call final_answer attempts (c # cs) s =
     (case call c s of
        None \<Rightarrow> None
      | Some (geo_result, s1) \<Rightarrow>
          (let attempts' = attempts @ [attempt_record c geo_result] in
           if has_coordinates geo_result then Some (resolved_result final_answer c attempts' geo_result, s1)
           else try_candidates call final_answer attempts' cs s1))"

definition eval_geocode :: "(string \<Rightarrow> 's \<Rightarrow> (pyval \<times> 's) option) \<Rightarrow> string \<Rightarrow> 's \<Rightarrow> (pyval \<times> 's) option" where
  "eval_geocode call final_answer s =
     (case build_geocode_candidates final_answer of
        [] \<Rightarrow> Some (invalid_query final_answer, s)
      | cs \<Rightarrow> try_candidates call final_answer [] cs s)"

subsection \<open>Scoring the rows\<close>

definition get_truth_coordinates :: "string \<Rightarrow> string \<Rightarrow> pydict \<Rightarrow> (real \<times> real) option" where
  "get_truth_coordinates latitude_field longitude_field row =
     (let lat_keys = (if latitude_field \<noteq> ''auto'' then [latitude_field] else [''latitude'', ''gt_latitude'', ''lat'']);
          lon_keys = (if longitude_field \<noteq> ''auto'' then [longitude_field]
                      else [''longitude'', ''gt_longitude'', ''lon'', ''lng''])
      in case (first_some (\<lambda>k. py_float (pget row k)) lat_keys, first_some (\<lambda>k. py_float (pget row k)) lon_keys) of
           (Some lat, Some lon) \<Rightarrow>
             if - 90 \<le> lat \<and> lat \<le> 90 \<and> - 180 \<le> lon \<and> lon \<le> 180 then Some (lat, lon) else None
         | _ \<Rightarrow> None)"

datatype enrich_kind = Geocode_success | Geocode_failed | Parse_failed | Inference_failed

record enrich_args =
  ea_answer_field :: string
  ea_success_field :: string
  ea_latitude_field :: string
  ea_longitude_field :: string
  ea_result_field :: string
  ea_max_distance :: real

definition coordinate_result ::
  "enrich_args \<Rightarrow> pydict \<Rightarrow> string \<Rightarrow> pyval \<Rightarrow> (pydict \<times> enrich_kind) res" where
  "coordinate_result A row final_answer geo_result =
     (let d = (case geo_result of PDict d \<Rightarrow> d | _ \<Rightarrow> []);
          plat = py_float (pget d ''latitude''); plng = py_float (pget d ''longitude'');
          opt = (\<lambda>x. case x of Some f \<Rightarrow> PFloat f | None \<Rightarrow> PNone);
          base = [(''final_answer'', PStr final_answer), (''status'', PInt 1), (''pred_latitude'', opt plat),
                  (''pred_longitude'', opt plng), (''geocode_result'', geo_result)];
          failed = (\<lambda>reason. Inr (dset ''reason'' (PStr reason) (dset ''status'' (PInt 0) base), Geocode_failed))
      in case (plat, plng) of
           (Some la, Some lo) \<Rightarrow>
             (case get_truth_coordinates (ea_latitude_field A) (ea_longitude_field A) row of
                None \<Rightarrow> failed ''missing_truth_coordinates''
              | Some (tla, tlo) \<Rightarrow>
                  res_bind (calculate_distance la lo tla tlo) (\<lambda>distance.
                    Inr (dset ''training_reward_geoscore'' (PFloat (calculate_geoscore (ea_max_distance A) distance))
                          (dset ''geoscore'' (PFloat (report_geoscore distance))
                            (dset ''distance'' (PFloat distance) base)), Geocode_success)))
         | _ \<Rightarrow> failed ''invalid_pred_coordinates'')"

text \<open>One row: its result, what is counted, and the state of the geocoder.\<close>

definition enrich_row ::
  "(string \<Rightarrow> 's \<Rightarrow> (pyval \<times> 's) option) \<Rightarrow> (pyval \<Rightarrow> string) \<Rightarrow> enrich_args \<Rightarrow> pydict \<Rightarrow> 's
     \<Rightarrow> (pydict \<times> enrich_kind \<times> 's) res option" where
  "enrich_row call rp A row s =
     (if ea_success_field A \<noteq> [] \<and> \<not> to_bool (pget row (ea_success_field A)) then
        Some (Inr ([(''status'', PInt (- 1))], Inference_failed, s))
      else
        let final_answer = (case eval_extract_answer rp (pget row (ea_answer_field A)) of Some a \<Rightarrow> a | None \<Rightarrow> []) in
        if final_answer = [] then
          Some (Inr ([(''final_answer'', PStr []), (''status'', PInt 0),
                      (''reason'', PStr ''final_answer_parse_failed'')], Parse_failed, s))
        else
          case eval_geocode call final_answer s of
            None \<Rightarrow> None
          | Some (geo_result, s1) \<Rightarrow>
              (if (case geo_result of PDict d \<Rightarrow> pget d ''status'' \<noteq> PStr ''success'' | _ \<Rightarrow> True) then
                 Some (Inr ([(''final_answer'', PStr final_answer), (''status'', PInt 0),
                             (''reason'', PStr ''geocode_failed''), (''geocode_result'', geo_result)],
                            Geocode_failed, s1))
               else
                 Some (res_bind (coordinate_result A row final_answer geo_result)
                   (\<lambda>(result, kind). Inr (result, kind, s1)))))"

fun enrich_rows ::
  "(string \<Rightarrow> 's \<Rightarrow> (pyval \<times> 's) option) \<Rightarrow> (pyval \<Rightarrow> string) \<Rightarrow> enrich_args \<Rightarrow> pydict list \<Rightarrow> 's
     \<Rightarrow> (pydict list \<times> enrich_kind list \<times> 's) res option" where
  "enrich_rows call rp A [] s = Some (Inr ([], [], s))"
| "enrich_rows call rp A (row # rows) s =
     (case enrich_row call rp A row s of
        None \<Rightarrow> None
      | Some (Inl e) \<Rightarrow> Some (Inl e)
      | Some (Inr (result, kind, s1)) \<Rightarrow>
          (case enrich_rows call rp A rows s1 of
             None \<Rightarrow> None
           | Some r \<Rightarrow>
               Some (res_bind r (\<lambda>(rows', kinds, s2).
                 Inr (dset (ea_result_field A) (PDict result) row # rows', kind # kinds, s2)))))"

definition kind_count :: "enrich_kind \<Rightarrow> enrich_kind list \<Rightarrow> nat" where
  "kind_count k kinds = count_list kinds k"

subsection \<open>Metrics\<close>

definition distance_thresholds :: "(string \<times> real) list" where
  "distance_thresholds =
     [(''continent_accuracy'', 2500), (''country_accuracy'', 750), (''region_accuracy'', 200), (''city_accuracy'', 25),
      (''street_accuracy'', 1)]"

record eval_metrics =
  em_total :: nat
  em_valid :: nat
  em_status_counts :: "nat \<times> nat \<times> nat"
  em_accuracies :: "(string \<times> real) list"
  em_mean_distance :: real
  em_median_distance :: real
  em_mean_geoscore :: real
  em_median_geoscore :: real

definition row_status :: "string \<Rightarrow> pydict \<Rightarrow> pyval option" where
  "row_status result_field row =
     (case pget row result_field of PDict d \<Rightarrow> Some (pget d ''status'') | _ \<Rightarrow> None)"

definition row_distance :: "string \<Rightarrow> pydict \<Rightarrow> real option" where
  "row_distance result_field row =
     (case pget row result_field of
        PDict d \<Rightarrow> if py_eq (pget d ''status'') (PInt 1) then py_float (pget d ''distance'') else None
      | _ \<Rightarrow> None)"

definition status_count :: "string \<Rightarrow> int \<Rightarrow> pydict list \<Rightarrow> nat" where
  "status_count result_field k rows =
     length (filter (\<lambda>row. case row_status result_field row of Some v \<Rightarrow> py_eq v (PInt k) | None \<Rightarrow> False) rows)"

definition unhashable_status :: "string \<Rightarrow> pydict \<Rightarrow> bool" where
  "unhashable_status result_field row =
     (case row_status result_field row of Some (PList _) \<Rightarrow> True | Some (PDict _) \<Rightarrow> True | _ \<Rightarrow> False)"

definition row_geoscore :: "string \<Rightarrow> pydict \<Rightarrow> real" where
  "row_geoscore result_field row = (case row_distance result_field row of Some d \<Rightarrow> report_geoscore d | None \<Rightarrow> 0)"

definition eval_compute_metrics :: "string \<Rightarrow> pydict list \<Rightarrow> eval_metrics res" where
  "eval_compute_metrics result_field rows =
     (if list_ex (unhashable_status result_field) rows then Inl TypeError
      else
        let ds = List.map_filter (row_distance result_field) rows;
            geoscores = map (row_geoscore result_field) rows
        in Inr \<lparr>em_total = length rows, em_valid = length ds,
                em_status_counts = (status_count result_field (- 1) rows, status_count result_field 0 rows,
                                    status_count result_field 1 rows),
                em_accuracies = map (\<lambda>(name, t). (name, if rows = [] then 0
                    else real (length (filter (\<lambda>d. d \<le> t) ds)) / real (length rows))) distance_thresholds,
                em_mean_distance = (if ds = [] then 0 else mean ds),
                em_median_distance = (if ds = [] then 0 else median ds),
                em_mean_geoscore = (if geoscores = [] then 0 else mean geoscores),
                em_median_geoscore = (if geoscores = [] then 0 else median geoscores)\<rparr>)"

definition group_key :: "(pyval \<Rightarrow> string) \<Rightarrow> string \<Rightarrow> pydict \<Rightarrow> string" where
  "group_key rp field row =
     (let k = strip (py_str rp (py_or (pget row field) (PStr ''UNKNOWN''))) in if k = [] then ''UNKNOWN'' else k)"

definition group_by_field :: "(pyval \<Rightarrow> string) \<Rightarrow> string \<Rightarrow> pydict list \<Rightarrow> (string, pydict list) dict" where
  "group_by_field rp field rows = group_by (group_key rp field) rows"

definition grouped_metrics ::
  "(pyval \<Rightarrow> string) \<Rightarrow> string \<Rightarrow> string \<Rightarrow> pydict list \<Rightarrow> (string \<times> eval_metrics) list res" where
  "grouped_metrics rp field result_field rows =
     map_res (\<lambda>(k, group_rows). res_bind (eval_compute_metrics result_field group_rows) (\<lambda>m. Inr (k, m)))
       (sort_key fst (group_by_field rp field rows))"

record eval_report =
  er_overall :: eval_metrics
  er_domains :: "(string \<times> eval_metrics) list"
  er_continents :: "(string \<times> eval_metrics) list"

definition write_report :: "(pyval \<Rightarrow> string) \<Rightarrow> string \<Rightarrow> string \<Rightarrow> pydict list \<Rightarrow> eval_report res" where
  "write_report rp continent_field result_field rows =
     res_bind (eval_compute_metrics result_field rows) (\<lambda>overall.
     res_bind (grouped_metrics rp continent_field result_field rows) (\<lambda>continents.
     res_bind (grouped_metrics rp ''domain'' result_field rows) (\<lambda>domains.
       Inr \<lparr>er_overall = overall, er_domains = domains, er_continents = continents\<rparr>)))"

subsection \<open>Scoring a list of files\<close>

text \<open>
  Every file's rows are patched, scored with the one geocoder and reported; with more than one
  file all rows are reported together.  A file is its domain and its rows.
\<close>

fun score_files_loop ::
  "(string \<Rightarrow> 's \<Rightarrow> (pyval \<times> 's) option) \<Rightarrow> (pyval \<Rightarrow> string) \<Rightarrow> enrich_args \<Rightarrow> string \<Rightarrow> (string, pydict) dict
     \<Rightarrow> (string \<times> pydict list) list \<Rightarrow> 's \<Rightarrow> ((pydict list \<times> eval_report) list \<times> 's) res option" where
  "score_files_loop call rp A continent_field idx [] s = Some (Inr ([], s))"
| "score_files_loop call rp A continent_field idx ((domain, rows) # files) s =
     (case enrich_rows call rp A (patch_rows rp idx (annotate_domain domain rows)) s of
        None \<Rightarrow> None
      | Some (Inl e) \<Rightarrow> Some (Inl e)
      | Some (Inr (rows', kinds, s1)) \<Rightarrow>
          (case write_report rp continent_field (ea_result_field A) rows' of
             Inl e \<Rightarrow> Some (Inl e)
           | Inr report \<Rightarrow>
               (case score_files_loop call rp A continent_field idx files s1 of
                  None \<Rightarrow> None
                | Some r \<Rightarrow> Some (res_bind r (\<lambda>(done, s2). Inr ((rows', report) # done, s2))))))"

definition score_files ::
  "(string \<Rightarrow> 's \<Rightarrow> (pyval \<times> 's) option) \<Rightarrow> (pyval \<Rightarrow> string) \<Rightarrow> enrich_args \<Rightarrow> string \<Rightarrow> (string, pydict) dict
     \<Rightarrow> (string \<times> pydict list) list \<Rightarrow> 's \<Rightarrow> ((pydict list \<times> eval_report) list \<times> eval_report option) res option" where
  "score_files call rp A continent_field idx files s =
     (case score_files_loop call rp A continent_field idx files s of
        None \<Rightarrow> None
      | Some r \<Rightarrow>
          Some (res_bind r (\<lambda>(done, s').
            if 1 < length files then
              res_bind (write_report rp continent_field (ea_result_field A) (concat (map fst done)))
                (\<lambda>combined. Inr (done, Some combined))
            else Inr (done, None))))"

definition score_files_with_reward ::
  "nat \<Rightarrow> geo_config \<Rightarrow> (nat \<Rightarrow> string \<Rightarrow> http_outcome) \<Rightarrow> (pyval \<Rightarrow> string) \<Rightarrow> enrich_args \<Rightarrow> string
     \<Rightarrow> (string, pydict) dict \<Rightarrow> (string \<times> pydict list) list \<Rightarrow> geo_client
     \<Rightarrow> ((pydict list \<times> eval_report) list \<times> eval_report option) res option" where
  "score_files_with_reward fuel C net = score_files (\<lambda>a s. call_opencage_geocoding fuel C net a 0 s)"

subsection \<open>What is scored is what is reported\<close>

definition kind_status :: "enrich_kind \<Rightarrow> int" where
  "kind_status k = (case k of Geocode_success \<Rightarrow> 1 | Inference_failed \<Rightarrow> - 1 | _ \<Rightarrow> 0)"

text \<open>A result is what its kind says: the status of the kind, and a distance only on success.\<close>

definition result_of_kind :: "pydict \<Rightarrow> enrich_kind \<Rightarrow> bool" where
  "result_of_kind result kind =
     (pget result ''status'' = PInt (kind_status kind)
      \<and> (kind = Geocode_success \<longrightarrow> py_float (pget result ''distance'') \<noteq> None))"

lemma coordinate_result_kind:
  "coordinate_result A row a g = Inr (result, kind) \<Longrightarrow> result_of_kind result kind"
  by (auto simp: coordinate_result_def result_of_kind_def kind_status_def res_bind_eq_Inr_iff Let_def
      split: option.splits)

lemma enrich_row_kind:
  "enrich_row call rp A row s = Some (Inr (result, kind, s')) \<Longrightarrow> result_of_kind result kind"
  by (auto simp: enrich_row_def Let_def res_bind_eq_Inr_iff result_of_kind_def kind_status_def
      split: if_splits option.splits pyval.splits dest!: coordinate_result_kind)

lemma enrich_rows_parts:
  assumes "enrich_rows call rp A rows s = Some (Inr (rows', kinds, s'))"
  shows "list_all2 (\<lambda>row kind. \<exists>result. pget row (ea_result_field A) = PDict result \<and> result_of_kind result kind)
      rows' kinds \<and> length rows' = length rows"
  using assms
proof (induction rows arbitrary: s rows' kinds s')
  case (Cons row rows)
  then obtain result kind s1 rows1 kinds1 where r: "enrich_row call rp A row s = Some (Inr (result, kind, s1))"
    and rs: "enrich_rows call rp A rows s1 = Some (Inr (rows1, kinds1, s'))"
    and eq: "rows' = dset (ea_result_field A) (PDict result) row # rows1" "kinds = kind # kinds1"
    by (auto simp: res_bind_eq_Inr_iff split: option.splits sum.splits)
  show ?case using Cons.IH [OF rs] enrich_row_kind [OF r] by (simp add: eq)
qed simp

lemma py_eq_PInt [simp]: "py_eq (PInt i) (PInt j) \<longleftrightarrow> i = j"
  by simp

lemma kind_metrics:
  assumes "list_all2 (\<lambda>row kind. \<exists>result. pget row f = PDict result \<and> result_of_kind result kind) rows kinds"
  shows "\<not> list_ex (unhashable_status f) rows
    \<and> length (List.map_filter (row_distance f) rows) = kind_count Geocode_success kinds
    \<and> status_count f (- 1) rows = kind_count Inference_failed kinds
    \<and> status_count f 0 rows = kind_count Parse_failed kinds + kind_count Geocode_failed kinds
    \<and> status_count f 1 rows = kind_count Geocode_success kinds"
  using assms
proof (induction rows kinds rule: list_all2_induct)
  case Nil
  then show ?case by (simp add: kind_count_def status_count_def List.map_filter_simps)
next
  case (Cons row rows kind kinds)
  then obtain result where "pget row f = PDict result" "result_of_kind result kind" by blast
  with Cons.IH show ?case
    by (cases kind)
       (auto simp: kind_count_def status_count_def List.map_filter_simps unhashable_status_def row_status_def
          row_distance_def result_of_kind_def kind_status_def)
qed

text \<open>
  C10. The report counts exactly what the scoring did: after a file is scored the metrics of its
  rows exist, with one valid prediction per geocoding success and the status counts -1, 0 and 1
  equal to the failed inferences, the failed parses and lookups, and the successes.
\<close>

theorem report_matches_scoring:
  assumes "enrich_rows call rp A rows s = Some (Inr (rows', kinds, s'))"
  shows "\<exists>m. eval_compute_metrics (ea_result_field A) rows' = Inr m \<and> em_total m = length rows
    \<and> em_valid m = kind_count Geocode_success kinds
    \<and> em_status_counts m = (kind_count Inference_failed kinds,
         kind_count Parse_failed kinds + kind_count Geocode_failed kinds, kind_count Geocode_success kinds)"
  using enrich_rows_parts [OF assms] kind_metrics [of "ea_result_field A" rows' kinds]
  by (simp add: eval_compute_metrics_def Let_def)

subsection \<open>Broader addresses\<close>

lemma fold_dedupe:
  "set (fold (\<lambda>c cs. if c = [] \<or> c \<in> set cs then cs else cs @ [c]) xs acc) = set acc \<union> (set xs - {[]})
   \<and> length (fold (\<lambda>c cs. if c = [] \<or> c \<in> set cs then cs else cs @ [c]) xs acc) \<le> length acc + length xs"
proof (induction xs arbitrary: acc)
  case (Cons x xs)
  show ?case
    using Cons [of acc] Cons [of "acc @ [x]"] by (cases "x = [] \<or> x \<in> set acc") auto
qed simp

lemma length_address_prefixes: "length (address_prefixes parts) = length parts"
  by (simp only: address_prefixes_def length_map length_rev length_upt)

lemma candidates_bound: "length (build_geocode_candidates a) \<le> length (split_address_parts a)"
  using fold_dedupe [of "address_prefixes (split_address_parts a)" "[]", THEN conjunct2]
  unfolding build_geocode_candidates_def length_address_prefixes by (simp only: list.size add_0)

lemma has_coordinates_resolved:
  "has_coordinates (resolved_result fa c atts g) = has_coordinates g"
  by (auto simp: has_coordinates_def resolved_result_def split: pyval.splits)

lemma pget_dsetdefault: "k \<noteq> k' \<Longrightarrow> pget (dsetdefault k v d) k' = pget d k'"
  by (simp add: dsetdefault_def)

lemma attempt_record_coordinates: "has_coordinates (PDict (attempt_record c g)) = has_coordinates g"
  by (cases g) (simp_all add: attempt_record_def has_coordinates_def pget_dsetdefault)

lemma try_candidates_counting:
  assumes "cs = [] \<longrightarrow> atts \<noteq> [] \<and> \<not> has_coordinates (PDict (last atts))"
  shows "\<exists>v k. try_candidates (\<lambda>a n. Some (f a, n + 1)) fa atts cs n = Some (v, n + k) \<and> k \<le> length cs
    \<and> (has_coordinates v \<longleftrightarrow> (\<exists>c \<in> set cs. has_coordinates (f c)))
    \<and> (\<forall>c \<in> set (take (k - 1) cs). \<not> has_coordinates (f c))"
  using assms
proof (induction cs arbitrary: atts n)
  case Nil
  then show ?case by (auto simp: has_coordinates_def)
next
  case (Cons c cs)
  let ?atts = "atts @ [attempt_record c (f c)]"
  show ?case
  proof (cases "has_coordinates (f c)")
    case True
    then show ?thesis
      by (intro exI [of _ "resolved_result fa c ?atts (f c)"] exI [of _ 1]) (simp add: has_coordinates_resolved)
  next
    case False
    then have "cs = [] \<longrightarrow> ?atts \<noteq> [] \<and> \<not> has_coordinates (PDict (last ?atts))"
      by (simp add: attempt_record_coordinates)
    from Cons.IH [OF this, of "n + 1"] obtain v k
      where v: "try_candidates (\<lambda>a n. Some (f a, n + 1)) fa ?atts cs (n + 1) = Some (v, n + 1 + k)" "k \<le> length cs"
        and h: "has_coordinates v \<longleftrightarrow> (\<exists>c \<in> set cs. has_coordinates (f c))"
        and p: "\<forall>c \<in> set (take (k - 1) cs). \<not> has_coordinates (f c)" by blast
    have "\<forall>x \<in> set (take k (c # cs)). \<not> has_coordinates (f x)"
      using False p by (cases k) auto
    then show ?thesis using v h False by (intro exI [of _ v] exI [of _ "Suc k"]) auto
  qed
qed

text \<open>
  Geocoding an answer asks for its full address, then for broader and broader ones, and
  stops at the first that has coordinates: it ends after at most one request per address part,
  and the result has coordinates exactly when some candidate does.
\<close>

theorem geocode_broadens:
  "\<exists>v k. eval_geocode (\<lambda>a n. Some (f a, n + 1)) final_answer n = Some (v, n + k)
     \<and> k \<le> length (split_address_parts final_answer)
     \<and> (has_coordinates v \<longleftrightarrow> (\<exists>c \<in> set (build_geocode_candidates final_answer). has_coordinates (f c)))
     \<and> list_all (\<lambda>c. \<not> has_coordinates (f c)) (take (k - 1) (build_geocode_candidates final_answer))"
proof (cases "build_geocode_candidates final_answer")
  case Nil
  then show ?thesis by (simp add: eval_geocode_def has_coordinates_def invalid_query_def)
next
  case (Cons c cs)
  then show ?thesis
    using try_candidates_counting [of "c # cs" "[]" f final_answer n] candidates_bound [of final_answer]
    by (auto simp: eval_geocode_def list_all_iff)
qed


definition enrich_example :: enrich_args where
  "enrich_example =
     \<lparr>ea_answer_field = ''answer'', ea_success_field = ''ok'', ea_latitude_field = ''auto'', ea_longitude_field = ''auto'',
      ea_result_field = ''result'', ea_max_distance = 1000\<rparr>"

definition rows_example :: "pydict list" where
  "rows_example =
     [[(''ok'', PBool False)],
      [(''ok'', PBool True), (''answer'', PStr ''<answer>Paris</answer>''), (''lat'', PInt 48), (''lon'', PInt 2)]]"

definition place_example :: pyval where
  "place_example = PDict [(''status'', PStr ''success''), (''latitude'', PInt 48), (''longitude'', PInt 2)]"

lemma rows_example_enriched:
  "\<exists>rows'. enrich_rows (\<lambda>a n. Some (place_example, n + 1)) (\<lambda>v. []) enrich_example rows_example (0 :: nat)
     = Some (Inr (rows', [Inference_failed, Geocode_success], 1))"
proof -
  have a: "eval_extract_answer (\<lambda>v. []) (PStr ''<answer>Paris</answer>'') = Some ''Paris''" by code_simp
  have c: "build_geocode_candidates ''Paris'' = [''Paris'']" by code_simp
  have "calculate_distance 48 2 48 2 = Inr 0"
    using distance_total_and_metric [of 48 2 48 2] by blast
  then show ?thesis
    by (simp add: rows_example_def enrich_example_def enrich_row_def a eval_geocode_def c place_example_def
        has_coordinates_def resolved_result_def coordinate_result_def get_truth_coordinates_def to_bool_def Let_def)
qed

lemma report_matches_scoring_witness:
  "\<exists>rows' m. eval_compute_metrics ''result'' rows' = Inr m \<and> em_total m = 2 \<and> em_valid m = 1
     \<and> em_status_counts m = (1, 0, 1)"
proof -
  obtain rows' where r: "enrich_rows (\<lambda>a n. Some (place_example, n + 1)) (\<lambda>v. []) enrich_example rows_example (0 :: nat)
     = Some (Inr (rows', [Inference_failed, Geocode_success], 1))" using rows_example_enriched by blast
  from report_matches_scoring [OF r] obtain m where "eval_compute_metrics ''result'' rows' = Inr m" "em_total m = 2"
    "em_valid m = 1" "em_status_counts m = (1, 0, 1)"
    by (auto simp: kind_count_def enrich_example_def rows_example_def numeral_2_eq_2)
  then show ?thesis by blast
qed

subsection \<open>Reports by group\<close>

lemma metrics_additive:
  assumes "eval_compute_metrics f (xs @ ys) = Inr m"
  shows "\<exists>m1 m2. eval_compute_metrics f xs = Inr m1 \<and> eval_compute_metrics f ys = Inr m2
    \<and> em_total m = em_total m1 + em_total m2 \<and> em_valid m = em_valid m1 + em_valid m2"
  using assms by (auto simp: eval_compute_metrics_def Let_def List.map_filter_def split: if_splits)

lemma metrics_concat:
  assumes "eval_compute_metrics f (concat (map snd gs)) = Inr m"
  shows "\<exists>ms. map_res (\<lambda>(k, rs). res_bind (eval_compute_metrics f rs) (\<lambda>m. Inr (k, m))) gs = Inr ms
    \<and> em_total m = sum_list (map (em_total \<circ> snd) ms) \<and> em_valid m = sum_list (map (em_valid \<circ> snd) ms)"
  using assms
proof (induction gs arbitrary: m)
  case Nil
  then show ?case by (auto simp: eval_compute_metrics_def List.map_filter_simps)
next
  case (Cons g gs)
  then obtain m1 m2 where m1: "eval_compute_metrics f (snd g) = Inr m1"
    and m2: "eval_compute_metrics f (concat (map snd gs)) = Inr m2"
    and eq: "em_total m = em_total m1 + em_total m2" "em_valid m = em_valid m1 + em_valid m2"
    using metrics_additive [of f "snd g" "concat (map snd gs)" m] by auto
  from Cons.IH [OF m2] m1 eq show ?case by (cases g) auto
qed

lemma metrics_mset:
  assumes "mset xs = mset ys" and "eval_compute_metrics f xs = Inr m"
  shows "\<exists>m'. eval_compute_metrics f ys = Inr m' \<and> em_total m' = em_total m \<and> em_valid m' = em_valid m"
proof -
  have "set xs = set ys" and len: "length xs = length ys"
    using mset_eq_setD [OF assms(1)] mset_eq_length [OF assms(1)] by simp_all
  then have "list_ex (unhashable_status f) ys = list_ex (unhashable_status f) xs" by (simp add: list_ex_iff)
  moreover have "length (List.map_filter (row_distance f) zs) = size (filter_mset (\<lambda>r. row_distance f r \<noteq> None) (mset zs))"
    for zs by (simp add: List.map_filter_def flip: mset_filter)
  ultimately show ?thesis using assms len by (auto simp: eval_compute_metrics_def Let_def split: if_splits)
qed

lemma grouped_metrics_add_up:
  assumes "eval_compute_metrics f rows = Inr m"
  shows "\<exists>ms. grouped_metrics rp field f rows = Inr ms
    \<and> em_total m = sum_list (map (em_total \<circ> snd) ms) \<and> em_valid m = sum_list (map (em_valid \<circ> snd) ms)"
proof -
  let ?gs = "sort_key fst (group_by_field rp field rows)"
  have "mset ?gs = mset (group_by_field rp field rows)" by (simp only: mset_sort)
  then have "mset (concat (map snd ?gs)) = mset (concat (map snd (group_by_field rp field rows)))"
    by (simp only: mset_concat mset_map sum_mset_sum_list [symmetric])
  then have "mset rows = mset (concat (map snd ?gs))"
    by (simp add: group_by_field_def mset_concat_group_by)
  from metrics_mset [OF this assms] obtain m' where
    m': "eval_compute_metrics f (concat (map snd ?gs)) = Inr m'" "em_total m' = em_total m" "em_valid m' = em_valid m"
    by blast
  from metrics_concat [OF m'(1)] m'(2,3) show ?thesis by (auto simp: grouped_metrics_def)
qed

text \<open>
  The parts of a report add up: over the domains, and over the continents, the totals and the
  valid predictions sum to those of the overall metrics.
\<close>

theorem report_adds_up:
  assumes "write_report rp continent_field result_field rows = Inr r"
  shows "em_total (er_overall r) = length rows
    \<and> sum_list (map (em_total \<circ> snd) (er_domains r)) = length rows
    \<and> sum_list (map (em_total \<circ> snd) (er_continents r)) = length rows
    \<and> sum_list (map (em_valid \<circ> snd) (er_domains r)) = em_valid (er_overall r)
    \<and> sum_list (map (em_valid \<circ> snd) (er_continents r)) = em_valid (er_overall r)"
proof -
  obtain m cs ds where m: "eval_compute_metrics result_field rows = Inr m"
    and c: "grouped_metrics rp continent_field result_field rows = Inr cs"
    and d: "grouped_metrics rp ''domain'' result_field rows = Inr ds"
    and r: "r = \<lparr>er_overall = m, er_domains = ds, er_continents = cs\<rparr>"
    using assms by (auto simp: write_report_def res_bind_eq_Inr_iff)
  have "em_total m = length rows" using m by (auto simp: eval_compute_metrics_def Let_def split: if_splits)
  then show ?thesis
    using grouped_metrics_add_up [OF m, of rp continent_field] grouped_metrics_add_up [OF m, of rp "''domain''"] c d
    by (auto simp: r)
qed

lemma report_adds_up_witness:
  "\<exists>r. write_report (\<lambda>v. []) ''continent'' ''result'' [[(''continent'', PStr ''Asia'')], []] = Inr r
     \<and> sum_list (map (em_total \<circ> snd) (er_continents r)) = 2"
proof -
  have "\<exists>m. eval_compute_metrics ''result'' [[(''continent'', PStr ''Asia'')], []] = Inr m"
    by (simp add: eval_compute_metrics_def unhashable_status_def row_status_def Let_def)
  then obtain m where m: "eval_compute_metrics ''result'' [[(''continent'', PStr ''Asia'')], []] = Inr m" by blast
  from grouped_metrics_add_up [OF m] obtain ms where "\<And>rp field. grouped_metrics rp field ''result'' [[(''continent'', PStr ''Asia'')], []] = Inr (ms rp field)"
    by metis
  with m obtain r where r: "write_report (\<lambda>v. []) ''continent'' ''result'' [[(''continent'', PStr ''Asia'')], []] = Inr r"
    by (simp add: write_report_def)
  from report_adds_up [OF r] r show ?thesis by auto
qed

subsection \<open>The inference loop\<close>

definition answered :: "infer_args \<Rightarrow> pydict \<Rightarrow> bool" where
  "answered A row =
     (pget row (ia_success_field A) = PBool True \<longrightarrow>
       (case pget row (ia_answer_field A) of PStr t \<Rightarrow> t \<noteq> [] | _ \<Rightarrow> False))"

definition own_fields :: "infer_args \<Rightarrow> string set" where
  "own_fields A = {ia_answer_field A, ia_success_field A, ia_success_field A @ ''_error''}"

definition row_step :: "infer_args \<Rightarrow> pydict \<Rightarrow> pydict \<Rightarrow> bool" where
  "row_step A row row' \<longleftrightarrow>
     (\<forall>k. k \<notin> own_fields A \<longrightarrow> pget row' k = pget row k) \<and> (answered A row \<longrightarrow> answered A row')"

lemma row_step_refl: "row_step A row row"
  by (simp add: row_step_def)

lemma row_step_trans: "row_step A a b \<Longrightarrow> row_step A b c \<Longrightarrow> row_step A a c"
  by (simp add: row_step_def)

lemma rows_step_refl: "list_all2 (row_step A) rows rows"
  by (simp add: list_all2_refl row_step_refl)

lemma rows_step_trans: "list_all2 (row_step A) a b \<Longrightarrow> list_all2 (row_step A) b c \<Longrightarrow> list_all2 (row_step A) a c"
  by (rule list_all2_trans [OF row_step_trans])

lemma row_step_mark:
  "ia_success_field A \<noteq> ia_answer_field A \<Longrightarrow> row_step A row (mark_missing_image A row)"
  by (auto simp: row_step_def own_fields_def mark_missing_image_def answered_def)

lemma row_step_apply:
  "ia_success_field A \<noteq> ia_answer_field A \<Longrightarrow> row_step A row (apply_response A r row)"
  by (auto simp: row_step_def own_fields_def apply_response_def answered_def Let_def split: infer_response.splits)

lemma fold_update_step:
  assumes "\<And>p row. row_step A row (f p row)"
  shows "list_all2 (row_step A) rows (fold (\<lambda>p rs. rs[g p := f p (rs ! g p)]) ps rows)"
proof (induction ps arbitrary: rows)
  case (Cons p ps)
  have "list_all2 (row_step A) rows (rows[g p := f p (rows ! g p)])"
  proof (rule list_all2_all_nthI)
    fix i assume "i < length rows"
    then show "row_step A (rows ! i) (rows[g p := f p (rows ! g p)] ! i)"
      using assms by (cases "i = g p") (simp_all add: row_step_refl)
  qed simp
  then show ?case using Cons.IH rows_step_trans by (simp only: fold_simps(2))
qed (simp add: rows_step_refl)

lemma run_batches_step:
  assumes "ia_success_field A \<noteq> ia_answer_field A"
  shows "list_all2 (row_step A) rows (fst (run_batches A resolve infer k batches rows))"
proof (induction batches arbitrary: k rows)
  case (Cons batch batches)
  let ?image = "\<lambda>i. resolve (pget (rows ! i) (ia_image_field A))"
  let ?valid = "filter (\<lambda>i. ?image i \<noteq> None) batch"
  let ?rows1 = "fold (\<lambda>i rs. rs[i := mark_missing_image A (rs ! i)]) (filter (\<lambda>i. ?image i = None) batch) rows"
  have 1: "list_all2 (row_step A) rows ?rows1"
    by (rule fold_update_step [where g = "\<lambda>i. i" and f = "\<lambda>_. mark_missing_image A"]) (rule row_step_mark [OF assms])
  show ?case
  proof (cases "?valid = []")
    case True
    then have "run_batches A resolve infer k (batch # batches) rows = run_batches A resolve infer k batches ?rows1"
      by (simp only: run_batches.simps Let_def if_True simp_thms)
    then show ?thesis using rows_step_trans [OF 1 Cons] by (simp only:)
  next
    case False
    show ?thesis
    proof (cases "infer k (map (\<lambda>i. the (?image i)) ?valid)")
      case (Responses rs)
      let ?rows2 = "fold (\<lambda>(r, i) rs'. rs'[i := apply_response A r (rs' ! i)]) (zip rs ?valid) ?rows1"
      have "list_all2 (row_step A) ?rows1 ?rows2"
        unfolding case_prod_beta
        by (rule fold_update_step [where g = snd and f = "\<lambda>p. apply_response A (fst p)"]) (rule row_step_apply [OF assms])
      then have 2: "list_all2 (row_step A) rows ?rows2" using rows_step_trans [OF 1] by blast
      have "run_batches A resolve infer k (batch # batches) rows = run_batches A resolve infer (k + 1) batches ?rows2"
        by (simp only: run_batches.simps Let_def if_False False Responses batch_outcome.case)
      then show ?thesis using rows_step_trans [OF 2 Cons] by (simp only:)
    next
      case Batch_timeout
      then show ?thesis
        using 1 by (simp only: run_batches.simps Let_def if_False False batch_outcome.case fst_conv)
    next
      case Batch_failed
      then show ?thesis
        using 1 by (simp only: run_batches.simps Let_def if_False False batch_outcome.case fst_conv)
    qed
  qed
qed (simp add: rows_step_refl)

text \<open>
  The inference loop never claims an answer it does not have: whatever the engine returns and
  wherever it times out, no row is lost, only the three fields of the run change, and a row
  marked as completed holds a non-empty answer.
\<close>

theorem inference_never_claims_empty:
  assumes "ia_success_field A \<noteq> ia_answer_field A" and "\<forall>row \<in> set rows. answered A row"
    and "run_inference_for_rows A resolve infer rows = (rows', completed)"
  shows "length rows' = length rows \<and> (\<forall>row \<in> set rows'. answered A row)
    \<and> (\<forall>i < length rows. \<forall>k. k \<notin> own_fields A \<longrightarrow> pget (rows' ! i) k = pget (rows ! i) k)"
proof -
  let ?init = "\<lambda>row. dsetdefault (ia_success_field A) (PBool False) (dsetdefault (ia_answer_field A) (PStr []) row)"
  have init: "row_step A row (?init row)" if "row \<in> set rows" for row
    using assms(1) by (auto simp: row_step_def own_fields_def answered_def pget_def dget_or_def dsetdefault_def
        split: option.splits)
  have "list_all2 (row_step A) rows (map ?init rows)"
    using init by (simp add: list_all2_conv_all_nth)
  moreover have "list_all2 (row_step A) (map ?init rows) rows'"
    using run_batches_step [OF assms(1), of "map ?init rows"] assms(3)
    unfolding run_inference_for_rows_def by (metis fst_conv)
  ultimately have step: "list_all2 (row_step A) rows rows'" by (rule rows_step_trans)
  then have "answered A row" if "row \<in> set rows'" for row
  proof -
    obtain i where i: "i < length rows'" "row = rows' ! i" using \<open>row \<in> set rows'\<close> by (auto simp: in_set_conv_nth)
    then have "row_step A (rows ! i) row" "rows ! i \<in> set rows"
      using step by (auto simp: list_all2_conv_all_nth)
    then show ?thesis using assms(2) by (simp add: row_step_def)
  qed
  then show ?thesis using step by (auto simp: list_all2_conv_all_nth row_step_def)
qed

lemma inference_never_claims_empty_witness:
  "let run = run_inference_for_rows
        \<lparr>ia_image_field = ''image'', ia_answer_field = ''answer'', ia_success_field = ''ok'', ia_batch_size = 1\<rparr>
        (\<lambda>v. as_str v) (\<lambda>k ps. if k = 0 then Responses [Resp_content (Some ''Paris'')] else Batch_timeout)
        [[(''image'', PStr ''a'')], [], [(''image'', PStr ''b'')]]
   in length (fst run) = 3 \<and> list_all
     (answered \<lparr>ia_image_field = ''image'', ia_answer_field = ''answer'', ia_success_field = ''ok'', ia_batch_size = 1\<rparr>)
     (fst run)"
proof -
  let ?A = "\<lparr>ia_image_field = ''image'', ia_answer_field = ''answer'', ia_success_field = ''ok'', ia_batch_size = 1\<rparr>"
  let ?run = "run_inference_for_rows ?A (\<lambda>v. as_str v)
        (\<lambda>k ps. if k = 0 then Responses [Resp_content (Some ''Paris'')] else Batch_timeout)
        [[(''image'', PStr ''a'')], [], [(''image'', PStr ''b'')]]"
  have "?run = (fst ?run, snd ?run)" by simp
  from inference_never_claims_empty [OF _ _ this]
  have "length (fst ?run) = 3 \<and> (\<forall>row \<in> set (fst ?run). answered ?A row)" by (simp add: answered_def)
  then show ?thesis by (simp add: list_all_iff Let_def)
qed

end
