(* ===== verification/Scheduler.thy ===== *)
theory Scheduler
  imports GeoCoder PyPath
begin

text \<open>
  The training launcher (\<open>tools/train_geogrpo.py\<close>): its parsers, the assignment of difficulty
  buckets, the three orders inside a domain, the interleaving of the domains, and the command
  line with its redaction.  The generator of random numbers is a stream: its \<open>k\<close>-th call draws
  below a bound or from the unit interval, and every function that draws returns the number
  of the next call.
\<close>

subsection \<open>Random numbers\<close>

record rng =
  rng_below :: "nat \<Rightarrow> nat \<Rightarrow> nat"
  rng_unit :: "nat \<Rightarrow> real"

text \<open>What the draws promise.\<close>

definition good_rng :: "rng \<Rightarrow> bool" where
  "good_rng R \<longleftrightarrow> (\<forall>k n. 0 < n \<longrightarrow> rng_below R k n < n) \<and> (\<forall>k. 0 \<le> rng_unit R k \<and> rng_unit R k < 1)"

definition swap :: "'a list \<Rightarrow> nat \<Rightarrow> nat \<Rightarrow> 'a list" where
  "swap xs i j = xs[i := xs ! j, j := xs ! i]"

text \<open>\<open>shuffle\<close>: positions from the last down to 1 are swapped with one at or below them.\<close>

fun shuffle_from :: "rng \<Rightarrow> nat \<Rightarrow> 'a list \<Rightarrow> nat \<Rightarrow> 'a list \<times> nat" where
  "shuffle_from R 0 xs k = (xs, k)"
| "shuffle_from R (Suc i) xs k = shuffle_from R i (swap xs (Suc i) (rng_below R k (Suc (Suc i)))) (k + 1)"

definition rng_shuffle :: "rng \<Rightarrow> 'a list \<Rightarrow> nat \<Rightarrow> 'a list \<times> nat" where
  "rng_shuffle R xs k = shuffle_from R (length xs - 1) xs k"

definition rng_choice :: "rng \<Rightarrow> 'a list \<Rightarrow> nat \<Rightarrow> ('a \<times> nat) res" where
  "rng_choice R xs k = (if xs = [] then Inl IndexError else Inr (xs ! rng_below R k (length xs), k + 1))"

text \<open>\<open>choices(population, weights, k=1)[0]\<close>: bisection in the running sums.\<close>

definition running_sums :: "real list \<Rightarrow> real list" where
  "running_sums ws = map (\<lambda>i. sum_list (take (Suc i) ws)) [0 ..< length ws]"

definition rng_choices1 :: "rng \<Rightarrow> 'a list \<Rightarrow> real list \<Rightarrow> nat \<Rightarrow> ('a \<times> nat) res" where
  "rng_choices1 R xs ws k =
     (if sum_list ws \<le> 0 then Inl ValueError
      else Inr (xs ! length (takeWhile (\<lambda>c. c \<le> rng_unit R k * sum_list ws) (butlast (running_sums ws))), k + 1))"

text \<open>\<open>sample\<close>: draws from a pool whose last live element fills the hole.\<close>

fun rng_sample :: "rng \<Rightarrow> nat \<Rightarrow> 'a list \<Rightarrow> nat \<Rightarrow> 'a list \<times> nat" where
  "rng_sample R 0 pool k = ([], k)"
| "rng_sample R (Suc m) pool k =
     (let j = rng_below R k (length pool);
          (rest, k') = rng_sample R m (butlast (pool[j := last pool])) (k + 1)
      in (pool ! j # rest, k'))"

subsection \<open>Arguments\<close>

definition parse_train_data_ratio :: "(pyval \<Rightarrow> string) \<Rightarrow> pyval \<Rightarrow> real res" where
  "parse_train_data_ratio rp v =
     (let check = (\<lambda>ratio. if 0 < ratio \<and> ratio \<le> (1 :: real) then Inr ratio else Inl ArgumentTypeError) in
      case num_of v of
        Some x \<Rightarrow> check x
      | None \<Rightarrow>
          (let txt = lower (strip (py_str rp v)) in
           if txt = [] \<or> txt = ''all'' then Inr 1
           else if ends_with ''%'' txt then
             (case float_of_str (butlast txt) of Some x \<Rightarrow> check (x / 100) | None \<Rightarrow> Inl ArgumentTypeError)
           else (case float_of_str txt of Some x \<Rightarrow> check x | None \<Rightarrow> Inl ArgumentTypeError)))"

definition default_domain_ratio :: "(string, int) dict" where
  "default_domain_ratio =
     [(''ground'', 3), (''map'', 3), (''remote'', 3), (''street'', 3), (''indoor'', 1), (''landmark'', 1),
      (''roadnet'', 1), (''shape'', 1), (''space'', 1), (''uav'', 1)]"

fun ratio_items :: "string list \<Rightarrow> (string, int) dict \<Rightarrow> (string, int) dict res" where
  "ratio_items [] ratio = Inr ratio"
| "ratio_items (item # items) ratio =
     (if strip item = [] then ratio_items items ratio
      else if CHR '':'' \<notin> set item then Inl ValueError
      else
        let (domain, v) = split1 (CHR '':'') item in
        res_bind (py_int (PStr v)) (\<lambda>n.
          if n \<le> 0 then Inl ValueError else ratio_items items (dset (strip domain) n ratio)))"

definition parse_domain_ratio :: "string \<Rightarrow> (string, int) dict res" where
  "parse_domain_ratio txt =
     (if txt = [] then Inr default_domain_ratio
      else
        res_bind (ratio_items (split_char (CHR '','') txt) []) (\<lambda>ratio.
          if ratio = [] then Inl ValueError else Inr ratio))"

definition parse_domain_order :: "string \<Rightarrow> string list" where
  "parse_domain_order txt = (if txt = [] then [] else split_ws (replace_char (CHR '','') '' '' txt))"

subsection \<open>Rows and buckets\<close>

definition required_keys :: "string list" where
  "required_keys = [''id'', ''path'', ''latitude'', ''longitude'', ''reward_mean'', ''reward_std'', ''category'']"

definition load_train_rows :: "pydict list \<Rightarrow> pydict list res" where
  "load_train_rows rows =
     map_res (\<lambda>row. if list_all (has_key row) required_keys then Inr row else Inl ValueError) rows"

definition sample_rows_by_ratio :: "rng \<Rightarrow> pydict list \<Rightarrow> real \<Rightarrow> nat \<Rightarrow> pydict list \<times> nat" where
  "sample_rows_by_ratio R rows ratio k =
     (if rows = [] \<or> 1 \<le> ratio then (rows, k)
      else
        let sample_size = max 1 (nat \<lfloor>real (length rows) * ratio\<rfloor>) in
        if length rows \<le> sample_size then (rows, k) else rng_sample R sample_size rows k)"

definition bucket_order :: "string list" where
  "bucket_order = [''high_mean_low_std'', ''low_mean_low_std'', ''high_mean_high_std'', ''low_mean_high_std'']"

text \<open>The category of a row is a text.\<close>

definition category_of :: "pydict \<Rightarrow> string" where
  "category_of row = (case pget row ''category'' of PStr s \<Rightarrow> s | _ \<Rightarrow> [])"

definition bucket_of :: "pydict \<Rightarrow> string" where
  "bucket_of row = (case pget row ''bucket'' of PStr s \<Rightarrow> s | _ \<Rightarrow> [])"

definition bucket_name :: "real \<Rightarrow> real \<Rightarrow> real \<Rightarrow> real \<Rightarrow> string" where
  "bucket_name mean_mid std_mid m s =
     (if mean_mid \<le> m then ''high_mean'' else ''low_mean'') @ ''_'' @ (if std_mid \<le> s then ''high_std'' else ''low_std'')"

definition bucket_domain :: "pydict list \<Rightarrow> (pydict list \<times> real \<times> real) res" where
  "bucket_domain domain_rows =
     res_bind (map_res (\<lambda>row. res_bind (row_item row ''reward_mean'') float_res) domain_rows) (\<lambda>means.
     res_bind (map_res (\<lambda>row. res_bind (row_item row ''reward_std'') float_res) domain_rows) (\<lambda>stds.
       Inr (map (\<lambda>(row, m, s). dset ''bucket'' (PStr (bucket_name (median means) (median stds) m s)) row)
              (zip domain_rows (zip means stds)), median means, median stds)))"

definition assign_buckets :: "pydict list \<Rightarrow> (string \<times> pydict list \<times> real \<times> real) list res" where
  "assign_buckets rows =
     map_res (\<lambda>(domain, domain_rows). res_bind (bucket_domain domain_rows) (\<lambda>r. Inr (domain, r)))
       (group_by category_of rows)"

subsection \<open>Order inside a domain\<close>

datatype schedule = Four_stage | Curriculum_mix | Random_order

definition phases :: "real list list" where
  "phases = [[0.70, 0.20, 0.10, 0.00], [0.30, 0.35, 0.25, 0.10], [0.15, 0.25, 0.35, 0.25]]"

definition pop_queue :: "string \<Rightarrow> (string, 'a list) dict \<Rightarrow> ('a \<times> (string, 'a list) dict) option" where
  "pop_queue b queues = (case dget queues b of Some (x # xs) \<Rightarrow> Some (x, dset b xs queues) | _ \<Rightarrow> None)"

definition all_empty :: "(string, 'a list) dict \<Rightarrow> bool" where
  "all_empty queues = list_all (\<lambda>q. snd q = []) queues"

definition nonempty_queue :: "(string, 'a list) dict \<Rightarrow> string \<Rightarrow> bool" where
  "nonempty_queue queues b = (dget_or queues b [] \<noteq> [])"

text \<open>One phase takes up to \<open>target\<close> rows, the bucket of each drawn by the phase's weights.\<close>

fun mix_phase ::
  "rng \<Rightarrow> real list \<Rightarrow> nat \<Rightarrow> (string, 'a list) dict \<Rightarrow> 'a list \<Rightarrow> nat
     \<Rightarrow> ((string, 'a list) dict \<times> 'a list \<times> nat) res" where
  "mix_phase R ws 0 queues ordered k = Inr (queues, ordered, k)"
| "mix_phase R ws (Suc target) queues ordered k =
     (if all_empty queues then Inr (queues, ordered, k)
      else
        res_bind (rng_choices1 R bucket_order ws k) (\<lambda>(bucket, k1).
        res_bind (if nonempty_queue queues bucket then Inr (bucket, k1)
                  else rng_choice R (filter (nonempty_queue queues) bucket_order) k1) (\<lambda>(bucket', k2).
          case pop_queue bucket' queues of
            None \<Rightarrow> Inl IndexError
          | Some (x, queues') \<Rightarrow> mix_phase R ws target queues' (ordered @ [x]) k2)))"

fun mix_phases ::
  "rng \<Rightarrow> nat \<Rightarrow> nat \<Rightarrow> real list list \<Rightarrow> (string, 'a list) dict \<Rightarrow> 'a list \<Rightarrow> nat
     \<Rightarrow> ((string, 'a list) dict \<times> 'a list \<times> nat) res" where
  "mix_phases R phase_size row_count [] queues ordered k = Inr (queues, ordered, k)"
| "mix_phases R phase_size row_count (ws # wss) queues ordered k =
     res_bind (mix_phase R ws (min phase_size (row_count - length ordered)) queues ordered k)
       (\<lambda>(queues', ordered', k'). mix_phases R phase_size row_count wss queues' ordered' k')"

definition curriculum_mix_order :: "rng \<Rightarrow> (string, 'a list) dict \<Rightarrow> nat \<Rightarrow> ('a list \<times> nat) res" where
  "curriculum_mix_order R buckets k =
     (let row_count = length (concat (map snd buckets)) in
      res_bind (mix_phases R (max 1 (row_count div length phases)) row_count phases buckets [] k) (\<lambda>(queues, ordered, k').
        Inr (ordered @ concat (map (\<lambda>b. dget_or queues b []) bucket_order), k')))"

fun shuffle_buckets :: "rng \<Rightarrow> (string, 'a list) dict \<Rightarrow> nat \<Rightarrow> (string, 'a list) dict \<times> nat" where
  "shuffle_buckets R [] k = ([], k)"
| "shuffle_buckets R ((b, xs) # buckets) k =
     (let (xs', k1) = rng_shuffle R xs k; (rest, k2) = shuffle_buckets R buckets k1 in ((b, xs') # rest, k2))"

definition order_domain_rows :: "rng \<Rightarrow> schedule \<Rightarrow> pydict list \<Rightarrow> nat \<Rightarrow> (pydict list \<times> nat) res" where
  "order_domain_rows R sched domain_rows k =
     (if \<not> list_all (\<lambda>row. bucket_of row \<in> set bucket_order) domain_rows then Inl KeyError
      else
        let (buckets, k1) = shuffle_buckets R
              (map (\<lambda>b. (b, filter (\<lambda>row. bucket_of row = b) domain_rows)) bucket_order) k
        in case sched of
             Random_order \<Rightarrow> Inr (rng_shuffle R domain_rows k1)
           | Four_stage \<Rightarrow> Inr (concat (map (\<lambda>b. dget_or buckets b []) bucket_order), k1)
           | Curriculum_mix \<Rightarrow> curriculum_mix_order R buckets k1)"

subsection \<open>Interleaving the domains\<close>

definition ordered_domain_names :: "(string, 'a list) dict \<Rightarrow> string list \<Rightarrow> string list" where
  "ordered_domain_names ordered_by_domain domain_order =
     (let available = map fst (filter (\<lambda>p. snd p \<noteq> []) ordered_by_domain);
          first = fold (\<lambda>d ns. if d \<in> set available \<and> d \<notin> set ns then ns @ [d] else ns) domain_order []
      in first @ filter (\<lambda>d. d \<notin> set first) (sort (remdups available)))"

text \<open>Taking one row of the domain \<open>d\<close>, and of each domain of a list.\<close>

definition take_one :: "string \<Rightarrow> (string, 'a list) dict \<times> 'a list \<Rightarrow> (string, 'a list) dict \<times> 'a list" where
  "take_one d st = (case pop_queue d (fst st) of None \<Rightarrow> st | Some (x, queues) \<Rightarrow> (queues, snd st @ [x]))"

definition take_each :: "string list \<Rightarrow> (string, 'a list) dict \<times> 'a list \<Rightarrow> (string, 'a list) dict \<times> 'a list" where
  "take_each ds st = fold take_one ds st"

definition queued :: "(string, 'a list) dict \<Rightarrow> nat" where
  "queued queues = length (concat (map snd queues))"

text \<open>One round of the ratio scheduler: the cycle, and one row of every domain left if it gave none.\<close>

definition ratio_round :: "string list \<Rightarrow> (string, 'a list) dict \<times> 'a list \<Rightarrow> (string, 'a list) dict \<times> 'a list" where
  "ratio_round cycle st =
     (let st' = take_each cycle st in
      if length (snd st) < length (snd st') then st'
      else take_each (map fst (filter (\<lambda>q. snd q \<noteq> []) (fst st'))) st')"

fun ratio_rounds :: "nat \<Rightarrow> string list \<Rightarrow> (string, 'a list) dict \<times> 'a list \<Rightarrow> (string, 'a list) dict \<times> 'a list" where
  "ratio_rounds 0 cycle st = st"
| "ratio_rounds (Suc n) cycle st =
     (if all_empty (fst st) then st else ratio_rounds n cycle (ratio_round cycle st))"

fun random_rounds ::
  "nat \<Rightarrow> rng \<Rightarrow> string list \<Rightarrow> (string, 'a list) dict \<times> 'a list \<Rightarrow> nat \<Rightarrow> ((string, 'a list) dict \<times> 'a list) res" where
  "random_rounds 0 R names st k = Inr st"
| "random_rounds (Suc n) R names st k =
     (if all_empty (fst st) then Inr st
      else
        res_bind (rng_choice R (filter (nonempty_queue (fst st)) names) k)
          (\<lambda>(d, k'). random_rounds n R names (take_one d st) k'))"

datatype balance = Ratio | Random_domain | Sequential_domain

definition interleave_domains ::
  "rng \<Rightarrow> (string, 'a list) dict \<Rightarrow> balance \<Rightarrow> (string, int) dict \<Rightarrow> string list \<Rightarrow> nat \<Rightarrow> 'a list res" where
  "interleave_domains R ordered_by_domain bal domain_ratio domain_order k =
     (let names = ordered_domain_names ordered_by_domain domain_order;
          queues = map (\<lambda>d. (d, dget_or ordered_by_domain d [])) names;
          cycle = concat (map (\<lambda>d. replicate (nat (dget_or domain_ratio d 1)) d) names)
      in if bal = Sequential_domain then Inr (concat (map (\<lambda>d. dget_or ordered_by_domain d []) names))
         else if cycle = [] then Inl ValueError
         else if bal = Random_domain then
           res_bind (random_rounds (queued queues) R names (queues, []) k) (\<lambda>st. Inr (snd st))
         else Inr (snd (ratio_rounds (queued queues) cycle (queues, []))))"

fun order_domains ::
  "rng \<Rightarrow> schedule \<Rightarrow> (string \<times> pydict list \<times> real \<times> real) list \<Rightarrow> nat \<Rightarrow> ((string, pydict list) dict \<times> nat) res" where
  "order_domains R sched [] k = Inr ([], k)"
| "order_domains R sched ((domain, rows, _, _) # ds) k =
     res_bind (order_domain_rows R sched rows k) (\<lambda>(ordered, k1).
     res_bind (order_domains R sched ds k1) (\<lambda>(rest, k2). Inr ((domain, ordered) # rest, k2)))"

record train_args =
  ta_schedule :: schedule
  ta_balance :: balance
  ta_domain_ratio :: string
  ta_domain_order :: string
  ta_data_ratio :: real
  ta_max_samples :: "int option"

definition schedule_rows :: "rng \<Rightarrow> train_args \<Rightarrow> pydict list \<Rightarrow> pydict list res" where
  "schedule_rows R A input =
     res_bind (parse_domain_ratio (ta_domain_ratio A)) (\<lambda>domain_ratio.
     res_bind (load_train_rows input) (\<lambda>loaded.
       let (rows, k) = sample_rows_by_ratio R loaded (ta_data_ratio A) 0 in
       res_bind (assign_buckets rows) (\<lambda>by_domain.
       let effective = map (\<lambda>d. (d, dget_or domain_ratio d 1)) (sort (map fst by_domain)) in
       res_bind (order_domains R (ta_schedule A) by_domain k) (\<lambda>(ordered, k').
       res_bind (interleave_domains R ordered (ta_balance A) effective (parse_domain_order (ta_domain_order A)) k')
         (\<lambda>scheduled.
           Inr (case ta_max_samples A of None \<Rightarrow> scheduled | Some m \<Rightarrow> slice_to m scheduled))))))"

definition to_swift_row :: "string \<Rightarrow> string \<Rightarrow> pydict \<Rightarrow> pydict" where
  "to_swift_row system_prompt user_prompt row =
     [(''messages'', PList [PDict [(''role'', PStr ''system''), (''content'', PStr system_prompt)],
                            PDict [(''role'', PStr ''user''), (''content'', PStr user_prompt)]]),
      (''images'', PList [pget row ''path'']), (''latitude'', pget row ''latitude''),
      (''longitude'', pget row ''longitude''), (''id'', pget row ''id''), (''category'', pget row ''category''),
      (''reward_mean'', pget row ''reward_mean''), (''reward_std'', pget row ''reward_std''),
      (''bucket'', pget row ''bucket'')]"

subsection \<open>The command\<close>

text \<open>The options whose value the command line passes through, by their names.\<close>

record launch_args =
  la_model :: string
  la_options :: "string \<Rightarrow> string"
  la_reward_funcs :: "string list"
  la_reward_weights :: "string list"
  la_server :: bool
  la_server_base_url :: "string list"
  la_server_host :: "string list"
  la_server_port :: "string list"
  la_server_group_port :: "string list"
  la_server_pass_dataset :: "string option"
  la_max_pixels :: "string option"
  la_api_keys :: "string list"
  la_model_type :: string
  la_exp_name :: string
  la_extra :: "string list"

definition opt :: "launch_args \<Rightarrow> string \<Rightarrow> string list" where
  "opt L name = [''--'' @ name, la_options L name]"

definition server_args :: "launch_args \<Rightarrow> string list" where
  "server_args L =
     (if la_server_base_url L \<noteq> [] then ''--vllm_server_base_url'' # la_server_base_url L
      else (''--vllm_server_host'' # la_server_host L) @ (''--vllm_server_port'' # la_server_port L))
     @ opt L ''vllm_server_timeout''
     @ (if la_server_group_port L \<noteq> [] then ''--vllm_server_group_port'' # la_server_group_port L else [])
     @ (case la_server_pass_dataset L of Some v \<Rightarrow> [''--vllm_server_pass_dataset'', v] | None \<Rightarrow> [])"

definition command_head :: "launch_args \<Rightarrow> string \<Rightarrow> string \<Rightarrow> string \<Rightarrow> string list" where
  "command_head L dataset_path run_name output_dir =
     [''swift'', ''rlhf'', ''--rlhf_type'', ''grpo'', ''--model'', la_model L]
     @ (''--reward_funcs'' # la_reward_funcs L) @ (''--reward_weights'' # la_reward_weights L)
     @ [''--train_type'', ''full''] @ opt L ''freeze_vit'' @ opt L ''freeze_aligner'' @ opt L ''torch_dtype''
     @ [''--use_vllm'', ''true'', ''--vllm_mode'', if la_server L then ''server'' else ''colocate'']
     @ opt L ''enable_thinking'' @ opt L ''response_prefix'' @ opt L ''offload_optimizer'' @ opt L ''offload_model''
     @ opt L ''deepspeed''
     @ [''--dataset'', dataset_path, ''--remove_unused_columns'', ''false'', ''--dataset_shuffle'', ''false'',
        ''--train_dataloader_shuffle'', ''false'', ''--load_from_cache_file'', ''false'']
     @ concat (map (opt L) [''max_length'', ''max_completion_length'', ''num_train_epochs'',
         ''per_device_train_batch_size'', ''gradient_accumulation_steps'', ''learning_rate''])
     @ [''--lr_scheduler_type'', ''cosine'']
     @ concat (map (opt L) [''warmup_ratio'', ''save_strategy'', ''save_steps'', ''save_total_limit'',
         ''logging_steps'', ''dataloader_num_workers'', ''dataset_num_proc'', ''num_generations'', ''temperature''])
     @ [''--output_dir'', output_dir, ''--log_completions'', ''true'', ''--report_to'', ''swanlab'']
     @ opt L ''swanlab_project''
     @ [''--swanlab_exp_name'', if la_exp_name L \<noteq> [] then la_exp_name L else run_name]
     @ concat (map (opt L) [''gradient_checkpointing'', ''vit_gradient_checkpointing'', ''max_grad_norm''])
     @ [''--epsilon'', ''0.2'', ''--epsilon_high'', ''0.28'', ''--scale_rewards'', ''none'']
     @ opt L ''beta'' @ opt L ''num_iterations''
     @ (if la_server L then server_args L
        else concat (map (opt L) [''vllm_gpu_memory_utilization'', ''vllm_tensor_parallel_size'',
               ''move_model_batches'', ''sleep_level'']))
     @ (case la_max_pixels L of Some v \<Rightarrow> [''--max_pixels'', v] | None \<Rightarrow> [])"

definition build_swift_command :: "launch_args \<Rightarrow> string \<Rightarrow> string \<Rightarrow> string \<Rightarrow> string list" where
  "build_swift_command L dataset_path run_name output_dir =
     command_head L dataset_path run_name output_dir
     @ (if la_api_keys L \<noteq> [] then ''--geoscore_api_keys'' # la_api_keys L else [])
     @ opt L ''geoscore_max_distance''
     @ (if la_model_type L \<noteq> [] then [''--model_type'', la_model_type L] else [])
     @ la_extra L"

fun redact_from :: "bool \<Rightarrow> string list \<Rightarrow> string list" where
  "redact_from redacting [] = []"
| "redact_from redacting (part # cmd) =
     (let redacting1 = (redacting \<and> \<not> starts_with ''--'' part) in
      if part = ''--geoscore_api_keys'' then part # redact_from True cmd
      else (if redacting1 then ''***'' else part) # redact_from redacting1 cmd)"

definition redact_command :: "string list \<Rightarrow> string list" where
  "redact_command cmd = redact_from False cmd"

definition launch_env :: "(string, string) dict \<Rightarrow> string \<Rightarrow> string \<Rightarrow> string \<Rightarrow> (string, string) dict" where
  "launch_env env devices nproc image_tokens =
     (let e1 = dset ''NPROC_PER_NODE'' nproc (dset ''CUDA_VISIBLE_DEVICES'' devices env);
          e2 = (if lower image_tokens \<notin> set [[], ''none'', ''null'', ''false'', ''0'']
                then dset ''IMAGE_MAX_TOKEN_NUM'' image_tokens e1
                else filter (\<lambda>p. fst p \<noteq> ''IMAGE_MAX_TOKEN_NUM'') e1);
          e3 = dsetdefault ''PYTORCH_CUDA_ALLOC_CONF'' ''expandable_segments:True'' e2
      in dsetdefault ''PYTORCH_ALLOC_CONF'' (dget_or e3 ''PYTORCH_CUDA_ALLOC_CONF'' []) e3)"

subsection \<open>Drawing permutes\<close>

lemma below_less: "good_rng R \<Longrightarrow> 0 < n \<Longrightarrow> rng_below R k n < n"
  by (simp add: good_rng_def)

lemma mset_swap_list: "i < length xs \<Longrightarrow> j < length xs \<Longrightarrow> mset (swap xs i j) = mset xs"
  unfolding swap_def by (rule mset_swap)

lemma length_swap [simp]: "length (swap xs i j) = length xs"
  by (simp add: swap_def)

lemma mset_shuffle_from:
  assumes "good_rng R" and "i < length xs \<or> i = 0"
  shows "mset (fst (shuffle_from R i xs k)) = mset xs"
  using assms(2)
proof (induction i arbitrary: xs k)
  case (Suc i)
  then have i: "Suc i < length xs" by simp
  moreover have "rng_below R k (Suc (Suc i)) < length xs"
    using below_less [OF assms(1), of "Suc (Suc i)" k] i by simp
  ultimately show ?case using Suc.IH [of "swap xs (Suc i) (rng_below R k (Suc (Suc i)))"] by (simp add: mset_swap_list)
qed simp

lemma mset_rng_shuffle: "good_rng R \<Longrightarrow> mset (fst (rng_shuffle R xs k)) = mset xs"
  unfolding rng_shuffle_def by (rule mset_shuffle_from) auto

lemma mset_fill_hole:
  assumes "j < length pool"
  shows "add_mset (pool ! j) (mset (butlast (pool[j := last pool]))) = mset pool"
proof -
  obtain init z where pool: "pool = init @ [z]" using assms by (cases pool rule: rev_cases) auto
  show ?thesis
  proof (cases "j = length init")
    case True
    then show ?thesis by (simp add: pool)
  next
    case False
    then have j: "j < length init" using assms by (simp add: pool)
    then have "mset (init[j := z]) = add_mset z (mset init - {#init ! j#})" by (rule mset_update)
    then show ?thesis using j by (simp add: pool list_update_append nth_append)
  qed
qed

lemma rng_sample_parts:
  assumes "good_rng R" and "m \<le> length pool"
  shows "mset (fst (rng_sample R m pool k)) \<subseteq># mset pool \<and> length (fst (rng_sample R m pool k)) = m"
  using assms(2)
proof (induction m arbitrary: pool k)
  case (Suc m)
  let ?j = "rng_below R k (length pool)"
  let ?pool = "butlast (pool[?j := last pool])"
  have j: "?j < length pool" using below_less [OF assms(1), of "length pool" k] Suc.prems by linarith
  then have "mset (fst (rng_sample R m ?pool (k + 1))) \<subseteq># mset ?pool" "length (fst (rng_sample R m ?pool (k + 1))) = m"
    using Suc.IH [of ?pool] Suc.prems by simp_all
  moreover have "fst (rng_sample R (Suc m) pool k) = pool ! ?j # fst (rng_sample R m ?pool (k + 1))"
    by (simp add: Let_def case_prod_beta)
  ultimately show ?case by (simp flip: mset_fill_hole [OF j])
qed simp

subsection \<open>Queues\<close>

definition contents :: "(string, 'a list) dict \<Rightarrow> 'a multiset" where
  "contents queues = mset (concat (map snd queues))"

lemma contents_Cons [simp]: "contents (q # queues) = mset (snd q) + contents queues"
  by (simp add: contents_def)

lemma contents_Nil [simp]: "contents [] = {#}"
  by (simp add: contents_def)

lemma contents_pop: "dget queues b = Some (x # xs) \<Longrightarrow> contents queues = add_mset x (contents (dset b xs queues))"
  by (induction queues) (auto split: if_splits)

lemma keys_dset: "dget queues b \<noteq> None \<Longrightarrow> map fst (dset b v queues) = map fst queues"
  by (induction queues) (auto split: if_splits)

lemma pop_queue_parts:
  "pop_queue b queues = Some (x, queues') \<Longrightarrow>
    contents queues = add_mset x (contents queues') \<and> map fst queues' = map fst queues"
  by (auto simp: pop_queue_def contents_pop keys_dset split: option.splits list.splits)

lemma all_empty_contents: "all_empty queues \<longleftrightarrow> contents queues = {#}"
  by (induction queues) (auto simp: all_empty_def)

lemma queued_contents: "queued queues = size (contents queues)"
  by (simp add: queued_def contents_def)

lemma dget_or_keys: "distinct (map fst queues) \<Longrightarrow> map (\<lambda>b. dget_or queues b []) (map fst queues) = map snd queues"
proof (induction queues)
  case (Cons q queues)
  have "dget_or (q # queues) b [] = dget_or queues b []" if "b \<in> fst ` set queues" for b
  proof -
    have "fst q \<notin> fst ` set queues" using Cons.prems by simp
    then have "b \<noteq> fst q" using that by metis
    then show ?thesis by (cases q) (simp add: dget_or_def)
  qed
  then have "map (\<lambda>b. dget_or (q # queues) b []) (map fst queues) = map (\<lambda>b. dget_or queues b []) (map fst queues)"
    by (intro map_cong) auto
  then show ?case using Cons by (simp add: dget_or_def)
qed simp

lemma concat_dget_or:
  "distinct (map fst queues) \<Longrightarrow> map fst queues = bs \<Longrightarrow> concat (map (\<lambda>b. dget_or queues b []) bs) = concat (map snd queues)"
  using dget_or_keys by metis

subsection \<open>Order inside a domain\<close>

lemma mix_phase_parts:
  assumes "mix_phase R ws n queues out k = Inr (queues', out', k')"
  shows "contents queues' + mset out' = contents queues + mset out \<and> map fst queues' = map fst queues"
  using assms
proof (induction n arbitrary: queues out k)
  case (Suc n)
  show ?case
  proof (cases "all_empty queues")
    case False
    then obtain b x q k2 where p: "pop_queue b queues = Some (x, q)"
      and r: "mix_phase R ws n q (out @ [x]) k2 = Inr (queues', out', k')"
      using Suc.prems by (auto simp: res_bind_eq_Inr_iff split: option.splits if_splits)
    then show ?thesis using Suc.IH [OF r] pop_queue_parts [OF p] by simp
  qed (use Suc.prems in simp)
qed simp

lemma mix_phases_parts:
  "mix_phases R s n wss queues out k = Inr (queues', out', k') \<Longrightarrow>
    contents queues' + mset out' = contents queues + mset out \<and> map fst queues' = map fst queues"
proof (induction wss arbitrary: queues out k)
  case (Cons ws wss)
  then obtain q o1 k1 where m: "mix_phase R ws (min s (n - length out)) queues out k = Inr (q, o1, k1)"
    and r: "mix_phases R s n wss q o1 k1 = Inr (queues', out', k')"
    by (auto simp: res_bind_eq_Inr_iff)
  show ?case using Cons.IH [OF r] mix_phase_parts [OF m] by simp
qed simp

lemma curriculum_mix_perm:
  assumes "curriculum_mix_order R buckets k = Inr (ordered, k')" and "map fst buckets = bucket_order"
  shows "mset ordered = contents buckets"
proof -
  obtain q o1 where m: "mix_phases R (max 1 (length (concat (map snd buckets)) div length phases))
      (length (concat (map snd buckets))) phases buckets [] k = Inr (q, o1, k')"
    and o: "ordered = o1 @ concat (map (\<lambda>b. dget_or q b []) bucket_order)"
    using assms(1) by (auto simp: curriculum_mix_order_def res_bind_eq_Inr_iff Let_def)
  note P = mix_phases_parts [OF m]
  then have "map fst q = bucket_order" using assms(2) by simp
  moreover have "distinct bucket_order" by (simp add: bucket_order_def)
  ultimately have "concat (map (\<lambda>b. dget_or q b []) bucket_order) = concat (map snd q)"
    by (intro concat_dget_or) simp_all
  then show ?thesis using P by (simp add: o contents_def add.commute)
qed

lemma shuffle_buckets_parts:
  "good_rng R \<Longrightarrow> contents (fst (shuffle_buckets R buckets k)) = contents buckets
    \<and> map fst (fst (shuffle_buckets R buckets k)) = map fst buckets"
proof (induction buckets arbitrary: k)
  case (Cons p buckets)
  then show ?case by (cases p) (simp add: case_prod_beta Let_def mset_rng_shuffle)
qed simp

lemma contents_partition:
  "distinct bs \<Longrightarrow> contents (map (\<lambda>b. (b, filter (\<lambda>row. f row = b) rows)) bs) = filter_mset (\<lambda>row. f row \<in> set bs) (mset rows)"
proof (induction bs)
  case (Cons b bs)
  have "filter_mset (\<lambda>row. f row \<in> set (b # bs)) (mset rows)
      = filter_mset (\<lambda>row. f row = b) (mset rows) + filter_mset (\<lambda>row. f row \<in> set bs) (mset rows)"
    using Cons.prems by (induction rows) auto
  then show ?case using Cons by (simp add: mset_filter)
qed simp

lemma order_domain_rows_perm:
  assumes "good_rng R" and "order_domain_rows R sched rows k = Inr (ordered, k')"
  shows "mset ordered = mset rows"
proof -
  let ?b = "map (\<lambda>b. (b, filter (\<lambda>row. bucket_of row = b) rows)) bucket_order"
  obtain buckets k1 where sb: "shuffle_buckets R ?b k = (buckets, k1)" by fastforce
  have all: "list_all (\<lambda>row. bucket_of row \<in> set bucket_order) rows"
    using assms(2) by (auto simp: order_domain_rows_def split: if_splits)
  have d: "distinct bucket_order" by (simp add: bucket_order_def)
  have "contents ?b = mset rows"
    unfolding contents_partition [OF d] using all by (simp add: list_all_iff filter_mset_eq_conv)
  moreover have "contents buckets = contents ?b" and keys: "map fst buckets = bucket_order"
    using shuffle_buckets_parts [OF assms(1), of ?b k] by (simp_all add: sb o_def)
  ultimately have c: "contents buckets = mset rows" by simp
  show ?thesis
  proof (cases sched)
    case Four_stage
    then have "ordered = concat (map (\<lambda>b. dget_or buckets b []) bucket_order)"
      using assms(2) all by (simp add: order_domain_rows_def sb)
    then show ?thesis using c d keys by (simp add: concat_dget_or contents_def)
  next
    case Curriculum_mix
    then have "curriculum_mix_order R buckets k1 = Inr (ordered, k')"
      using assms(2) all by (simp add: order_domain_rows_def sb)
    then show ?thesis using curriculum_mix_perm keys c by metis
  next
    case Random_order
    then have "Inr (rng_shuffle R rows k1) = (Inr (ordered, k') :: (pydict list \<times> nat) res)"
      using assms(2) all by (simp add: order_domain_rows_def sb)
    then show ?thesis using mset_rng_shuffle [OF assms(1), of rows k1] by simp
  qed
qed

subsection \<open>Interleaving\<close>

definition stock :: "(string, 'a list) dict \<times> 'a list \<Rightarrow> 'a multiset" where
  "stock st = contents (fst st) + mset (snd st)"

lemma take_one_parts:
  "stock (take_one d st) = stock st \<and> map fst (fst (take_one d st)) = map fst (fst st)
   \<and> length (snd st) \<le> length (snd (take_one d st))
   \<and> (nonempty_queue (fst st) d \<longrightarrow> length (snd (take_one d st)) = Suc (length (snd st)))"
proof (cases "pop_queue d (fst st)")
  case None
  then have "\<not> nonempty_queue (fst st) d"
    by (auto simp: pop_queue_def nonempty_queue_def dget_or_def split: option.splits list.splits)
  with None show ?thesis by (simp add: take_one_def)
next
  case (Some p)
  then obtain x q where p: "pop_queue d (fst st) = Some (x, q)" by (cases p) auto
  from pop_queue_parts [OF this] show ?thesis by (simp add: take_one_def p stock_def)
qed

lemma take_each_parts:
  "stock (take_each ds st) = stock st \<and> map fst (fst (take_each ds st)) = map fst (fst st)
   \<and> length (snd st) \<le> length (snd (take_each ds st))"
proof (induction ds arbitrary: st)
  case (Cons d ds)
  have "take_each (d # ds) st = take_each ds (take_one d st)" by (simp add: take_each_def)
  then show ?case using Cons [of "take_one d st"] take_one_parts [of d st] by simp
qed (simp add: take_each_def)

lemma take_each_progress:
  assumes "nonempty_queue (fst st) d"
  shows "length (snd st) < length (snd (take_each (d # ds) st))"
proof -
  have "take_each (d # ds) st = take_each ds (take_one d st)" by (simp add: take_each_def)
  then show ?thesis using assms take_one_parts [of d st] take_each_parts [of ds "take_one d st"] by simp
qed

lemma nonempty_first:
  assumes "distinct (map fst queues)" and "\<not> all_empty queues"
  shows "\<exists>d ds. map fst (filter (\<lambda>q. snd q \<noteq> []) queues) = d # ds \<and> nonempty_queue queues d"
proof -
  obtain q where q: "filter (\<lambda>q. snd q \<noteq> []) queues \<noteq> []" "q = hd (filter (\<lambda>q. snd q \<noteq> []) queues)"
    using assms(2) by (auto simp: all_empty_def list_all_iff filter_empty_conv)
  then have "q \<in> set queues" "snd q \<noteq> []" using hd_in_set [OF q(1)] by auto
  then have "dget queues (fst q) = Some (snd q)" using assms(1) by (simp add: map_of_is_SomeI)
  then have "nonempty_queue queues (fst q)" using \<open>snd q \<noteq> []\<close> by (simp add: nonempty_queue_def dget_or_def)
  then show ?thesis using q by (cases "filter (\<lambda>q. snd q \<noteq> []) queues") auto
qed

lemma ratio_round_parts:
  assumes "distinct (map fst (fst st))"
  shows "stock (ratio_round cycle st) = stock st \<and> map fst (fst (ratio_round cycle st)) = map fst (fst st)
   \<and> (\<not> all_empty (fst st) \<longrightarrow> length (snd st) < length (snd (ratio_round cycle st)))"
proof -
  let ?st = "take_each cycle st"
  note P = take_each_parts [of cycle st]
  show ?thesis
  proof (cases "length (snd st) < length (snd ?st)")
    case True
    then show ?thesis using P by (simp add: ratio_round_def)
  next
    case False
    let ?rest = "map fst (filter (\<lambda>q. snd q \<noteq> []) (fst ?st))"
    have r: "ratio_round cycle st = take_each ?rest ?st" using False by (simp add: ratio_round_def Let_def)
    have len: "length (snd ?st) = length (snd st)" using False P by simp
    have "length (snd st) < length (snd (take_each ?rest ?st))" if "\<not> all_empty (fst st)"
    proof -
      have "size (contents (fst ?st)) + length (snd ?st) = size (contents (fst st)) + length (snd st)"
        using P unfolding stock_def by (metis size_mset size_union)
      then have "\<not> all_empty (fst ?st)" using that len by (auto simp: all_empty_contents)
      then obtain d ds where "?rest = d # ds" "nonempty_queue (fst ?st) d"
        using nonempty_first [of "fst ?st"] P assms by auto
      then show ?thesis using take_each_progress [of ?st d ds] len by simp
    qed
    then show ?thesis using P take_each_parts [of ?rest ?st] by (simp add: r)
  qed
qed

lemma stock_size: "stock st = stock st' \<Longrightarrow> length (snd st) < length (snd st') \<Longrightarrow>
    size (contents (fst st')) < size (contents (fst st))"
  by (drule arg_cong [where f = size]) (simp add: stock_def)

text \<open>As many rounds as there are rows queued empty the queues.\<close>

lemma ratio_rounds_empty:
  assumes "distinct (map fst (fst st))" and "size (contents (fst st)) \<le> n"
  shows "mset (snd (ratio_rounds n cycle st)) = stock st"
  using assms
proof (induction n arbitrary: st)
  case 0
  then show ?case by (simp add: stock_def)
next
  case (Suc n)
  show ?case
  proof (cases "all_empty (fst st)")
    case True
    then show ?thesis by (simp add: all_empty_contents stock_def)
  next
    case False
    note P = ratio_round_parts [OF Suc.prems(1), of cycle]
    then have "size (contents (fst (ratio_round cycle st))) < size (contents (fst st))"
      using False stock_size [of st "ratio_round cycle st"] by simp
    then have "mset (snd (ratio_rounds n cycle (ratio_round cycle st))) = stock (ratio_round cycle st)"
      using Suc.prems P by (intro Suc.IH) simp_all
    then show ?thesis using False P by simp
  qed
qed

lemma random_rounds_empty:
  assumes "good_rng R" and "size (contents (fst st)) \<le> n" and "random_rounds n R names st k = Inr st'"
  shows "mset (snd st') = stock st"
  using assms(2,3)
proof (induction n arbitrary: st k)
  case 0
  then show ?case by (simp add: stock_def)
next
  case (Suc n)
  show ?case
  proof (cases "all_empty (fst st)")
    case True
    then show ?thesis using Suc.prems by (simp add: all_empty_contents stock_def)
  next
    case False
    let ?active = "filter (nonempty_queue (fst st)) names"
    obtain k1 where ne: "?active \<noteq> []"
      and r: "random_rounds n R names (take_one (?active ! rng_below R k (length ?active)) st) k1 = Inr st'"
      using Suc.prems False by (auto simp: rng_choice_def res_bind_eq_Inr_iff split: if_splits)
    let ?d = "?active ! rng_below R k (length ?active)"
    have "?d \<in> set ?active" using below_less [OF assms(1), of "length ?active" k] ne by (intro nth_mem) simp
    then have "nonempty_queue (fst st) ?d" by (simp only: set_filter) simp
    then have "length (snd st) < length (snd (take_one ?d st))" and s: "stock (take_one ?d st) = stock st"
      using take_one_parts [of ?d st] by simp_all
    then have "size (contents (fst (take_one ?d st))) \<le> n"
      using stock_size [of st "take_one ?d st"] Suc.prems(1) by simp
    from Suc.IH [OF this r] s show ?thesis by simp
  qed
qed

lemma ordered_domain_names_perm:
  assumes "distinct (map fst q)"
  shows "mset (ordered_domain_names q order) = mset (map fst (filter (\<lambda>p. snd p \<noteq> []) q))"
proof -
  let ?av = "map fst (filter (\<lambda>p. snd p \<noteq> []) q)"
  have av: "distinct ?av" using assms by (simp add: distinct_map_filter)
  have fold: "distinct (fold (\<lambda>d ns. if d \<in> set ?av \<and> d \<notin> set ns then ns @ [d] else ns) ds acc)
      \<and> set (fold (\<lambda>d ns. if d \<in> set ?av \<and> d \<notin> set ns then ns @ [d] else ns) ds acc) \<subseteq> set ?av"
    if "distinct acc" "set acc \<subseteq> set ?av" for ds acc
    using that by (induction ds arbitrary: acc) auto
  let ?first = "fold (\<lambda>d ns. if d \<in> set ?av \<and> d \<notin> set ns then ns @ [d] else ns) order []"
  have f: "distinct ?first" "set ?first \<subseteq> set ?av" using fold [of "[]" order] by simp_all
  have names: "ordered_domain_names q order = ?first @ filter (\<lambda>d. d \<notin> set ?first) (sort (remdups ?av))"
    by (simp only: ordered_domain_names_def Let_def)
  have "distinct (ordered_domain_names q order)" using f(1) unfolding names by auto
  moreover have "set (ordered_domain_names q order) = set ?av" using f by (auto simp: names)
  ultimately show ?thesis using av set_eq_iff_mset_eq_distinct [of "ordered_domain_names q order" ?av] by blast
qed

lemma mset_concat_map:
  assumes "mset xs = mset ys"
  shows "mset (concat (map f xs)) = mset (concat (map f ys))"
proof -
  have "mset (concat (map f zs)) = sum_mset (image_mset (\<lambda>z. mset (f z)) (mset zs))" for zs
    by (induction zs) auto
  then show ?thesis using assms by simp
qed

lemma contents_names:
  assumes "distinct (map fst q)"
  shows "mset (concat (map (\<lambda>d. dget_or q d []) (ordered_domain_names q order))) = contents q"
proof -
  let ?av = "map fst (filter (\<lambda>p. snd p \<noteq> []) q)"
  have "mset (concat (map (\<lambda>d. dget_or q d []) (ordered_domain_names q order)))
      = mset (concat (map (\<lambda>d. dget_or q d []) ?av))"
    by (rule mset_concat_map) (rule ordered_domain_names_perm [OF assms])
  also have "map (\<lambda>d. dget_or q d []) ?av = map snd (filter (\<lambda>p. snd p \<noteq> []) q)"
    using assms by (auto simp: dget_or_def)
  also have "mset (concat (map snd (filter (\<lambda>p. snd p \<noteq> []) q))) = contents q"
    by (induction q) auto
  finally show ?thesis .
qed

lemma interleave_perm:
  assumes "good_rng R" and "distinct (map fst q)" and "interleave_domains R q bal ratio order k = Inr rows"
  shows "mset rows = contents q"
proof -
  let ?names = "ordered_domain_names q order"
  let ?queues = "map (\<lambda>d. (d, dget_or q d [])) ?names"
  let ?cycle = "concat (map (\<lambda>d. replicate (nat (dget_or ratio d 1)) d) ?names)"
  have av: "distinct (map fst (filter (\<lambda>p. snd p \<noteq> []) q))" using assms(2) by (simp add: distinct_map_filter)
  have d: "distinct (map fst ?queues)"
    using mset_eq_imp_distinct_iff [OF ordered_domain_names_perm [OF assms(2), of order]] av by (simp add: o_def)
  have c: "contents ?queues = contents q"
    using contents_names [OF assms(2), of order] by (simp add: contents_def o_def)
  have n: "size (contents (fst (?queues, []))) \<le> queued ?queues" by (simp add: queued_contents)
  show ?thesis
  proof (cases bal)
    case Sequential_domain
    then show ?thesis using assms(3) contents_names [OF assms(2), of order] by (simp add: interleave_domains_def Let_def)
  next
    case Random_domain
    then obtain st where r: "random_rounds (queued ?queues) R ?names (?queues, []) k = Inr st" and "rows = snd st"
      using assms(3) by (auto simp: interleave_domains_def Let_def res_bind_eq_Inr_iff split: if_splits)
    then show ?thesis using random_rounds_empty [OF assms(1) n r] c by (simp add: stock_def)
  next
    case Ratio
    then have "rows = snd (ratio_rounds (queued ?queues) ?cycle (?queues, []))"
      using assms(3) by (auto simp: interleave_domains_def Let_def split: if_splits)
    then show ?thesis using ratio_rounds_empty [OF _ n, of ?cycle] d c by (simp add: stock_def)
  qed
qed

subsection \<open>The schedule\<close>

text \<open>A row without its bucket, and the rows kept of an input.\<close>

definition core :: "pydict \<Rightarrow> pydict" where
  "core row = filter (\<lambda>p. fst p \<noteq> ''bucket'') row"

definition kept_rows :: "real \<Rightarrow> nat \<Rightarrow> nat" where
  "kept_rows ratio n = (if n = 0 \<or> 1 \<le> ratio then n else min n (max 1 (nat \<lfloor>real n * ratio\<rfloor>)))"

lemma core_dset [simp]: "core (dset ''bucket'' v row) = core row"
  by (induction row) (auto simp: core_def)

lemma bucket_of_dset [simp]: "bucket_of (dset ''bucket'' (PStr b) row) = b"
  by (simp add: bucket_of_def)

lemma bucket_domain_parts:
  assumes "bucket_domain rows = Inr (rows', m, s)"
  shows "map core rows' = map core rows \<and> (\<forall>row \<in> set rows'. bucket_of row \<in> set bucket_order)"
proof -
  obtain means stds where l: "length means = length rows" "length stds = length rows"
    and r: "rows' = map (\<lambda>(row, m, s). dset ''bucket'' (PStr (bucket_name (median means) (median stds) m s)) row)
              (zip rows (zip means stds))"
  proof -
    obtain means stds where m: "map_res (\<lambda>row. res_bind (row_item row ''reward_mean'') float_res) rows = Inr means"
      and s: "map_res (\<lambda>row. res_bind (row_item row ''reward_std'') float_res) rows = Inr stds"
      and r: "rows' = map (\<lambda>(row, m, s). dset ''bucket'' (PStr (bucket_name (median means) (median stds) m s)) row)
              (zip rows (zip means stds))"
      using assms by (auto simp: bucket_domain_def res_bind_eq_Inr_iff)
    have "length ys = length xs" if "map_res f xs = Inr ys" for f :: "pydict \<Rightarrow> real res" and xs ys
      using that by (induction xs arbitrary: ys) (auto simp: res_bind_eq_Inr_iff)
    then show ?thesis using that m s r by blast
  qed
  have "map core rows' = map (core \<circ> fst) (zip rows (zip means stds))" by (auto simp: r)
  also have "\<dots> = map core (map fst (zip rows (zip means stds)))" by simp
  also have "map fst (zip rows (zip means stds)) = rows" using l by simp
  finally have c: "map core rows' = map core rows" .
  have "bucket_name a b m s \<in> set bucket_order" for a b m s
    by (cases "a \<le> m"; cases "b \<le> s") (simp_all add: bucket_name_def bucket_order_def)
  then show ?thesis using c by (auto simp: r)
qed

lemma assign_buckets_parts:
  assumes "map_res (\<lambda>(domain, rows). res_bind (bucket_domain rows) (\<lambda>r. Inr (domain, r))) gs = Inr ds"
  shows "map fst ds = map fst gs \<and> map core (concat (map (fst \<circ> snd) ds)) = map core (concat (map snd gs))
    \<and> (\<forall>row \<in> set (concat (map (fst \<circ> snd) ds)). bucket_of row \<in> set bucket_order)"
  using assms
proof (induction gs arbitrary: ds)
  case (Cons g gs)
  then obtain rows m s ds' where b: "bucket_domain (snd g) = Inr (rows, m, s)"
    and r: "map_res (\<lambda>(domain, rows). res_bind (bucket_domain rows) (\<lambda>r. Inr (domain, r))) gs = Inr ds'"
    and ds: "ds = (fst g, rows, m, s) # ds'"
    by (cases g) (auto simp: res_bind_eq_Inr_iff)
  show ?case using Cons.IH [OF r] bucket_domain_parts [OF b] by (auto simp: ds)
qed simp

lemma order_domains_parts:
  assumes "good_rng R" and "order_domains R sched ds k = Inr (q, k')"
  shows "map fst q = map fst ds \<and> contents q = mset (concat (map (fst \<circ> snd) ds))"
  using assms(2)
proof (induction ds arbitrary: k q k')
  case (Cons d ds)
  obtain domain rows m s where d: "d = (domain, rows, m, s)" by (cases d) auto
  then obtain o1 k1 rest k2 where o: "order_domain_rows R sched rows k = Inr (o1, k1)"
    and r: "order_domains R sched ds k1 = Inr (rest, k2)" and q: "q = (domain, o1) # rest"
    using Cons.prems by (auto simp: res_bind_eq_Inr_iff)
  show ?case using Cons.IH [OF r] order_domain_rows_perm [OF assms(1) o] by (simp add: d q)
qed simp

lemma sample_rows_parts:
  assumes "good_rng R"
  shows "mset (fst (sample_rows_by_ratio R rows ratio k)) \<subseteq># mset rows
    \<and> length (fst (sample_rows_by_ratio R rows ratio k)) = kept_rows ratio (length rows)"
proof (cases "rows = [] \<or> 1 \<le> ratio \<or> length rows \<le> max 1 (nat \<lfloor>real (length rows) * ratio\<rfloor>)")
  case True
  then show ?thesis by (auto simp: sample_rows_by_ratio_def kept_rows_def Let_def)
next
  case False
  let ?m = "max 1 (nat \<lfloor>real (length rows) * ratio\<rfloor>)"
  have m: "?m \<le> length rows" and k: "kept_rows ratio (length rows) = ?m"
    using False by (auto simp: kept_rows_def)
  have "sample_rows_by_ratio R rows ratio k = rng_sample R ?m rows k"
    using False by (simp only: sample_rows_by_ratio_def Let_def de_Morgan_disj if_False simp_thms)
  then show ?thesis using rng_sample_parts [OF assms m, of k] k by (simp only:)
qed

lemma load_train_rows_Inr: "load_train_rows rows = Inr rows' \<Longrightarrow> rows' = rows"
proof (induction rows arbitrary: rows')
  case (Cons row rows)
  then show ?case by (auto simp: load_train_rows_def res_bind_eq_Inr_iff split: if_splits)
qed (simp add: load_train_rows_def)

text \<open>
  C7. Scheduling loses and invents nothing: whatever the order inside the domains, the balance
  between them and the random numbers, without \<open>max_samples\<close> the scheduled rows are, up to
  order and the added bucket, a part of the input of exactly the requested size, and every row
  has one of the four buckets.
\<close>

theorem schedule_is_permutation:
  assumes "schedule_rows R A input = Inr rows" and "good_rng R" and "ta_max_samples A = None"
  shows "image_mset core (mset rows) \<subseteq># image_mset core (mset input)
    \<and> length rows = kept_rows (ta_data_ratio A) (length input)
    \<and> (\<forall>row \<in> set rows. bucket_of row \<in> set bucket_order)"
proof -
  obtain ratio sampled k by_domain q k' where s: "sample_rows_by_ratio R input (ta_data_ratio A) 0 = (sampled, k)"
    and b: "assign_buckets sampled = Inr by_domain"
    and o: "order_domains R (ta_schedule A) by_domain k = Inr (q, k')"
    and i: "interleave_domains R q (ta_balance A) ratio (parse_domain_order (ta_domain_order A)) k' = Inr rows"
  proof -
    obtain r loaded where "load_train_rows input = Inr loaded"
      and "(case sample_rows_by_ratio R loaded (ta_data_ratio A) 0 of (rows, k) \<Rightarrow>
         res_bind (assign_buckets rows) (\<lambda>by_domain.
         res_bind (order_domains R (ta_schedule A) by_domain k) (\<lambda>(ordered, k').
         res_bind (interleave_domains R ordered (ta_balance A)
             (map (\<lambda>d. (d, dget_or r d 1)) (sort (map fst by_domain)))
             (parse_domain_order (ta_domain_order A)) k') Inr))) = Inr rows"
      using assms(1,3) by (auto simp: schedule_rows_def res_bind_eq_Inr_iff Let_def)
    then show ?thesis
      using that load_train_rows_Inr [of input loaded]
      by (cases "sample_rows_by_ratio R loaded (ta_data_ratio A) 0") (auto simp: res_bind_eq_Inr_iff)
  qed
  let ?g = "group_by category_of sampled" and ?rows = "concat (map (fst \<circ> snd) by_domain)"
  note B = assign_buckets_parts [OF b [unfolded assign_buckets_def]]
  note O = order_domains_parts [OF assms(2) o]
  have "distinct (map fst q)" using O B distinct_group_by [of category_of sampled] by simp
  then have rows: "mset rows = mset ?rows" using interleave_perm [OF assms(2) _ i] O by simp
  have "image_mset core (mset rows) = mset (map core ?rows)" by (simp only: rows mset_map)
  also have "\<dots> = mset (map core (concat (map snd ?g)))" using B by (simp only:)
  also have "\<dots> = image_mset core (mset sampled)" by (simp only: mset_map mset_concat_group_by)
  finally have eq: "image_mset core (mset rows) = image_mset core (mset sampled)" .
  have "length rows = length sampled" using arg_cong [OF eq, of size] by simp
  moreover have "\<forall>row \<in> set rows. bucket_of row \<in> set bucket_order"
    using B mset_eq_setD [OF rows] by blast
  ultimately show ?thesis
    using sample_rows_parts [OF assms(2), of input "ta_data_ratio A" 0] s eq by (simp add: image_mset_subseteq_mono)
qed

subsection \<open>Redaction\<close>

lemma redact_from_True:
  "list_all (\<lambda>p. \<not> starts_with ''--'' p) ks \<Longrightarrow>
    redact_from True (ks @ cmd) = replicate (length ks) ''***'' @ redact_from True cmd"
proof (induction ks)
  case (Cons p ks)
  moreover have "p \<noteq> ''--geoscore_api_keys''" using Cons.prems by (auto simp: starts_with_def)
  ultimately show ?case by simp
qed simp

lemma redact_from_option: "redact_from False (''--geoscore_api_keys'' # cmd) = ''--geoscore_api_keys'' # redact_from True cmd"
  by simp

lemma redact_from_next:
  "starts_with ''--'' p \<Longrightarrow> p \<noteq> ''--geoscore_api_keys'' \<Longrightarrow> redact_from True (p # cmd) = p # redact_from False cmd"
  by simp

declare redact_from.simps [simp del]

lemma redact_from_id: "''--geoscore_api_keys'' \<notin> set cmd \<Longrightarrow> redact_from False cmd = cmd"
  by (induction cmd) (auto simp: redact_from.simps)

lemma redact_from_append_id:
  "''--geoscore_api_keys'' \<notin> set pre \<Longrightarrow> redact_from False (pre @ cmd) = pre @ redact_from False cmd"
  by (induction pre) (auto simp: redact_from.simps)

text \<open>
  The printed command hides the API keys: when none of the other arguments is the option
  itself and the keys are not options, each key is replaced by stars and nothing else changes.
\<close>

theorem redaction_hides_keys:
  assumes "la_api_keys L \<noteq> []" and "list_all (\<lambda>k. \<not> starts_with ''--'' k) (la_api_keys L)"
    and "''--geoscore_api_keys'' \<notin> set (command_head L dataset run_name output_dir)"
    and "''--geoscore_api_keys'' \<notin> set (opt L ''geoscore_max_distance'' @ la_model_type L # la_extra L)"
  shows "redact_command (build_swift_command L dataset run_name output_dir)
    = build_swift_command (L\<lparr>la_api_keys := replicate (length (la_api_keys L)) ''***''\<rparr>) dataset run_name output_dir"
proof -
  let ?rest = "(if la_model_type L \<noteq> [] then [''--model_type'', la_model_type L] else []) @ la_extra L"
  let ?dist = "[''--geoscore_max_distance'', la_options L ''geoscore_max_distance'']"
  have head: "command_head (L\<lparr>la_api_keys := ks\<rparr>) dataset run_name output_dir = command_head L dataset run_name output_dir"
    for ks by (simp add: command_head_def server_args_def opt_def)
  have rest: "redact_from True (?dist @ ?rest) = ?dist @ ?rest"
  proof -
    have "''--geoscore_api_keys'' \<notin> set (la_options L ''geoscore_max_distance'' # ?rest)"
      using assms(4) by (auto simp: opt_def)
    then have "redact_from False (la_options L ''geoscore_max_distance'' # ?rest)
        = la_options L ''geoscore_max_distance'' # ?rest" by (rule redact_from_id)
    then show ?thesis using redact_from_next [of "''--geoscore_max_distance''"] by (simp add: starts_with_def)
  qed
  have "redact_command (build_swift_command L dataset run_name output_dir)
      = command_head L dataset run_name output_dir
        @ ''--geoscore_api_keys'' # replicate (length (la_api_keys L)) ''***'' @ redact_from True (?dist @ ?rest)"
    using assms(1) redact_from_append_id [OF assms(3)] redact_from_True [OF assms(2), of "?dist @ ?rest"]
    by (simp add: redact_command_def build_swift_command_def opt_def redact_from_option)
  then show ?thesis using assms(1) by (simp only: rest) (simp add: build_swift_command_def head opt_def)
qed

definition rng_example :: rng where
  "rng_example = \<lparr>rng_below = \<lambda>k n. 0, rng_unit = \<lambda>k. 0\<rparr>"

definition train_example :: train_args where
  "train_example =
     \<lparr>ta_schedule = Four_stage, ta_balance = Ratio, ta_domain_ratio = [], ta_domain_order = [], ta_data_ratio = 1,
      ta_max_samples = None\<rparr>"

definition train_row :: "string \<Rightarrow> string \<Rightarrow> real \<Rightarrow> pydict" where
  "train_row i category m =
     [(''id'', PStr i), (''path'', PStr i), (''latitude'', PFloat 0), (''longitude'', PFloat 0),
      (''reward_mean'', PFloat m), (''reward_std'', PFloat 0), (''category'', PStr category)]"

lemma train_example_runs:
  "\<exists>rows. schedule_rows rng_example train_example [train_row ''a'' ''uav'' 1, train_row ''b'' ''map'' 2] = Inr rows"
proof -
  have m: "median [x] = x" for x by (simp add: median_def)
  let ?bucket = "dset ''bucket'' (PStr ''high_mean_high_std'')"
  have a: "assign_buckets [train_row ''a'' ''uav'' 1, train_row ''b'' ''map'' 2]
      = Inr [(''uav'', [?bucket (train_row ''a'' ''uav'' 1)], 1, 0), (''map'', [?bucket (train_row ''b'' ''map'' 2)], 2, 0)]"
    by (simp add: assign_buckets_def train_row_def category_of_def group_by_def dappend_def dget_or_def bucket_domain_def
        row_item_def float_res_def m bucket_name_def)
  have l: "load_train_rows [train_row ''a'' ''uav'' 1, train_row ''b'' ''map'' 2]
      = Inr [train_row ''a'' ''uav'' 1, train_row ''b'' ''map'' 2]"
    by (simp add: load_train_rows_def train_row_def required_keys_def has_key_def)
  show ?thesis
    by (simp add: schedule_rows_def train_example_def rng_example_def l sample_rows_by_ratio_def a parse_domain_ratio_def
        order_domain_rows_def rng_shuffle_def bucket_order_def dget_or_def interleave_domains_def
        ordered_domain_names_def parse_domain_order_def default_domain_ratio_def Let_def) blast
qed

lemma schedule_is_permutation_witness:
  "\<exists>rows. schedule_rows rng_example train_example [train_row ''a'' ''uav'' 1, train_row ''b'' ''map'' 2] = Inr rows
     \<and> length rows = 2"
proof -
  obtain rows where r: "schedule_rows rng_example train_example [train_row ''a'' ''uav'' 1, train_row ''b'' ''map'' 2] = Inr rows"
    using train_example_runs by blast
  have "good_rng rng_example" by (simp add: good_rng_def rng_example_def)
  from schedule_is_permutation [OF r this] r show ?thesis by (auto simp: train_example_def kept_rows_def)
qed

definition launch_example :: launch_args where
  "launch_example =
     \<lparr>la_model = ''m'', la_options = \<lambda>_. ''1'', la_reward_funcs = [''geo''], la_reward_weights = [''1''],
      la_server = False, la_server_base_url = [], la_server_host = [], la_server_port = [], la_server_group_port = [],
      la_server_pass_dataset = None, la_max_pixels = None, la_api_keys = [''secret''], la_model_type = [],
      la_exp_name = [], la_extra = []\<rparr>"

lemma redaction_hides_keys_witness:
  "redact_command (build_swift_command launch_example ''d'' ''r'' ''o'')
     = build_swift_command (launch_example\<lparr>la_api_keys := [''***'']\<rparr>) ''d'' ''r'' ''o''"
  using redaction_hides_keys [of launch_example "''d''" "''r''" "''o''"]
  by (simp add: launch_example_def command_head_def opt_def starts_with_def)

end
