(* ===== verification/Contexts.thy ===== *)
theory Contexts
  imports PyValue PyRegex
begin

text \<open>
  The pieces of a chat template (\<open>swift/template/template_meta.py\<close>, \<open>swift/template/utils.py\<close>):
  prompts as lists of texts and token lists, the checks and derived fields of
  \<open>TemplateMeta\<close>, messages and their contents, the splitting of a text at delimiters, and the
  conversion between messages and a history.  The tokenizer's attributes are an argument.
\<close>

subsection \<open>Prompts\<close>

text \<open>An element of a token list in a template: a token id, or the name of a tokenizer attribute.\<close>

datatype token_ref = Tok int | Attr string

datatype word = Word string | Toks "token_ref list"

type_synonym prompt = "word list"

record template_meta =
  tm_prefix :: prompt
  tm_prompt :: prompt
  tm_chat_sep :: "prompt option"
  tm_suffix :: prompt
  tm_system_prefix :: "prompt option"
  tm_default_system :: "string option"
  tm_auto_add_bos :: bool
  tm_stop_words :: prompt
  tm_is_thinking :: bool
  tm_thinking_prefix :: string
  tm_non_thinking_prefix :: string
  tm_history_thinking_prefix :: string

text \<open>The fields that \<open>__post_init__\<close> derives.\<close>

record full_meta = template_meta +
  tm_is_post_system :: bool
  tm_system_prompt :: prompt
  tm_support_system :: bool
  tm_support_multi_round :: bool

definition system_tag :: string where
  "system_tag = ''{{SYSTEM}}''"

fun word_has_system :: "word \<Rightarrow> bool" where
  "word_has_system (Word s) = contains system_tag s"
| "word_has_system (Toks ts) = (Attr system_tag \<in> set ts)"

definition has_system :: "prompt \<Rightarrow> bool" where
  "has_system p = list_ex word_has_system p"

text \<open>A token list of the prefix is dropped, not kept: only texts pass the filter.\<close>

definition replace_system :: "prompt \<Rightarrow> prompt" where
  "replace_system p =
     concat (map (\<lambda>w. case w of Word s \<Rightarrow> [Word (replace system_tag [] s)] | Toks ts \<Rightarrow> []) p)"

definition check_system :: "full_meta \<Rightarrow> string option \<Rightarrow> unit res" where
  "check_system m system = (if system \<noteq> None \<and> \<not> tm_support_system m then Inl AssertionError else Inr ())"

definition post_init :: "template_meta \<Rightarrow> full_meta res" where
  "post_init m =
     (if has_system (tm_prefix m) \<and> tm_system_prefix m \<noteq> None then Inl AssertionError
      else
        let in_prefix = has_system (tm_prefix m);
            system_prefix = (if in_prefix then Some (tm_prefix m) else tm_system_prefix m);
            prefix = (if in_prefix then replace_system (tm_prefix m) else tm_prefix m);
            post = has_system (tm_prompt m);
            prompt = (if post then filter (\<lambda>w. \<not> word_has_system w) (tm_prompt m) else tm_prompt m);
            full = template_meta.extend (m\<lparr>tm_prefix := prefix, tm_prompt := prompt, tm_system_prefix := system_prefix\<rparr>)
                     (full_meta.fields post (if post then tm_prompt m else [])
                        (system_prefix \<noteq> None \<or> post) (tm_chat_sep m \<noteq> None))
        in res_bind (check_system full (tm_default_system full)) (\<lambda>_. Inr full))"

text \<open>\<open>to_generate_template_meta\<close>: the template of plain text generation.\<close>

definition to_generate_template_meta :: "template_meta \<Rightarrow> template_meta" where
  "to_generate_template_meta m =
     \<lparr>tm_prefix = [], tm_prompt = [Word ''{{QUERY}}''], tm_chat_sep = None, tm_suffix = [Toks [Attr ''eos_token_id'']],
      tm_system_prefix = None, tm_default_system = None, tm_auto_add_bos = True, tm_stop_words = tm_stop_words m,
      tm_is_thinking = False, tm_thinking_prefix = [], tm_non_thinking_prefix = [], tm_history_thinking_prefix = []\<rparr>"

record tokenizer =
  tk_ids :: "string \<Rightarrow> int list"
  tk_text :: "int list \<Rightarrow> string"
  tk_attr :: "string \<Rightarrow> int option"
  tk_to_id :: "string \<Rightarrow> int option"
  tk_encode_full :: "string \<Rightarrow> int list"
  tk_eos_token :: string
  tk_eos_token_id :: int
  tk_pad_token_id :: int

fun ref_to_id :: "tokenizer \<Rightarrow> token_ref \<Rightarrow> token_ref res" where
  "ref_to_id tk (Tok i) = Inr (Tok i)"
| "ref_to_id tk (Attr a) = (case tk_attr tk a of None \<Rightarrow> Inl AttributeError | Some i \<Rightarrow> Inr (Tok i))"

fun word_to_id :: "tokenizer \<Rightarrow> word \<Rightarrow> word res" where
  "word_to_id tk (Word s) = Inr (Word s)"
| "word_to_id tk (Toks ts) = res_bind (map_res (ref_to_id tk) ts) (\<lambda>ts'. Inr (Toks ts'))"

definition token_attr_to_id :: "tokenizer \<Rightarrow> prompt \<Rightarrow> prompt res" where
  "token_attr_to_id tk p = map_res (word_to_id tk) p"

definition opt_attr_to_id :: "tokenizer \<Rightarrow> prompt option \<Rightarrow> prompt option res" where
  "opt_attr_to_id tk p =
     (case p of None \<Rightarrow> Inr None | Some q \<Rightarrow> res_bind (token_attr_to_id tk q) (\<lambda>q'. Inr (Some q')))"

text \<open>A stop word is true when it is not empty.\<close>

fun word_truthy :: "word \<Rightarrow> bool" where
  "word_truthy (Word s) = (s \<noteq> [])"
| "word_truthy (Toks ts) = (ts \<noteq> [])"

definition suffix_stop_of :: "prompt \<Rightarrow> word option" where
  "suffix_stop_of suffix =
     (if suffix = [] then None
      else Some (case last suffix of Word s \<Rightarrow> Word (strip s) | Toks ts \<Rightarrow> Toks ts))"

definition add_stop_words :: "tokenizer \<Rightarrow> word option \<Rightarrow> prompt \<Rightarrow> prompt" where
  "add_stop_words tk stop ws =
     (let ws1 = (case stop of
                   Some w \<Rightarrow> (if word_truthy w \<and> w \<notin> set ws then ws @ [w] else ws)
                 | None \<Rightarrow> ws)
      in if Word (tk_eos_token tk) \<notin> set ws1 then ws1 @ [Word (tk_eos_token tk)] else ws1)"

text \<open>\<open>stop_token_id\<close>; a name left in a token list cannot be met after the conversion.\<close>

definition stop_token_of :: "tokenizer \<Rightarrow> word option \<Rightarrow> int" where
  "stop_token_of tk stop =
     (case stop of
        Some (Word s) \<Rightarrow>
          (if s = [] then tk_eos_token_id tk
           else (case tk_to_id tk s of Some i \<Rightarrow> i | None \<Rightarrow> tk_eos_token_id tk))
      | Some (Toks [Tok i]) \<Rightarrow> i
      | _ \<Rightarrow> tk_eos_token_id tk)"

record ready_meta = full_meta +
  tm_suffix_stop :: "word option"
  tm_stop_token_id :: int

text \<open>
  \<open>TemplateMeta.init\<close>.  The prompt of a template with a late system text is not among the
  converted fields.
\<close>

definition init_meta :: "tokenizer \<Rightarrow> full_meta \<Rightarrow> ready_meta res" where
  "init_meta tk m =
     res_bind (token_attr_to_id tk (tm_prefix m)) (\<lambda>prefix.
     res_bind (token_attr_to_id tk (tm_prompt m)) (\<lambda>prompt.
     res_bind (opt_attr_to_id tk (tm_chat_sep m)) (\<lambda>chat_sep.
     res_bind (token_attr_to_id tk (tm_suffix m)) (\<lambda>suffix.
     res_bind (opt_attr_to_id tk (tm_system_prefix m)) (\<lambda>system_prefix.
       let stop = suffix_stop_of suffix in
       Inr (full_meta.extend
         (m\<lparr>tm_prefix := prefix, tm_prompt := prompt, tm_chat_sep := chat_sep, tm_suffix := suffix,
            tm_system_prefix := system_prefix, tm_stop_words := add_stop_words tk stop (tm_stop_words m)\<rparr>)
         (ready_meta.fields stop (stop_token_of tk stop))))))))"

subsection \<open>Contexts and messages\<close>

text \<open>
  A context is a text, a list of token ids, or a response that comes as a dictionary of token
  ids with optional weights per token.
\<close>

datatype ctx = CText string | CIds "int list" | CResp "int list" "real list option"

fun ref_id :: "token_ref \<Rightarrow> int res" where
  "ref_id (Tok i) = Inr i"
| "ref_id (Attr a) = Inl TypeError"

fun word_ctx :: "word \<Rightarrow> ctx res" where
  "word_ctx (Word s) = Inr (CText s)"
| "word_ctx (Toks ts) = res_bind (map_res ref_id ts) (\<lambda>is. Inr (CIds is))"

text \<open>The content of a message: missing, a context, or a list of contexts (tool responses).\<close>

datatype content = CNone | COne ctx | CMany "ctx list"

record message =
  m_role :: string
  m_content :: content
  m_loss :: "bool option"

definition get_last_user_round :: "message list \<Rightarrow> int" where
  "get_last_user_round ms =
     (case filter (\<lambda>i. m_role (ms ! i) = ''user'') (rev [0 ..< length ms]) of
        [] \<Rightarrow> -1 | i # _ \<Rightarrow> int i)"

text \<open>\<open>remove_response\<close>: the messages without a closing answer.\<close>

definition remove_response :: "message list \<Rightarrow> message list" where
  "remove_response ms = (if ms \<noteq> [] \<and> m_role (last ms) = ''assistant'' then butlast ms else ms)"

subsection \<open>Splitting a text\<close>

fun pairs_of :: "'a list \<Rightarrow> ('a \<times> 'a) list" where
  "pairs_of (x # y # zs) = (x, y) # pairs_of zs"
| "pairs_of _ = []"

text \<open>\<open>re.split\<close> with one group per pattern: the texts between the matches and the matches.\<close>

definition split_raw :: "rx list \<Rightarrow> string \<Rightarrow> string list" where
  "split_raw rs text =
     (let (ms, rest) = re_matches (alts rs) text
      in concat (map (\<lambda>(pre, m, gs). [pre, m]) ms) @ [rest])"

definition split_str_by_regex :: "rx list \<Rightarrow> string \<Rightarrow> string list" where
  "split_str_by_regex rs text =
     (let parts = split_raw rs text in if hd parts = [] then tl parts else [] # parts)"

definition split_str_parts_by :: "string list \<Rightarrow> string \<Rightarrow> (string \<times> string) list" where
  "split_str_parts_by delimiters text =
     pairs_of (if delimiters = [] then [[], text] else split_str_by_regex (map lit delimiters) text)"

text \<open>The mode with patterns: each part is labelled with the first pattern it matches.\<close>

definition pattern_key :: "(string \<times> rx) list \<Rightarrow> string \<Rightarrow> string" where
  "pattern_key ps part =
     (case filter (\<lambda>(k, r). re_match r part \<noteq> None) ps of [] \<Rightarrow> [] | (k, r) # _ \<Rightarrow> k)"

definition split_str_parts_by_regex :: "(string \<times> rx) list \<Rightarrow> string \<Rightarrow> (string \<times> string) list" where
  "split_str_parts_by_regex ps text =
     (let parts = (if ps = [] then [[], text] else split_str_by_regex (map snd ps) text)
      in map (\<lambda>part. (pattern_key ps part, part)) (filter (\<lambda>p. p \<noteq> []) parts))"

text \<open>Splitting a text keeps every character of it, with or without delimiters.\<close>

lemma concat_split_raw: "concat (split_raw rs text) = text"
proof -
  obtain ms rest where m: "re_matches (alts rs) text = (ms, rest)" by fastforce
  have "concat (concat (map (\<lambda>(pre, m, gs). [pre, m]) ms)) = concat (map (\<lambda>(pre, m, gs). pre @ m) ms)"
    by (induction ms) auto
  then show ?thesis using re_matches_text [OF m] m by (simp add: split_raw_def)
qed

lemma split_raw_shape: "\<exists>n. length (split_raw rs text) = Suc (2 * n)"
proof -
  have "length (concat (map (\<lambda>(pre, m, gs). [pre, m]) ms)) = 2 * length ms"
    for ms :: "(string \<times> string \<times> groups) list"
    by (induction ms) auto
  then show ?thesis by (auto simp: split_raw_def Let_def split: prod.splits)
qed

lemma split_str_by_regex_text:
  "concat (split_str_by_regex rs text) = text" "even (length (split_str_by_regex rs text))"
proof -
  obtain x xs where x: "split_raw rs text = x # xs"
    using split_raw_shape [of rs "text"] by (cases "split_raw rs text") auto
  show "concat (split_str_by_regex rs text) = text"
    using x concat_split_raw [of rs "text"] by (auto simp: split_str_by_regex_def Let_def)
  show "even (length (split_str_by_regex rs text))"
    using x split_raw_shape [of rs "text"] by (auto simp: split_str_by_regex_def Let_def)
qed

lemma concat_pairs_of: "even (length xs) \<Longrightarrow> concat (map (\<lambda>(k, c). k @ c) (pairs_of xs)) = concat xs"
  by (induction xs rule: pairs_of.induct) auto

lemma split_str_parts_by_text: "concat (map (\<lambda>(k, c). k @ c) (split_str_parts_by ds text)) = text"
  by (cases "ds = []") (simp_all add: split_str_parts_by_def concat_pairs_of split_str_by_regex_text)

lemma concat_filter_nonempty: "concat (filter (\<lambda>p. p \<noteq> []) xs) = concat xs"
  by (induction xs) auto

lemma split_str_parts_by_regex_text: "concat (map snd (split_str_parts_by_regex ps text)) = text"
  by (simp add: split_str_parts_by_regex_def Let_def o_def concat_filter_nonempty split_str_by_regex_text)

subsection \<open>Token lists\<close>

text \<open>The positions of the non-empty token list \<open>x # xs\<close>.\<close>

definition findall :: "int list \<Rightarrow> int \<Rightarrow> int list \<Rightarrow> nat list" where
  "findall tokens x xs =
     filter (\<lambda>i. tokens ! i = x \<and> (xs = [] \<or> take (Suc (length xs)) (drop i tokens) = x # xs)) [0 ..< length tokens]"

fun split_list_at :: "nat \<Rightarrow> nat list \<Rightarrow> int list \<Rightarrow> int list list" where
  "split_list_at lo [] xs = [drop lo xs]"
| "split_list_at lo (i # is) xs = take (i - lo) (drop lo xs) # split_list_at (Suc i) is xs"

definition split_token_list :: "int list \<Rightarrow> int \<Rightarrow> int list list" where
  "split_token_list xs x = split_list_at 0 (findall xs x []) xs"

subsection \<open>Histories\<close>

record history =
  h_turns :: "(content \<times> content) list"
  h_roles :: "(string \<times> string) list"
  h_query :: content
  h_query_role :: "string option"
  h_response :: content
  h_system :: content

definition msg :: "string \<Rightarrow> content \<Rightarrow> message" where
  "msg role c = \<lparr>m_role = role, m_content = c, m_loss = None\<rparr>"

definition history_to_messages ::
  "(content \<times> content) list \<Rightarrow> content \<Rightarrow> (string \<times> string) list \<Rightarrow> message list res" where
  "history_to_messages history system roles =
     (let roles' = (if roles = [] then replicate (length history) (''user'', ''assistant'') else roles)
      in if roles \<noteq> [] \<and> length roles \<noteq> length history then Inl AssertionError
         else Inr ((if system \<noteq> CNone then [msg ''system'' system] else []) @
           concat (map (\<lambda>(role, h).
             (if fst h \<noteq> CNone then [msg (fst role) (fst h)] else []) @
             (if snd h \<noteq> CNone then [msg (snd role) (snd h)] else [])) (zip roles' history))))"

definition check_pair :: "message \<times> message \<Rightarrow> ((content \<times> content) \<times> string \<times> string) res" where
  "check_pair p =
     (if m_role (fst p) \<notin> {''tool'', ''user''} then Inl AssertionError
      else if m_role (snd p) \<noteq> ''assistant'' then Inl AssertionError
      else Inr ((m_content (fst p), m_content (snd p)), m_role (fst p), m_role (snd p)))"

definition messages_to_history :: "message list \<Rightarrow> history res" where
  "messages_to_history ms =
     (case ms of
        [] \<Rightarrow> Inl IndexError
      | m # rest \<Rightarrow>
          let system = (if m_role m = ''system'' then m_content m else CNone);
              body = (if m_role m = ''system'' then rest else ms);
              body' = (if odd (length body) then body @ [msg ''assistant'' CNone] else body)
          in res_bind (map_res check_pair (pairs_of body')) (\<lambda>turns.
             Inr (if turns = [] then \<lparr>h_turns = [], h_roles = [], h_query = CNone, h_query_role = None,
                                     h_response = CNone, h_system = system\<rparr>
                  else \<lparr>h_turns = map fst (butlast turns), h_roles = map snd (butlast turns),
                        h_query = fst (fst (last turns)), h_query_role = Some (fst (snd (last turns))),
                        h_response = snd (fst (last turns)), h_system = system\<rparr>)))"

end
