(* ===== verification/LossScale.thy ===== *)
theory LossScale
  imports Contexts
begin

text \<open>
  The weights of the training loss (\<open>swift/loss_scale\<close>): the base strategies, the maps that
  split an agent's answer into weighted parts, the factory, and the weighting of a whole
  conversation.  The maps are those of \<open>swift/loss_scale/config\<close>; a pattern comes with its
  regular expression.
\<close>

subsection \<open>Splitting an answer into weighted parts\<close>

type_synonym scale_map = "(string \<times> rx \<times> real list) list"

definition scale_weights :: "scale_map \<Rightarrow> string \<Rightarrow> real list option" where
  "scale_weights m k = map_option snd (dget m k)"

definition keys_of_size :: "nat \<Rightarrow> scale_map \<Rightarrow> (string \<times> rx) list" where
  "keys_of_size n m = map (\<lambda>(k, r, ws). (k, r)) (filter (\<lambda>(k, r, ws). length ws = n) m)"

text \<open>\<open>key in query\<close>: a text contains the key; of a list of contexts it must be an element.\<close>

fun key_in_query :: "string \<Rightarrow> content \<Rightarrow> bool res" where
  "key_in_query k CNone = Inl TypeError"
| "key_in_query k (COne (CText s)) = Inr (contains k s)"
| "key_in_query k (COne (CIds is)) = Inr False"
| "key_in_query k (COne (CResp is w)) = Inr (k = ''token_ids'' \<or> k = ''loss_scale'' \<and> w \<noteq> None)"
| "key_in_query k (CMany cs) = Inr (CText k \<in> set cs)"

fun query_weight :: "(string \<times> real list) list \<Rightarrow> content \<Rightarrow> real option res" where
  "query_weight [] q = Inr None"
| "query_weight ((k, ws) # m) q =
     res_bind (key_in_query k q) (\<lambda>here.
       if here then (case ws of [] \<Rightarrow> Inl IndexError | w # _ \<Rightarrow> Inr (Some w)) else query_weight m q)"

fun weigh_part :: "scale_map \<Rightarrow> string \<times> string \<Rightarrow> (string list \<times> real list) res" where
  "weigh_part m (key, content) =
     (case scale_weights m key of
        Some [w] \<Rightarrow> Inr ([content], [w])
      | Some [w, w'] \<Rightarrow> Inr ([key, content], [w, w'])
      | Some _ \<Rightarrow> Inl AssertionError
      | None \<Rightarrow> Inr ([content], [1]))"

definition agent_parts :: "scale_map \<Rightarrow> string \<Rightarrow> (string \<times> string) list" where
  "agent_parts m response =
     (let delimiters = keys_of_size 2 m
      in if delimiters \<noteq> [] then split_str_parts_by (map fst delimiters) response
         else split_str_parts_by_regex (keys_of_size 1 m) response)"

definition calculate_loss_scale ::
  "content \<Rightarrow> string \<Rightarrow> scale_map \<Rightarrow> (string \<times> real list) list option \<Rightarrow> (string list \<times> real list) res" where
  "calculate_loss_scale query response m query_map =
     res_bind (case query_map of None \<Rightarrow> Inr None | Some qm \<Rightarrow> query_weight qm query) (\<lambda>qw.
       case qw of
         Some w \<Rightarrow> Inr ([response], [w])
       | None \<Rightarrow>
           res_bind (map_res (weigh_part m) (agent_parts m response)) (\<lambda>parts.
             Inr (concat (map fst parts), concat (map snd parts))))"

subsection \<open>The configured maps\<close>

definition words_map :: "(string \<times> real list) list \<Rightarrow> scale_map" where
  "words_map m = map (\<lambda>(k, ws). (k, lit k, ws)) m"

definition react_map :: scale_map where
  "react_map = words_map
     [(''Action:'', [2, 2]), (''Action Input:'', [2, 2]), (''Thought:'', [1, 1]), (''Final Answer:'', [1, 1]),
      (''Observation:'', [2, 0])]"

text \<open>The last entry has a comma where a point was meant, so three weights.\<close>

definition alpha_umi_map :: scale_map where
  "alpha_umi_map = words_map
     [(''Action:'', [2, 2]), (''Action Input:'', [2, 2]), (''Thought:'', [1, 1]), (''Final Answer:'', [1, 1]),
      (''Observation:'', [2, 0]), (''Next:'', [2, 0, 2])]"

definition flower :: string where
  "flower = [CHR 0xE2, CHR 0x9C, CHR 0xBF]"

definition qwen_map :: scale_map where
  "qwen_map = words_map
     [(flower @ ''FUNCTION'' @ flower @ '':'', [2, 2]), (flower @ ''ARGS'' @ flower @ '':'', [2, 2]),
      (flower @ ''RETURN'' @ flower @ '':'', [1, 1]), (flower @ ''RESULT'' @ flower @ '':'', [2, 0])]"

definition agentflan_response_map :: scale_map where
  "agentflan_response_map = words_map
     [(''Name:'', [1, 3]), (''Action:'', [1, 3]), (''ACTION:'', [1, 3]), (''Tool:'', [1, 3]), (''Command'', [1, 3]),
      (''Arguments:'', [1, 3]), (''action input'', [1, 3]), (''ACTION_INPUT:'', [1, 3]), (''Action Input:'', [1, 3]),
      (''Thought:'', [1, 1]), (''Final Answer:'', [1, 1]), (''Observation:'', [2, 0])]"

definition agentflan_query_map :: "(string \<times> real list) list" where
  "agentflan_query_map =
     [(''What is the tool you want to use'', [3]), (''What are the required parameter names'', [3]),
      (''What is the value of'', [3]), (''What are the required parameter names for this tool'', [3])]"

definition hermes_map :: scale_map where
  "hermes_map =
     [(''<tool_call>.+?</tool_call>'',
       seqs [lit ''<tool_call>'', dot_all, Star False dot_all, lit ''</tool_call>''], [2])]"

definition seed_think :: string where
  "seed_think = ''<seed:think><seed:cot_budget_reflect>The current thinking budget is 0, so I will directly start answering the question.</seed:cot_budget_reflect>'' @ [CHR 0x0A] @ ''</seed:think>''"

text \<open>The text \<open>s*\<close> behind a backslash, as the patterns are written.\<close>

definition ws_star :: string where
  "ws_star = CHR 0x5C # ''s*''"

definition empty_think_map :: scale_map where
  "empty_think_map =
     [(''^<think>'' @ ws_star @ ''</think>'' @ ws_star, seqs [Bol, lit ''<think>'', blanks, lit ''</think>'', blanks], [0]),
      (''^'' @ seed_think @ ws_star, seqs [Bol, lit seed_think, blanks], [0]),
      (''^</think>'' @ ws_star, seqs [Bol, lit ''</think>'', blanks], [0])]"

subsection \<open>The loss scale objects\<close>

record loss_scale =
  ls_strategy :: string
  ls_binary :: bool
  ls_get :: "ctx \<Rightarrow> content \<Rightarrow> (ctx list \<times> real list) res"

definition base_get :: "ctx \<Rightarrow> content \<Rightarrow> (ctx list \<times> real list) res" where
  "base_get context query = Inr ([context], [1])"

definition config_get ::
  "scale_map \<Rightarrow> (string \<times> real list) list option \<Rightarrow> ctx \<Rightarrow> content \<Rightarrow> (ctx list \<times> real list) res" where
  "config_get m qm context query =
     (case context of
        CText s \<Rightarrow> res_bind (calculate_loss_scale query s m qm) (\<lambda>(cs, ws). Inr (map CText cs, ws))
      | _ \<Rightarrow> base_get context query)"

definition map_is_binary :: "scale_map \<Rightarrow> bool" where
  "map_is_binary m = list_all (\<lambda>(k, r, ws). list_all (\<lambda>w. w = 0 \<or> w = 1) ws) m"

definition config_scale :: "string \<Rightarrow> scale_map \<Rightarrow> loss_scale" where
  "config_scale strategy m = \<lparr>ls_strategy = strategy, ls_binary = map_is_binary m, ls_get = config_get m None\<rparr>"

definition all_base_strategy :: "string list" where
  "all_base_strategy = [''default'', ''last_round'', ''all'']"

definition make_loss_scale :: "string \<Rightarrow> string \<Rightarrow> loss_scale res" where
  "make_loss_scale name strategy =
     (if name \<notin> {''base'', ''ignore_empty_think'', ''react'', ''hermes'', ''qwen'', ''agentflan'', ''alpha_umi''}
      then Inl KeyError
      else if strategy \<notin> set all_base_strategy then Inl ValueError
      else Inr (if name = ''base'' then \<lparr>ls_strategy = strategy, ls_binary = True, ls_get = base_get\<rparr>
        else if name = ''ignore_empty_think'' then config_scale strategy empty_think_map
        else if name = ''react'' then config_scale strategy react_map
        else if name = ''hermes'' then config_scale strategy hermes_map
        else if name = ''qwen'' then config_scale strategy qwen_map
        else if name = ''agentflan''
        then \<lparr>ls_strategy = strategy, ls_binary = False,
              ls_get = config_get agentflan_response_map (Some agentflan_query_map)\<rparr>
        else config_scale strategy alpha_umi_map))"

text \<open>\<open>loss_scale.split('+', 1)\<close>: a strategy, a kind, or both.\<close>

definition get_loss_scale :: "string \<Rightarrow> loss_scale res" where
  "get_loss_scale spec =
     (if CHR ''+'' \<in> set spec then
        let (strategy, name) = split1 (CHR ''+'') spec in make_loss_scale name strategy
      else if spec \<in> set all_base_strategy then make_loss_scale ''base'' spec
      else make_loss_scale spec ''default'')"

subsection \<open>Weighting a conversation\<close>

datatype ctx_type = Response | Suffix | Other

definition is_trained :: "loss_scale \<Rightarrow> bool option \<Rightarrow> ctx_type \<Rightarrow> bool \<Rightarrow> bool" where
  "is_trained ls loss ctype last_round =
     (case loss of
        Some b \<Rightarrow> b
      | None \<Rightarrow>
          (let assistant = (ctype \<noteq> Other)
           in ls_strategy ls = ''all'' \<or> ls_strategy ls = ''default'' \<and> assistant
              \<or> ls_strategy ls = ''last_round'' \<and> assistant \<and> last_round))"

definition weigh_context ::
  "loss_scale \<Rightarrow> bool option \<Rightarrow> content \<Rightarrow> ctx_type \<Rightarrow> bool \<Rightarrow> ctx \<Rightarrow> (ctx list \<times> real list) res" where
  "weigh_context ls loss query ctype last_round context =
     (case context of
        CResp ids (Some ws) \<Rightarrow> Inr (map (\<lambda>t. CIds [t]) ids, ws)
      | _ \<Rightarrow>
          (let c = (case context of CResp ids None \<Rightarrow> CIds ids | c \<Rightarrow> c)
           in if is_trained ls loss ctype last_round then ls_get ls c query else Inr ([c], [0])))"

text \<open>The counter of responses \<open>i\<close> moves on after each response, before its suffix.\<close>

definition weigh_next ::
  "loss_scale \<Rightarrow> message list \<Rightarrow> nat \<Rightarrow> ctx \<times> ctx_type \<Rightarrow> ((ctx list \<times> real list) \<times> nat) res" where
  "weigh_next ls ms i x =
     (let (context, ctype) = x; last_round = (get_last_user_round ms \<le> 2 * int i) in
      if ctype = Response then
        (if length ms \<le> 2 * i + 1 then Inl IndexError
         else if m_content (ms ! (2 * i + 1)) \<noteq> COne context then Inl AssertionError
         else
           res_bind (weigh_context ls (m_loss (ms ! (2 * i + 1))) (m_content (ms ! (2 * i))) ctype last_round context)
             (\<lambda>out. Inr (out, Suc i)))
      else res_bind (weigh_context ls None CNone ctype last_round context) (\<lambda>out. Inr (out, i)))"

fun weigh_all ::
  "loss_scale \<Rightarrow> message list \<Rightarrow> nat \<Rightarrow> (ctx \<times> ctx_type) list \<Rightarrow> (ctx list \<times> real list) res" where
  "weigh_all ls ms i [] = Inr ([], [])"
| "weigh_all ls ms i (x # rest) =
     res_bind (weigh_next ls ms i x) (\<lambda>(out, j).
     res_bind (weigh_all ls ms j rest) (\<lambda>outs. Inr (fst out @ fst outs, snd out @ snd outs)))"

definition loss_scale_call ::
  "loss_scale \<Rightarrow> (ctx \<times> ctx_type) list \<Rightarrow> message list \<Rightarrow> (ctx list \<times> real list) res" where
  "loss_scale_call ls contexts ms = weigh_all ls ms 0 contexts"

subsection \<open>Texts survive the weighting\<close>

text \<open>What a list of contexts says: the characters of its texts and the ids of its token lists.\<close>

fun ctx_items :: "ctx \<Rightarrow> (char + int) list" where
  "ctx_items (CText s) = map Inl s"
| "ctx_items (CIds is) = map Inr is"
| "ctx_items (CResp is w) = map Inr is"

definition items :: "ctx list \<Rightarrow> (char + int) list" where
  "items cs = concat (map ctx_items cs)"

lemma items_simps [simp]: "items [] = []" "items (c # cs) = ctx_items c @ items cs" "items (cs @ ds) = items cs @ items ds"
  by (simp_all add: items_def)

lemma items_texts: "items (map CText ss) = map Inl (concat ss)"
  by (induction ss) auto

text \<open>A literal matches only itself, so the keys of a split are its delimiters.\<close>

lemma rx_match_lit:
  "st' \<in> set (rx_match (lit s) st) \<Longrightarrow> snd (fst st) = s @ snd (fst st')"
proof (induction s arbitrary: st st')
  case Nil
  then show ?case by (simp add: lit_def)
next
  case (Cons c s)
  then show ?case
    by (cases s) (fastforce simp: lit_def split: prod.splits list.splits if_splits)+
qed

lemma rx_match_alts:
  "st' \<in> set (rx_match (alts rs) st) \<Longrightarrow> \<exists>r \<in> set rs. st' \<in> set (rx_match r st)"
proof (induction rs)
  case (Cons r rs)
  then show ?case by (cases rs) auto
next
  case Nil
  then show ?case by (cases st; cases "snd (fst st)") auto
qed

lemma match_at_lits:
  assumes "match_at (alts (map lit ds)) p = Some (q, gs)"
  shows "passed p q \<in> set ds"
proof -
  have "(q, gs) \<in> set (rx_match (alts (map lit ds)) (p, []))"
    using assms by (auto simp: match_at_def split: list.splits)
  then obtain s where "s \<in> set ds" "(q, gs) \<in> set (rx_match (lit s) (p, []))"
    using rx_match_alts by fastforce
  then show ?thesis using rx_match_lit [of "(q, gs)" s "(p, [])"] by (simp add: passed_def)
qed

lemma search_from_match: "search_from r b a = Some (q0, q1, gs) \<Longrightarrow> match_at r q0 = Some (q1, gs)"
  by (induction r b a rule: search_from.induct) (auto split: option.splits)

lemma matches_from_lits:
  "matches_from n (alts (map lit ds)) p = (ms, rest) \<Longrightarrow> (pre, m, gs) \<in> set ms \<Longrightarrow> m \<in> set ds"
proof (induction n arbitrary: p ms rest pre m gs)
  case (Suc n)
  let ?r = "alts (map lit ds)"
  show ?case
  proof (cases "search_from ?r (fst p) (snd p)")
    case None
    then show ?thesis using Suc.prems by simp
  next
    case (Some x)
    then obtain q0 q1 gs0 where s: "search_from ?r (fst p) (snd p) = Some (q0, q1, gs0)" by (cases x) auto
    have k: "passed q0 q1 \<in> set ds" using match_at_lits [OF search_from_match [OF s]] .
    have a: "reaches q0 q1" using search_from_after [OF s] by simp
    show ?thesis
    proof (cases "length (snd q1) < length (snd q0)")
      case True
      obtain ms' rest' where m: "matches_from n ?r q1 = (ms', rest')" by fastforce
      show ?thesis using Suc.prems True s k m Suc.IH [OF m] by (auto simp: Let_def)
    next
      case False
      then have e: "passed q0 q1 = []" by (simp add: passed_def)
      show ?thesis
      proof (cases "snd q1")
        case Nil
        then show ?thesis using Suc.prems s k e False by auto
      next
        case (Cons c aa)
        obtain ms' rest' where m: "matches_from n ?r (c # fst q1, aa) = (ms', rest')" by fastforce
        have IH: "x \<in> set ms' \<Longrightarrow> fst (snd x) \<in> set ds" for x
          using Suc.IH [OF m] by (cases x) auto
        have "set ms \<subseteq> insert (passed p q0, [], gs0) ((\<lambda>(pre, m, gs). (c # pre, m, gs)) ` set ms') \<union> set ms'"
          using Suc.prems s k e False Cons m by (cases ms') (auto simp: Let_def)
        then show ?thesis using Suc.prems(2) k e IH by fastforce
      qed
    qed
  qed
qed simp

lemma keys_of_alternating:
  "fst ` set (pairs_of (k # concat (map (\<lambda>(pre, m, gs). [pre, m]) ms) @ [rest]))
     \<subseteq> insert k ((\<lambda>(pre, m, gs). m) ` set ms)"
proof (induction ms arbitrary: k)
  case (Cons a ms)
  obtain pre m gs where a: "a = (pre, m, gs)" by (cases a)
  then show ?case using Cons.IH [of m] by auto
qed simp

lemma split_str_parts_by_keys:
  assumes "(k, c) \<in> set (split_str_parts_by ds text)"
  shows "k = [] \<or> k \<in> set ds"
proof (cases "ds = []")
  case True
  then show ?thesis using assms by (simp add: split_str_parts_by_def)
next
  case False
  obtain ms rest where m: "re_matches (alts (map lit ds)) text = (ms, rest)" by fastforce
  have ds: "(\<lambda>(pre, m, gs). m) ` set ms \<subseteq> set ds"
    using m matches_from_lits unfolding re_matches_def by fastforce
  then have sub: "insert [] ((\<lambda>(pre, m, gs). m) ` set ms) \<subseteq> insert [] (set ds)" by (rule insert_mono)
  let ?alt = "\<lambda>ms. concat (map (\<lambda>(pre, m, gs). [pre, m]) ms) @ [rest]"
  have "fst ` set (pairs_of (split_str_by_regex (map lit ds) text)) \<subseteq> insert [] (set ds)"
  proof (cases "hd (?alt ms) = []")
    case False
    then show ?thesis
      using order_trans [OF keys_of_alternating [of "[]" ms rest] sub] by (simp add: split_str_by_regex_def split_raw_def m)
  next
    case True
    show ?thesis
    proof (cases ms)
      case Nil
      then show ?thesis using True by (simp add: split_str_by_regex_def split_raw_def m)
    next
      case (Cons x ms')
      obtain pre m' gs where x: "x = (pre, m', gs)" by (cases x)
      have "insert m' ((\<lambda>(pre, m, gs). m) ` set ms') \<subseteq> insert [] (set ds)" using ds by (auto simp: Cons x)
      from order_trans [OF keys_of_alternating [of m' ms' rest] this] show ?thesis
        using True by (simp add: split_str_by_regex_def split_raw_def m Cons x)
    qed
  qed
  then show ?thesis using assms False by (force simp: split_str_parts_by_def)
qed

text \<open>The keys of a map differ and are not empty.\<close>

definition map_ok :: "scale_map \<Rightarrow> bool" where
  "map_ok m \<longleftrightarrow> distinct (map fst m) \<and> [] \<notin> fst ` set m"

lemma keys_of_size_weights:
  "map_ok m \<Longrightarrow> k \<in> set (map fst (keys_of_size n m)) \<Longrightarrow> \<exists>ws. scale_weights m k = Some ws \<and> length ws = n"
  by (force simp: keys_of_size_def map_ok_def scale_weights_def)

lemma empty_key: "map_ok m \<Longrightarrow> scale_weights m [] = None"
  by (auto simp: map_ok_def scale_weights_def map_of_eq_None_iff)

lemma length2E: "length xs = 2 \<Longrightarrow> \<exists>a b. xs = [a, b]"
  by (cases xs; cases "tl xs") auto

lemma length1E: "length xs = 1 \<Longrightarrow> \<exists>a. xs = [a]"
  by (cases xs) auto

definition part_text :: "bool \<Rightarrow> string \<times> string \<Rightarrow> string" where
  "part_text with_key kc = (if with_key then fst kc @ snd kc else snd kc)"

lemma part_text_fun: "part_text True = (\<lambda>(k, c). k @ c)" "part_text False = snd"
  by (auto simp: part_text_def)

lemma weigh_part_text:
  assumes "map_ok m" and "weigh_part m kc = Inr (cs, ws)"
    and "fst kc = [] \<or> fst kc \<in> set (map fst (keys_of_size (if b then 2 else 1) m))"
  shows "concat cs = part_text b kc \<and> length ws = length cs"
proof (cases "fst kc = []")
  case True
  then show ?thesis using assms empty_key by (cases kc) (auto simp: part_text_def)
next
  case False
  then obtain v where "scale_weights m (fst kc) = Some v" "length v = (if b then 2 else 1)"
    using keys_of_size_weights assms(1,3) by metis
  then show ?thesis
    using assms(2) length2E [of v] length1E [of v] by (cases kc; cases b) (auto simp: part_text_def)
qed

lemma pattern_key_in: "pattern_key ps part = [] \<or> pattern_key ps part \<in> set (map fst ps)"
  by (auto simp: pattern_key_def filter_eq_Cons_iff split: list.split)

lemma agent_parts_text:
  "concat (map (part_text (keys_of_size 2 m \<noteq> [])) (agent_parts m s)) = s"
  using split_str_parts_by_text [of "map fst (keys_of_size 2 m)" s] split_str_parts_by_regex_text [of "keys_of_size 1 m" s]
  by (simp add: agent_parts_def Let_def part_text_fun)

lemma agent_parts_keys:
  assumes "kc \<in> set (agent_parts m s)"
  shows "fst kc = [] \<or> fst kc \<in> set (map fst (keys_of_size (if keys_of_size 2 m \<noteq> [] then 2 else 1) m))"
proof (cases "keys_of_size 2 m = []")
  case True
  then show ?thesis
    using assms pattern_key_in [of "keys_of_size 1 m" "snd kc"]
    by (force simp: agent_parts_def split_str_parts_by_regex_def Let_def)
next
  case False
  then show ?thesis
    using assms split_str_parts_by_keys [of "fst kc" "snd kc" "map fst (keys_of_size 2 m)" s] by (simp add: agent_parts_def Let_def)
qed

lemma calculate_loss_scale_text:
  assumes "map_ok m" and "calculate_loss_scale q s m qm = Inr (cs, ws)"
  shows "concat cs = s \<and> length ws = length cs"
proof -
  let ?b = "keys_of_size 2 m \<noteq> []"
  consider w where "cs = [s]" "ws = [w]"
    | parts where "map_res (weigh_part m) (agent_parts m s) = Inr parts"
        "cs = concat (map fst parts)" "ws = concat (map snd parts)"
    using assms(2) unfolding calculate_loss_scale_def by (auto simp: res_bind_eq_Inr_iff split: option.splits)
  then show ?thesis
  proof cases
    case 2
    have "list_all2 (\<lambda>kc y. concat (fst y) = part_text ?b kc \<and> length (snd y) = length (fst y)) (agent_parts m s) parts"
      unfolding list_all2_conv_all_nth
    proof (intro conjI allI impI)
      show "length (agent_parts m s) = length parts"
        using 2(1) by (simp add: map_res_Inr_iff list_all2_lengthD)
      fix i assume i: "i < length (agent_parts m s)"
      then have "weigh_part m (agent_parts m s ! i) = Inr (fst (parts ! i), snd (parts ! i))"
        using 2(1) by (simp add: map_res_Inr_iff list_all2_conv_all_nth)
      from weigh_part_text [OF assms(1) this, of ?b] agent_parts_keys [OF nth_mem [OF i]]
      show "concat (fst (parts ! i)) = part_text ?b (agent_parts m s ! i)"
        "length (snd (parts ! i)) = length (fst (parts ! i))" by simp_all
    qed
    then have "concat (concat (map fst parts)) = concat (map (part_text ?b) (agent_parts m s))
        \<and> length (concat (map snd parts)) = length (concat (map fst parts))"
      by (induction rule: list_all2_induct) auto
    then show ?thesis using 2 agent_parts_text by simp
  qed simp
qed


text \<open>A loss scale that keeps the text of what it weighs, and gives one weight per context.\<close>

definition keeps_text :: "loss_scale \<Rightarrow> bool" where
  "keeps_text ls \<longleftrightarrow> (\<forall>c q cs ws. ls_get ls c q = Inr (cs, ws) \<longrightarrow> items cs = ctx_items c \<and> length ws = length cs)"

lemma config_get_text:
  assumes "map_ok m" and "config_get m qm c q = Inr (cs, ws)"
  shows "items cs = ctx_items c \<and> length ws = length cs"
  using assms calculate_loss_scale_text [OF assms(1)]
  by (auto simp: config_get_def base_get_def res_bind_eq_Inr_iff items_texts split: ctx.splits)

lemma maps_ok:
  "map_ok react_map" "map_ok alpha_umi_map" "map_ok qwen_map" "map_ok agentflan_response_map" "map_ok hermes_map"
  "map_ok empty_think_map"
  by code_simp+

lemma get_loss_scale_keeps_text: "get_loss_scale spec = Inr ls \<Longrightarrow> keeps_text ls"
  unfolding get_loss_scale_def make_loss_scale_def keeps_text_def config_scale_def
  by (auto simp: base_get_def Let_def dest: config_get_text [OF maps_ok(1)] config_get_text [OF maps_ok(2)]
      config_get_text [OF maps_ok(3)] config_get_text [OF maps_ok(4)] config_get_text [OF maps_ok(5)]
      config_get_text [OF maps_ok(6)] split: if_splits prod.splits)

text \<open>A response given as token ids with weights has one weight per id.\<close>

definition resp_ok :: "ctx \<Rightarrow> bool" where
  "resp_ok c = (case c of CResp ids (Some ws) \<Rightarrow> length ws = length ids | _ \<Rightarrow> True)"

lemma weigh_context_text:
  assumes "keeps_text ls" and "resp_ok c" and "weigh_context ls loss q ty lr c = Inr (cs, ws)"
  shows "items cs = ctx_items c \<and> length ws = length cs"
proof -
  have "items (map (\<lambda>t. CIds [t]) ids) = map Inr ids" for ids by (induction ids) auto
  then show ?thesis
    using assms unfolding keeps_text_def resp_ok_def weigh_context_def Let_def
    by (auto split: ctx.splits option.splits if_splits)
qed

lemma weigh_next_text:
  assumes "keeps_text ls" and "resp_ok (fst x)" and "weigh_next ls ms i x = Inr (out, j)"
  shows "items (fst out) = ctx_items (fst x) \<and> length (snd out) = length (fst out)"
  using assms weigh_context_text [OF assms(1,2), where cs = "fst out" and ws = "snd out"]
  by (cases x) (auto simp: weigh_next_def Let_def res_bind_eq_Inr_iff split: if_splits)

lemma weigh_all_text:
  assumes "keeps_text ls" and "list_all (\<lambda>x. resp_ok (fst x)) cts" and "weigh_all ls ms i cts = Inr out"
  shows "items (fst out) = items (map fst cts) \<and> length (snd out) = length (fst out)"
  using assms(2,3)
proof (induction cts arbitrary: i out)
  case (Cons x cts)
  then obtain o1 j o2 where n: "weigh_next ls ms i x = Inr (o1, j)" and r: "weigh_all ls ms j cts = Inr o2"
    and out: "out = (fst o1 @ fst o2, snd o1 @ snd o2)"
    by (auto simp: res_bind_eq_Inr_iff)
  show ?case
    using weigh_next_text [OF assms(1) _ n] Cons.IH [OF _ r] Cons.prems(1) out by simp
qed auto

end
