(* ===== verification/ChatTemplate.thy ===== *)
theory ChatTemplate
  imports LossScale
begin

text \<open>
  The chat template (\<open>swift/template/base.py\<close>), first half: from messages to weighted
  contexts.  Messages are merged and completed, thinking texts are added or removed, and the
  rounds are laid out along the template.  The tokenizer, the agent template and the jinja
  renderer are arguments.
\<close>

subsection \<open>The template object and its inputs\<close>

datatype run_mode = Transformers | Vllm | Lmdeploy | Sglang | Train | Rlhf | Kto

datatype task = Causal_lm | Seq_cls | Embedding | Prm | Reranker | Generative_reranker

definition is_training :: "run_mode \<Rightarrow> bool" where
  "is_training md = (md \<notin> {Transformers, Vllm, Lmdeploy, Sglang})"

text \<open>
  What the template asks of its agent template.  Formatting the tools returns the system text and,
  when the template rewrites it, the new text of the first message.
\<close>

record agent =
  ag_format_tools :: "pyval list \<Rightarrow> string option \<Rightarrow> content \<Rightarrow> (string \<times> string option) res"
  ag_format_tool_responses :: "content \<Rightarrow> message list \<Rightarrow> (content \<times> ctx list) res"
  ag_format_tool_calls :: "message list \<Rightarrow> string res"

datatype truncation = Trunc_raise | Trunc_left | Trunc_right | Trunc_split

record template =
  tp_meta :: ready_meta
  tp_tok :: tokenizer
  tp_loss :: loss_scale
  tp_agent :: agent
  tp_mode :: run_mode
  tp_task :: task
  tp_max_length :: "nat option"
  tp_truncation :: truncation
  tp_use_chat_template :: bool
  tp_swift_backend :: bool
  tp_response_prefix :: string
  tp_enable_thinking :: bool
  tp_add_non_thinking_prefix :: bool
  tp_encoder_decoder :: bool
  tp_placeholder_tokens :: "int list"
  tp_image_placeholder :: "ctx list"
  tp_video_placeholder :: "ctx list"
  tp_audio_placeholder :: "ctx list"
  tp_cot_placeholder :: ctx
  tp_norm1000 :: bool
  tp_dummy :: bool

text \<open>
  \<open>StdTemplateInputs\<close>: an image is its width and height; videos and audios only count here.
\<close>

record std_inputs =
  si_messages :: "message list"
  si_system :: "string option"
  si_tools :: "pyval list"
  si_images :: "(nat \<times> nat) list"
  si_videos :: nat
  si_audios :: nat
  si_refs :: "string list"
  si_has_objects :: bool
  si_bboxes :: "real list list option"
  si_bbox_norm1 :: bool
  si_image_ids :: "nat list"
  si_ref_idx :: nat
  si_bbox_idx :: nat
  si_add_eos :: "bool option"
  si_thinking_budget :: "int option"

definition is_multimodal :: "std_inputs \<Rightarrow> bool" where
  "is_multimodal inp = (si_images inp \<noteq> [] \<or> 0 < si_videos inp \<or> 0 < si_audios inp \<or> si_has_objects inp)"

subsection \<open>Tool calls and consecutive messages\<close>

text \<open>Consecutive tool calls become one answer.\<close>

function join_tool_calls :: "agent \<Rightarrow> message list \<Rightarrow> message list res" where
  "join_tool_calls ag ms =
     (case ms of
        [] \<Rightarrow> Inr []
      | m # rest \<Rightarrow>
          (if m_role m = ''tool_call'' then
             let calls = takeWhile (\<lambda>x. m_role x = ''tool_call'') ms
             in res_bind (ag_format_tool_calls ag calls) (\<lambda>text.
                res_bind (join_tool_calls ag (dropWhile (\<lambda>x. m_role x = ''tool_call'') rest)) (\<lambda>rest'.
                Inr (msg ''assistant'' (COne (CText text)) # rest')))
           else res_bind (join_tool_calls ag rest) (\<lambda>rest'. Inr (m # rest'))))"
  by pat_completeness auto
termination
  by (relation "measure (\<lambda>(ag, ms). length ms)") (auto simp: less_Suc_eq_le length_dropWhile_le)

text \<open>\<open>+\<close> on the contents of two messages of one role.\<close>

fun add_content :: "content \<Rightarrow> content \<Rightarrow> content res" where
  "add_content (COne (CText a)) (COne (CText b)) = Inr (COne (CText (a @ b)))"
| "add_content (COne (CIds a)) (COne (CIds b)) = Inr (COne (CIds (a @ b)))"
| "add_content (CMany a) (CMany b) = Inr (CMany (a @ b))"
| "add_content (CMany a) (COne (CIds [])) = Inr (CMany a)"
| "add_content (COne (CIds [])) (CMany b) = Inr (CMany b)"
| "add_content _ _ = Inl TypeError"

function prepare_from :: "template \<Rightarrow> message \<Rightarrow> message list \<Rightarrow> message list res" where
  "prepare_from t pre rest =
     (case rest of
        [] \<Rightarrow> Inr [pre]
      | m # ms \<Rightarrow>
          (if m_role pre = ''assistant'' \<and> m_role m = ''tool'' \<and> tp_swift_backend t then
             res_bind (ag_format_tool_responses (tp_agent t) (m_content pre)
                         (takeWhile (\<lambda>x. m_role x = ''tool'') rest)) (\<lambda>(content, tools).
             res_bind (prepare_from t (msg ''tool'' (CMany tools)) (dropWhile (\<lambda>x. m_role x = ''tool'') ms)) (\<lambda>rest'.
             Inr (pre\<lparr>m_content := content\<rparr> # rest')))
           else if m_role pre = ''assistant'' \<and> m_role m = ''assistant'' \<or> m_role pre = ''user'' \<and> m_role m = ''user'' then
             res_bind (add_content (m_content pre) (m_content m)) (\<lambda>content.
               prepare_from t (pre\<lparr>m_content := content\<rparr>) ms)
           else res_bind (prepare_from t m ms) (\<lambda>rest'. Inr (pre # rest'))))"
  by pat_completeness auto
termination
  by (relation "measure (\<lambda>(t, pre, rest). length rest)") (auto simp: less_Suc_eq_le length_dropWhile_le)

definition swift_prepare_inputs :: "template \<Rightarrow> message list \<Rightarrow> message list res" where
  "swift_prepare_inputs t ms = (case ms of [] \<Rightarrow> Inr [] | m # rest \<Rightarrow> prepare_from t m rest)"

declare join_tool_calls.simps [simp del] prepare_from.simps [simp del]

subsection \<open>Thinking texts\<close>

fun with_text :: "(string \<Rightarrow> string) \<Rightarrow> content \<Rightarrow> content" where
  "with_text f (COne (CText s)) = COne (CText (f s))"
| "with_text f c = c"

definition map_indexed :: "(nat \<Rightarrow> 'a \<Rightarrow> 'b) \<Rightarrow> 'a list \<Rightarrow> 'b list" where
  "map_indexed f xs = map (\<lambda>(i, x). f i x) (zip [0 ..< length xs] xs)"

definition prefix_start :: "template \<Rightarrow> message list \<Rightarrow> int" where
  "prefix_start t ms =
     (if \<not> is_training (tp_mode t) \<or> ls_strategy (tp_loss t) = ''last_round'' then get_last_user_round ms else -1)"

definition add_non_thinking_prefix :: "template \<Rightarrow> message list \<Rightarrow> message list" where
  "add_non_thinking_prefix t ms =
     (let p = tm_non_thinking_prefix (tp_meta t)
      in if p = [] then ms
         else map_indexed (\<lambda>i m.
           if prefix_start t ms \<le> int i \<and> m_role m = ''assistant''
           then m\<lparr>m_content := with_text (\<lambda>s. if starts_with ''<think>'' s \<or> starts_with p s then s else p @ s) (m_content m)\<rparr>
           else m) ms)"

definition remove_thinking_content :: "template \<Rightarrow> string \<Rightarrow> string" where
  "remove_thinking_content t s =
     tm_history_thinking_prefix (tp_meta t) @ strip (last (split_str ''</think>'' s))"

definition remove_history_thinking :: "template \<Rightarrow> message list \<Rightarrow> message list" where
  "remove_history_thinking t ms =
     (if is_training (tp_mode t) \<and> ls_strategy (tp_loss t) \<noteq> ''last_round'' then ms
      else map_indexed (\<lambda>i m.
        if m_role m = ''assistant'' \<and> int i < get_last_user_round ms
        then m\<lparr>m_content := with_text (remove_thinking_content t) (m_content m)\<rparr> else m) ms)"

subsection \<open>Rounds\<close>

definition get_std_messages :: "message list \<Rightarrow> message list" where
  "get_std_messages ms =
     (let ms1 = (if ms \<noteq> [] \<and> m_role (hd ms) = ''assistant'' then msg ''user'' (COne (CText [])) # ms else ms)
      in if odd (length ms1) then ms1 @ [msg ''assistant'' CNone] else ms1)"

definition get_system :: "template \<Rightarrow> std_inputs \<Rightarrow> message list \<Rightarrow> (string option \<times> message list) res" where
  "get_system t inp ms =
     res_bind (check_system (full_meta.truncate (tp_meta t)) (si_system inp)) (\<lambda>_.
       let system = (if si_system inp = None then tm_default_system (tp_meta t) else si_system inp)
       in if si_tools inp \<noteq> [] then
            (case ms of [] \<Rightarrow> Inl IndexError
             | m # rest \<Rightarrow>
                 res_bind (ag_format_tools (tp_agent t) (si_tools inp) system (m_content m)) (\<lambda>(s, new).
                   Inr (Some s, (case new of None \<Rightarrow> m | Some c \<Rightarrow> m\<lparr>m_content := COne (CText c)\<rparr>) # rest)))
          else Inr (system, ms))"

text \<open>The placeholders of a text, in the order in which they are replaced.\<close>

definition substitute :: "string \<Rightarrow> content option \<Rightarrow> string \<Rightarrow> string res" where
  "substitute tag v s =
     (case v of
        None \<Rightarrow> Inr s
      | Some CNone \<Rightarrow> Inr s
      | Some (COne (CText new)) \<Rightarrow> Inr (if contains tag s then replace tag new s else s)
      | Some _ \<Rightarrow> if contains tag s then Inl AssertionError else Inr s)"

definition text_opt :: "string option \<Rightarrow> content option" where
  "text_opt s = map_option (\<lambda>s. COne (CText s)) s"

definition fill_context ::
  "string option \<Rightarrow> content \<Rightarrow> nat option \<Rightarrow> string \<Rightarrow> string res" where
  "fill_context system query round0 s =
     res_bind (substitute ''{{SYSTEM}}'' (text_opt system) s) (\<lambda>s1.
     res_bind (substitute ''{{QUERY}}'' (Some query) s1) (\<lambda>s2.
     res_bind (substitute ''{{ROUND0}}'' (text_opt (map_option show_nat round0)) s2) (\<lambda>s3.
       substitute ''{{ROUND1}}'' (text_opt (map_option (\<lambda>i. show_nat (Suc i)) round0)) s3)))"

fun ctx_empty :: "ctx \<Rightarrow> bool" where
  "ctx_empty (CText s) = (s = [])"
| "ctx_empty (CIds is) = (is = [])"
| "ctx_empty (CResp is w) = False"

fun concat_one ::
  "string option \<Rightarrow> content \<Rightarrow> content \<Rightarrow> nat option \<Rightarrow> ctx \<Rightarrow> (ctx \<times> ctx_type) list res" where
  "concat_one system query response round0 (CText s) =
     (if s = ''{{RESPONSE}}'' then
        (case response of
           COne c \<Rightarrow> Inr [(c, Response)]
         | CNone \<Rightarrow> Inl AssertionError
         | CMany cs \<Rightarrow> Inl TypeError)
      else res_bind (fill_context system query round0 s) (\<lambda>s'. Inr (if s' = [] then [] else [(CText s', Other)])))"
| "concat_one system query response round0 c = Inr (if ctx_empty c then [] else [(c, Other)])"

definition concat_context_list ::
  "ctx list \<Rightarrow> string option \<Rightarrow> content \<Rightarrow> content \<Rightarrow> nat option \<Rightarrow> (ctx \<times> ctx_type) list res" where
  "concat_context_list cs system query response round0 =
     res_bind (map_res (concat_one system query response round0) cs) (\<lambda>xs. Inr (concat xs))"

text \<open>The stop words of a template that are texts.\<close>

definition ends_with_stop :: "template \<Rightarrow> string \<Rightarrow> bool" where
  "ends_with_stop t s =
     list_ex (\<lambda>w. case w of Word x \<Rightarrow> ends_with x s | Toks _ \<Rightarrow> False) (tm_stop_words (tp_meta t))"

definition last_tokens :: "nat \<Rightarrow> 'a list \<Rightarrow> 'a list" where
  "last_tokens n xs = drop (length xs - n) xs"

fun response_text :: "template \<Rightarrow> content \<Rightarrow> string" where
  "response_text t (COne (CText s)) = s"
| "response_text t (COne (CIds is)) = tk_text (tp_tok t) (last_tokens 20 is)"
| "response_text t (COne (CResp is w)) = tk_text (tp_tok t) (last_tokens 20 is)"
| "response_text t _ = []"

definition add_eos :: "template \<Rightarrow> std_inputs \<Rightarrow> bool \<Rightarrow> content \<Rightarrow> bool" where
  "add_eos t inp has_sep response =
     (case si_add_eos inp of
        Some b \<Rightarrow> b
      | None \<Rightarrow> (is_training (tp_mode t) \<or> tp_task t \<noteq> Causal_lm) \<and> \<not> has_sep
                \<and> \<not> ends_with_stop t (response_text t response))"

definition words_ctx :: "prompt \<Rightarrow> ctx list res" where
  "words_ctx p = map_res word_ctx p"


text \<open>The beginning and end tokens that the tokenizer itself adds around a text.\<close>

definition bos_and_sep :: "tokenizer \<Rightarrow> (int list \<times> int list) res" where
  "bos_and_sep tk =
     (let full = tk_encode_full tk ''a''; single = tk_ids tk ''a''
      in if length single \<noteq> 1 then Inl AssertionError
         else if hd single \<notin> set full then Inl ValueError
         else Inr (takeWhile (\<lambda>x. x \<noteq> hd single) full, tl (dropWhile (\<lambda>x. x \<noteq> hd single) full)))"

fun tool_prompt :: "content \<Rightarrow> ctx list res" where
  "tool_prompt (CMany cs) = Inr cs"
| "tool_prompt (COne (CIds [])) = Inr []"
| "tool_prompt (COne (CIds (x # xs))) = Inl TypeError"
| "tool_prompt _ = Inl AttributeError"

definition round_prompt :: "template \<Rightarrow> nat \<Rightarrow> nat \<Rightarrow> message \<Rightarrow> ctx list res" where
  "round_prompt t n i q =
     (if m_role q = ''tool'' then tool_prompt (m_content q)
      else if tm_is_post_system (tp_meta t) \<and> Suc i = n then words_ctx (tm_system_prompt (tp_meta t))
      else words_ctx (tm_prompt (tp_meta t)))"

text \<open>What follows the prompt of a round: the answer, and the texts after it with their type.\<close>

definition round_tail ::
  "template \<Rightarrow> std_inputs \<Rightarrow> bool \<Rightarrow> message list \<Rightarrow> nat \<Rightarrow> nat \<Rightarrow> content \<Rightarrow> (ctx list \<times> (ctx \<times> ctx_type) list) res" where
  "round_tail t inp has_sep ms n i response =
     (if Suc i < n then
        (if m_role (ms ! (2 * Suc i)) = ''tool'' then Inr ([CText ''{{RESPONSE}}''], [])
         else (case tm_chat_sep (tp_meta t) of
                 None \<Rightarrow> Inl TypeError
               | Some sep \<Rightarrow> res_bind (words_ctx sep) (\<lambda>cs. Inr ([CText ''{{RESPONSE}}''], map (\<lambda>c. (c, Other)) cs))))
      else if response \<noteq> CNone then
        (if add_eos t inp has_sep response
         then res_bind (words_ctx (tm_suffix (tp_meta t))) (\<lambda>cs.
                Inr ([CText ''{{RESPONSE}}''], map (\<lambda>c. (c, Suffix)) cs))
         else Inr ([CText ''{{RESPONSE}}''], []))
      else if tp_response_prefix t \<noteq> [] then Inr ([CText (tp_response_prefix t)], [])
      else Inr ([], []))"

definition round_contexts ::
  "template \<Rightarrow> std_inputs \<Rightarrow> bool \<Rightarrow> string option \<Rightarrow> message list \<Rightarrow> nat \<Rightarrow> nat \<times> message \<times> message
     \<Rightarrow> ((ctx \<times> ctx_type) list \<times> nat) res" where
  "round_contexts t inp has_sep system ms n x =
     (let (i, q, r) = x in
      if m_role q \<notin> {''user'', ''tool''} then Inl AssertionError
      else if m_role r \<noteq> ''assistant'' then Inl AssertionError
      else
        res_bind (round_prompt t n i q) (\<lambda>prompt.
        res_bind (round_tail t inp has_sep ms n i (m_content r)) (\<lambda>(answer, extra).
        res_bind (concat_context_list (prompt @ answer) system
                    (if m_role q = ''tool'' then COne (CText []) else m_content q) (m_content r) (Some i)) (\<lambda>cs.
        Inr (cs @ extra, length extra)))))"

definition prefix_contexts :: "template \<Rightarrow> string option \<Rightarrow> (ctx \<times> ctx_type) list res" where
  "prefix_contexts t system =
     (let m = tp_meta t in
      res_bind (if tm_is_post_system m \<or> system = None \<or> system = Some [] then words_ctx (tm_prefix m)
                else (case tm_system_prefix m of None \<Rightarrow> Inl TypeError | Some p \<Rightarrow> words_ctx p)) (\<lambda>cs.
      concat_context_list cs system CNone CNone None))"

definition rounds_of :: "message list \<Rightarrow> (nat \<times> message \<times> message) list" where
  "rounds_of ms = zip [0 ..< length ms div 2] (pairs_of ms)"

text \<open>The messages as the rounds see them.\<close>

definition encode_messages :: "template \<Rightarrow> message list \<Rightarrow> message list" where
  "encode_messages t ms =
     (if tp_use_chat_template t then
        let ms1 = (if tp_add_non_thinking_prefix t then add_non_thinking_prefix t ms else ms)
        in if tm_is_thinking (tp_meta t) \<or> tp_enable_thinking t then remove_history_thinking t ms1 else ms1
      else ms)"

definition final_rounds :: "template \<Rightarrow> message list \<Rightarrow> message list" where
  "final_rounds t ms =
     (let std = get_std_messages ms
      in if 1 < length std div 2 \<and> \<not> tm_support_multi_round (tp_meta t) then drop (length std - 2) std else std)"

text \<open>The prefix, the rounds and the closing token, with the extra contexts of each round counted.\<close>

definition lay_out ::
  "template \<Rightarrow> std_inputs \<Rightarrow> string option \<Rightarrow> message list \<Rightarrow> int list \<times> int list
     \<Rightarrow> ((ctx \<times> ctx_type) list \<times> nat) res" where
  "lay_out t inp system ms bos_sep =
     (let (bos, sep) = bos_sep in
      res_bind (prefix_contexts t system) (\<lambda>prefix.
      if ms = [] then Inl AssertionError
      else
        res_bind (map_res (round_contexts t inp (sep \<noteq> []) system ms (length ms div 2)) (rounds_of ms)) (\<lambda>rounds.
        Inr ((if bos \<noteq> [] then [(CIds bos, Other)] else []) @ prefix @ concat (map fst rounds)
               @ (if sep \<noteq> [] then [(CIds sep, Suffix)] else []),
             snd (last rounds)))))"

text \<open>\<open>_swift_encode\<close>: contexts, their weights, and how many contexts the last answer takes.\<close>

definition swift_contexts :: "template \<Rightarrow> std_inputs \<Rightarrow> ((ctx \<times> ctx_type) list \<times> message list \<times> nat) res" where
  "swift_contexts t inp =
     (res_bind (get_system t inp (encode_messages t (si_messages inp))) (\<lambda>(system, ms1). let ms = final_rounds t ms1 in
      res_bind (if tm_auto_add_bos (tp_meta t) then bos_and_sep (tp_tok t) else Inr ([], [])) (\<lambda>bos_sep.
      res_bind (lay_out t inp system ms bos_sep) (\<lambda>(cs, extra).
      Inr (cs, ms,
           if is_training (tp_mode t) then extra + (if m_content (last ms) \<noteq> CNone then 1 else 0) else 0)))))"

definition swift_encode :: "template \<Rightarrow> std_inputs \<Rightarrow> (ctx list \<times> real list \<times> nat) res" where
  "swift_encode t inp =
     res_bind (swift_contexts t inp) (\<lambda>(cs, ms, answer_len).
     res_bind (loss_scale_call (tp_loss t) cs ms) (\<lambda>(cs', ws). Inr (cs', ws, answer_len)))"

end
