(* ===== verification/EncodeRow.thy ===== *)
theory EncodeRow
  imports ChatTemplate
begin

text \<open>
  The chat template, second half: from weighted contexts to a row of token ids, labels and
  weights.  Media tags and boxes are replaced, equally weighted texts are merged, the tokens are
  labelled, and a row that is too long is refused, cut or split.
\<close>

subsection \<open>Special tags\<close>

definition special_tokens :: "string list" where
  "special_tokens =
     [''<image>'', ''<video>'', ''<audio>'', ''<bbox>'', ''<ref-object>'', ''<cot-process>'', ''<start-image>'']"

definition split_special :: "ctx \<times> real \<Rightarrow> (ctx \<times> real) list" where
  "split_special cw =
     (case fst cw of
        CText s \<Rightarrow>
          map (\<lambda>p. (CText p, snd cw))
            (filter (\<lambda>p. p \<noteq> []) (concat (map (\<lambda>(k, c). [k, c]) (split_str_parts_by special_tokens s))))
      | _ \<Rightarrow> [cw])"

definition split_special_tokens :: "(ctx \<times> real) list \<Rightarrow> (ctx \<times> real) list" where
  "split_special_tokens cws = concat (map split_special cws)"

text \<open>The default \<open>replace_tag\<close>.\<close>

definition replace_image :: "template \<Rightarrow> ctx list" where
  "replace_image t = (if tp_mode t = Lmdeploy then [CIds [-100]] else tp_image_placeholder t)"

fun pre_tokenize_images :: "template \<Rightarrow> std_inputs \<Rightarrow> nat \<Rightarrow> (ctx \<times> real) list \<Rightarrow> (ctx \<times> real) list" where
  "pre_tokenize_images t inp k [] = []"
| "pre_tokenize_images t inp k ((c, w) # rest) =
     (if c = CText ''<image>'' \<and> is_multimodal inp \<and> k < length (si_images inp)
      then map (\<lambda>c'. (c', if tp_swift_backend t then 0 else 1)) (replace_image t) @ pre_tokenize_images t inp (Suc k) rest
      else (c, w) # pre_tokenize_images t inp k rest)"

text \<open>\<open>round\<close> goes to the even neighbour when halfway.\<close>

definition py_round :: "real \<Rightarrow> int" where
  "py_round x =
     (let f = floor x; d = x - of_int f
      in if d < 1 / 2 then f else if 1 / 2 < d then f + 1 else if even f then f else f + 1)"

definition norm_coord :: "real \<Rightarrow> nat \<Rightarrow> nat \<Rightarrow> real res" where
  "norm_coord x extent target =
     (if extent = 0 then Inl ZeroDivisionError else Inr (of_int (py_round (x / real extent * real target))))"

text \<open>The coordinates of a box in pairs; an unpaired last one stays.\<close>

fun norm_coords :: "nat \<times> nat \<Rightarrow> nat \<times> nat \<Rightarrow> real list \<Rightarrow> real list res" where
  "norm_coords sz tg (x # y # rest) =
     res_bind (norm_coord x (fst sz) (fst tg)) (\<lambda>x'.
     res_bind (norm_coord y (snd sz) (snd tg)) (\<lambda>y'.
     res_bind (norm_coords sz tg rest) (\<lambda>rest'. Inr (x' # y' # rest'))))"
| "norm_coords sz tg xs = Inr xs"

definition norm_box :: "template \<Rightarrow> std_inputs \<Rightarrow> real list \<times> nat \<Rightarrow> real list res" where
  "norm_box t inp x =
     (let (bbox, k) = x in
      if (\<not> si_bbox_norm1 inp \<or> 2 \<le> length bbox \<and> \<not> tp_norm1000 t) \<and> length (si_images inp) \<le> k then Inl IndexError
      else norm_coords (if si_bbox_norm1 inp then (1, 1) else si_images inp ! k)
             (if tp_norm1000 t then (1000, 1000) else si_images inp ! k) bbox)"

text \<open>\<open>normalize_bbox\<close> takes the type and the image numbers out of the objects.\<close>

definition normalize_bbox :: "template \<Rightarrow> std_inputs \<Rightarrow> std_inputs res" where
  "normalize_bbox t inp =
     (case si_bboxes inp of
        None \<Rightarrow> Inl KeyError
      | Some boxes \<Rightarrow>
          let ids = si_image_ids inp @ replicate (length boxes - length (si_image_ids inp)) 0
          in res_bind (map_res (norm_box t inp) (zip boxes ids)) (\<lambda>boxes'.
             Inr (inp\<lparr>si_bboxes := Some (boxes'), si_bbox_norm1 := False, si_image_ids := []\<rparr>)))"

fun show_points :: "(real \<Rightarrow> string) \<Rightarrow> real list \<Rightarrow> string list" where
  "show_points rp (x # y # rest) = (''('' @ rp x @ '','' @ rp y @ '')'') # show_points rp rest"
| "show_points rp xs = []"

definition bbox_text :: "(real \<Rightarrow> string) \<Rightarrow> real list \<Rightarrow> string" where
  "bbox_text rp bbox = ''['' @ join '','' (show_points rp bbox) @ '']''"

text \<open>The state of the second pass: videos and audios replaced so far, then references and boxes.\<close>

record tag_state =
  ts_video :: nat
  ts_audio :: nat
  ts_ref :: nat
  ts_bbox :: nat

definition bboxes :: "std_inputs \<Rightarrow> real list list" where
  "bboxes inp = (case si_bboxes inp of None \<Rightarrow> [] | Some bs \<Rightarrow> bs)"

definition replace_tags ::
  "(real \<Rightarrow> string) \<Rightarrow> template \<Rightarrow> std_inputs \<Rightarrow> tag_state \<Rightarrow> ctx \<times> real \<Rightarrow> (ctx \<times> real) list \<times> tag_state" where
  "replace_tags rp t inp s cw =
     (let (c, w) = cw in
      if c = CText ''<video>'' \<and> is_multimodal inp \<and> ts_video s < si_videos inp
      then (map (\<lambda>c'. (c', 0)) (tp_video_placeholder t), s\<lparr>ts_video := Suc (ts_video s)\<rparr>)
      else if c = CText ''<audio>'' \<and> is_multimodal inp \<and> ts_audio s < si_audios inp
      then (map (\<lambda>c'. (c', 0)) (tp_audio_placeholder t), s\<lparr>ts_audio := Suc (ts_audio s)\<rparr>)
      else if c = CText ''<ref-object>'' \<and> ts_ref s < length (si_refs inp)
      then ([(CText (si_refs inp ! ts_ref s), w)], s\<lparr>ts_ref := Suc (ts_ref s)\<rparr>)
      else if c = CText ''<bbox>'' \<and> ts_bbox s < length (bboxes inp)
      then ([(CText (bbox_text rp (bboxes inp ! ts_bbox s)), w)], s\<lparr>ts_bbox := Suc (ts_bbox s)\<rparr>)
      else if c = CText ''<cot-process>'' \<and> tp_task t = Prm then ([(tp_cot_placeholder t, w)], s)
      else ([(c, w)], s))"

fun replace_all_tags ::
  "(real \<Rightarrow> string) \<Rightarrow> template \<Rightarrow> std_inputs \<Rightarrow> tag_state \<Rightarrow> (ctx \<times> real) list \<Rightarrow> (ctx \<times> real) list \<times> tag_state" where
  "replace_all_tags rp t inp s [] = ([], s)"
| "replace_all_tags rp t inp s (cw # rest) =
     (let (out, s1) = replace_tags rp t inp s cw;
          (outs, s2) = replace_all_tags rp t inp s1 rest
      in (out @ outs, s2))"

text \<open>The counters of videos and audios start again with each pass; those of references and boxes go on.\<close>

definition pre_tokenize ::
  "(real \<Rightarrow> string) \<Rightarrow> template \<Rightarrow> std_inputs \<Rightarrow> (ctx \<times> real) list \<Rightarrow> ((ctx \<times> real) list \<times> std_inputs) res" where
  "pre_tokenize rp t inp cws =
     (let cws1 = pre_tokenize_images t inp 0 cws in
      res_bind (if si_images inp \<noteq> [] \<and> si_has_objects inp then normalize_bbox t inp else Inr inp) (\<lambda>inp1.
      let (out, s) = replace_all_tags rp t inp1
                       \<lparr>ts_video = 0, ts_audio = 0, ts_ref = si_ref_idx inp1, ts_bbox = si_bbox_idx inp1\<rparr> cws1
      in Inr (out, inp1\<lparr>si_ref_idx := ts_ref s, si_bbox_idx := ts_bbox s\<rparr>)))"

subsection \<open>Merging texts of equal weight\<close>

text \<open>The texts collected so far are \<open>temp\<close> (nonempty list as the source's list), with weight \<open>w0\<close>.\<close>

definition flush :: "string list \<Rightarrow> real \<Rightarrow> (ctx \<times> real) list" where
  "flush temp w0 = (if temp \<noteq> [] then [(CText (concat temp), w0)] else [])"

fun merge_texts :: "string list \<Rightarrow> real \<Rightarrow> (ctx \<times> real) list \<Rightarrow> (ctx \<times> real) list" where
  "merge_texts temp w0 [] = flush temp w0"
| "merge_texts temp w0 ((CText s, w) # rest) =
     (if w = w0 then merge_texts (temp @ [s]) w0 rest else flush temp w0 @ merge_texts [s] w rest)"
| "merge_texts temp w0 ((c, w) # rest) = flush temp w0 @ (c, w) # merge_texts [] w rest"

definition simplify_context_list ::
  "(real \<Rightarrow> string) \<Rightarrow> template \<Rightarrow> (ctx \<times> real) list \<Rightarrow> std_inputs \<Rightarrow> ((ctx \<times> real) list \<times> std_inputs) res" where
  "simplify_context_list rp t cws inp =
     res_bind (pre_tokenize rp t inp (split_special_tokens cws)) (\<lambda>(cws', inp'). Inr (merge_texts [] 0 cws', inp'))"

subsection \<open>Tokens and labels\<close>

definition ctx_tokens :: "tokenizer \<Rightarrow> ctx \<Rightarrow> int list" where
  "ctx_tokens tk c = (case c of CText s \<Rightarrow> tk_ids tk s | CIds is \<Rightarrow> is | CResp is w \<Rightarrow> is)"

definition context_labels :: "tokenizer \<Rightarrow> ctx \<times> real \<Rightarrow> int list" where
  "context_labels tk cw =
     (if 0 < snd cw then ctx_tokens tk (fst cw) else replicate (length (ctx_tokens tk (fst cw))) (-100))"

definition context_scale :: "tokenizer \<Rightarrow> ctx \<times> real \<Rightarrow> real list" where
  "context_scale tk cw = replicate (length (ctx_tokens tk (fst cw))) (snd cw)"

type_synonym enc = "int list \<times> int list \<times> real list option"

definition encode_context_list :: "template \<Rightarrow> (ctx \<times> real) list \<Rightarrow> enc" where
  "encode_context_list t cws =
     (concat (map (\<lambda>cw. ctx_tokens (tp_tok t) (fst cw)) cws),
      concat (map (context_labels (tp_tok t)) cws),
      if ls_binary (tp_loss t) then None else Some (concat (map (context_scale (tp_tok t)) cws)))"

text \<open>\<open>xs[i:i+len(ys)] = ys\<close> inside the list.\<close>

definition splice :: "nat \<Rightarrow> 'a list \<Rightarrow> 'a list \<Rightarrow> 'a list" where
  "splice i ys xs = take i xs @ ys @ drop (i + length ys) xs"

definition slice :: "nat \<Rightarrow> nat \<Rightarrow> 'a list \<Rightarrow> 'a list" where
  "slice i n xs = take n (drop i xs)"

text \<open>
  One step of \<open>_add_dynamic_eos\<close>: the start of the current stretch without labels, the labels and
  the weights.  The suffix behind an answer is learned too.
\<close>

definition eos_step ::
  "int list \<Rightarrow> int list \<Rightarrow> nat \<Rightarrow> nat \<times> int list \<times> real list option \<Rightarrow> nat \<times> int list \<times> real list option" where
  "eos_step ids suffix i st =
     (let (start, labels, scale) = st; k = length suffix in
      if 0 \<le> labels ! (i - 1) \<and> i < length labels \<and> labels ! i = -100 then (i, labels, scale)
      else if 0 < start \<and> labels ! (i - 1) = -100 \<and> (i = length labels \<or> 0 \<le> labels ! i) \<and> k \<le> i - start
              \<and> slice start k ids = suffix
      then (start, splice start suffix labels,
            (case scale of
               Some ws \<Rightarrow> Some (if ws \<noteq> [] \<and> slice start k ws = replicate k 0 then splice start (replicate k 1) ws else ws)
             | None \<Rightarrow> None))
      else st)"

definition add_dynamic_eos :: "int list \<Rightarrow> enc \<Rightarrow> enc" where
  "add_dynamic_eos suffix e =
     (let (ids, labels, scale) = e;
          (start, labels', scale') = fold (eos_step ids suffix) [1 ..< Suc (length labels)] (0, labels, scale)
      in (ids, labels', scale'))"

text \<open>\<open>xs[0] = v\<close> raises on an empty list.\<close>

definition set_first :: "'a \<Rightarrow> 'a list \<Rightarrow> 'a list res" where
  "set_first v xs = (case xs of [] \<Rightarrow> Inl IndexError | _ # ys \<Rightarrow> Inr (v # ys))"

definition set_first_opt :: "'a \<Rightarrow> 'a list option \<Rightarrow> 'a list option res" where
  "set_first_opt v xs = (case xs of None \<Rightarrow> Inr None | Some ys \<Rightarrow> res_bind (set_first v ys) (\<lambda>ys'. Inr (Some ys')))"

subsection \<open>Encoding a row\<close>

record row =
  rw_ids :: "int list"
  rw_labels :: "int list option"
  rw_scale :: "real list option"
  rw_length :: nat

text \<open>
  The renderer of the tokenizer's own chat template, an argument: messages, whether to ask for
  an answer, tools, thinking budget and thinking switch.
\<close>

type_synonym renderer =
  "message list \<Rightarrow> bool \<Rightarrow> pyval list \<Rightarrow> int option \<Rightarrow> bool option \<Rightarrow> string res"

definition jinja_encode :: "renderer \<Rightarrow> template \<Rightarrow> std_inputs \<Rightarrow> (ctx list \<times> real list \<times> nat) res" where
  "jinja_encode render t inp =
     (let ms = (case si_system inp of None \<Rightarrow> si_messages inp
                | Some s \<Rightarrow> msg ''system'' (COne (CText s)) # si_messages inp)
      in if ms = [] then Inl IndexError
         else
           let ms1 = (if m_content (last ms) = CNone then butlast ms else ms)
           in if ms1 = [] then Inl IndexError
              else res_bind (render ms1 (m_role (last ms1) \<noteq> ''assistant'') (si_tools inp) (si_thinking_budget inp)
                       (if tm_is_thinking (tp_meta t) \<or> tp_enable_thinking t then Some (tp_enable_thinking t) else None))
                     (\<lambda>text. Inr ([CText text], [1], if is_training (tp_mode t) then 1 else 0)))"

text \<open>A template without a format of its own is rendered by the tokenizer when it generates.\<close>

definition uses_swift :: "template \<Rightarrow> bool" where
  "uses_swift t =
     (tp_swift_backend t
      \<and> \<not> (tp_dummy t \<and> tp_use_chat_template t \<and> \<not> is_training (tp_mode t) \<and> tp_task t = Causal_lm))"

definition template_contexts :: "renderer \<Rightarrow> template \<Rightarrow> std_inputs \<Rightarrow> (ctx list \<times> real list \<times> nat) res" where
  "template_contexts render t inp = (if uses_swift t then swift_encode t inp else jinja_encode render t inp)"

definition join_scales :: "real list option \<Rightarrow> real list option \<Rightarrow> real list option" where
  "join_scales a b = (case (a, b) of (Some x, Some y) \<Rightarrow> Some (x @ y) | _ \<Rightarrow> None)"

fun join_enc :: "enc \<Rightarrow> enc \<Rightarrow> enc" where
  "join_enc (i1, l1, s1) (i2, l2, s2) = (i1 @ i2, l1 @ l2, join_scales s1 s2)"

definition encode_contexts :: "(real \<Rightarrow> string) \<Rightarrow> template \<Rightarrow> std_inputs \<Rightarrow> ctx list \<times> real list \<times> nat \<Rightarrow> enc res" where
  "encode_contexts rp t inp x =
     (let (cs, ws, answer_len) = x; cws = zip cs ws in
      if tp_encoder_decoder t then
        let cut = length cs - answer_len in
        res_bind (simplify_context_list rp t (zip (take cut cs) (take cut ws)) inp) (\<lambda>(p, inp1).
        res_bind (simplify_context_list rp t (zip (drop cut cs) (drop cut ws)) inp1) (\<lambda>(a, inp2).
          Inr (join_enc (encode_context_list t p) (encode_context_list t a))))
      else
        res_bind (simplify_context_list rp t cws inp) (\<lambda>(out, inp1). Inr (encode_context_list t out)))"

definition suffix_tokens :: "template \<Rightarrow> int list res" where
  "suffix_tokens t =
     res_bind (words_ctx (tm_suffix (tp_meta t))) (\<lambda>cs. Inr (concat (map (ctx_tokens (tp_tok t)) cs)))"

definition encode_row ::
  "(real \<Rightarrow> string) \<Rightarrow> renderer \<Rightarrow> template \<Rightarrow> std_inputs \<Rightarrow> row res" where
  "encode_row rp render t inp =
     res_bind (swift_prepare_inputs t (si_messages inp)) (\<lambda>ms.
     let inp1 = inp\<lparr>si_messages := ms\<rparr> in
     res_bind (template_contexts render t inp1) (\<lambda>cs.
     res_bind (encode_contexts rp t inp1 cs) (\<lambda>e.
     res_bind (suffix_tokens t) (\<lambda>suffix.
       let (ids, labels, scale) = add_dynamic_eos suffix e in
       res_bind (set_first (-100) labels) (\<lambda>labels'.
       res_bind (set_first_opt 0 scale) (\<lambda>scale'.
         Inr \<lparr>rw_ids = ids, rw_labels = (if is_training (tp_mode t) then Some labels' else None),
              rw_scale = (if is_training (tp_mode t) then scale' else None), rw_length = 0\<rparr>))))))"


subsection \<open>Rows that are too long\<close>

definition get_length :: "int list \<Rightarrow> int list option \<Rightarrow> nat" where
  "get_length ids labels = max (length ids) (case labels of None \<Rightarrow> 0 | Some ls \<Rightarrow> length ls)"

text \<open>Placeholders of media are always kept; the rest is cut on one side.\<close>

definition keep_flags :: "int list \<Rightarrow> nat \<Rightarrow> bool \<Rightarrow> int list \<Rightarrow> bool list" where
  "keep_flags placeholders limit left ids =
     (let prot = map (\<lambda>x. x \<in> set placeholders) ids;
          n = length (filter id prot);
          free = filter (\<lambda>i. \<not> prot ! i) [0 ..< length ids];
          idx = (if limit \<le> n then [] else if left then last_tokens (limit - n) free else take (limit - n) free)
      in map (\<lambda>i. prot ! i \<or> i \<in> set idx) [0 ..< length ids])"

definition keep :: "bool list \<Rightarrow> 'a list \<Rightarrow> 'a list" where
  "keep fl xs = map snd (filter fst (zip fl xs))"

definition keep_first :: "'a \<Rightarrow> bool list \<Rightarrow> 'a list option \<Rightarrow> 'a list option res" where
  "keep_first v fl xs = set_first_opt v (map_option (keep fl) xs)"

definition truncate_row :: "template \<Rightarrow> nat \<Rightarrow> bool \<Rightarrow> row \<Rightarrow> row res" where
  "truncate_row t limit left r =
     (let fl = keep_flags (tp_placeholder_tokens t) limit left (rw_ids r) in
      res_bind (keep_first (-100) fl (rw_labels r)) (\<lambda>labels.
      res_bind (keep_first 0 fl (rw_scale r)) (\<lambda>scale.
      Inr (r\<lparr>rw_ids := keep fl (rw_ids r), rw_labels := labels, rw_scale := scale\<rparr>))))"

definition zero_first :: "'a \<Rightarrow> 'a list option \<Rightarrow> 'a list option" where
  "zero_first v xs = map_option (\<lambda>ys. case ys of [] \<Rightarrow> [] | _ # zs \<Rightarrow> v # zs) xs"

text \<open>The piece of a row that starts at \<open>i\<close>.\<close>

definition row_piece :: "nat \<Rightarrow> nat \<Rightarrow> row \<Rightarrow> row" where
  "row_piece limit i r =
     (let ids = slice i limit (rw_ids r);
          labels = zero_first (-100) (map_option (slice i limit) (rw_labels r));
          scale = zero_first 0 (map_option (slice i limit) (rw_scale r))
      in \<lparr>rw_ids = ids, rw_labels = labels, rw_scale = scale, rw_length = get_length ids labels\<rparr>)"

text \<open>A limit of 0 makes no progress, so the loop does not return.\<close>

partial_function (option) split_from :: "nat \<Rightarrow> nat \<Rightarrow> nat \<Rightarrow> row \<Rightarrow> row list option" where
  [code]: "split_from limit len i r =
     (if len \<le> i then Some []
      else Option.bind (split_from limit len (i + limit) r) (\<lambda>rest. Some (row_piece limit i r # rest)))"

datatype encoded = Single row | Pieces "row list"

text \<open>The tasks that train no next token keep no labels from the text.\<close>

definition drop_labels :: "template \<Rightarrow> row \<Rightarrow> row" where
  "drop_labels t r =
     (if tp_task t \<in> {Seq_cls, Embedding, Reranker, Generative_reranker}
      then r\<lparr>rw_labels := None, rw_scale := None\<rparr> else r)"

subsection \<open>Preparing the inputs\<close>

definition img_re :: rx where
  "img_re =
     (let any = Cls (\<lambda>c. c \<noteq> CHR 0x0A)
      in seqs [lit ''<img>'', Grp 1 (Seq any (Star False any)), lit ''</img>''])"

text \<open>Image paths written into the texts; \<open>open_image\<close> is the size of an image that is a file.\<close>

definition replace_image_tags :: "(string \<Rightarrow> (nat \<times> nat) option) \<Rightarrow> std_inputs \<Rightarrow> std_inputs" where
  "replace_image_tags open_image inp =
     (if si_images inp \<noteq> [] then inp
      else
        let paths = concat (map (\<lambda>m. case m_content m of COne (CText s) \<Rightarrow> re_findall1 img_re s | _ \<Rightarrow> []) (si_messages inp))
        in inp\<lparr>si_images := List.map_filter open_image paths,
               si_messages := map (\<lambda>m. m\<lparr>m_content := with_text (re_sub img_re (\<lambda>_. ''<image>'')) (m_content m)\<rparr>)
                 (si_messages inp)\<rparr>)"

definition replace_start_image_tags :: "std_inputs \<Rightarrow> std_inputs res" where
  "replace_start_image_tags inp =
     (let ms = si_messages inp in
      if ms = [] then Inl IndexError
      else if m_role (last ms) \<noteq> ''user'' then Inr inp
      else (case m_content (last ms) of
              COne (CText s) \<Rightarrow>
                (if ends_with ''<start-image>'' s
                 then Inr (inp\<lparr>si_messages := butlast ms @
                        [(last ms)\<lparr>m_content := COne (CText (take (length s - length ''<start-image>'') s))\<rparr>]\<rparr>)
                 else Inr inp)
            | _ \<Rightarrow> Inl AttributeError))"

text \<open>The texts of all messages; \<open>None\<close> when a question is not a text.\<close>

definition message_text :: "content \<Rightarrow> string option" where
  "message_text c =
     (case c of
        COne (CText s) \<Rightarrow> Some s
      | _ \<Rightarrow> if c \<in> {CNone, COne (CIds []), CMany []} then Some [] else None)"

fun all_texts :: "message list \<Rightarrow> string list option res" where
  "all_texts [] = Inr (Some [])"
| "all_texts (m # ms) =
     (case message_text (m_content m) of
        Some s \<Rightarrow> res_bind (all_texts ms) (\<lambda>r. Inr (map_option ((#) s) r))
      | None \<Rightarrow>
          if m_role m = ''user'' then Inr None
          else if m_role m = ''assistant'' then all_texts ms
          else (case all_texts ms of Inr None \<Rightarrow> Inr None | Inr (Some _) \<Rightarrow> Inl TypeError | Inl e \<Rightarrow> Inl e))"

definition missing_tags :: "string \<Rightarrow> string \<Rightarrow> nat \<Rightarrow> string" where
  "missing_tags tag all_text n = concat (replicate (n - length (re_findall0 (lit tag) all_text)) tag)"

definition add_default_tags :: "std_inputs \<Rightarrow> std_inputs res" where
  "add_default_tags inp =
     res_bind (all_texts (si_messages inp)) (\<lambda>texts.
       case texts of
         None \<Rightarrow> Inr inp
       | Some ts \<Rightarrow>
           let body = join [CHR 0x0A] ts;
               all_text = (case si_system inp of
                             Some (c # s) \<Rightarrow> (c # s) @ [CHR 0x0A] @ body
                           | _ \<Rightarrow> body);
               tags = missing_tags ''<video>'' all_text (si_videos inp)
                        @ missing_tags ''<audio>'' all_text (si_audios inp)
                        @ missing_tags ''<image>'' all_text (length (si_images inp))
           in if tags = [] then Inr inp
              else (case si_messages inp of
                      [] \<Rightarrow> Inl IndexError
                    | m # ms \<Rightarrow>
                        (case m_content m of
                           COne (CText s) \<Rightarrow> Inr (inp\<lparr>si_messages := m\<lparr>m_content := COne (CText (tags @ s))\<rparr> # ms\<rparr>)
                         | _ \<Rightarrow> Inl TypeError)))"

text \<open>\<open>_preprocess_inputs\<close> without loading and rescaling of the media.\<close>

definition preprocess_inputs ::
  "(string \<Rightarrow> (nat \<times> nat) option) \<Rightarrow> bool \<Rightarrow> template \<Rightarrow> std_inputs \<Rightarrow> std_inputs res" where
  "preprocess_inputs open_image multimodal t inp =
     res_bind (join_tool_calls (tp_agent t) (si_messages inp)) (\<lambda>ms.
     let inp1 = inp\<lparr>si_messages := ms\<rparr> in
     res_bind (if multimodal then replace_start_image_tags (replace_image_tags open_image inp1) else Inr inp1) (\<lambda>inp2.
     if is_multimodal inp2 then add_default_tags inp2 else Inr inp2))"

subsection \<open>The whole row\<close>

text \<open>\<open>_encode_truncated\<close>; \<open>None\<close> is a loop that does not return.\<close>

definition limit_row :: "template \<Rightarrow> row \<Rightarrow> encoded res option" where
  "limit_row t r =
     (let len = get_length (rw_ids r) (rw_labels r);
          whole = Some (Inr (Single (drop_labels t (r\<lparr>rw_length := len\<rparr>))))
      in case tp_max_length t of
           None \<Rightarrow> whole
         | Some limit \<Rightarrow>
             if len \<le> limit then whole
             else (case tp_truncation t of
                     Trunc_raise \<Rightarrow> Some (Inl ValueError)
                   | Trunc_split \<Rightarrow> map_option (\<lambda>ps. Inr (Pieces ps)) (split_from limit len 0 r)
                   | side \<Rightarrow>
                       Some (res_bind (truncate_row t limit (side = Trunc_left) r) (\<lambda>r'.
                         Inr (Single (drop_labels t (r'\<lparr>rw_length := get_length (rw_ids r') (rw_labels r')\<rparr>)))))))"

definition encode_truncated ::
  "(string \<Rightarrow> (nat \<times> nat) option) \<Rightarrow> bool \<Rightarrow> (real \<Rightarrow> string) \<Rightarrow> renderer \<Rightarrow> template \<Rightarrow> std_inputs \<Rightarrow> encoded res option" where
  "encode_truncated open_image multimodal rp render t inp =
     (case res_bind (preprocess_inputs open_image multimodal t inp) (encode_row rp render t) of
        Inl e \<Rightarrow> Some (Inl e)
      | Inr r \<Rightarrow> limit_row t r)"

end
