(* ===== verification/EncodeLaws.thy ===== *)
theory EncodeLaws
  imports EncodeRow
begin

text \<open>
  What an encoded row guarantees: its labels stay aligned with its tokens, a cut row has the
  limit's length, a split row can be put together again, and only answers are learned.
\<close>

subsection \<open>Labels stay aligned with their tokens\<close>

text \<open>A label is the ignored value or the token itself.\<close>

definition label_ok :: "int \<Rightarrow> int \<Rightarrow> bool" where
  "label_ok x l \<longleftrightarrow> l = -100 \<or> l = x"

definition aligned :: "int list \<Rightarrow> int list \<Rightarrow> bool" where
  "aligned ids labels \<longleftrightarrow> list_all2 label_ok ids labels"

definition enc_ok :: "enc \<Rightarrow> bool" where
  "enc_ok e = (case e of (ids, labels, scale) \<Rightarrow>
     aligned ids labels \<and> (case scale of None \<Rightarrow> True | Some ws \<Rightarrow> length ws = length ids))"

definition row_ok :: "row \<Rightarrow> bool" where
  "row_ok r \<longleftrightarrow>
     (case rw_labels r of None \<Rightarrow> True | Some ls \<Rightarrow> aligned (rw_ids r) ls) \<and>
     (case rw_scale r of None \<Rightarrow> True | Some ws \<Rightarrow> length ws = length (rw_ids r))"

lemma aligned_length: "aligned ids labels \<Longrightarrow> length labels = length ids"
  unfolding aligned_def by (drule list_all2_lengthD) simp

lemma aligned_append: "aligned a l \<Longrightarrow> aligned b m \<Longrightarrow> aligned (a @ b) (l @ m)"
  unfolding aligned_def by (rule list_all2_appendI)

lemma aligned_slice: "aligned ids labels \<Longrightarrow> aligned (take n (drop i ids)) (take n (drop i labels))"
  unfolding aligned_def by (intro list_all2_takeI list_all2_dropI)

lemma aligned_ignored: "aligned ids (replicate (length ids) (-100))"
  by (auto simp: aligned_def list_all2_conv_all_nth label_ok_def)

lemma aligned_self: "aligned ids ids"
  by (auto simp: aligned_def list_all2_conv_all_nth label_ok_def)

lemma aligned_first: "aligned ids (l # ls) \<Longrightarrow> aligned ids (-100 # ls)"
  by (auto simp: aligned_def label_ok_def list_all2_Cons2)

lemma length_splice: "i + length ys \<le> length xs \<Longrightarrow> length (splice i ys xs) = length xs"
  by (simp add: splice_def)

lemma nth_splice:
  "i + length ys \<le> length xs \<Longrightarrow> j < length xs \<Longrightarrow>
    splice i ys xs ! j = (if i \<le> j \<and> j < i + length ys then ys ! (j - i) else xs ! j)"
  by (auto simp: splice_def nth_append min_def)

lemma aligned_splice:
  assumes "aligned ids labels" and "slice i (length ys) ids = ys"
  shows "aligned ids (splice i ys labels)"
proof -
  have len: "length labels = length ids" using assms(1) by (rule aligned_length)
  show ?thesis
  proof (cases "ys = []")
    case False
    then have "0 < length ys" by simp
    moreover have "min (length ids - i) (length ys) = length ys"
      using arg_cong [OF assms(2), of length] by (simp add: slice_def)
    ultimately have b: "i + length ys \<le> length ids" by linarith
    have "ys ! (j - i) = ids ! j" if "i \<le> j" "j < i + length ys" for j
    proof -
      have "ys ! (j - i) = slice i (length ys) ids ! (j - i)" using assms(2) by simp
      also have "\<dots> = ids ! j" using that b by (simp add: slice_def)
      finally show ?thesis .
    qed
    then show ?thesis
      using assms(1) len b by (auto simp: aligned_def list_all2_conv_all_nth length_splice nth_splice label_ok_def)
  qed (use assms(1) in \<open>simp add: splice_def\<close>)
qed

lemma encode_context_list_ok: "enc_ok (encode_context_list t cws)"
proof -
  have "aligned (concat (map (\<lambda>cw. ctx_tokens tk (fst cw)) xs)) (concat (map (context_labels tk) xs))
    \<and> length (concat (map (context_scale tk) xs)) = length (concat (map (\<lambda>cw. ctx_tokens tk (fst cw)) xs))"
    for tk and xs :: "(ctx \<times> real) list"
    by (induction xs) (auto simp: context_labels_def context_scale_def aligned_self aligned_ignored
        intro!: aligned_append) 
  then show ?thesis by (auto simp: enc_ok_def encode_context_list_def)
qed

text \<open>The step keeps the alignment, and its start never overtakes the position.\<close>

definition eos_inv :: "int list \<Rightarrow> nat \<Rightarrow> nat \<times> int list \<times> real list option \<Rightarrow> bool" where
  "eos_inv ids i st = (case st of (start, labels, scale) \<Rightarrow> start \<le> i \<and> enc_ok (ids, labels, scale))"

lemma eos_step_inv:
  assumes "eos_inv ids i st" and "Suc i \<le> length ids"
  shows "eos_inv ids (Suc i) (eos_step ids suffix (Suc i) st)"
proof -
  obtain start labels scale where st: "st = (start, labels, scale)" by (cases st) auto
  have inv: "start \<le> i" "aligned ids labels" "\<And>ws. scale = Some ws \<Longrightarrow> length ws = length ids"
    using assms(1) by (auto simp: eos_inv_def st enc_ok_def)
  have sc: "length (splice start (replicate (length suffix) 1) ws) = length ws"
    if "length suffix \<le> Suc i - start" "length ws = length ids" for ws :: "real list"
    using that assms(2) inv(1) by (intro length_splice) simp
  show ?thesis
    using inv assms(2) aligned_splice [OF inv(2), of start suffix] sc
    by (auto simp: st eos_step_def Let_def eos_inv_def enc_ok_def split: option.splits)
qed

lemma eos_fold_inv:
  "j \<le> length ids \<Longrightarrow> eos_inv ids 0 st \<Longrightarrow> eos_inv ids j (fold (eos_step ids suffix) [1 ..< Suc j] st)"
  by (induction j) (auto simp: eos_step_inv)

lemma add_dynamic_eos_ok: "enc_ok e \<Longrightarrow> enc_ok (add_dynamic_eos suffix e)"
proof -
  assume e: "enc_ok e"
  obtain ids labels scale where d: "e = (ids, labels, scale)" by (cases e) auto
  have len: "length labels = length ids" using e by (auto simp: d enc_ok_def intro: aligned_length)
  have "eos_inv ids 0 (0, labels, scale)" using e by (simp add: eos_inv_def d)
  from eos_fold_inv [OF _ this, of "length labels" suffix] len
  show ?thesis by (auto simp: add_dynamic_eos_def d eos_inv_def Let_def split: prod.splits)
qed

text \<open>
  Which labels the step sets, without the loop: a copy of the suffix that follows a learned token
  directly and was not learned itself becomes learned, and nothing else changes.
\<close>

definition suffix_hit :: "int list \<Rightarrow> int list \<Rightarrow> int list \<Rightarrow> nat \<Rightarrow> bool" where
  "suffix_hit suffix ids labels s \<longleftrightarrow>
     0 < s \<and> s + length suffix \<le> length ids \<and> labels ! (s - 1) \<noteq> -100
     \<and> list_all (\<lambda>j. labels ! j = -100) [s ..< s + length suffix] \<and> slice s (length suffix) ids = suffix"

definition behind_answer :: "int list \<Rightarrow> int list \<Rightarrow> int list \<Rightarrow> nat \<Rightarrow> bool" where
  "behind_answer suffix ids labels p \<longleftrightarrow> list_ex (\<lambda>s. suffix_hit suffix ids labels s \<and> p < s + length suffix) [0 ..< Suc p]"

text \<open>The stretch without labels that starts at \<open>s\<close> has ended at \<open>i\<close> or before.\<close>

definition ended_by :: "nat \<Rightarrow> int list \<Rightarrow> nat \<Rightarrow> nat \<Rightarrow> bool" where
  "ended_by i labels k s \<longleftrightarrow>
     (\<exists>e \<le> i. s + k \<le> e \<and> e \<le> length labels \<and> (\<forall>j. s \<le> j \<and> j < e \<longrightarrow> labels ! j = -100) \<and> (e = length labels \<or> labels ! e \<noteq> -100))"

definition hit_by :: "nat \<Rightarrow> int list \<Rightarrow> int list \<Rightarrow> int list \<Rightarrow> nat \<Rightarrow> bool" where
  "hit_by i suffix ids labels p \<longleftrightarrow>
     (\<exists>s. suffix_hit suffix ids labels s \<and> s \<le> p \<and> p < s + length suffix \<and> ended_by i labels (length suffix) s)"

definition gap_start :: "int list \<Rightarrow> nat \<Rightarrow> nat \<Rightarrow> bool" where
  "gap_start labels start i \<longleftrightarrow>
     (if start = 0 then \<forall>j \<le> i. labels ! j = -100
      else start \<le> i \<and> labels ! (start - 1) \<noteq> -100 \<and> (\<forall>j. start \<le> j \<and> j \<le> i \<longrightarrow> labels ! j = -100))"

definition eos_done :: "int list \<Rightarrow> int list \<Rightarrow> int list \<Rightarrow> nat \<Rightarrow> nat \<times> int list \<times> real list option \<Rightarrow> bool" where
  "eos_done suffix ids labels i st \<longleftrightarrow>
     (case st of (start, ls, ws) \<Rightarrow>
        length ls = length labels
        \<and> (\<forall>p < length labels. ls ! p = (if hit_by i suffix ids labels p then ids ! p else labels ! p))
        \<and> (i < length labels \<and> labels ! i = -100 \<longrightarrow> gap_start labels start i))"

lemma gap_start_unique:
  assumes "gap_start labels start i" "0 < s" "s \<le> i" "labels ! (s - 1) \<noteq> -100" "\<forall>j. s \<le> j \<and> j \<le> i \<longrightarrow> labels ! j = -100"
  shows "start = s"
proof (rule ccontr)
  assume "start \<noteq> s"
  have g: "start \<noteq> 0" "start \<le> i" "labels ! (start - 1) \<noteq> -100" "\<And>j. start \<le> j \<Longrightarrow> j \<le> i \<Longrightarrow> labels ! j = -100"
  proof -
    show "start \<noteq> 0" using assms(1-4) by (auto simp: gap_start_def split: if_splits)
    then show "start \<le> i" "labels ! (start - 1) \<noteq> -100" "\<And>j. start \<le> j \<Longrightarrow> j \<le> i \<Longrightarrow> labels ! j = -100"
      using assms(1) by (auto simp: gap_start_def)
  qed
  show False
  proof (cases "start < s")
    case True
    then have "start \<le> s - 1" "s - 1 \<le> i" using assms(3) by linarith+
    then show False using g(4) assms(4) by blast
  next
    case False
    then have "s \<le> start - 1" "start - 1 \<le> i" using \<open>start \<noteq> s\<close> g(2) by linarith+
    then show False using assms(5) g(3) by blast
  qed
qed

lemma ended_by_Suc:
  "ended_by (Suc i) labels k s \<longleftrightarrow>
     ended_by i labels k s \<or>
     s + k \<le> Suc i \<and> Suc i \<le> length labels \<and> (\<forall>j. s \<le> j \<and> j < Suc i \<longrightarrow> labels ! j = -100) \<and> (Suc i = length labels \<or> labels ! Suc i \<noteq> -100)"
  unfolding ended_by_def by (auto simp: le_Suc_eq)

text \<open>Which positions a step adds: those of the suffix at the start of the stretch that ends there.\<close>

lemma hit_by_Suc:
  assumes "gap_start labels start i \<or> labels ! i \<noteq> -100" "i < length labels"
  shows "hit_by (Suc i) suffix ids labels p \<longleftrightarrow>
    hit_by i suffix ids labels p \<or>
    0 < start \<and> labels ! i = -100 \<and> (Suc i = length labels \<or> labels ! Suc i \<noteq> -100) \<and> start + length suffix \<le> Suc i
      \<and> suffix_hit suffix ids labels start \<and> start \<le> p \<and> p < start + length suffix" (is "?l \<longleftrightarrow> ?old \<or> ?new")
proof
  assume ?l
  then obtain s where s: "suffix_hit suffix ids labels s" "s \<le> p" "p < s + length suffix" and e: "ended_by (Suc i) labels (length suffix) s"
    by (auto simp: hit_by_def)
  show "?old \<or> ?new"
  proof (cases "ended_by i labels (length suffix) s")
    case True
    then show ?thesis using s by (auto simp: hit_by_def)
  next
    case False
    with e have n: "s + length suffix \<le> Suc i" "\<forall>j. s \<le> j \<and> j < Suc i \<longrightarrow> labels ! j = -100"
        "Suc i = length labels \<or> labels ! Suc i \<noteq> -100" by (auto simp: ended_by_Suc)
    have "s \<le> i" using n(1) s(2,3) by linarith
    then have "labels ! i = -100" using n(2) by simp
    moreover have "start = s"
      using gap_start_unique [of labels start i s] assms(1) calculation s(1) \<open>s \<le> i\<close> n(2) by (auto simp: suffix_hit_def)
    ultimately show ?thesis using s n by (auto simp: suffix_hit_def)
  qed
next
  assume "?old \<or> ?new"
  then show ?l
  proof
    assume ?old
    then show ?l by (auto simp: hit_by_def ended_by_Suc)
  next
    assume new: ?new
    then have "gap_start labels start i" using assms(1) by blast
    then have "\<forall>j. start \<le> j \<and> j < Suc i \<longrightarrow> labels ! j = -100" using new by (auto simp: gap_start_def)
    then show ?l using new assms(2) by (auto simp: hit_by_def ended_by_Suc)
  qed
qed

lemma hit_by_before: "hit_by i suffix ids labels p \<Longrightarrow> p < i"
  by (auto simp: hit_by_def ended_by_def)

lemma eos_step_done:
  assumes inv: "eos_done suffix ids labels i st" and i: "i < length labels"
    and len: "length ids = length labels" and lab: "\<And>p. p < length labels \<Longrightarrow> labels ! p = -100 \<or> 0 \<le> labels ! p"
  shows "eos_done suffix ids labels (Suc i) (eos_step ids suffix (Suc i) st)"
proof -
  obtain start ls ws where st: "st = (start, ls, ws)" by (cases st) auto
  have l: "length ls = length labels" and at: "\<And>p. p < length labels \<Longrightarrow> ls ! p = (if hit_by i suffix ids labels p then ids ! p else labels ! p)"
    and gap: "labels ! i = -100 \<Longrightarrow> gap_start labels start i"
    using inv i by (auto simp: eos_done_def st)
  have later: "ls ! p = labels ! p" if "i \<le> p" "p < length labels" for p
    using at [OF that(2)] hit_by_before [of i suffix ids labels p] that(1) by auto
  note H = hit_by_Suc [of labels start i suffix ids, OF _ i]
  let ?k = "length suffix"
  consider (opens) "0 \<le> labels ! i" "Suc i < length labels" "labels ! Suc i = -100"
    | (closes) "0 < start" "labels ! i = -100" "Suc i = length labels \<or> 0 \<le> labels ! Suc i" "start + ?k \<le> Suc i" "slice start ?k ids = suffix"
    | (idle) "\<not> (0 \<le> labels ! i \<and> Suc i < length labels \<and> labels ! Suc i = -100)"
        "\<not> (0 < start \<and> labels ! i = -100 \<and> (Suc i = length labels \<or> 0 \<le> labels ! Suc i) \<and> start + ?k \<le> Suc i \<and> slice start ?k ids = suffix)"
    by blast
  then show ?thesis
  proof cases
    case opens
    then have "hit_by (Suc i) suffix ids labels p = hit_by i suffix ids labels p" for p using H by auto
    then show ?thesis
      using opens l at later [of i] later [of "Suc i"] i
      by (auto simp: eos_done_def st eos_step_def gap_start_def le_Suc_eq)
  next
    case closes
    then have g: "gap_start labels start i" by (intro gap)
    then have run: "labels ! (start - 1) \<noteq> -100" "start \<le> i" "\<And>j. start \<le> j \<Longrightarrow> j \<le> i \<Longrightarrow> labels ! j = -100"
      using closes(1) by (auto simp: gap_start_def)
    have hit: "suffix_hit suffix ids labels start"
      using closes run i len by (auto simp: suffix_hit_def list_all_iff)
    have ends: "Suc i = length labels \<or> labels ! Suc i \<noteq> -100" using closes(3) by auto
    have step: "\<exists>ws'. eos_step ids suffix (Suc i) st = (start, splice start suffix ls, ws')"
    proof -
      have "Suc i = length ls \<or> 0 \<le> ls ! Suc i" using closes(3) later [of "Suc i"] i l by (metis Suc_lessI le_SucI order_refl)
      moreover have "ls ! i = -100" using closes(2) later [of i] i by simp
      moreover have "?k \<le> Suc i - start" using closes(4) by simp
      ultimately show ?thesis using closes(1,5) by (simp add: st eos_step_def Let_def)
    qed
    have "splice start suffix ls ! p = (if hit_by (Suc i) suffix ids labels p then ids ! p else labels ! p)" if p: "p < length labels" for p
    proof (cases "start \<le> p \<and> p < start + ?k")
      case True
      then have "suffix ! (p - start) = slice start ?k ids ! (p - start)" using closes(5) by simp
      also have "\<dots> = ids ! p"
      proof -
        have "p - start < ?k" "start + (p - start) = p" "start \<le> length ids" using True closes(4) i len by linarith+
        then show ?thesis by (simp add: slice_def)
      qed
      finally show ?thesis
        using True closes ends hit H [of p] g l i by (simp add: nth_splice)
    next
      case False
      then have "hit_by (Suc i) suffix ids labels p = hit_by i suffix ids labels p" using H [of p] g by auto
      moreover have "start + ?k \<le> length ls" using closes(4) i l by linarith
      ultimately show ?thesis using False at [OF p] p l by (auto simp: nth_splice)
    qed
    then show ?thesis
      using step l closes(3,4) i by (auto simp: eos_done_def length_splice)
  next
    case idle
    have here: "ls ! i = labels ! i" using later [of i] i by simp
    have nxt: "Suc i < length labels \<Longrightarrow> ls ! Suc i = labels ! Suc i" using later [of "Suc i"] by simp
    have no_open: "\<not> (0 \<le> ls ! i \<and> Suc i < length ls \<and> ls ! Suc i = -100)" using idle(1) here nxt l by auto
    have no_close: "\<not> (0 < start \<and> ls ! i = -100 \<and> (Suc i = length ls \<or> 0 \<le> ls ! Suc i) \<and> ?k \<le> Suc i - start \<and> slice start ?k ids = suffix)"
    proof
      assume a: "0 < start \<and> ls ! i = -100 \<and> (Suc i = length ls \<or> 0 \<le> ls ! Suc i) \<and> ?k \<le> Suc i - start \<and> slice start ?k ids = suffix"
      then have "start \<le> i" using gap here by (auto simp: gap_start_def)
      then have "start + ?k \<le> Suc i" using a by linarith
      moreover have "Suc i = length labels \<or> 0 \<le> labels ! Suc i" using a nxt l i by (metis Suc_lessI)
      ultimately show False using a idle(2) here by auto
    qed
    have same: "eos_step ids suffix (Suc i) st = st"
      using no_open no_close by (auto simp: st eos_step_def Let_def)
    have "hit_by (Suc i) suffix ids labels p = hit_by i suffix ids labels p" for p
    proof -
      have g: "gap_start labels start i \<or> labels ! i \<noteq> -100" using gap by blast
      have "Suc i = length labels \<or> labels ! Suc i \<noteq> -100 \<longrightarrow> Suc i = length labels \<or> 0 \<le> labels ! Suc i"
        using lab [of "Suc i"] i by (metis Suc_lessI)
      then show ?thesis using H [OF g, of p] idle(2) by (auto simp: suffix_hit_def)
    qed
    moreover have "gap_start labels start (Suc i)" if "Suc i < length labels" "labels ! Suc i = -100"
    proof -
      have "labels ! i = -100" using idle(1) that lab [OF i] by auto
      then show ?thesis using gap that(2) by (auto simp: gap_start_def le_Suc_eq split: if_splits)
    qed
    ultimately show ?thesis using same at l by (auto simp: eos_done_def st)
  qed
qed

lemma eos_fold_done:
  assumes "length ids = length labels" and "\<And>p. p < length labels \<Longrightarrow> labels ! p = -100 \<or> 0 \<le> labels ! p"
    and "i \<le> length labels"
  shows "eos_done suffix ids labels i (fold (eos_step ids suffix) [1 ..< Suc i] (0, labels, scale))"
  using assms(3)
proof (induction i)
  case 0
  have "\<not> hit_by 0 suffix ids labels p" for p using hit_by_before by blast
  then show ?case by (simp add: eos_done_def gap_start_def)
next
  case (Suc i)
  then show ?case using eos_step_done [OF Suc.IH _ assms(1,2)] by simp
qed

lemma hit_by_end:
  assumes "length ids = length labels"
  shows "hit_by (length labels) suffix ids labels p = behind_answer suffix ids labels p"
proof -
  have "ended_by (length labels) labels (length suffix) s" if "suffix_hit suffix ids labels s" for s
  proof -
    let ?P = "\<lambda>e. s + length suffix \<le> e \<and> (e = length labels \<or> labels ! e \<noteq> -100)"
    let ?e = "LEAST e. ?P e"
    have n: "?P (length labels)" using that assms by (simp add: suffix_hit_def)
    have e: "?P ?e" "?e \<le> length labels" using LeastI [of ?P, OF n] Least_le [of ?P, OF n] by blast+
    have "labels ! j = -100" if j: "s \<le> j" "j < ?e" for j
    proof (cases "j < s + length suffix")
      case True
      then show ?thesis using \<open>suffix_hit suffix ids labels s\<close> j(1) by (auto simp: suffix_hit_def list_all_iff)
    next
      case False
      then show ?thesis using not_less_Least [of j ?P] j(2) by auto
    qed
    then show ?thesis using e by (auto simp: ended_by_def)
  qed
  then show ?thesis by (auto simp: hit_by_def behind_answer_def list_ex_iff simp del: upt_Suc)
qed

definition with_suffixes :: "int list \<Rightarrow> int list \<Rightarrow> int list \<Rightarrow> int list" where
  "with_suffixes suffix ids labels = map (\<lambda>p. if behind_answer suffix ids labels p then ids ! p else labels ! p) [0 ..< length labels]"

lemma add_dynamic_eos_labels:
  assumes "enc_ok (ids, labels, scale)" "list_all (\<lambda>x. 0 \<le> x) ids"
  shows "\<exists>scale'. add_dynamic_eos suffix (ids, labels, scale) = (ids, with_suffixes suffix ids labels, scale')"
proof -
  have a: "aligned ids labels" using assms(1) by (simp add: enc_ok_def)
  then have len: "length ids = length labels" by (metis aligned_length)
  have lab: "labels ! p = -100 \<or> 0 \<le> labels ! p" if "p < length labels" for p
    using a assms(2) that len by (auto simp: aligned_def list_all2_conv_all_nth label_ok_def list_all_length)
  obtain start ls ws where f: "fold (eos_step ids suffix) [1 ..< Suc (length labels)] (0, labels, scale) = (start, ls, ws)"
    by (cases "fold (eos_step ids suffix) [1 ..< Suc (length labels)] (0, labels, scale)") auto
  have "eos_done suffix ids labels (length labels) (start, ls, ws)"
    using eos_fold_done [OF len lab, of "length labels" suffix scale] f by simp
  then have "ls = with_suffixes suffix ids labels"
    by (auto simp: eos_done_def with_suffixes_def hit_by_end [OF len] intro!: nth_equalityI)
  then show ?thesis using f by (simp add: add_dynamic_eos_def)
qed


lemma enc_ok_join: "enc_ok e \<Longrightarrow> enc_ok e' \<Longrightarrow> enc_ok (join_enc e e')"
  by (cases e; cases e') (auto simp: enc_ok_def join_scales_def aligned_append split: option.splits)

lemma encode_contexts_ok: "encode_contexts rp t inp x = Inr e \<Longrightarrow> enc_ok e"
  unfolding encode_contexts_def
  by (auto simp: res_bind_eq_Inr_iff Let_def encode_context_list_ok enc_ok_join split: prod.splits if_splits)

lemma set_first_Inr: "set_first v xs = Inr ys \<longleftrightarrow> (\<exists>x zs. xs = x # zs \<and> ys = v # zs)"
  by (auto simp: set_first_def split: list.splits)

lemma set_first_opt_Inr:
  "set_first_opt v xs = Inr ys \<longleftrightarrow>
     (xs = None \<and> ys = None \<or> (\<exists>x zs. xs = Some (x # zs) \<and> ys = Some (v # zs)))"
  by (auto simp: set_first_opt_def set_first_Inr res_bind_eq_Inr_iff split: option.splits)

text \<open>The first token is never learned.\<close>

definition first_ignored :: "row \<Rightarrow> bool" where
  "first_ignored r \<longleftrightarrow>
     (case rw_labels r of Some (l # _) \<Rightarrow> l = -100 | _ \<Rightarrow> True) \<and> (case rw_scale r of Some (w # _) \<Rightarrow> w = 0 | _ \<Rightarrow> True)"

lemma encode_row_ok:
  assumes "encode_row rp render t inp = Inr r"
  shows "row_ok r \<and> first_ignored r \<and> rw_ids r \<noteq> []"
proof -
  obtain inp1 cs e suffix where e: "encode_contexts rp t inp1 cs = Inr e"
    and r: "(let (ids, labels, scale) = add_dynamic_eos suffix e in
       res_bind (set_first (-100) labels) (\<lambda>labels'.
       res_bind (set_first_opt 0 scale) (\<lambda>scale'.
         Inr \<lparr>rw_ids = ids, rw_labels = (if is_training (tp_mode t) then Some labels' else None),
              rw_scale = (if is_training (tp_mode t) then scale' else None), rw_length = 0\<rparr>))) = Inr r"
    using assms unfolding encode_row_def Let_def res_bind_eq_Inr_iff by blast
  obtain ids labels scale where d: "add_dynamic_eos suffix e = (ids, labels, scale)"
    by (cases "add_dynamic_eos suffix e") auto
  have ok: "enc_ok (ids, labels, scale)"
    using add_dynamic_eos_ok [OF encode_contexts_ok [OF e], of suffix] d by simp
  obtain l ls scale' where l: "labels = l # ls" and s: "set_first_opt 0 scale = Inr scale'"
    and r': "r = \<lparr>rw_ids = ids, rw_labels = (if is_training (tp_mode t) then Some (-100 # ls) else None),
              rw_scale = (if is_training (tp_mode t) then scale' else None), rw_length = 0\<rparr>"
    using r unfolding d by (auto simp: res_bind_eq_Inr_iff set_first_Inr)
  have "aligned ids (-100 # ls)" using ok l by (auto simp: enc_ok_def intro: aligned_first)
  then show ?thesis
    using ok s aligned_length [of ids "-100 # ls"]
    by (auto simp: r' row_ok_def first_ignored_def enc_ok_def set_first_opt_Inr)
qed

subsection \<open>Cutting and splitting a row\<close>

lemma keep_Cons: "keep (b # bs) (x # xs) = (if b then x # keep bs xs else keep bs xs)"
  by (simp add: keep_def)

lemma keep_Nil [simp]: "keep [] xs = []" "keep bs [] = []"
  by (simp_all add: keep_def)

lemma aligned_keep: "aligned ids labels \<Longrightarrow> aligned (keep fl ids) (keep fl labels)"
  unfolding aligned_def
proof (induction ids labels arbitrary: fl rule: list_all2_induct)
  case (Cons x xs y ys)
  then show ?case by (cases fl) (simp_all add: keep_Cons)
qed simp

lemma length_keep: "length xs = length ys \<Longrightarrow> length (keep fl xs) = length (keep fl ys)"
  by (induction xs ys arbitrary: fl rule: list_induct2) (simp, case_tac fl, simp_all add: keep_Cons)

lemma truncate_row_ok:
  assumes "row_ok r" and "truncate_row t limit left r = Inr r'"
  shows "row_ok r' \<and> first_ignored r'"
proof -
  let ?fl = "keep_flags (tp_placeholder_tokens t) limit left (rw_ids r)"
  obtain labels scale where l: "keep_first (-100) ?fl (rw_labels r) = Inr labels"
    and s: "keep_first 0 ?fl (rw_scale r) = Inr scale"
    and r': "r' = r\<lparr>rw_ids := keep ?fl (rw_ids r), rw_labels := labels, rw_scale := scale\<rparr>"
    using assms(2) unfolding truncate_row_def Let_def res_bind_eq_Inr_iff by auto
  have "aligned (keep ?fl (rw_ids r)) (-100 # zs)" if "rw_labels r = Some ls" "keep ?fl ls = z # zs" for ls z zs
    using aligned_first aligned_keep [of "rw_ids r" ls ?fl] assms(1) that by (simp add: row_ok_def)
  moreover have "length (keep ?fl ws) = length (keep ?fl (rw_ids r))" if "rw_scale r = Some ws" for ws
    using assms(1) that by (intro length_keep) (simp add: row_ok_def)
  ultimately show ?thesis
    using l s by (auto simp: r' row_ok_def first_ignored_def keep_first_def set_first_opt_Inr split: option.splits)
qed

lemma row_piece_ok:
  assumes "row_ok r"
  shows "row_ok (row_piece limit i r) \<and> first_ignored (row_piece limit i r)"
proof -
  have "aligned (slice i limit (rw_ids r)) (slice i limit ls)" if "rw_labels r = Some ls" for ls
    using assms that by (simp add: slice_def aligned_slice row_ok_def)
  moreover have "aligned ids (case ls of [] \<Rightarrow> [] | _ # zs \<Rightarrow> -100 # zs)" if "aligned ids ls" for ids ls
    using that by (cases ls) (auto intro: aligned_first)
  moreover have "length (case ws of [] \<Rightarrow> [] | _ # zs \<Rightarrow> 0 # zs) = length ws" for ws :: "real list"
    by (cases ws) auto
  ultimately show ?thesis
    using assms
    by (auto simp: row_piece_def row_ok_def first_ignored_def zero_first_def Let_def slice_def
        split: option.splits list.splits)
qed

lemma get_length_ok: "row_ok r \<Longrightarrow> get_length (rw_ids r) (rw_labels r) = length (rw_ids r)"
  by (auto simp: get_length_def row_ok_def dest: aligned_length split: option.splits)

lemma split_from_pieces:
  assumes "0 < limit"
  shows "split_from limit len i r = Some (map (\<lambda>j. row_piece limit (i + j * limit) r) [0 ..< (len - i + limit - 1) div limit])"
proof (induction "len - i" arbitrary: i rule: less_induct)
  case less
  show ?case
  proof (cases "len \<le> i")
    case True
    have "(len - i + limit - 1) div limit = 0" using True assms by simp
    then show ?thesis using True by (subst split_from.simps) simp
  next
    case False
    have n: "(len - i + limit - 1) div limit = Suc ((len - (i + limit) + limit - 1) div limit)"
    proof (cases "i + limit \<le> len")
      case True
      then have "len - i + limit - 1 = (len - (i + limit) + limit - 1) + limit" using assms by simp
      then show ?thesis using assms by (metis div_add_self2 Suc_eq_plus1 less_irrefl)
    next
      case no: False
      then have "(len - i + limit - 1) div limit = 1" using False assms
        by (intro div_nat_eqI) auto
      then show ?thesis using no assms by simp
    qed
    have "split_from limit len (i + limit) r = Some (map (\<lambda>j. row_piece limit (i + limit + j * limit) r)
            [0 ..< (len - (i + limit) + limit - 1) div limit])"
      using False assms by (intro less) simp
    then have "split_from limit len i r = Some (row_piece limit i r #
        map (\<lambda>j. row_piece limit (i + limit + j * limit) r) [0 ..< (len - (i + limit) + limit - 1) div limit])"
      using False by (subst split_from.simps) simp
    also have "\<dots> = Some (map (\<lambda>j. row_piece limit (i + j * limit) r) [0 ..< (len - i + limit - 1) div limit])"
      unfolding n by (simp add: upt_conv_Cons map_Suc_upt [symmetric] algebra_simps del: upt_Suc)
    finally show ?thesis .
  qed
qed

lemma length_filter_upt: "length (filter P [0 ..< n]) = card {i. i < n \<and> P i}"
  by (simp add: length_filter_conv_card) (rule arg_cong [where f = card], auto)

lemma length_keep_flags:
  assumes "length fl = length xs"
  shows "length (keep fl xs) = card {i. i < length xs \<and> fl ! i}"
proof -
  have "length (keep fl xs) = card {i. i < length (zip fl xs) \<and> fst (zip fl xs ! i)}"
    by (simp add: keep_def length_filter_conv_card)
  also have "{i. i < length (zip fl xs) \<and> fst (zip fl xs ! i)} = {i. i < length xs \<and> fl ! i}"
    using assms by auto
  finally show ?thesis .
qed

definition count_protected :: "int list \<Rightarrow> int list \<Rightarrow> nat" where
  "count_protected placeholders ids = length (filter (\<lambda>x. x \<in> set placeholders) ids)"

text \<open>A cut row has exactly the limit, or exactly its placeholders when they are more.\<close>

lemma length_cut:
  assumes "limit \<le> length ids"
  shows "length (keep (keep_flags ps limit left ids) ids) = max limit (count_protected ps ids)"
proof -
  let ?n = "length ids"
  let ?prot = "map (\<lambda>x. x \<in> set ps) ids"
  let ?free = "filter (\<lambda>i. \<not> ?prot ! i) [0 ..< ?n]"
  define n where "n = length (filter id ?prot)"
  define idx where "idx = (if limit \<le> n then [] else if left then last_tokens (limit - n) ?free else take (limit - n) ?free)"
  have n: "n = card {i. i < ?n \<and> ?prot ! i}"
    unfolding n_def length_filter_conv_card by (rule arg_cong [where f = card]) auto
  have n': "n = count_protected ps ids"
    by (simp add: n_def count_protected_def filter_map o_def)
  have part: "length ?free + n = ?n"
  proof -
    have "card {i. i < ?n \<and> \<not> ?prot ! i} + card {i. i < ?n \<and> ?prot ! i}
        = card ({i. i < ?n \<and> \<not> ?prot ! i} \<union> {i. i < ?n \<and> ?prot ! i})"
      by (subst card_Un_disjoint) auto
    also have "{i. i < ?n \<and> \<not> ?prot ! i} \<union> {i. i < ?n \<and> ?prot ! i} = {..< ?n}" by auto
    finally show ?thesis by (simp add: n length_filter_upt)
  qed
  have len: "length idx = limit - n"
    using part assms by (auto simp: idx_def last_tokens_def)
  have dist: "distinct idx" and sub: "set idx \<subseteq> set ?free"
    by (auto simp: idx_def last_tokens_def dest: in_set_dropD in_set_takeD)
  have flags: "keep_flags ps limit left ids = map (\<lambda>i. ?prot ! i \<or> i \<in> set idx) [0 ..< ?n]"
    by (simp add: keep_flags_def Let_def idx_def n_def)
  have "length (keep (keep_flags ps limit left ids) ids) = card {i. i < ?n \<and> (?prot ! i \<or> i \<in> set idx)}"
    by (subst length_keep_flags) (auto simp: flags intro!: arg_cong [where f = card])
  also have "{i. i < ?n \<and> (?prot ! i \<or> i \<in> set idx)} = {i. i < ?n \<and> ?prot ! i} \<union> set idx"
    using sub by auto
  also have "card \<dots> = n + card (set idx)"
    using sub by (subst card_Un_disjoint) (auto simp: n)
  also have "\<dots> = max limit n" using dist len by (simp add: distinct_card)
  finally show ?thesis by (simp add: n')
qed

text \<open>The pieces of a split row, put together again.\<close>

lemma concat_slices:
  "concat (map (\<lambda>j. slice (i + j * limit) limit xs) [0 ..< k]) = slice i (k * limit) xs"
proof (induction k)
  case (Suc k)
  have "slice i (k * limit) xs @ slice (i + k * limit) limit xs = slice i (k * limit + limit) xs"
    by (simp add: slice_def take_add add.commute [of i])
  then show ?case using Suc by (simp add: add.commute)
qed (simp add: slice_def)

definition piece_count :: "nat \<Rightarrow> nat \<Rightarrow> nat" where
  "piece_count len limit = (len + limit - 1) div limit"

lemma piece_count_covers:
  assumes "0 < limit"
  shows "len \<le> piece_count len limit * limit"
proof -
  have "len + limit - 1 < piece_count len limit * limit + limit"
    using assms by (simp add: piece_count_def) (metis div_mult_mod_eq mod_less_divisor add.commute nat_add_left_cancel_less)
  then show ?thesis using assms by linarith
qed

text \<open>With a limit of 0 the loop never returns, unless there is nothing to split.\<close>

lemma split_from_progress:
  assumes "split_from limit len i r = Some ps"
  shows "len \<le> i \<or> 0 < limit"
proof (rule split_from.raw_induct [where P = "\<lambda>limit len i r ps. len \<le> i \<or> 0 < limit", OF _ assms])
  fix f limit len i and r :: row and ps
  assume IH: "\<And>limit len i r ps. f limit len i r = Some ps \<Longrightarrow> len \<le> i \<or> 0 < limit"
    and step: "(if len \<le> i then Some [] else Option.bind (f limit len (i + limit) r) (\<lambda>rest. Some (row_piece limit i r # rest))) = Some ps"
  show "len \<le> i \<or> 0 < limit"
  proof (cases "len \<le> i")
    case False
    then obtain rest where "f limit len (i + limit) r = Some rest"
      using step by (auto simp: bind_eq_Some_conv)
    from IH [OF this] False show ?thesis by auto
  qed simp
qed

lemma pieces_of_row:
  assumes "row_ok r" and "limit_row t r = Some (Inr (Pieces ps))"
  obtains limit where "tp_max_length t = Some limit" "0 < limit"
    "ps = map (\<lambda>j. row_piece limit (j * limit) r) [0 ..< piece_count (length (rw_ids r)) limit]"
proof -
  obtain limit where l: "tp_max_length t = Some limit" and s: "split_from limit (length (rw_ids r)) 0 r = Some ps"
    using assms(2) by (auto simp: limit_row_def Let_def get_length_ok [OF assms(1)] res_bind_def
        split: option.splits if_splits truncation.splits sum.splits)
  have "\<not> length (rw_ids r) \<le> limit"
    using assms(2) l by (auto simp: limit_row_def Let_def get_length_ok [OF assms(1)])
  then have pos: "0 < limit" using split_from_progress [OF s] by (cases "rw_ids r") auto
  show ?thesis using that [OF l pos] s split_from_pieces [OF pos, of "length (rw_ids r)" 0 r] by (simp add: piece_count_def)
qed


fun encoded_rows :: "encoded \<Rightarrow> row list" where
  "encoded_rows (Single r) = [r]"
| "encoded_rows (Pieces rs) = rs"

text \<open>A row that passed the limit: well formed, its length recorded and bounded.\<close>

definition row_fits :: "template \<Rightarrow> row \<Rightarrow> bool" where
  "row_fits t r \<longleftrightarrow>
     row_ok r \<and> first_ignored r \<and> rw_length r = length (rw_ids r) \<and>
     (case tp_max_length t of
        None \<Rightarrow> True
      | Some limit \<Rightarrow> length (rw_ids r) \<le> max limit (count_protected (tp_placeholder_tokens t) (rw_ids r)))"

lemma drop_labels_ok:
  "row_ok r \<Longrightarrow> row_ok (drop_labels t r)" "first_ignored r \<Longrightarrow> first_ignored (drop_labels t r)"
  "rw_ids (drop_labels t r) = rw_ids r" "rw_length (drop_labels t r) = rw_length r"
  by (auto simp: drop_labels_def row_ok_def first_ignored_def)

lemma row_ok_length [simp]: "row_ok (r\<lparr>rw_length := n\<rparr>) = row_ok r" "first_ignored (r\<lparr>rw_length := n\<rparr>) = first_ignored r"
  by (simp_all add: row_ok_def first_ignored_def split: option.split)

lemma count_protected_keep:
  "count_protected ps (keep (keep_flags ps limit left ids) ids) = count_protected ps ids"
proof -
  have "filter P (keep fl xs) = filter P xs"
    if "length fl = length xs" "\<And>i. i < length xs \<Longrightarrow> P (xs ! i) \<Longrightarrow> fl ! i" for fl and xs :: "int list" and P
    using that
  proof (induction fl xs rule: list_induct2)
    case (Cons b bs x xs)
    have "P x \<Longrightarrow> b" using Cons.prems [of 0] by simp
    moreover have "filter P (keep bs xs) = filter P xs" using Cons.prems [of "Suc i" for i] by (intro Cons.IH) auto
    ultimately show ?case by (auto simp: keep_Cons)
  qed simp
  from this [of "keep_flags ps limit left ids" ids "\<lambda>x. x \<in> set ps"] show ?thesis
    by (simp add: count_protected_def keep_flags_def Let_def)
qed

lemma limit_row_fits:
  assumes "row_ok r" and "first_ignored r" and "limit_row t r = Some (Inr e)" and "x \<in> set (encoded_rows e)"
  shows "row_fits t x"
proof -
  let ?ph = "tp_placeholder_tokens t"
  have len: "get_length (rw_ids r) (rw_labels r) = length (rw_ids r)" using assms(1) by (rule get_length_ok)
  show ?thesis
  proof (cases e)
    case (Pieces ps)
    then obtain limit where l: "tp_max_length t = Some limit" "0 < limit"
      and ps: "ps = map (\<lambda>j. row_piece limit (j * limit) r) [0 ..< piece_count (length (rw_ids r)) limit]"
      using pieces_of_row [of r t ps] assms by auto
    obtain j where x: "x = row_piece limit (j * limit) r" using assms(4) Pieces ps by auto
    have "length (rw_ids x) \<le> limit" by (simp add: x row_piece_def Let_def slice_def)
    moreover have "rw_length x = length (rw_ids x)"
      using get_length_ok [of x] row_piece_ok [OF assms(1), of limit "j * limit"] by (simp add: x row_piece_def Let_def)
    ultimately show ?thesis using row_piece_ok [OF assms(1)] l by (simp add: row_fits_def x)
  next
    case (Single y)
    then have x: "x = y" using assms(4) by simp
    show ?thesis
    proof (cases "case tp_max_length t of None \<Rightarrow> True | Some limit \<Rightarrow> length (rw_ids r) \<le> limit")
      case True
      then have "y = drop_labels t (r\<lparr>rw_length := length (rw_ids r)\<rparr>)"
        using assms(3) Single by (auto simp: limit_row_def Let_def len split: option.splits)
      then show ?thesis using True assms(1,2) by (auto simp: x row_fits_def drop_labels_ok split: option.splits)
    next
      case False
      then obtain limit where l: "tp_max_length t = Some limit" "limit < length (rw_ids r)"
        by (auto split: option.splits)
      then obtain left r' where t: "truncate_row t limit left r = Inr r'"
        and y: "y = drop_labels t (r'\<lparr>rw_length := get_length (rw_ids r') (rw_labels r')\<rparr>)"
        using assms(3) Single
        by (auto simp: limit_row_def Let_def len res_bind_def split: truncation.splits sum.splits)
      have ids: "rw_ids r' = keep (keep_flags ?ph limit left (rw_ids r)) (rw_ids r)"
        using t by (auto simp: truncate_row_def Let_def res_bind_eq_Inr_iff)
      have ok: "row_ok r' \<and> first_ignored r'" using truncate_row_ok [OF assms(1) t] .
      have "length (rw_ids r') = max limit (count_protected ?ph (rw_ids r'))"
        unfolding ids count_protected_keep using l(2) by (intro length_cut) simp
      then show ?thesis
        using ok l(1) by (simp add: x y row_fits_def drop_labels_ok get_length_ok)
    qed
  qed
qed

subsection \<open>Which characters are learned\<close>

text \<open>Every item of the weighted contexts, with whether it is learned.\<close>

definition titems :: "(ctx \<times> real) list \<Rightarrow> ((char + int) \<times> bool) list" where
  "titems cws = concat (map (\<lambda>(c, w). map (\<lambda>x. (x, 0 < w)) (ctx_items c)) cws)"

lemma titems_simps [simp]:
  "titems [] = []" "titems ((c, w) # cws) = map (\<lambda>x. (x, 0 < w)) (ctx_items c) @ titems cws"
  "titems (xs @ ys) = titems xs @ titems ys"
  by (simp_all add: titems_def)

lemma map_fst_titems: "map fst (titems cws) = items (map fst cws)"
  by (induction cws) (auto simp: o_def)

lemma titems_split_special: "titems (split_special_tokens cws) = titems cws"
proof -
  have "titems (map (\<lambda>p. (CText p, w)) ps) = map (\<lambda>x. (Inl x, 0 < w)) (concat ps)" for ps :: "string list" and w
    by (induction ps) (auto simp: o_def)
  moreover have "concat (concat (map (\<lambda>(k, c). [k, c]) (split_str_parts_by special_tokens s))) = s" for s
  proof -
    have "concat (concat (map (\<lambda>(k, c). [k, c]) kcs)) = concat (map (\<lambda>(k, c). k @ c) kcs)"
      for kcs :: "(string \<times> string) list" by (induction kcs) auto
    then show ?thesis by (simp add: split_str_parts_by_text)
  qed
  ultimately have "titems (split_special cw) = titems [cw]" for cw
    by (cases cw) (auto simp: split_special_def concat_filter_nonempty split: ctx.split)
  then show ?thesis
    unfolding split_special_tokens_def by (induction cws) (auto simp: titems_def)
qed

text \<open>Inputs without media, boxes and step labels.\<close>

definition plain :: "template \<Rightarrow> std_inputs \<Rightarrow> bool" where
  "plain t inp \<longleftrightarrow> \<not> is_multimodal inp \<and> si_refs inp = [] \<and> si_bboxes inp = None \<and> tp_task t \<noteq> Prm"

lemma pre_tokenize_plain:
  assumes "plain t inp"
  shows "\<exists>inp'. pre_tokenize rp t inp cws = Inr (cws, inp')"
proof -
  have "pre_tokenize_images t inp k cws = cws" for k
    using assms by (induction cws arbitrary: k) (auto simp: plain_def)
  moreover have "replace_all_tags rp t inp s cws = (cws, s)" for s
    using assms
    by (induction cws arbitrary: s) (auto simp: plain_def replace_tags_def bboxes_def Let_def split: prod.splits)
  ultimately show ?thesis
    using assms by (auto simp: pre_tokenize_def Let_def plain_def is_multimodal_def)
qed

lemma titems_merge_texts:
  "titems (merge_texts temp w0 cws) = map (\<lambda>x. (Inl x, 0 < w0)) (concat temp) @ titems cws"
  by (induction temp w0 cws rule: merge_texts.induct) (auto simp: flush_def o_def)

lemma titems_simplify:
  assumes "plain t inp" and "simplify_context_list rp t cws inp = Inr (out, inp')"
  shows "titems out = titems cws"
  using assms pre_tokenize_plain [OF assms(1), of rp "split_special_tokens cws"]
  by (auto simp: simplify_context_list_def titems_merge_texts titems_split_special)

text \<open>The items of one context and their flags: nothing of a prompt is learned.\<close>

definition marked_ctx :: "ctx \<times> ctx_type \<Rightarrow> ((char + int) \<times> bool) list \<Rightarrow> bool" where
  "marked_ctx x p \<longleftrightarrow> map fst p = ctx_items (fst x) \<and> (snd x = Other \<longrightarrow> (\<forall>y \<in> set p. \<not> snd y))"

definition is_resp :: "ctx \<Rightarrow> bool" where
  "is_resp c = (case c of CResp _ _ \<Rightarrow> True | _ \<Rightarrow> False)"

definition ctx_wf :: "ctx \<times> ctx_type \<Rightarrow> bool" where
  "ctx_wf x \<longleftrightarrow> resp_ok (fst x) \<and> (snd x \<noteq> Response \<longrightarrow> \<not> is_resp (fst x))"

lemma map_fst_zip_titems: "length ws = length cs \<Longrightarrow> map fst (titems (zip cs ws)) = items cs"
  by (simp add: map_fst_titems)

lemma weigh_next_marked:
  assumes "keeps_text ls" and "ls_strategy ls \<noteq> ''all''" and "ctx_wf x" and "weigh_next ls ms i x = Inr (out, j)"
  shows "marked_ctx x (titems (zip (fst out) (snd out)))"
proof -
  have "map fst (titems (zip (fst out) (snd out))) = ctx_items (fst x)"
    using weigh_next_text [OF assms(1) _ assms(4)] assms(3) by (simp add: map_fst_zip_titems ctx_wf_def)
  moreover have "\<forall>y \<in> set (titems (zip (fst out) (snd out))). \<not> snd y" if "snd x = Other"
    using assms(2-4) that
    by (cases x) (auto simp: weigh_next_def weigh_context_def is_trained_def Let_def res_bind_eq_Inr_iff ctx_wf_def
        is_resp_def split: ctx.splits)
  ultimately show ?thesis by (simp add: marked_ctx_def)
qed

lemma weigh_all_marked:
  assumes "keeps_text ls" and "ls_strategy ls \<noteq> ''all''" and "list_all ctx_wf cts" and "weigh_all ls ms i cts = Inr out"
  shows "\<exists>parts. titems (zip (fst out) (snd out)) = concat parts \<and> list_all2 marked_ctx cts parts"
  using assms(3,4)
proof (induction cts arbitrary: i out)
  case (Cons x cts)
  then obtain o1 j o2 where n: "weigh_next ls ms i x = Inr (o1, j)" and r: "weigh_all ls ms j cts = Inr o2"
    and out: "out = (fst o1 @ fst o2, snd o1 @ snd o2)"
    by (auto simp: res_bind_eq_Inr_iff)
  have wf: "ctx_wf x" using Cons.prems(1) by simp
  have m: "marked_ctx x (titems (zip (fst o1) (snd o1)))" using weigh_next_marked [OF assms(1,2) wf n] .
  have l: "length (snd o1) = length (fst o1)"
    using weigh_next_text [OF assms(1) _ n] wf by (simp add: ctx_wf_def)
  obtain parts where "titems (zip (fst o2) (snd o2)) = concat parts" "list_all2 marked_ctx cts parts"
    using Cons.IH [OF _ r] Cons.prems(1) by auto
  then show ?case using m l out by (intro exI [of _ "titems (zip (fst o1) (snd o1)) # parts"]) simp
qed auto

subsection \<open>The contexts of a well-formed conversation\<close>

definition msg_wf :: "message \<Rightarrow> bool" where
  "msg_wf m =
     (case m_content m of
        CNone \<Rightarrow> True
      | COne c \<Rightarrow> resp_ok c
      | CMany cs \<Rightarrow> list_all (\<lambda>c. \<not> is_resp c) cs)"

lemma map_res_list_all:
  assumes "map_res f xs = Inr ys" and "\<And>x y. x \<in> set xs \<Longrightarrow> f x = Inr y \<Longrightarrow> P y"
  shows "list_all P ys"
  unfolding list_all_length
proof (intro allI impI)
  fix n assume "n < length ys"
  then have "n < length xs" "f (xs ! n) = Inr (ys ! n)"
    using assms(1) by (auto simp: map_res_Inr_iff list_all2_conv_all_nth)
  then show "P (ys ! n)" by (intro assms(2) [OF nth_mem])
qed

lemma words_ctx_wf: "words_ctx p = Inr cs \<Longrightarrow> list_all (\<lambda>c. \<not> is_resp c \<and> resp_ok c) cs"
proof -
  have "\<not> is_resp c \<and> resp_ok c" if "word_ctx w = Inr c" for w c
    using that by (cases w) (auto simp: is_resp_def resp_ok_def res_bind_eq_Inr_iff)
  moreover assume "words_ctx p = Inr cs"
  ultimately show ?thesis unfolding words_ctx_def by (metis (no_types, lifting) map_res_list_all)
qed

lemma not_resp_ok: "\<not> is_resp c \<Longrightarrow> resp_ok c"
  by (auto simp: is_resp_def resp_ok_def split: ctx.splits)

lemma concat_one_wf:
  assumes "concat_one system query response k c = Inr xs" and "\<not> is_resp c" and "\<And>c'. response = COne c' \<Longrightarrow> resp_ok c'"
  shows "list_all ctx_wf xs"
  using assms
  by (cases c) (auto simp: ctx_wf_def is_resp_def resp_ok_def res_bind_eq_Inr_iff split: if_splits content.splits)

lemma concat_context_list_wf:
  assumes "concat_context_list cs system query response k = Inr xs" and "list_all (\<lambda>c. \<not> is_resp c) cs"
    and "\<And>c'. response = COne c' \<Longrightarrow> resp_ok c'"
  shows "list_all ctx_wf xs"
proof -
  obtain xss where x: "map_res (concat_one system query response k) cs = Inr xss" "xs = concat xss"
    using assms(1) by (auto simp: concat_context_list_def res_bind_eq_Inr_iff)
  have "list_all (list_all ctx_wf) xss"
    using x(1) by (rule map_res_list_all) (use assms(2,3) concat_one_wf in \<open>auto simp: list_all_iff\<close>)
  then show ?thesis using x(2) by (auto simp: list_all_iff)
qed

lemma tool_prompt_wf:
  "tool_prompt c = Inr cs \<Longrightarrow> (\<And>ds. c = CMany ds \<Longrightarrow> list_all (\<lambda>c. \<not> is_resp c) ds) \<Longrightarrow> list_all (\<lambda>c. \<not> is_resp c) cs"
  by (induction c rule: tool_prompt.induct) auto

lemma words_not_resp: "words_ctx p = Inr cs \<Longrightarrow> list_all (\<lambda>c. \<not> is_resp c) cs"
  by (drule words_ctx_wf) (auto simp: list_all_iff)

lemma round_tail_wf:
  assumes "round_tail t inp has_sep ms n i response = Inr (answer, extra)"
  shows "list_all (\<lambda>c. \<not> is_resp c) answer \<and> list_all ctx_wf extra"
  using assms words_ctx_wf
  by (fastforce simp: round_tail_def res_bind_eq_Inr_iff ctx_wf_def is_resp_def list_all_iff split: if_splits option.splits)

lemma round_contexts_wf:
  assumes "round_contexts t inp has_sep system ms n (i, q, r) = Inr y" and "msg_wf q" and "msg_wf r"
  shows "list_all ctx_wf (fst y)"
proof -
  obtain prompt answer extra cs where
      p: "round_prompt t n i q = Inr prompt" and a: "round_tail t inp has_sep ms n i (m_content r) = Inr (answer, extra)"
    and c: "concat_context_list (prompt @ answer) system (if m_role q = ''tool'' then COne (CText []) else m_content q)
              (m_content r) (Some i) = Inr cs"
    and y: "fst y = cs @ extra"
    using assms(1) by (auto simp: round_contexts_def res_bind_eq_Inr_iff split: if_splits)
  have "list_all (\<lambda>c. \<not> is_resp c) prompt"
    using p assms(2) words_not_resp
    by (auto simp: round_prompt_def msg_wf_def split: if_splits intro: tool_prompt_wf)
  then have "list_all ctx_wf cs"
    using round_tail_wf [OF a] assms(3) by (intro concat_context_list_wf [OF c]) (auto simp: msg_wf_def)
  then show ?thesis using round_tail_wf [OF a] y by simp
qed

lemma msg_wf_with_text: "msg_wf m \<Longrightarrow> msg_wf (m\<lparr>m_content := with_text f (m_content m)\<rparr>)"
  by (cases "(f, m_content m)" rule: with_text.cases) (auto simp: msg_wf_def resp_ok_def)

lemma list_all_map_indexed:
  "list_all P xs \<Longrightarrow> (\<And>i x. P x \<Longrightarrow> Q (f i x)) \<Longrightarrow> list_all Q (map_indexed f xs)"
  by (auto simp: map_indexed_def list_all_iff dest: set_zip_rightD)

lemma add_non_thinking_prefix_wf: "list_all msg_wf ms \<Longrightarrow> list_all msg_wf (add_non_thinking_prefix t ms)"
  by (auto simp: add_non_thinking_prefix_def Let_def elim!: list_all_map_indexed intro!: msg_wf_with_text)

lemma remove_history_thinking_wf: "list_all msg_wf ms \<Longrightarrow> list_all msg_wf (remove_history_thinking t ms)"
  by (auto simp: remove_history_thinking_def elim!: list_all_map_indexed intro!: msg_wf_with_text)

lemma encode_messages_wf: "list_all msg_wf ms \<Longrightarrow> list_all msg_wf (encode_messages t ms)"
  by (simp add: encode_messages_def Let_def add_non_thinking_prefix_wf remove_history_thinking_wf)

lemma final_rounds_wf: "list_all msg_wf ms \<Longrightarrow> list_all msg_wf (final_rounds t ms)"
proof -
  assume "list_all msg_wf ms"
  then have "list_all msg_wf (get_std_messages ms)"
    by (auto simp: get_std_messages_def msg_def msg_wf_def resp_ok_def Let_def)
  then show ?thesis by (auto simp: final_rounds_def Let_def list_all_iff dest: in_set_dropD)
qed

lemma pairs_of_set: "(x, y) \<in> set (pairs_of xs) \<Longrightarrow> x \<in> set xs \<and> y \<in> set xs"
  by (induction xs rule: pairs_of.induct) auto

lemma prefix_contexts_wf: "prefix_contexts t system = Inr prefix \<Longrightarrow> list_all ctx_wf prefix"
  using words_not_resp
  by (auto simp: prefix_contexts_def Let_def res_bind_eq_Inr_iff split: if_splits option.splits
      intro: concat_context_list_wf)

lemma lay_out_wf:
  assumes "lay_out t inp system ms bos_sep = Inr (cs, extra)" and "list_all msg_wf ms"
  shows "list_all ctx_wf cs"
proof -
  obtain bos sep where b: "bos_sep = (bos, sep)" by (cases bos_sep)
  obtain prefix rounds where p: "prefix_contexts t system = Inr prefix"
    and r: "map_res (round_contexts t inp (sep \<noteq> []) system ms (length ms div 2)) (rounds_of ms) = Inr rounds"
    and c: "cs = (if bos \<noteq> [] then [(CIds bos, Other)] else []) @ prefix @ concat (map fst rounds)
              @ (if sep \<noteq> [] then [(CIds sep, Suffix)] else [])"
    using assms(1) unfolding lay_out_def b by (auto simp: res_bind_eq_Inr_iff split: if_splits)
  have "list_all (\<lambda>y. list_all ctx_wf (fst y)) rounds"
  proof (rule map_res_list_all [OF r])
    fix x y assume x: "x \<in> set (rounds_of ms)" and y: "round_contexts t inp (sep \<noteq> []) system ms (length ms div 2) x = Inr y"
    obtain i q a where e: "x = (i, q, a)" by (cases x)
    have "q \<in> set ms \<and> a \<in> set ms" using x e by (auto simp: rounds_of_def dest: set_zip_rightD pairs_of_set)
    then show "list_all ctx_wf (fst y)" using round_contexts_wf [OF y [unfolded e]] assms(2) by (auto simp: list_all_iff)
  qed
  then have "list_all ctx_wf (concat (map fst rounds))" by (auto simp: list_all_iff)
  then show ?thesis
    using prefix_contexts_wf [OF p] by (simp add: c ctx_wf_def is_resp_def resp_ok_def)
qed

lemma get_system_wf:
  assumes "get_system t inp ms = Inr (system, ms1)" and "list_all msg_wf ms"
  shows "list_all msg_wf ms1"
  using assms
  by (auto simp: get_system_def res_bind_eq_Inr_iff Let_def msg_wf_def resp_ok_def split: if_splits list.splits option.splits)

lemma swift_contexts_wf:
  assumes "swift_contexts t inp = Inr (cts, ms, n)" and "list_all msg_wf (si_messages inp)"
  shows "list_all ctx_wf cts"
proof -
  obtain system ms1 bos sep extra where g: "get_system t inp (encode_messages t (si_messages inp)) = Inr (system, ms1)"
    and "lay_out t inp system (final_rounds t ms1) (bos, sep) = Inr (cts, extra)"
    using assms(1) unfolding swift_contexts_def Let_def by (auto simp: res_bind_eq_Inr_iff)
  moreover have "list_all msg_wf ms1"
    by (rule get_system_wf [OF g encode_messages_wf [OF assms(2)]])
  ultimately show ?thesis
    using lay_out_wf final_rounds_wf by blast
qed

subsection \<open>Properties\<close>

lemma slice_zero_first:
  assumes "0 < limit"
  shows "(case slice (j * limit) limit ls of [] \<Rightarrow> [] | _ # zs \<Rightarrow> v # zs)
    = slice (j * limit) limit (map (\<lambda>k. if k mod limit = 0 then v else ls ! k) [0 ..< length ls])"
proof (rule nth_equalityI)
  show "length (case slice (j * limit) limit ls of [] \<Rightarrow> [] | _ # zs \<Rightarrow> v # zs)
    = length (slice (j * limit) limit (map (\<lambda>k. if k mod limit = 0 then v else ls ! k) [0 ..< length ls]))"
    by (cases "slice (j * limit) limit ls") (auto simp: slice_def dest!: arg_cong [where f = length])
next
  fix i assume "i < length (case slice (j * limit) limit ls of [] \<Rightarrow> [] | _ # zs \<Rightarrow> v # zs)"
  then have i: "i < length (slice (j * limit) limit ls)" by (cases "slice (j * limit) limit ls") auto
  then have b: "i < limit" "j * limit + i < length ls" by (auto simp: slice_def)
  have "(case slice (j * limit) limit ls of [] \<Rightarrow> [] | _ # zs \<Rightarrow> v # zs) ! i
      = (if i = 0 then v else slice (j * limit) limit ls ! i)"
    using i by (cases "slice (j * limit) limit ls"; cases i) auto
  also have "\<dots> = (if i = 0 then v else ls ! (j * limit + i))" using b by (simp add: slice_def)
  also have "\<dots> = slice (j * limit) limit (map (\<lambda>k. if k mod limit = 0 then v else ls ! k) [0 ..< length ls]) ! i"
    using b by (simp add: slice_def)
  finally show "(case slice (j * limit) limit ls of [] \<Rightarrow> [] | _ # zs \<Rightarrow> v # zs) ! i
    = slice (j * limit) limit (map (\<lambda>k. if k mod limit = 0 then v else ls ! k) [0 ..< length ls]) ! i" .
qed

lemma concat_pieces:
  assumes "0 < limit"
  shows "concat (map (\<lambda>j. slice (j * limit) limit xs) [0 ..< piece_count (length xs) limit]) = xs"
  using concat_slices [where i = 0 and limit = limit and xs = xs] piece_count_covers [OF assms, of "length xs"]
  by (simp add: slice_def)

text \<open>
  C4. Whatever the messages, media, loss weights and truncation strategy, every row that comes
  out of the encoder has one label and one weight per token, each label is the ignored value or
  the token itself, the first token is never learned, the recorded length is the number of
  tokens, and that number is within the limit unless the row has more media placeholders.
\<close>

theorem encoded_rows_aligned:
  assumes "encode_truncated open_image multimodal rp render t inp = Some (Inr e)" and "r \<in> set (encoded_rows e)"
  shows "row_ok r \<and> first_ignored r \<and> rw_length r = length (rw_ids r)
    \<and> (\<forall>limit. tp_max_length t = Some limit \<longrightarrow>
         length (rw_ids r) \<le> max limit (count_protected (tp_placeholder_tokens t) (rw_ids r)))"
proof -
  obtain inp' r0 where "encode_row rp render t inp' = Inr r0" and l: "limit_row t r0 = Some (Inr e)"
    using assms(1) by (auto simp: encode_truncated_def res_bind_eq_Inr_iff split: sum.splits)
  then have "row_fits t r" using encode_row_ok limit_row_fits [OF _ _ l assms(2)] by blast
  then show ?thesis by (auto simp: row_fits_def)
qed

text \<open>
  C8. A row that is split for its length loses nothing: its pieces, each non-empty and within
  the limit, put together give back its tokens, and its labels except those of the first token
  of each piece, which are ignored.
\<close>

theorem split_row_reassembles:
  assumes "encode_row rp render t inp = Inr r" and "limit_row t r = Some (Inr (Pieces ps))"
  shows "concat (map rw_ids ps) = rw_ids r
    \<and> (\<exists>limit. tp_max_length t = Some limit \<and> list_all (\<lambda>p. length (rw_ids p) \<in> {1 .. limit}) ps
        \<and> map_option (\<lambda>_. concat (map (\<lambda>p. the (rw_labels p)) ps)) (rw_labels r)
          = map_option (\<lambda>ls. map (\<lambda>k. if k mod limit = 0 then -100 else ls ! k) [0 ..< length ls]) (rw_labels r))"
proof -
  have ok: "row_ok r" using encode_row_ok [OF assms(1)] by simp
  let ?n = "length (rw_ids r)"
  from pieces_of_row [OF ok assms(2)] obtain limit where l: "tp_max_length t = Some limit" "0 < limit"
    and ps: "ps = map (\<lambda>j. row_piece limit (j * limit) r) [0 ..< piece_count ?n limit]" .
  have ids: "concat (map rw_ids ps) = rw_ids r"
    using concat_pieces [OF l(2), of "rw_ids r"] by (simp add: ps o_def row_piece_def Let_def)
  have "length (rw_ids p) \<in> {1 .. limit}" if "p \<in> set ps" for p
  proof -
    obtain j where j: "j < piece_count ?n limit" and p: "rw_ids p = slice (j * limit) limit (rw_ids r)"
      using \<open>p \<in> set ps\<close> by (auto simp: ps row_piece_def Let_def)
    have "Suc j * limit \<le> ?n + limit - 1"
      using j l(2) by (simp add: piece_count_def) (metis Suc_leI less_eq_div_iff_mult_less_eq mult_Suc)
    then show ?thesis using l(2) by (simp add: p slice_def Suc_le_eq)
  qed
  moreover have "concat (map (\<lambda>p. the (rw_labels p)) ps) = map (\<lambda>k. if k mod limit = 0 then -100 else ls ! k) [0 ..< length ls]"
    if "rw_labels r = Some ls" for ls
  proof -
    have n: "?n = length ls" using ok that aligned_length by (fastforce simp: row_ok_def)
    show ?thesis
      using concat_pieces [OF l(2), of "map (\<lambda>k. if k mod limit = 0 then -100 else ls ! k) [0 ..< length ls]"]
      by (simp add: ps o_def row_piece_def Let_def zero_first_def that slice_zero_first [OF l(2)] n)
  qed
  ultimately show ?thesis using ids l by (cases "rw_labels r") (auto simp: list_all_iff)
qed

lemma set_first_upt: "set_first v xs = Inr ys \<Longrightarrow> ys = map (\<lambda>p. if p = 0 then v else xs ! p) [0 ..< length xs]"
  by (cases xs) (simp_all add: set_first_def map_upt_Suc map_nth del: upt_Suc)

text \<open>
  C2. What a conversation trains, for a text conversation without media or boxes, in training, with a
  decoder-only model whose template has a format of its own and whose token ids are not negative,
  under every loss scale but those that train on everything.  The labels of the encoded row are those
  of the laid out conversation with one addition.  The laid out conversation is spelled out exactly,
  context by context, by the weighted contexts \<open>out\<close> (splitting by weight, splitting at special
  tokens and merging never change the text), and no item of a prompt, a system text or a separator
  has a positive weight.  The addition is that of \<open>_add_dynamic_eos\<close>: the tokens of a copy of the
  suffix that directly follows a learned token and has no labels of its own are learned too, whoever
  wrote them.  So with a separator equal to the suffix, as in ChatML, the separators behind answers
  are learned; with another separator they are only when what follows the answer begins with the
  tokens of the suffix.  The first token of the row never is.
\<close>

theorem only_answers_learned:
  assumes "encode_row rp render t inp = Inr r" and "swift_prepare_inputs t (si_messages inp) = Inr prepared"
    and "swift_contexts t (inp\<lparr>si_messages := prepared\<rparr>) = Inr (cts, ms, n)"
    and "get_loss_scale spec = Inr (tp_loss t)" and "ls_strategy (tp_loss t) \<noteq> ''all''"
    and "uses_swift t" and "is_training (tp_mode t)" and "\<not> tp_encoder_decoder t" and "plain t inp"
    and "list_all msg_wf prepared" and "list_all (\<lambda>x. 0 \<le> x) (rw_ids r)"
  shows "\<exists>out parts labels scale suffix. titems out = concat parts \<and> list_all2 marked_ctx cts parts
    \<and> encode_context_list t out = (rw_ids r, labels, scale) \<and> suffix_tokens t = Inr suffix
    \<and> rw_labels r = Some (map (\<lambda>p. if p = 0 then -100 else if behind_answer suffix (rw_ids r) labels p then rw_ids r ! p else labels ! p)
        [0 ..< length (rw_ids r)])"
proof -
  let ?inp = "inp\<lparr>si_messages := prepared\<rparr>"
  obtain x e suffix where x: "swift_encode t ?inp = Inr x" and e: "encode_contexts rp t ?inp x = Inr e"
    and suffix: "suffix_tokens t = Inr suffix"
    and r: "(let (ids, labels, scale) = add_dynamic_eos suffix e in
       res_bind (set_first (-100) labels) (\<lambda>labels'. res_bind (set_first_opt 0 scale) (\<lambda>scale'.
         Inr \<lparr>rw_ids = ids, rw_labels = (if is_training (tp_mode t) then Some labels' else None),
              rw_scale = (if is_training (tp_mode t) then scale' else None), rw_length = 0\<rparr>))) = Inr r"
    using assms(1,2,6) unfolding encode_row_def template_contexts_def Let_def by (auto simp only: res_bind_eq_Inr_iff if_True sum.inject)
  obtain y where y: "weigh_all (tp_loss t) ms 0 cts = Inr y" and xy: "x = (fst y, snd y, n)"
    using assms(3) x by (auto simp: swift_encode_def loss_scale_call_def res_bind_eq_Inr_iff)
  have "list_all ctx_wf cts" using swift_contexts_wf [OF assms(3)] assms(10) by simp
  then obtain parts where p: "titems (zip (fst y) (snd y)) = concat parts" "list_all2 marked_ctx cts parts"
    using weigh_all_marked [OF get_loss_scale_keeps_text [OF assms(4)] assms(5) _ y] by auto
  obtain out inp' where s: "simplify_context_list rp t (zip (fst y) (snd y)) ?inp = Inr (out, inp')" and eo: "e = encode_context_list t out"
    using assms(8) e by (auto simp: encode_contexts_def xy Let_def res_bind_eq_Inr_iff)
  have plain: "plain t ?inp" using assms(9) by (simp add: plain_def is_multimodal_def)
  obtain ids labels scale where ids: "e = (ids, labels, scale)" by (cases e) auto
  have ok: "enc_ok (ids, labels, scale)" using encode_context_list_ok [of t out] eo ids by simp
  have ri: "rw_ids r = ids" using r ids by (auto simp: add_dynamic_eos_def res_bind_eq_Inr_iff split: prod.splits)
  obtain scale' where "add_dynamic_eos suffix e = (ids, with_suffixes suffix ids labels, scale')"
    using add_dynamic_eos_labels [OF ok] assms(11) ri ids by auto
  then obtain labels' where f: "set_first (-100) (with_suffixes suffix ids labels) = Inr labels'" and rl: "rw_labels r = Some labels'"
    using r ids assms(7) by (auto simp: res_bind_eq_Inr_iff)
  have len: "length labels = length ids" using ok aligned_length by (fastforce simp: enc_ok_def)
  have "labels' = map (\<lambda>p. if p = 0 then -100 else if behind_answer suffix ids labels p then ids ! p else labels ! p) [0 ..< length ids]"
    using set_first_upt [OF f] by (auto simp: with_suffixes_def len intro!: nth_equalityI)
  then show ?thesis
    using titems_simplify [OF plain s] p eo ids ri rl suffix
    by (intro exI [of _ out] exI [of _ parts] exI [of _ labels] exI [of _ scale] exI [of _ suffix]) simp
qed

text \<open>A small template: one token per character, an end token, questions and answers in brackets.\<close>

definition char_tokenizer :: tokenizer where
  "char_tokenizer =
     \<lparr>tk_ids = map (\<lambda>c. int (of_char c)), tk_text = map (\<lambda>i. char_of (nat i)), tk_attr = (\<lambda>_. None),
      tk_to_id = (\<lambda>_. None), tk_encode_full = map (\<lambda>c. int (of_char c)), tk_eos_token = ''$'', tk_eos_token_id = 36,
      tk_pad_token_id = 0\<rparr>"

definition bracket_meta :: ready_meta where
  "bracket_meta =
     \<lparr>tm_prefix = [], tm_prompt = [Word ''[{{QUERY}}]''], tm_chat_sep = Some [Word '';''], tm_suffix = [Word ''$''],
      tm_system_prefix = None, tm_default_system = None, tm_auto_add_bos = False, tm_stop_words = [Word ''$''],
      tm_is_thinking = False, tm_thinking_prefix = [], tm_non_thinking_prefix = [], tm_history_thinking_prefix = [],
      tm_is_post_system = False, tm_system_prompt = [], tm_support_system = False, tm_support_multi_round = True,
      tm_suffix_stop = Some (Word ''$''), tm_stop_token_id = 36\<rparr>"

definition no_agent :: agent where
  "no_agent = \<lparr>ag_format_tools = (\<lambda>_ _ _. Inl ValueError), ag_format_tool_responses = (\<lambda>_ _. Inl ValueError),
     ag_format_tool_calls = (\<lambda>_. Inl ValueError)\<rparr>"

definition sample_template :: "truncation \<Rightarrow> nat \<Rightarrow> template" where
  "sample_template side limit =
     \<lparr>tp_meta = bracket_meta, tp_tok = char_tokenizer,
      tp_loss = \<lparr>ls_strategy = ''default'', ls_binary = True, ls_get = base_get\<rparr>,
      tp_agent = no_agent, tp_mode = Train, tp_task = Causal_lm, tp_max_length = Some limit, tp_truncation = side,
      tp_use_chat_template = True, tp_swift_backend = True, tp_response_prefix = [], tp_enable_thinking = False,
      tp_add_non_thinking_prefix = True, tp_encoder_decoder = False, tp_placeholder_tokens = [], tp_image_placeholder = [],
      tp_video_placeholder = [], tp_audio_placeholder = [], tp_cot_placeholder = CText [], tp_norm1000 = True,
      tp_dummy = False\<rparr>"

definition sample_inputs :: std_inputs where
  "sample_inputs =
     \<lparr>si_messages = [msg ''user'' (COne (CText ''q'')), msg ''assistant'' (COne (CText ''ab''))],
      si_system = None, si_tools = [], si_images = [], si_videos = 0, si_audios = 0, si_refs = [], si_has_objects = False,
      si_bboxes = None, si_bbox_norm1 = False, si_image_ids = [], si_ref_idx = 0, si_bbox_idx = 0, si_add_eos = None,
      si_thinking_budget = None\<rparr>"

definition no_render :: renderer where
  "no_render = (\<lambda>_ _ _ _ _. Inl ValueError)"

lemma sample_row:
  "encode_row (\<lambda>_. []) no_render (sample_template Trunc_split 4) sample_inputs
    = Inr \<lparr>rw_ids = [91, 113, 93, 97, 98, 36], rw_labels = Some [-100, -100, -100, 97, 98, 36], rw_scale = None, rw_length = 0\<rparr>"
  by code_simp

lemma encoded_rows_aligned_witness:
  "let r = \<lparr>rw_ids = [93, 97, 98, 36], rw_labels = Some [-100, 97, 98, 36], rw_scale = None, rw_length = 4\<rparr>
   in encode_truncated (\<lambda>_. None) False (\<lambda>_. []) no_render (sample_template Trunc_left 4) sample_inputs = Some (Inr (Single r))
      \<and> row_ok r \<and> first_ignored r \<and> rw_length r = length (rw_ids r) \<and> length (rw_ids r) \<le> 4"
proof -
  let ?r = "\<lparr>rw_ids = [93, 97, 98, 36], rw_labels = Some [-100, 97, 98, 36], rw_scale = None, rw_length = 4\<rparr>"
  have e: "encode_truncated (\<lambda>_. None) False (\<lambda>_. []) no_render (sample_template Trunc_left 4) sample_inputs
      = Some (Inr (Single ?r))" by code_simp
  from encoded_rows_aligned [OF e, of ?r] e show ?thesis by simp
qed

lemma split_row_reassembles_witness:
  "\<exists>ps. limit_row (sample_template Trunc_split 4)
      \<lparr>rw_ids = [91, 113, 93, 97, 98, 36], rw_labels = Some [-100, -100, -100, 97, 98, 36], rw_scale = None, rw_length = 0\<rparr>
      = Some (Inr (Pieces ps)) \<and> concat (map rw_ids ps) = [91, 113, 93, 97, 98, 36]"
proof -
  let ?r = "\<lparr>rw_ids = [91, 113, 93, 97, 98, 36], rw_labels = Some [-100, -100, -100, 97, 98, 36], rw_scale = None, rw_length = 0\<rparr>"
  let ?ps = "[\<lparr>rw_ids = [91, 113, 93, 97], rw_labels = Some [-100, -100, -100, 97], rw_scale = None, rw_length = 4\<rparr>,
     \<lparr>rw_ids = [98, 36], rw_labels = Some [-100, 36], rw_scale = None, rw_length = 2\<rparr>]"
  have l: "limit_row (sample_template Trunc_split 4) ?r = Some (Inr (Pieces ?ps))" by code_simp
  from split_row_reassembles [OF sample_row l] l show ?thesis by auto
qed

text \<open>Two rounds with a separator that is the suffix: the separator behind the first answer is learned.\<close>

definition chat_template :: template where
  "chat_template = (sample_template Trunc_raise 20)\<lparr>tp_meta := bracket_meta\<lparr>tm_chat_sep := Some [Word ''$'']\<rparr>\<rparr>"

definition two_rounds :: std_inputs where
  "two_rounds = sample_inputs\<lparr>si_messages := [msg ''user'' (COne (CText ''q'')), msg ''assistant'' (COne (CText ''ab'')),
     msg ''user'' (COne (CText ''r'')), msg ''assistant'' (COne (CText ''c''))]\<rparr>"

definition chat_row :: row where
  "chat_row =
     \<lparr>rw_ids = [91, 113, 93, 97, 98, 36, 91, 114, 93, 99, 36],
      rw_labels = Some [-100, -100, -100, 97, 98, 36, -100, -100, -100, 99, 36], rw_scale = None, rw_length = 0\<rparr>"

lemma only_answers_learned_witness:
  "\<exists>out parts labels scale suffix. titems out = concat parts
    \<and> list_all2 marked_ctx
        [(CText ''[q]'', Other), (CText ''ab'', Response), (CText ''$'', Other), (CText ''[r]'', Other),
         (CText ''c'', Response), (CText ''$'', Suffix)] parts
    \<and> encode_context_list chat_template out = (rw_ids chat_row, labels, scale) \<and> suffix_tokens chat_template = Inr suffix
    \<and> rw_labels chat_row = Some (map (\<lambda>p. if p = 0 then -100 else if behind_answer suffix (rw_ids chat_row) labels p
          then rw_ids chat_row ! p else labels ! p) [0 ..< length (rw_ids chat_row)])"
proof (rule only_answers_learned)
  show "encode_row (\<lambda>_. []) no_render chat_template two_rounds = Inr chat_row"
    "swift_prepare_inputs chat_template (si_messages two_rounds) = Inr (si_messages two_rounds)"
    "swift_contexts chat_template (two_rounds\<lparr>si_messages := si_messages two_rounds\<rparr>)
      = Inr ([(CText ''[q]'', Other), (CText ''ab'', Response), (CText ''$'', Other), (CText ''[r]'', Other),
         (CText ''c'', Response), (CText ''$'', Suffix)], si_messages two_rounds, 2)"
    "list_all msg_wf (si_messages two_rounds)" "list_all (\<lambda>x. 0 \<le> x) (rw_ids chat_row)"
    by code_simp+
  show "get_loss_scale ''default'' = Inr (tp_loss chat_template)"
    by (simp add: get_loss_scale_def make_loss_scale_def all_base_strategy_def chat_template_def sample_template_def)
  show "ls_strategy (tp_loss chat_template) \<noteq> ''all''" "uses_swift chat_template" "is_training (tp_mode chat_template)"
    "\<not> tp_encoder_decoder chat_template" "plain chat_template two_rounds"
    by (simp_all add: chat_template_def sample_template_def uses_swift_def is_training_def plain_def is_multimodal_def two_rounds_def sample_inputs_def)
qed

subsection \<open>Two behaviours worth knowing\<close>

text \<open>
  The \<open>agentflan\<close> scale looks for its keys in the question, and a suffix has none: every text
  suffix that is trained raises.
\<close>

lemma agentflan_rejects_text_suffix:
  assumes "get_loss_scale ''agentflan'' = Inr ls"
  shows "weigh_next ls ms i (CText s, Suffix) = Inl TypeError"
proof -
  have "ls = \<lparr>ls_strategy = ''default'', ls_binary = False,
      ls_get = config_get agentflan_response_map (Some agentflan_query_map)\<rparr>"
    using assms by (simp add: get_loss_scale_def make_loss_scale_def all_base_strategy_def)
  then show ?thesis
    by (simp add: weigh_next_def weigh_context_def is_trained_def config_get_def calculate_loss_scale_def
        agentflan_query_map_def)
qed

text \<open>A prefix that holds the system text loses its token lists when there is no system text.\<close>

lemma prefix_without_system_drops_tokens:
  assumes "tm_prefix m = [Toks [Attr ''bos_token_id''], Word ''{{SYSTEM}}'']" and "tm_system_prefix m = None"
    and "post_init m = Inr full"
  shows "tm_prefix full = [Word []] \<and> tm_system_prefix full = Some (tm_prefix m)"
proof -
  have "has_system [Toks [Attr ''bos_token_id''], Word ''{{SYSTEM}}'']"
    "replace_system [Toks [Attr ''bos_token_id''], Word ''{{SYSTEM}}''] = [Word []]" by code_simp+
  then show ?thesis
    using assms by (auto simp: post_init_def Let_def res_bind_eq_Inr_iff template_meta.defs full_meta.defs)
qed

end
