(* ===== verification/Packing.thy ===== *)
theory Packing
  imports Contexts
begin

text \<open>
  How encoded samples reach the trainer: packing of short samples into rows
  (\<open>swift/dataset/packing.py\<close>), the sharding of indices over the ranks and the dispatching
  loader (\<open>swift/dataloader\<close>).  The bin packing library and the random permutation are
  arguments; worker processes are interleaved streams of messages.
\<close>

subsection \<open>Bins\<close>

type_synonym item = "nat \<times> nat"

type_synonym 'a packer = "('a \<times> nat) list \<Rightarrow> nat \<Rightarrow> ('a \<times> nat) list list"

definition volume :: "('a \<times> nat) list \<Rightarrow> nat" where
  "volume xs = sum_list (map snd xs)"

text \<open>
  What \<open>binpacking.to_constant_volume\<close> documents: every item is in one bin, no bin is empty, and
  a bin exceeds the volume only when it holds a single item that does.
\<close>

definition packs_well :: "'a packer \<Rightarrow> bool" where
  "packs_well pack \<longleftrightarrow> (\<forall>xs v. mset (concat (pack xs v)) = mset xs \<and>
     (\<forall>b \<in> set (pack xs v). b \<noteq> [] \<and> (volume b \<le> v \<or> length b = 1)))"

text \<open>The bins to emit, and the items that wait for the next batch.\<close>

definition calculate_matched_group ::
  "'a packer \<Rightarrow> ('a \<times> nat) list \<Rightarrow> nat \<Rightarrow> bool \<Rightarrow> ('a \<times> nat) list list \<times> ('a \<times> nat) list" where
  "calculate_matched_group pack sequences packing_length is_finished =
     (if sequences = [] then ([], [])
      else
        let bins = pack sequences packing_length
        in if bins \<noteq> [] \<and> \<not> is_finished then (butlast bins, last bins) else (bins, []))"

subsection \<open>The packing dataset\<close>

text \<open>A worker's message: its rank, the bins of a batch, and the batch length, or the end.\<close>

datatype pack_msg = Packed nat "item list list" nat | Done nat

fun msg_rank :: "pack_msg \<Rightarrow> nat" where
  "msg_rank (Packed r bins n) = r"
| "msg_rank (Done r) = r"

definition index_lengths :: "nat \<Rightarrow> nat list list \<Rightarrow> item list" where
  "index_lengths start lens = map (\<lambda>(i, l). (i + start, sum_list l)) (zip [0 ..< length lens] lens)"

text \<open>
  The loop of \<open>create_packed_idx\<close> on what is left of the data and the items carried over; an
  iteration that sees no new data finishes the carried items.
\<close>

function packed_loop :: "nat packer \<Rightarrow> nat \<Rightarrow> nat \<Rightarrow> nat \<Rightarrow> item list \<Rightarrow> item list \<Rightarrow> pack_msg list" where
  "packed_loop pack batch packing_length rank rest input =
     (let new_data = take (Suc batch) rest; input1 = input @ new_data in
      if input1 = [] then [Done rank]
      else
        let rest1 = drop (Suc batch) rest;
            (bins, input2) = calculate_matched_group pack input1 packing_length (rest1 = [])
        in Packed rank bins (length new_data) # packed_loop pack batch packing_length rank rest1 input2)"
  by pat_completeness auto
termination
proof (relation "measure (\<lambda>(pack, batch, len, rank, rest, input). 2 * length rest + (if input = [] then 0 else 1))")
  fix pack :: "nat packer" and batch packing_length rank rest input new_data input1 rest1 x bins input2
  assume h: "new_data = take (Suc batch) rest" "input1 = input @ new_data" "input1 \<noteq> []" "rest1 = drop (Suc batch) rest"
    "x = calculate_matched_group pack input1 packing_length (rest1 = [])" "(bins, input2) = x"
  have "rest1 = [] \<Longrightarrow> input2 = []"
    using h(5,6) by (auto simp: calculate_matched_group_def Let_def split: if_splits)
  then show "((pack, batch, packing_length, rank, rest1, input2), (pack, batch, packing_length, rank, rest, input))
    \<in> measure (\<lambda>(pack, batch, len, rank, rest, input). 2 * length rest + (if input = [] then 0 else 1))"
    using h(1-4) by (cases rest) (auto split: if_splits)
qed simp

declare packed_loop.simps [simp del]

definition packing_batch_size :: nat where
  "packing_batch_size = 1000"

text \<open>\<open>Suc batch\<close> is the batch size of the loop.\<close>

definition create_packed_idx :: "nat packer \<Rightarrow> nat \<Rightarrow> nat \<Rightarrow> nat \<Rightarrow> nat list list \<Rightarrow> pack_msg list" where
  "create_packed_idx pack packing_length rank start lens =
     packed_loop pack (packing_batch_size - 1) packing_length rank (index_lengths start lens) []"

text \<open>
  \<open>split_list\<close> cuts at the points of numpy's \<open>linspace(0, n, shards + 1)\<close> as integers, an argument of
  the model.  Documented is that they rise from 0 to \<open>n\<close>, both ends included.
\<close>

type_synonym spacing = "nat \<Rightarrow> nat \<Rightarrow> nat list"

definition spaces_well :: "spacing \<Rightarrow> bool" where
  "spaces_well linspace \<longleftrightarrow>
     (\<forall>n k. length (linspace n (Suc k)) = Suc k \<and> sorted (linspace n (Suc k)) \<and> hd (linspace n (Suc k)) = 0
        \<and> (k > 0 \<longrightarrow> last (linspace n (Suc k)) = n))"

fun cut_at :: "'a list \<Rightarrow> nat list \<Rightarrow> 'a list list" where
  "cut_at xs (a # b # cuts) = take (b - a) (drop a xs) # cut_at xs (b # cuts)"
| "cut_at xs cuts = []"

definition split_list :: "spacing \<Rightarrow> 'a list \<Rightarrow> nat \<Rightarrow> 'a list list" where
  "split_list linspace xs shards = cut_at xs (linspace (length xs) (shards + 1))"

text \<open>The messages of all workers; the start of a worker is the number of samples before it.\<close>

definition worker_start :: "nat list list list \<Rightarrow> nat \<Rightarrow> nat" where
  "worker_start shards r = sum_list (map length (take r shards))"

definition worker_messages :: "nat packer \<Rightarrow> nat \<Rightarrow> nat list list list \<Rightarrow> nat \<Rightarrow> pack_msg list" where
  "worker_messages pack packing_length shards r =
     create_packed_idx pack packing_length r (worker_start shards r) (shards ! r)"

text \<open>
  The master reads messages until every worker is done, and keeps the bins per rank; \<open>None\<close> is a
  read that blocks for ever.
\<close>

type_synonym bins_of = "nat \<Rightarrow> (nat list \<times> nat) list"

definition bin_row :: "item list \<Rightarrow> nat list \<times> nat" where
  "bin_row b = (map fst b, volume b)"

fun collect :: "nat \<Rightarrow> pack_msg list \<Rightarrow> bins_of \<Rightarrow> bins_of option" where
  "collect 0 ms acc = Some acc"
| "collect (Suc n) [] acc = None"
| "collect (Suc n) (Done r # ms) acc = collect n ms acc"
| "collect (Suc n) (Packed r bins k # ms) acc = collect (Suc n) ms (acc(r := acc r @ map bin_row bins))"

definition packing_dataset :: "nat \<Rightarrow> pack_msg list \<Rightarrow> (nat list list \<times> nat list) option" where
  "packing_dataset workers stream =
     map_option (\<lambda>acc. let rows = concat (map acc [0 ..< workers]) in (map fst rows, map snd rows))
       (collect workers stream (\<lambda>_. []))"

definition num_workers :: "nat \<Rightarrow> nat \<Rightarrow> nat" where
  "num_workers packing_num_proc n =
     min packing_num_proc ((n + packing_batch_size - 1) div packing_batch_size)"

subsection \<open>Packing a stream\<close>

text \<open>
  The results of the encoding processes arrive in any order, each with its position; a failed
  encoding is an empty dictionary.
\<close>

definition fetch_data_out_queue :: "('a \<times> nat) list \<Rightarrow> nat \<Rightarrow> (nat \<times> 'a option) list \<Rightarrow> ('a \<Rightarrow> nat) \<Rightarrow> ('a \<times> nat) list" where
  "fetch_data_out_queue last_res num_samples results len =
     (let slots = foldl (\<lambda>res (i, d). case d of None \<Rightarrow> res | Some x \<Rightarrow> res[i := Some (x, len x)])
                    (replicate num_samples None) results
      in last_res @ map the (filter (\<lambda>s. s \<noteq> None) slots))"

text \<open>
  \<open>__iter__\<close> over what is left of the iterator; \<open>encode k xs\<close> is what the queue returns for the
  \<open>k\<close>-th interval.  An interval of 0 never binds the counter.
\<close>

function iter_rows ::
  "'b packer \<Rightarrow> nat \<Rightarrow> nat \<Rightarrow> (nat \<Rightarrow> 'a list \<Rightarrow> (nat \<times> 'b option) list) \<Rightarrow> ('b \<Rightarrow> nat) \<Rightarrow> nat \<Rightarrow> 'a list
     \<Rightarrow> ('b \<times> nat) list \<Rightarrow> 'b list list res" where
  "iter_rows pack packing_length interval encode len k rest data =
     (if interval = 0 then Inl NameError
      else
        let new = take interval rest; finished = (length new \<noteq> interval);
            data1 = fetch_data_out_queue data (length new) (encode k new) len;
            (sequences, data2) = calculate_matched_group pack data1 packing_length finished;
            res = map (map fst) sequences
        in if finished then Inr res
           else res_bind (iter_rows pack packing_length interval encode len (Suc k) (drop interval rest) data2)
                  (\<lambda>more_rows. Inr (res @ more_rows)))"
  by pat_completeness auto
termination
  by (relation "measure (\<lambda>(pack, pl, interval, encode, len, k, rest, data). length rest)") (auto split: if_splits)

declare iter_rows.simps [simp del]

text \<open>An empty data set ends before the loop.  Endless repetition (\<open>cyclic\<close>) is not modelled.\<close>

definition packing_iter ::
  "'b packer \<Rightarrow> nat \<Rightarrow> nat \<Rightarrow> (nat \<Rightarrow> 'a list \<Rightarrow> (nat \<times> 'b option) list) \<Rightarrow> ('b \<Rightarrow> nat) \<Rightarrow> 'a list
     \<Rightarrow> 'b list list res" where
  "packing_iter pack packing_length interval encode len dataset =
     (if dataset = [] then Inr [] else iter_rows pack packing_length interval encode len 0 dataset [])"

subsection \<open>Shards\<close>

text \<open>\<open>xs[start::step]\<close>.\<close>

definition every :: "nat \<Rightarrow> nat \<Rightarrow> 'a list \<Rightarrow> 'a list" where
  "every start step xs = map ((!) xs) (filter (\<lambda>i. start \<le> i \<and> (i - start) mod step = 0) [0 ..< length xs])"

record sharder =
  sh_world :: nat
  sh_total :: nat
  sh_batch :: nat
  sh_shuffle :: bool
  sh_drop_last :: bool
  sh_base_seed :: nat
  sh_curr_seed :: nat
  sh_group :: bool
  sh_lengths :: "nat list option"

text \<open>A row of several sequences counts with its longest; the seed \<open>None\<close> is 0.\<close>

definition make_sharder ::
  "nat \<Rightarrow> nat \<Rightarrow> nat \<Rightarrow> bool \<Rightarrow> bool \<Rightarrow> nat option \<Rightarrow> bool \<Rightarrow> nat list list option \<Rightarrow> sharder res" where
  "make_sharder world samples batch shuffle drop_last seed by_length lens =
     (if world = 0 then Inl ZeroDivisionError
      else if by_length \<and> \<not> shuffle then Inl ValueError
      else if (case lens of Some ls \<Rightarrow> [] \<in> set ls | None \<Rightarrow> False) then Inl ValueError
      else
        let s = (case seed of None \<Rightarrow> 0 | Some x \<Rightarrow> x)
        in Inr \<lparr>sh_world = world, sh_total = samples div world, sh_batch = batch, sh_shuffle = shuffle,
                sh_drop_last = drop_last, sh_base_seed = s, sh_curr_seed = s, sh_group = by_length,
                sh_lengths = map_option (map (foldl max 0)) lens\<rparr>)"

definition set_epoch :: "nat \<Rightarrow> sharder \<Rightarrow> sharder" where
  "set_epoch epoch sh = sh\<lparr>sh_curr_seed := sh_base_seed sh + epoch\<rparr>"

text \<open>
  \<open>randperm seed n\<close> and \<open>grouped seed lengths k\<close> are the orders that torch and transformers draw.
\<close>

type_synonym permuter = "nat \<Rightarrow> nat \<Rightarrow> nat list"

type_synonym grouper = "nat \<Rightarrow> nat list option \<Rightarrow> nat \<Rightarrow> nat list"

definition total_idx :: "permuter \<Rightarrow> grouper \<Rightarrow> sharder \<Rightarrow> nat list" where
  "total_idx randperm grouped sh =
     (if sh_shuffle sh then
        (if sh_group sh then grouped (sh_curr_seed sh) (sh_lengths sh) (sh_batch sh * sh_world sh)
         else randperm (sh_curr_seed sh) (sh_total sh * sh_world sh))
      else [0 ..< sh_total sh * sh_world sh])"

text \<open>The batches of a list of indices: full ones, and the rest unless it is dropped.\<close>

fun batches_from :: "nat \<Rightarrow> bool \<Rightarrow> 'a list \<Rightarrow> 'a list \<Rightarrow> 'a list list" where
  "batches_from n drop_last batch [] = (if \<not> drop_last \<and> batch \<noteq> [] then [batch] else [])"
| "batches_from n drop_last batch (x # xs) =
     (if length (batch @ [x]) = n then (batch @ [x]) # batches_from n drop_last [] xs
      else batches_from n drop_last (batch @ [x]) xs)"

definition shard_batches ::
  "permuter \<Rightarrow> grouper \<Rightarrow> sharder \<Rightarrow> nat \<Rightarrow> nat list list" where
  "shard_batches randperm grouped sh rank =
     batches_from (sh_batch sh) (sh_drop_last sh) [] (every rank (sh_world sh) (total_idx randperm grouped sh))"

definition shard_len :: "sharder \<Rightarrow> nat res" where
  "shard_len sh =
     (if sh_batch sh = 0 then Inl ZeroDivisionError
      else if sh_drop_last sh then Inr (sh_total sh div sh_batch sh)
      else Inr ((sh_total sh + sh_batch sh - 1) div sh_batch sh))"

subsection \<open>Dispatching\<close>

text \<open>
  Rank 0 draws one item per rank and scatters them; when the data ends inside a group, every rank
  gets nothing and stops.  Too few items to skip end the generator with an error.
\<close>

function dispatch_groups :: "nat \<Rightarrow> 'a list \<Rightarrow> 'a list list" where
  "dispatch_groups world xs =
     (if world = 0 \<or> length xs < world then [] else take world xs # dispatch_groups world (drop world xs))"
  by pat_completeness auto
termination
  by (relation "measure (\<lambda>(world, xs). length xs)") auto

declare dispatch_groups.simps [simp del]

text \<open>The groups that rank 0 scatters, or its error; rank \<open>r\<close> yields the \<open>r\<close>-th item of each.\<close>

definition dispatch :: "nat \<Rightarrow> nat \<Rightarrow> 'a list \<Rightarrow> 'a list list res" where
  "dispatch world skip_batches xs =
     (if length xs < skip_batches * world then Inl RuntimeError
      else Inr (dispatch_groups world (drop (skip_batches * world) xs)))"

definition dispatched :: "'a list list \<Rightarrow> nat \<Rightarrow> 'a list" where
  "dispatched groups rank = map (\<lambda>g. g ! rank) groups"

end
