(* ===== verification/PackingLaws.thy ===== *)
theory PackingLaws
  imports Packing
begin

subsection \<open>Every sample is packed once\<close>

definition good_bin :: "nat \<Rightarrow> ('a \<times> nat) list \<Rightarrow> bool" where
  "good_bin v b \<longleftrightarrow> b \<noteq> [] \<and> (volume b \<le> v \<or> length b = 1)"

lemma packs_wellD:
  "packs_well pack \<Longrightarrow> mset (concat (pack xs v)) = mset xs"
  "packs_well pack \<Longrightarrow> list_all (good_bin v) (pack xs v)"
  by (auto simp: packs_well_def good_bin_def list_all_iff)

lemma matched_group_laws:
  assumes "packs_well pack" and "calculate_matched_group pack xs v fin = (bins, rest)"
  shows "mset (concat bins) + mset rest = mset xs" and "list_all (good_bin v) bins" and "fin \<Longrightarrow> rest = []"
proof -
  have p: "mset (concat (pack xs v)) = mset xs" "list_all (good_bin v) (pack xs v)"
    using packs_wellD [OF assms(1)] by blast+
  have "mset (concat (butlast bs)) + mset (last bs) = mset (concat bs)" if "bs \<noteq> []" for bs :: "('a \<times> nat) list list"
    using that by (induction bs) auto
  then show "mset (concat bins) + mset rest = mset xs"
    using assms(2) p(1) by (auto simp: calculate_matched_group_def Let_def split: if_splits)
  show "list_all (good_bin v) bins"
    using assms(2) p(2) by (auto simp: calculate_matched_group_def Let_def list_all_iff split: if_splits dest: in_set_butlastD)
  show "fin \<Longrightarrow> rest = []"
    using assms(2) by (auto simp: calculate_matched_group_def Let_def split: if_splits)
qed

fun msg_bins :: "pack_msg \<Rightarrow> item list list" where
  "msg_bins (Packed r bins n) = bins"
| "msg_bins (Done r) = []"

fun is_done :: "pack_msg \<Rightarrow> bool" where
  "is_done (Done r) = True"
| "is_done (Packed r bins n) = False"

definition bins_in :: "pack_msg list \<Rightarrow> item list list" where
  "bins_in ms = concat (map msg_bins ms)"

text \<open>What one worker sends: good bins with each of its items in one of them, then the end.\<close>

definition worker_output :: "nat \<Rightarrow> nat \<Rightarrow> item list \<Rightarrow> pack_msg list \<Rightarrow> bool" where
  "worker_output v rank xs ms \<longleftrightarrow>
     (\<exists>init. ms = init @ [Done rank] \<and> list_all (\<lambda>m. \<not> is_done m \<and> msg_rank m = rank) init)
     \<and> mset (concat (bins_in ms)) = mset xs \<and> list_all (good_bin v) (bins_in ms)"

lemma worker_output_Cons:
  assumes "worker_output v rank xs ms" and "list_all (good_bin v) bins" and "mset (concat bins) + mset xs = mset ys"
  shows "worker_output v rank ys (Packed rank bins n # ms)"
proof -
  obtain init where i: "ms = init @ [Done rank]" "list_all (\<lambda>m. \<not> is_done m \<and> msg_rank m = rank) init"
    using assms(1) by (auto simp: worker_output_def)
  then have "Packed rank bins n # ms = (Packed rank bins n # init) @ [Done rank]"
    "list_all (\<lambda>m. \<not> is_done m \<and> msg_rank m = rank) (Packed rank bins n # init)" by auto
  then have "\<exists>init. Packed rank bins n # ms = init @ [Done rank] \<and> list_all (\<lambda>m. \<not> is_done m \<and> msg_rank m = rank) init"
    by blast
  moreover have "bins_in (Packed rank bins n # ms) = bins @ bins_in ms"
    by (simp add: bins_in_def)
  ultimately show ?thesis
    using assms unfolding worker_output_def by simp
qed

lemma packed_loop_output:
  assumes "packs_well pack"
  shows "worker_output v rank (input @ rest) (packed_loop pack batch v rank rest input)"
proof (induction "2 * length rest + (if input = [] then 0 else 1)" arbitrary: rest input rule: less_induct)
  case (less rest input)
  let ?new = "take (Suc batch) rest" and ?rest = "drop (Suc batch) rest"
  show ?case
  proof (cases "input @ ?new = []")
    case True
    then have "packed_loop pack batch v rank rest input = [Done rank]"
      by (simp add: packed_loop.simps)
    then show ?thesis
      using True by (simp add: worker_output_def bins_in_def)
  next
    case False
    obtain bins input2 where g: "calculate_matched_group pack (input @ ?new) v (?rest = []) = (bins, input2)"
      by (meson surj_pair)
    note laws = matched_group_laws [OF assms g]
    have eq: "packed_loop pack batch v rank rest input =
        Packed rank bins (length ?new) # packed_loop pack batch v rank ?rest input2"
      using False g by (simp add: packed_loop.simps [of _ _ _ _ rest] Let_def)
    have "2 * length ?rest + (if input2 = [] then 0 else 1) < 2 * length rest + (if input = [] then 0 else 1)"
    proof (cases "rest = []")
      case True
      then show ?thesis using False laws(3) by simp
    next
      case False
      then have "length ?rest < length rest" by simp
      then have "2 * length ?rest + 1 < 2 * length rest" by linarith
      then show ?thesis by auto
    qed
    from less [OF this] have ih: "worker_output v rank (input2 @ ?rest) (packed_loop pack batch v rank ?rest input2)" .
    have "mset rest = mset ?new + mset ?rest"
      by (metis append_take_drop_id mset_append)
    then have m: "mset (concat bins) + mset (input2 @ ?rest) = mset (input @ rest)"
      using laws(1) by (simp add: union_assoc [symmetric])
    show ?thesis
      unfolding eq using worker_output_Cons [OF ih laws(2) m] .
  qed
qed


subsection \<open>The master's rows do not depend on the order of the messages\<close>

definition from_rank :: "nat \<Rightarrow> pack_msg list \<Rightarrow> pack_msg list" where
  "from_rank r ms = filter (\<lambda>m. msg_rank m = r) ms"

lemma from_rank_Cons [simp]:
  "from_rank r [] = []"
  "from_rank r (m # ms) = (if msg_rank m = r then m # from_rank r ms else from_rank r ms)"
  by (simp_all add: from_rank_def)

definition finishes :: "nat \<Rightarrow> pack_msg list \<Rightarrow> bool" where
  "finishes r ms \<longleftrightarrow> ms = [] \<or> (\<exists>init. ms = init @ [Done r] \<and> list_all (\<lambda>m. \<not> is_done m) init)"

lemma finishes_Cons:
  "finishes r (Done q # ms) \<Longrightarrow> ms = []"
  "finishes r (Packed q bins k # ms) \<Longrightarrow> ms \<noteq> [] \<and> finishes r ms"
  by (auto simp: finishes_def Cons_eq_append_conv)

lemma finishes_has_done: "finishes r ms \<Longrightarrow> ms \<noteq> [] \<Longrightarrow> \<exists>m \<in> set ms. is_done m"
  by (auto simp: finishes_def)

lemma collect_in_order:
  assumes "\<forall>r. finishes r (from_rank r ms)"
  shows "collect (length (filter is_done ms)) ms acc
           = Some (\<lambda>r. acc r @ map bin_row (bins_in (from_rank r ms)))"
  using assms
proof (induction ms arbitrary: acc)
  case Nil
  then show ?case by (simp add: bins_in_def)
next
  case (Cons m ms)
  have rest: "finishes r (from_rank r ms)" for r
    using Cons.prems [rule_format, of r] by (cases m) (auto split: if_splits dest: finishes_Cons simp: finishes_def [of _ "[]"])
  show ?case
  proof (cases m)
    case (Done q)
    with Cons.IH [of acc] rest show ?thesis
      by (auto simp: bins_in_def)
  next
    case (Packed q bins k)
    have "\<exists>x \<in> set (from_rank q ms). is_done x"
      using Cons.prems [rule_format, of q] Packed by (auto dest: finishes_Cons intro: finishes_has_done)
    then have "length (filter is_done ms) \<noteq> 0"
      by (auto simp: from_rank_def filter_empty_conv)
    then obtain n where n: "length (filter is_done ms) = Suc n"
      using not0_implies_Suc by blast
    show ?thesis
      using Cons.IH [of "acc(q := acc q @ map bin_row bins)"] rest Packed n
      by (auto simp: bins_in_def fun_eq_iff fun_upd_def)
  qed
qed

lemma count_by_rank:
  assumes "list_all (\<lambda>m. msg_rank m < w) ms"
  shows "length (filter P ms) = (\<Sum>r<w. length (filter P (from_rank r ms)))"
  using assms
proof (induction ms)
  case (Cons m ms)
  have "(\<Sum>r<w. length (filter P (from_rank r (m # ms))))
      = (\<Sum>r<w. length (filter P (from_rank r ms)) + (if r = msg_rank m then (if P m then 1 else 0) else 0))"
    by (rule sum.cong) auto
  also have "\<dots> = (\<Sum>r<w. length (filter P (from_rank r ms))) + (if P m then 1 else 0)"
    using Cons.prems by (simp add: sum.distrib)
  finally show ?case
    using Cons by simp
qed simp

text \<open>The queue hands out the messages of every worker in order, and nothing else.\<close>

definition interleaves :: "nat \<Rightarrow> (nat \<Rightarrow> pack_msg list) \<Rightarrow> pack_msg list \<Rightarrow> bool" where
  "interleaves w out stream \<longleftrightarrow>
     list_all (\<lambda>m. msg_rank m < w) stream \<and> list_all (\<lambda>r. from_rank r stream = out r) [0 ..< w]"

definition packed_rows :: "nat packer \<Rightarrow> nat \<Rightarrow> nat list list list \<Rightarrow> (nat list \<times> nat) list" where
  "packed_rows pack v shards =
     concat (map (\<lambda>r. map bin_row (bins_in (worker_messages pack v shards r))) [0 ..< length shards])"

lemma worker_messages_output:
  "packs_well pack \<Longrightarrow>
   worker_output v r (index_lengths (worker_start shards r) (shards ! r)) (worker_messages pack v shards r)"
  using packed_loop_output [of pack v r "[]" "index_lengths (worker_start shards r) (shards ! r)"]
  by (simp add: worker_messages_def create_packed_idx_def)

lemma worker_output_finishes:
  "worker_output v r xs ms \<Longrightarrow> finishes r ms \<and> length (filter is_done ms) = 1"
  by (auto simp: worker_output_def finishes_def list_all_iff filter_empty_conv)

lemma packing_dataset_rows:
  assumes "packs_well pack" and "interleaves (length shards) (worker_messages pack v shards) stream"
  shows "packing_dataset (length shards) stream
           = Some (map fst (packed_rows pack v shards), map snd (packed_rows pack v shards))"
proof -
  let ?w = "length shards"
  have ranks: "list_all (\<lambda>m. msg_rank m < ?w) stream"
    and out: "\<And>r. r < ?w \<Longrightarrow> from_rank r stream = worker_messages pack v shards r"
    using assms(2) by (auto simp: interleaves_def list_all_iff)
  have one: "finishes r (from_rank r stream) \<and> length (filter is_done (from_rank r stream)) = 1" if "r < ?w" for r
    using out [OF that] worker_output_finishes [OF worker_messages_output [OF assms(1)]] by simp
  have "from_rank r stream = []" if "\<not> r < ?w" for r
    using ranks that by (auto simp: from_rank_def filter_empty_conv list_all_iff)
  then have "finishes r (from_rank r stream)" for r
    using one [of r] by (cases "r < ?w") (auto simp: finishes_def [of _ "[]"])
  moreover have "length (filter is_done stream) = ?w"
    using count_by_rank [OF ranks, of is_done] one by simp
  ultimately have "collect ?w stream (\<lambda>_. []) = Some (\<lambda>r. map bin_row (bins_in (from_rank r stream)))"
    using collect_in_order [of stream "\<lambda>_. []"] by simp
  moreover have "concat (map (\<lambda>r. map bin_row (bins_in (from_rank r stream))) [0 ..< ?w]) = packed_rows pack v shards"
    unfolding packed_rows_def by (rule arg_cong [of _ _ concat]) (simp add: out)
  ultimately show ?thesis
    by (simp add: packing_dataset_def Let_def)
qed


subsection \<open>The rows hold every sample once\<close>

lemma cut_at_length [simp]: "length (cut_at xs cuts) = length cuts - 1"
  by (induction xs cuts rule: cut_at.induct) auto

lemma cut_at_covers:
  "sorted (a # cuts) \<Longrightarrow> concat (cut_at xs (a # cuts)) = take (last (a # cuts) - a) (drop a xs)"
proof (induction cuts arbitrary: a)
  case (Cons b cuts)
  then have "a \<le> b" "b \<le> last (b # cuts)"
    by (auto simp: last_in_set)
  then have sum: "last (a # b # cuts) - a = (b - a) + (last (b # cuts) - b)" and d: "drop (b - a) (drop a xs) = drop b xs"
    by simp_all
  have "concat (cut_at xs (b # cuts)) = take (last (b # cuts) - b) (drop b xs)"
    using Cons by simp
  then show ?case
    unfolding sum take_add d by simp
qed simp

lemma split_list_covers:
  assumes "spaces_well linspace" and "shards > 0 \<or> xs = []"
  shows "concat (split_list linspace xs shards) = xs" and "length (split_list linspace xs shards) = shards"
proof -
  let ?cuts = "linspace (length xs) (Suc shards)"
  have s: "length ?cuts = Suc shards" "sorted ?cuts" "hd ?cuts = 0" "shards > 0 \<Longrightarrow> last ?cuts = length xs"
    using assms(1) by (auto simp: spaces_well_def)
  then obtain cuts where c: "?cuts = 0 # cuts"
    by (metis list.exhaust_sel list.size(3) nat.simps(3))
  show "length (split_list linspace xs shards) = shards"
    using s(1) by (simp add: split_list_def)
  show "concat (split_list linspace xs shards) = xs"
    using cut_at_covers [of 0 cuts xs] s assms(2) unfolding split_list_def c by (auto simp: c)
qed

definition indexed_lengths :: "nat list list \<Rightarrow> item list" where
  "indexed_lengths lens = zip [0 ..< length lens] (map sum_list lens)"

lemma index_lengths_zip: "index_lengths start lens = zip [start ..< start + length lens] (map sum_list lens)"
  by (rule nth_equalityI) (auto simp: index_lengths_def)

lemma indexed_lengths_append:
  "indexed_lengths (ys @ x) = indexed_lengths ys @ index_lengths (length ys) x"
proof -
  have "[0 ..< length (ys @ x)] = [0 ..< length ys] @ [length ys ..< length ys + length x]"
    using upt_add_eq_append [of 0 "length ys" "length x"] by simp
  then show ?thesis
    unfolding indexed_lengths_def index_lengths_zip map_append by (simp add: zip_append)
qed

lemma workers_cover_data:
  "concat (map (\<lambda>r. index_lengths (worker_start shards r) (shards ! r)) [0 ..< length shards])
     = indexed_lengths (concat shards)"
proof (induction shards rule: rev_induct)
  case (snoc x xs)
  have m: "map (\<lambda>r. index_lengths (worker_start (xs @ [x]) r) ((xs @ [x]) ! r)) [0 ..< length xs]
      = map (\<lambda>r. index_lengths (worker_start xs r) (xs ! r)) [0 ..< length xs]"
    by (simp add: worker_start_def nth_append)
  have "concat (map (\<lambda>r. index_lengths (worker_start (xs @ [x]) r) ((xs @ [x]) ! r)) [0 ..< length xs])
      = indexed_lengths (concat xs)"
    unfolding m by (rule snoc)
  moreover have "worker_start (xs @ [x]) (length xs) = length (concat xs)"
    by (simp add: worker_start_def length_concat)
  moreover have "indexed_lengths (concat xs @ x) = indexed_lengths (concat xs) @ index_lengths (length (concat xs)) x"
    by (rule indexed_lengths_append)
  ultimately show ?case
    by simp
qed (simp add: indexed_lengths_def)

lemma mset_concat_cong:
  "(\<And>r. r \<in> set rs \<Longrightarrow> mset (f r) = mset (g r)) \<Longrightarrow> mset (concat (map f rs)) = mset (concat (map g rs))"
  by (induction rs) auto

lemma concat_map_concat: "concat (concat xss) = concat (map concat xss)"
  by (induction xss) auto

lemma worker_bins:
  assumes "packs_well pack"
  shows "mset (concat (bins_in (worker_messages pack v shards r)))
           = mset (index_lengths (worker_start shards r) (shards ! r))"
    and "list_all (good_bin v) (bins_in (worker_messages pack v shards r))"
  using worker_messages_output [OF assms, of v r shards] by (simp_all add: worker_output_def)

lemma packed_bins:
  assumes "packs_well pack"
  obtains bins where "packed_rows pack v shards = map bin_row bins"
    and "mset (concat bins) = mset (indexed_lengths (concat shards))" and "list_all (good_bin v) bins"
proof
  let ?bins = "\<lambda>r. bins_in (worker_messages pack v shards r)"
  let ?all = "concat (map ?bins [0 ..< length shards])"
  show "packed_rows pack v shards = map bin_row ?all"
    by (simp add: packed_rows_def map_concat comp_def)
  show "list_all (good_bin v) ?all"
    using worker_bins(2) [OF assms, of v shards] by (auto simp: list_all_iff)
  have "mset (concat ?all) = mset (concat (map (\<lambda>r. concat (?bins r)) [0 ..< length shards]))"
    by (simp add: concat_map_concat comp_def)
  also have "\<dots> = mset (concat (map (\<lambda>r. index_lengths (worker_start shards r) (shards ! r)) [0 ..< length shards]))"
    by (rule mset_concat_cong) (simp add: worker_bins [OF assms])
  finally show "mset (concat ?all) = mset (indexed_lengths (concat shards))"
    by (simp add: workers_cover_data)
qed

definition packed_row_ok :: "nat \<Rightarrow> nat list list \<Rightarrow> nat list \<times> nat \<Rightarrow> bool" where
  "packed_row_ok v lens = (\<lambda>(ids, n). ids \<noteq> [] \<and> n = sum_list (map (\<lambda>i. sum_list (lens ! i)) ids) \<and> (n \<le> v \<or> length ids = 1))"

lemma bin_row_ok:
  assumes "good_bin v b" and "set b \<subseteq> set (indexed_lengths lens)"
  shows "packed_row_ok v lens (bin_row b)"
proof -
  have "snd x = sum_list (lens ! fst x)" if "x \<in> set b" for x
    using subsetD [OF assms(2) that] by (auto simp: indexed_lengths_def in_set_zip)
  then have "map snd b = map (\<lambda>x. sum_list (lens ! fst x)) b"
    by simp
  then have "sum_list (map snd b) = sum_list (map (\<lambda>x. sum_list (lens ! fst x)) b)"
    by (rule arg_cong)
  with assms(1) show ?thesis
    by (simp add: packed_row_ok_def bin_row_def good_bin_def volume_def comp_def)
qed

lemma packed_rows_ok:
  assumes "packs_well pack"
  shows "mset (concat (map fst (packed_rows pack v shards))) = mset [0 ..< length (concat shards)]"
    and "list_all (packed_row_ok v (concat shards)) (packed_rows pack v shards)"
proof -
  obtain bins where b: "packed_rows pack v shards = map bin_row bins"
      "mset (concat bins) = mset (indexed_lengths (concat shards))" "list_all (good_bin v) bins"
    using packed_bins [OF assms] by blast
  have "concat (map fst (packed_rows pack v shards)) = map fst (concat bins)"
    by (simp add: b(1) bin_row_def map_concat comp_def)
  then have "mset (concat (map fst (packed_rows pack v shards))) = image_mset fst (mset (concat bins))"
    by simp
  also have "\<dots> = mset [0 ..< length (concat shards)]"
    unfolding b(2) by (simp add: indexed_lengths_def flip: mset_map)
  finally show "mset (concat (map fst (packed_rows pack v shards))) = mset [0 ..< length (concat shards)]" .
  have "set b \<subseteq> set (indexed_lengths (concat shards))" if "b \<in> set bins" for b
    using that mset_eq_setD [OF b(2)] by auto
  with b(3) show "list_all (packed_row_ok v (concat shards)) (packed_rows pack v shards)"
    by (auto simp: b(1) list_all_iff intro: bin_row_ok)
qed


subsection \<open>The shards of an epoch\<close>

lemma every_residue:
  assumes "r < w"
  shows "every r w xs = map ((!) xs) (filter (\<lambda>i. i mod w = r) [0 ..< length xs])"
proof -
  have "(r \<le> i \<and> (i - r) mod w = 0) = (i mod w = r)" for i
  proof
    assume "r \<le> i \<and> (i - r) mod w = 0"
    then obtain k where "i - r = w * k" "r \<le> i" by (auto dest: mod_0_imp_dvd)
    then have "i = r + w * k" by simp
    then show "i mod w = r" using assms by simp
  next
    assume "i mod w = r"
    then show "r \<le> i \<and> (i - r) mod w = 0"
      using mod_less_eq_dividend [of i w] by (metis minus_mod_eq_mult_div mod_mult_self1_is_0)
  qed
  then show ?thesis
    by (simp add: every_def)
qed

lemma residues_partition:
  assumes "0 < (w :: nat)"
  shows "mset (concat (map (\<lambda>r. filter (\<lambda>i. i mod w = r) is) [0 ..< w])) = mset is"
proof (induction "is")
  case (Cons i "is")
  have "mset (concat (map (\<lambda>r. filter (\<lambda>i. i mod w = r) (i # is)) [0 ..< n]))
      = (if i mod w < n then {#i#} else {#}) + mset (concat (map (\<lambda>r. filter (\<lambda>i. i mod w = r) is) [0 ..< n]))" for n
    by (induction n) auto
  from this [of w] Cons assms show ?case
    by simp
qed (induction w, simp_all)

lemma shards_of_list:
  assumes "0 < w"
  shows "mset (concat (map (\<lambda>r. every r w xs) [0 ..< w])) = mset xs"
proof -
  have "map (\<lambda>r. every r w xs) [0 ..< w] = map (map ((!) xs)) (map (\<lambda>r. filter (\<lambda>i. i mod w = r) [0 ..< length xs]) [0 ..< w])"
    by (simp add: every_residue)
  then have "mset (concat (map (\<lambda>r. every r w xs) [0 ..< w]))
      = image_mset ((!) xs) (mset (concat (map (\<lambda>r. filter (\<lambda>i. i mod w = r) [0 ..< length xs]) [0 ..< w])))"
    by (simp only: map_concat [symmetric] mset_map)
  also have "\<dots> = mset (map ((!) xs) [0 ..< length xs])"
    unfolding residues_partition [OF assms] by simp
  finally show ?thesis
    by (simp add: map_nth)
qed

lemma residue_block:
  assumes "r < (w :: nat)"
  shows "length (filter (\<lambda>i. i mod w = r) [0 ..< t * w]) = t"
proof (induction t)
  case (Suc t)
  have "(i mod w = r) = (i = t * w + r)" if "t * w \<le> i" "i < t * w + w" for i
  proof -
    obtain k where "i = t * w + k" "k < w"
      using \<open>t * w \<le> i\<close> \<open>i < t * w + w\<close> by (metis add_less_cancel_left le_Suc_ex)
    then show ?thesis by simp
  qed
  then have "filter (\<lambda>i. i mod w = r) [t * w ..< t * w + w] = filter (\<lambda>i. i = t * w + r) [t * w ..< t * w + w]"
    by (intro filter_cong) auto
  moreover have "length (filter (\<lambda>i. i = t * w + r) [t * w ..< t * w + w]) = 1"
    using assms distinct_length_filter [of "[t * w ..< t * w + w]" "\<lambda>i. i = t * w + r"]
    by (simp add: Collect_conj_eq [symmetric] card_1_singleton_iff)
  moreover have "[0 ..< Suc t * w] = [0 ..< t * w] @ [t * w ..< t * w + w]"
    using upt_add_eq_append [of 0 "t * w" w] by (simp add: add.commute)
  ultimately show ?case
    using Suc by simp
qed simp

lemma shard_size:
  assumes "r < w" and "length xs = t * w"
  shows "length (every r w xs) = t"
  using assms by (simp add: every_residue residue_block)

lemma batches_from_concat:
  "concat (batches_from n False batch xs) = batch @ xs"
  by (induction n False batch xs rule: batches_from.induct) auto

lemma batches_from_length:
  assumes "length batch < n"
  shows "length (batches_from n drop_last batch xs) =
    (if drop_last then (length batch + length xs) div n else (length batch + length xs + n - 1) div n)"
  using assms
proof (induction n drop_last batch xs rule: batches_from.induct)
  case (1 n drop_last batch)
  have "(length batch + n - 1) div n = (if batch = [] then 0 else 1)"
  proof (cases batch)
    case Nil
    then show ?thesis using 1 by simp
  next
    case (Cons b bs)
    then have "(length batch + n - 1) div n = (length bs + n) div n" by simp
    also have "\<dots> = 1" using 1 Cons by (simp add: div_add_self2)
    finally show ?thesis using Cons by simp
  qed
  with 1 show ?case by simp
next
  case (2 n drop_last batch x xs)
  show ?case
  proof (cases "length (batch @ [x]) = n")
    case True
    then have n: "length batch + length (x # xs) = n + length xs" and "0 < n" by auto
    then have d: "(n + a) div n = Suc (a div n)" for a
      using div_add_self1 [of n a] by simp
    have "n + length xs + n - 1 = n + (length xs + n - 1)"
      using \<open>0 < n\<close> by simp
    then have d2: "(n + length xs + n - 1) div n = Suc ((length xs + n - 1) div n)"
      by (simp only: d)
    have "length (batches_from n drop_last batch (x # xs)) = Suc (length (batches_from n drop_last [] xs))"
      using True by simp
    with 2(1) True \<open>0 < n\<close> show ?thesis
      unfolding n d d2 by simp
  next
    case False
    with 2 show ?thesis by simp
  qed
qed


definition permutes_well :: "permuter \<Rightarrow> bool" where
  "permutes_well randperm \<longleftrightarrow> (\<forall>s n. mset (randperm s n) = mset [0 ..< n])"

lemma shard_batches_laws:
  assumes "permutes_well randperm" and "\<not> sh_group sh" and "0 < sh_world sh" and "0 < sh_batch sh"
  shows "r < sh_world sh \<Longrightarrow> shard_len sh = Inr (length (shard_batches randperm grouped sh r))"
    and "\<not> sh_drop_last sh \<Longrightarrow>
      mset (concat (concat (map (shard_batches randperm grouped sh) [0 ..< sh_world sh]))) = mset [0 ..< sh_total sh * sh_world sh]"
proof -
  let ?xs = "total_idx randperm grouped sh"
  have m: "mset ?xs = mset [0 ..< sh_total sh * sh_world sh]"
    using assms(1,2) by (simp add: total_idx_def permutes_well_def)
  then have n: "length ?xs = sh_total sh * sh_world sh"
    using mset_eq_length by fastforce
  show "shard_len sh = Inr (length (shard_batches randperm grouped sh r))" if "r < sh_world sh"
    using assms(4) shard_size [OF that n] by (simp add: shard_len_def shard_batches_def batches_from_length)
  show "mset (concat (concat (map (shard_batches randperm grouped sh) [0 ..< sh_world sh]))) = mset [0 ..< sh_total sh * sh_world sh]"
    if "\<not> sh_drop_last sh"
  proof -
    have "concat (shard_batches randperm grouped sh r) = every r (sh_world sh) ?xs" for r
      using that batches_from_concat [of "sh_batch sh" "[]"] by (simp add: shard_batches_def)
    then have "concat (concat (map (shard_batches randperm grouped sh) [0 ..< sh_world sh]))
        = concat (map (\<lambda>r. every r (sh_world sh) ?xs) [0 ..< sh_world sh])"
      by (simp add: concat_map_concat comp_def)
    then show ?thesis
      using shards_of_list [OF assms(3), of ?xs] m by simp
  qed
qed

text \<open>
  C37. An epoch of the sharded sampler: with batches of at least one sample and no grouping by
  length, every rank yields as many batches as \<open>__len__\<close> says, and, when incomplete batches are
  kept, the batches of all ranks together hold every index below the largest multiple of the world
  size exactly once, in every epoch.
\<close>

theorem shards_partition_epoch:
  assumes "permutes_well randperm"
    and "make_sharder world samples batch shuffle drop_last seed False lens = Inr sh"
    and "0 < batch"
  shows "list_all (\<lambda>r. shard_len (set_epoch e sh) = Inr (length (shard_batches randperm grouped (set_epoch e sh) r))) [0 ..< world]
    \<and> (drop_last \<or>
      mset (concat (concat (map (shard_batches randperm grouped (set_epoch e sh)) [0 ..< world]))) = mset [0 ..< samples div world * world])"
proof -
  let ?sh = "set_epoch e sh"
  have f: "sh_world ?sh = world" "sh_total ?sh = samples div world" "sh_drop_last ?sh = drop_last" "\<not> sh_group ?sh"
      "0 < sh_world ?sh" "0 < sh_batch ?sh"
    using assms(2,3) by (auto simp: make_sharder_def set_epoch_def Let_def split: if_splits)
  show ?thesis
    using shard_batches_laws [OF assms(1) f(4-6), where grouped = grouped]
    by (cases drop_last) (simp_all add: f list_all_iff)
qed

definition rev_perm :: permuter where
  "rev_perm s n = rev [0 ..< n]"

theorem shards_partition_epoch_witness:
  "list_all (\<lambda>r. length (shard_batches rev_perm (\<lambda>s l k. []) (set_epoch 3 \<lparr>sh_world = 2, sh_total = 3, sh_batch = 2,
       sh_shuffle = True, sh_drop_last = False, sh_base_seed = 0, sh_curr_seed = 0, sh_group = False, sh_lengths = None\<rparr>) r) = 2) [0 ..< 2]
   \<and> mset (concat [[5, 3], [1], [4, 2], [0]]) = mset [0 ..< 6 :: nat]"
proof -
  let ?sh = "\<lparr>sh_world = 2, sh_total = 3, sh_batch = 2, sh_shuffle = True, sh_drop_last = False, sh_base_seed = 0,
    sh_curr_seed = 0, sh_group = False, sh_lengths = None\<rparr>"
  have "permutes_well rev_perm"
    by (simp add: permutes_well_def rev_perm_def)
  moreover have "make_sharder 2 7 2 True False None False None = Inr ?sh"
    by (simp add: make_sharder_def)
  moreover have "shard_len (set_epoch 3 ?sh) = Inr 2"
    by (simp add: shard_len_def set_epoch_def)
  moreover have "concat (map (shard_batches rev_perm (\<lambda>s l k. []) (set_epoch 3 ?sh)) [0 ..< 2]) = [[5, 3], [1], [4, 2], [0]]"
    by code_simp
  ultimately show ?thesis
    using shards_partition_epoch [of rev_perm 2 7 2 True False None None ?sh 3 "\<lambda>s l k. []"] by simp
qed

text \<open>
  Grouping by length orders all the samples, not the multiple of the world size: the ranks then
  yield different numbers of batches, and not what \<open>__len__\<close> says.
\<close>

lemma five_indices: "[0 ..< length [a, b, c, d, e]] = [0, 1, 2, 3, 4]"
  by (simp add: upt_rec)

lemma grouped_shards_differ:
  assumes "\<And>s l k. mset (grouped s (Some l) k) = mset [0 ..< length l]"
    and "make_sharder 2 5 1 True False None True (Some [[3], [1], [4], [1], [5]]) = Inr sh"
  shows "length (shard_batches randperm grouped sh 0) = 3" and "length (shard_batches randperm grouped sh 1) = 2"
    and "shard_len sh = Inr 2"
proof -
  have sh: "sh = \<lparr>sh_world = 2, sh_total = 2, sh_batch = 1, sh_shuffle = True, sh_drop_last = False, sh_base_seed = 0,
      sh_curr_seed = 0, sh_group = True, sh_lengths = Some [3, 1, 4, 1, 5]\<rparr>"
    using assms(2) by (simp add: make_sharder_def)
  have "length (grouped 0 (Some [3, 1, 4, 1, 5]) 2) = 5"
    using assms(1) [of 0 "[3, 1, 4, 1, 5]" 2] mset_eq_length by fastforce
  then obtain a b c d e where g: "grouped 0 (Some [3, 1, 4, 1, 5]) 2 = [a, b, c, d, e]"
    by (auto simp: length_Suc_conv numeral_eq_Suc)
  have "every 0 2 [a, b, c, d, e] = [a, c, e]" "every 1 2 [a, b, c, d, e] = [b, d]"
    by (simp_all add: every_def five_indices)
  moreover have "total_idx randperm grouped sh = [a, b, c, d, e]"
    unfolding g [symmetric] by (simp add: sh total_idx_def)
  moreover have "sh_batch sh = 1" "sh_world sh = 2" "\<not> sh_drop_last sh"
    by (simp_all add: sh)
  ultimately show "length (shard_batches randperm grouped sh 0) = 3" "length (shard_batches randperm grouped sh 1) = 2"
    by (simp_all add: shard_batches_def)
  show "shard_len sh = Inr 2"
    by (simp add: sh shard_len_def)
qed

text \<open>
  C23. Packing loses and repeats nothing: whatever the interleaving of the workers' messages, the
  master ends, its rows do not depend on that interleaving, every sample is in exactly one row, and
  every row carries the sum of its samples' lengths, within the packing length unless it holds a
  single sample.
\<close>

theorem packing_covers_samples:
  assumes "packs_well pack" and "spaces_well linspace"
    and "0 < nproc" and "w = num_workers nproc (length lens)"
    and "interleaves w (worker_messages pack v (split_list linspace lens w)) stream"
  shows "packing_dataset w stream = Some (map fst (packed_rows pack v (split_list linspace lens w)),
           map snd (packed_rows pack v (split_list linspace lens w)))
    \<and> mset (concat (map fst (packed_rows pack v (split_list linspace lens w)))) = mset [0 ..< length lens]
    \<and> list_all (packed_row_ok v lens) (packed_rows pack v (split_list linspace lens w))"
proof -
  have "w > 0 \<or> lens = []"
    using assms(3) by (cases lens) (auto simp: assms(4) num_workers_def packing_batch_size_def)
  note s = split_list_covers [OF assms(2) this]
  show ?thesis
    using packing_dataset_rows [OF assms(1), of "split_list linspace lens w" v stream] assms(5)
      packed_rows_ok [OF assms(1), of v "split_list linspace lens w"]
    by (simp add: s)
qed

text \<open>A packer that fills one bin after the other, and exact spacing.\<close>

fun next_fit_from :: "('a \<times> nat) list \<Rightarrow> ('a \<times> nat) list \<Rightarrow> nat \<Rightarrow> ('a \<times> nat) list list" where
  "next_fit_from b [] v = (if b = [] then [] else [b])"
| "next_fit_from b (x # xs) v =
     (if b = [] \<or> volume (b @ [x]) \<le> v then next_fit_from (b @ [x]) xs v else b # next_fit_from [x] xs v)"

definition next_fit :: "'a packer" where
  "next_fit xs v = next_fit_from [] xs v"

lemma next_fit_from_good:
  "b = [] \<or> good_bin v b \<Longrightarrow> mset (concat (next_fit_from b xs v)) = mset (b @ xs) \<and> list_all (good_bin v) (next_fit_from b xs v)"
  by (induction b xs v rule: next_fit_from.induct) (auto simp: good_bin_def)

lemma next_fit_packs_well: "packs_well next_fit"
  using next_fit_from_good [of "[]"] by (auto simp: packs_well_def next_fit_def good_bin_def list_all_iff)

definition even_spacing :: spacing where
  "even_spacing n k = map (\<lambda>i. i * n div (k - 1)) [0 ..< k]"

lemma even_spacing_spaces_well: "spaces_well even_spacing"
proof -
  have "sorted (even_spacing n (Suc k))" for n k
    by (auto simp: even_spacing_def sorted_iff_nth_mono div_le_mono simp del: upt_Suc)
  moreover have "hd (even_spacing n (Suc k)) = 0" for n k
    by (simp add: even_spacing_def hd_map upt_conv_Cons del: upt_Suc)
  moreover have "last (even_spacing n (Suc k)) = n" if "k > 0" for n k
    using that by (simp add: even_spacing_def)
  ultimately show ?thesis
    by (simp add: spaces_well_def) (simp add: even_spacing_def)
qed

theorem packing_covers_samples_witness:
  "packing_dataset 1 (worker_messages next_fit 5 [[[3], [2, 2], [7], [1]]] 0) = Some ([[0], [1], [2], [3]], [3, 4, 7, 1])
   \<and> mset (concat [[0], [1], [2], [3]]) = mset [0 ..< 4 :: nat]"
proof -
  have s: "split_list even_spacing [[3], [2, 2], [7], [1]] 1 = [[[3], [2, 2], [7], [1 :: nat]]]"
    by code_simp
  have "packed_rows next_fit 5 [[[3], [2, 2], [7], [1]]] = [([0], 3), ([1], 4), ([2], 7), ([3], 1)]"
    by code_simp
  moreover have "interleaves 1 (worker_messages next_fit 5 [[[3], [2, 2], [7], [1]]]) (worker_messages next_fit 5 [[[3], [2, 2], [7], [1]]] 0)"
    by code_simp
  moreover have "num_workers 1 (length [[3], [2, 2], [7], [1 :: nat]]) = 1"
    by code_simp
  moreover have "mset [0 ..< 4 :: nat] = mset [0, 1, 2, 3]"
    by code_simp
  ultimately show ?thesis
    using packing_covers_samples [OF next_fit_packs_well even_spacing_spaces_well, of 1 1 "[[3], [2, 2], [7], [1]]" 5
        "worker_messages next_fit 5 [[[3], [2, 2], [7], [1]]] 0", unfolded s]
    by simp
qed

end
