(* ===== verification/TextBench.thy ===== *)
theory TextBench
  imports SelParse PyPath GeoMath
begin

text \<open>
  The stand-alone tools beside the selector: the benchmark that asks models for the coordinates of
  a text address (\<open>data_clean/text_latlon_benchmark.py\<close>) and the comparison of the selections of
  several runs (\<open>data_clean/compare_selection_overlap.py\<close>).  Model profiles and the parsing of
  an answer are the selector's own (\<open>SelParse.thy\<close>); the inference engine is an argument.
\<close>

subsection \<open>Address items\<close>

record address_item =
  ai_item_id :: nat
  ai_solution :: string
  ai_address :: string
  ai_latitude :: real
  ai_longitude :: real
  ai_metadata :: pydict

definition spaces_re :: rx where
  "spaces_re = rx_plus blank"

definition extract_solution_text :: "string \<Rightarrow> string" where
  "extract_solution_text solution =
     (let txt = (case re_search answer_re solution of Some gs \<Rightarrow> group 1 gs | None \<Rightarrow> solution)
      in strip (re_sub spaces_re (\<lambda>_. '' '') txt))"

definition address_sep_re :: rx where
  "address_sep_re = Cls (\<lambda>c. c = CHR '';'' \<or> c = CHR '','')"

definition normalize_address :: "string \<Rightarrow> string" where
  "normalize_address solution =
     join '', '' (filter (\<lambda>p. p \<noteq> []) (map strip (re_split address_sep_re (extract_solution_text solution))))"

text \<open>A solution that is no text stops the run in \<open>re.search\<close>.\<close>

definition address_of :: "nat \<Rightarrow> pydict \<Rightarrow> pyval \<Rightarrow> pyval \<Rightarrow> address_item res" where
  "address_of idx row lat lon =
     (case dget_or row ''solution'' (PStr []) of
        PStr s \<Rightarrow>
          res_bind (float_res lat) (\<lambda>la. res_bind (float_res lon) (\<lambda>lo.
            Inr \<lparr>ai_item_id = idx, ai_solution = s, ai_address = normalize_address s, ai_latitude = la,
                 ai_longitude = lo,
                 ai_metadata = filter (\<lambda>p. fst p \<notin> set [''solution'', ''lat'', ''lng'', ''lon'', ''longitude'']) row\<rparr>))
      | _ \<Rightarrow> Inl TypeError)"

definition row_lon :: "pydict \<Rightarrow> pyval" where
  "row_lon row = dget_or row ''lng'' (dget_or row ''lon'' (pget row ''longitude''))"

text \<open>The limit is looked at after an item is kept, so a limit of 0 keeps one item.\<close>

fun load_items :: "nat \<Rightarrow> nat option \<Rightarrow> pyval list \<Rightarrow> address_item list \<Rightarrow> address_item list res" where
  "load_items idx max_samples [] items = Inr items"
| "load_items idx max_samples (row # rows) items =
     (case row of
        PDict d \<Rightarrow>
          (if pget d ''lat'' = PNone \<or> row_lon d = PNone then load_items (Suc idx) max_samples rows items
           else res_bind (address_of idx d (pget d ''lat'') (row_lon d)) (\<lambda>item.
             let items' = items @ [item] in
             if (case max_samples of Some k \<Rightarrow> k \<le> length items' | None \<Rightarrow> False) then Inr items'
             else load_items (Suc idx) max_samples rows items'))
      | _ \<Rightarrow> Inl AttributeError)"

definition load_items_file :: "nat option \<Rightarrow> string \<Rightarrow> address_item list res" where
  "load_items_file max_samples content =
     (case json_loads content of
        Some (PList rows) \<Rightarrow> load_items 0 max_samples rows []
      | _ \<Rightarrow> Inl ValueError)"

subsection \<open>Running a model\<close>

type_synonym request = "(string \<times> string) list"

definition bench_request :: "string \<Rightarrow> address_item \<Rightarrow> request" where
  "bench_request system_prompt item =
     [(''system'', system_prompt), (''user'', ''Address: '' @ ai_address item)]"

definition bench_requests :: "address_item list \<Rightarrow> string \<Rightarrow> request list" where
  "bench_requests items system_prompt = map (bench_request system_prompt) items"

text \<open>The engine answers a request with a text or with an exception, whose text is kept.\<close>

datatype response = Answer string | Failed string

fun raw_of :: "response \<Rightarrow> string" where
  "raw_of (Answer s) = s"
| "raw_of (Failed e) = e"

record prediction =
  pr_item_id :: nat
  pr_model_name :: string
  pr_address :: string
  pr_gt_latitude :: real
  pr_gt_longitude :: real
  pr_raw_output :: string
  pr_latitude :: "real option"
  pr_longitude :: "real option"
  pr_distance :: "real option"
  pr_parsed :: bool

definition prediction_of :: "string \<Rightarrow> address_item \<times> response \<Rightarrow> prediction res" where
  "prediction_of model_name x =
     (let (item, response) = x; raw = raw_of response; (lat, lon) = extract_latlon raw in
      res_bind
        (case (lat, lon) of
           (Some la, Some lo) \<Rightarrow>
             res_bind (geodesic_km la lo (ai_latitude item) (ai_longitude item)) (\<lambda>km. Inr (Some km))
         | _ \<Rightarrow> Inr None)
        (\<lambda>distance. Inr
           \<lparr>pr_item_id = ai_item_id item, pr_model_name = sanitize_name model_name, pr_address = ai_address item,
            pr_gt_latitude = ai_latitude item, pr_gt_longitude = ai_longitude item, pr_raw_output = raw,
            pr_latitude = lat, pr_longitude = lon, pr_distance = distance,
            pr_parsed = (lat \<noteq> None \<and> lon \<noteq> None)\<rparr>))"

text \<open>A batch size of 0 is no step of a range.\<close>

definition bench_batches ::
  "(request list \<Rightarrow> response list) \<Rightarrow> nat \<Rightarrow> string \<Rightarrow> string \<Rightarrow> address_item list \<Rightarrow> prediction list res" where
  "bench_batches infer batch_size model_name system_prompt items =
     (if batch_size = 0 then Inl ValueError
      else res_bind (map_res (\<lambda>(batch_items, batch_payloads).
             map_res (prediction_of model_name) (zip batch_items (infer batch_payloads)))
             (zip (chunks batch_size items) (chunks batch_size (bench_requests items system_prompt))))
           (\<lambda>batches. Inr (concat batches)))"

record distance_summary =
  ds_mean :: "real option"
  ds_median :: "real option"
  ds_p90 :: "real option"

definition p90_index :: "nat \<Rightarrow> nat" where
  "p90_index n = min (n - 1) (9 * n div 10 - 1)"

definition summarize_distances :: "real list \<Rightarrow> distance_summary" where
  "summarize_distances distances =
     (if distances = [] then \<lparr>ds_mean = None, ds_median = None, ds_p90 = None\<rparr>
      else
        let ordered = sort distances
        in \<lparr>ds_mean = Some (mean ordered), ds_median = Some (median ordered),
            ds_p90 = Some (ordered ! p90_index (length ordered))\<rparr>)"

record bench_summary =
  bs_model_name :: string
  bs_num_samples :: nat
  bs_num_parsed :: nat
  bs_parse_rate :: real
  bs_distances :: distance_summary

definition bench_summary_of :: "string \<Rightarrow> prediction list \<Rightarrow> bench_summary" where
  "bench_summary_of model_name results =
     (let parsed = length (filter pr_parsed results) in
      \<lparr>bs_model_name = sanitize_name model_name, bs_num_samples = length results, bs_num_parsed = parsed,
       bs_parse_rate = (if results = [] then 0 else real parsed / real (length results)),
       bs_distances = summarize_distances (List.map_filter pr_distance results)\<rparr>)"

definition bench_model ::
  "(request list \<Rightarrow> response list) \<Rightarrow> nat \<Rightarrow> string \<Rightarrow> string \<Rightarrow> address_item list
     \<Rightarrow> (prediction list \<times> bench_summary) res" where
  "bench_model infer batch_size model_name system_prompt items =
     res_bind (bench_batches infer batch_size model_name system_prompt items) (\<lambda>results.
       Inr (results, bench_summary_of model_name results))"

subsection \<open>The overlap of selections\<close>

fun selected_id :: "(pyval \<Rightarrow> string) \<Rightarrow> pyval \<Rightarrow> string list res" where
  "selected_id rp (PDict row) =
     (if truthy (pget row ''selected'') then res_bind (row_item row ''item_id'') (\<lambda>v. Inr [py_str rp v]) else Inr [])"
| "selected_id rp _ = Inl AttributeError"

definition read_selected_ids :: "(pyval \<Rightarrow> string) \<Rightarrow> string \<Rightarrow> string set res" where
  "read_selected_ids rp content =
     res_bind (jsonl_rows content) (\<lambda>rows. res_bind (map_res (selected_id rp) rows) (\<lambda>ids. Inr (set (concat ids))))"

record overlap_run =
  or_label :: string
  or_ids :: "string set"

record overlap_pair =
  op_left :: string
  op_right :: string
  op_count :: nat
  op_rate_left :: real
  op_rate_right :: real

definition overlap_rate :: "nat \<Rightarrow> nat \<Rightarrow> real" where
  "overlap_rate k n = (if n = 0 then 0 else real k / real n)"

definition overlap_pair_of :: "overlap_run \<times> overlap_run \<Rightarrow> overlap_pair" where
  "overlap_pair_of x =
     (let (left, right) = x; k = card (or_ids left \<inter> or_ids right) in
      \<lparr>op_left = or_label left, op_right = or_label right, op_count = k,
       op_rate_left = overlap_rate k (card (or_ids left)), op_rate_right = overlap_rate k (card (or_ids right))\<rparr>)"

text \<open>\<open>itertools.combinations(runs, 2)\<close>.\<close>

fun combinations2 :: "'a list \<Rightarrow> ('a \<times> 'a) list" where
  "combinations2 [] = []"
| "combinations2 (x # xs) = map (\<lambda>y. (x, y)) xs @ combinations2 xs"

record overlap_report =
  ov_sizes :: "(string \<times> nat) list"
  ov_pairs :: "overlap_pair list"
  ov_common :: nat
  ov_union :: nat

definition common_ids :: "overlap_run list \<Rightarrow> string set" where
  "common_ids runs = (case runs of [] \<Rightarrow> {} | r # rs \<Rightarrow> foldl (\<lambda>acc x. acc \<inter> or_ids x) (or_ids r) rs)"

definition union_ids :: "overlap_run list \<Rightarrow> string set" where
  "union_ids runs = foldl (\<lambda>acc x. acc \<union> or_ids x) {} runs"

definition overlap_report_of :: "overlap_run list \<Rightarrow> overlap_report" where
  "overlap_report_of runs =
     \<lparr>ov_sizes = map (\<lambda>r. (or_label r, card (or_ids r))) runs,
      ov_pairs = map overlap_pair_of (combinations2 runs),
      ov_common = card (common_ids runs), ov_union = card (union_ids runs)\<rparr>"


subsection \<open>Every item gets a prediction, and the summary counts them\<close>

definition prediction_for :: "string \<Rightarrow> address_item \<Rightarrow> prediction \<Rightarrow> bool" where
  "prediction_for model_name item p \<longleftrightarrow>
     pr_item_id p = ai_item_id item \<and> pr_address p = ai_address item
     \<and> (pr_latitude p, pr_longitude p) = extract_latlon (pr_raw_output p)
     \<and> pr_distance p = (case (pr_latitude p, pr_longitude p) of
          (Some la, Some lo) \<Rightarrow> Some (gc_dist la lo (ai_latitude item) (ai_longitude item)) | _ \<Rightarrow> None)
     \<and> pr_parsed p = (pr_distance p \<noteq> None)"

lemma prediction_of_item:
  obtains p where "prediction_of model_name (item, r) = Inr p" and "prediction_for model_name item p"
    and "pr_raw_output p = raw_of r"
proof -
  obtain a b where ab: "extract_latlon (raw_of r) = (a, b)"
    by fastforce
  show thesis
    using that ab
    by (cases a; cases b) (simp_all add: prediction_of_def prediction_for_def Let_def)
qed

lemma map_res_prediction:
  "length rs = length items \<Longrightarrow>
   \<exists>ps. map_res (prediction_of model_name) (zip items rs) = Inr ps \<and> list_all2 (prediction_for model_name) items ps"
proof (induction items arbitrary: rs)
  case (Cons item items)
  then obtain r rs' where rs: "rs = r # rs'" "length rs' = length items"
    by (cases rs) auto
  obtain p where "prediction_of model_name (item, r) = Inr p" "prediction_for model_name item p"
    using prediction_of_item by blast
  with Cons.IH [OF rs(2)] show ?case
    by (auto simp: rs(1))
qed simp

lemma batches_predicted:
  assumes "\<And>reqs. length (infer reqs) = length reqs"
  shows "\<exists>pss. map_res (\<lambda>(batch_items, batch_payloads). map_res (prediction_of model_name) (zip batch_items (infer batch_payloads)))
       (zip bs (map (map (bench_request sys)) bs)) = Inr pss \<and> list_all2 (list_all2 (prediction_for model_name)) bs pss"
proof (induction bs)
  case (Cons b bs)
  obtain ps where "map_res (prediction_of model_name) (zip b (infer (map (bench_request sys) b))) = Inr ps"
      "list_all2 (prediction_for model_name) b ps"
    using map_res_prediction [of "infer (map (bench_request sys) b)" b model_name] assms by auto
  with Cons show ?case
    by auto
qed simp

lemma list_all2_concat: "list_all2 (list_all2 P) xss yss \<Longrightarrow> list_all2 P (concat xss) (concat yss)"
  by (induction rule: list_all2_induct) (auto intro: list_all2_appendI)

lemma bench_batches_predict:
  assumes "\<And>reqs. length (infer reqs) = length reqs" and "0 < n"
  shows "\<exists>ps. bench_batches infer n model_name sys items = Inr ps \<and> list_all2 (prediction_for model_name) items ps"
proof -
  obtain pss where "map_res (\<lambda>(batch_items, batch_payloads). map_res (prediction_of model_name) (zip batch_items (infer batch_payloads)))
       (zip (chunks n items) (map (map (bench_request sys)) (chunks n items))) = Inr pss"
      and p: "list_all2 (list_all2 (prediction_for model_name)) (chunks n items) pss"
    using batches_predicted [OF assms(1)] by blast
  then have "bench_batches infer n model_name sys items = Inr (concat pss)"
    using assms(2) by (simp add: bench_batches_def bench_requests_def chunks_map)
  then show ?thesis
    using list_all2_concat [OF p] assms(2) by (simp add: concat_chunks)
qed

lemma p90_index_less: "0 < n \<Longrightarrow> p90_index n < n"
  by (auto simp: p90_index_def min_def)

definition opt_within :: "real \<Rightarrow> real \<Rightarrow> real option \<Rightarrow> bool" where
  "opt_within lo hi v \<longleftrightarrow> (case v of None \<Rightarrow> False | Some x \<Rightarrow> lo \<le> x \<and> x \<le> hi)"

lemma summarize_distances_within:
  assumes "ds \<noteq> []" and "\<And>d. d \<in> set ds \<Longrightarrow> lo \<le> d \<and> d \<le> hi"
  shows "opt_within lo hi (ds_mean (summarize_distances ds))" and "opt_within lo hi (ds_median (summarize_distances ds))"
    and "opt_within lo hi (ds_p90 (summarize_distances ds))"
proof -
  have s: "sort ds \<noteq> []" "\<forall>d \<in> set (sort ds). lo \<le> d \<and> d \<le> hi"
    using assms by (metis length_0_conv length_sort, simp)
  show "opt_within lo hi (ds_mean (summarize_distances ds))"
    using mean_bounds [OF s(2) s(1)] assms(1) by (simp add: summarize_distances_def Let_def opt_within_def)
  show "opt_within lo hi (ds_median (summarize_distances ds))"
    using median_in_range [OF s] assms(1) by (simp add: summarize_distances_def Let_def opt_within_def)
  have "sort ds ! p90_index (length ds) \<in> set (sort ds)"
    using assms(1) p90_index_less [of "length ds"] by (intro nth_mem) simp
  then show "opt_within lo hi (ds_p90 (summarize_distances ds))"
    using s(2) assms(1) by (auto simp: summarize_distances_def Let_def opt_within_def)
qed

lemma in_map_filter: "d \<in> set (List.map_filter f xs) \<longleftrightarrow> (\<exists>x \<in> set xs. f x = Some d)"
  by (induction xs) (auto simp: List.map_filter_simps split: option.splits)

lemma map_filter_is_filter: "length (List.map_filter f xs) = length (filter (\<lambda>x. f x \<noteq> None) xs)"
  by (induction xs) (auto simp: List.map_filter_simps split: option.splits)

text \<open>
  The text-address benchmark: with an engine that answers every request, a run of a positive
  batch size succeeds with one prediction per item, in order and independent of the batching; a
  distance is reported exactly for the answers that parse and is the great-circle distance to the
  item's own coordinates; the summary counts the items and the parsed ones, its rate lies between 0
  and 1, and as soon as one answer parses, mean, median and 90th percentile are there and lie
  between 0 and half the circumference of the earth.
\<close>

theorem text_benchmark_accounts:
  assumes "\<And>reqs. length (infer reqs) = length reqs" and "0 < batch_size"
  shows "\<exists>ps s. bench_model infer batch_size model_name sys items = Inr (ps, s)
    \<and> list_all2 (prediction_for model_name) items ps
    \<and> bs_num_samples s = length items
    \<and> bs_num_parsed s = length (filter (\<lambda>p. pr_distance p \<noteq> None) ps)
    \<and> 0 \<le> bs_parse_rate s \<and> bs_parse_rate s \<le> 1
    \<and> (if bs_num_parsed s = 0 then bs_distances s = \<lparr>ds_mean = None, ds_median = None, ds_p90 = None\<rparr>
       else list_all (opt_within 0 (6371 * pi))
         [ds_mean (bs_distances s), ds_median (bs_distances s), ds_p90 (bs_distances s)])"
proof -
  obtain ps where r: "bench_batches infer batch_size model_name sys items = Inr ps"
      and ps: "list_all2 (prediction_for model_name) items ps"
    using bench_batches_predict [OF assms] by blast
  let ?s = "bench_summary_of model_name ps" and ?ds = "List.map_filter pr_distance ps"
  have each: "\<exists>item. prediction_for model_name item p" if "p \<in> set ps" for p
    using ps that by (metis in_set_conv_nth list_all2_conv_all_nth)
  then have "filter pr_parsed ps = filter (\<lambda>p. pr_distance p \<noteq> None) ps"
    by (intro filter_cong) (auto simp: prediction_for_def)
  then have parsed: "bs_num_parsed ?s = length (filter (\<lambda>p. pr_distance p \<noteq> None) ps)"
    by (simp add: bench_summary_of_def Let_def)
  then have n: "bs_num_parsed ?s = length ?ds"
    by (simp add: map_filter_is_filter)
  have rate: "0 \<le> bs_parse_rate ?s" "bs_parse_rate ?s \<le> 1"
    by (simp_all add: bench_summary_of_def Let_def divide_le_eq_1)
  have "0 \<le> d \<and> d \<le> 6371 * pi" if d: "d \<in> set ?ds" for d
  proof -
    obtain p where p: "p \<in> set ps" "pr_distance p = Some d"
      using iffD1 [OF in_map_filter d] by blast
    with each [OF p(1)] show ?thesis
      by (auto simp: prediction_for_def gc_dist_le split: option.splits)
  qed
  then have "list_all (opt_within 0 (6371 * pi)) [ds_mean (bs_distances ?s), ds_median (bs_distances ?s), ds_p90 (bs_distances ?s)]"
    if "?ds \<noteq> []"
    using summarize_distances_within [OF that, of 0 "6371 * pi"] by (simp add: bench_summary_of_def Let_def)
  moreover have "bs_distances ?s = \<lparr>ds_mean = None, ds_median = None, ds_p90 = None\<rparr>" if "?ds = []"
    using that by (simp add: bench_summary_of_def Let_def summarize_distances_def)
  ultimately show ?thesis
    using r ps parsed n rate list_all2_lengthD [OF ps]
    by (intro exI [of _ ps] exI [of _ ?s]) (auto simp: bench_model_def bench_summary_of_def Let_def)
qed


text \<open>An engine that echoes the address, for an item at the origin.\<close>

definition origin_item :: address_item where
  "origin_item = \<lparr>ai_item_id = 7, ai_solution = [], ai_address = ''(0, 0)'', ai_latitude = 0, ai_longitude = 0, ai_metadata = []\<rparr>"

definition echo_engine :: "request list \<Rightarrow> response list" where
  "echo_engine reqs = map (\<lambda>r. Answer (concat (map snd r))) reqs"

theorem text_benchmark_accounts_witness:
  "\<exists>ps s. bench_model echo_engine 4 ''m'' ''x'' [origin_item, origin_item] = Inr (ps, s) \<and> bs_num_samples s = 2
    \<and> 0 \<le> bs_parse_rate s \<and> length ps = 2"
proof -
  have "length (echo_engine reqs) = length reqs" for reqs
    by (simp add: echo_engine_def)
  from text_benchmark_accounts [OF this, of 4 "''m''" "''x''" "[origin_item, origin_item]"] show ?thesis
    by (auto dest!: list_all2_lengthD)
qed

subsection \<open>Overlaps are counts\<close>

lemma combinations2_set: "(x, y) \<in> set (combinations2 xs) \<Longrightarrow> x \<in> set xs \<and> y \<in> set xs"
  by (induction xs) auto

lemma length_combinations2: "length (combinations2 xs) = length xs * (length xs - 1) div 2"
proof (induction xs)
  case (Cons x xs)
  have "n + n * (n - 1) div 2 = Suc n * n div 2" for n :: nat
    by (cases n) auto
  with Cons show ?case
    by simp
qed simp

lemma foldl_common: "foldl (\<lambda>acc x. acc \<inter> or_ids x) A rs = A \<inter> (\<Inter>x \<in> set rs. or_ids x)"
  by (induction rs arbitrary: A) auto

lemma common_ids_eq: "runs \<noteq> [] \<Longrightarrow> common_ids runs = (\<Inter>x \<in> set runs. or_ids x)"
  by (cases runs) (auto simp: common_ids_def foldl_common)

lemma foldl_union: "foldl (\<lambda>acc x. acc \<union> or_ids x) A rs = A \<union> (\<Union>x \<in> set rs. or_ids x)"
  by (induction rs arbitrary: A) auto

lemma union_ids_eq: "union_ids runs = (\<Union>x \<in> set runs. or_ids x)"
  by (simp add: union_ids_def foldl_union)

lemma overlap_rate_bounds: "k \<le> n \<Longrightarrow> 0 \<le> overlap_rate k n \<and> overlap_rate k n \<le> 1"
  by (simp add: overlap_rate_def)

text \<open>
  Every pair of the report: between the ids common to all runs and either selection, with rates in
  the unit interval; the ids of all runs are as many as the two selections less their overlap when
  there are only two.
\<close>

lemma overlap_pair_bounds:
  assumes "(l, r) \<in> set (combinations2 runs)" and "finite (or_ids l)" and "finite (or_ids r)"
  shows "ov_common (overlap_report_of runs) \<le> op_count (overlap_pair_of (l, r))"
    and "op_count (overlap_pair_of (l, r)) \<le> card (or_ids l)" and "op_count (overlap_pair_of (l, r)) \<le> card (or_ids r)"
    and "op_rate_left (overlap_pair_of (l, r)) \<le> 1" and "op_rate_right (overlap_pair_of (l, r)) \<le> 1"
proof -
  have lr: "l \<in> set runs" "r \<in> set runs" "runs \<noteq> []"
    using combinations2_set [OF assms(1)] by auto
  then have "common_ids runs \<subseteq> or_ids l \<inter> or_ids r"
    by (auto simp: common_ids_eq)
  then show "ov_common (overlap_report_of runs) \<le> op_count (overlap_pair_of (l, r))"
    using assms(2) by (simp add: overlap_report_of_def overlap_pair_of_def Let_def card_mono)
  show l: "op_count (overlap_pair_of (l, r)) \<le> card (or_ids l)" and r: "op_count (overlap_pair_of (l, r)) \<le> card (or_ids r)"
    using assms(2,3) by (simp_all add: overlap_pair_of_def Let_def card_mono)
  show "op_rate_left (overlap_pair_of (l, r)) \<le> 1" and "op_rate_right (overlap_pair_of (l, r)) \<le> 1"
    using overlap_rate_bounds [OF l] overlap_rate_bounds [OF r] by (simp_all add: overlap_pair_of_def Let_def)
qed

lemma overlap_two_runs:
  assumes "finite (or_ids l)" and "finite (or_ids r)"
  shows "ov_union (overlap_report_of [l, r]) + op_count (overlap_pair_of (l, r)) = card (or_ids l) + card (or_ids r)"
  using card_Un_Int [OF assms] by (simp add: overlap_report_of_def overlap_pair_of_def union_ids_eq Let_def)

text \<open>A limit of no samples keeps one.\<close>

lemma limit_zero_keeps_one:
  "load_items 0 (Some 0) [PDict [(''lat'', PInt 1), (''lng'', PInt 2)], PDict [(''lat'', PInt 3), (''lng'', PInt 4)]] []
     = res_bind (address_of 0 [(''lat'', PInt 1), (''lng'', PInt 2)] (PInt 1) (PInt 2)) (\<lambda>item. Inr [item])"
  by (simp add: row_lon_def dget_or_def)

end
