(* ===== verification/PyDumps.thy ===== *)
theory PyDumps
  imports PyJson
begin

text \<open>
  \<open>json.dumps\<close> on values: the texts it writes, with and without indentation and with and without
  escapes for characters outside ASCII, and the round trip through \<open>json.loads\<close>.  The text of a
  float is an argument.
\<close>

subsection \<open>Strings\<close>

definition hex_digit :: "nat \<Rightarrow> char" where
  "hex_digit n = (if n < 10 then char_of (48 + n) else char_of (87 + n))"

definition hex_escape :: "nat \<Rightarrow> string" where
  "hex_escape n =
     [CHR 0x5C, CHR ''u'', hex_digit (n div 4096 mod 16), hex_digit (n div 256 mod 16),
      hex_digit (n div 16 mod 16), hex_digit (n mod 16)]"

text \<open>The characters that are always escaped, and how.\<close>

definition escape_char :: "char \<Rightarrow> string" where
  "escape_char c =
     (if c = CHR 0x22 \<or> c = CHR 0x5C then [CHR 0x5C, c]
      else if c = CHR 0x0A then [CHR 0x5C, CHR ''n'']
      else if c = CHR 0x0D then [CHR 0x5C, CHR ''r'']
      else if c = CHR 0x09 then [CHR 0x5C, CHR ''t'']
      else if c = CHR 0x0C then [CHR 0x5C, CHR ''f'']
      else if c = CHR 0x08 then [CHR 0x5C, CHR ''b'']
      else if (of_char c :: nat) < 32 then hex_escape (of_char c)
      else [c])"

definition escape_text :: "string \<Rightarrow> string" where
  "escape_text s = concat (map escape_char s)"

text \<open>A code point outside ASCII as one escape or a pair of surrogates.\<close>

definition escape_point :: "nat \<Rightarrow> string" where
  "escape_point n =
     (if n < 65536 then hex_escape n
      else hex_escape (55296 + (n - 65536) div 1024) @ hex_escape (56320 + (n - 65536) mod 1024))"

text \<open>The low six bits of a following byte of UTF-8.\<close>

definition six :: "char \<Rightarrow> nat" where
  "six c = (of_char c :: nat) mod 64"

fun escape_ascii :: "string \<Rightarrow> string" where
  "escape_ascii [] = []"
| "escape_ascii (c # s) =
     (let n = of_char c :: nat in
      if n = 127 then hex_escape 127 @ escape_ascii s
      else if n < 128 then escape_char c @ escape_ascii s
      else if n < 224 then (case s of a # r \<Rightarrow> escape_point (n mod 32 * 64 + six a) @ escape_ascii r | _ \<Rightarrow> [])
      else if n < 240 then
        (case s of a # b # r \<Rightarrow> escape_point ((n mod 16 * 64 + six a) * 64 + six b) @ escape_ascii r | _ \<Rightarrow> [])
      else
        (case s of a # b # d # r \<Rightarrow> escape_point (((n mod 8 * 64 + six a) * 64 + six b) * 64 + six d) @ escape_ascii r
         | _ \<Rightarrow> []))"

definition quoted :: "string \<Rightarrow> string" where
  "quoted s = [CHR 0x22] @ s @ [CHR 0x22]"

subsection \<open>Values\<close>

text \<open>How to write: the text of a float, the escapes of a string, and the indentation.\<close>

record dump_style =
  du_float :: "real \<Rightarrow> string"
  du_escape :: "string \<Rightarrow> string"
  du_indent :: "nat option"

definition nl :: string where
  "nl = [CHR 0x0A]"

definition new_line :: "dump_style \<Rightarrow> nat \<Rightarrow> string" where
  "new_line st level =
     (case du_indent st of None \<Rightarrow> [] | Some k \<Rightarrow> nl @ replicate (k * level) (CHR '' ''))"

definition item_sep :: "dump_style \<Rightarrow> nat \<Rightarrow> string" where
  "item_sep st level = (case du_indent st of None \<Rightarrow> '', '' | Some k \<Rightarrow> '','' @ new_line st level)"

fun dump :: "dump_style \<Rightarrow> nat \<Rightarrow> pyval \<Rightarrow> string"
  and dump_items :: "dump_style \<Rightarrow> nat \<Rightarrow> pyval list \<Rightarrow> string"
  and dump_pairs :: "dump_style \<Rightarrow> nat \<Rightarrow> pydict \<Rightarrow> string"
where
  "dump st level PNone = ''null''"
| "dump st level (PBool b) = (if b then ''true'' else ''false'')"
| "dump st level (PInt i) = show_int i"
| "dump st level (PFloat x) = du_float st x"
| "dump st level (PStr s) = quoted (du_escape st s)"
| "dump st level (PList []) = ''[]''"
| "dump st level (PList (v # vs)) =
     ''['' @ new_line st (Suc level) @ dump_items st (Suc level) (v # vs) @ new_line st level @ '']''"
| "dump st level (PDict []) = ''{}''"
| "dump st level (PDict (p # ps)) =
     ''{'' @ new_line st (Suc level) @ dump_pairs st (Suc level) (p # ps) @ new_line st level @ ''}''"
| "dump_items st level [] = []"
| "dump_items st level (v # vs) =
     dump st level v @ (if vs = [] then [] else item_sep st level @ dump_items st level vs)"
| "dump_pairs st level [] = []"
| "dump_pairs st level ((k, v) # ps) =
     quoted (du_escape st k) @ '': '' @ dump st level v
       @ (if ps = [] then [] else item_sep st level @ dump_pairs st level ps)"

text \<open>\<open>json.dumps(v, ensure_ascii=False)\<close>, with an indentation, and with the default escapes.\<close>

definition plain_style :: "(real \<Rightarrow> string) \<Rightarrow> dump_style" where
  "plain_style fl = \<lparr>du_float = fl, du_escape = escape_text, du_indent = None\<rparr>"

definition json_dumps :: "(real \<Rightarrow> string) \<Rightarrow> pyval \<Rightarrow> string" where
  "json_dumps fl v = dump (plain_style fl) 0 v"

definition json_dumps_indent :: "(real \<Rightarrow> string) \<Rightarrow> nat \<Rightarrow> pyval \<Rightarrow> string" where
  "json_dumps_indent fl k v = dump ((plain_style fl)\<lparr>du_indent := Some k\<rparr>) 0 v"

definition json_dumps_ascii :: "(real \<Rightarrow> string) \<Rightarrow> pyval \<Rightarrow> string" where
  "json_dumps_ascii fl v = dump ((plain_style fl)\<lparr>du_escape := escape_ascii\<rparr>) 0 v"


subsection \<open>Reading back a string\<close>

lemma of_char_small: "n < 256 \<Longrightarrow> of_char (char_of n) = (n :: nat)"
  by (simp add: of_char_of)

lemma hex_val_digit: "n < 16 \<Longrightarrow> hex_val (hex_digit n) = Some n"
proof -
  assume "n < 16"
  have v: "hex_val (char_of m) = (if 48 \<le> m \<and> m \<le> 57 then Some (m - 48)
      else if 65 \<le> m \<and> m \<le> 70 then Some (m - 55) else if 97 \<le> m \<and> m \<le> 102 then Some (m - 87) else None)"
    if "m < 256" for m
    unfolding hex_val_def Let_def of_char_small [OF that] by (rule refl)
  show ?thesis
  proof (cases "n < 10")
    case True
    then show ?thesis unfolding hex_digit_def using v [of "48 + n"] by simp
  next
    case False
    then show ?thesis unfolding hex_digit_def using v [of "87 + n"] \<open>n < 16\<close> by simp
  qed
qed

lemma hex4_escape: "n < 65536 \<Longrightarrow> hex4 (drop 2 (hex_escape n) @ r) = Some n"
proof -
  assume "n < 65536"
  have "hex4 (drop 2 (hex_escape n) @ r)
      = Some (((n div 4096 mod 16 * 16 + n div 256 mod 16) * 16 + n div 16 mod 16) * 16 + n mod 16)"
    unfolding hex4_def hex_escape_def by (simp add: hex_val_digit)
  moreover have "n div 4096 mod 16 = n div 4096"
    using \<open>n < 65536\<close> by simp
  moreover have "n div 4096 * 16 + n div 256 mod 16 = n div 256"
    using div_mult_mod_eq [of "n div 256" 16] by (simp add: div_mult2_eq [symmetric])
  moreover have "n div 256 * 16 + n div 16 mod 16 = n div 16"
    using div_mult_mod_eq [of "n div 16" 16] by (simp add: div_mult2_eq [symmetric])
  moreover have "n div 16 * 16 + n mod 16 = n"
    by simp
  ultimately show ?thesis by simp
qed

lemma unicode_escape_control: "n < 32 \<Longrightarrow> unicode_escape (drop 2 (hex_escape n) @ r) = Some (n, r)"
  using hex4_escape [of n r] by (simp add: unicode_escape_def Let_def hex_escape_def)

lemma length_escape_char: "0 < length (escape_char c)"
  by (simp add: escape_char_def hex_escape_def)

lemma read_string_char:
  assumes "length (escape_char c) + m \<le> n" and "\<And>k. m \<le> k \<Longrightarrow> read_string k t = Some (s, r)"
  shows "read_string n (escape_char c @ t) = Some (c # s, r)"
proof -
  obtain k where k: "n = Suc k" "m \<le> k"
    using assms(1) length_escape_char [of c] by (cases n) auto
  note ih = assms(2) [OF k(2)]
  have h: "hex_escape x @ t = CHR 0x5C # CHR ''u'' # drop 2 (hex_escape x) @ t" for x
    by (simp add: hex_escape_def)
  show ?thesis
  proof (cases "c \<in> {CHR 0x22, CHR 0x5C, CHR 0x0A, CHR 0x0D, CHR 0x09, CHR 0x0C, CHR 0x08}")
    case True
    then show ?thesis
      using ih by (auto simp: k(1) escape_char_def simple_escape_def)
  next
    case False
    then show ?thesis
    proof (cases "(of_char c :: nat) < 32")
      case True
      have "utf8 (of_char c) = [c]"
        using True by (simp add: utf8_def)
      then show ?thesis
        using False True ih by (simp add: k(1) escape_char_def h unicode_escape_control del: append.simps(2) drop_Suc_Cons)
    next
      case False2: False
      then show ?thesis
        using False ih by (simp add: k(1) escape_char_def)
    qed
  qed
qed

lemma read_string_text:
  "length (escape_text s) < n \<Longrightarrow> read_string n (escape_text s @ CHR 0x22 # r) = Some (s, r)"
proof (induction s arbitrary: n)
  case Nil
  then show ?case by (cases n) (simp_all add: escape_text_def)
next
  case (Cons c s)
  have "read_string n (escape_char c @ (escape_text s @ CHR 0x22 # r)) = Some (c # s, r)"
    using Cons by (intro read_string_char [where m = "Suc (length (escape_text s))"]) (auto simp: escape_text_def)
  then show ?case by (simp add: escape_text_def)
qed

subsection \<open>Reading back a number\<close>

definition stops :: "string \<Rightarrow> bool" where
  "stops r \<longleftrightarrow> (case r of [] \<Rightarrow> True | c # _ \<Rightarrow> \<not> is_digit c \<and> c \<noteq> CHR ''.'' \<and> c \<noteq> CHR ''e'' \<and> c \<noteq> CHR ''E'')"

lemma is_digit_char_of: "(n :: nat) < 10 \<Longrightarrow> is_digit (char_of (48 + n))"
  by (simp add: is_digit_def Let_def of_char_small)

lemma show_nat_digits: "\<forall>c \<in> set (show_nat n). is_digit c"
proof (induction n rule: show_nat.induct)
  case (1 n)
  then show ?case by (auto simp: show_nat.simps [of n] is_digit_char_of)
qed

lemma show_nat_nonempty [simp]: "show_nat n \<noteq> []"
  by (simp add: show_nat.simps [of n])

lemma hd_show_nat: "0 < n \<Longrightarrow> hd (show_nat n) \<noteq> CHR ''0''"
proof (induction n rule: show_nat.induct)
  case (1 n)
  show ?case
  proof (cases "n < 10")
    case True
    have "(of_char (char_of (48 + n)) :: nat) = 48 + n"
      using True by (simp add: of_char_small)
    moreover have "(of_char (CHR ''0'') :: nat) = 48"
      by simp
    ultimately have "char_of (48 + n) \<noteq> CHR ''0''"
      using 1 by (metis add_eq_self_zero less_numeral_extra(3))
    then show ?thesis using True by (simp add: show_nat.simps [of n])
  next
    case False
    then show ?thesis using 1 by (simp add: show_nat.simps [of n])
  qed
qed

lemma takeWhile_digits: "\<forall>c \<in> set ds. is_digit c \<Longrightarrow> stops r \<Longrightarrow> takeWhile is_digit (ds @ r) = ds"
  "\<forall>c \<in> set ds. is_digit c \<Longrightarrow> stops r \<Longrightarrow> dropWhile is_digit (ds @ r) = r"
  by (induction ds) (auto simp: stops_def split: list.splits)

lemma int_part_show_nat: "stops r \<Longrightarrow> int_part (show_nat n @ r) = Some (show_nat n, r)"
proof -
  assume s: "stops r"
  obtain c t where ct: "show_nat n = c # t"
    by (cases "show_nat n") auto
  show ?thesis
  proof (cases "n = 0")
    case True
    have "show_nat 0 = ''0''" by code_simp
    with True show ?thesis by (simp add: int_part_def)
  next
    case False
    then have "c \<noteq> CHR ''0''" "is_digit c"
      using hd_show_nat [of n] show_nat_digits [of n] ct by auto
    then show ?thesis
      using takeWhile_digits [OF show_nat_digits [of n] s] ct by (simp add: int_part_def)
  qed
qed

lemma no_fraction: "stops r \<Longrightarrow> frac_part r = ([], r) \<and> exp_part r = (None, r)"
  by (auto simp: stops_def frac_part_def exp_part_def split: list.splits)

lemma starts_with_minus: "starts_with ''-'' (show_nat n @ r) = False"
proof -
  obtain c t where "show_nat n = c # t" by (cases "show_nat n") auto
  with show_nat_digits [of n] show ?thesis
    by (auto simp: starts_with_def is_digit_def Let_def)
qed

lemma read_number_show_int:
  assumes "stops r"
  shows "read_number (show_int i @ r) = Some (PInt i, r)"
proof (cases "i < 0")
  case True
  then have "show_int i @ r = CHR ''-'' # (show_nat (nat (- i)) @ r)"
    by (simp add: show_int_def)
  then show ?thesis
    using True int_part_show_nat [OF assms] no_fraction [OF assms]
    by (simp add: read_number_def starts_with_def nat_of_digits_show_nat)
next
  case False
  then have "show_int i = show_nat (nat i)"
    by (simp add: show_int_def)
  then show ?thesis
    using False int_part_show_nat [OF assms] no_fraction [OF assms]
    by (simp add: read_number_def starts_with_minus nat_of_digits_show_nat)
qed


subsection \<open>Reading back a value\<close>

text \<open>Values that JSON can carry: no float, and the keys of every dictionary distinct.\<close>

fun json_ok :: "pyval \<Rightarrow> bool" and json_ok_list :: "pyval list \<Rightarrow> bool" and json_ok_dict :: "pydict \<Rightarrow> bool" where
  "json_ok (PFloat x) = False"
| "json_ok (PList vs) = json_ok_list vs"
| "json_ok (PDict d) = (distinct (map fst d) \<and> json_ok_dict d)"
| "json_ok PNone = True"
| "json_ok (PBool b) = True"
| "json_ok (PInt i) = True"
| "json_ok (PStr s) = True"
| "json_ok_list [] = True"
| "json_ok_list (v # vs) = (json_ok v \<and> json_ok_list vs)"
| "json_ok_dict [] = True"
| "json_ok_dict ((k, v) # d) = (json_ok v \<and> json_ok_dict d)"

text \<open>Rounds of the reader that a value takes, never more than its text has characters.\<close>

fun cost :: "pyval \<Rightarrow> nat" and cost_list :: "pyval list \<Rightarrow> nat" and cost_dict :: "pydict \<Rightarrow> nat" where
  "cost (PList vs) = Suc (cost_list vs)"
| "cost (PDict d) = Suc (cost_dict d)"
| "cost PNone = 1"
| "cost (PBool b) = 1"
| "cost (PInt i) = 1"
| "cost (PFloat x) = 1"
| "cost (PStr s) = 1"
| "cost_list [] = 0"
| "cost_list (v # vs) = Suc (max (cost v) (cost_list vs))"
| "cost_dict [] = 0"
| "cost_dict ((k, v) # d) = Suc (max (cost v) (cost_dict d))"

lemma length_item_sep: "0 < length (item_sep st level)"
  by (simp add: item_sep_def split: option.split)

lemma length_quoted [simp]: "length (quoted s) = Suc (Suc (length s))"
  by (simp add: quoted_def)

lemma show_int_nonempty [simp]: "show_int i \<noteq> []"
  by (simp add: show_int_def)

lemma cost_le_length:
  "json_ok v \<Longrightarrow> cost v \<le> length (dump st level v)"
  "json_ok_list vs \<Longrightarrow> cost_list vs \<le> Suc (length (dump_items st level vs))"
  "json_ok_dict d \<Longrightarrow> cost_dict d \<le> Suc (length (dump_pairs st level d))"
proof (induction st level v and st level vs and st level d rule: dump_dump_items_dump_pairs.induct)
  case (3 st level i)
  then show ?case by (simp add: Suc_le_eq)
next
  case (11 st level v vs)
  obtain c s where "item_sep st level = c # s"
    using length_item_sep [of st level] by (cases "item_sep st level") auto
  with 11 show ?case by (cases "vs = []") auto
next
  case (13 st level k v ps)
  obtain c s where "item_sep st level = c # s"
    using length_item_sep [of st level] by (cases "item_sep st level") auto
  with 13 show ?case by (cases "ps = []") auto
qed auto

text \<open>White space in front of a token is skipped; the text of a value starts with none.\<close>

lemma new_line_ws: "\<forall>c \<in> set (new_line st level). is_json_ws c"
  by (auto simp: new_line_def nl_def is_json_ws_def split: option.splits)

lemma skip_ws_append: "\<forall>c \<in> set w. is_json_ws c \<Longrightarrow> skip_ws (w @ s) = skip_ws s"
  by (induction w) (auto simp: skip_ws_def)

lemma skip_ws_token [simp]: "\<not> is_json_ws c \<Longrightarrow> skip_ws (c # s) = c # s"
  by (simp add: skip_ws_def)

lemma show_int_hd: "\<exists>c t. show_int i = c # t \<and> (is_digit c \<or> c = CHR ''-'')"
proof -
  obtain c t where "show_nat (nat i) = c # t" by (cases "show_nat (nat i)") auto
  with show_nat_digits [of "nat i"] show ?thesis
    by (auto simp: show_int_def)
qed

definition token_start :: "char \<Rightarrow> bool" where
  "token_start c \<longleftrightarrow> \<not> is_json_ws c \<and> c \<noteq> CHR '']'' \<and> c \<noteq> CHR ''}'' \<and> c \<noteq> CHR '',''"

lemma digit_token: "is_digit c \<or> c = CHR ''-'' \<Longrightarrow> token_start c \<and> c \<noteq> CHR 0x22 \<and> c \<noteq> CHR ''{'' \<and> c \<noteq> CHR ''[''
    \<and> c \<noteq> CHR ''n'' \<and> c \<noteq> CHR ''t'' \<and> c \<noteq> CHR ''f''"
  by (auto simp: token_start_def is_json_ws_def is_digit_def Let_def)

lemma dump_start: "json_ok v \<Longrightarrow> \<exists>c t. dump st level v = c # t \<and> token_start c"
proof (cases v)
  case (PInt i)
  then show ?thesis using show_int_hd [of i] digit_token by auto
next
  case (PList vs)
  then show ?thesis by (cases vs) (auto simp: token_start_def is_json_ws_def)
next
  case (PDict d)
  then show ?thesis by (cases d) (auto simp: token_start_def is_json_ws_def)
qed (auto simp: token_start_def is_json_ws_def quoted_def)


lemma stops_item_sep: "stops (item_sep st level @ s)"
  by (auto simp: item_sep_def stops_def is_digit_def Let_def split: option.splits)

lemma stops_close: "stops (new_line st level @ CHR '']'' # s) \<and> stops (new_line st level @ CHR ''}'' # s)"
  by (auto simp: new_line_def nl_def stops_def is_digit_def Let_def split: option.splits)

lemma skip_item_sep:
  assumes "token_start c"
  shows "skip_ws (tl (skip_ws (item_sep st level @ c # s))) = c # s" and "starts_with '','' (skip_ws (item_sep st level @ c # s))"
proof -
  have "\<not> is_json_ws c" using assms by (simp add: token_start_def)
  obtain w where w: "item_sep st level = '','' @ w" "\<forall>c \<in> set w. is_json_ws c"
  proof (cases "du_indent st")
    case None
    show thesis
      by (rule that [of "'' ''"]) (simp_all add: item_sep_def None is_json_ws_def)
  next
    case (Some k)
    show thesis
      by (rule that [OF _ new_line_ws]) (simp add: item_sep_def Some)
  qed
  have "skip_ws (item_sep st level @ c # s) = '','' @ w @ c # s"
    by (simp add: w(1) is_json_ws_def)
  with w(2) \<open>\<not> is_json_ws c\<close> show "skip_ws (tl (skip_ws (item_sep st level @ c # s))) = c # s"
    and "starts_with '','' (skip_ws (item_sep st level @ c # s))"
    by (simp_all add: skip_ws_append starts_with_def)
qed

lemma skip_close:
  "skip_ws (new_line st level @ CHR '']'' # s) = CHR '']'' # s"
  "skip_ws (new_line st level @ CHR ''}'' # s) = CHR ''}'' # s"
  using new_line_ws [of st level] by (simp_all add: skip_ws_append is_json_ws_def)

lemma read_value_number: "stops r \<Longrightarrow> read_value (Suc n) (show_int i @ r) = Some (PInt i, r)"
proof -
  assume "stops r"
  obtain c t where c: "show_int i = c # t" "is_digit c \<or> c = CHR ''-''"
    using show_int_hd [of i] by auto
  have "starts_with ''null'' (c # u) = False" "starts_with ''true'' (c # u) = False" "starts_with ''false'' (c # u) = False" for u
    using digit_token [OF c(2)] by (simp_all add: starts_with_def)
  then show ?thesis
    using read_number_show_int [OF \<open>stops r\<close>, of i] digit_token [OF c(2)] by (simp add: c(1))
qed

lemma read_value_string:
  "read_value (Suc n) (quoted (escape_text s) @ r) = Some (PStr s, r)"
  by (simp add: quoted_def read_string_text)

lemma read_value_empty: "read_value (Suc n) (''[]'' @ r) = Some (PList [], r)" "read_value (Suc n) (''{}'' @ r) = Some (PDict [], r)"
  by (simp_all add: starts_with_def is_json_ws_def)


declare read_value.simps [simp del] read_items.simps [simp del] read_pairs.simps [simp del]

lemma read_list_open:
  assumes "read_items n s = Some (vs, r)" and "\<forall>c \<in> set w. is_json_ws c" and "s = c # t" and "token_start c"
  shows "read_value (Suc n) (CHR ''['' # w @ s) = Some (PList vs, r)"
proof -
  have "skip_ws (w @ s) = s" "\<not> starts_with '']'' s"
    using assms(2-4) by (simp_all add: skip_ws_append token_start_def starts_with_def)
  then show ?thesis
    using assms(1) by (simp add: read_value.simps)
qed

lemma read_dict_open:
  assumes "read_pairs n [] s = Some (d, r)" and "\<forall>c \<in> set w. is_json_ws c" and "s = CHR 0x22 # t"
  shows "read_value (Suc n) (CHR ''{'' # w @ s) = Some (PDict d, r)"
proof -
  have "skip_ws (w @ s) = s" "\<not> starts_with ''}'' s"
    using assms(2,3) by (simp_all add: skip_ws_append is_json_ws_def starts_with_def)
  then show ?thesis
    using assms(1) by (simp add: read_value.simps)
qed

lemma dump_items_start: "json_ok_list (v # vs) \<Longrightarrow> \<exists>c t. dump_items st level (v # vs) @ s = c # t \<and> token_start c"
  using dump_start [of v st level] by auto

lemma dump_pairs_start: "ps \<noteq> [] \<Longrightarrow> \<exists>t. dump_pairs st level ps @ s = CHR 0x22 # t"
  by (cases ps) (auto simp: quoted_def)

lemma dset_fresh: "k \<notin> fst ` set d \<Longrightarrow> dset k v d = d @ [(k, v)]"
  by (induction d) auto

definition text_style :: "dump_style \<Rightarrow> bool" where
  "text_style st \<longleftrightarrow> du_escape st = escape_text"

lemma read_items_step:
  assumes "read_value n (s @ u) = Some (v, u)"
  shows "starts_with '']'' (skip_ws u) \<Longrightarrow> read_items (Suc n) (s @ u) = Some ([v], tl (skip_ws u))"
    and "starts_with '','' (skip_ws u) \<Longrightarrow> read_items n (skip_ws (tl (skip_ws u))) = Some (vs, r) \<Longrightarrow>
      read_items (Suc n) (s @ u) = Some (v # vs, r)"
proof -
  show "read_items (Suc n) (s @ u) = Some ([v], tl (skip_ws u))" if "starts_with '']'' (skip_ws u)"
    using assms that by (simp add: read_items.simps Let_def)
  show "read_items (Suc n) (s @ u) = Some (v # vs, r)"
    if "starts_with '','' (skip_ws u)" "read_items n (skip_ws (tl (skip_ws u))) = Some (vs, r)"
  proof -
    have "\<not> starts_with '']'' (skip_ws u)"
      using that(1) by (auto simp: starts_with_def)
    then show ?thesis using assms that by (simp add: read_items.simps Let_def)
  qed
qed

lemma read_pairs_step:
  assumes "read_value n (s @ u) = Some (v, u)" and "s @ u = c # t" and "token_start c"
  shows "starts_with ''}'' (skip_ws u) \<Longrightarrow>
      read_pairs (Suc n) d (quoted (escape_text k) @ '': '' @ s @ u) = Some (dset k v d, tl (skip_ws u))"
    and "starts_with '','' (skip_ws u) \<Longrightarrow> read_pairs n (dset k v d) (skip_ws (tl (skip_ws u))) = Some (d', r) \<Longrightarrow>
      read_pairs (Suc n) d (quoted (escape_text k) @ '': '' @ s @ u) = Some (d', r)"
proof -
  have key: "read_string (length (quoted (escape_text k) @ x)) (tl (quoted (escape_text k) @ x)) = Some (k, x)" for x
    by (simp add: quoted_def read_string_text)
  have q: "starts_with [CHR 0x22] (quoted (escape_text k) @ x)" for x
    by (simp add: quoted_def starts_with_def)
  have colon: "skip_ws ('': '' @ s @ u) = '': '' @ s @ u" "skip_ws (tl ('': '' @ s @ u)) = s @ u"
    using assms(2,3) by (simp_all add: skip_ws_def is_json_ws_def token_start_def)
  have step: "read_pairs (Suc n) d (quoted (escape_text k) @ '': '' @ s @ u)
      = (let w = skip_ws u; d' = dset k v d in
         if starts_with ''}'' w then Some (d', tl w)
         else if starts_with '','' w then read_pairs n d' (skip_ws (tl w)) else None)"
    unfolding read_pairs.simps key Let_def option.case prod.case colon assms(1)
    using q by (simp add: starts_with_def)
  show "read_pairs (Suc n) d (quoted (escape_text k) @ '': '' @ s @ u) = Some (dset k v d, tl (skip_ws u))"
    if "starts_with ''}'' (skip_ws u)"
    using that unfolding step by (simp add: Let_def)
  show "read_pairs (Suc n) d (quoted (escape_text k) @ '': '' @ s @ u) = Some (d', r)"
    if "starts_with '','' (skip_ws u)" "read_pairs n (dset k v d) (skip_ws (tl (skip_ws u))) = Some (d', r)"
  proof -
    have "\<not> starts_with ''}'' (skip_ws u)"
      using that(1) by (auto simp: starts_with_def)
    then show ?thesis using that unfolding step by (simp add: Let_def)
  qed
qed

lemma read_value_scalars:
  "1 \<le> n \<Longrightarrow> read_value n (''null'' @ r) = Some (PNone, r)"
  "1 \<le> n \<Longrightarrow> read_value n ((if b then ''true'' else ''false'') @ r) = Some (PBool b, r)"
  "1 \<le> n \<Longrightarrow> stops r \<Longrightarrow> read_value n (show_int i @ r) = Some (PInt i, r)"
  "1 \<le> n \<Longrightarrow> read_value n (quoted (escape_text s) @ r) = Some (PStr s, r)"
  "1 \<le> n \<Longrightarrow> read_value n (''[]'' @ r) = Some (PList [], r)"
  "1 \<le> n \<Longrightarrow> read_value n (''{}'' @ r) = Some (PDict [], r)"
proof -
  assume "1 \<le> n"
  then obtain m where n: "n = Suc m" by (cases n) auto
  show "read_value n (''null'' @ r) = Some (PNone, r)"
    by (simp add: n read_value.simps starts_with_def)
  show "read_value n ((if b then ''true'' else ''false'') @ r) = Some (PBool b, r)"
    by (cases b) (simp_all add: n read_value.simps starts_with_def)
  show "stops r \<Longrightarrow> read_value n (show_int i @ r) = Some (PInt i, r)"
    by (simp add: n read_value_number)
  show "read_value n (quoted (escape_text s) @ r) = Some (PStr s, r)"
    by (simp add: n read_value_string)
  show "read_value n (''[]'' @ r) = Some (PList [], r)" "read_value n (''{}'' @ r) = Some (PDict [], r)"
    unfolding n by (rule read_value_empty)+
qed

lemma read_dump:
  assumes "text_style st"
  shows "json_ok v \<Longrightarrow> cost v \<le> n \<Longrightarrow> stops r \<Longrightarrow> read_value n (dump st level v @ r) = Some (v, r)"
    and "json_ok_list vs \<Longrightarrow> cost_list vs \<le> n \<Longrightarrow> vs \<noteq> [] \<Longrightarrow>
      read_items n (dump_items st level vs @ new_line st l @ CHR '']'' # r) = Some (vs, r)"
    and "json_ok_dict ps \<Longrightarrow> cost_dict ps \<le> n \<Longrightarrow> ps \<noteq> [] \<Longrightarrow> distinct (map fst (d @ ps)) \<Longrightarrow>
      read_pairs n d (dump_pairs st level ps @ new_line st l @ CHR ''}'' # r) = Some (d @ ps, r)"
  using assms
proof (induction st level v and st level vs and st level ps arbitrary: n r and n r l and n r l d
    rule: dump_dump_items_dump_pairs.induct)
  case (7 st level v vs)
  obtain m where m: "n = Suc m" "cost_list (v # vs) \<le> m"
    using 7(3) by (cases n) auto
  obtain c t where c: "dump_items st (Suc level) (v # vs) @ new_line st level @ CHR '']'' # r = c # t" "token_start c"
    using dump_items_start [of v vs] 7(2) by (metis json_ok.simps(2))
  have "read_items m (dump_items st (Suc level) (v # vs) @ new_line st level @ CHR '']'' # r) = Some (v # vs, r)"
    by (rule 7(1)) (use 7(2-) m in simp_all)
  from read_list_open [OF this new_line_ws c] show ?case
    by (simp add: m(1))
next
  case (9 st level p ps)
  obtain m where m: "n = Suc m" "cost_dict (p # ps) \<le> m"
    using 9(3) by (cases n) auto
  obtain t where c: "dump_pairs st (Suc level) (p # ps) @ new_line st level @ CHR ''}'' # r = CHR 0x22 # t"
    using dump_pairs_start [of "p # ps"] by blast
  have "read_pairs m [] (dump_pairs st (Suc level) (p # ps) @ new_line st level @ CHR ''}'' # r) = Some ([] @ p # ps, r)"
    by (rule 9(1)) (use 9(2-) m in simp_all)
  from read_dict_open [OF this [unfolded append_Nil] new_line_ws c] show ?case
    by (simp add: m(1))
next
  case (11 st level v vs)
  obtain m where m: "n = Suc m" "cost v \<le> m" "cost_list vs \<le> m"
    using 11(4) by (cases n) auto
  show ?case
  proof (cases "vs = []")
    case True
    have "read_value m (dump st level v @ (new_line st l @ CHR '']'' # r)) = Some (v, new_line st l @ CHR '']'' # r)"
      by (rule 11(1)) (use 11(3-) m stops_close in simp_all)
    from read_items_step(1) [OF this] show ?thesis
      by (simp add: m(1) True skip_close starts_with_def)
  next
    case False
    let ?u = "item_sep st level @ dump_items st level vs @ new_line st l @ CHR '']'' # r"
    obtain c t where c: "dump_items st level vs @ new_line st l @ CHR '']'' # r = c # t" "token_start c"
      using dump_items_start [of "hd vs" "tl vs" st level] 11(3) False by (metis json_ok_list.simps(2) list.collapse)
    have "read_value m (dump st level v @ ?u) = Some (v, ?u)"
      by (rule 11(1)) (use 11(3-) m stops_item_sep in simp_all)
    moreover have "read_items m (dump_items st level vs @ new_line st l @ CHR '']'' # r) = Some (vs, r)"
      by (rule 11(2)) (use 11(3-) m False in simp_all)
    ultimately show ?thesis
      using read_items_step(2) [of m "dump st level v" ?u v vs r] skip_item_sep [OF c(2), of st level t] False
      by (simp add: m(1) c(1))
  qed
next
  case (13 st level k v ps)
  obtain m where m: "n = Suc m" "cost v \<le> m" "cost_dict ps \<le> m"
    using 13(4) by (cases n) auto
  have e: "du_escape st = escape_text"
    using 13(7) by (simp add: text_style_def)
  have fresh: "dset k v d = d @ [(k, v)]"
    using 13(6) by (intro dset_fresh) auto
  obtain c t where c: "dump st level v = c # t" "token_start c"
    using dump_start [of v st level] 13(3) by auto
  show ?case
  proof (cases "ps = []")
    case True
    have "read_value m (dump st level v @ (new_line st l @ CHR ''}'' # r)) = Some (v, new_line st l @ CHR ''}'' # r)"
      by (rule 13(1)) (use 13(3-) m stops_close in simp_all)
    from read_pairs_step(1) [OF this _ c(2), where d = d and k = k] show ?thesis
      by (simp add: m(1) True skip_close starts_with_def fresh e c(1))
  next
    case False
    let ?u = "item_sep st level @ dump_pairs st level ps @ new_line st l @ CHR ''}'' # r"
    obtain q where q: "dump_pairs st level ps @ new_line st l @ CHR ''}'' # r = CHR 0x22 # q"
      using dump_pairs_start [OF False] by blast
    have "token_start (CHR 0x22)"
      by (simp add: token_start_def is_json_ws_def)
    note skips = skip_item_sep [OF this, of st level q]
    have "read_value m (dump st level v @ ?u) = Some (v, ?u)"
      by (rule 13(1)) (use 13(3-) m stops_item_sep in simp_all)
    moreover have "read_pairs m (dset k v d) (dump_pairs st level ps @ new_line st l @ CHR ''}'' # r) = Some ((d @ [(k, v)]) @ ps, r)"
      unfolding fresh by (rule 13(2)) (use 13(3-) m False in simp_all)
    ultimately show ?thesis
      using read_pairs_step(2) [of m "dump st level v" ?u v c, where d = d and k = k and d' = "d @ (k, v) # ps" and r = r] skips c False
      by (simp add: m(1) q e)
  qed
next
  case (1 st level)
  then show ?case by (simp only: dump.simps cost.simps read_value_scalars)
next
  case (2 st level b)
  then show ?case by (simp only: dump.simps cost.simps read_value_scalars)
next
  case (3 st level i)
  then show ?case by (simp only: dump.simps cost.simps read_value_scalars)
next
  case (5 st level s)
  then show ?case by (simp only: dump.simps cost.simps read_value_scalars text_style_def)
next
  case (6 st level)
  then show ?case by (simp only: dump.simps cost.simps cost_list.simps read_value_scalars One_nat_def)
next
  case (8 st level)
  then show ?case by (simp only: dump.simps cost.simps cost_dict.simps read_value_scalars One_nat_def)
qed simp_all


lemma stops_ws: "stops []" "is_json_ws c \<Longrightarrow> stops (c # s)"
  by (auto simp: stops_def is_json_ws_def is_digit_def Let_def)

text \<open>What \<open>json.dumps\<close> writes, \<open>json.loads\<close> reads back, also between white space.\<close>

theorem json_loads_dump:
  assumes "text_style st" and "json_ok v" and "\<forall>c \<in> set w. is_json_ws c" and "\<forall>c \<in> set u. is_json_ws c"
  shows "json_loads (w @ dump st level v @ u) = Some v"
proof -
  obtain c t where c: "dump st level v = c # t" "token_start c"
    using dump_start [OF assms(2)] by blast
  have "skip_ws (w @ dump st level v @ u) = dump st level v @ u"
    using c assms(3) by (simp add: skip_ws_append token_start_def)
  moreover have "stops u"
    using assms(4) stops_ws by (cases u) simp_all
  moreover have "cost v \<le> Suc (2 * length (w @ dump st level v @ u))"
    using cost_le_length(1) [OF assms(2), of st level] by simp
  moreover have "skip_ws u = []"
    using skip_ws_append [OF assms(4), of "[]"] by (simp add: skip_ws_def)
  ultimately show ?thesis
    by (simp only: json_loads_def read_dump(1) [OF assms(1,2)] option.case prod.case simp_thms if_True)
qed

lemma json_loads_dumps:
  assumes "json_ok v" and "\<forall>c \<in> set w. is_json_ws c" and "\<forall>c \<in> set u. is_json_ws c"
  shows "json_loads (w @ json_dumps fl v @ u) = Some v"
  using json_loads_dump [OF _ assms, of "plain_style fl" 0] by (simp add: json_dumps_def text_style_def plain_style_def)

lemma json_loads_dumps_exact: "json_ok v \<Longrightarrow> json_loads (json_dumps fl v) = Some v"
  using json_loads_dumps [of v "[]" "[]" fl] by simp

end
