(* ===== verification/AgentTools.thy ===== *)
theory AgentTools
  imports ChatTemplate PyDumps PyPath GeoCoder
begin

text \<open>
  Agent templates (\<open>swift/agent_template\<close>), first half: how tools, tool calls and tool results
  become text and how the calls are read back.  The base class with the ReAct format, the ReAct
  and Qwen prompts, Hermes and its variants, and ToolBench.  The contents of tool messages are
  texts here.  \<open>ast.literal_eval\<close>, the Python text of a value and of a float are arguments.
\<close>

subsection \<open>Texts and patterns\<close>

definition uni :: "nat list \<Rightarrow> string" where
  "uni cs = concat (map utf8 cs)"

definition lines :: "string list \<Rightarrow> string" where
  "lines ls = join nl ls"

text \<open>\<open>open(.*?)close\<close> and \<open>open(.+?)close\<close> with a dot that matches every character.\<close>

definition lazy_any :: rx where
  "lazy_any = Star False dot_all"

definition lazy_some :: rx where
  "lazy_some = Seq dot_all lazy_any"

definition between_re :: "string \<Rightarrow> rx \<Rightarrow> string \<Rightarrow> rx" where
  "between_re opening body closing = Seq (lit opening) (Seq (Grp 1 body) (lit closing))"

definition pair_re :: "string \<Rightarrow> rx \<Rightarrow> string \<Rightarrow> rx \<Rightarrow> string \<Rightarrow> rx" where
  "pair_re opening body1 middle body2 closing =
     seqs [lit opening, Grp 1 body1, lit middle, Grp 2 body2, lit closing]"

definition some_not :: "string \<Rightarrow> rx" where
  "some_not cs = rx_plus (Cls (\<lambda>c. c \<notin> set cs))"

definition re_findall2 :: "rx \<Rightarrow> string \<Rightarrow> (string \<times> string) list" where
  "re_findall2 r s = map (\<lambda>(pre, m, gs). (group 1 gs, group 2 gs)) (fst (re_matches r s))"

subsection \<open>The base class\<close>

record py_env =
  pe_literal :: "string \<Rightarrow> pyval option"
  pe_repr :: "pyval \<Rightarrow> string"
  pe_float :: "real \<Rightarrow> string"
  pe_meta :: "(prompt \<times> prompt option) option"

definition fmt :: "py_env \<Rightarrow> pyval \<Rightarrow> string" where
  "fmt e v = py_str (pe_repr e) v"

definition dumps :: "py_env \<Rightarrow> pyval \<Rightarrow> string" where
  "dumps e v = json_dumps (pe_float e) v"

text \<open>A call as it leaves the parser: arguments that are no text are written as JSON.\<close>

record func =
  fn_name :: string
  fn_arguments :: string

definition mk_func :: "py_env \<Rightarrow> pyval \<Rightarrow> pyval \<Rightarrow> func res" where
  "mk_func e name arguments =
     (case name of
        PStr n \<Rightarrow> Inr \<lparr>fn_name = strip n,
                     fn_arguments = strip (case arguments of PStr a \<Rightarrow> a | v \<Rightarrow> dumps e v)\<rparr>
      | _ \<Rightarrow> Inl AttributeError)"

record agent_keyword =
  kw_action :: string
  kw_action_input :: string
  kw_observation :: string

definition react_keyword :: agent_keyword where
  "react_keyword = \<lparr>kw_action = ''Action:'', kw_action_input = ''Action Input:'', kw_observation = ''Observation:''\<rparr>"

fun collect_actions ::
  "agent_keyword \<Rightarrow> (string \<times> string) list \<Rightarrow> string option \<Rightarrow> func list" where
  "collect_actions kw [] action = []"
| "collect_actions kw ((k, c) # parts) action =
     (case action of
        None \<Rightarrow> collect_actions kw parts (if lower k = lower (kw_action kw) then Some c else None)
      | Some a \<Rightarrow>
          if lower k = lower (kw_action_input kw)
          then \<lparr>fn_name = strip a, fn_arguments = strip c\<rparr> # collect_actions kw parts None
          else collect_actions kw parts (Some a))"

definition split_action_action_input :: "agent_keyword \<Rightarrow> string \<Rightarrow> func list" where
  "split_action_action_input kw response =
     collect_actions kw
       (split_str_parts_by [kw_action kw, kw_action_input kw, kw_observation kw] response) None"

definition react_get_toolcall :: "agent_keyword \<Rightarrow> string \<Rightarrow> func list" where
  "react_get_toolcall kw response =
     (let functions = split_action_action_input kw response in
      if functions = [] \<and> kw \<noteq> react_keyword then split_action_action_input react_keyword response else functions)"

definition with_action :: "agent_keyword \<Rightarrow> string \<Rightarrow> bool" where
  "with_action kw s = (contains (kw_action kw) s \<and> contains (kw_action_input kw) s)"

definition observed :: "agent_keyword \<Rightarrow> string \<Rightarrow> string" where
  "observed kw s =
     (if ends_with (kw_observation kw) s then s
      else if ends_with nl s then s @ kw_observation kw else s @ nl @ kw_observation kw)"

definition react_result :: "agent_keyword \<Rightarrow> nat \<Rightarrow> string \<Rightarrow> ctx list" where
  "react_result kw i content =
     (if 0 < i then [CText (kw_observation kw)] else []) @ [CText content]
       @ (if ends_with nl content then [] else [CText nl])"

definition react_responses :: "agent_keyword \<Rightarrow> string \<Rightarrow> string list \<Rightarrow> (string \<times> ctx list) res" where
  "react_responses kw assistant_content tools =
     (if tools = [] then Inl AssertionError
      else if with_action kw assistant_content then
        Inr (observed kw assistant_content,
             concat (map (\<lambda>(i, c). react_result kw i c) (zip [0 ..< length tools] tools)))
      else Inr (assistant_content, map CText tools))"

definition parse_json :: "py_env \<Rightarrow> string \<Rightarrow> pyval" where
  "parse_json e s =
     (case json_loads s of
        Some v \<Rightarrow> v
      | None \<Rightarrow> (case pe_literal e s of Some v \<Rightarrow> v | None \<Rightarrow> PNone))"

definition parse_json_val :: "py_env \<Rightarrow> pyval \<Rightarrow> pyval" where
  "parse_json_val e v = (case v of PStr s \<Rightarrow> parse_json e s | _ \<Rightarrow> v)"

definition parse_tool_call :: "py_env \<Rightarrow> string \<Rightarrow> (pyval \<times> pyval) res" where
  "parse_tool_call e content =
     (case parse_json e content of
        PDict obj \<Rightarrow>
          res_bind (row_item obj ''name'') (\<lambda>name.
            let raw = (if pget obj ''arguments'' = PNone then pget obj ''parameters'' else pget obj ''arguments'');
                arguments = parse_json_val e raw
            in if arguments = PNone then Inl AssertionError else Inr (name, arguments))
      | _ \<Rightarrow> Inl TypeError)"

definition react_call :: "py_env \<Rightarrow> agent_keyword \<Rightarrow> string \<Rightarrow> string res" where
  "react_call e kw content =
     res_bind (parse_tool_call e content) (\<lambda>(name, arguments).
       Inr (kw_action kw @ '' '' @ fmt e name @ nl @ kw_action_input kw @ '' '' @ fmt e arguments @ nl))"

definition react_tool_calls :: "py_env \<Rightarrow> agent_keyword \<Rightarrow> string list \<Rightarrow> string res" where
  "react_tool_calls e kw contents =
     res_bind (map_res (react_call e kw) contents) (\<lambda>calls. Inr (concat calls @ kw_observation kw))"

definition get_tool_name :: "pydict \<Rightarrow> pyval" where
  "get_tool_name tool =
     (if truthy (pget tool ''name_for_model'') then pget tool ''name_for_model'' else pget tool ''name'')"

fun unwrap_tool :: "pyval \<Rightarrow> pyval res" where
  "unwrap_tool (PDict d) = Inr (if has_key d ''type'' \<and> has_key d ''function'' then pget d ''function'' else PDict d)"
| "unwrap_tool _ = Inl AssertionError"

fun wrap_tool :: "pyval \<Rightarrow> pyval res" where
  "wrap_tool (PDict d) =
     Inr (if \<not> has_key d ''type'' \<and> \<not> has_key d ''function''
          then PDict [(''type'', PStr ''function''), (''function'', PDict d)] else PDict d)"
| "wrap_tool _ = Inl AssertionError"

record tool_desc =
  td_model :: pyval
  td_human :: string
  td_description :: string
  td_parameters :: string
  td_args_format :: string

definition json_object_zh :: string where
  "json_object_zh = (uni [0x6b64, 0x5de5, 0x5177, 0x7684, 0x8f93, 0x5165, 0x5e94, 0x4e3a] @ ''JSON'' @ uni [0x5bf9, 0x8c61, 0x3002])"

text \<open>A name that is no text passes here and fails where the names are joined.\<close>

definition parse_tool_dict :: "py_env \<Rightarrow> bool \<Rightarrow> pydict \<Rightarrow> tool_desc res" where
  "parse_tool_dict e zh tool =
     (let name = get_tool_name tool;
          human = (if truthy (pget tool ''name_for_human'') then pget tool ''name_for_human'' else name);
          description = (if pget tool ''description'' = PNone then pget tool ''description_for_model''
                         else pget tool ''description'');
          parameters = (if truthy (pget tool ''parameters'') then pget tool ''parameters'' else PDict [])
      in if name = PNone \<or> description = PNone then Inl AssertionError
         else Inr \<lparr>td_model = name, td_human = fmt e human, td_description = fmt e description,
                   td_parameters = (case parameters of PStr p \<Rightarrow> p | v \<Rightarrow> dumps e v),
                   td_args_format = (if zh then json_object_zh else ''Format the arguments as a JSON object.'')\<rparr>)"

definition parse_tool :: "py_env \<Rightarrow> bool \<Rightarrow> pyval \<Rightarrow> tool_desc res" where
  "parse_tool e zh tool =
     res_bind (unwrap_tool tool) (\<lambda>t. case t of PDict d \<Rightarrow> parse_tool_dict e zh d | _ \<Rightarrow> Inl AttributeError)"

subsection \<open>Preparing the tools and the calls of an input\<close>

text \<open>The tools of a row: a JSON text, a list, nothing, or something that is refused.\<close>

definition tool_list :: "py_env \<Rightarrow> pyval \<Rightarrow> pyval list res" where
  "tool_list e tools =
     (if \<not> truthy tools then Inr []
      else case tools of
        PStr s \<Rightarrow> Inr (case parse_json e s of PList ts \<Rightarrow> ts | v \<Rightarrow> [v])
      | PList ts \<Rightarrow> Inr (map (parse_json_val e) ts)
      | _ \<Rightarrow> Inl ValueError)"

definition prepare_tools :: "py_env \<Rightarrow> pyval \<Rightarrow> pyval list res" where
  "prepare_tools e tools = res_bind (tool_list e tools) (map_res wrap_tool)"

subsection \<open>An agent template\<close>

text \<open>
  \<open>at_tools\<close> gets the tools, the system text and the first message and returns the new system text
  and, when it rewrites it, the new text of that message.
\<close>

record agent_template =
  at_tools :: "pyval list \<Rightarrow> string option \<Rightarrow> content \<Rightarrow> (string \<times> string option) res"
  at_responses :: "string \<Rightarrow> string list \<Rightarrow> (string \<times> ctx list) res"
  at_calls :: "string list \<Rightarrow> string res"
  at_get_toolcall :: "string \<Rightarrow> func list res"

definition or_text :: "string option \<Rightarrow> string" where
  "or_text system = (case system of None \<Rightarrow> [] | Some s \<Rightarrow> s)"

subsection \<open>ReAct\<close>

definition react_desc :: "py_env \<Rightarrow> tool_desc \<Rightarrow> string" where
  "react_desc e t =
     fmt e (td_model t) @ '': Call this tool to interact with the '' @ td_human t @ '' API. What is the '' @ td_human t
       @ '' API useful for? '' @ td_description t @ '' Parameters: '' @ td_parameters t @ '' '' @ td_args_format t"

fun text_or_type_error :: "pyval \<Rightarrow> string res" where
  "text_or_type_error (PStr s) = Inr s"
| "text_or_type_error _ = Inl TypeError"

definition joined_names :: "tool_desc list \<Rightarrow> string res" where
  "joined_names ts = res_bind (map_res (\<lambda>t. text_or_type_error (td_model t)) ts) (\<lambda>ns. Inr (join '','' ns))"

definition react_en_tools :: "py_env \<Rightarrow> pyval list \<Rightarrow> string res" where
  "react_en_tools e tools =
     res_bind (map_res (parse_tool e False) tools) (\<lambda>ts. res_bind (joined_names ts) (\<lambda>names. Inr
       ((lines [''Answer the following questions as best you can. You have access to the following tools:'',
       [],
       []])
        @ join (nl @ nl) (map (react_desc e) ts)
        @ (lines [[],
       [],
       ''Use the following format:'',
       [],
       ''Question: the input question you must answer'',
       ''Thought: you should always think about what to do'',
       ''Action: the action to take, should be one of [''])
        @ names
        @ (lines ['']'',
       ''Action Input: the input to the action'',
       ''Observation: the result of the action'',
       ''... (this Thought/Action/Action Input/Observation can be repeated zero or more times)'',
       ''Thought: I now know the final answer'',
       ''Final Answer: the final answer to the original input question'',
       [],
       ''Begin!'',
       []]))))"

definition react_zh_desc :: "py_env \<Rightarrow> tool_desc \<Rightarrow> string" where
  "react_zh_desc e t =
     fmt e (td_model t) @ ('': '' @ uni [0x8c03, 0x7528, 0x6b64, 0x5de5, 0x5177, 0x4e0e] @ '' '') @ td_human t @ ('' API '' @ uni [0x8fdb, 0x884c, 0x4ea4, 0x4e92, 0x3002]) @ td_human t @ ('' '' @ uni [0x6709, 0x4ec0, 0x4e48, 0x7528, 0xff1f])
       @ td_description t @ ('' '' @ uni [0x8f93, 0x5165, 0x53c2, 0x6570, 0xff1a]) @ td_parameters t @ '' '' @ td_args_format t"

definition react_zh_tools :: "py_env \<Rightarrow> pyval list \<Rightarrow> string res" where
  "react_zh_tools e tools =
     res_bind (map_res (parse_tool e True) tools) (\<lambda>ts. res_bind (joined_names ts) (\<lambda>names. Inr
       ((lines [uni [0x5c3d, 0x53ef, 0x80fd, 0x5730, 0x56de, 0x7b54, 0x4ee5, 0x4e0b, 0x95ee, 0x9898, 0x3002, 0x4f60, 0x53ef, 0x4ee5,
         0x4f7f, 0x7528, 0x4ee5, 0x4e0b, 0x5de5, 0x5177] @ '':'',
       [],
       []])
        @ join (nl @ nl) (map (react_zh_desc e) ts)
        @ (lines [[],
       [],
       uni [0x8bf7, 0x6309, 0x7167, 0x4ee5, 0x4e0b, 0x683c, 0x5f0f, 0x8fdb, 0x884c] @ '':'',
       [],
       ''Question: '' @ uni [0x9700, 0x8981, 0x4f60, 0x56de, 0x7b54, 0x7684, 0x8f93, 0x5165, 0x95ee, 0x9898],
       ''Thought: '' @ uni [0x4f60, 0x5e94, 0x8be5, 0x603b, 0x662f, 0x601d, 0x8003, 0x8be5, 0x505a, 0x4ec0, 0x4e48],
       ''Action: '' @ uni [0x9700, 0x8981, 0x4f7f, 0x7528, 0x7684, 0x5de5, 0x5177, 0xff0c, 0x5e94, 0x8be5, 0x662f] @ ''[''])
        @ names
        @ (lines ['']'' @ uni [0x4e2d, 0x7684, 0x4e00, 0x4e2a],
       ''Action Input: '' @ uni [0x4f20, 0x5165, 0x5de5, 0x5177, 0x7684, 0x5185, 0x5bb9],
       ''Observation: '' @ uni [0x884c, 0x52a8, 0x7684, 0x7ed3, 0x679c],
       ''... ('' @ uni [0x8fd9, 0x4e2a] @ ''Thought/Action/Action Input/Observation'' @ uni [0x53ef, 0x4ee5, 0x91cd, 0x590d] @ ''N'' @ uni [0x6b21] @ '')'',
       ''Thought: '' @ uni [0x6211, 0x73b0, 0x5728, 0x77e5, 0x9053, 0x6700, 0x540e, 0x7684, 0x7b54, 0x6848],
       ''Final Answer: '' @ uni [0x5bf9, 0x539f, 0x59cb, 0x8f93, 0x5165, 0x95ee, 0x9898, 0x7684, 0x6700, 0x7ec8, 0x7b54, 0x6848],
       [],
       uni [0x73b0, 0x5728, 0x5f00, 0x59cb, 0xff01],
       []]))))"

definition react_grpo_tools :: "py_env \<Rightarrow> pyval list \<Rightarrow> string res" where
  "react_grpo_tools e tools =
     res_bind (map_res (parse_tool e False) tools) (\<lambda>ts. res_bind (joined_names ts) (\<lambda>names. Inr
       ((lines [''A conversation for tool calling between User and Assistant. The user asks a question which may be solved by calling tools, and the Assistant solves it. The assistant first thinks about the reasoning process in the mind and then provides the user with the answer. The reasoning process should be enclosed within <think> </think>tags and answer should follow the ReACT format(Action:xxx'',
       ''Action Input:xxx), i.e., <think> reasoning process here </think> Action: action here'',
       ''Action Input: parameters here'',
       [],
       ''Answer the following questions as best as you can. You have access to the following tools:'',
       [],
       []])
        @ join (nl @ nl) (map (react_desc e) ts)
        @ (lines [[],
       [],
       ''Use the following format:'',
       [],
       ''<think>you should always think about what to do</think>'',
       ''Action: the action to take, should be one of [''])
        @ names
        @ (lines ['']'',
       ''Action Input: the input to the action'',
       ''Observation: the result of the action, given by the actual calling'',
       ''... (this Thought/Action/Action Input/Observation can be repeated zero or more times)'',
       ''Final Answer: the final answer to the original input question'',
       [],
       ''Begin!'',
       []]))))"

definition toolbench_tools :: "py_env \<Rightarrow> pyval list \<Rightarrow> string res" where
  "toolbench_tools e tools =
     res_bind (map_res unwrap_tool tools) (\<lambda>ts. Inr
       ((lines [''You can use many tools(functions) to do the following task.'',
       ''First I will give you the task description, and your task start.'',
       ''At each step, you need to give your thought to analyze the status now and what to do next, with a function call to actually execute your step. Your output should follow this format:'',
       ''Thought:'',
       ''Action:'',
       ''Action Input:'',
       [],
       ''After the call, you will get the call result, and you are now in a new state.'',
       ''Then you will analyze your status now, then decide what to do next...'',
       ''After many (Thought-call) pairs, you finally perform the task, then you can give your final answer.'',
       ''Remember:'',
       ''1.the state change is irreversible, you can't go back to one of the former state, if you want to restart the task, say \"I give up and restart\".'',
       ''2.All the thought is short, at most in 5 sentence.'',
       ''3.You can do more then one try, so if your plan is to continuously try some conditions, you can do one of the conditions per try.'',
       ''Let's Begin!'',
       ''Task description: You should use functions to help handle the real time user queries. Remember:'',
       ''1.ALWAYS call \"Finish\" function at the end of the task. And the final answer should contain enough information to show to the user,If you can't handle the task, or you find that function calls always fail(the function is not valid now), use function Finish->give_up_and_restart.'',
       ''2.Do not use origin tool names, use only subfunctions' names.'',
       ''Specifically, you have access to the following APIs: ''])
        @ dumps e (PList ts)))"

text \<open>A template that changes the prompt of the base class only.\<close>

definition base_template ::
  "py_env \<Rightarrow> agent_keyword \<Rightarrow> (pyval list \<Rightarrow> string option \<Rightarrow> string res) \<Rightarrow> agent_template" where
  "base_template e kw tools =
     \<lparr>at_tools = (\<lambda>ts system user. res_bind (tools ts system) (\<lambda>s. Inr (s, None))),
      at_responses = react_responses kw,
      at_calls = react_tool_calls e kw,
      at_get_toolcall = (\<lambda>response. Inr (react_get_toolcall kw response))\<rparr>"

subsection \<open>Qwen\<close>

definition qwen_keyword :: agent_keyword where
  "qwen_keyword = \<lparr>kw_action = (uni [0x273f] @ ''FUNCTION'' @ uni [0x273f] @ '':''), kw_action_input = (uni [0x273f] @ ''ARGS'' @ uni [0x273f] @ '':''), kw_observation = (uni [0x273f] @ ''RESULT'' @ uni [0x273f] @ '':'')\<rparr>"

definition qwen_desc :: "py_env \<Rightarrow> bool \<Rightarrow> tool_desc \<Rightarrow> string" where
  "qwen_desc e zh t =
     ''### '' @ td_human t @ nl @ nl @ fmt e (td_model t) @ '': '' @ td_description t
       @ (if zh then ('' '' @ uni [0x8f93, 0x5165, 0x53c2, 0x6570, 0xff1a]) else '' Parameters: '') @ td_parameters t @ '' '' @ td_args_format t"

definition qwen_head :: "bool \<Rightarrow> string" where
  "qwen_head zh =
     (if zh then (lines [[],
       [],
       ''# '' @ uni [0x5de5, 0x5177],
       [],
       ''## '' @ uni [0x4f60, 0x62e5, 0x6709, 0x5982, 0x4e0b, 0x5de5, 0x5177, 0xff1a],
       [],
       []])
      else (lines [[],
       [],
       ''# Tools'',
       [],
       ''## You have access to the following tools:'',
       [],
       []]))"

definition qwen_en_tail :: "string \<Rightarrow> string" where
  "qwen_en_tail names =
     (lines [[],
       [],
       ''## When you need to call a tool, please insert the following command in your reply, which can be called zero or multiple times according to your needs:'',
       [],
       uni [0x273f] @ ''FUNCTION'' @ uni [0x273f] @ '': The tool to use, should be one of [''])
     @ names
     @ (lines ['']'',
       uni [0x273f] @ ''ARGS'' @ uni [0x273f] @ '': The input of the tool'',
       uni [0x273f] @ ''RESULT'' @ uni [0x273f] @ '': Tool results'',
       uni [0x273f] @ ''RETURN'' @ uni [0x273f] @ '': Reply based on tool results. Images need to be rendered as ![](url)''])"

definition qwen_zh_tail :: "string \<Rightarrow> string" where
  "qwen_zh_tail names =
     (lines [[],
       [],
       ''## '' @ uni [0x4f60, 0x53ef, 0x4ee5, 0x5728, 0x56de, 0x590d, 0x4e2d, 0x63d2, 0x5165, 0x96f6, 0x6b21, 0x3001, 0x4e00, 0x6b21,
         0x6216, 0x591a, 0x6b21, 0x4ee5, 0x4e0b, 0x547d, 0x4ee4, 0x4ee5, 0x8c03, 0x7528, 0x5de5, 0x5177, 0xff1a],
       [],
       uni [0x273f] @ ''FUNCTION'' @ uni [0x273f] @ '': '' @ uni [0x5de5, 0x5177, 0x540d, 0x79f0, 0xff0c, 0x5fc5, 0x987b, 0x662f] @ ''[''])
     @ names
     @ (lines ['']'' @ uni [0x4e4b, 0x4e00, 0x3002],
       uni [0x273f] @ ''ARGS'' @ uni [0x273f] @ '': '' @ uni [0x5de5, 0x5177, 0x8f93, 0x5165],
       uni [0x273f] @ ''RESULT'' @ uni [0x273f] @ '': '' @ uni [0x5de5, 0x5177, 0x7ed3, 0x679c],
       uni [0x273f] @ ''RETURN'' @ uni [0x273f] @ '': '' @ uni [0x6839, 0x636e, 0x5de5, 0x5177, 0x7ed3, 0x679c, 0x8fdb, 0x884c, 0x56de, 0x590d, 0xff0c, 0x9700, 0x5c06, 0x56fe,
         0x7247, 0x7528] @ ''![](url)'' @ uni [0x6e32, 0x67d3, 0x51fa, 0x6765]])"

definition qwen_en_parallel_tail :: "string \<Rightarrow> string" where
  "qwen_en_parallel_tail names =
     (lines [[],
       [],
       ''## Insert the following command in your reply when you need to call N tools in parallel:'',
       [],
       uni [0x273f] @ ''FUNCTION'' @ uni [0x273f] @ '': The name of tool 1, should be one of [''])
     @ names
     @ (lines ['']'',
       uni [0x273f] @ ''ARGS'' @ uni [0x273f] @ '': The input of tool 1'',
       uni [0x273f] @ ''FUNCTION'' @ uni [0x273f] @ '': The name of tool 2'',
       uni [0x273f] @ ''ARGS'' @ uni [0x273f] @ '': The input of tool 2'',
       ''...'',
       uni [0x273f] @ ''FUNCTION'' @ uni [0x273f] @ '': The name of tool N'',
       uni [0x273f] @ ''ARGS'' @ uni [0x273f] @ '': The input of tool N'',
       uni [0x273f] @ ''RESULT'' @ uni [0x273f] @ '': The result of tool 1'',
       uni [0x273f] @ ''RESULT'' @ uni [0x273f] @ '': The result of tool 2'',
       ''...'',
       uni [0x273f] @ ''RESULT'' @ uni [0x273f] @ '': he result of tool N'',
       uni [0x273f] @ ''RETURN'' @ uni [0x273f] @ '': Reply based on tool results. Images need to be rendered as ![](url)''])"

definition qwen_zh_parallel_tail :: "string \<Rightarrow> string" where
  "qwen_zh_parallel_tail names =
     (lines [[],
       [],
       ''## '' @ uni [0x4f60, 0x53ef, 0x4ee5, 0x5728, 0x56de, 0x590d, 0x4e2d, 0x63d2, 0x5165, 0x4ee5, 0x4e0b, 0x547d, 0x4ee4, 0x4ee5,
         0x5e76, 0x884c, 0x8c03, 0x7528] @ ''N'' @ uni [0x4e2a, 0x5de5, 0x5177, 0xff1a],
       [],
       uni [0x273f] @ ''FUNCTION'' @ uni [0x273f] @ '': '' @ uni [0x5de5, 0x5177] @ ''1'' @ uni [0x7684, 0x540d, 0x79f0, 0xff0c, 0x5fc5, 0x987b, 0x662f] @ ''[''])
     @ names
     @ (lines ['']'' @ uni [0x4e4b, 0x4e00],
       uni [0x273f] @ ''ARGS'' @ uni [0x273f] @ '': '' @ uni [0x5de5, 0x5177] @ ''1'' @ uni [0x7684, 0x8f93, 0x5165],
       uni [0x273f] @ ''FUNCTION'' @ uni [0x273f] @ '': '' @ uni [0x5de5, 0x5177] @ ''2'' @ uni [0x7684, 0x540d, 0x79f0],
       uni [0x273f] @ ''ARGS'' @ uni [0x273f] @ '': '' @ uni [0x5de5, 0x5177] @ ''2'' @ uni [0x7684, 0x8f93, 0x5165],
       ''...'',
       uni [0x273f] @ ''FUNCTION'' @ uni [0x273f] @ '': '' @ uni [0x5de5, 0x5177] @ ''N'' @ uni [0x7684, 0x540d, 0x79f0],
       uni [0x273f] @ ''ARGS'' @ uni [0x273f] @ '': '' @ uni [0x5de5, 0x5177] @ ''N'' @ uni [0x7684, 0x8f93, 0x5165],
       uni [0x273f] @ ''RESULT'' @ uni [0x273f] @ '': '' @ uni [0x5de5, 0x5177] @ ''1'' @ uni [0x7684, 0x7ed3, 0x679c],
       uni [0x273f] @ ''RESULT'' @ uni [0x273f] @ '': '' @ uni [0x5de5, 0x5177] @ ''2'' @ uni [0x7684, 0x7ed3, 0x679c],
       ''...'',
       uni [0x273f] @ ''RESULT'' @ uni [0x273f] @ '': '' @ uni [0x5de5, 0x5177] @ ''N'' @ uni [0x7684, 0x7ed3, 0x679c],
       uni [0x273f] @ ''RETURN'' @ uni [0x273f] @ '': '' @ uni [0x6839, 0x636e, 0x5de5, 0x5177, 0x7ed3, 0x679c, 0x8fdb, 0x884c, 0x56de, 0x590d, 0xff0c, 0x9700, 0x5c06, 0x56fe,
         0x7247, 0x7528] @ ''![](url)'' @ uni [0x6e32, 0x67d3, 0x51fa, 0x6765]])"

definition qwen_tools ::
  "bool \<Rightarrow> (string \<Rightarrow> string) \<Rightarrow> py_env \<Rightarrow> pyval list \<Rightarrow> string option \<Rightarrow> string res" where
  "qwen_tools zh tail_of e tools system =
     res_bind (map_res (parse_tool e zh) tools) (\<lambda>ts. res_bind (joined_names ts) (\<lambda>names. Inr
       (or_text system @ qwen_head zh @ join (nl @ nl) (map (qwen_desc e zh) ts) @ tail_of names)))"

subsection \<open>Hermes\<close>

text \<open>The calls of a response: every tagged JSON object with a name and arguments.\<close>

fun hermes_func :: "py_env \<Rightarrow> string \<Rightarrow> func list res" where
  "hermes_func e body =
     (case parse_json e body of
        PDict d \<Rightarrow>
          if has_key d ''name'' \<and> has_key d ''arguments''
          then res_bind (mk_func e (pget d ''name'') (pget d ''arguments'')) (\<lambda>f. Inr [f]) else Inr []
      | _ \<Rightarrow> Inr [])"

definition or_react :: "string \<Rightarrow> func list res \<Rightarrow> func list res" where
  "or_react response found =
     res_bind found (\<lambda>functions. Inr (if functions = [] then react_get_toolcall react_keyword response else functions))"

definition funcs_of :: "(string \<Rightarrow> func list res) \<Rightarrow> string list \<Rightarrow> func list res" where
  "funcs_of f bodies = res_bind (map_res f bodies) (\<lambda>fs. Inr (concat fs))"

definition tool_call_re :: rx where
  "tool_call_re = between_re ''<tool_call>'' lazy_some ''</tool_call>''"

definition hermes_get_toolcall :: "py_env \<Rightarrow> string \<Rightarrow> func list res" where
  "hermes_get_toolcall e response =
     or_react response (funcs_of (hermes_func e) (re_findall1 tool_call_re response))"

definition hermes_results :: "string list \<Rightarrow> string" where
  "hermes_results tools = join nl (map (\<lambda>c. ''<tool_response>'' @ nl @ c @ nl @ ''</tool_response>'') tools)"

text \<open>The prompt of the template with the results as the query, after its separator.\<close>

definition fill_query :: "string \<Rightarrow> word \<Rightarrow> ctx res" where
  "fill_query total_tool w =
     (case w of Word s \<Rightarrow> Inr (CText (replace ''{{QUERY}}'' total_tool s)) | Toks ts \<Rightarrow> word_ctx w)"

definition results_as_query :: "prompt \<times> prompt option \<Rightarrow> string \<Rightarrow> ctx list res" where
  "results_as_query meta total_tool =
     (case snd meta of
        None \<Rightarrow> Inl AttributeError
      | Some sep \<Rightarrow>
          res_bind (map_res word_ctx sep) (\<lambda>before.
          res_bind (map_res (fill_query total_tool) (fst meta)) (\<lambda>body. Inr (before @ body))))"

definition hermes_meta :: "py_env \<Rightarrow> prompt \<times> prompt option" where
  "hermes_meta e =
     (case pe_meta e of
        Some m \<Rightarrow> m
      | None \<Rightarrow> ([Word ((lines [''<|im_start|>user'',
       ''{{QUERY}}<|im_end|>'',
       ''<|im_start|>assistant'',
       []]))], Some [Word ((''<|im_end|>'' @ nl))]))"

definition query_responses ::
  "(prompt \<times> prompt option) \<Rightarrow> (string list \<Rightarrow> string) \<Rightarrow> string \<Rightarrow> string list \<Rightarrow> (string \<times> ctx list) res" where
  "query_responses meta results assistant_content tools =
     (if with_action react_keyword assistant_content then react_responses react_keyword assistant_content tools
      else res_bind (results_as_query meta (results tools)) (\<lambda>cs. Inr (assistant_content, cs)))"

definition wrapped_dumps :: "py_env \<Rightarrow> pyval list \<Rightarrow> string list res" where
  "wrapped_dumps e tools = res_bind (map_res wrap_tool tools) (\<lambda>ts. Inr (map (dumps e) ts))"

definition hermes_tools :: "py_env \<Rightarrow> pyval list \<Rightarrow> string option \<Rightarrow> string res" where
  "hermes_tools e tools system =
     res_bind (wrapped_dumps e tools) (\<lambda>descs. Inr
       (or_text system
        @ (lines [[],
       [],
       ''# Tools'',
       [],
       ''You may call one or more functions to assist with the user query.'',
       [],
       ''You are provided with function signatures within <tools></tools> XML tags:'',
       ''<tools>'',
       []])
        @ join nl descs
        @ (lines [[],
       ''</tools>'',
       [],
       ''For each function call, return a json object with function name and arguments within <tool_call></tool_call> XML tags:'',
       ''<tool_call>'',
       ''{\"name\": <function-name>, \"arguments\": <args-json-object>}'',
       ''</tool_call>''])))"

definition call_object :: "pyval \<times> pyval \<Rightarrow> pyval" where
  "call_object c = PDict [(''name'', fst c), (''arguments'', snd c)]"

definition hermes_call :: "py_env \<Rightarrow> string \<Rightarrow> string res" where
  "hermes_call e content =
     res_bind (parse_tool_call e content) (\<lambda>c.
       Inr (''<tool_call>'' @ nl @ dumps e (call_object c) @ nl @ ''</tool_call>''))"

definition hermes_tool_calls :: "py_env \<Rightarrow> string list \<Rightarrow> string res" where
  "hermes_tool_calls e contents = res_bind (map_res (hermes_call e) contents) (\<lambda>calls. Inr (join nl calls))"

definition hermes_template :: "py_env \<Rightarrow> agent_template" where
  "hermes_template e =
     \<lparr>at_tools = (\<lambda>ts system user. res_bind (hermes_tools e ts system) (\<lambda>s. Inr (s, None))),
      at_responses = query_responses (hermes_meta e) hermes_results,
      at_calls = hermes_tool_calls e,
      at_get_toolcall = hermes_get_toolcall e\<rparr>"

subsection \<open>Hunyuan\<close>

definition hunyuan_call_re :: rx where
  "hunyuan_call_re = pair_re ''<tool_call>'' lazy_some (nl @ ''```json'') lazy_some ''```</tool_call>''"

definition hunyuan_get_toolcall :: "py_env \<Rightarrow> string \<Rightarrow> func list res" where
  "hunyuan_get_toolcall e response =
     res_bind (map_res (\<lambda>(name, arguments). mk_func e (PStr name) (parse_json e arguments))
                (re_findall2 hunyuan_call_re response))
       (\<lambda>functions. if functions = [] then hermes_get_toolcall e response else Inr functions)"

definition hunyuan_results :: "string list \<Rightarrow> string" where
  "hunyuan_results tools =
     ''<tool_responses>'' @ join nl (map (\<lambda>c. ''<tool_response>'' @ c @ ''</tool_response>'') tools) @ ''</tool_responses>''"

definition hunyuan_tool_calls :: "py_env \<Rightarrow> string list \<Rightarrow> string res" where
  "hunyuan_tool_calls e contents =
     res_bind (hermes_tool_calls e contents) (\<lambda>s. Inr (''<tool_calls>'' @ nl @ s @ nl @ ''</tool_calls>''))"

definition system_gap :: "string option \<Rightarrow> string" where
  "system_gap system = (if or_text system = [] then [] else or_text system @ nl @ nl)"

definition hunyuan_tools :: "py_env \<Rightarrow> pyval list \<Rightarrow> string option \<Rightarrow> string res" where
  "hunyuan_tools e tools system =
     res_bind (wrapped_dumps e tools) (\<lambda>descs. Inr
       (system_gap system
        @ (lines [''# Tools'',
       [],
       ''You may call one or more functions to assist with the user query.'',
       [],
       ''You are provided with function signatures within <tools></tools> XML tags:'',
       ''<tools>'',
       []])
        @ join nl descs
        @ (lines [[],
       ''</tools>'',
       [],
       ''For function call returns, you should first print <tool_calls>For each function call, you should return object like:'',
       ''<tool_call>function_name'',
       ''```json'',
       ''function_arguments_in_json_format'',
       ''```</tool_call>At the end of function call returns, you should print </tool_calls>''])))"

definition hunyuan_template :: "py_env \<Rightarrow> agent_template" where
  "hunyuan_template e =
     \<lparr>at_tools = (\<lambda>ts system user. res_bind (hunyuan_tools e ts system) (\<lambda>s. Inr (s, None))),
      at_responses = query_responses (hermes_meta e) hunyuan_results,
      at_calls = hunyuan_tool_calls e,
      at_get_toolcall = hunyuan_get_toolcall e\<rparr>"

end
