(* ===== verification/AgentFamilies.thy ===== *)
theory AgentFamilies
  imports AgentTools
begin

text \<open>
  Agent templates (\<open>swift/agent_template\<close>), second half: GLM, Llama, Mistral, Youtu, DeepSeek,
  Seed, MiniMax and Qwen3-Coder, the table of all templates, and what the chat template makes of
  one of them.
\<close>

definition plain_tools ::
  "(pyval list \<Rightarrow> string option \<Rightarrow> string res) \<Rightarrow> pyval list \<Rightarrow> string option \<Rightarrow> content \<Rightarrow> (string \<times> string option) res" where
  "plain_tools tools ts system user = res_bind (tools ts system) (\<lambda>s. Inr (s, None))"

text \<open>The text of a message; other contents are outside the model of an agent template.\<close>

fun content_text :: "content \<Rightarrow> string res" where
  "content_text (COne (CText s)) = Inr s"
| "content_text _ = Inl TypeError"

text \<open>The results in ReAct form when the answer is a ReAct call.\<close>

definition unless_action ::
  "(string list \<Rightarrow> ctx list) \<Rightarrow> string \<Rightarrow> string list \<Rightarrow> (string \<times> ctx list) res" where
  "unless_action results assistant_content tools =
     (if with_action react_keyword assistant_content then react_responses react_keyword assistant_content tools
      else Inr (assistant_content, results tools))"

text \<open>\<open>v.items()\<close>, \<open>v.get(k, default)\<close> and \<open>v.strip()\<close>.\<close>

definition dict_of :: "pyval \<Rightarrow> pydict res" where
  "dict_of v = (case as_dict v of Some d \<Rightarrow> Inr d | None \<Rightarrow> Inl AttributeError)"

definition get_in :: "pyval \<Rightarrow> string \<Rightarrow> pyval \<Rightarrow> pyval res" where
  "get_in v k other = res_bind (dict_of v) (\<lambda>d. Inr (dget_or d k other))"

definition stripped :: "pyval \<Rightarrow> string res" where
  "stripped v = (case v of PStr s \<Rightarrow> Inr (strip s) | _ \<Rightarrow> Inl AttributeError)"

subsection \<open>GLM-4\<close>

definition glm4_call_re :: rx where
  "glm4_call_re =
     seqs [Grp 1 (Star False (Cls (\<lambda>c. c \<notin> set [CHR 0x0A, CHR 0x60]))), lit nl,
           Grp 2 (seqs [lit ''{'', lazy_any, lit ''}'']),
           Look (Alt (Seq (Star True (Cls is_word)) (lit nl)) EolZ)]"

definition glm4_find_call :: "string \<Rightarrow> func option" where
  "glm4_find_call single_content =
     (case re_findall2 glm4_call_re (replace ''<|observation|>'' [] single_content) of
        [] \<Rightarrow> None
      | (name, arguments) # _ \<Rightarrow> Some \<lparr>fn_name = strip name, fn_arguments = strip arguments\<rparr>)"

definition glm4_get_toolcall :: "string \<Rightarrow> func list res" where
  "glm4_get_toolcall response =
     or_react response (Inr (List.map_filter glm4_find_call (split_str ''<|assistant|>'' response)))"

definition glm4_desc :: "py_env \<Rightarrow> pyval \<Rightarrow> string res" where
  "glm4_desc e tool =
     res_bind (unwrap_tool tool) (\<lambda>t. res_bind (dict_of t) (\<lambda>d. Inr
       (''## '' @ fmt e (get_tool_name d) @ nl @ nl @ json_dumps_indent (pe_float e) 4 t @ nl
        @ (uni [0x5728, 0x8c03, 0x7528, 0x4e0a, 0x8ff0, 0x51fd, 0x6570, 0x65f6, 0xff0c, 0x8bf7, 0x4f7f, 0x7528] @ '' Json '' @ uni [0x683c, 0x5f0f, 0x8868, 0x793a, 0x8c03, 0x7528, 0x7684, 0x53c2, 0x6570, 0x3002]))))"

definition glm4_system :: string where
  "glm4_system = (lines [uni [0x4f60, 0x662f, 0x4e00, 0x4e2a, 0x540d, 0x4e3a] @ '' GLM-4 '' @ uni [0x7684, 0x4eba, 0x5de5, 0x667a, 0x80fd, 0x52a9, 0x624b, 0x3002, 0x4f60, 0x662f, 0x57fa, 0x4e8e, 0x667a, 0x8c31] @ ''AI'' @ uni [0x8bad, 0x7ec3, 0x7684, 0x8bed, 0x8a00, 0x6a21, 0x578b] @ '' GLM-4 '' @ uni [0x6a21, 0x578b, 0x5f00, 0x53d1, 0x7684, 0xff0c, 0x4f60, 0x7684, 0x4efb, 0x52a1, 0x662f, 0x9488, 0x5bf9, 0x7528,
         0x6237, 0x7684, 0x95ee, 0x9898, 0x548c, 0x8981, 0x6c42, 0x63d0, 0x4f9b, 0x9002, 0x5f53, 0x7684, 0x7b54, 0x590d,
         0x548c, 0x652f, 0x6301, 0x3002],
       [],
       []])"

definition glm4_tools :: "bool \<Rightarrow> py_env \<Rightarrow> pyval list \<Rightarrow> string option \<Rightarrow> string res" where
  "glm4_tools is_glm4_0414 e tools system =
     res_bind (map_res (glm4_desc e) tools) (\<lambda>descs. Inr
       ((if is_glm4_0414 then [] else glm4_system) @ (lines [''# '' @ uni [0x53ef, 0x7528, 0x5de5, 0x5177],
       [],
       []]) @ join nl descs))"

definition glm4_results :: "string list \<Rightarrow> ctx list" where
  "glm4_results tools =
     [CText nl] @ concat (map (\<lambda>(i, c). (if 0 < i then [CText ((''<|observation|>'' @ nl))] else []) @ [CText c])
                       (zip [0 ..< length tools] tools)) @ [CText ((''<|assistant|>'' @ nl))]"

definition glm4_call :: "py_env \<Rightarrow> string \<Rightarrow> string res" where
  "glm4_call e content =
     res_bind (parse_tool_call e content) (\<lambda>(name, arguments). Inr (fmt e name @ nl @ fmt e arguments))"

definition glm4_tool_calls :: "py_env \<Rightarrow> string list \<Rightarrow> string res" where
  "glm4_tool_calls e contents =
     res_bind (map_res (glm4_call e) contents) (\<lambda>calls. Inr (join ''<|assistant|>'' calls @ ''<|observation|>''))"

definition glm4_template :: "bool \<Rightarrow> py_env \<Rightarrow> agent_template" where
  "glm4_template is_glm4_0414 e =
     \<lparr>at_tools = plain_tools (glm4_tools is_glm4_0414 e), at_responses = unless_action glm4_results,
      at_calls = glm4_tool_calls e, at_get_toolcall = glm4_get_toolcall\<rparr>"

subsection \<open>GLM-4.5 and GLM-4.7\<close>

definition glm45_name_re :: rx where
  "glm45_name_re = Grp 1 (some_not [CHR 0x0A, CHR ''<''])"

definition glm45_find_call :: "py_env \<Rightarrow> string \<Rightarrow> func option" where
  "glm45_find_call e content =
     (let single_content = strip content;
          keys = re_findall1 (between_re ''<arg_key>'' lazy_any ''</arg_key>'') single_content;
          vals = re_findall1 (between_re ''<arg_value>'' lazy_any ''</arg_value>'') single_content
      in case re_match glm45_name_re single_content of
           None \<Rightarrow> None
         | Some gs \<Rightarrow>
             if length keys \<noteq> length vals then None
             else
               let args = foldl (\<lambda>d (k, v). dset (strip k) (PStr (strip v)) d) [] (zip keys vals)
               in Some \<lparr>fn_name = strip (strip (group 1 gs)), fn_arguments = strip (dumps e (PDict args))\<rparr>)"

definition any_call_re :: rx where
  "any_call_re = between_re ''<tool_call>'' lazy_any ''</tool_call>''"

definition glm45_get_toolcall :: "py_env \<Rightarrow> string \<Rightarrow> func list res" where
  "glm45_get_toolcall e response =
     or_react response (Inr (List.map_filter (glm45_find_call e) (re_findall1 any_call_re response)))"

definition glm45_format_text :: string where
  "glm45_format_text =
     (lines [''</tools>'',
       [],
       ''For each function call, output the function name and arguments within the following XML format:'',
       ''<tool_call>{function-name}'',
       ''<arg_key>{arg-key-1}</arg_key>'',
       ''<arg_value>{arg-value-1}</arg_value>'',
       ''<arg_key>{arg-key-2}</arg_key>'',
       ''<arg_value>{arg-value-2}</arg_value>'',
       ''...'',
       ''</tool_call>''])"

definition glm47_format_text :: string where
  "glm47_format_text =
     (lines [''</tools>'',
       [],
       ''For each function call, output the function name and arguments within the following XML format:'',
       ''<tool_call>{function-name}<arg_key>{arg-key-1}</arg_key><arg_value>{arg-value-1}</arg_value><arg_key>{arg-key-2}</arg_key><arg_value>{arg-value-2}</arg_value>...</tool_call>''])"

definition glm45_tools :: "bool \<Rightarrow> py_env \<Rightarrow> pyval list \<Rightarrow> string option \<Rightarrow> string res" where
  "glm45_tools glm47 e tools system =
     (let descs = join nl
            ([(lines [''# Tools'',
       [],
       ''You may call one or more functions to assist with the user query.'',
       [],
       ''You are provided with function signatures within <tools></tools> XML tags:'',
       ''<tools>''])]
             @ map (dumps e) tools @ [if glm47 then glm47_format_text else glm45_format_text])
      in Inr (if strip (or_text system) \<noteq> [] then descs @ (''<|system|>'' @ nl) @ strip (or_text system)
              else if glm47 \<and> \<not> starts_with nl descs then nl @ descs else descs))"

definition glm45_results :: "bool \<Rightarrow> string list \<Rightarrow> ctx list" where
  "glm45_results glm47 tools =
     (if glm47 then map (\<lambda>c. CText (''<tool_response>'' @ c @ ''</tool_response>'')) tools @ [CText ''<|assistant|>'']
      else map (\<lambda>c. CText ((lines [[],
       ''<tool_response>'',
       []]) @ c @ (nl @ ''</tool_response>''))) tools @ [CText ((''<|assistant|>'' @ nl))])"

definition glm45_pieces :: "py_env \<Rightarrow> string \<Rightarrow> string list res" where
  "glm45_pieces e content =
     res_bind (parse_tool_call e content) (\<lambda>(name, arguments). res_bind (dict_of arguments) (\<lambda>d. Inr
       ([''<tool_call>'' @ fmt e name]
        @ concat (map (\<lambda>(k, v). [''<arg_key>'' @ k @ ''</arg_key>'', ''<arg_value>'' @ fmt e v @ ''</arg_value>'']) d)
        @ [''</tool_call>''])))"

definition glm45_tool_calls :: "bool \<Rightarrow> py_env \<Rightarrow> string list \<Rightarrow> string res" where
  "glm45_tool_calls glm47 e contents =
     res_bind (map_res (glm45_pieces e) contents) (\<lambda>pieces. Inr
       (join (if glm47 then [] else nl) (concat pieces) @ ''<|observation|>''))"

definition glm45_template :: "bool \<Rightarrow> py_env \<Rightarrow> agent_template" where
  "glm45_template glm47 e =
     \<lparr>at_tools = plain_tools (glm45_tools glm47 e), at_responses = unless_action (glm45_results glm47),
      at_calls = glm45_tool_calls glm47 e, at_get_toolcall = glm45_get_toolcall e\<rparr>"

subsection \<open>Llama\<close>

record llama_tokens =
  lt_eom :: string
  lt_start :: string
  lt_end :: string
  lt_eot :: string

definition llama3_tokens :: llama_tokens where
  "llama3_tokens =
     \<lparr>lt_eom = ''<|eom_id|>'', lt_start = ''<|start_header_id|>'', lt_end = ''<|end_header_id|>'', lt_eot = ''<|eot_id|>''\<rparr>"

definition llama4_tokens :: llama_tokens where
  "llama4_tokens = \<lparr>lt_eom = ''<|eom|>'', lt_start = ''<|header_start|>'', lt_end = ''<|header_end|>'', lt_eot = ''<|eot|>''\<rparr>"

definition llama_call_re :: rx where
  "llama_call_re =
     seqs [lit ''{'', Star False (Cls (\<lambda>c. c \<noteq> CHR ''{'')), lit ''\"name\":'', lazy_any, lit ''\"parameters\":'',
           Star False blank, lit ''{'', lazy_any, lit ''}'', Star False blank, lit ''}'']"

fun llama_func :: "py_env \<Rightarrow> string \<Rightarrow> func list res" where
  "llama_func e body =
     (case parse_json e body of
        PDict d \<Rightarrow>
          if has_key d ''name'' \<and> has_key d ''parameters''
          then res_bind (mk_func e (pget d ''name'') (pget d ''parameters'')) (\<lambda>f. Inr [f]) else Inr []
      | _ \<Rightarrow> Inr [])"

definition llama_get_toolcall :: "llama_tokens \<Rightarrow> py_env \<Rightarrow> string \<Rightarrow> func list res" where
  "llama_get_toolcall tk e response0 =
     (let response = (if ends_with (lt_eom tk) response0 then take (length response0 - length (lt_eom tk)) response0
                      else response0)
      in or_react response (funcs_of (llama_func e) (re_findall0 llama_call_re response)))"

definition llama_results :: "llama_tokens \<Rightarrow> string list \<Rightarrow> ctx list" where
  "llama_results tk tools =
     [CText (lt_eot tk)]
     @ map (\<lambda>c. CText (lt_start tk @ ''tool'' @ lt_end tk @ nl @ nl @ c @ lt_eot tk)) tools
     @ [CText (lt_start tk @ ''assistant'' @ lt_end tk @ nl @ nl)]"

text \<open>The tools go to the first user message, not to the system text.\<close>

definition llama_tools :: "py_env \<Rightarrow> pyval list \<Rightarrow> string option \<Rightarrow> content \<Rightarrow> (string \<times> string option) res" where
  "llama_tools e tools system user =
     res_bind (content_text user) (\<lambda>user_content. Inr (or_text system, Some
       ((lines [''Given the following functions, please respond with a JSON for a function call with its proper arguments that best answers the given prompt.'',
       [],
       ''Respond in the format {\"name\": function name, \"parameters\": dictionary of argument name and its value}. Do not use variables.'',
       [],
       []])
       @ join (nl @ nl) (map (json_dumps_indent (pe_float e) 4) tools) @ nl @ nl @ user_content)))"

definition llama_call :: "py_env \<Rightarrow> string \<Rightarrow> string res" where
  "llama_call e content =
     res_bind (parse_tool_call e content) (\<lambda>(name, arguments). Inr
       (dumps e (PDict [(''name'', name), (''parameters'', arguments)])))"

definition llama_tool_calls :: "py_env \<Rightarrow> string list \<Rightarrow> string res" where
  "llama_tool_calls e contents = res_bind (map_res (llama_call e) contents) (\<lambda>calls. Inr (join nl calls))"

definition llama_template :: "llama_tokens \<Rightarrow> py_env \<Rightarrow> agent_template" where
  "llama_template tk e =
     \<lparr>at_tools = llama_tools e, at_responses = unless_action (llama_results tk),
      at_calls = llama_tool_calls e, at_get_toolcall = llama_get_toolcall tk e\<rparr>"

subsection \<open>Mistral\<close>

definition mistral_block_re :: rx where
  "mistral_block_re = between_re ''[TOOL_CALLS]['' lazy_any '']</s>''"

fun named_func :: "py_env \<Rightarrow> pyval \<Rightarrow> func list res" where
  "named_func e (PDict d) =
     (if has_key d ''name'' \<and> has_key d ''arguments''
      then res_bind (mk_func e (pget d ''name'') (pget d ''arguments'')) (\<lambda>f. Inr [f]) else Inr [])"
| "named_func e _ = Inr []"

definition mistral_line :: "py_env \<Rightarrow> string \<Rightarrow> func list res" where
  "mistral_line e s =
     res_bind (map_res (named_func e)
         (case parse_json e s of PDict d \<Rightarrow> [PDict d] | PList vs \<Rightarrow> vs | _ \<Rightarrow> [])) (\<lambda>fs. Inr (concat fs))"

definition mistral_get_toolcall :: "py_env \<Rightarrow> string \<Rightarrow> func list res" where
  "mistral_get_toolcall e response =
     (case re_findall1 mistral_block_re response of
        [] \<Rightarrow> Inr []
      | block # _ \<Rightarrow> or_react response (funcs_of (mistral_line e) (split_str nl (strip block))))"

definition mistral_results :: "py_env \<Rightarrow> string list \<Rightarrow> string" where
  "mistral_results e tools =
     join nl (map (\<lambda>c. ''[TOOL_RESULTS]'' @ dumps e (PDict [(''content'', PStr c)]) @ ''[/TOOL_RESULTS]'') tools)"

definition mistral_responses :: "py_env \<Rightarrow> string \<Rightarrow> string list \<Rightarrow> (string \<times> ctx list) res" where
  "mistral_responses e assistant_content tools =
     (case pe_meta e of
        None \<Rightarrow> Inl ValueError
      | Some m \<Rightarrow> res_bind (results_as_query m (mistral_results e tools)) (\<lambda>cs. Inr (assistant_content, cs)))"

definition mistral_tools :: "py_env \<Rightarrow> pyval list \<Rightarrow> string option \<Rightarrow> string res" where
  "mistral_tools e tools system =
     res_bind (wrapped_dumps e tools) (\<lambda>descs. Inr
       (or_text system @ ''[AVAILABLE_TOOLS]'' @ join '' '' descs @ ''[/AVAILABLE_TOOLS]''))"

definition mistral_call :: "py_env \<Rightarrow> string \<Rightarrow> string res" where
  "mistral_call e content = res_bind (parse_tool_call e content) (\<lambda>c. Inr (dumps e (call_object c)))"

definition mistral_tool_calls :: "py_env \<Rightarrow> string list \<Rightarrow> string res" where
  "mistral_tool_calls e contents =
     res_bind (map_res (mistral_call e) contents) (\<lambda>calls. Inr (''[TOOL_CALLS]['' @ nl @ join nl calls @ nl @ '']</s>''))"

definition mistral_template :: "py_env \<Rightarrow> agent_template" where
  "mistral_template e =
     \<lparr>at_tools = plain_tools (mistral_tools e), at_responses = mistral_responses e,
      at_calls = mistral_tool_calls e, at_get_toolcall = mistral_get_toolcall e\<rparr>"

subsection \<open>Youtu\<close>

definition youtu_meta :: "py_env \<Rightarrow> prompt \<times> prompt option" where
  "youtu_meta e =
     (case pe_meta e of
        Some m \<Rightarrow> m | None \<Rightarrow> ([Word ''<|User|>{{QUERY}}<|Assistant|>''], Some [Word ''<|end_of_text|>'']))"

definition youtu_results :: "string list \<Rightarrow> string" where
  "youtu_results tools = join nl (map (\<lambda>c. ''<tool_response>'' @ c @ ''</tool_response>'') tools)"

definition youtu_tools :: "py_env \<Rightarrow> pyval list \<Rightarrow> string option \<Rightarrow> string res" where
  "youtu_tools e tools system =
     res_bind (wrapped_dumps e tools) (\<lambda>descs. Inr
       (system_gap system
        @ (lines [''<|begin_of_tool_description|>Tool calling capabilities.'',
       ''You may call one or more functions to assist with the user query. You have the following functions available:'',
       []])
        @ join nl (map (\<lambda>d. (''```json'' @ nl) @ d @ (nl @ ''```'')) descs)
        @ (lines [[],
       ''For tool call returns, you MUST use the following format:'',
       ''<tool_call>{\"name\": \"function-name\", \"arguments\": {\"param1\": \"value1\", \"param2\": \"value2\"}}</tool_call>'',
       ''<|end_of_tool_description|>''])))"

definition youtu_call :: "py_env \<Rightarrow> string \<Rightarrow> string res" where
  "youtu_call e content =
     res_bind (parse_tool_call e content) (\<lambda>c. Inr (''<tool_call>'' @ dumps e (call_object c) @ ''</tool_call>''))"

definition youtu_tool_calls :: "py_env \<Rightarrow> string list \<Rightarrow> string res" where
  "youtu_tool_calls e contents = res_bind (map_res (youtu_call e) contents) (\<lambda>calls. Inr (concat calls))"

definition youtu_template :: "py_env \<Rightarrow> agent_template" where
  "youtu_template e =
     \<lparr>at_tools = plain_tools (youtu_tools e), at_responses = query_responses (youtu_meta e) youtu_results,
      at_calls = youtu_tool_calls e, at_get_toolcall = hermes_get_toolcall e\<rparr>"

subsection \<open>DeepSeek V3.1\<close>

definition ds_mark :: "string \<Rightarrow> string \<Rightarrow> string \<Rightarrow> string" where
  "ds_mark a b c = (''<'' @ uni [0xff5c]) @ a @ uni [0x2581] @ b @ (if c = [] then [] else uni [0x2581] @ c) @ (uni [0xff5c] @ ''>'')"

definition deepseek_call_re :: rx where
  "deepseek_call_re =
     pair_re (ds_mark ''tool'' ''call'' ''begin'') lazy_any (ds_mark ''tool'' ''sep'' []) lazy_any
       (ds_mark ''tool'' ''call'' ''end'')"

definition deepseek_func :: "py_env \<Rightarrow> string \<times> string \<Rightarrow> func list" where
  "deepseek_func e p =
     (let arguments = parse_json e (strip (snd p)) in
      if arguments = PNone then []
      else [\<lparr>fn_name = strip (fst p), fn_arguments = strip (case arguments of PStr a \<Rightarrow> a | v \<Rightarrow> dumps e v)\<rparr>])"

definition deepseek_get_toolcall :: "py_env \<Rightarrow> string \<Rightarrow> func list res" where
  "deepseek_get_toolcall e response =
     or_react response (Inr (concat (map (deepseek_func e) (re_findall2 deepseek_call_re response))))"

definition deepseek_results :: "string list \<Rightarrow> ctx list" where
  "deepseek_results tools =
     [CText (ds_mark ''end'' ''of'' ''sentence''),
      CText (concat (map (\<lambda>c. ds_mark ''tool'' ''output'' ''begin'' @ c @ ds_mark ''tool'' ''output'' ''end'') tools))]"

definition deepseek_desc :: "py_env \<Rightarrow> pyval \<Rightarrow> string res" where
  "deepseek_desc e tool =
     res_bind (unwrap_tool tool) (\<lambda>t. res_bind (dict_of t) (\<lambda>d. Inr
       (''### '' @ fmt e (get_tool_name d) @ (nl @ ''Description: '') @ fmt e (dget_or d ''description'' (PStr []))
        @ (lines [[],
       [],
       ''Parameters: '']) @ dumps e (dget_or d ''parameters'' (PDict [])))))"

definition deepseek_rules :: string where
  "deepseek_rules =
     (lines [[],
       [],
       ''IMPORTANT: ALWAYS adhere to this exact format for tool use:'',
       ''<'' @ uni [0xff5c] @ ''tool'' @ uni [0x2581] @ ''calls'' @ uni [0x2581] @ ''begin'' @ uni [0xff5c] @ ''><'' @ uni [0xff5c] @ ''tool'' @ uni [0x2581] @ ''call'' @ uni [0x2581] @ ''begin'' @ uni [0xff5c] @ ''>tool_call_name<'' @ uni [0xff5c] @ ''tool'' @ uni [0x2581] @ ''sep'' @ uni [0xff5c] @ ''>tool_call_arguments<'' @ uni [0xff5c] @ ''tool'' @ uni [0x2581] @ ''call'' @ uni [0x2581] @ ''end'' @ uni [0xff5c] @ ''>{additional_tool_calls}<'' @ uni [0xff5c] @ ''tool'' @ uni [0x2581] @ ''calls'' @ uni [0x2581] @ ''end'' @ uni [0xff5c] @ ''>'',
       [],
       ''Where:'',
       ''- `tool_call_name` must be an exact match to one of the available tools'',
       ''- `tool_call_arguments` must be valid JSON that strictly follows the tool's Parameters Schema'',
       ''- For multiple tool calls, chain them directly without separators or spaces''])"

definition deepseek_tools :: "py_env \<Rightarrow> pyval list \<Rightarrow> string option \<Rightarrow> string res" where
  "deepseek_tools e tools system =
     res_bind (map_res (deepseek_desc e) tools) (\<lambda>descs. Inr
       (or_text system @ (lines [[],
       [],
       ''## Tools'',
       ''You have access to the following tools:'',
       [],
       []]) @ join (nl @ nl) descs @ deepseek_rules))"

definition deepseek_call :: "py_env \<Rightarrow> string \<Rightarrow> string res" where
  "deepseek_call e content =
     res_bind (parse_tool_call e content) (\<lambda>(name, arguments). Inr
       (ds_mark ''tool'' ''call'' ''begin'' @ fmt e name @ ds_mark ''tool'' ''sep'' [] @ dumps e arguments
        @ ds_mark ''tool'' ''call'' ''end''))"

definition deepseek_tool_calls :: "py_env \<Rightarrow> string list \<Rightarrow> string res" where
  "deepseek_tool_calls e contents =
     res_bind (map_res (deepseek_call e) contents) (\<lambda>calls. Inr
       (ds_mark ''tool'' ''calls'' ''begin'' @ concat calls @ ds_mark ''tool'' ''calls'' ''end''))"

definition deepseek_template :: "py_env \<Rightarrow> agent_template" where
  "deepseek_template e =
     \<lparr>at_tools = plain_tools (deepseek_tools e), at_responses = unless_action deepseek_results,
      at_calls = deepseek_tool_calls e, at_get_toolcall = deepseek_get_toolcall e\<rparr>"

subsection \<open>MiniMax M2\<close>

definition minimax_block_re :: rx where
  "minimax_block_re = between_re ''<minimax:tool_call>'' lazy_any ''</minimax:tool_call>''"

definition minimax_invoke_re :: rx where
  "minimax_invoke_re = pair_re ''<invoke name=\"'' (some_not [CHR 0x22]) ''\">'' lazy_any ''</invoke>''"

definition minimax_param_re :: rx where
  "minimax_param_re = pair_re ''<parameter name=\"'' (some_not [CHR 0x22]) ''\">'' lazy_any ''</parameter>''"

definition minimax_params :: "py_env \<Rightarrow> string \<Rightarrow> pydict" where
  "minimax_params e block =
     foldl (\<lambda>d (k, v). let value = strip v; parsed = parse_json e value
                        in dset k (if parsed = PNone then PStr value else parsed) d)
       [] (re_findall2 minimax_param_re block)"

definition minimax_get_toolcall :: "py_env \<Rightarrow> string \<Rightarrow> func list res" where
  "minimax_get_toolcall e response =
     or_react response (res_bind
       (map_res (\<lambda>(name, block). mk_func e (PStr name) (PDict (minimax_params e block)))
          (concat (map (re_findall2 minimax_invoke_re) (re_findall1 minimax_block_re response)))) Inr)"

definition minimax_meta :: "py_env \<Rightarrow> prompt \<times> prompt option" where
  "minimax_meta e =
     (case pe_meta e of
        Some (p, sep) \<Rightarrow> (map (\<lambda>w. case w of Word s \<Rightarrow> Word (replace ''user'' ''tool'' s) | Toks ts \<Rightarrow> Toks ts) p, sep)
      | None \<Rightarrow> ([Word ((lines ['']~b]tool'',
       ''{{QUERY}}[e~['',
       []]))], Some [Word ((''[e~['' @ nl))]))"

definition minimax_results :: "string list \<Rightarrow> string" where
  "minimax_results tools = join nl (map (\<lambda>c. ''<response>'' @ c @ ''</response>'') tools)"

definition minimax_tools :: "py_env \<Rightarrow> pyval list \<Rightarrow> string option \<Rightarrow> string res" where
  "minimax_tools e tools system =
     res_bind (map_res unwrap_tool tools) (\<lambda>ts. Inr
       (or_text system
        @ (lines [[],
       [],
       ''# Tools'',
       ''You may call one or more tools to assist with the user query.'',
       ''Here are the tools available in JSONSchema format:'',
       [],
       ''<tools>'',
       []])
        @ join nl (map (\<lambda>t. ''<tool>'' @ dumps e t @ ''</tool>'') ts)
        @ (lines [[],
       ''</tools>'',
       [],
       ''When making tool calls, use XML format to invoke tools and pass parameters:'',
       [],
       ''<minimax:tool_call>'',
       ''<invoke name=\"tool-name-1\">'',
       ''<parameter name=\"param-key-1\">param-value-1</parameter>'',
       ''<parameter name=\"param-key-2\">param-value-2</parameter>'',
       ''...'',
       ''</invoke>'',
       ''</minimax:tool_call>''])))"

definition text_or_dumps :: "py_env \<Rightarrow> pyval \<Rightarrow> string" where
  "text_or_dumps e v = (case v of PStr s \<Rightarrow> s | _ \<Rightarrow> dumps e v)"

definition minimax_call :: "py_env \<Rightarrow> string \<Rightarrow> string res" where
  "minimax_call e content =
     res_bind (parse_tool_call e content) (\<lambda>(name, arguments). res_bind (dict_of arguments) (\<lambda>d. Inr
       (''<invoke name=\"'' @ fmt e name @ (''\">'' @ nl)
        @ join nl (map (\<lambda>(k, v). ''<parameter name=\"'' @ k @ ''\">'' @ text_or_dumps e v @ ''</parameter>'') d)
        @ (nl @ ''</invoke>''))))"

definition minimax_tool_calls :: "py_env \<Rightarrow> string list \<Rightarrow> string res" where
  "minimax_tool_calls e contents =
     res_bind (map_res (minimax_call e) contents) (\<lambda>calls. Inr
       (if calls = [] then [] else (''<minimax:tool_call>'' @ nl) @ join nl calls @ (nl @ ''</minimax:tool_call>'')))"

definition minimax_template :: "py_env \<Rightarrow> agent_template" where
  "minimax_template e =
     \<lparr>at_tools = plain_tools (minimax_tools e), at_responses = query_responses (minimax_meta e) minimax_results,
      at_calls = minimax_tool_calls e, at_get_toolcall = minimax_get_toolcall e\<rparr>"

subsection \<open>Seed\<close>

definition seed_call_re :: rx where
  "seed_call_re = between_re ''<seed:tool_call>'' lazy_some ''</seed:tool_call>''"

definition function_name_re :: rx where
  "function_name_re = seqs [lit ''<function='', Grp 1 (some_not ''>''), lit ''>'']"

definition seed_param_re :: rx where
  "seed_param_re = pair_re ''<parameter='' (some_not ''>'') ''>'' lazy_any ''</parameter>''"

definition seed_func :: "py_env \<Rightarrow> string \<Rightarrow> func list res" where
  "seed_func e body =
     (case re_search function_name_re body of
        None \<Rightarrow> Inr []
      | Some gs \<Rightarrow>
          let arguments = foldl (\<lambda>d (k, v). dset k (PStr v) d) [] (re_findall2 seed_param_re body)
          in res_bind (mk_func e (PStr (group 1 gs)) (PDict arguments)) (\<lambda>f. Inr [f]))"

definition seed_get_toolcall :: "py_env \<Rightarrow> string \<Rightarrow> func list res" where
  "seed_get_toolcall e response =
     (let bodies = re_findall1 seed_call_re response in
      if bodies = [] then Inr (react_get_toolcall react_keyword response) else funcs_of (seed_func e) bodies)"

definition seed_results :: "string list \<Rightarrow> ctx list" where
  "seed_results tools =
     [CText ''<seed:eos>'',
      CText (concat (map (\<lambda>c. (''<seed:bos>tool'' @ nl) @ c @ ''<seed:eos>'') tools) @ (''<seed:bos>assistant'' @ nl))]"

definition py_type :: "pyval \<Rightarrow> string res" where
  "py_type t =
     (case t of
        PStr s \<Rightarrow> Inr (dget_or [(''string'', ''str''), (''number'', ''int''), (''integer'', ''int''),
                              (''boolean'', ''bool''), (''array'', ''list'')] s ''Any'')
      | PList _ \<Rightarrow> Inl TypeError
      | PDict _ \<Rightarrow> Inl TypeError
      | _ \<Rightarrow> Inr ''Any'')"

text \<open>The parameters that come with a specification.\<close>

definition seed_specs :: "pydict \<Rightarrow> (string \<times> pydict) list" where
  "seed_specs properties = List.map_filter (\<lambda>(k, v). map_option (\<lambda>d. (k, d)) (as_dict v)) properties"

definition seed_param :: "string \<times> pydict \<Rightarrow> string res" where
  "seed_param p = res_bind (py_type (dget_or (snd p) ''type'' (PStr ''any''))) (\<lambda>t. Inr (fst p @ '': '' @ t))"

definition seed_arg_line :: "py_env \<Rightarrow> pyval \<Rightarrow> string \<times> pydict \<Rightarrow> string res" where
  "seed_arg_line e required p =
     res_bind (py_in (fst p) required) (\<lambda>req.
     res_bind (py_type (dget_or (snd p) ''type'' (PStr ''any''))) (\<lambda>t. Inr
       (''    - '' @ fst p @ '' ('' @ t @ '') '' @ (if req then (''['' @ uni [0x5fc5, 0x586b] @ '']'') else (''['' @ uni [0x9009, 0x586b] @ '']'')) @ '': ''
        @ fmt e (dget_or (snd p) ''description'' (PStr [])))))"

definition seed_return_line :: "py_env \<Rightarrow> string \<times> pyval \<Rightarrow> string res" where
  "seed_return_line e p =
     res_bind (dict_of (snd p)) (\<lambda>d. res_bind (py_type (dget_or d ''type'' (PStr ''any''))) (\<lambda>t. Inr
       (''    - '' @ fst p @ '' ('' @ t @ ''): '' @ fmt e (dget_or d ''description'' (PStr [])))))"

definition triple_quote :: string where
  "triple_quote = ''    \"\"\"''"

definition seed_arg_lines :: "py_env \<Rightarrow> pydict \<Rightarrow> pydict \<Rightarrow> string list res" where
  "seed_arg_lines e parameters properties =
     (if properties = [] then Inr []
      else res_bind (map_res (seed_arg_line e (dget_or parameters ''required'' (PList []))) (seed_specs properties))
             (\<lambda>ls. Inr (((nl @ ''    Args:'')) # ls)))"

definition seed_return_lines :: "py_env \<Rightarrow> pyval \<Rightarrow> string list res" where
  "seed_return_lines e returns =
     (if \<not> truthy returns then Inr []
      else res_bind (dict_of returns) (\<lambda>d. res_bind (map_res (seed_return_line e) d) (\<lambda>ls.
             Inr (((nl @ ''    Returns:'')) # ls))))"

definition seed_definition :: "py_env \<Rightarrow> pydict \<Rightarrow> pydict \<Rightarrow> pydict \<Rightarrow> string res" where
  "seed_definition e func parameters properties =
     res_bind (map_res seed_param (seed_specs properties)) (\<lambda>params.
     res_bind (stripped (dget_or func ''description'' (PStr []))) (\<lambda>description.
     res_bind (seed_arg_lines e parameters properties) (\<lambda>args.
     res_bind (get_in (dget_or func ''returns'' (PDict [])) ''properties'' (PDict [])) (\<lambda>returns.
     res_bind (seed_return_lines e returns) (\<lambda>rets. Inr
       ((lines [''Function:'',
       ''def '']) @ fmt e (pget func ''name'') @ ''('' @ join '','' params @ (''):'' @ nl)
        @ join nl ([triple_quote, ''    '' @ description] @ args @ rets @ [nl @ triple_quote])))))))"

text \<open>A tool without a name has no definition.\<close>

definition build_tool_def_string :: "py_env \<Rightarrow> pydict \<Rightarrow> string res" where
  "build_tool_def_string e tool =
     res_bind (dict_of (dget_or tool ''function'' (PDict []))) (\<lambda>func.
       if \<not> truthy (pget func ''name'') then Inr []
       else
         res_bind (dict_of (dget_or func ''parameters'' (PDict []))) (\<lambda>parameters.
         res_bind (dict_of (dget_or parameters ''properties'' (PDict []))) (\<lambda>properties.
           seed_definition e func parameters properties)))"

definition seed_tool_def :: "py_env \<Rightarrow> pyval \<Rightarrow> string list res" where
  "seed_tool_def e tool =
     res_bind (wrap_tool tool) (\<lambda>t. res_bind (dict_of t) (\<lambda>d.
       if pget d ''type'' \<noteq> PStr ''function'' then Inr []
       else res_bind (build_tool_def_string e d) (\<lambda>s. Inr (if s = [] then [] else [s]))))"

definition seed_instruction :: string where
  "seed_instruction =
     (lines [uni [0x5de5, 0x5177, 0x8c03, 0x7528, 0x8bf7, 0x9075, 0x5faa, 0x5982, 0x4e0b, 0x683c, 0x5f0f] @ '':'',
       ''<seed:tool_call>'',
       ''<function=example_function_name>'',
       ''<parameter=example_parameter_1>value_1</parameter>'',
       ''<parameter=example_parameter_2>This is the value for the second parameter'',
       ''that can span'',
       ''multiple lines</parameter>'',
       ''</function>'',
       ''</seed:tool_call>''])"

definition seed_split_token :: string where
  "seed_split_token = ''<seed:eos><seed:bos>system''"

definition seed_tools :: "py_env \<Rightarrow> pyval list \<Rightarrow> string option \<Rightarrow> string res" where
  "seed_tools e tools system =
     (if tools = [] then Inr (or_text system)
      else res_bind (map_res (seed_tool_def e) tools) (\<lambda>defs.
        let joined = join (nl @ nl) (concat defs) in
        Inr (case find_sub seed_split_token (or_text system) of
               Some (before, rest) \<Rightarrow>
                 before @ nl @ nl @ joined @ nl @ seed_instruction @ nl @ seed_split_token @ rest
             | None \<Rightarrow>
                 ''You are Doubao, a helpful AI assistant. You may call one or more functions to assist with the user query.''
                   @ nl @ nl @ joined @ nl @ seed_instruction @ nl @ seed_split_token @ nl @ or_text system)))"

definition seed_call :: "py_env \<Rightarrow> string \<Rightarrow> string res" where
  "seed_call e content =
     res_bind (parse_tool_call e content) (\<lambda>(name, arguments). res_bind (dict_of arguments) (\<lambda>d. Inr
       (''<seed:tool_call>'' @ nl
        @ join nl ([''<function='' @ fmt e name @ ''>'']
             @ map (\<lambda>(k, v). ''<parameter='' @ k @ ''>'' @ text_or_dumps e v @ ''</parameter>'') d @ [''</function>''])
        @ nl @ ''</seed:tool_call>'')))"

definition seed_tool_calls :: "py_env \<Rightarrow> string list \<Rightarrow> string res" where
  "seed_tool_calls e contents = res_bind (map_res (seed_call e) contents) (\<lambda>calls. Inr (join nl calls))"

definition seed_template :: "py_env \<Rightarrow> agent_template" where
  "seed_template e =
     \<lparr>at_tools = plain_tools (seed_tools e), at_responses = unless_action seed_results,
      at_calls = seed_tool_calls e, at_get_toolcall = seed_get_toolcall e\<rparr>"

subsection \<open>Qwen3-Coder and Qwen3.5\<close>

definition coder_param_re :: rx where
  "coder_param_re =
     seqs [lit ''<parameter='', Grp 1 (some_not ''>''), lit ''>'', blanks, Grp 2 lazy_any, blanks, lit ''</parameter>'']"

definition coder_find_call :: "py_env \<Rightarrow> string \<Rightarrow> func option" where
  "coder_find_call e content =
     (let single_content = strip content in
      if \<not> starts_with ''<function='' single_content \<or> \<not> ends_with ''</function>'' single_content then None
      else case re_search function_name_re single_content of
             None \<Rightarrow> None
           | Some gs \<Rightarrow>
               let parameters = foldl (\<lambda>d (k, v). dset (strip k) (PStr (strip v)) d) []
                     (re_findall2 coder_param_re single_content)
               in Some \<lparr>fn_name = strip (strip (group 1 gs)), fn_arguments = strip (dumps e (PDict parameters))\<rparr>)"

definition coder_get_toolcall :: "py_env \<Rightarrow> string \<Rightarrow> func list res" where
  "coder_get_toolcall e response =
     or_react response (Inr (List.map_filter (coder_find_call e) (re_findall1 any_call_re response)))"

definition render_extra_keys :: "py_env \<Rightarrow> pyval \<Rightarrow> string list \<Rightarrow> string" where
  "render_extra_keys e obj handled_keys =
     (case obj of
        PDict d \<Rightarrow>
          concat (map (\<lambda>(k, v). if k \<in> set handled_keys then []
                               else nl @ ''<'' @ k @ ''>'' @ dumps e v @ ''</'' @ k @ ''>'') d)
      | _ \<Rightarrow> [])"

definition coder_suffix :: string where
  "coder_suffix =
     (lines [''</tools>'',
       [],
       ''If you choose to call a function ONLY reply in the following format with NO suffix:'',
       [],
       ''<tool_call>'',
       ''<function=example_function_name>'',
       ''<parameter=example_parameter_1>'',
       ''value_1'',
       ''</parameter>'',
       ''<parameter=example_parameter_2>'',
       ''This is the value for the second parameter'',
       ''that can span'',
       ''multiple lines'',
       ''</parameter>'',
       ''</function>'',
       ''</tool_call>'',
       [],
       ''<IMPORTANT>'',
       ''Reminder:'',
       ''- Function calls MUST follow the specified format: an inner <function=...></function> block must be nested within <tool_call></tool_call> XML tags'',
       ''- Required parameters MUST be specified'',
       ''- You may provide optional reasoning for your function call in natural language BEFORE the function call, but NOT after'',
       ''- If there is no function call available, answer the question like normal with your current knowledge and do not tell the user about function calls'',
       ''</IMPORTANT>''])"

text \<open>A field is looked for with \<open>in\<close> and then read by index, which needs a dictionary.\<close>

definition coder_field :: "pyval \<Rightarrow> string \<Rightarrow> pyval option res" where
  "coder_field obj k =
     res_bind (py_in k obj) (\<lambda>present.
       if \<not> present then Inr None
       else case obj of PDict d \<Rightarrow> Inr (dget d k) | _ \<Rightarrow> Inl TypeError)"

definition coder_tagged :: "string \<Rightarrow> string \<Rightarrow> string" where
  "coder_tagged tag s = nl @ ''<'' @ tag @ ''>'' @ s @ ''</'' @ tag @ ''>''"

definition coder_param :: "py_env \<Rightarrow> string \<times> pyval \<Rightarrow> string res" where
  "coder_param e p =
     res_bind (coder_field (snd p) ''type'') (\<lambda>type_text.
     res_bind (coder_field (snd p) ''description'') (\<lambda>description.
     res_bind (case description of None \<Rightarrow> Inr [] | Some v \<Rightarrow> res_bind (stripped v) (\<lambda>s. Inr (coder_tagged ''description'' s)))
       (\<lambda>desc_text. Inr
       (nl @ ''<parameter>'' @ coder_tagged ''name'' (fst p)
        @ (case type_text of None \<Rightarrow> [] | Some v \<Rightarrow> coder_tagged ''type'' (fmt e v))
        @ desc_text @ render_extra_keys e (snd p) [''name'', ''type'', ''description''] @ nl @ ''</parameter>''))))"

definition coder_properties :: "pydict \<Rightarrow> pydict" where
  "coder_properties tool =
     (case pget tool ''parameters'' of
        PDict ps \<Rightarrow> (case pget ps ''properties'' of PDict d \<Rightarrow> d | _ \<Rightarrow> [])
      | _ \<Rightarrow> [])"

definition coder_tool_text :: "py_env \<Rightarrow> pydict \<Rightarrow> string res" where
  "coder_tool_text e tool =
     res_bind (row_item tool ''name'') (\<lambda>name.
     res_bind (case dget tool ''description'' of None \<Rightarrow> Inr []
               | Some v \<Rightarrow> res_bind (stripped v) (\<lambda>s. Inr (coder_tagged ''description'' s))) (\<lambda>description.
     res_bind (map_res (coder_param e) (coder_properties tool)) (\<lambda>params. Inr
       ((lines [''<function>'',
       ''<name>'']) @ fmt e name @ ''</name>'' @ description @ (nl @ ''<parameters>'') @ concat params
        @ (case dget tool ''parameters'' of None \<Rightarrow> [] | Some v \<Rightarrow> render_extra_keys e v [''type'', ''properties''])
        @ (nl @ ''</parameters>'')
        @ render_extra_keys e (PDict tool) [''type'', ''name'', ''description'', ''parameters''] @ (nl @ ''</function>'')))))"

text \<open>A tool that is no dictionary fails when its name is read.\<close>

definition coder_tool :: "py_env \<Rightarrow> pyval \<Rightarrow> string res" where
  "coder_tool e tool =
     (case tool of
        PDict d \<Rightarrow>
          (case (if has_key d ''function'' then pget d ''function'' else PDict d) of
             PDict f \<Rightarrow> coder_tool_text e f
           | _ \<Rightarrow> Inl TypeError)
      | _ \<Rightarrow> Inl TypeError)"

definition coder_tools :: "py_env \<Rightarrow> pyval list \<Rightarrow> string option \<Rightarrow> string res" where
  "coder_tools e tools system =
     res_bind (map_res (coder_tool e) tools) (\<lambda>descs. Inr
       (join nl
          ([(case system of
               None \<Rightarrow> ''You are Qwen, a helpful AI assistant that can interact with a computer to solve tasks.''
             | Some s \<Rightarrow> s) @ (lines [[],
       [],
       ''# Tools'',
       [],
       ''You have access to the following functions:'',
       [],
       ''<tools>''])]
           @ descs @ [coder_suffix])))"

text \<open>Dictionaries and lists are written as JSON with ASCII escapes, other values as Python prints them.\<close>

definition coder_value :: "py_env \<Rightarrow> pyval \<Rightarrow> string" where
  "coder_value e v =
     (case v of
        PDict _ \<Rightarrow> json_dumps_ascii (pe_float e) v
      | PList _ \<Rightarrow> json_dumps_ascii (pe_float e) v
      | _ \<Rightarrow> fmt e v)"

definition coder_call :: "py_env \<Rightarrow> string \<Rightarrow> string res" where
  "coder_call e content =
     res_bind (parse_tool_call e content) (\<lambda>(name, arguments).
     res_bind (if truthy arguments then dict_of arguments else Inr []) (\<lambda>d. Inr
       (''<tool_call>'' @ nl @ ''<function='' @ fmt e name @ ''>'' @ nl
        @ concat (map (\<lambda>(k, v). ''<parameter='' @ k @ ''>'' @ nl @ coder_value e v @ nl @ ''</parameter>'' @ nl) d)
        @ ''</function>'' @ nl @ ''</tool_call>'')))"

definition coder_tool_calls :: "py_env \<Rightarrow> string list \<Rightarrow> string res" where
  "coder_tool_calls e contents = res_bind (map_res (coder_call e) contents) (\<lambda>calls. Inr (join nl calls))"

definition coder_results :: "string list \<Rightarrow> string" where
  "coder_results tools = concat (map (\<lambda>c. (''<tool_response>'' @ nl) @ c @ (lines [[],
       ''</tool_response>'',
       []])) tools)"

definition coder_template :: "py_env \<Rightarrow> agent_template" where
  "coder_template e =
     \<lparr>at_tools = plain_tools (coder_tools e), at_responses = query_responses (hermes_meta e) coder_results,
      at_calls = coder_tool_calls e, at_get_toolcall = coder_get_toolcall e\<rparr>"

definition qwen35_tools :: "py_env \<Rightarrow> pyval list \<Rightarrow> string option \<Rightarrow> string res" where
  "qwen35_tools e tools system =
     res_bind (wrapped_dumps e tools) (\<lambda>descs. Inr
       ((lines [''# Tools'',
       [],
       ''You have access to the following functions:'',
       [],
       ''<tools>'',
       []]) @ join nl descs @ nl @ coder_suffix
        @ (if or_text system = [] then [] else nl @ nl @ or_text system)))"

definition qwen35_template :: "py_env \<Rightarrow> agent_template" where
  "qwen35_template e =
     \<lparr>at_tools = plain_tools (qwen35_tools e), at_responses = query_responses (hermes_meta e) hermes_results,
      at_calls = coder_tool_calls e, at_get_toolcall = coder_get_toolcall e\<rparr>"

subsection \<open>The table of templates\<close>

definition agent_template_map :: "py_env \<Rightarrow> (string \<times> agent_template) list" where
  "agent_template_map e =
     [(''react_en'', base_template e react_keyword (\<lambda>ts s. react_en_tools e ts)),
      (''react_zh'', base_template e react_keyword (\<lambda>ts s. react_zh_tools e ts)),
      (''qwen_en'', base_template e qwen_keyword (qwen_tools False qwen_en_tail e)),
      (''qwen_zh'', base_template e qwen_keyword (qwen_tools True qwen_zh_tail e)),
      (''qwen_en_parallel'', base_template e qwen_keyword (qwen_tools False qwen_en_parallel_tail e)),
      (''qwen_zh_parallel'', base_template e qwen_keyword (qwen_tools True qwen_zh_parallel_tail e)),
      (''qwen3_coder'', coder_template e), (''qwen3_5'', qwen35_template e),
      (''hermes'', hermes_template e), (''hunyuan_hermes'', hunyuan_template e),
      (''toolbench'', base_template e react_keyword (\<lambda>ts s. toolbench_tools e ts)),
      (''chatglm4'', glm4_template False e), (''glm4'', glm4_template True e),
      (''glm4_5'', glm45_template False e), (''glm4_7'', glm45_template True e),
      (''llama3'', llama_template llama3_tokens e), (''llama4'', llama_template llama4_tokens e),
      (''deepseek_v3_1'', deepseek_template e), (''minimax_m2'', minimax_template e), (''seed_oss'', seed_template e),
      (''react_grpo'', base_template e react_keyword (\<lambda>ts s. react_grpo_tools e ts)),
      (''mistral'', mistral_template e), (''youtu'', youtu_template e)]"

subsection \<open>The agent of a chat template\<close>

definition message_texts :: "message list \<Rightarrow> string list res" where
  "message_texts ms = map_res (\<lambda>m. content_text (m_content m)) ms"

text \<open>An agent template as the chat template calls it.\<close>

definition agent_of :: "agent_template \<Rightarrow> agent" where
  "agent_of tpl =
     \<lparr>ag_format_tools = at_tools tpl,
      ag_format_tool_responses = (\<lambda>pre ms.
        res_bind (content_text pre) (\<lambda>a. res_bind (message_texts ms) (\<lambda>ts.
        res_bind (at_responses tpl a ts) (\<lambda>(a', cs). Inr (COne (CText a'), cs))))),
      ag_format_tool_calls = (\<lambda>ms. res_bind (message_texts ms) (at_calls tpl))\<rparr>"

end
