(* ===== verification/AgentLaws.thy ===== *)
theory AgentLaws
  imports AgentFamilies
begin

text \<open>
  Laws of the agent templates: what a lazy pattern between two tags finds, and that the calls which
  Hermes and Youtu write are the calls that are read back from the text.
\<close>

subsection \<open>Patterns between two tags\<close>

lemma rx_match_lit_at:
  "rx_match (lit s) ((b, a), gs) =
     (if starts_with s a then [((rev s @ b, drop (length s) a), gs)] else [])"
proof (induction s arbitrary: b a)
  case Nil
  then show ?case by (simp add: lit_def starts_with_def)
next
  case (Cons c s)
  show ?case
  proof (cases a)
    case Nil
    then show ?thesis by (cases s) (simp_all add: lit_def starts_with_def)
  next
    case (Cons d a')
    have "rx_match (lit (c # s)) ((b, a), gs) = (if d = c then rx_match (lit s) ((c # b, a'), gs) else [])"
      by (cases s) (auto simp: lit_def Cons)
    with Cons.IH [of "c # b" a'] show ?thesis
      by (auto simp: Cons starts_with_def)
  qed
qed

lemma rx_iter_dot:
  "length a \<le> n \<Longrightarrow>
   rx_iter n False (rx_match dot_all) ((b, a), gs) = map (\<lambda>k. ((rev (take k a) @ b, drop k a), gs)) [0 ..< Suc (length a)]"
proof (induction a arbitrary: n b)
  case Nil
  then show ?case by (cases n) (simp_all add: dot_all_def)
next
  case (Cons c a)
  then obtain m where m: "n = Suc m" "length a \<le> m" by (cases n) auto
  have "map (\<lambda>k. ((rev (take k (c # a)) @ b, drop k (c # a)), gs)) [0 ..< Suc (length (c # a))]
      = ((b, c # a), gs) # map (\<lambda>k. ((rev (take k a) @ c # b, drop k a), gs)) [0 ..< Suc (length a)]"
    by (simp add: upt_conv_Cons map_Suc_upt [symmetric] del: upt_Suc)
  with Cons.IH [OF m(2), of "c # b"] show ?case
    by (simp add: m(1) dot_all_def)
qed

lemma rx_match_lazy_any:
  "rx_match lazy_any ((b, a), gs) = map (\<lambda>k. ((rev (take k a) @ b, drop k a), gs)) [0 ..< Suc (length a)]"
  by (simp only: lazy_any_def rx_match.simps rx_iter_dot fst_conv snd_conv order_refl)

lemma rx_match_lazy_some:
  "rx_match lazy_some ((b, a), gs) = map (\<lambda>k. ((rev (take k a) @ b, drop k a), gs)) [1 ..< Suc (length a)]"
proof (cases a)
  case Nil
  then show ?thesis by (simp add: lazy_some_def dot_all_def)
next
  case (Cons c a')
  have "map (\<lambda>k. ((rev (take k (c # a')) @ b, drop k (c # a')), gs)) [1 ..< Suc (length (c # a'))]
      = map (\<lambda>k. ((rev (take k a') @ c # b, drop k a'), gs)) [0 ..< Suc (length a')]"
    by (simp add: map_Suc_upt [symmetric] del: upt_Suc)
  then show ?thesis
    by (simp add: lazy_some_def dot_all_def Cons rx_match_lazy_any del: upt_Suc)
qed

text \<open>A closing tag whose first character occurs nowhere else in it cannot straddle the end of a text.\<close>

lemma no_early_close:
  assumes "cl \<noteq> []" and "hd cl \<notin> set (tl cl)" and "\<not> contains cl x" and "k < length x"
  shows "\<not> starts_with cl (drop k (x @ cl @ r))"
proof
  assume s: "starts_with cl (drop k (x @ cl @ r))"
  then have e: "drop k x @ cl @ r = cl @ drop (length cl) (drop k (x @ cl @ r))"
    using starts_withD [OF s] assms(4) by simp
  show False
  proof (cases "length cl \<le> length (drop k x)")
    case True
    then have "drop k x = cl @ drop (length cl) (drop k x)"
      using e by (metis append_eq_append_conv_if append_take_drop_id)
    then have "x = take k x @ cl @ drop (length cl) (drop k x)"
      by (metis append_take_drop_id)
    then show False
      using assms(3) contains_iff by metis
  next
    case False
    let ?n = "length (drop k x)"
    have n: "0 < ?n" "?n < length cl"
      using assms(4) False by auto
    have "(drop k x @ cl @ r) ! ?n = hd cl"
      using assms(1) by (simp add: nth_append hd_conv_nth)
    moreover have "(drop k x @ cl @ r) ! ?n = cl ! ?n"
      unfolding e using n by (simp add: nth_append)
    moreover have "cl ! ?n \<in> set (tl cl)"
      using n by (cases cl) (auto simp: nth_Cons split: nat.splits)
    ultimately show False
      using assms(2) by simp
  qed
qed

lemma passed_drop: "passed (b, a) (b', drop k a) = take k a"
  by (cases "k \<le> length a") (simp_all add: passed_def)

lemma rx_match_tag:
  "rx_match (between_re op lazy_some cl) ((b, op @ a), []) =
     concat (map (\<lambda>k. rx_match (lit cl) ((rev (take k a) @ rev op @ b, drop k a), [(1, take k a)])) [1 ..< Suc (length a)])"
proof -
  have "rx_match (lit op) ((b, op @ a), []) = [((rev op @ b, a), [])]"
    by (simp add: rx_match_lit_at)
  then show ?thesis
    by (simp add: between_re_def rx_match_lazy_some passed_drop comp_def del: upt_Suc)
qed

subsection \<open>Finding every tagged text\<close>

definition tag_ok :: "string \<Rightarrow> string \<Rightarrow> bool" where
  "tag_ok cl x \<longleftrightarrow> x \<noteq> [] \<and> \<not> contains cl x"

definition tag_text :: "string \<Rightarrow> string \<Rightarrow> string \<Rightarrow> string" where
  "tag_text op cl x = op @ x @ cl"

fun spread :: "string \<Rightarrow> string list \<Rightarrow> string" where
  "spread sep [] = []"
| "spread sep (x # xs) = x @ (if xs = [] then [] else sep @ spread sep xs)"

lemma spread_join: "spread sep xs = join sep xs"
  by (induction xs) (auto simp: join_Cons)

text \<open>
  Two tags with which a text can be marked: neither is empty, and the first character of the closing
  tag occurs only at its beginning.
\<close>

locale tagged_text =
  fixes op cl :: string
  assumes op_nonempty: "op \<noteq> []" and cl_nonempty: "cl \<noteq> []" and cl_head: "hd cl \<notin> set (tl cl)"
begin

lemma match_at_tag:
  assumes "\<not> contains cl x" and "x \<noteq> []"
  shows "match_at (between_re op lazy_some cl) (b, op @ x @ cl @ r)
    = Some ((rev (op @ x @ cl) @ b, r), [(1, x)])"
proof -
  let ?a = "x @ cl @ r"
  let ?F = "\<lambda>k. rx_match (lit cl) ((rev (take k ?a) @ rev op @ b, drop k ?a), [(1, take k ?a)])"
  have "rx_match (between_re op lazy_some cl) ((b, op @ ?a), []) = concat (map ?F [1 ..< Suc (length ?a)])"
    by (rule rx_match_tag)
  also have "[1 ..< Suc (length ?a)] = [1 ..< length x] @ length x # [Suc (length x) ..< Suc (length ?a)]"
  proof -
    have "[1 ..< Suc (length ?a)] = [1 ..< length x] @ [length x ..< Suc (length ?a)]"
      using assms(2) upt_add_eq_append [of 1 "length x" "Suc (length ?a) - length x"] by (cases x) (simp_all del: upt_Suc)
    then show ?thesis by (simp add: upt_conv_Cons del: upt_Suc)
  qed
  also have "concat (map ?F ([1 ..< length x] @ length x # [Suc (length x) ..< Suc (length ?a)]))
      = concat (map ?F [1 ..< length x]) @ ?F (length x) @ concat (map ?F [Suc (length x) ..< Suc (length ?a)])"
    by simp
  also have "concat (map ?F [1 ..< length x]) = []"
    using no_early_close [OF cl_nonempty cl_head assms(1)] by (auto simp: rx_match_lit_at)
  also have "?F (length x) = [((rev cl @ rev x @ rev op @ b, r), [(1, x)])]"
    by (simp add: rx_match_lit_at)
  finally show ?thesis
    by (simp add: match_at_def)
qed

lemma match_at_tag_other:
  assumes "a = [] \<or> hd a \<noteq> hd op"
  shows "match_at (between_re op body cl) (b, a) = None"
proof -
  have "\<not> starts_with op a"
    using assms op_nonempty by (cases op; cases a) (auto simp: starts_with_def)
  then show ?thesis
    by (simp add: match_at_def between_re_def rx_match_lit_at)
qed

lemma search_skips:
  assumes "\<forall>c \<in> set sep. c \<noteq> hd op"
  shows "search_from (between_re op body cl) b (sep @ a) = search_from (between_re op body cl) (rev sep @ b) a"
  using assms
proof (induction sep arbitrary: b)
  case (Cons c sep)
  have "match_at (between_re op body cl) (b, c # sep @ a) = None"
    using Cons.prems by (intro match_at_tag_other) auto
  with Cons show ?case by simp
qed simp

lemma search_tag:
  assumes "\<not> contains cl x" and "x \<noteq> []"
  shows "search_from (between_re op lazy_some cl) b (op @ x @ cl @ r)
    = Some ((b, op @ x @ cl @ r), (rev (op @ x @ cl) @ b, r), [(1, x)])"
proof -
  obtain c s where "op @ x @ cl @ r = c # s"
    using op_nonempty by (cases op) auto
  then show ?thesis
    using match_at_tag [OF assms, of b r] by simp
qed


lemma matches_from_tags:
  assumes "\<forall>c \<in> set sep. c \<noteq> hd op"
  shows "list_all (tag_ok cl) xs \<Longrightarrow> length xs < n \<Longrightarrow> lead = [] \<or> lead = sep \<Longrightarrow>
    map (\<lambda>(pre, m, gs). group 1 gs)
      (fst (matches_from n (between_re op lazy_some cl) (b, if xs = [] then [] else lead @ spread sep (map (tag_text op cl) xs)))) = xs"
proof (induction xs arbitrary: n b lead)
  case Nil
  then obtain m where "n = Suc m" by (cases n) auto
  moreover have "search_from (between_re op lazy_some cl) b [] = None"
    using match_at_tag_other [of "[]"] by simp
  ultimately show ?case by simp
next
  case (Cons x xs)
  obtain m where m: "n = Suc m" "length xs < m"
    using Cons.prems(2) by (cases n) auto
  let ?r = "between_re op lazy_some cl"
  let ?rest = "if xs = [] then [] else sep @ spread sep (map (tag_text op cl) xs)"
  let ?s = "op @ x @ cl @ ?rest"
  have x: "x \<noteq> []" "\<not> contains cl x"
    using Cons.prems(1) by (auto simp: tag_ok_def)
  have lead: "\<forall>c \<in> set lead. c \<noteq> hd op"
    using Cons.prems(3) assms by auto
  have whole: "(if x # xs = [] then [] else lead @ spread sep (map (tag_text op cl) (x # xs))) = lead @ ?s"
    by (simp add: tag_text_def)
  have "search_from ?r b (lead @ ?s) = Some ((rev lead @ b, ?s), (rev (op @ x @ cl) @ rev lead @ b, ?rest), [(1, x)])"
    unfolding search_skips [OF lead] by (rule search_tag [OF x(2,1)])
  moreover have "length ?rest < length ?s"
    using x(1) by simp
  ultimately have "\<exists>pre m'. fst (matches_from n ?r (b, lead @ ?s)) =
      (pre, m', [(1, x)]) # fst (matches_from m ?r (rev (op @ x @ cl) @ rev lead @ b, ?rest))"
    unfolding m(1) by (auto simp: split_beta Let_def)
  moreover have "map (\<lambda>(pre, m, gs). group 1 gs) (fst (matches_from m ?r (rev (op @ x @ cl) @ rev lead @ b, ?rest))) = xs"
    by (rule Cons.IH) (use Cons.prems(1) m(2) in simp_all)
  ultimately show ?case
    unfolding whole by (auto simp: group_def dget_or_def)
qed

lemma length_spread: "length xs \<le> length (spread sep (map (tag_text op cl) xs))"
proof (induction xs)
  case (Cons x xs)
  obtain c s where "op = c # s" using op_nonempty by (cases op) auto
  with Cons show ?case by (auto simp: tag_text_def)
qed simp

lemma findall_tags:
  assumes "\<forall>c \<in> set sep. c \<noteq> hd op" and "list_all (tag_ok cl) xs"
  shows "re_findall1 (between_re op lazy_some cl) (join sep (map (tag_text op cl) xs)) = xs"
proof -
  let ?s = "spread sep (map (tag_text op cl) xs)"
  have "?s = (if xs = [] then [] else [] @ ?s)"
    by simp
  then show ?thesis
    using matches_from_tags [OF assms, of "Suc (length ?s)" "[]" "[]"] length_spread [of xs sep]
    by (simp add: re_findall1_def re_matches_def spread_join)
qed

end

interpretation tool_call_tags: tagged_text "''<tool_call>''" "''</tool_call>''"
  by unfold_locales simp_all

interpretation seed_call_tags: tagged_text "''<seed:tool_call>''" "''</seed:tool_call>''"
  by unfold_locales simp_all

text \<open>The bodies of the calls that Seed writes are the bodies it finds.\<close>

lemma seed_bodies_found:
  assumes "list_all (tag_ok ''</seed:tool_call>'') xs"
  shows "re_findall1 seed_call_re (join nl (map (tag_text ''<seed:tool_call>'' ''</seed:tool_call>'') xs)) = xs"
  unfolding seed_call_re_def
  by (rule seed_call_tags.findall_tags [OF _ assms]) (simp add: nl_def)

subsection \<open>Hermes reads back what it writes\<close>

text \<open>
  A call that JSON can carry: its name is a text, its arguments are a dictionary without floats and
  with distinct keys, and its text does not contain the closing tag.
\<close>

definition call_ok :: "py_env \<Rightarrow> string \<times> pydict \<Rightarrow> bool" where
  "call_ok e c \<longleftrightarrow> json_ok (PDict (snd c)) \<and> \<not> contains ''</tool_call>'' (nl @ dumps e (call_object (PStr (fst c), PDict (snd c))) @ nl)"

definition call_text :: "py_env \<Rightarrow> string \<times> pydict \<Rightarrow> string" where
  "call_text e c = dumps e (call_object (PStr (fst c), PDict (snd c)))"

definition call_func :: "py_env \<Rightarrow> string \<times> pydict \<Rightarrow> func" where
  "call_func e c = \<lparr>fn_name = strip (fst c), fn_arguments = strip (dumps e (PDict (snd c)))\<rparr>"

lemma json_ok_call: "json_ok (PDict d) \<Longrightarrow> json_ok (call_object (PStr n, PDict d))"
  by (simp add: call_object_def)

lemma parse_call_text:
  assumes "json_ok (PDict (snd c))" and "\<forall>x \<in> set w. is_json_ws x" and "\<forall>x \<in> set u. is_json_ws x"
  shows "parse_json e (w @ call_text e c @ u) = call_object (PStr (fst c), PDict (snd c))"
  using json_loads_dumps [OF json_ok_call [OF assms(1)] assms(2,3)]
  by (simp add: parse_json_def call_text_def dumps_def)

lemma parse_tool_call_text:
  assumes "json_ok (PDict (snd c))"
  shows "parse_tool_call e (call_text e c) = Inr (PStr (fst c), PDict (snd c))"
  using parse_call_text [OF assms, of "[]" "[]" e]
  by (simp add: parse_tool_call_def call_object_def row_item_def parse_json_val_def)

lemma hermes_func_text:
  assumes "json_ok (PDict (snd c))" and "\<forall>x \<in> set w. is_json_ws x"
  shows "hermes_func e (w @ call_text e c @ w) = Inr [call_func e c]"
  using parse_call_text [OF assms(1) assms(2) assms(2), of e]
  by (simp add: call_object_def has_key_def mk_func_def call_func_def)

lemma map_res_map: "map_res f (map g xs) = map_res (\<lambda>x. f (g x)) xs"
  by (induction xs) simp_all

lemma tagged_calls_read_back:
  assumes "calls \<noteq> []" and "\<forall>x \<in> set w. is_json_ws x" and "\<forall>x \<in> set sep. x \<noteq> CHR ''<''"
    and "\<And>c. c \<in> set calls \<Longrightarrow> json_ok (PDict (snd c)) \<and> \<not> contains ''</tool_call>'' (w @ call_text e c @ w)"
  shows "hermes_get_toolcall e (join sep (map (\<lambda>c. ''<tool_call>'' @ (w @ call_text e c @ w) @ ''</tool_call>'') calls))
    = Inr (map (call_func e) calls)"
proof -
  let ?xs = "map (\<lambda>c. w @ call_text e c @ w) calls"
  have texts: "map (\<lambda>c. ''<tool_call>'' @ (w @ call_text e c @ w) @ ''</tool_call>'') calls
      = map (tag_text ''<tool_call>'' ''</tool_call>'') ?xs"
    by (simp add: tag_text_def)
  have ne: "call_text e c \<noteq> []" for c
    by (simp add: call_text_def dumps_def json_dumps_def call_object_def)
  have ok: "list_all (tag_ok ''</tool_call>'') ?xs"
    unfolding list_all_iff using assms(4) ne by (auto simp: tag_ok_def)
  have sep: "\<forall>c \<in> set sep. c \<noteq> hd ''<tool_call>''"
    using assms(3) by simp
  have "re_findall1 tool_call_re (join sep (map (tag_text ''<tool_call>'' ''</tool_call>'') ?xs)) = ?xs"
    unfolding tool_call_re_def by (rule tool_call_tags.findall_tags [OF sep ok])
  moreover have "map_res (hermes_func e) ?xs = Inr (map (\<lambda>c. [call_func e c]) calls)"
    using map_res_all [of calls "\<lambda>c. hermes_func e (w @ call_text e c @ w)" "\<lambda>c. [call_func e c]"]
      hermes_func_text [OF _ assms(2)] assms(4)
    by (simp add: map_res_map)
  moreover have "concat (map (\<lambda>c. [call_func e c]) calls) = map (call_func e) calls"
    by (induction calls) auto
  ultimately show ?thesis
    unfolding texts using assms(1) by (simp add: hermes_get_toolcall_def or_react_def funcs_of_def)
qed


lemma hermes_call_text:
  "json_ok (PDict (snd c)) \<Longrightarrow>
   hermes_call e (call_text e c) = Inr (''<tool_call>'' @ (nl @ call_text e c @ nl) @ ''</tool_call>'')"
  by (simp add: hermes_call_def parse_tool_call_text) (simp add: call_text_def)

lemma youtu_call_text:
  "json_ok (PDict (snd c)) \<Longrightarrow>
   youtu_call e (call_text e c) = Inr (''<tool_call>'' @ ([] @ call_text e c @ []) @ ''</tool_call>'')"
  by (simp add: youtu_call_def parse_tool_call_text) (simp add: call_text_def)

lemma join_empty: "join [] xs = concat xs"
proof (induction xs)
  case (Cons x xs)
  then show ?case by (cases xs) simp_all
qed simp

lemma contains_around: "contains p s \<Longrightarrow> contains p (a @ s @ b)"
proof -
  assume "contains p s"
  then obtain x y where "s = x @ p @ y"
    by (auto simp: contains_iff)
  then have "a @ s @ b = (a @ x) @ p @ (y @ b)"
    by simp
  then show ?thesis
    unfolding contains_iff by blast
qed

text \<open>
  C15. Tool calls survive the trip through the text of an answer: for calls that JSON can carry and
  whose text does not contain the closing tag, what Hermes writes is read back as exactly these
  calls, in order, with the name stripped and the arguments as JSON; the same holds for the text of
  Youtu, which leaves out the line breaks.
\<close>

theorem tool_calls_read_back:
  assumes "calls \<noteq> []" and "list_all (call_ok e) calls"
  shows "res_bind (hermes_tool_calls e (map (call_text e) calls)) (hermes_get_toolcall e) = Inr (map (call_func e) calls)
    \<and> res_bind (youtu_tool_calls e (map (call_text e) calls)) (hermes_get_toolcall e) = Inr (map (call_func e) calls)"
proof -
  have ok: "json_ok (PDict (snd c)) \<and> \<not> contains ''</tool_call>'' (nl @ call_text e c @ nl)" if "c \<in> set calls" for c
    using assms(2) that unfolding list_all_iff call_ok_def call_text_def by blast
  have ok2: "json_ok (PDict (snd c)) \<and> \<not> contains ''</tool_call>'' ([] @ call_text e c @ [])" if "c \<in> set calls" for c
    using ok [OF that] contains_around [of "''</tool_call>''" "call_text e c" nl nl] by auto
  have "hermes_tool_calls e (map (call_text e) calls)
      = Inr (join nl (map (\<lambda>c. ''<tool_call>'' @ (nl @ call_text e c @ nl) @ ''</tool_call>'') calls))"
    using map_res_all [of calls "\<lambda>c. hermes_call e (call_text e c)"] hermes_call_text ok
    by (simp add: hermes_tool_calls_def map_res_map)
  moreover have "youtu_tool_calls e (map (call_text e) calls)
      = Inr (join [] (map (\<lambda>c. ''<tool_call>'' @ ([] @ call_text e c @ []) @ ''</tool_call>'') calls))"
    using map_res_all [of calls "\<lambda>c. youtu_call e (call_text e c)"] youtu_call_text ok
    by (simp add: youtu_tool_calls_def map_res_map join_empty)
  moreover have "hermes_get_toolcall e (join nl (map (\<lambda>c. ''<tool_call>'' @ (nl @ call_text e c @ nl) @ ''</tool_call>'') calls))
      = Inr (map (call_func e) calls)"
    by (rule tagged_calls_read_back [OF assms(1) _ _ ok]) (simp_all add: nl_def is_json_ws_def)
  moreover have "hermes_get_toolcall e (join [] (map (\<lambda>c. ''<tool_call>'' @ ([] @ call_text e c @ []) @ ''</tool_call>'') calls))
      = Inr (map (call_func e) calls)"
    by (rule tagged_calls_read_back [OF assms(1) _ _ ok2]) simp_all
  ultimately show ?thesis
    by (simp only: res_bind_Inr simp_thms)
qed

definition sample_env :: py_env where
  "sample_env = \<lparr>pe_literal = (\<lambda>s. None), pe_repr = (\<lambda>v. []), pe_float = (\<lambda>x. []), pe_meta = None\<rparr>"

definition sample_calls :: "(string \<times> pydict) list" where
  "sample_calls = [('' weather'', [(''city'', PStr [CHR ''a'', CHR 0x22, CHR 0x0A]), (''days'', PInt (-12))]), (''now'', [])]"

theorem tool_calls_read_back_witness:
  "res_bind (hermes_tool_calls sample_env (map (call_text sample_env) sample_calls)) (hermes_get_toolcall sample_env)
     = Inr (map (call_func sample_env) sample_calls) \<and> map fn_name (map (call_func sample_env) sample_calls) = [''weather'', ''now'']"
proof -
  have "list_all (call_ok sample_env) sample_calls"
    by code_simp
  moreover have "sample_calls \<noteq> []"
    by (simp add: sample_calls_def)
  moreover have "map fn_name (map (call_func sample_env) sample_calls) = [''weather'', ''now'']"
    by code_simp
  ultimately show ?thesis
    using tool_calls_read_back [of sample_calls sample_env] by blast
qed

subsection \<open>Where the texts do not say what they are asked to\<close>

text \<open>
  The ReAct prompt asks for the arguments as a JSON object, but a call is written with Python's own
  text of the dictionary.
\<close>

lemma react_arguments_are_repr:
  assumes "json_ok (PDict (snd c))"
  shows "react_call e react_keyword (call_text e c)
    = Inr (''Action: '' @ fst c @ nl @ ''Action Input: '' @ pe_repr e (PDict (snd c)) @ nl)"
  using parse_tool_call_text [OF assms, of e]
  by (simp add: react_call_def react_keyword_def fmt_def py_str_def)

text \<open>
  The Hunyuan prompt asks for a function name and a fenced JSON block; a call that is written by
  \<open>_format_tool_calls\<close> has neither and is read back only by the fall-back to Hermes.
\<close>

lemma hunyuan_call_not_in_own_format:
  "res_bind (hunyuan_tool_calls sample_env (map (call_text sample_env) sample_calls)) (\<lambda>s. Inr (contains ''```json'' s))
     = Inr False"
  by code_simp

end
