(* ===== verification/GrpoAdvantage.thy ===== *)
theory GrpoAdvantage
  imports PyDumps
begin

text \<open>
  From rewards to advantages in \<open>GRPOTrainer\<close> (\<open>swift/rlhf_trainers/grpo_trainer.py\<close>): the ids of
  prompts and requests, the weighted rewards, the baselines of GRPO, RLOO and REINFORCE++, the
  scaling by standard deviations, GDPO, the logged reward statistics and the standard deviations
  that dynamic sampling looks at.  Tensors are lists of reals, \<open>None\<close> is \<open>nan\<close>; a batch is the one
  gathered from all processes.
\<close>

subsection \<open>Statistics of tensors\<close>

type_synonym fl = "real option"

text \<open>\<open>x.view(-1, n)\<close>.\<close>

definition view_groups :: "nat \<Rightarrow> 'a list \<Rightarrow> 'a list list res" where
  "view_groups n xs = (if n = 0 \<or> length xs mod n \<noteq> 0 then Inl RuntimeError else Inr (chunks n xs))"

definition tmean :: "real list \<Rightarrow> fl" where
  "tmean xs = (if xs = [] then None else Some (mean xs))"

definition sq_dev :: "real list \<Rightarrow> real" where
  "sq_dev xs = sum_list (map (\<lambda>x. (x - mean xs)\<^sup>2) xs)"

text \<open>\<open>x.std()\<close> divides by one less than the number of elements, and is \<open>nan\<close> for a single one.\<close>

definition tstd :: "real list \<Rightarrow> fl" where
  "tstd xs = (if length xs \<le> 1 then None else Some (sqrt (sq_dev xs / (real (length xs) - 1))))"

definition present :: "fl list \<Rightarrow> real list" where
  "present xs = List.map_filter id xs"

definition nanmean :: "fl list \<Rightarrow> fl" where
  "nanmean xs = tmean (present xs)"

definition nanstd :: "fl list \<Rightarrow> fl" where
  "nanstd xs =
     (let ys = present xs; n = real (length ys); var = mean (map (\<lambda>y. (y - mean ys)\<^sup>2) ys)
      in if length ys \<le> 1 then None else Some (sqrt (var * (n / (n - 1)))))"

text \<open>The mean of a tensor in which one \<open>nan\<close> is enough to spoil it.\<close>

definition fl_mean :: "fl list \<Rightarrow> fl" where
  "fl_mean xs = (if None \<in> set xs then None else tmean (present xs))"

subsection \<open>Prompts and requests\<close>

record sample =
  sa_messages :: "pyval list"
  sa_images :: "string list"
  sa_prompt_id :: string
  sa_request_id :: string

definition messages_key :: "(real \<Rightarrow> string) \<Rightarrow> sample \<Rightarrow> string" where
  "messages_key ff s = json_dumps_ascii ff (PList (sa_messages s))"

definition number_prompt :: "string \<Rightarrow> (string, string) dict \<Rightarrow> (string, string) dict" where
  "number_prompt key d = (if dget d key = None then dset key (''prompt_'' @ show_nat (length d)) d else d)"

definition prompt_numbers :: "string list \<Rightarrow> (string, string) dict" where
  "prompt_numbers keys = fold number_prompt keys []"

text \<open>The inputs of one process, each with a fresh hexadecimal uuid; \<open>all\<close> are those of all processes.\<close>

definition add_prompt_id ::
  "(real \<Rightarrow> string) \<Rightarrow> sample list \<Rightarrow> (sample \<times> string) list \<Rightarrow> sample list res" where
  "add_prompt_id ff all inputs =
     (let table = prompt_numbers (map (messages_key ff) all) in
      map_res (\<lambda>(s, hex). case dget table (messages_key ff s) of
                  None \<Rightarrow> Inl KeyError
                | Some p \<Rightarrow> Inr (s\<lparr>sa_prompt_id := p, sa_request_id := ''chatcmpl-'' @ hex\<rparr>)) inputs)"

text \<open>\<open>remove_response\<close> on messages as dictionaries.\<close>

definition message_item :: "string \<Rightarrow> pyval \<Rightarrow> pyval res" where
  "message_item k m =
     (case m of PDict d \<Rightarrow> (case dget d k of None \<Rightarrow> Inl KeyError | Some v \<Rightarrow> Inr v) | _ \<Rightarrow> Inl TypeError)"

definition drop_response :: "pyval list \<Rightarrow> pyval list res" where
  "drop_response ms =
     (if ms = [] then Inr []
      else res_bind (message_item ''role'' (last ms)) (\<lambda>r.
        if r = PStr ''assistant'' then res_bind (message_item ''content'' (last ms)) (\<lambda>c. Inr (butlast ms))
        else Inr ms))"

definition preprocess_rollout_inputs ::
  "(real \<Rightarrow> string) \<Rightarrow> sample list \<Rightarrow> (sample \<times> string) list \<Rightarrow> sample list res" where
  "preprocess_rollout_inputs ff all inputs =
     res_bind (add_prompt_id ff all inputs) (\<lambda>ss.
     map_res (\<lambda>s. res_bind (drop_response (sa_messages s)) (\<lambda>ms. Inr (s\<lparr>sa_messages := ms\<rparr>))) ss)"

subsection \<open>Settings\<close>

datatype reward_scale = Scale_group | Scale_batch | Scale_none | Scale_gdpo

datatype estimator = Est_grpo | Est_rloo | Est_reinforce_pp

record grpo_args =
  ga_generations :: nat
  ga_generations_eval :: nat
  ga_training :: bool
  ga_dynamic :: bool
  ga_scale :: reward_scale
  ga_estimator :: estimator
  ga_weights :: "real list"
  ga_beta :: real
  ga_kl_in_reward :: bool

text \<open>What \<open>_prepare_algorithm_params\<close> does to the settings.\<close>

definition prepare_algorithm_params :: "grpo_args \<Rightarrow> grpo_args" where
  "prepare_algorithm_params A =
     (if ga_scale A = Scale_gdpo \<and> ga_kl_in_reward A then A\<lparr>ga_kl_in_reward := False\<rparr> else A)"

definition num_generations :: "grpo_args \<Rightarrow> nat" where
  "num_generations A = (if ga_training A then ga_generations A else ga_generations_eval A)"

text \<open>\<open>GRPOConfig.check_num_generations\<close>; the evaluation part is \<open>None\<close> without evaluation.\<close>

definition divisors_from :: "nat \<Rightarrow> nat \<Rightarrow> nat list" where
  "divisors_from lo n = filter (\<lambda>k. n mod k = 0) [lo ..< n + 1]"

definition check_num_generations :: "nat \<Rightarrow> nat \<Rightarrow> (nat option \<times> nat \<times> nat) option \<Rightarrow> unit res" where
  "check_num_generations generations generation_batch_size eval =
     (if generations < 2 \<or> generations \<notin> set (divisors_from 2 generation_batch_size) then Inl ValueError
      else case eval of
        None \<Rightarrow> Inr ()
      | Some (generations_eval, device_batch, processes) \<Rightarrow>
          let k = (case generations_eval of None \<Rightarrow> generations | Some e \<Rightarrow> if e = 0 then generations else e)
          in if k \<notin> set (divisors_from 1 (device_batch * processes)) then Inl ValueError else Inr ())"

subsection \<open>Rewards\<close>

definition weigh :: "real list \<Rightarrow> fl list \<Rightarrow> real" where
  "weigh ws row = sum_list (map (\<lambda>(w, r). case r of None \<Rightarrow> 0 | Some x \<Rightarrow> x * w) (zip ws row))"

text \<open>The divergence of a completion from the reference, summed over its tokens.\<close>

definition sequence_kl :: "real list \<Rightarrow> real list \<Rightarrow> bool list \<Rightarrow> real" where
  "sequence_kl old ref msk =
     sum_list (map (\<lambda>((o', r), m). (o' - r) * (if m then 1 else 0)) (zip (zip old ref) msk))"

definition total_rewards :: "grpo_args \<Rightarrow> real list \<Rightarrow> fl list list \<Rightarrow> real list" where
  "total_rewards A kls rows =
     (let rewards = map (weigh (ga_weights A)) rows
      in if ga_kl_in_reward A \<and> ga_beta A \<noteq> 0 then map (\<lambda>(r, k). r - ga_beta A * k) (zip rewards kls) else rewards)"

subsection \<open>Baselines and scales\<close>

text \<open>The advantage of the reward \<open>r\<close> in a group of \<open>k\<close> rewards with mean \<open>m\<close>.\<close>

definition centred :: "estimator \<Rightarrow> nat \<Rightarrow> real \<Rightarrow> real \<Rightarrow> real" where
  "centred est k m r =
     (if est = Est_rloo \<and> 1 < k then r * real k / (real k - 1) - m * real k / (real k - 1) else r - m)"

definition baseline :: "estimator \<Rightarrow> nat \<Rightarrow> real list \<Rightarrow> real list" where
  "baseline est k rs = map (centred est k (mean rs)) rs"

definition normalize_advantage :: "fl \<Rightarrow> real \<Rightarrow> fl" where
  "normalize_advantage s a = map_option (\<lambda>d. a / (d + 1 / 10000)) s"

definition std_or_zero :: "nat \<Rightarrow> real list \<Rightarrow> fl" where
  "std_or_zero k xs = (if 1 < k then tstd xs else Some 0)"

text \<open>GDPO: every reward function is normalised in the group, then the sum over the batch.\<close>

definition gdpo_entry :: "nat \<Rightarrow> fl list \<Rightarrow> fl \<Rightarrow> real" where
  "gdpo_entry k col x =
     (case (x, nanmean col, if 1 < k then nanstd col else Some 0) of
        (Some y, Some m, Some s) \<Rightarrow> (y - m) / (s + 1 / 10 ^ 8)
      | _ \<Rightarrow> 0)"

definition gdpo_sum :: "nat \<Rightarrow> real list \<Rightarrow> fl list list \<Rightarrow> fl list \<Rightarrow> real" where
  "gdpo_sum k ws g row =
     sum_list (map (\<lambda>(j, w). gdpo_entry k (map (\<lambda>r. r ! j) g) (row ! j) * w) (zip [0 ..< length ws] ws))"

definition gdpo :: "nat \<Rightarrow> real list \<Rightarrow> fl list list list \<Rightarrow> fl list" where
  "gdpo k ws groups =
     (let ys = concat (map (\<lambda>g. map (gdpo_sum k ws g) g) groups)
      in case tstd ys of
           None \<Rightarrow> map (\<lambda>_. None) ys
         | Some s \<Rightarrow> map (\<lambda>a. Some ((a - mean ys) / (s + 1 / 10 ^ 8))) ys)"

text \<open>The default mode: consecutive groups, one per prompt.\<close>

definition grouped_advantages :: "grpo_args \<Rightarrow> fl list list \<Rightarrow> real list \<Rightarrow> fl list res" where
  "grouped_advantages A rows rewards =
     (let k = num_generations A; est = ga_estimator A in
      res_bind (view_groups k rewards) (\<lambda>groups.
      let adv = concat (map (baseline est k) groups) in
      Inr (if est = Est_reinforce_pp
           then (case ga_scale A of
                   Scale_batch \<Rightarrow> map (normalize_advantage (std_or_zero (length adv) adv)) adv
                 | Scale_group \<Rightarrow> concat (map (\<lambda>g. map (normalize_advantage (std_or_zero k g)) g) (chunks k adv))
                 | _ \<Rightarrow> map Some adv)
           else (case ga_scale A of
                   Scale_batch \<Rightarrow> map (normalize_advantage (std_or_zero (length rewards) rewards)) adv
                 | Scale_group \<Rightarrow>
                     concat (map (\<lambda>g. map (normalize_advantage (std_or_zero k g)) (baseline est k g)) groups)
                 | Scale_gdpo \<Rightarrow> gdpo k (ga_weights A) (chunks k rows)
                 | Scale_none \<Rightarrow> map Some adv))))"

subsection \<open>Requests with several completions\<close>

definition get_last_indices :: "string list \<Rightarrow> nat list" where
  "get_last_indices ids = map snd (fold (\<lambda>(i, r) d. dset r i d) (zip [0 ..< length ids] ids) [])"

text \<open>\<open>torch.allclose(rewards[idxs], first, atol=1e-6)\<close>.\<close>

definition same_rewards :: "real list \<Rightarrow> string list \<Rightarrow> string \<Rightarrow> bool" where
  "same_rewards rewards ids rid =
     (let idxs = filter (\<lambda>i. ids ! i = rid) [0 ..< length ids]; first = rewards ! hd idxs
      in list_all (\<lambda>i. \<bar>rewards ! i - first\<bar> \<le> 1 / 10 ^ 6 + 1 / 10 ^ 5 * \<bar>first\<bar>) idxs)"

text \<open>The positions with the prompt of position \<open>i\<close>.\<close>

definition peers :: "string list \<Rightarrow> nat \<Rightarrow> nat list" where
  "peers pids i = dget_or (group_by (\<lambda>j. pids ! j) [0 ..< length pids]) (pids ! i) []"

definition peer_values :: "string list \<Rightarrow> real list \<Rightarrow> nat \<Rightarrow> real list" where
  "peer_values pids xs i = map ((!) xs) (peers pids i)"

definition peer_stds :: "string list \<Rightarrow> real list \<Rightarrow> fl list" where
  "peer_stds pids xs = map (\<lambda>i. let g = peer_values pids xs i in std_or_zero (length g) g) [0 ..< length xs]"

definition request_advantages :: "grpo_args \<Rightarrow> string list \<Rightarrow> real list \<Rightarrow> fl list" where
  "request_advantages A pids rs =
     (let adv = map (\<lambda>i. let g = peer_values pids rs i in centred (ga_estimator A) (length g) (mean g) (rs ! i))
                  [0 ..< length rs];
          base = (if ga_estimator A = Est_reinforce_pp then adv else rs)
      in case ga_scale A of
           Scale_batch \<Rightarrow> map (normalize_advantage (std_or_zero (length base) base)) adv
         | Scale_group \<Rightarrow> map (\<lambda>(s, a). normalize_advantage s a) (zip (peer_stds pids base) adv)
         | _ \<Rightarrow> map Some adv)"

text \<open>The position of a request among the distinct requests.\<close>

definition rid_to_idx :: "string list \<Rightarrow> (string, nat) dict" where
  "rid_to_idx rids = fold (\<lambda>(i, r) d. dset r i d) (zip [0 ..< length rids] rids) []"

definition spread_back :: "string list \<Rightarrow> string list \<Rightarrow> 'a list \<Rightarrow> 'a list res" where
  "spread_back uniq rids xs =
     map_res (\<lambda>r. case dget (rid_to_idx uniq) r of None \<Rightarrow> Inl KeyError | Some i \<Rightarrow> Inr (xs ! i)) rids"

subsection \<open>Logged statistics\<close>

record reward_stats =
  rs_mean :: fl
  rs_std :: fl
  rs_zero_std :: fl
  rs_funcs :: "(fl \<times> fl) list"

definition std_is_zero :: "fl \<Rightarrow> bool" where
  "std_is_zero s = (case s of None \<Rightarrow> False | Some x \<Rightarrow> \<bar>x\<bar> \<le> 1 / 10 ^ 8)"

definition log_rewards_metrics :: "grpo_args \<Rightarrow> real list \<Rightarrow> fl list list \<Rightarrow> reward_stats res" where
  "log_rewards_metrics A rewards rows =
     (let n = num_generations A in
      res_bind (view_groups n rewards) (\<lambda>groups.
      Inr \<lparr>rs_mean = tmean (map mean groups),
           rs_std = (if ga_scale A = Scale_batch then std_or_zero (length rewards) rewards
                     else if 1 < n then fl_mean (map tstd groups) else Some 0),
           rs_zero_std = tmean (map (\<lambda>g. if std_is_zero (std_or_zero n g) then 1 else 0) groups),
           rs_funcs = map (\<lambda>j. let col = map (\<lambda>row. row ! j) rows in (nanmean col, nanstd col)) [0 ..< length (ga_weights A)]\<rparr>))"

subsection \<open>Advantages\<close>

definition compute_advantages ::
  "grpo_args \<Rightarrow> string list \<Rightarrow> string list \<Rightarrow> real list \<Rightarrow> fl list list \<Rightarrow> (fl list \<times> reward_stats) res" where
  "compute_advantages A pids rids kls rows =
     (let rewards = total_rewards A kls rows in
      if \<not> ga_dynamic A then
        res_bind (grouped_advantages A rows rewards) (\<lambda>adv.
        res_bind (log_rewards_metrics A rewards rows) (\<lambda>stats. Inr (adv, stats)))
      else if length rewards \<noteq> length pids \<or> length pids \<noteq> length rids then Inl AssertionError
      else
        let idx = get_last_indices rids; uniq = map ((!) rids) idx; upids = map ((!) pids) idx;
            urewards = map ((!) rewards) idx
        in if \<not> list_all (same_rewards rewards rids) rids then Inl ValueError
           else
             res_bind (spread_back uniq rids (request_advantages A upids urewards)) (\<lambda>adv.
             res_bind (log_rewards_metrics A urewards (map ((!) rows) idx)) (\<lambda>stats. Inr (adv, stats))))"

definition compute_std :: "grpo_args \<Rightarrow> string list \<Rightarrow> string list \<Rightarrow> fl list list \<Rightarrow> fl list res" where
  "compute_std A pids rids rows =
     (let rewards = map (weigh (ga_weights A)) rows; k = num_generations A in
      if \<not> ga_dynamic A then
        res_bind (view_groups k rewards) (\<lambda>groups.
        Inr (concat (map (\<lambda>g. replicate k (std_or_zero k g)) groups)))
      else
        let idx = get_last_indices rids
        in spread_back (map ((!) rids) idx) rids (peer_stds (map ((!) pids) idx) (map ((!) rewards) idx)))"

end
