(* ===== verification/GrpoRollout.thy ===== *)
theory GrpoRollout
  imports GrpoAdvantage Contexts
begin

text \<open>
  How \<open>GRPOTrainer\<close> obtains and distributes its samples (\<open>swift/rlhf_trainers\<close>): the buffer of
  generated batches, the three even splits, resampling of rows that cannot be encoded, dynamic
  sampling of groups without spread, and the token ids put in place of the answers.  Generation
  and scoring are arguments: the stream of scored batches.
\<close>

subsection \<open>Even splits\<close>

definition py_slice :: "nat \<Rightarrow> nat \<Rightarrow> 'a list \<Rightarrow> 'a list" where
  "py_slice a b xs = take (b - a) (drop a xs)"

definition chunk_list :: "nat \<Rightarrow> 'a list \<Rightarrow> 'a list list res" where
  "chunk_list n xs =
     (if n = 0 then Inl ZeroDivisionError
      else let k = length xs div n; r = length xs mod n
           in Inr (map (\<lambda>i. py_slice (i * k + min i r) ((i + 1) * k + min (i + 1) r) xs) [0 ..< n]))"

text \<open>The part of a process, and whether it is padded for the gather operations.\<close>

definition get_even_process_data :: "nat \<Rightarrow> nat \<Rightarrow> 'a list \<Rightarrow> ('a list \<times> nat) res" where
  "get_even_process_data procs p xs =
     (if procs = 0 then Inl ZeroDivisionError
      else let base = length xs div procs; r = length xs mod procs;
               start = (if p < r then p * (base + 1) else r * (base + 1) + (p - r) * base);
               stop = (if p < r then start + base + 1 else start + base)
           in Inr (py_slice start stop xs, if 0 < r \<and> r \<le> p then 1 else 0))"

text \<open>The loop over the steps of a generation; \<open>fuel\<close> steps are left, \<open>i\<close> are done.\<close>

fun step_chunks :: "nat \<Rightarrow> nat \<Rightarrow> nat \<Rightarrow> nat \<Rightarrow> nat \<Rightarrow> 'a list \<Rightarrow> 'a list list" where
  "step_chunks sz r i start 0 xs = []"
| "step_chunks sz r i start (Suc n) xs =
     (let stop = start + sz + (if i < r then 1 else 0)
      in py_slice start stop xs # step_chunks sz r (Suc i) stop n xs)"

definition mini_batches :: "nat \<Rightarrow> 'a list \<Rightarrow> 'a list list res" where
  "mini_batches spg xs =
     (if spg = 0 then Inl ZeroDivisionError
      else Inr (step_chunks (length xs div spg) (length xs mod spg) 0 0 spg xs))"

text \<open>
  With sequence parallelism every process splits what the processes of its group hold: \<open>gathered\<close>
  lists the ring members, each with the inputs of its members.
\<close>

record split_args =
  sx_training :: bool
  sx_sequence_parallel :: nat
  sx_steps :: nat
  sx_world :: nat
  sx_eval_batch :: nat

definition split_by_mini_batches :: "split_args \<Rightarrow> 'a list \<Rightarrow> 'a list list list \<Rightarrow> 'a list list res" where
  "split_by_mini_batches S local gathered =
     (if sx_sequence_parallel S = 1 then mini_batches (if sx_training S then sx_steps S else 1) local
      else
        let xs = concat (map concat gathered)
        in if sx_training S then mini_batches (sx_steps S * sx_world S) xs
           else mini_batches 1 (take (sx_eval_batch S) xs))"

definition round_robin :: "nat \<Rightarrow> nat \<Rightarrow> nat list list res" where
  "round_robin reqs workers =
     (if workers = 0 then if reqs = 0 then Inr [] else Inl ZeroDivisionError
      else Inr (fold (\<lambda>idx d. d[idx mod workers := d ! (idx mod workers) @ [idx]]) [0 ..< reqs] (replicate workers [])))"

subsection \<open>The buffer of generated batches\<close>

record 'b buffer =
  bf_step :: nat
  bf_buffered :: "'b list option"

record buffer_args =
  ba_steps :: nat
  ba_sequence_parallel :: nat
  ba_iterations :: nat

datatype 'b local_input = Slice 'b | Whole "'b list"

definition rollout_samples :: "buffer_args \<Rightarrow> nat" where
  "rollout_samples B = ba_steps B * ba_sequence_parallel B"

definition generate_every :: "buffer_args \<Rightarrow> nat" where
  "generate_every B = rollout_samples B * ba_iterations B"

text \<open>
  \<open>_prepare_inputs\<close>; \<open>fresh\<close> is what generating and scoring the batch of the data loader gives, and the
  last part of the result tells whether it was asked for.
\<close>

definition prepare_inputs ::
  "buffer_args \<Rightarrow> bool \<Rightarrow> 'b list \<Rightarrow> 'b buffer \<Rightarrow> ('b local_input \<times> 'b buffer \<times> bool) res" where
  "prepare_inputs B training fresh s =
     (if \<not> training then Inr (Whole fresh, s, True)
      else if generate_every B = 0 then Inl ZeroDivisionError
      else
        let generate = (bf_step s mod generate_every B = 0 \<or> bf_buffered s = None);
            buffered = (if generate then fresh else the (bf_buffered s));
            i = bf_step s mod rollout_samples B
        in if length buffered \<le> i then Inl IndexError
           else Inr (Slice (buffered ! i), s\<lparr>bf_step := Suc (bf_step s), bf_buffered := Some buffered\<rparr>, generate))"

text \<open>A run of training steps: the slices trained on and the steps that generated.\<close>

fun train_steps :: "buffer_args \<Rightarrow> 'b list list \<Rightarrow> 'b buffer \<Rightarrow> (('b local_input \<times> bool) list \<times> 'b buffer) res" where
  "train_steps B [] s = Inr ([], s)"
| "train_steps B (fresh # rest) s =
     res_bind (prepare_inputs B True fresh s) (\<lambda>(inp, s1, g).
     res_bind (train_steps B rest s1) (\<lambda>(out, s2). Inr ((inp, g) # out, s2)))"

subsection \<open>Rows that cannot be encoded\<close>

text \<open>A row counts when its answer can be taken off and the template encodes it.\<close>

definition try_encode :: "(sample \<Rightarrow> bool) \<Rightarrow> sample \<Rightarrow> sample option" where
  "try_encode encodes s =
     (case drop_response (sa_messages s) of
        Inl e \<Rightarrow> None
      | Inr ms \<Rightarrow> let s' = s\<lparr>sa_messages := ms\<rparr> in if encodes s' then Some s' else None)"

text \<open>\<open>while pending_samples and len(valid_samples) < required_count\<close>.\<close>

fun collect_valid :: "('a \<Rightarrow> 'b option) \<Rightarrow> nat \<Rightarrow> 'a list \<Rightarrow> 'b list \<times> 'a list" where
  "collect_valid f 0 pending = ([], pending)"
| "collect_valid f (Suc n) [] = ([], [])"
| "collect_valid f (Suc n) (x # pending) =
     (case f x of
        None \<Rightarrow> collect_valid f (Suc n) pending
      | Some y \<Rightarrow> let (ys, rest) = collect_valid f n pending in (y # ys, rest))"

text \<open>
  \<open>while len(pending_samples) < still_needed\<close>; \<open>batches\<close> is the cyclic iterator, read from position \<open>pos\<close>.
  Batches without rows would keep the loop running for ever.
\<close>

partial_function (option) fill_pending :: "(nat \<Rightarrow> 'a list) \<Rightarrow> nat \<Rightarrow> 'a list \<Rightarrow> nat \<Rightarrow> ('a list \<times> nat) option" where
  [code]: "fill_pending batches needed pending pos =
     (if length pending < needed then fill_pending batches needed (pending @ batches pos) (Suc pos)
      else Some (pending, pos))"

text \<open>The rounds; the result is what was collected, the rows left over and the position of the iterator.\<close>

fun resample_rounds ::
  "('a \<Rightarrow> 'b option) \<Rightarrow> (nat \<Rightarrow> 'a list) \<Rightarrow> nat \<Rightarrow> nat \<Rightarrow> 'b list \<Rightarrow> 'a list \<Rightarrow> nat \<Rightarrow> ('b list \<times> 'a list \<times> nat) option" where
  "resample_rounds f batches required 0 valid pending pos = Some (valid, pending, pos)"
| "resample_rounds f batches required (Suc n) valid pending pos =
     (if required \<le> length valid then Some (valid, pending, pos)
      else
        let needed = required - length valid
        in Option.bind (fill_pending batches needed pending pos) (\<lambda>(pending', pos').
             let (ys, rest) = collect_valid f needed pending'
             in resample_rounds f batches required n (valid @ ys) rest pos'))"

definition resample_encode_failed_inputs ::
  "(sample \<Rightarrow> bool) \<Rightarrow> (nat \<Rightarrow> sample list) \<Rightarrow> nat \<Rightarrow> nat \<Rightarrow> sample list \<Rightarrow> (sample list res \<times> nat) option" where
  "resample_encode_failed_inputs encodes batches pos max_rounds inputs =
     map_option (\<lambda>(valid, rest, pos').
         (if length valid < length inputs then Inl RuntimeError else Inr (take (length inputs) valid), pos'))
       (resample_rounds (try_encode encodes) batches (length inputs) (max_rounds + 1) [] inputs pos)"

definition max_resample_rounds :: nat where
  "max_resample_rounds = 10"

subsection \<open>Dynamic sampling\<close>

text \<open>A generated and scored batch: the samples of every process, and the rewards of all.\<close>

type_synonym scored = "sample list list \<times> fl list list"

definition positive :: "fl \<Rightarrow> bool" where
  "positive s = (case s of None \<Rightarrow> False | Some x \<Rightarrow> 0 < x)"

definition select :: "bool list \<Rightarrow> 'a list \<Rightarrow> 'a list" where
  "select msk xs = map snd (filter fst (zip msk xs))"

definition std_mask :: "grpo_args \<Rightarrow> scored \<Rightarrow> bool list res" where
  "std_mask A b =
     (let all = concat (fst b)
      in res_bind (compute_std A (map sa_prompt_id all) (map sa_request_id all) (snd b)) (\<lambda>stds. Inr (map positive stds)))"

text \<open>
  The loop with \<open>n\<close> resamples left; \<open>nxt k\<close> is the \<open>k\<close>-th resampled batch.  The result is what was
  collected and the batch looked at last.
\<close>

fun sampling_loop ::
  "grpo_args \<Rightarrow> nat \<Rightarrow> (nat \<Rightarrow> scored) \<Rightarrow> nat \<Rightarrow> nat \<Rightarrow> sample list \<Rightarrow> fl list list \<Rightarrow> scored
    \<Rightarrow> (sample list \<times> fl list list \<times> scored) res" where
  "sampling_loop A gbs nxt k 0 valid rows cur = Inr (valid, rows, cur)"
| "sampling_loop A gbs nxt k (Suc n) valid rows cur =
     res_bind (std_mask A cur) (\<lambda>msk.
     let valid' = valid @ select msk (concat (fst cur)); rows' = rows @ select msk (snd cur)
     in if gbs \<le> length valid' then Inr (valid', rows', cur)
        else sampling_loop A gbs nxt (Suc k) n valid' rows' (nxt k))"

text \<open>What process \<open>p\<close> goes on with.\<close>

definition dynamic_sampling ::
  "grpo_args \<Rightarrow> nat \<Rightarrow> nat \<Rightarrow> (nat \<Rightarrow> scored) \<Rightarrow> scored \<Rightarrow> nat \<Rightarrow> (sample list \<times> fl list list) res" where
  "dynamic_sampling A gbs max_times nxt origin p =
     res_bind (sampling_loop A gbs nxt 0 max_times [] [] origin) (\<lambda>(valid, rows, cur).
     if gbs \<le> length valid
     then let n = length (fst cur ! p)
          in Inr (py_slice (p * n) ((p + 1) * n) (take gbs valid), take gbs rows)
     else Inr (fst origin ! p, snd origin))"

subsection \<open>Answers as token ids\<close>

datatype 'n nested = Flat "'n list" | Nested "'n list list"

fun as_nested :: "'n nested \<Rightarrow> 'n list list" where
  "as_nested (Flat xs) = [xs]"
| "as_nested (Nested xss) = xss"

fun is_empty_nested :: "'n nested \<Rightarrow> bool" where
  "is_empty_nested (Flat xs) = (xs = [])"
| "is_empty_nested (Nested xss) = (xss = [])"

text \<open>The messages from the last to the first, and the contents still to place.\<close>

fun place_answers :: "message list \<Rightarrow> content list \<Rightarrow> message list" where
  "place_answers [] cs = []"
| "place_answers (m # ms) cs =
     (if m_role m \<noteq> ''assistant'' then m # place_answers ms cs
      else case cs of [] \<Rightarrow> m # ms | c # cs' \<Rightarrow> m\<lparr>m_content := c\<rparr> # place_answers ms cs')"

definition answer_contents :: "int list list \<Rightarrow> real list list option \<Rightarrow> content list" where
  "answer_contents ids masks =
     (case masks of
        None \<Rightarrow> map (\<lambda>is. COne (CIds is)) ids
      | Some ms \<Rightarrow> map (\<lambda>(is, m). COne (CResp is (Some m))) (zip ids ms))"

definition replace_assistant_response_with_ids ::
  "message list \<Rightarrow> int nested \<Rightarrow> real nested option \<Rightarrow> message list res" where
  "replace_assistant_response_with_ids ms completion_ids loss_mask =
     (if is_empty_nested completion_ids then Inl IndexError
      else
        let ids = as_nested completion_ids;
            masks = (case loss_mask of None \<Rightarrow> None | Some l \<Rightarrow> if is_empty_nested l then None else Some (as_nested l));
            ok = (case masks of None \<Rightarrow> True | Some l \<Rightarrow> map length ids = map length l)
        in if \<not> ok then Inl AssertionError
           else Inr (rev (place_answers (rev ms) (rev (answer_contents ids masks)))))"

text \<open>\<open>_set_inputs_system\<close> on the messages of one row.\<close>

definition set_inputs_system :: "string option \<Rightarrow> message list list \<Rightarrow> message list list res" where
  "set_inputs_system default_system rows =
     (case default_system of
        None \<Rightarrow> Inr rows
      | Some s \<Rightarrow>
          if s = [] then Inr rows
          else map_res (\<lambda>ms. case ms of
                  [] \<Rightarrow> Inl IndexError
                | m # _ \<Rightarrow> Inr (if m_role m = ''system'' then ms else msg ''system'' (COne (CText s)) # ms)) rows)"

end
