(* ===== verification/AdvantageLaws.thy ===== *)
theory AdvantageLaws
  imports GrpoAdvantage
begin

text \<open>
  What the advantages of \<open>GRPOTrainer\<close> are: centred in every group, ordered like the rewards,
  bounded, equal to leave-one-out differences for RLOO, and the same in both modes when every
  prompt has its own block of requests.
\<close>

named_theorems stat_simps \<open>statistics of tensors\<close>

subsection \<open>Groups\<close>

lemma length_chunks_dvd: "0 < n \<Longrightarrow> length xs mod n = 0 \<Longrightarrow> g \<in> set (chunks n xs) \<Longrightarrow> length g = n"
proof (induction n xs rule: chunks.induct)
  case (1 n xs)
  show ?case
  proof (cases "xs = []")
    case True
    then show ?thesis using 1 by (simp add: chunks.simps)
  next
    case False
    then have "n \<le> length xs" using 1 by (meson dvd_imp_le length_greater_0_conv mod_0_imp_dvd)
    then show ?thesis using 1 False by (auto simp: chunks.simps [of n xs] le_mod_geq)
  qed
qed

lemma chunks_concat: "0 < n \<Longrightarrow> \<forall>g \<in> set gs. length g = n \<Longrightarrow> chunks n (concat gs) = gs"
proof (induction gs)
  case (Cons g gs)
  then have "g \<noteq> []" "length g = n" by auto
  then show ?case using Cons by (subst chunks.simps) simp
qed (simp add: chunks.simps)

lemma view_groups_ok: "0 < n \<Longrightarrow> length xs mod n = 0 \<Longrightarrow> view_groups n xs = Inr (chunks n xs)"
  by (simp add: view_groups_def)

lemma length_concat_map_chunks:
  assumes "0 < n" "length xs mod n = 0" "\<And>g. length (f g) = length g"
  shows "length (concat (map f (chunks n xs))) = length xs"
proof -
  have "length (concat (map f gs)) = length (concat gs)" for gs
    using assms(3) by (induction gs) auto
  then show ?thesis using concat_chunks [OF assms(1)] by metis
qed

subsection \<open>Means and deviations\<close>

lemma sum_deviations [stat_simps]: "sum_list (map (\<lambda>x. x - mean xs) xs) = 0"
proof (cases "xs = []")
  case False
  have "sum_list (map (\<lambda>x. x - c) ys) = sum_list ys - real (length ys) * c" for ys and c :: real
    by (induction ys) (auto simp: algebra_simps)
  then show ?thesis using False by (simp add: mean_def)
qed simp

lemma sq_dev_nonneg [simp]: "0 \<le> sq_dev xs"
  unfolding sq_dev_def by (rule sum_list_nonneg) auto

lemma tstd_Some: "1 < length xs \<Longrightarrow> \<exists>s. tstd xs = Some s \<and> 0 \<le> s"
  by (auto simp: tstd_def intro!: divide_nonneg_nonneg)

lemma std_or_zero_Some: "length xs = n \<Longrightarrow> \<exists>s. std_or_zero n xs = Some s \<and> 0 \<le> s"
  using tstd_Some [of xs] by (simp add: std_or_zero_def)

lemma mean_mult: "xs \<noteq> [] \<Longrightarrow> mean xs * real (length xs) = sum_list xs"
  by (simp add: mean_def)

lemma nanstd_eq: "nanstd xs = tstd (present xs)"
proof -
  let ?ys = "present xs" and ?zs = "map (\<lambda>y. (y - mean (present xs))\<^sup>2) (present xs)"
  have "mean ?zs * real (length ?ys) = sum_list ?zs" if "1 < length ?ys"
    using that mean_mult [of ?zs] by (auto simp: mean_def)
  then show ?thesis
    by (simp add: nanstd_def tstd_def sq_dev_def Let_def)
qed

lemma sum_list_nth_split:
  fixes f :: "'a \<Rightarrow> real"
  assumes "i < length xs"
  shows "sum_list (map f xs) = f (xs ! i) + sum_list (map f (take i xs @ drop (Suc i) xs))"
proof -
  have "sum_list (map f xs) = sum_list (map f (take i xs @ xs ! i # drop (Suc i) xs))"
    using id_take_nth_drop [OF assms] by simp
  then show ?thesis by simp
qed

text \<open>The square of a sum is at most the number of terms times the sum of the squares.\<close>

lemma sum_sq_le: "(sum_list xs)\<^sup>2 \<le> real (length xs) * sum_list (map (\<lambda>x. x\<^sup>2) (xs :: real list))"
proof (cases "xs = []")
  case False
  have id: "sum_list (map (\<lambda>x. (x - a)\<^sup>2) ys) = sum_list (map (\<lambda>x. x\<^sup>2) ys) - 2 * a * sum_list ys + real (length ys) * a\<^sup>2"
    for ys and a :: real
    by (induction ys) (auto simp: power2_eq_square algebra_simps)
  let ?n = "real (length xs)" and ?S = "sum_list xs" and ?Q = "sum_list (map (\<lambda>x. x\<^sup>2) xs)"
  have n: "0 < ?n" using False by simp
  have "0 \<le> sum_list (map (\<lambda>x. (x - mean xs)\<^sup>2) xs)" by (rule sum_list_nonneg) auto
  then have "0 \<le> ?Q - 2 * (?S / ?n) * ?S + ?n * (?S / ?n)\<^sup>2" by (simp add: id mean_def)
  then have "0 \<le> ?n * (?Q - 2 * (?S / ?n) * ?S + ?n * (?S / ?n)\<^sup>2)" using n by simp
  also have "\<dots> = ?n * ?Q - ?S\<^sup>2" using n by (simp add: power2_eq_square field_simps)
  finally show ?thesis by simp
qed simp

text \<open>No value is farther from the mean than the spread allows.\<close>

lemma deviation_bound:
  assumes "i < length xs" "1 < length xs" "tstd xs = Some s"
  shows "\<bar>xs ! i - mean xs\<bar> \<le> (real (length xs) - 1) / sqrt (real (length xs)) * s"
proof -
  let ?n = "real (length xs)" and ?d = "\<lambda>x. x - mean xs"
  let ?D = "?d (xs ! i)" and ?rest = "map ?d (take i xs @ drop (Suc i) xs)"
  let ?R = "sum_list (map (\<lambda>x. x\<^sup>2) ?rest)"
  have n: "1 < ?n" using assms(2) by simp
  have "sum_list (map ?d xs) = ?D + sum_list ?rest" using assms(1) by (rule sum_list_nth_split)
  then have D: "?D = - sum_list ?rest" by (simp add: stat_simps)
  have Q: "sq_dev xs = ?D\<^sup>2 + ?R"
    unfolding sq_dev_def using sum_list_nth_split [OF assms(1), of "\<lambda>x. (?d x)\<^sup>2"] by (simp add: o_def)
  have "length ?rest = length xs - 1" using assms(1) by simp
  then have len: "real (length ?rest) = ?n - 1" using assms(2) by (simp add: of_nat_diff)
  have "?D\<^sup>2 \<le> (?n - 1) * ?R" using sum_sq_le [of ?rest] by (simp only: D power2_minus len)
  then have "?n * ?D\<^sup>2 \<le> (?n - 1) * sq_dev xs" by (simp add: Q algebra_simps)
  moreover have "sq_dev xs = (?n - 1) * s\<^sup>2" "0 \<le> s"
    using assms(2,3) n by (auto simp: tstd_def)
  ultimately have "?n * ?D\<^sup>2 \<le> ((?n - 1) * s)\<^sup>2" by (simp add: power2_eq_square mult_ac)
  then have "?D\<^sup>2 * ?n \<le> ((?n - 1) * s)\<^sup>2" by (simp only: mult.commute)
  moreover have "0 < ?n" using n by linarith
  ultimately have "?D\<^sup>2 \<le> ((?n - 1) * s)\<^sup>2 / ?n" by (rule iffD2 [OF pos_le_divide_eq, rotated])
  also have "\<dots> = ((?n - 1) / sqrt ?n * s)\<^sup>2" by (simp add: power_mult_distrib power_divide)
  finally have "?D\<^sup>2 \<le> ((?n - 1) / sqrt ?n * s)\<^sup>2" .
  moreover have "0 \<le> (?n - 1) / sqrt ?n * s" using n \<open>0 \<le> s\<close> by simp
  ultimately show ?thesis by (metis abs_le_square_iff abs_of_nonneg)
qed

subsection \<open>Baselines\<close>

definition stretch :: "estimator \<Rightarrow> nat \<Rightarrow> real" where
  "stretch est k = (if est = Est_rloo \<and> 1 < k then real k / (real k - 1) else 1)"

lemma stretch_pos: "0 < stretch est k"
  by (simp add: stretch_def)

lemma centred_eq: "centred est k m r = stretch est k * (r - m)"
  by (simp add: centred_def stretch_def diff_divide_distrib algebra_simps)

lemma length_baseline [simp]: "length (baseline est k rs) = length rs"
  by (simp add: baseline_def)

lemma baseline_sum [stat_simps]: "sum_list (baseline est k rs) = 0"
proof -
  have "sum_list (map (centred est k m) xs) = stretch est k * sum_list (map (\<lambda>x. x - m) xs)" for m xs
    by (induction xs) (auto simp: centred_eq algebra_simps)
  then show ?thesis by (simp add: baseline_def stat_simps)
qed

text \<open>RLOO compares a reward with the mean of the other rewards of its group.\<close>

lemma rloo_leave_one_out:
  assumes "1 < length rs" "i < length rs"
  shows "centred Est_rloo (length rs) (mean rs) (rs ! i) = rs ! i - mean (take i rs @ drop (Suc i) rs)"
proof -
  let ?n = "real (length rs)" and ?rest = "take i rs @ drop (Suc i) rs" and ?r = "rs ! i" and ?S = "sum_list rs"
  have n: "?n - 1 \<noteq> 0" using assms by simp
  have "?S = ?r + sum_list ?rest" using sum_list_nth_split [OF assms(2), of id] by simp
  moreover have "real (length ?rest) = ?n - 1" using assms by (simp add: of_nat_diff)
  ultimately have "mean ?rest = (?S - ?r) / (?n - 1)" by (simp add: mean_def)
  then have "?r - mean ?rest = (?r * ?n - ?S) / (?n - 1)" using n by (simp add: field_simps)
  moreover have "mean rs * ?n = ?S" using assms by (intro mean_mult) auto
  ultimately show ?thesis using assms by (simp add: centred_def diff_divide_distrib)
qed


subsection \<open>The default mode\<close>

text \<open>What every scale but GDPO does: the baseline of each group, divided by a positive number.\<close>

definition scaled_groups :: "estimator \<Rightarrow> nat \<Rightarrow> (real \<times> real list) list \<Rightarrow> fl list" where
  "scaled_groups est k dgs = concat (map (\<lambda>(d, g). map (\<lambda>a. Some (a / d)) (baseline est k g)) dgs)"

lemma scaled_groups_const:
  "d \<noteq> 0 \<Longrightarrow> scaled_groups est k (map (Pair d) gs) = map (\<lambda>a. Some (a / d)) (concat (map (baseline est k) gs))"
  by (simp add: scaled_groups_def map_concat o_def)

lemma normalize_Some: "normalize_advantage (Some s) = (\<lambda>a. Some (a / (s + 1 / 10000)))"
  by (simp add: normalize_advantage_def fun_eq_iff)

lemma scaled_by_batch:
  assumes "length base = n"
  shows "\<exists>d > 0. map (normalize_advantage (std_or_zero n base)) (concat (map (baseline est k) gs))
    = scaled_groups est k (map (Pair d) gs)"
proof -
  obtain s where s: "std_or_zero n base = Some s" "0 \<le> s" using std_or_zero_Some [OF assms] by blast
  then have "0 < s + 1 / 10000" by simp
  with s show ?thesis
    by (intro exI [of _ "s + 1 / 10000"]) (simp add: normalize_Some scaled_groups_const)
qed

lemma scaled_by_group:
  assumes "\<forall>g \<in> set gs. length (f g) = k"
  shows "\<exists>dgs. map snd dgs = gs \<and> list_all (\<lambda>p. 0 < fst p) dgs \<and>
    concat (map (\<lambda>g. map (normalize_advantage (std_or_zero k (f g))) (baseline est k g)) gs) = scaled_groups est k dgs"
  using assms
proof (induction gs)
  case Nil
  then show ?case by (auto simp: scaled_groups_def)
next
  case (Cons g gs)
  then obtain dgs where d: "map snd dgs = gs" "list_all (\<lambda>p. 0 < fst p) dgs"
      "concat (map (\<lambda>g. map (normalize_advantage (std_or_zero k (f g))) (baseline est k g)) gs) = scaled_groups est k dgs"
    by auto
  obtain s where s: "std_or_zero k (f g) = Some s" "0 \<le> s" using std_or_zero_Some [of "f g"] Cons.prems by auto
  then show ?case using d
    by (intro exI [of _ "(s + 1 / 10000, g) # dgs"]) (simp add: normalize_Some scaled_groups_def)
qed

lemma const_scales: "0 < d \<Longrightarrow> map snd (map (Pair d) gs) = gs \<and> list_all (\<lambda>p. (0::real) < fst p) (map (Pair d) gs)"
  by (simp add: list_all_iff o_def)

lemma grouped_advantages_scaled:
  assumes k: "k = num_generations A" "0 < k" "length rewards mod k = 0" and "ga_scale A \<noteq> Scale_gdpo"
  shows "\<exists>dgs. map snd dgs = chunks k rewards \<and> list_all (\<lambda>p. 0 < fst p) dgs \<and>
    grouped_advantages A rows rewards = Inr (scaled_groups (ga_estimator A) k dgs)"
proof -
  let ?est = "ga_estimator A" and ?gs = "chunks k rewards"
  let ?adv = "concat (map (baseline ?est k) ?gs)"
  have len: "\<forall>g \<in> set ?gs. length g = k" using length_chunks_dvd [OF k(2,3)] by blast
  have la: "length ?adv = length rewards" using k(2,3) by (intro length_concat_map_chunks) auto
  have ch: "chunks k ?adv = map (baseline ?est k) ?gs" using k(2) len by (intro chunks_concat) auto
  have v: "view_groups k rewards = Inr ?gs" using k(2,3) by (rule view_groups_ok)
  have one: "map Some ?adv = scaled_groups ?est k (map (Pair 1) ?gs)" by (simp add: scaled_groups_const)
  note cs = const_scales [where gs = ?gs]
  show ?thesis
  proof (cases "ga_scale A")
    case Scale_none
    then have "grouped_advantages A rows rewards = Inr (map Some ?adv)"
      by (simp add: grouped_advantages_def k(1) [symmetric] v Let_def)
    then show ?thesis using cs [of 1] one by (intro exI [of _ "map (Pair 1) ?gs"]) simp
  next
    case Scale_batch
    define base where "base = (if ?est = Est_reinforce_pp then ?adv else rewards)"
    have "length base = length rewards" unfolding base_def using la by (cases "?est = Est_reinforce_pp") simp_all
    then obtain d where d: "0 < d"
        "map (normalize_advantage (std_or_zero (length rewards) base)) ?adv = scaled_groups ?est k (map (Pair d) ?gs)"
      using scaled_by_batch by blast
    have "grouped_advantages A rows rewards = Inr (map (normalize_advantage (std_or_zero (length rewards) base)) ?adv)"
      unfolding grouped_advantages_def k(1) [symmetric] v base_def Let_def res_bind_Inr
      using Scale_batch la by (cases "?est = Est_reinforce_pp") simp_all
    then show ?thesis using cs [OF d(1)] d(2) by (intro exI [of _ "map (Pair d) ?gs"]) simp
  next
    case Scale_group
    define f where "f g = (if ?est = Est_reinforce_pp then baseline ?est k g else g)" for g
    have "\<forall>g \<in> set ?gs. length (f g) = k" using len by (simp add: f_def)
    from scaled_by_group [OF this, of ?est]
    obtain dgs where d: "map snd dgs = ?gs" "list_all (\<lambda>p. 0 < fst p) dgs"
        "concat (map (\<lambda>g. map (normalize_advantage (std_or_zero k (f g))) (baseline ?est k g)) ?gs) = scaled_groups ?est k dgs"
      by blast
    have "grouped_advantages A rows rewards =
        Inr (concat (map (\<lambda>g. map (normalize_advantage (std_or_zero k (f g))) (baseline ?est k g)) ?gs))"
      unfolding grouped_advantages_def k(1) [symmetric] v Let_def res_bind_Inr ch
      using Scale_group by (cases "?est = Est_reinforce_pp") (simp_all add: f_def o_def)
    then show ?thesis using d by (intro exI [of _ dgs]) simp
  qed (use assms(4) in simp)
qed


lemma scaled_groups_map:
  "scaled_groups est k dgs = map Some (concat (map (\<lambda>(d, g). map (\<lambda>a. a / d) (baseline est k g)) dgs))"
  by (simp add: scaled_groups_def map_concat o_def case_prod_unfold)

lemma sum_list_divide: "sum_list (map (\<lambda>a. a / d) xs) = sum_list xs / (d :: real)"
  by (induction xs) (auto simp: add_divide_distrib)

lemma centred_mono: "0 < d \<Longrightarrow> centred est k m x / d < centred est k m y / d \<longleftrightarrow> x < y"
  using stretch_pos [of est k] by (simp add: centred_eq divide_less_cancel)

text \<open>The advantages of a group sum to zero and are ordered like its rewards.\<close>

definition fair_group :: "real list \<Rightarrow> real list \<Rightarrow> bool" where
  "fair_group g a \<longleftrightarrow> length a = length g \<and> sum_list a = 0 \<and>
     (\<forall>i < length g. \<forall>j < length g. a ! i < a ! j \<longleftrightarrow> g ! i < g ! j)"

lemma fair_scaled: "0 < d \<Longrightarrow> fair_group g (map (\<lambda>a. a / d) (baseline est k g))"
  using baseline_sum [of est k g]
  by (simp add: fair_group_def sum_list_divide) (simp add: baseline_def centred_mono)

lemma length_total_rewards [simp]:
  "length kls = length rows \<Longrightarrow> length (total_rewards A kls rows) = length rows"
  by (simp add: total_rewards_def Let_def)

lemma log_rewards_ok:
  "0 < num_generations A \<Longrightarrow> length rewards mod num_generations A = 0 \<Longrightarrow>
    \<exists>stats. log_rewards_metrics A rewards rows = Inr stats"
  by (simp add: log_rewards_metrics_def view_groups_ok Let_def)

text \<open>
  C11. In the default mode, for every estimator and every scale but GDPO, each completion gets a
  finite advantage; in each group the advantages sum to zero, and one completion has a smaller
  advantage than another exactly when its reward is smaller.
\<close>

theorem advantages_rank_group:
  assumes "\<not> ga_dynamic A" "ga_scale A \<noteq> Scale_gdpo" "0 < num_generations A"
    and "length rows mod num_generations A = 0" "length kls = length rows"
  shows "\<exists>adv stats. compute_advantages A pids rids kls rows = Inr (map Some adv, stats) \<and> length adv = length rows \<and>
    list_all2 fair_group (chunks (num_generations A) (total_rewards A kls rows)) (chunks (num_generations A) adv)"
proof -
  let ?k = "num_generations A" and ?R = "total_rewards A kls rows"
  let ?f = "\<lambda>(d, g). map (\<lambda>a. a / d) (baseline (ga_estimator A) ?k g)"
  have R: "length ?R = length rows" "length ?R mod ?k = 0" using assms(4,5) by simp_all
  obtain dgs where d: "map snd dgs = chunks ?k ?R" "list_all (\<lambda>p. 0 < fst p) dgs"
      "grouped_advantages A rows ?R = Inr (scaled_groups (ga_estimator A) ?k dgs)"
    using grouped_advantages_scaled [OF refl assms(3) R(2) assms(2)] by blast
  let ?adv = "concat (map ?f dgs)"
  obtain stats where "log_rewards_metrics A ?R rows = Inr stats" using log_rewards_ok [OF assms(3) R(2)] by blast
  then have "compute_advantages A pids rids kls rows = Inr (map Some ?adv, stats)"
    using assms(1) d(3) by (simp add: compute_advantages_def Let_def scaled_groups_map)
  moreover have len: "\<forall>g \<in> snd ` set dgs. length g = ?k"
    using length_chunks_dvd [OF assms(3) R(2)] d(1) by (metis set_map)
  then have "chunks ?k ?adv = map ?f dgs" using assms(3) by (intro chunks_concat) auto
  moreover have "list_all2 fair_group (map snd dgs) (map ?f dgs)"
    using d(2) by (induction dgs) (auto intro: fair_scaled)
  moreover have "length ?adv = length (concat (map snd dgs))" by (induction dgs) auto
  then have "length ?adv = length rows" using d(1) concat_chunks [OF assms(3), of ?R] R(1) by simp
  ultimately show ?thesis using d(1) by metis
qed


subsection \<open>How large an advantage gets\<close>

definition advantage_limit :: "estimator \<Rightarrow> nat \<Rightarrow> real" where
  "advantage_limit est k = (if est = Est_rloo then sqrt (real k) else (real k - 1) / sqrt (real k))"

lemma advantage_limit_eq: "1 < k \<Longrightarrow> est \<noteq> Est_reinforce_pp \<Longrightarrow>
    advantage_limit est k = stretch est k * ((real k - 1) / sqrt (real k))"
  by (auto simp: advantage_limit_def stretch_def real_div_sqrt)

lemma shrink_less: "0 < c \<Longrightarrow> 0 \<le> s \<Longrightarrow> x \<le> c * s \<Longrightarrow> x / (s + 1 / 10000) < (c :: real)"
  by (simp add: pos_divide_less_eq add_nonneg_pos algebra_simps)

lemma scaled_group_bound:
  assumes "length g = k" "1 < k" "est \<noteq> Est_reinforce_pp" "x \<in> set (map (normalize_advantage (std_or_zero k g)) (baseline est k g))"
  shows "\<exists>a. x = Some a \<and> \<bar>a\<bar> < advantage_limit est k"
proof -
  obtain s where s: "tstd g = Some s" "0 \<le> s" using tstd_Some [of g] assms(1,2) by auto
  then have st: "std_or_zero k g = Some s" using assms(2) by (simp add: std_or_zero_def)
  obtain i where i: "i < length g" "x = Some (centred est k (mean g) (g ! i) / (s + 1 / 10000))"
    using assms(4) st by (auto simp: baseline_def normalize_Some in_set_conv_nth)
  let ?c = "(real k - 1) / sqrt (real k)"
  have dev: "\<bar>g ! i - mean g\<bar> \<le> ?c * s" using deviation_bound [OF i(1) _ s(1)] assms(1,2) by simp
  then have "stretch est k * \<bar>g ! i - mean g\<bar> \<le> stretch est k * (?c * s)"
    using stretch_pos [of est k] by (intro mult_left_mono) auto
  then have "\<bar>centred est k (mean g) (g ! i)\<bar> \<le> advantage_limit est k * s"
    using stretch_pos [of est k] assms(2,3) by (simp add: centred_eq abs_mult advantage_limit_eq)
  moreover have "0 < advantage_limit est k" using assms(2) by (simp add: advantage_limit_def)
  ultimately have "\<bar>centred est k (mean g) (g ! i)\<bar> / (s + 1 / 10000) < advantage_limit est k"
    using s(2) by (intro shrink_less)
  then show ?thesis using i(2) s(2) by (simp add: abs_divide)
qed

lemma all_finite: "\<forall>x \<in> set xs. \<exists>a. x = Some a \<and> P a \<Longrightarrow> \<exists>as. xs = map Some as \<and> list_all P as"
proof (induction xs)
  case (Cons x xs)
  then obtain a as where "x = Some a" "P a" "xs = map Some as" "list_all P as" by auto
  then show ?case by (intro exI [of _ "a # as"]) simp
qed simp

lemma checked_generations:
  assumes "check_num_generations k n e = Inr ()"
  shows "1 < k" "n mod k = 0"
  using assms by (auto simp: check_num_generations_def divisors_from_def split: if_splits)

text \<open>
  With settings that pass \<open>check_num_generations\<close> and rewards scaled by the group, the
  advantages of a generation batch stay below a bound that depends on the number of generations
  alone, whatever the rewards: \<open>(K - 1) / sqrt K\<close> for GRPO and \<open>sqrt K\<close> for RLOO.
\<close>

theorem advantages_bounded:
  assumes "\<not> ga_dynamic A" "ga_scale A = Scale_group" "ga_estimator A \<noteq> Est_reinforce_pp" "ga_training A"
    and "check_num_generations (ga_generations A) (length rows) e = Inr ()" "length kls = length rows"
  shows "\<exists>adv stats. compute_advantages A pids rids kls rows = Inr (map Some adv, stats) \<and>
    list_all (\<lambda>a. \<bar>a\<bar> < advantage_limit (ga_estimator A) (ga_generations A)) adv"
proof -
  let ?k = "num_generations A" and ?R = "total_rewards A kls rows" and ?est = "ga_estimator A"
  have k: "?k = ga_generations A" "1 < ?k" using checked_generations [OF assms(5)] assms(4) by (simp_all add: num_generations_def)
  have R: "length ?R mod ?k = 0" using checked_generations [OF assms(5)] assms(4,6) by (simp add: num_generations_def)
  let ?adv = "concat (map (\<lambda>g. map (normalize_advantage (std_or_zero ?k g)) (baseline ?est ?k g)) (chunks ?k ?R))"
  have "grouped_advantages A rows ?R = Inr ?adv"
    using assms(2,3) view_groups_ok [of ?k ?R] k(2) R by (simp add: grouped_advantages_def Let_def)
  then have g: "grouped_advantages A rows ?R = Inr ?adv" .
  have "\<forall>x \<in> set ?adv. \<exists>a. x = Some a \<and> \<bar>a\<bar> < advantage_limit ?est ?k"
  proof
    fix x assume "x \<in> set ?adv"
    then obtain g where g: "g \<in> set (chunks ?k ?R)" "x \<in> set (map (normalize_advantage (std_or_zero ?k g)) (baseline ?est ?k g))"
      by auto
    show "\<exists>a. x = Some a \<and> \<bar>a\<bar> < advantage_limit ?est ?k"
      using scaled_group_bound [OF _ k(2) assms(3) g(2)] length_chunks_dvd [OF _ R g(1)] k(2) by simp
  qed
  from all_finite [OF this] obtain adv where adv: "?adv = map Some adv" "list_all (\<lambda>a. \<bar>a\<bar> < advantage_limit ?est ?k) adv"
    by blast
  obtain stats where st: "log_rewards_metrics A ?R rows = Inr stats"
    using log_rewards_ok [OF _ R] k(2) by fastforce
  have "compute_advantages A pids rids kls rows = Inr (?adv, stats)"
    using assms(1) g st by (simp add: compute_advantages_def Let_def)
  then show ?thesis using adv unfolding k(1) by metis
qed


subsection \<open>Both modes agree\<close>

lemma fold_dset_distinct:
  "distinct (map fst ps) \<Longrightarrow> fst ` set d \<inter> fst ` set ps = {} \<Longrightarrow> fold (\<lambda>(v, k) d. dset k v d) (map prod.swap ps) d = d @ ps"
proof (induction ps arbitrary: d)
  case (Cons p ps)
  obtain k v where p: "p = (k, v)" by (cases p)
  have new: "k \<notin> fst ` set e \<Longrightarrow> dset k v e = e @ [(k, v)]" for e :: "('a \<times> 'b) list"
    by (induction e) auto
  show ?case using Cons p by (simp add: new)
qed simp

lemma index_table:
  assumes "distinct rids"
  shows "fold (\<lambda>(i, r) d. dset r i d) (zip [0 ..< length rids] rids) [] = zip rids [0 ..< length rids]"
proof -
  have "zip [0 ..< length rids] rids = map prod.swap (zip rids [0 ..< length rids])"
    by (simp add: zip_commute [of "[0 ..< length rids]"] case_prod_unfold prod.swap_def)
  then show ?thesis using fold_dset_distinct [of "zip rids [0 ..< length rids]" "[]"] assms by simp
qed

lemma get_last_indices_distinct: "distinct rids \<Longrightarrow> get_last_indices rids = [0 ..< length rids]"
  by (simp add: get_last_indices_def index_table)

lemma map_nth_id: "length xs = n \<Longrightarrow> map ((!) xs) [0 ..< n] = xs"
  by (auto simp: list_eq_iff_nth_eq)

lemma spread_back_distinct:
  assumes "distinct rids" "length xs = length rids"
  shows "spread_back rids rids xs = Inr xs"
proof -
  have "(case dget (zip rids [0 ..< length rids]) (rids ! i) of None \<Rightarrow> Inl KeyError | Some i \<Rightarrow> Inr (xs ! i)) = Inr (xs ! i)"
    if "i < length rids" for i
  proof -
    have "(rids ! i, i) \<in> set (zip rids [0 ..< length rids])" using that by (force simp: in_set_zip)
    then have "dget (zip rids [0 ..< length rids]) (rids ! i) = Some i" using assms(1) by (intro map_of_is_SomeI) simp_all
    then show ?thesis by simp
  qed
  then show ?thesis unfolding spread_back_def rid_to_idx_def index_table [OF assms(1)]
    by (simp add: map_res_Inr_iff list_all2_conv_all_nth assms(2))
qed

lemma same_rewards_distinct: "distinct rids \<Longrightarrow> r \<in> set rids \<Longrightarrow> same_rewards rewards rids r"
proof -
  assume d: "distinct rids" and "r \<in> set rids"
  then obtain i where i: "i < length rids" "rids ! i = r" by (auto simp: in_set_conv_nth)
  let ?idxs = "filter (\<lambda>j. rids ! j = r) [0 ..< length rids]"
  have "set ?idxs = {i}" using i nth_eq_iff_index_eq [OF d _ i(1)] by auto
  then have "j = i" if "j \<in> set ?idxs" for j using that by simp
  moreover have "hd ?idxs = i"
    using \<open>set ?idxs = {i}\<close> hd_in_set [of ?idxs] by (metis empty_iff insertE insertI1 list.set(1))
  ultimately have "\<bar>rewards ! j - rewards ! hd ?idxs\<bar> \<le> 1 / 10 ^ 6 + 1 / 10 ^ 5 * \<bar>rewards ! hd ?idxs\<bar>"
    if "j \<in> set ?idxs" for j
    using that by (metis abs_ge_zero abs_zero add_nonneg_nonneg cancel_comm_monoid_add_class.diff_cancel
        mult_nonneg_nonneg zero_le_divide_1_iff zero_le_numeral zero_le_power)
  then show ?thesis unfolding same_rewards_def Let_def list_all_iff by blast
qed


lemma nth_concat_uniform:
  "\<forall>g \<in> set gs. length g = k \<Longrightarrow> i < length gs * k \<Longrightarrow> concat gs ! i = gs ! (i div k) ! (i mod k)"
proof (induction gs arbitrary: i)
  case (Cons g gs)
  have k: "0 < k" using Cons.prems(2) by (cases k) auto
  show ?case
  proof (cases "i < k")
    case True
    then show ?thesis using Cons.prems(1) by (simp add: nth_append)
  next
    case False
    then have i: "concat (g # gs) ! i = concat gs ! (i - k)" using Cons.prems(1) by (simp add: nth_append)
    have "i - k < length gs * k" using False Cons.prems(2) by simp
    then have "concat gs ! (i - k) = gs ! ((i - k) div k) ! ((i - k) mod k)" using Cons by simp
    then show ?thesis using False k i by (simp add: le_div_geq le_mod_geq)
  qed
qed simp

lemma length_chunks_mult:
  assumes "0 < k" "length xs mod k = 0"
  shows "length (chunks k xs) * k = length xs"
proof -
  have "length (concat gs) = length gs * k" if "\<forall>g \<in> set gs. length g = k" for gs :: "'a list list"
    using that by (induction gs) auto
  then show ?thesis using concat_chunks [OF assms(1)] length_chunks_dvd [OF assms] by metis
qed

lemma nth_chunks:
  assumes "0 < k" "length xs mod k = 0" "i < length xs"
  shows "xs ! i = chunks k xs ! (i div k) ! (i mod k)"
  using nth_concat_uniform [of "chunks k xs" k i] concat_chunks [OF assms(1), of xs]
    length_chunks_dvd [OF assms(1,2)] length_chunks_mult [OF assms(1,2)] assms(3) by simp

lemma div_less_chunks:
  assumes "0 < k" "length xs mod k = 0" "i < length xs"
  shows "i div k < length (chunks k xs)"
  using length_chunks_mult [OF assms(1,2)] assms(1,3) by (simp add: less_mult_imp_div_less)

lemma map_by_chunks:
  assumes "0 < k" "length xs mod k = 0"
  shows "map (\<lambda>i. f (chunks k xs ! (i div k)) (xs ! i)) [0 ..< length xs] = concat (map (\<lambda>g. map (f g) g) (chunks k xs))"
proof (rule nth_equalityI)
  let ?gs = "map (\<lambda>g. map (f g) g) (chunks k xs)"
  have len: "\<forall>g \<in> set ?gs. length g = k" using length_chunks_dvd [OF assms] by auto
  show l: "length (map (\<lambda>i. f (chunks k xs ! (i div k)) (xs ! i)) [0 ..< length xs]) = length (concat ?gs)"
    using length_concat_map_chunks [OF assms, of "\<lambda>g. map (f g) g"] by simp
  fix i assume "i < length (map (\<lambda>i. f (chunks k xs ! (i div k)) (xs ! i)) [0 ..< length xs])"
  then have i: "i < length xs" by simp
  have b: "i div k < length (chunks k xs)" using div_less_chunks [OF assms i] .
  then have "length (chunks k xs ! (i div k)) = k" using length_chunks_dvd [OF assms] by simp
  then have m: "i mod k < length (chunks k xs ! (i div k))" using assms(1) by simp
  have "concat ?gs ! i = ?gs ! (i div k) ! (i mod k)"
    using nth_concat_uniform [OF len, of i] length_chunks_mult [OF assms] i by simp
  then show "map (\<lambda>i. f (chunks k xs ! (i div k)) (xs ! i)) [0 ..< length xs] ! i = concat ?gs ! i"
    using b m i nth_chunks [OF assms i] by simp
qed

text \<open>One block of \<open>k\<close> requests for each prompt.\<close>

definition prompt_blocks :: "nat \<Rightarrow> string list \<Rightarrow> string list" where
  "prompt_blocks k ps = concat (map (replicate k) ps)"

lemma length_prompt_blocks [simp]: "length (prompt_blocks k ps) = length ps * k"
  by (induction ps) (auto simp: prompt_blocks_def)

lemma nth_prompt_blocks: "i < length ps * k \<Longrightarrow> prompt_blocks k ps ! i = ps ! (i div k)"
proof -
  assume i: "i < length ps * k"
  then have "0 < k" by (cases k) auto
  then show ?thesis
    using nth_concat_uniform [of "map (replicate k) ps" k i] i
    by (simp add: prompt_blocks_def less_mult_imp_div_less)
qed

lemma div_block: "0 < k \<Longrightarrow> j div k = (b::nat) \<longleftrightarrow> b * k \<le> j \<and> j < b * k + k"
proof
  assume k: "0 < k" and d: "j div k = b"
  have "j = b * k + j mod k" using div_mult_mod_eq [of j k] d by simp
  moreover have "j mod k < k" using k by simp
  ultimately show "b * k \<le> j \<and> j < b * k + k" by linarith
next
  assume "b * k \<le> j \<and> j < b * k + k"
  then show "j div k = b" by (intro div_nat_eqI) (simp_all add: mult.commute)
qed

lemma block_end: "b < m \<Longrightarrow> b * k + k \<le> m * (k::nat)"
  by (metis Suc_leI add.commute mult_Suc mult_le_mono1)

lemma filter_block:
  assumes "0 < k" "b < m"
  shows "filter (\<lambda>j. j div k = b) [0 ..< m * k] = [b * k ..< b * k + k]"
proof (rule sorted_distinct_set_unique)
  show "set (filter (\<lambda>j. j div k = b) [0 ..< m * k]) = set [b * k ..< b * k + k]"
    using block_end [OF assms(2), of k] by (simp only: div_block [OF assms(1)]) auto
  show "sorted (filter (\<lambda>j. j div k = b) [0 ..< m * k])" by (rule sorted_wrt_filter) (rule sorted_upt)
qed simp_all

lemma peers_block:
  assumes "distinct ps" "i < length ps * k"
  shows "peers (prompt_blocks k ps) i = [i div k * k ..< i div k * k + k]"
proof -
  let ?P = "prompt_blocks k ps"
  have k: "0 < k" using assms(2) by (cases k) auto
  have b: "i div k < length ps" using assms(2) by (simp add: less_mult_imp_div_less)
  have "peers ?P i = filter (\<lambda>j. ?P ! j = ?P ! i) [0 ..< length ps * k]"
    by (simp add: peers_def dget_or_group_by)
  also have "\<dots> = filter (\<lambda>j. j div k = i div k) [0 ..< length ps * k]"
    using assms b by (intro filter_cong) (auto simp: nth_prompt_blocks nth_eq_iff_index_eq less_mult_imp_div_less)
  also have "\<dots> = [i div k * k ..< i div k * k + k]" using filter_block [OF k b] .
  finally show ?thesis .
qed

lemma peer_values_block:
  assumes "distinct ps" "i < length ps * k" "length xs = length ps * k"
  shows "peer_values (prompt_blocks k ps) xs i = chunks k xs ! (i div k)"
proof (rule nth_equalityI)
  have k: "0 < k" using assms(2) by (cases k) auto
  have d: "length xs mod k = 0" using assms(3) by simp
  have b: "i div k < length (chunks k xs)" using div_less_chunks [OF k d] assms(2,3) by simp
  then have l: "length (chunks k xs ! (i div k)) = k" using length_chunks_dvd [OF k d] by simp
  show "length (peer_values (prompt_blocks k ps) xs i) = length (chunks k xs ! (i div k))"
    using peers_block [OF assms(1,2)] l by (simp add: peer_values_def)
  fix j assume "j < length (peer_values (prompt_blocks k ps) xs i)"
  then have j: "j < k" using peers_block [OF assms(1,2)] by (simp add: peer_values_def)
  have "i div k * k + k \<le> length ps * k"
    using block_end [OF less_mult_imp_div_less [OF assms(2)]] .
  then have "i div k * k + j < length xs" using j assms(3) by simp
  from nth_chunks [OF k d this] show "peer_values (prompt_blocks k ps) xs i ! j = chunks k xs ! (i div k) ! j"
    using peers_block [OF assms(1,2)] j by (simp add: peer_values_def)
qed


lemma baseline_fun: "baseline est k = (\<lambda>g. map (centred est k (mean g)) g)"
  by (rule ext) (simp add: baseline_def)

lemma request_advantages_blocks:
  assumes ps: "distinct ps" and k: "0 < k" and n: "length rs = length ps * k"
  shows "map (\<lambda>i. let g = peer_values (prompt_blocks k ps) rs i in centred est (length g) (mean g) (rs ! i)) [0 ..< length rs]
    = concat (map (baseline est k) (chunks k rs))" (is "map ?f _ = _")
proof -
  have d: "length rs mod k = 0" using n by simp
  have c: "length (chunks k rs ! (i div k)) = k" if "i < length rs" for i
    using div_less_chunks [OF k d that] length_chunks_dvd [OF k d] by simp
  have "map ?f [0 ..< length rs] = map (\<lambda>i. centred est k (mean (chunks k rs ! (i div k))) (rs ! i)) [0 ..< length rs]"
    using peer_values_block [OF ps _ n] c by (intro map_cong) (simp_all add: n Let_def)
  also have "\<dots> = concat (map (\<lambda>g. map (\<lambda>r. centred est k (mean g) r) g) (chunks k rs))"
    by (rule map_by_chunks [OF k d])
  finally show ?thesis by (simp only: baseline_fun)
qed

lemma peer_stds_blocks:
  assumes ps: "distinct ps" and k: "0 < k" and n: "length xs = length ps * k"
  shows "peer_stds (prompt_blocks k ps) xs = map (\<lambda>i. std_or_zero k (chunks k xs ! (i div k))) [0 ..< length xs]"
proof -
  have d: "length xs mod k = 0" using n by simp
  have "length (chunks k xs ! (i div k)) = k" if "i < length xs" for i
    using div_less_chunks [OF k d that] length_chunks_dvd [OF k d] by simp
  then show ?thesis using peer_values_block [OF ps _ n] by (simp add: peer_stds_def n Let_def)
qed

lemma zip_map_nth: "length ys = length xs \<Longrightarrow>
    map (\<lambda>(s, a). h s a) (zip (map F [0 ..< length xs]) ys) = map (\<lambda>i. h (F i) (ys ! i)) [0 ..< length xs]"
  by (rule nth_equalityI) simp_all

lemma request_advantages_agree:
  assumes ps: "distinct ps" and k: "k = num_generations A" "0 < k" and n: "length rs = length ps * k"
    and "ga_scale A \<noteq> Scale_gdpo"
  shows "grouped_advantages A rows rs = Inr (request_advantages A (prompt_blocks k ps) rs)"
proof -
  let ?est = "ga_estimator A" and ?gs = "chunks k rs"
  let ?adv = "concat (map (baseline ?est k) ?gs)"
  have d: "length rs mod k = 0" using n by simp
  have v: "view_groups k rs = Inr ?gs" using k(2) d by (rule view_groups_ok)
  have len: "\<forall>g \<in> set ?gs. length g = k" using length_chunks_dvd [OF k(2) d] by blast
  have la: "length ?adv = length rs" using k(2) d by (intro length_concat_map_chunks) auto
  note adv = request_advantages_blocks [OF ps k(2) n]
  have stds: "map (\<lambda>(s, a). normalize_advantage s a) (zip (peer_stds (prompt_blocks k ps) base) ?adv)
      = map (\<lambda>i. normalize_advantage (std_or_zero k (chunks k base ! (i div k))) (?adv ! i)) [0 ..< length rs]"
    if "length base = length rs" for base
    unfolding peer_stds_blocks [OF ps k(2) that [unfolded n]] that using la by (rule zip_map_nth)
  have group: "map (\<lambda>(s, a). normalize_advantage s a) (zip (peer_stds (prompt_blocks k ps) rs) ?adv)
      = concat (map (\<lambda>g. map (normalize_advantage (std_or_zero k g)) (baseline ?est k g)) ?gs)"
  proof -
    have eq: "?adv = map (\<lambda>i. centred ?est k (mean (?gs ! (i div k))) (rs ! i)) [0 ..< length rs]"
      unfolding baseline_fun by (rule map_by_chunks [OF k(2) d, symmetric])
    have "?adv ! i = centred ?est k (mean (?gs ! (i div k))) (rs ! i)" if "i < length rs" for i
      unfolding eq using that by (simp del: map_map)
    then have "map (\<lambda>i. normalize_advantage (std_or_zero k (?gs ! (i div k))) (?adv ! i)) [0 ..< length rs]
        = map (\<lambda>i. normalize_advantage (std_or_zero k (?gs ! (i div k))) (centred ?est k (mean (?gs ! (i div k))) (rs ! i)))
            [0 ..< length rs]"
      by (intro map_cong) (simp_all only: set_upt atLeastLessThan_iff)
    also have "\<dots> = concat (map (\<lambda>g. map (\<lambda>r. normalize_advantage (std_or_zero k g) (centred ?est k (mean g) r)) g) ?gs)"
      by (rule map_by_chunks [OF k(2) d])
    finally show ?thesis unfolding stds [OF refl] by (simp only: baseline_fun map_map o_def)
  qed
  have rpp: "map (\<lambda>(s, a). normalize_advantage s a) (zip (peer_stds (prompt_blocks k ps) ?adv) ?adv)
      = concat (map (\<lambda>g. map (normalize_advantage (std_or_zero k g)) g) (chunks k ?adv))"
    unfolding stds [OF la] la [symmetric]
    by (rule map_by_chunks [of k ?adv "\<lambda>g. normalize_advantage (std_or_zero k g)"]) (simp_all only: k(2) d la)
  show ?thesis
    unfolding grouped_advantages_def request_advantages_def k(1) [symmetric] Let_def v res_bind_Inr adv [unfolded Let_def]
    using assms(5) rpp by (cases "?est = Est_reinforce_pp"; cases "ga_scale A")
      (simp_all only: group rpp la if_True if_False reward_scale.case simp_thms)
qed

lemma request_mode_ignores_gdpo:
  "request_advantages (A\<lparr>ga_scale := Scale_gdpo\<rparr>) = request_advantages (A\<lparr>ga_scale := Scale_none\<rparr>)"
  by (simp add: fun_eq_iff request_advantages_def Let_def)

text \<open>
  C24. The request-aware mode of multi-turn training agrees with the default mode for every estimator
  and for the scales none, group and batch: when no request is repeated, every prompt has its own
  block of \<open>num_generations\<close> requests and there is one row of rewards per request, both modes return
  the same advantages and log the same statistics.  The scale GDPO is excepted: only the default mode
  implements it, and the request-aware mode takes it for no scaling (\<open>request_mode_ignores_gdpo\<close>).
\<close>

theorem advantage_modes_agree:
  assumes "distinct rids" "distinct ps" "0 < num_generations A" "ga_scale A \<noteq> Scale_gdpo"
    and "length rids = length ps * num_generations A" "length rows = length rids" "length kls = length rows"
  shows "compute_advantages (A\<lparr>ga_dynamic := True\<rparr>) (prompt_blocks (num_generations A) ps) rids kls rows
    = compute_advantages (A\<lparr>ga_dynamic := False\<rparr>) pids rids kls rows"
proof -
  let ?T = "A\<lparr>ga_dynamic := True\<rparr>" and ?F = "A\<lparr>ga_dynamic := False\<rparr>"
  let ?k = "num_generations A" and ?R = "total_rewards A kls rows"
  have tot: "total_rewards ?T kls rows = ?R" "total_rewards ?F kls rows = ?R" by (simp_all add: total_rewards_def Let_def)
  have k: "num_generations ?T = ?k" "num_generations ?F = ?k" by (simp_all add: num_generations_def)
  have log: "log_rewards_metrics ?T = log_rewards_metrics ?F"
    by (simp add: fun_eq_iff log_rewards_metrics_def num_generations_def)
  have req: "request_advantages ?T = request_advantages ?F" by (simp add: fun_eq_iff request_advantages_def)
  have grp: "grouped_advantages ?F rows ?R = Inr (request_advantages ?F (prompt_blocks ?k ps) ?R)"
    using request_advantages_agree [of ps ?k ?F ?R rows] assms k by simp
  have R: "length ?R = length rids" using assms(6,7) by simp
  have "list_all (same_rewards ?R rids) rids"
    using same_rewards_distinct [OF assms(1)] by (simp add: list_all_iff)
  moreover have "spread_back rids rids (request_advantages ?F (prompt_blocks ?k ps) ?R) = Inr (request_advantages ?F (prompt_blocks ?k ps) ?R)"
  proof (rule spread_back_distinct [OF assms(1)])
    have "length (concat (map (baseline (ga_estimator A) ?k) (chunks ?k ?R))) = length ?R"
      using assms(3,5) R by (intro length_concat_map_chunks) auto
    then show "length (request_advantages ?F (prompt_blocks ?k ps) ?R) = length rids"
      using R by (auto simp: request_advantages_def peer_stds_def Let_def split: reward_scale.split)
  qed
  ultimately show ?thesis
    using assms(5,6) R
    by (simp add: compute_advantages_def tot log req grp get_last_indices_distinct [OF assms(1)] map_nth_id Let_def)
qed


subsection \<open>Concrete settings\<close>

definition pair_args :: grpo_args where
  "pair_args = \<lparr>ga_generations = 2, ga_generations_eval = 1, ga_training = True, ga_dynamic = False,
     ga_scale = Scale_group, ga_estimator = Est_grpo, ga_weights = [1], ga_beta = 0, ga_kl_in_reward = False\<rparr>"

lemma pair_args_simps [simp]:
  "\<not> ga_dynamic pair_args" "ga_scale pair_args = Scale_group" "ga_training pair_args" "ga_estimator pair_args = Est_grpo"
  "num_generations pair_args = 2" "ga_generations pair_args = 2" "ga_weights pair_args = [1]"
  by (simp_all add: pair_args_def num_generations_def)

theorem advantages_rank_group_witness:
  "\<exists>adv stats. compute_advantages pair_args [] [] [0, 0] [[Some 1], [None]] = Inr (map Some adv, stats) \<and> length adv = Suc (Suc 0) \<and>
    list_all2 fair_group (chunks 2 (total_rewards pair_args [0, 0] [[Some 1], [None]])) (chunks 2 adv)"
  using advantages_rank_group [of pair_args "[[Some 1], [None]]" "[0, 0]" "[]" "[]"] by simp

lemma pair_check: "check_num_generations 2 (Suc (Suc 0)) None = Inr ()"
  by (simp add: check_num_generations_def divisors_from_def upt_rec)

theorem advantages_bounded_witness:
  "\<exists>adv stats. compute_advantages pair_args [] [] [0, 0] [[Some 1], [Some 0]] = Inr (map Some adv, stats) \<and>
    list_all (\<lambda>a. \<bar>a\<bar> < advantage_limit Est_grpo 2) adv"
  using advantages_bounded [of pair_args "[[Some 1], [Some 0]]" None "[0, 0]" "[]" "[]"] pair_check by simp

theorem advantage_modes_agree_witness:
  "compute_advantages (pair_args\<lparr>ga_dynamic := True\<rparr>) (prompt_blocks 2 [''p'', ''q'']) [''a'', ''b'', ''c'', ''d''] [0, 0, 0, 0]
      [[Some 1], [Some 0], [Some 1], [Some 1]]
    = compute_advantages (pair_args\<lparr>ga_dynamic := False\<rparr>) [] [''a'', ''b'', ''c'', ''d''] [0, 0, 0, 0]
      [[Some 1], [Some 0], [Some 1], [Some 1]]"
  using advantage_modes_agree [of "[''a'', ''b'', ''c'', ''d'']" "[''p'', ''q'']" pair_args
      "[[Some 1], [Some 0], [Some 1], [Some 1]]" "[0, 0, 0, 0]" "[]"] by simp

text \<open>
  GDPO has no guard for a batch of one completion, which every other scale has: its advantage is not
  a number.
\<close>

lemma gdpo_single_completion_nan:
  "grouped_advantages (pair_args\<lparr>ga_training := False, ga_scale := Scale_gdpo\<rparr>) [[Some 1]] [1] = Inr [None]"
  by (simp add: grouped_advantages_def num_generations_def pair_args_def view_groups_def gdpo_def tstd_def chunks.simps)

text \<open>
  A prompt is numbered by its messages alone.  Two questions that differ in the image only are one
  prompt, and the request-aware mode compares the answers about one image with those about the other:
  a place always recognised and one never recognised both get advantages, where each on its own gets 0.
\<close>

lemma same_messages_same_prompt:
  assumes "add_prompt_id ff all [(s, h), (t, k)] = Inr [s', t']" "sa_messages s = sa_messages t"
  shows "sa_prompt_id s' = sa_prompt_id t'"
  using assms by (auto simp: add_prompt_id_def messages_key_def Let_def res_bind_eq_Inr_iff split: option.splits)

lemma images_share_baseline:
  defines "A \<equiv> pair_args\<lparr>ga_scale := Scale_none\<rparr>"
  shows "request_advantages A [''prompt_0'', ''prompt_0'', ''prompt_0'', ''prompt_0''] [1, 1, 0, 0]
      = [Some (1 / 2), Some (1 / 2), Some (- 1 / 2), Some (- 1 / 2)]"
    and "request_advantages A [''prompt_0'', ''prompt_0'', ''prompt_1'', ''prompt_1''] [1, 1, 0, 0] = [Some 0, Some 0, Some 0, Some 0]"
  by (simp_all add: A_def request_advantages_def peer_values_def peers_def dget_or_group_by centred_def mean_def upt_rec Let_def)

end
