(* ===== verification/RolloutLaws.thy ===== *)
theory RolloutLaws
  imports GrpoRollout AdvantageLaws
begin

text \<open>
  The samples of \<open>GRPOTrainer\<close>: the three even splits are one function, the buffer hands every slice
  of a generation out as often as configured, resampling returns the first rows that encode, and
  dynamic sampling keeps samples with their rewards and leaves no group without spread.
\<close>

subsection \<open>Even splits\<close>

text \<open>What a split over \<open>n\<close> parts promises, with the longer parts first.\<close>

locale even_split =
  fixes split :: "nat \<Rightarrow> 'a list \<Rightarrow> 'a list list"
  assumes split_length: "0 < n \<Longrightarrow> length (split n xs) = n"
    and split_concat: "0 < n \<Longrightarrow> concat (split n xs) = xs"
    and split_size: "0 < n \<Longrightarrow> i < n \<Longrightarrow>
      length (split n xs ! i) = length xs div n + (if i < length xs mod n then 1 else 0)"
begin

lemma balanced:
  assumes "0 < n" "a \<in> set (split n xs)" "b \<in> set (split n xs)"
  shows "length a \<le> Suc (length b)"
proof -
  obtain i j where "i < n" "a = split n xs ! i" "j < n" "b = split n xs ! j"
    using assms by (metis in_set_conv_nth split_length)
  then show ?thesis using assms(1) by (simp add: split_size)
qed

lemma equal_parts:
  assumes "0 < n" "length xs = n * m"
  shows "map length (split n xs) = replicate n m"
  using assms by (simp add: list_eq_iff_nth_eq split_length split_size)

lemma unique:
  assumes "0 < n" "length yss = n" "concat yss = xs"
    and "\<And>i. i < n \<Longrightarrow> length (yss ! i) = length xs div n + (if i < length xs mod n then 1 else 0)"
  shows "yss = split n xs"
proof (rule iffD1 [OF concat_eq_concat_iff])
  show "length yss = length (split n xs)" using assms by (simp add: split_length)
  show "\<forall>(x, y) \<in> set (zip yss (split n xs)). length x = length y"
    using assms by (auto simp: in_set_zip split_size split_length)
  show "concat yss = concat (split n xs)" using assms by (simp add: split_concat)
qed

end

text \<open>The cuts that all three implementations make.\<close>

definition cut_point :: "nat \<Rightarrow> nat \<Rightarrow> nat \<Rightarrow> nat" where
  "cut_point k r i = i * k + min i r"

definition cut_parts :: "nat \<Rightarrow> 'a list \<Rightarrow> 'a list list" where
  "cut_parts n xs =
     (let k = length xs div n; r = length xs mod n
      in map (\<lambda>i. py_slice (cut_point k r i) (cut_point k r (Suc i)) xs) [0 ..< n])"

lemma cut_point_Suc: "cut_point k r (Suc i) = cut_point k r i + k + (if i < r then 1 else 0)"
  by (simp add: cut_point_def)

lemma take_slice: "a \<le> b \<Longrightarrow> take a xs @ py_slice a b xs = take b xs"
  unfolding py_slice_def by (metis le_add_diff_inverse take_add)

lemma concat_cut_slices: "concat (map (\<lambda>i. py_slice (cut_point k r i) (cut_point k r (Suc i)) xs) [0 ..< n]) = take (cut_point k r n) xs"
proof (induction n)
  case (Suc n)
  have "cut_point k r n \<le> cut_point k r (Suc n)" by (simp add: cut_point_Suc)
  then show ?case using Suc take_slice [of _ _ xs] by simp
qed (simp add: cut_point_def)

lemma cut_point_end: "0 < n \<Longrightarrow> cut_point (l div n) (l mod n) n = l"
  by (simp add: cut_point_def min_absorb2 less_imp_le)

lemma cut_point_mono: "i \<le> j \<Longrightarrow> cut_point k r i \<le> cut_point k r j"
  by (simp add: cut_point_def add_mono min.coboundedI1)

interpretation cuts: even_split cut_parts
proof
  fix n i :: nat and xs :: "'a list"
  assume n: "0 < n"
  let ?c = "cut_point (length xs div n) (length xs mod n)"
  show "length (cut_parts n xs) = n" by (simp add: cut_parts_def Let_def)
  show "concat (cut_parts n xs) = xs"
    using cut_point_end [OF n, of "length xs"] by (simp add: cut_parts_def Let_def concat_cut_slices)
  assume i: "i < n"
  have "?c (Suc i) \<le> length xs" using cut_point_mono [of "Suc i" n] i cut_point_end [OF n, of "length xs"] by (metis Suc_leI)
  then show "length (cut_parts n xs ! i) = length xs div n + (if i < length xs mod n then 1 else 0)"
    using i by (simp add: cut_parts_def py_slice_def cut_point_Suc Let_def)
qed

lemma chunk_list_cuts: "0 < n \<Longrightarrow> chunk_list n xs = Inr (cut_parts n xs)"
  by (simp add: chunk_list_def cut_parts_def cut_point_def Let_def)

lemma step_chunks_cuts:
  "step_chunks k r i (cut_point k r i) n xs = map (\<lambda>i. py_slice (cut_point k r i) (cut_point k r (Suc i)) xs) [i ..< i + n]"
proof (induction n arbitrary: i)
  case (Suc n)
  have "[i ..< i + Suc n] = i # [Suc i ..< Suc i + n]" by (simp add: upt_conv_Cons)
  then show ?case using Suc [of "Suc i"] by (simp add: cut_point_Suc [symmetric] Let_def del: upt_Suc)
qed simp

lemma mini_batches_cuts: "0 < n \<Longrightarrow> mini_batches n xs = Inr (cut_parts n xs)"
  using step_chunks_cuts [of "length xs div n" "length xs mod n" 0 n xs]
  by (simp add: mini_batches_def cut_parts_def cut_point_def Let_def)

lemma process_start: "(if p < r then p * (k + 1) else r * (k + 1) + (p - r) * k) = cut_point k r p"
  by (auto simp: cut_point_def algebra_simps diff_mult_distrib2)

lemma length_cut_part:
  assumes "p < n"
  shows "length (cut_parts n xs ! p) * n < length xs \<longleftrightarrow> 0 < length xs mod n \<and> length xs mod n \<le> p"
proof -
  let ?k = "length xs div n" and ?r = "length xs mod n"
  have e: "?k * n + ?r = length xs" by (rule div_mult_mod_eq)
  have r: "?r < n" using assms by simp
  have len: "length (cut_parts n xs ! p) = ?k + (if p < ?r then 1 else 0)"
    using cuts.split_size [of n p xs] assms by simp
  show ?thesis
  proof (cases "p < ?r")
    case True
    have "(?k + 1) * n = ?k * n + n" by (simp only: add_mult_distrib mult_1)
    then have "\<not> (?k + 1) * n < length xs" using e r by linarith
    then show ?thesis using True len by simp
  next
    case False
    then show ?thesis using len e by (simp only: if_False add_0_right) linarith
  qed
qed

lemma process_data_cuts:
  assumes "p < n"
  shows "get_even_process_data n p xs =
    Inr (cut_parts n xs ! p, if length (cut_parts n xs ! p) * n < length xs then 1 else 0)"
proof -
  let ?k = "length xs div n" and ?r = "length xs mod n"
  have n: "n \<noteq> 0" using assms by simp
  have st: "(if p < ?r then cut_point ?k ?r p + ?k + 1 else cut_point ?k ?r p + ?k) = cut_point ?k ?r (Suc p)"
    by (simp add: cut_point_Suc)
  have nth: "cut_parts n xs ! p = py_slice (cut_point ?k ?r p) (cut_point ?k ?r (Suc p)) xs"
    using assms by (simp add: cut_parts_def Let_def)
  show ?thesis
    unfolding get_even_process_data_def Let_def process_start st length_cut_part [OF assms] using n nth by simp
qed

interpretation chunk: even_split "\<lambda>n xs. projr (chunk_list n xs)"
  by unfold_locales (simp_all add: chunk_list_cuts cuts.split_length cuts.split_concat cuts.split_size)

interpretation mini: even_split "\<lambda>n xs. projr (mini_batches n xs)"
  by unfold_locales (simp_all add: mini_batches_cuts cuts.split_length cuts.split_concat cuts.split_size)


text \<open>
  C28. The three ways to share data out evenly, over a list of parts (\<open>chunk_list\<close>), over the steps of a
  generation (\<open>split_by_mini_batches\<close>) and over the processes (\<open>get_even_process_data\<close>), give the same
  parts: in order, losing nothing, with lengths that differ by one at most.
\<close>

theorem even_splits_agree:
  assumes "0 < n"
  shows "\<exists>parts. chunk_list n xs = Inr parts \<and> mini_batches n xs = Inr parts \<and>
    map (\<lambda>p. map_sum id fst (get_even_process_data n p xs)) [0 ..< n] = map Inr parts \<and>
    concat parts = xs \<and> list_all (\<lambda>a. list_all (\<lambda>b. length a \<le> Suc (length b)) parts) parts"
proof -
  have "map (\<lambda>p. map_sum id fst (get_even_process_data n p xs)) [0 ..< n] = map (\<lambda>p. Inr (cut_parts n xs ! p)) [0 ..< n]"
    by (simp add: process_data_cuts)
  also have "\<dots> = map Inr (cut_parts n xs)"
    using cuts.split_length [OF assms, of xs] by (simp add: list_eq_iff_nth_eq)
  finally show ?thesis
    using assms cuts.balanced [OF assms, of _ xs] cuts.split_concat [OF assms, of xs]
    by (intro exI [of _ "cut_parts n xs"]) (simp add: chunk_list_cuts mini_batches_cuts list_all_iff)
qed

theorem even_splits_agree_witness:
  "\<exists>parts. chunk_list 2 [1, 2, 3 :: nat] = Inr parts \<and> mini_batches 2 [1, 2, 3] = Inr parts \<and>
    map (\<lambda>p. map_sum id fst (get_even_process_data 2 p [1, 2, 3])) [0 ..< 2] = map Inr parts \<and>
    concat parts = [1, 2, 3] \<and> list_all (\<lambda>a. list_all (\<lambda>b. length a \<le> Suc (length b)) parts) parts"
  by (rule even_splits_agree) simp

subsection \<open>The buffer\<close>

lemma train_steps_append:
  "train_steps B (xs @ ys) s =
     res_bind (train_steps B xs s) (\<lambda>(out1, s1). res_bind (train_steps B ys s1) (\<lambda>(out2, s2). Inr (out1 @ out2, s2)))"
proof (induction xs arbitrary: s)
  case Nil
  then show ?case by (cases "train_steps B ys s") auto
next
  case (Cons x xs)
  show ?case
  proof (cases "prepare_inputs B True x s")
    case (Inr r)
    obtain i s1 g where r: "r = (i, s1, g)" by (cases r)
    show ?thesis
      by (cases "train_steps B xs s1") (auto simp: Inr r Cons res_bind_def split: sum.splits)
  qed simp
qed

definition initial_buffer :: "'b buffer" where
  "initial_buffer = \<lparr>bf_step = 0, bf_buffered = None\<rparr>"

text \<open>The generation a step belongs to.\<close>

definition generation_of :: "buffer_args \<Rightarrow> nat \<Rightarrow> nat" where
  "generation_of B t = t - t mod generate_every B"

definition step_slice :: "buffer_args \<Rightarrow> 'b list list \<Rightarrow> nat \<Rightarrow> 'b local_input \<times> bool" where
  "step_slice B fs t = (Slice (fs ! generation_of B t ! (t mod rollout_samples B)), t mod generate_every B = 0)"

lemma generation_of_Suc: "Suc t mod generate_every B \<noteq> 0 \<Longrightarrow> generation_of B (Suc t) = generation_of B t"
  by (simp add: generation_of_def mod_Suc split: if_splits)

lemma train_steps_slices:
  assumes "0 < generate_every B" "list_all (\<lambda>f. length f = rollout_samples B) fs"
  shows "\<exists>s. train_steps B fs initial_buffer = Inr (map (step_slice B fs) [0 ..< length fs], s) \<and> bf_step s = length fs \<and>
    bf_buffered s = (if fs = [] then None else Some (fs ! generation_of B (length fs - 1)))"
  using assms(2)
proof (induction fs rule: rev_induct)
  case Nil
  then show ?case by (simp add: initial_buffer_def)
next
  case (snoc f fs)
  let ?t = "length fs"
  obtain s where s: "train_steps B fs initial_buffer = Inr (map (step_slice B fs) [0 ..< ?t], s)" "bf_step s = ?t"
      "bf_buffered s = (if fs = [] then None else Some (fs ! generation_of B (?t - 1)))"
    using snoc by auto
  have rs: "0 < rollout_samples B" using assms(1) by (cases "rollout_samples B") (auto simp: generate_every_def)
  let ?buf = "if ?t mod generate_every B = 0 \<or> bf_buffered s = None then f else the (bf_buffered s)"
  have gen: "generation_of B t \<le> t" for t by (simp add: generation_of_def)
  have buf: "?buf = (fs @ [f]) ! generation_of B ?t"
  proof (cases "?t mod generate_every B = 0 \<or> fs = []")
    case True
    then show ?thesis using s(3) by (auto simp: generation_of_def)
  next
    case False
    then obtain m where m: "?t = Suc m" by (cases ?t) auto
    then have "generation_of B ?t = generation_of B m" using generation_of_Suc [of m B] False by simp
    then show ?thesis using False s(3) m gen [of m] by (simp add: nth_append)
  qed
  have len: "length ?buf = rollout_samples B"
    using snoc.prems gen [of ?t] unfolding buf by (simp add: list_all_length)
  have step: "prepare_inputs B True f s =
      Inr (Slice (?buf ! (?t mod rollout_samples B)), s\<lparr>bf_step := Suc ?t, bf_buffered := Some ?buf\<rparr>,
           ?t mod generate_every B = 0 \<or> bf_buffered s = None)"
    using assms(1) len mod_less_divisor [OF rs, of ?t] s(2) by (simp add: prepare_inputs_def Let_def not_le)
  have first: "?t mod generate_every B = 0 \<or> bf_buffered s = None \<longleftrightarrow> ?t mod generate_every B = 0"
    using s(3) by auto
  have same: "step_slice B (fs @ [f]) i = step_slice B fs i" if "i < ?t" for i
    using that gen [of i] by (simp add: step_slice_def nth_append)
  then have "map (step_slice B (fs @ [f])) [0 ..< ?t] = map (step_slice B fs) [0 ..< ?t]" by simp
  moreover have "train_steps B (fs @ [f]) initial_buffer =
      Inr (map (step_slice B fs) [0 ..< ?t] @ [step_slice B (fs @ [f]) ?t], s\<lparr>bf_step := Suc ?t, bf_buffered := Some ?buf\<rparr>)"
    unfolding train_steps_append s(1) step_slice_def buf [symmetric]
    by (simp add: step first)
  ultimately show ?case using buf by simp
qed


lemma upt_shift: "[a ..< a + n] = map ((+) a) [0 ..< (n::nat)]"
  by (simp add: list_eq_iff_nth_eq)

lemma filter_one: "j < r \<Longrightarrow> filter (\<lambda>u. u = j) [0 ..< r] = [j :: nat]"
  by (rule sorted_distinct_set_unique) (auto intro: sorted_wrt_filter)

lemma count_residue:
  assumes "j < r"
  shows "length (filter (\<lambda>u. u mod r = j) [0 ..< r * m]) = m"
proof (induction m)
  case (Suc m)
  have "filter (\<lambda>u. u mod r = j) (map ((+) (r * m)) [0 ..< r]) = map ((+) (r * m)) (filter (\<lambda>u. u = j) [0 ..< r])"
  proof -
    have "filter (\<lambda>u. u mod r = j) [0 ..< r] = filter (\<lambda>u. u = j) [0 ..< r]" by (rule filter_cong) auto
    then show ?thesis by (simp add: filter_map o_def)
  qed
  moreover have "[0 ..< r * Suc m] = [0 ..< r * m] @ map ((+) (r * m)) [0 ..< r]"
    using upt_add_eq_append [of 0 "r * m" r] by (simp add: upt_shift [symmetric] add.commute)
  ultimately show ?case using Suc by (simp add: filter_one [OF assms])
qed simp

text \<open>How often slice \<open>j\<close> of the generation made at step \<open>g\<close> is trained on within \<open>n\<close> steps.\<close>

definition slice_uses :: "buffer_args \<Rightarrow> nat \<Rightarrow> nat \<Rightarrow> nat \<Rightarrow> nat" where
  "slice_uses B n g j = length (filter (\<lambda>t. generation_of B t = g \<and> t mod rollout_samples B = j) [0 ..< n])"

lemma slice_uses_iterations:
  assumes "k * generate_every B + generate_every B \<le> n" "j < rollout_samples B" "0 < ba_iterations B"
  shows "slice_uses B n (k * generate_every B) j = ba_iterations B"
proof -
  let ?ge = "generate_every B" and ?rs = "rollout_samples B" and ?P = "\<lambda>t. generation_of B t = k * generate_every B \<and> t mod rollout_samples B = j"
  have ge: "?ge = ?rs * ba_iterations B" "0 < ?ge" using assms(2,3) by (simp_all add: generate_every_def)
  have gen: "generation_of B t = k * ?ge \<longleftrightarrow> t div ?ge = k" for t
    using minus_mod_eq_div_mult [of t ?ge] ge(2) by (simp add: generation_of_def)
  have "filter ?P [0 ..< n] = filter ?P [k * ?ge ..< k * ?ge + ?ge]"
  proof (rule sorted_distinct_set_unique)
    show "set (filter ?P [0 ..< n]) = set (filter ?P [k * ?ge ..< k * ?ge + ?ge])"
      using assms(1) by (auto simp: gen div_block [OF ge(2)])
  qed (simp_all add: sorted_wrt_filter)
  also have "\<dots> = filter ?P (map ((+) (k * ?ge)) [0 ..< ?ge])" by (simp only: upt_shift)
  also have "\<dots> = map ((+) (k * ?ge)) (filter (\<lambda>u. u mod ?rs = j) [0 ..< ?ge])"
  proof -
    have "?P (k * ?ge + u) \<longleftrightarrow> u mod ?rs = j" if "u < ?ge" for u
    proof -
      have "(k * ?ge + u) mod ?rs = u mod ?rs" unfolding ge(1) by (simp add: mult.left_commute [of k])
      moreover have "(k * ?ge + u) div ?ge = k" using that by simp
      ultimately show ?thesis unfolding gen by simp
    qed
    then have "filter (?P \<circ> (+) (k * ?ge)) [0 ..< ?ge] = filter (\<lambda>u. u mod ?rs = j) [0 ..< ?ge]"
      by (intro filter_cong) (simp_all add: o_def)
    then show ?thesis by (simp add: filter_map)
  qed
  finally show ?thesis using count_residue [OF assms(2), of "ba_iterations B"] by (simp add: slice_uses_def ge(1))
qed

text \<open>
  C29. Starting from the empty buffer, training step \<open>t\<close> gets slice \<open>t mod (steps * sp)\<close> of the generation
  made at the last multiple of \<open>generate_every\<close>, batches are generated at these multiples only, and
  every slice of a finished generation is trained on exactly \<open>num_iterations\<close> times.
\<close>

theorem buffered_slices_used:
  assumes "0 < ba_iterations B" "list_all (\<lambda>f. length f = rollout_samples B) fs"
    and "k * generate_every B + generate_every B \<le> length fs" "j < rollout_samples B"
  shows "\<exists>s. train_steps B fs initial_buffer = Inr (map (step_slice B fs) [0 ..< length fs], s) \<and>
    slice_uses B (length fs) (k * generate_every B) j = ba_iterations B"
proof -
  have "0 < generate_every B" using assms(1,4) by (simp add: generate_every_def)
  from train_steps_slices [OF this assms(2)] slice_uses_iterations [OF assms(3,4,1)] show ?thesis by blast
qed

theorem buffered_slices_used_witness:
  "\<exists>s. train_steps \<lparr>ba_steps = 1, ba_sequence_parallel = 1, ba_iterations = 2\<rparr> [''a'', ''b''] initial_buffer
      = Inr (map (step_slice \<lparr>ba_steps = 1, ba_sequence_parallel = 1, ba_iterations = 2\<rparr> [''a'', ''b'']) [0 ..< length [''a'', ''b'']], s) \<and>
    slice_uses \<lparr>ba_steps = 1, ba_sequence_parallel = 1, ba_iterations = 2\<rparr> (length [''a'', ''b''])
      (0 * generate_every \<lparr>ba_steps = 1, ba_sequence_parallel = 1, ba_iterations = 2\<rparr>) 0
      = ba_iterations \<lparr>ba_steps = 1, ba_sequence_parallel = 1, ba_iterations = 2\<rparr>"
  by (rule buffered_slices_used) (simp_all add: generate_every_def rollout_samples_def)


subsection \<open>Resampling\<close>

definition drawn :: "(nat \<Rightarrow> 'a list) \<Rightarrow> nat \<Rightarrow> nat \<Rightarrow> 'a list" where
  "drawn batches pos stop = concat (map batches [pos ..< stop])"

lemma drawn_split: "pos \<le> mid \<Longrightarrow> mid \<le> stop \<Longrightarrow> drawn batches pos stop = drawn batches pos mid @ drawn batches mid stop"
  unfolding drawn_def by (metis concat_append le_add_diff_inverse map_append upt_add_eq_append)

lemma fill_pending_draws:
  assumes "\<And>i. batches i \<noteq> []"
  shows "\<exists>stop \<ge> pos. fill_pending batches needed pending pos = Some (pending @ drawn batches pos stop, stop) \<and>
    needed \<le> length pending + length (drawn batches pos stop)"
proof (induction "needed - length pending" arbitrary: pending pos rule: less_induct)
  case less
  show ?case
  proof (cases "length pending < needed")
    case False
    then show ?thesis by (intro exI [of _ pos]) (simp add: fill_pending.simps drawn_def)
  next
    case True
    have "needed - length (pending @ batches pos) < needed - length pending"
      using True assms [of pos] by (simp add: diff_less_mono2)
    from less [OF this, of "Suc pos"] obtain stop where st: "Suc pos \<le> stop"
        "fill_pending batches needed (pending @ batches pos) (Suc pos) = Some ((pending @ batches pos) @ drawn batches (Suc pos) stop, stop)"
        "needed \<le> length (pending @ batches pos) + length (drawn batches (Suc pos) stop)"
      by blast
    have "drawn batches pos stop = batches pos @ drawn batches (Suc pos) stop"
      using st(1) by (simp add: drawn_def upt_conv_Cons)
    then show ?thesis using True st by (intro exI [of _ stop]) (simp add: fill_pending.simps [of _ _ pending])
  qed
qed

lemma collect_valid_spec:
  "collect_valid f n xs = (ys, rest) \<Longrightarrow>
    \<exists>used. xs = used @ rest \<and> ys = List.map_filter f used \<and> length ys \<le> n \<and> (length ys = n \<or> rest = [])"
proof (induction f n xs arbitrary: ys rest rule: collect_valid.induct)
  case (1 f pending)
  then show ?case by (simp add: map_filter_simps)
next
  case (2 f n)
  then show ?case by (simp add: map_filter_simps)
next
  case (3 f n x pending)
  show ?case
  proof (cases "f x")
    case None
    then obtain used where "pending = used @ rest" "ys = List.map_filter f used" "length ys \<le> Suc n"
        "length ys = Suc n \<or> rest = []" using 3 by auto
    then show ?thesis using None by (intro exI [of _ "x # used"]) (simp add: map_filter_simps)
  next
    case (Some y)
    obtain zs r where z: "collect_valid f n pending = (zs, r)" by fastforce
    then obtain used where "pending = used @ r" "zs = List.map_filter f used" "length zs \<le> n" "length zs = n \<or> r = []"
      using 3(2) [OF Some z] by blast
    then show ?thesis using Some z 3(3) by (intro exI [of _ "x # used"]) (auto simp: map_filter_simps)
  qed
qed

lemma map_filter_append [simp]: "List.map_filter f (xs @ ys) = List.map_filter f xs @ List.map_filter f ys"
  by (simp add: List.map_filter_def)

text \<open>After the rounds either enough rows are valid or nothing drawn is left over.\<close>

lemma resample_rounds_spec:
  assumes "\<And>i. batches i \<noteq> []" "length valid \<le> required"
  shows "\<exists>valid' rest stop used. resample_rounds f batches required n valid pending pos = Some (valid', rest, stop) \<and>
    pos \<le> stop \<and> pending @ drawn batches pos stop = used @ rest \<and> valid' = valid @ List.map_filter f used \<and>
    length valid' \<le> required \<and> (n = 0 \<or> length valid' = required \<or> rest = [])"
  using assms(2)
proof (induction n arbitrary: valid pending pos)
  case 0
  then show ?case by (intro exI [of _ valid] exI [of _ pending] exI [of _ pos] exI [of _ "[]"]) (simp add: drawn_def map_filter_simps)
next
  case (Suc n)
  show ?case
  proof (cases "required \<le> length valid")
    case True
    then show ?thesis using Suc.prems
      by (intro exI [of _ valid] exI [of _ pending] exI [of _ pos] exI [of _ "[]"]) (simp add: drawn_def map_filter_simps)
  next
    case False
    let ?need = "required - length valid"
    obtain mid where mid: "pos \<le> mid" "fill_pending batches ?need pending pos = Some (pending @ drawn batches pos mid, mid)"
      using fill_pending_draws [of batches pos ?need pending, OF assms(1)] by blast
    obtain ys r where c: "collect_valid f ?need (pending @ drawn batches pos mid) = (ys, r)" by fastforce
    obtain used1 where u1: "pending @ drawn batches pos mid = used1 @ r" "ys = List.map_filter f used1"
        "length ys \<le> ?need" "length ys = ?need \<or> r = []"
      using collect_valid_spec [OF c] by blast
    have "length (valid @ ys) \<le> required" using u1(3) False by simp
    from Suc.IH [OF this, of r mid] obtain valid' rest stop used where v:
        "resample_rounds f batches required n (valid @ ys) r mid = Some (valid', rest, stop)"
        "mid \<le> stop" "r @ drawn batches mid stop = used @ rest" "valid' = (valid @ ys) @ List.map_filter f used"
        "length valid' \<le> required" "n = 0 \<or> length valid' = required \<or> rest = []"
      by blast
    have "pending @ drawn batches pos stop = (used1 @ used) @ rest"
      using drawn_split [OF mid(1) v(2), of batches] u1(1) v(3) by simp (metis append_assoc)
    moreover have "length valid' = required \<or> rest = []"
    proof (cases n)
      case 0
      then have "valid' = valid @ ys" "rest = r" using v(1) by simp_all
      then show ?thesis using u1(4) False by auto
    qed (use v(6) in simp)
    ultimately show ?thesis
      using False mid v c u1(2)
      by (intro exI [of _ valid'] exI [of _ rest] exI [of _ stop] exI [of _ "used1 @ used"]) simp
  qed
qed

text \<open>
  C31. When the resample iterator yields rows, resampling returns: it draws some batches and gives back
  exactly the first rows of the inputs followed by the drawn batches that encode, as many as there
  were inputs, or raises a \<open>RuntimeError\<close> when there are not enough of them.
\<close>

theorem resampling_returns_first_valid:
  assumes "\<And>i. batches i \<noteq> []"
  shows "\<exists>r stop. resample_encode_failed_inputs encodes batches pos rounds inputs = Some (r, stop) \<and> pos \<le> stop \<and>
    r = (let good = List.map_filter (try_encode encodes) (inputs @ drawn batches pos stop)
         in if length good < length inputs then Inl RuntimeError else Inr (take (length inputs) good))"
proof -
  let ?f = "try_encode encodes" and ?n = "length inputs"
  obtain valid rest stop used where v:
      "resample_rounds ?f batches ?n (rounds + 1) [] inputs pos = Some (valid, rest, stop)" "pos \<le> stop"
      "inputs @ drawn batches pos stop = used @ rest" "valid = [] @ List.map_filter ?f used" "length valid \<le> ?n"
      "rounds + 1 = 0 \<or> length valid = ?n \<or> rest = []"
    using resample_rounds_spec [where batches = batches and valid = "[]" and required = ?n and f = ?f and n = "rounds + 1"
        and pending = inputs and pos = pos, OF assms] by auto
  let ?good = "List.map_filter ?f (inputs @ drawn batches pos stop)"
  have good: "?good = valid @ List.map_filter ?f rest" unfolding v(3) using v(4) by simp
  have "length valid < ?n \<longleftrightarrow> length ?good < ?n"
    using v(5,6) unfolding good by (auto simp: map_filter_simps)
  moreover have "take ?n valid = take ?n ?good"
    using v(5,6) unfolding good by (auto simp: map_filter_simps)
  ultimately have "resample_encode_failed_inputs encodes batches pos rounds inputs =
      Some (if length ?good < ?n then Inl RuntimeError else Inr (take ?n ?good), stop)"
    unfolding resample_encode_failed_inputs_def v(1) by (simp only: option.map prod.case)
  then show ?thesis using v(2) unfolding Let_def by blast
qed

definition ask :: "string \<Rightarrow> sample" where
  "ask q = \<lparr>sa_messages = [PDict [(''role'', PStr ''user''), (''content'', PStr q)]], sa_images = [],
     sa_prompt_id = [], sa_request_id = []\<rparr>"

theorem resampling_returns_first_valid_witness:
  "\<exists>r stop. resample_encode_failed_inputs (\<lambda>s. True) (\<lambda>i. [ask ''b'']) 0 max_resample_rounds [ask ''a''] = Some (r, stop) \<and> 0 \<le> stop \<and>
    r = (let good = List.map_filter (try_encode (\<lambda>s. True)) ([ask ''a''] @ drawn (\<lambda>i. [ask ''b'']) 0 stop)
         in if length good < length [ask ''a''] then Inl RuntimeError else Inr (take (length [ask ''a'']) good))"
  by (rule resampling_returns_first_valid) simp


subsection \<open>Dynamic sampling\<close>

lemma select_append: "length m1 = length xs \<Longrightarrow> select (m1 @ m2) (xs @ ys) = select m1 xs @ select m2 ys"
  by (simp add: select_def)

lemma select_const: "select (replicate (length xs) b) xs = (if b then xs else [])"
proof -
  have "zip (replicate (length xs) b) xs = map (Pair b) xs" by (induction xs) auto
  then show ?thesis by (simp add: select_def o_def)
qed

lemma select_groups:
  "\<forall>g \<in> set gs. length g = k \<Longrightarrow> select (concat (map (\<lambda>g. replicate k (P g)) gs)) (concat gs) = concat (filter P gs)"
proof (induction gs)
  case (Cons g gs)
  then show ?case using select_const [of g "P g"] by (simp add: select_append)
qed (simp add: select_def)

lemma select_zip: "length xs = length ys \<Longrightarrow> zip (select m xs) (select m ys) = select m (zip xs ys)"
proof (induction m arbitrary: xs ys)
  case (Cons b m)
  then show ?case by (cases xs; cases ys) (auto simp: select_def)
qed (simp add: select_def)

lemma length_select: "length xs = length ys \<Longrightarrow> length (select m xs) = length (select m ys)"
proof (induction m arbitrary: xs ys)
  case (Cons b m)
  then show ?case by (cases xs; cases ys) (auto simp: select_def)
qed (simp add: select_def)

lemma set_select: "set (select m xs) \<subseteq> set xs"
  by (auto simp: select_def dest: set_zip_rightD)

definition spread_group :: "grpo_args \<Rightarrow> fl list list \<Rightarrow> bool" where
  "spread_group A g = positive (std_or_zero (num_generations A) (map (weigh (ga_weights A)) g))"

lemma compute_std_groups:
  assumes "\<not> ga_dynamic A" "0 < num_generations A" "length rows mod num_generations A = 0"
  shows "compute_std A pids rids rows =
    Inr (concat (map (\<lambda>g. replicate (num_generations A) (std_or_zero (num_generations A) (map (weigh (ga_weights A)) g)))
      (chunks (num_generations A) rows)))"
proof -
  let ?k = "num_generations A"
  have "view_groups ?k (map (weigh (ga_weights A)) rows) = Inr (map (map (weigh (ga_weights A))) (chunks ?k rows))"
    using view_groups_ok [of ?k "map (weigh (ga_weights A)) rows"] assms(2,3) by (simp add: chunks_map)
  then show ?thesis using assms(1) by (simp add: compute_std_def Let_def o_def)
qed

lemma std_mask_groups:
  assumes "\<not> ga_dynamic A" "0 < num_generations A" "length (snd b) mod num_generations A = 0"
  shows "std_mask A b = Inr (concat (map (\<lambda>g. replicate (num_generations A) (spread_group A g)) (chunks (num_generations A) (snd b))))"
  by (simp add: std_mask_def compute_std_groups [OF assms] map_concat o_def spread_group_def Let_def)

text \<open>A batch of \<open>procs\<close> processes with \<open>m\<close> samples each.\<close>

definition scored_ok :: "nat \<Rightarrow> nat \<Rightarrow> scored \<Rightarrow> bool" where
  "scored_ok procs m b \<longleftrightarrow> map length (fst b) = replicate procs m \<and> length (snd b) = procs * m"

lemma scored_ok_length:
  assumes "scored_ok procs m b"
  shows "length (concat (fst b)) = length (snd b)"
proof -
  have "length (concat xss) = sum_list (map length xss)" for xss :: "sample list list" by (rule length_concat)
  then show ?thesis using assms by (simp add: scored_ok_def sum_list_replicate)
qed

text \<open>A sample with the rewards it got in one of the batches.\<close>

definition own_rewards :: "scored \<Rightarrow> (nat \<Rightarrow> scored) \<Rightarrow> sample \<times> fl list \<Rightarrow> bool" where
  "own_rewards origin nxt p \<longleftrightarrow> (\<exists>b. (b = origin \<or> (\<exists>k. b = nxt k)) \<and> p \<in> set (zip (concat (fst b)) (snd b)))"

definition collected :: "grpo_args \<Rightarrow> scored \<Rightarrow> (nat \<Rightarrow> scored) \<Rightarrow> sample list \<Rightarrow> fl list list \<Rightarrow> bool" where
  "collected A origin nxt valid rows \<longleftrightarrow>
     length valid = length rows \<and> list_all (own_rewards origin nxt) (zip valid rows) \<and>
     (\<exists>gs. rows = concat gs \<and> list_all (\<lambda>g. length g = num_generations A \<and> spread_group A g) gs)"

lemma collected_step:
  assumes A: "\<not> ga_dynamic A" "0 < num_generations A" "procs * m mod num_generations A = 0"
    and ok: "scored_ok procs m cur" "cur = origin \<or> (\<exists>k. cur = nxt k)"
    and c: "collected A origin nxt valid rows" and m: "std_mask A cur = Inr msk"
  shows "collected A origin nxt (valid @ select msk (concat (fst cur))) (rows @ select msk (snd cur))"
proof -
  let ?k = "num_generations A" and ?S = "concat (fst cur)" and ?R = "snd cur"
  have len: "length ?S = length ?R" "length ?R mod ?k = 0"
    using scored_ok_length [OF ok(1)] ok(1) A(3) by (simp_all add: scored_ok_def)
  have gk: "\<forall>g \<in> set (chunks ?k ?R). length g = ?k" using length_chunks_dvd [OF A(2) len(2)] by blast
  have "select msk ?R = concat (filter (spread_group A) (chunks ?k ?R))"
    using m select_groups [OF gk, of "spread_group A"]
    by (simp add: std_mask_groups [OF A(1,2) len(2)] concat_chunks [OF A(2)])
  moreover obtain gs where "rows = concat gs" "list_all (\<lambda>g. length g = ?k \<and> spread_group A g) gs"
    using c by (auto simp: collected_def)
  ultimately have "rows @ select msk ?R = concat (gs @ filter (spread_group A) (chunks ?k ?R)) \<and>
      list_all (\<lambda>g. length g = ?k \<and> spread_group A g) (gs @ filter (spread_group A) (chunks ?k ?R))"
    using gk by (auto simp: list_all_iff)
  then have groups: "\<exists>gs. rows @ select msk ?R = concat gs \<and> list_all (\<lambda>g. length g = ?k \<and> spread_group A g) gs"
    by (rule exI)
  have own: "list_all (own_rewards origin nxt) (zip (select msk ?S) (select msk ?R))"
    unfolding select_zip [OF len(1)] list_all_iff own_rewards_def using ok(2) set_select [of msk "zip ?S ?R"] by blast
  have "length valid = length rows" "list_all (own_rewards origin nxt) (zip valid rows)" using c by (simp_all add: collected_def)
  then show ?thesis
    unfolding collected_def using groups own length_select [OF len(1), of msk] by simp
qed

lemma sampling_loop_collects:
  assumes A: "\<not> ga_dynamic A" "0 < num_generations A" "procs * m mod num_generations A = 0"
    and nxt: "\<And>k. scored_ok procs m (nxt k)"
  shows "scored_ok procs m cur \<Longrightarrow> cur = origin \<or> (\<exists>k. cur = nxt k) \<Longrightarrow> collected A origin nxt valid rows \<Longrightarrow>
    \<exists>valid' rows' cur'. sampling_loop A gbs nxt k n valid rows cur = Inr (valid', rows', cur') \<and>
      collected A origin nxt valid' rows' \<and> scored_ok procs m cur'"
proof (induction n arbitrary: k valid rows cur)
  case (Suc n)
  have "length (snd cur) mod num_generations A = 0" using Suc.prems(1) A(3) by (simp add: scored_ok_def)
  then obtain msk where msk: "std_mask A cur = Inr msk" using std_mask_groups [OF A(1,2), of cur] by auto
  note step = collected_step [OF A Suc.prems(1,2,3) msk]
  show ?case
  proof (cases "gbs \<le> length (valid @ select msk (concat (fst cur)))")
    case True
    then show ?thesis using step Suc.prems(1) by (simp add: msk Let_def)
  next
    case False
    then show ?thesis using Suc.IH [OF nxt _ step, of k "Suc k"] by (auto simp: msk Let_def)
  qed
qed simp

lemma concat_equal_slices: "concat (map (\<lambda>p. py_slice (p * m) ((p + 1) * m) xs) [0 ..< procs]) = take (procs * m) xs"
  using concat_cut_slices [of m 0 xs procs] by (simp add: cut_point_def)

lemma length_equal_slice: "p < procs \<Longrightarrow> length xs = procs * m \<Longrightarrow> length (py_slice (p * m) ((p + 1) * m) xs) = m"
  using block_end [of p procs m] by (simp add: py_slice_def add.commute)

lemma std_of_groups:
  assumes A: "\<not> ga_dynamic A" "0 < num_generations A"
    and gs: "list_all (\<lambda>g. length g = num_generations A \<and> spread_group A g) gs"
  shows "\<exists>stds. compute_std A pids rids (concat gs) = Inr stds \<and> length stds = length (concat gs) \<and> list_all positive stds"
proof -
  let ?k = "num_generations A" and ?s = "\<lambda>g. std_or_zero (num_generations A) (map (weigh (ga_weights A)) g)"
  have k: "\<forall>g \<in> set gs. length g = ?k" using gs by (simp add: list_all_iff)
  then have len: "length (concat gs) = length gs * ?k" by (induction gs) auto
  have "compute_std A pids rids (concat gs) = Inr (concat (map (\<lambda>g. replicate ?k (?s g)) gs))"
    using compute_std_groups [OF A, of "concat gs"] len chunks_concat [OF A(2) k] by simp
  moreover have "length (concat (map (\<lambda>g. replicate ?k (?s g)) gs)) = length gs * ?k" by (induction gs) auto
  moreover have "list_all positive (concat (map (\<lambda>g. replicate ?k (?s g)) gs))"
    using gs by (auto simp: list_all_iff spread_group_def)
  ultimately show ?thesis using len by simp
qed

lemma positive_eq: "positive = (\<lambda>s. \<exists>x. s = Some x \<and> 0 < x)"
  by (auto simp: positive_def fun_eq_iff split: option.splits)

lemma sampling_filled:
  assumes "\<not> ga_dynamic A" "0 < num_generations A" "procs * m mod num_generations A = 0"
    and "sampling_loop A (procs * m) nxt 0 tries [] [] origin = Inr (valid, rows, cur)"
    and "collected A origin nxt valid rows" "scored_ok procs m cur" "procs * m \<le> length valid"
  shows "\<exists>parts. map (dynamic_sampling A (procs * m) tries nxt origin) [0 ..< procs]
        = map (\<lambda>part. Inr (part, take (procs * m) rows)) parts \<and>
    list_all (own_rewards origin nxt) (zip (concat parts) (take (procs * m) rows)) \<and>
    scored_ok procs m (parts, take (procs * m) rows) \<and>
    (\<exists>stds. compute_std A pids rids (take (procs * m) rows) = Inr stds \<and> length stds = procs * m \<and>
      list_all (\<lambda>s. \<exists>x. s = Some x \<and> 0 < x) stds)"
proof -
  let ?k = "num_generations A" and ?n = "procs * m"
  let ?parts = "map (\<lambda>p. py_slice (p * m) ((p + 1) * m) (take ?n valid)) [0 ..< procs]"
  obtain gs where gs: "rows = concat gs" "list_all (\<lambda>g. length g = ?k \<and> spread_group A g) gs"
    using assms(5) by (auto simp: collected_def)
  have "dynamic_sampling A ?n tries nxt origin p = Inr (py_slice (p * m) ((p + 1) * m) (take ?n valid), take ?n rows)"
    if "p < procs" for p
  proof -
    have "length (fst cur ! p) = m" using assms(6) that unfolding scored_ok_def
      by (metis length_map length_replicate nth_map nth_replicate)
    then show ?thesis using assms(7) assms(4) by (simp add: dynamic_sampling_def Let_def)
  qed
  then have run: "map (dynamic_sampling A ?n tries nxt origin) [0 ..< procs] = map (\<lambda>part. Inr (part, take ?n rows)) ?parts"
    by simp
  have parts: "concat ?parts = take ?n valid" by (subst concat_equal_slices) simp
  have len: "length (take ?n valid) = ?n" "length (take ?n rows) = ?n"
    using assms(7) assms(5) by (simp_all add: collected_def)
  then have "scored_ok procs m (?parts, take ?n rows)"
    using length_equal_slice [of _ procs "take ?n valid" m] by (simp add: scored_ok_def list_eq_iff_nth_eq)
  moreover have "list_all (own_rewards origin nxt) (zip (concat ?parts) (take ?n rows))"
    using assms(5) set_take_subset [of ?n "zip valid rows"]
    unfolding parts take_zip [symmetric] collected_def list_all_iff by blast
  moreover have "take ?n rows = concat (take (?n div ?k) gs)"
  proof -
    have "take (j * ?k) (concat gs) = concat (take j gs)" for j
      using gs(2) by (induction gs arbitrary: j) (simp_all, case_tac j, simp_all)
    moreover have "?n div ?k * ?k = ?n" using assms(3) by (metis add_0_right div_mult_mod_eq)
    ultimately show ?thesis unfolding gs(1) by metis
  qed
  then have "\<exists>stds. compute_std A pids rids (take ?n rows) = Inr stds \<and> length stds = ?n \<and> list_all positive stds"
    using std_of_groups [OF assms(1,2), of "take (?n div ?k) gs" pids rids] gs(2) len(2)
    by (simp add: list_all_iff) (metis in_set_takeD)
  ultimately show ?thesis using run unfolding positive_eq by blast
qed

text \<open>
  C14. Dynamic sampling in the default mode, where every prompt has \<open>num_generations\<close> samples: the
  groups are the consecutive blocks of that size, the generation batch of \<open>procs * m\<close> samples is a
  whole number of them, and every resampled batch has the shape of the original one (\<open>m\<close> samples per
  process, one row of rewards per sample).  Then the processes are left either with what they had, or
  with parts of the old sizes: every sample keeps the rewards it was scored with, and no group of the
  batch they go on with has rewards without spread, so no sample of it is wasted.  The mode with
  varying sample counts (\<open>dynamic_num_samples\<close>) has no such promise: there the batch may be cut in
  the middle of a group (\<open>varying_counts_cut_a_group\<close>).
\<close>

theorem dynamic_sampling_spread:
  assumes "\<not> ga_dynamic A" "0 < num_generations A" "procs * m mod num_generations A = 0"
    and "scored_ok procs m origin" "\<And>k. scored_ok procs m (nxt k)"
  shows "\<exists>parts rows. map (dynamic_sampling A (procs * m) tries nxt origin) [0 ..< procs] = map (\<lambda>part. Inr (part, rows)) parts \<and>
    list_all (own_rewards origin nxt) (zip (concat parts) rows) \<and> scored_ok procs m (parts, rows) \<and>
    ((parts, rows) = origin \<or> (\<exists>stds. compute_std A pids rids rows = Inr stds \<and> length stds = procs * m \<and> list_all (\<lambda>s. \<exists>x. s = Some x \<and> 0 < x) stds))"
proof -
  let ?k = "num_generations A" and ?n = "procs * m"
  have "collected A origin nxt [] []" by (auto simp: collected_def intro: exI [of _ "[]"])
  from sampling_loop_collects [OF assms(1-3,5,4) _ this, where gbs = ?n and k = 0 and n = tries]
  obtain valid rows cur where l: "sampling_loop A ?n nxt 0 tries [] [] origin = Inr (valid, rows, cur)"
      "collected A origin nxt valid rows" "scored_ok procs m cur"
    by auto
  show ?thesis
  proof (cases "?n \<le> length valid")
    case False
    obtain S R where o: "origin = (S, R)" by (cases origin)
    have "length S = procs" using assms(4) unfolding o scored_ok_def by (metis fst_conv length_map length_replicate)
    then have "map (dynamic_sampling A ?n tries nxt origin) [0 ..< procs] = map (\<lambda>part. Inr (part, R)) S"
      using False l(1) by (simp add: dynamic_sampling_def list_eq_iff_nth_eq o)
    moreover have "list_all (own_rewards origin nxt) (zip (concat S) R)"
      by (auto simp: list_all_iff own_rewards_def o)
    ultimately show ?thesis using assms(4) o by (intro exI [of _ S] exI [of _ R]) simp
  next
    case True
    show ?thesis using sampling_filled [OF assms(1-3) l True, of pids rids] by blast
  qed
qed

text \<open>
  The batch that the last allowed resample generates is never looked at: the result does not depend
  on it.  With a single resample allowed, dynamic sampling keeps the original batch unless that batch
  needs no resample at all.
\<close>

lemma sampling_loop_last:
  "(\<And>i. i < n \<Longrightarrow> nxt (k + i) = nxt' (k + i)) \<Longrightarrow>
    res_bind (sampling_loop A gbs nxt k (Suc n) valid rows cur) (\<lambda>(v, r, c). if gbs \<le> length v then Inr (Some (v, r, c)) else Inr None)
    = res_bind (sampling_loop A gbs nxt' k (Suc n) valid rows cur) (\<lambda>(v, r, c). if gbs \<le> length v then Inr (Some (v, r, c)) else Inr None)"
proof (induction n arbitrary: k valid rows cur)
  case 0
  then show ?case by (cases "std_mask A cur") (auto simp: Let_def)
next
  case (Suc n)
  show ?case
  proof (cases "std_mask A cur")
    case (Inr msk)
    have "nxt (Suc k + i) = nxt' (Suc k + i)" if "i < n" for i using Suc.prems [of "Suc i"] that by simp
    from Suc.IH [OF this] Suc.prems [of 0] show ?thesis
      by (simp add: Inr Let_def sampling_loop.simps(2) [where n = "Suc n"] del: sampling_loop.simps)
  qed simp
qed

lemma last_resample_unused:
  assumes "\<And>i. i < n \<Longrightarrow> nxt i = nxt' i"
  shows "dynamic_sampling A gbs (Suc n) nxt origin p = dynamic_sampling A gbs (Suc n) nxt' origin p"
proof -
  let ?keep = "\<lambda>(v, r, c :: scored). if gbs \<le> length v then Inr (Some (v, r, c)) else Inr None"
  let ?go = "\<lambda>x. case x of None \<Rightarrow> Inr (fst origin ! p, snd origin)
    | Some (v, r, c) \<Rightarrow> let n = length (fst c ! p) in Inr (py_slice (p * n) ((p + 1) * n) (take gbs v), take gbs r)"
  have go: "dynamic_sampling A gbs t f origin p = res_bind (res_bind (sampling_loop A gbs f 0 t [] [] origin) ?keep) ?go" for t f
    by (cases "sampling_loop A gbs f 0 t [] [] origin") (auto simp: dynamic_sampling_def)
  show ?thesis unfolding go using sampling_loop_last [of n nxt 0 nxt' A gbs "[]" "[]" origin] assms by simp
qed


definition pair_batch :: scored where
  "pair_batch = ([[ask ''a'', ask ''a'']], [[Some 1], [Some 0]])"

lemma pair_batch_ok: "scored_ok 1 2 pair_batch"
  by (simp add: scored_ok_def pair_batch_def)

theorem dynamic_sampling_spread_witness:
  "\<exists>parts rows. map (dynamic_sampling pair_args (1 * 2) 3 (\<lambda>k. pair_batch) pair_batch) [0 ..< 1] = map (\<lambda>part. Inr (part, rows)) parts \<and>
    list_all (own_rewards pair_batch (\<lambda>k. pair_batch)) (zip (concat parts) rows) \<and> scored_ok 1 2 (parts, rows) \<and>
    ((parts, rows) = pair_batch \<or> (\<exists>stds. compute_std pair_args [] [] rows = Inr stds \<and> length stds = 1 * 2 \<and> list_all (\<lambda>s. \<exists>x. s = Some x \<and> 0 < x) stds))"
  by (rule dynamic_sampling_spread) (simp_all only: pair_batch_ok pair_args_simps, simp_all)

text \<open>
  With varying sample counts a prompt of three requests has spread, yet a batch of two keeps only the
  two that were rewarded alike: the kept part has no spread left.
\<close>

definition trio :: scored where
  "trio = ([[(ask ''a'')\<lparr>sa_prompt_id := ''p'', sa_request_id := ''1''\<rparr>,
             (ask ''a'')\<lparr>sa_prompt_id := ''p'', sa_request_id := ''2''\<rparr>,
             (ask ''a'')\<lparr>sa_prompt_id := ''p'', sa_request_id := ''3''\<rparr>]], [[Some 1], [Some 1], [Some 0]])"

lemma varying_counts_cut_a_group:
  defines "A \<equiv> pair_args\<lparr>ga_dynamic := True\<rparr>"
  shows "dynamic_sampling A 2 (Suc n) nxt trio 0 = Inr (take 2 (concat (fst trio)), [[Some 1], [Some 1]])" (is ?A)
    and "compute_std A [''p'', ''p''] [''1'', ''2''] [[Some 1], [Some 1]] = Inr [Some 0, Some 0]" (is ?B)
proof -
  have idx: "get_last_indices [''1'', ''2'', ''3''] = [0, 1, 2]" "get_last_indices [''1'', ''2''] = [0, 1]" by code_simp+
  have three: "peers [''p'', ''p'', ''p''] i = [0, 1, 2]" if "i < 3" for i
    using that by (auto simp: less_Suc_eq numeral_3_eq_3) code_simp+
  have two: "peers [''p'', ''p''] i = [0, 1]" if "i < 2" for i
    using that by (auto simp: less_Suc_eq numeral_2_eq_2) code_simp+
  have all: "m < 3 \<Longrightarrow> m = 0 \<or> m = 1 \<or> m = 2" for m :: nat by auto
  have std: "tstd [1, 1, 0] = Some (sqrt (1 / 3))" "tstd [1, 1] = Some 0"
    by (simp_all add: tstd_def sq_dev_def mean_def power2_eq_square)
  have stds: "peer_stds [''p'', ''p'', ''p''] [1, 1, 0] = replicate 3 (Some (sqrt (1 / 3)))" "peer_stds [''p'', ''p''] [1, 1] = replicate 2 (Some 0)"
    by (simp_all add: peer_stds_def peer_values_def three two std_or_zero_def std Let_def upt_rec numeral_3_eq_3 numeral_2_eq_2)
  have back3: "spread_back [''1'', ''2'', ''3''] [''1'', ''2'', ''3''] (replicate 3 x) = Inr (replicate 3 x)" for x :: fl
    by (simp add: spread_back_def rid_to_idx_def upt_rec numeral_3_eq_3)
  have back2: "spread_back [''1'', ''2''] [''1'', ''2''] (replicate 2 x) = Inr (replicate 2 x)" for x :: fl
    by (simp add: spread_back_def rid_to_idx_def upt_rec numeral_2_eq_2)
  have "compute_std A [''p'', ''p''] [''1'', ''2''] [[Some 1], [Some 1]] = Inr (replicate 2 (Some 0))"
    using back2 stds(2) by (simp add: A_def compute_std_def idx weigh_def Let_def)
  then show ?B by (simp add: numeral_2_eq_2)
  have "compute_std A [''p'', ''p'', ''p''] [''1'', ''2'', ''3''] [[Some 1], [Some 1], [Some 0]] = Inr (replicate 3 (Some (sqrt (1 / 3))))"
    using back3 stds(1) by (simp add: A_def compute_std_def idx weigh_def Let_def)
  then have "std_mask A trio = Inr [True, True, True]"
    by (simp add: std_mask_def trio_def ask_def positive_def numeral_3_eq_3)
  then show ?A
    by (simp add: dynamic_sampling_def trio_def select_def py_slice_def)
qed

subsection \<open>Answers as token ids\<close>

definition answers :: "message list \<Rightarrow> content list" where
  "answers ms = map m_content (filter (\<lambda>m. m_role m = ''assistant'') ms)"

lemma place_answers_answers: "answers (place_answers ms cs) = take (length (answers ms)) cs @ drop (length cs) (answers ms)"
  by (induction ms cs rule: place_answers.induct) (auto simp: answers_def split: list.splits)

lemma place_answers_roles: "map m_role (place_answers ms cs) = map m_role ms"
  by (induction ms cs rule: place_answers.induct) (auto split: list.splits)

lemma place_answers_others:
  "filter (\<lambda>m. m_role m \<noteq> ''assistant'') (place_answers ms cs) = filter (\<lambda>m. m_role m \<noteq> ''assistant'') ms"
  by (induction ms cs rule: place_answers.induct) (auto split: list.splits)

lemma length_answer_contents: "masks = None \<or> map length ids = map length (the masks) \<Longrightarrow> length (answer_contents ids masks) = length ids"
  by (auto simp: answer_contents_def dest: map_eq_imp_length_eq split: option.splits)

text \<open>
  The last answers of a conversation are replaced by the given token ids, in order; earlier answers
  and all other messages stay.
\<close>

lemma replaced_answers:
  assumes "replace_assistant_response_with_ids ms ids masks = Inr ms'"
  shows "\<exists>cs. length cs = length (as_nested ids) \<and>
    answers ms' = take (length (answers ms) - length cs) (answers ms) @ drop (length cs - length (answers ms)) cs \<and>
    map m_role ms' = map m_role ms \<and>
    filter (\<lambda>m. m_role m \<noteq> ''assistant'') ms' = filter (\<lambda>m. m_role m \<noteq> ''assistant'') ms"
proof -
  let ?masks = "case masks of None \<Rightarrow> None | Some l \<Rightarrow> if is_empty_nested l then None else Some (as_nested l)"
  let ?cs = "answer_contents (as_nested ids) ?masks"
  have ms': "ms' = rev (place_answers (rev ms) (rev ?cs))"
    and len: "?masks = None \<or> map length (as_nested ids) = map length (the ?masks)"
    using assms by (auto simp: replace_assistant_response_with_ids_def Let_def split: if_splits option.splits)
  have rev: "answers (rev xs) = rev (answers xs)" for xs by (simp add: answers_def rev_filter rev_map)
  have "answers ms' = rev (take (length (answers ms)) (rev ?cs) @ drop (length ?cs) (rev (answers ms)))"
    unfolding ms' by (simp add: rev place_answers_answers)
  also have "\<dots> = take (length (answers ms) - length ?cs) (answers ms) @ drop (length ?cs - length (answers ms)) ?cs"
    by (simp add: rev_take rev_drop)
  finally have "answers ms' = take (length (answers ms) - length ?cs) (answers ms) @ drop (length ?cs - length (answers ms)) ?cs" .
  moreover have "map m_role ms' = map m_role ms"
    unfolding ms' by (metis place_answers_roles rev_map rev_rev_ident)
  moreover have "filter (\<lambda>m. m_role m \<noteq> ''assistant'') ms' = filter (\<lambda>m. m_role m \<noteq> ''assistant'') ms"
    unfolding ms' by (metis (no_types, lifting) place_answers_others rev_filter rev_rev_ident)
  ultimately show ?thesis using length_answer_contents [OF len] by metis
qed

text \<open>Worker \<open>w\<close> gets the requests whose number leaves the remainder \<open>w\<close>.\<close>

lemma round_robin_parts:
  assumes "0 < workers"
  shows "round_robin reqs workers = Inr (map (\<lambda>w. filter (\<lambda>i. i mod workers = w) [0 ..< reqs]) [0 ..< workers])"
proof -
  have "fold (\<lambda>idx d. d[idx mod workers := d ! (idx mod workers) @ [idx]]) [0 ..< reqs] (replicate workers [])
      = map (\<lambda>w. filter (\<lambda>i. i mod workers = w) [0 ..< reqs]) [0 ..< workers]"
  proof (induction reqs)
    case 0
    then show ?case by (simp add: list_eq_iff_nth_eq)
  next
    case (Suc n)
    have "n mod workers < workers" using assms by simp
    then show ?case unfolding upt_Suc_append [OF le0] fold_append comp_def Suc
      by (intro nth_equalityI) (auto simp: nth_list_update)
  qed
  then show ?thesis using assms by (simp add: round_robin_def)
qed

end
