(* ===== verification/GrpoLoss.thy ===== *)
theory GrpoLoss
  imports GrpoAdvantage
begin

text \<open>
  The batch tensors and the loss of \<open>GRPOTrainer\<close> (\<open>swift/rlhf_trainers/grpo_trainer.py\<close>): completion
  masks, the alignment of rollout log probabilities, padding-free rows padded back, the clipped
  policy loss with its variants, importance sampling corrections, sequence masks, metrics, the loss
  in chunks and the CHORD weight.  Values are reals, and gradients are not modelled, so \<open>detach\<close> is
  the identity; a row of a tensor is a list.
\<close>

subsection \<open>Masks and log probabilities of a batch\<close>

text \<open>\<open>torch.ne(labels, -100).int().argmax(-1)\<close>: the first learned position, 0 when there is none.\<close>

definition first_label :: "int list \<Rightarrow> nat" where
  "first_label ls = (let n = length (takeWhile (\<lambda>l. l = -100) ls) in if n = length ls then 0 else n)"

definition logits_to_keep :: "int list list \<Rightarrow> nat res" where
  "logits_to_keep labels =
     (if labels = [] then Inl RuntimeError else Inr (Max (set (map (\<lambda>ls. length ls - first_label ls) labels))))"

definition completion_masks :: "nat \<Rightarrow> int list list \<Rightarrow> bool list list" where
  "completion_masks keep labels = map (\<lambda>ls. map (\<lambda>l. l \<noteq> -100) (drop (length ls - keep) ls)) labels"

definition true_count :: "bool list \<Rightarrow> nat" where
  "true_count m = length (filter id m)"

fun scatter :: "bool list \<Rightarrow> real list \<Rightarrow> real list" where
  "scatter [] vs = []"
| "scatter (b # m) vs = (if b then (case vs of [] \<Rightarrow> 0 # scatter m [] | v # vs' \<Rightarrow> v # scatter m vs') else 0 # scatter m vs)"

text \<open>
  The log probabilities that the rollout engine reported, per turn, put on the completion tokens;
  \<open>None\<close> when a sample has none, when their number is not that of the completion tokens, or when one of
  them is missing.
\<close>

definition flat_logps :: "fl list list option \<Rightarrow> fl list option" where
  "flat_logps lp = (case lp of None \<Rightarrow> None | Some ts \<Rightarrow> if ts = [] then None else Some (concat ts))"

definition align_rollout_logps :: "bool list list \<Rightarrow> fl list list option list \<Rightarrow> real list list option" where
  "align_rollout_logps masks lps =
     (let flats = map flat_logps lps in
      if None \<in> set flats then None
      else if \<not> list_all2 (\<lambda>m f. length (the f) = true_count m) masks flats then None
      else if \<not> list_all (\<lambda>f. None \<notin> set (the f)) flats then None
      else Some (map (\<lambda>(m, f). scatter m (map the (the f))) (zip masks flats)))"

text \<open>\<open>pad_logps_back_to_batch\<close> with sequence lengths: a row and its mask of valid positions.\<close>

definition pad_row :: "'a \<Rightarrow> nat \<Rightarrow> 'a list \<Rightarrow> nat \<times> nat \<Rightarrow> ('a list \<times> bool list) res" where
  "pad_row pad width flat se =
     (let (start, n) = se; stop = min (start + n) (length flat) in
      if stop \<le> start then Inr (replicate width pad, replicate width False)
      else
        let data = take (stop - start) (drop start flat); k = length data
        in if width < k then Inl RuntimeError
           else Inr (replicate (width - k) pad @ data, replicate (width - k) False @ replicate k True))"

definition pad_logps_back_to_batch :: "'a \<Rightarrow> nat \<Rightarrow> nat list \<Rightarrow> 'a list \<Rightarrow> ('a list \<times> bool list) list res" where
  "pad_logps_back_to_batch pad width lens flat =
     map_res (\<lambda>i. pad_row pad width flat (sum_list (take i lens), lens ! i)) [0 ..< length lens]"

text \<open>The lengths of packed rows: the prompt of the first is shortened to what the logits cover.\<close>

definition shortened_lengths :: "nat list \<Rightarrow> nat \<Rightarrow> int list" where
  "shortened_lengths lens keep =
     (case map int lens of [] \<Rightarrow> [] | l # ls \<Rightarrow> (l - (int (sum_list lens) - int keep)) # ls)"

subsection \<open>Settings and rows of the loss\<close>

datatype loss_type = Loss_grpo | Loss_bnpo | Loss_dr_grpo | Loss_dapo | Loss_cispo | Loss_sapo

datatype ratio_level = Level_token | Level_sequence | Level_sequence_token

datatype is_mode = Token_truncate | Token_mask | Sequence_truncate | Sequence_mask

record loss_args =
  la_type :: loss_type
  la_level :: ratio_level
  la_epsilon_low :: real
  la_epsilon_high :: real
  la_delta :: "real option"
  la_beta :: real
  la_kl_in_reward :: bool
  la_tau_pos :: real
  la_tau_neg :: real
  la_overlong_filter :: bool
  la_entropy_quantile :: real
  la_max_completion_length :: nat
  la_processes :: nat
  la_is_mode :: "is_mode option"
  la_is_threshold :: real
  la_disable_is :: bool
  la_sequence_mask_delta :: "real option"

record loss_row =
  lr_mask :: "bool list"
  lr_truncated :: bool
  lr_advantage :: real
  lr_logps :: "real list"
  lr_entropies :: "real list"
  lr_old :: "real list option"
  lr_ref :: "real list option"
  lr_rollout :: "real list option"

text \<open>A sum over the positions of a mask, and the mean with at least one position.\<close>

definition masked_sum :: "bool list \<Rightarrow> (nat \<Rightarrow> real) \<Rightarrow> real" where
  "masked_sum m f = sum_list (map (\<lambda>i. if m ! i then f i else 0) [0 ..< length m])"

definition masked_mean :: "bool list \<Rightarrow> (nat \<Rightarrow> real) \<Rightarrow> real" where
  "masked_mean m f = masked_sum m f / max 1 (real (true_count m))"

definition clamp :: "real \<Rightarrow> real \<Rightarrow> real \<Rightarrow> real" where
  "clamp lo hi x = min (max x lo) hi"

definition old_logps :: "loss_row \<Rightarrow> real list" where
  "old_logps r = (case lr_old r of None \<Rightarrow> lr_logps r | Some o' \<Rightarrow> o')"

text \<open>The completions that were cut off are left out with \<open>overlong_filter\<close>.\<close>

definition overlong_mask :: "loss_args \<Rightarrow> loss_row \<Rightarrow> bool list" where
  "overlong_mask L r = (if la_overlong_filter L \<and> lr_truncated r then map (\<lambda>_. False) (lr_mask r) else lr_mask r)"

subsection \<open>Importance sampling against the rollout engine\<close>

definition safety_bound :: real where
  "safety_bound = 20"

definition is_ratio :: "real \<Rightarrow> real" where
  "is_ratio log_ratio = exp (clamp (- safety_bound) safety_bound log_ratio)"

definition sequence_ratio :: "bool list \<Rightarrow> (nat \<Rightarrow> real) \<Rightarrow> real" where
  "sequence_ratio m ratio = exp (masked_mean m (\<lambda>i. ln (max (ratio i) (1 / 10 ^ 10))))"

definition is_weight :: "is_mode option \<Rightarrow> real \<Rightarrow> bool list \<Rightarrow> (nat \<Rightarrow> real) \<Rightarrow> nat \<Rightarrow> real" where
  "is_weight mode threshold m log_ratio i =
     (let ratio = (\<lambda>j. is_ratio (log_ratio j)); seq = sequence_ratio m ratio in
      case mode of
        Some Token_truncate \<Rightarrow> min (ratio i) threshold
      | Some Token_mask \<Rightarrow> (if ratio i \<le> threshold then ratio i else 0)
      | Some Sequence_truncate \<Rightarrow> min seq threshold
      | Some Sequence_mask \<Rightarrow> ratio i * (if seq \<le> threshold then 1 else 0)
      | None \<Rightarrow> ratio i)"

text \<open>The statistics of the weights of a batch of rows.\<close>

record is_stats =
  iw_mean :: real
  iw_ess :: real
  iw_clipped :: fl

definition batch_mean :: "(bool list \<times> (nat \<Rightarrow> real)) list \<Rightarrow> real" where
  "batch_mean rows =
     sum_list (map (\<lambda>(m, f). masked_sum m f) rows) / max 1 (real (sum_list (map (true_count \<circ> fst) rows)))"

definition is_correction_metrics :: "is_mode option \<Rightarrow> real \<Rightarrow> (bool list \<times> (nat \<Rightarrow> real)) list \<Rightarrow> is_stats res" where
  "is_correction_metrics mode threshold rows =
     (if threshold = 0 then Inl ZeroDivisionError
      else
        let w = (\<lambda>m lr. is_weight mode threshold m lr);
            capped = (\<lambda>m lr i. clamp (1 / threshold) threshold (w m lr i));
            avg = batch_mean (map (\<lambda>(m, lr). (m, capped m lr)) rows);
            sq = batch_mean (map (\<lambda>(m, lr). (m, \<lambda>i. (capped m lr i / (avg + 1 / 10 ^ 8))\<^sup>2)) rows);
            clipped = (case mode of
               Some Token_truncate \<Rightarrow>
                 Some (batch_mean (map (\<lambda>(m, lr). (m, \<lambda>i. if threshold < is_ratio (lr i) then 1 else 0)) rows))
             | Some Token_mask \<Rightarrow> Some (batch_mean (map (\<lambda>(m, lr). (m, \<lambda>i. if w m lr i = 0 then 1 else 0)) rows))
             | _ \<Rightarrow> tmean (map (\<lambda>(m, lr). if threshold < sequence_ratio m (\<lambda>j. is_ratio (lr j)) then 1 else 0) rows))
        in Inr \<lparr>iw_mean = batch_mean (map (\<lambda>(m, lr). (m, w m lr)) rows), iw_ess = 1 / max sq (1 / 10 ^ 10), iw_clipped = clipped\<rparr>)"

text \<open>How far the training policy is from the rollout policy; rows are mask, training and rollout values.\<close>

record offpolicy_stats =
  op_training_ppl :: fl
  op_training_log_ppl :: fl
  op_kl :: real
  op_k3_kl :: real
  op_rollout_ppl :: fl
  op_rollout_log_ppl :: fl
  op_log_ppl_diff :: fl
  op_log_ppl_abs_diff :: fl
  op_log_ppl_diff_max :: fl
  op_log_ppl_diff_min :: fl
  op_ppl_ratio :: fl
  op_chi2_token :: real
  op_chi2_seq :: fl

definition offpolicy_metrics :: "(bool list \<times> (nat \<Rightarrow> real) \<times> (nat \<Rightarrow> real)) list \<Rightarrow> offpolicy_stats" where
  "offpolicy_metrics rows =
     (let train = map (\<lambda>(m, t, r). masked_mean m t) rows; roll = map (\<lambda>(m, t, r). masked_mean m r) rows;
          lr = (\<lambda>(m, t, r) i. if m ! i then t i - r i else 0);
          diff = map (\<lambda>(a, b). b - a) (zip train roll)
      in \<lparr>op_training_ppl = tmean (map (\<lambda>x. exp (- x)) train), op_training_log_ppl = tmean (map uminus train),
          op_kl = batch_mean (map (\<lambda>x. (fst x, \<lambda>i. - lr x i)) rows),
          op_k3_kl = batch_mean (map (\<lambda>x. (fst x, \<lambda>i. exp (lr x i) - lr x i - 1)) rows),
          op_rollout_ppl = tmean (map (\<lambda>x. exp (- x)) roll), op_rollout_log_ppl = tmean (map uminus roll),
          op_log_ppl_diff = tmean diff, op_log_ppl_abs_diff = tmean (map abs diff),
          op_log_ppl_diff_max = (if diff = [] then None else Some (Max (set diff))),
          op_log_ppl_diff_min = (if diff = [] then None else Some (Min (set diff))),
          op_ppl_ratio = tmean (map exp diff),
          op_chi2_token = batch_mean (map (\<lambda>x. (fst x, \<lambda>i. (is_ratio (lr x i))\<^sup>2)) rows) - 1,
          op_chi2_seq = map_option (\<lambda>v. v - 1) (tmean (map (\<lambda>x. (is_ratio (masked_mean (fst x) (lr x)))\<^sup>2) rows))\<rparr>)"

subsection \<open>The loss of a token\<close>

definition log_ratio :: "loss_row \<Rightarrow> nat \<Rightarrow> real" where
  "log_ratio r i = lr_logps r ! i - old_logps r ! i"

text \<open>The ratio of the policies, per token or one for the sequence.\<close>

definition policy_ratio :: "loss_args \<Rightarrow> loss_row \<Rightarrow> nat \<Rightarrow> real" where
  "policy_ratio L r i =
     exp (if la_level L = Level_token then log_ratio r i else masked_mean (overlong_mask L r) (log_ratio r))"

definition sigmoid :: "real \<Rightarrow> real" where
  "sigmoid x = 1 / (1 + exp (- x))"

definition soft_gate :: "real \<Rightarrow> real \<Rightarrow> real" where
  "soft_gate tau c = sigmoid (tau * (c - 1)) * (4 / tau)"

definition capped_ratio :: "loss_args \<Rightarrow> real \<Rightarrow> real" where
  "capped_ratio L c = (case la_delta L of None \<Rightarrow> c | Some d \<Rightarrow> min c d)"

definition clipped_loss :: "loss_args \<Rightarrow> real \<Rightarrow> real \<Rightarrow> real" where
  "clipped_loss L a c = - min (capped_ratio L c * a) (clamp (1 - la_epsilon_low L) (1 + la_epsilon_high L) c * a)"

definition policy_loss :: "loss_args \<Rightarrow> real \<Rightarrow> real \<Rightarrow> real \<Rightarrow> real" where
  "policy_loss L a c logp =
     (case la_type L of
        Loss_cispo \<Rightarrow> - min c (la_epsilon_high L) * a * logp
      | Loss_sapo \<Rightarrow> - (if 0 < a then soft_gate (la_tau_pos L) c else soft_gate (la_tau_neg L) c) * a
      | _ \<Rightarrow> clipped_loss L a c)"

text \<open>The divergence from the reference model, in the loss unless it is in the reward.\<close>

definition token_kl :: "real \<Rightarrow> real \<Rightarrow> real" where
  "token_kl ref logp = exp (ref - logp) - (ref - logp) - 1"

definition kl_in_loss :: "loss_args \<Rightarrow> bool" where
  "kl_in_loss L = (la_beta L \<noteq> 0 \<and> \<not> la_kl_in_reward L)"

definition kl_term :: "loss_args \<Rightarrow> loss_row \<Rightarrow> nat \<Rightarrow> real" where
  "kl_term L r i = (if kl_in_loss L then la_beta L * token_kl (the (lr_ref r) ! i) (lr_logps r ! i) else 0)"

text \<open>\<open>everywhere\<close>: the rollout probabilities are there in all processes.\<close>

definition corrected :: "loss_args \<Rightarrow> bool \<Rightarrow> bool" where
  "corrected L everywhere = (la_is_mode L \<noteq> None \<and> everywhere \<and> \<not> la_disable_is L)"

definition token_weight :: "loss_args \<Rightarrow> bool \<Rightarrow> loss_row \<Rightarrow> nat \<Rightarrow> real" where
  "token_weight L everywhere r i =
     (if corrected L everywhere
      then is_weight (la_is_mode L) (la_is_threshold L) (overlong_mask L r) (\<lambda>j. old_logps r ! j - the (lr_rollout r) ! j) i
      else 1)"

definition token_loss :: "loss_args \<Rightarrow> bool \<Rightarrow> fl \<Rightarrow> loss_row \<Rightarrow> nat \<Rightarrow> real" where
  "token_loss L everywhere threshold r i =
     (let base = policy_loss L (lr_advantage r) (policy_ratio L r i) (lr_logps r ! i);
          kept = (if la_entropy_quantile L < 1
                  then (case threshold of None \<Rightarrow> 0
                        | Some q \<Rightarrow> if lr_mask r ! i \<and> q \<le> lr_entropies r ! i then base else 0)
                  else base)
      in (kept + kl_term L r i) * token_weight L everywhere r i)"

text \<open>Sequences with a negative advantage that left the old policy too far are masked.\<close>

definition keeps_sequence :: "loss_args \<Rightarrow> loss_row \<Rightarrow> bool" where
  "keeps_sequence L r =
     (case la_sequence_mask_delta L of
        None \<Rightarrow> True
      | Some d \<Rightarrow>
          let old = (case lr_rollout r of None \<Rightarrow> old_logps r | Some v \<Rightarrow> v)
          in \<not> (d < masked_mean (overlong_mask L r) (\<lambda>i. old ! i - lr_logps r ! i) \<and> lr_advantage r < 0))"

definition loss_mask :: "loss_args \<Rightarrow> loss_row \<Rightarrow> bool list" where
  "loss_mask L r = (if keeps_sequence L r then overlong_mask L r else map (\<lambda>_. False) (overlong_mask L r))"

subsection \<open>The loss of a batch\<close>

text \<open>\<open>torch.nanquantile\<close> with linear interpolation.\<close>

definition nanquantile :: "real \<Rightarrow> fl list \<Rightarrow> fl" where
  "nanquantile q xs =
     (let s = sort (present xs); pos = q * (real (length s) - 1); lo = nat (floor pos) in
      if s = [] then None
      else if Suc lo < length s then Some (s ! lo + (pos - real lo) * (s ! Suc lo - s ! lo)) else Some (s ! lo))"

definition entropy_threshold :: "loss_args \<Rightarrow> loss_row list \<Rightarrow> fl" where
  "entropy_threshold L rows =
     nanquantile (1 - la_entropy_quantile L)
       (concat (map (\<lambda>r. map (\<lambda>(m, e). if m then Some e else None) (zip (lr_mask r) (lr_entropies r))) rows))"

definition over :: "real \<Rightarrow> real \<Rightarrow> fl" where
  "over a b = (if b = 0 then None else Some (a / b))"

text \<open>The sum of a row's losses, its mean and its number of tokens, combined as the loss type asks.\<close>

definition row_sum :: "loss_args \<Rightarrow> bool \<Rightarrow> fl \<Rightarrow> loss_row \<Rightarrow> real" where
  "row_sum L everywhere threshold r = masked_sum (loss_mask L r) (token_loss L everywhere threshold r)"

definition row_mean :: "loss_args \<Rightarrow> bool \<Rightarrow> fl \<Rightarrow> loss_row \<Rightarrow> real" where
  "row_mean L everywhere threshold r = masked_mean (loss_mask L r) (token_loss L everywhere threshold r)"

definition reduce_loss :: "loss_args \<Rightarrow> real \<Rightarrow> bool \<Rightarrow> fl \<Rightarrow> loss_row list \<Rightarrow> fl" where
  "reduce_loss L items everywhere threshold rows =
     (let tot = sum_list (map (row_sum L everywhere threshold) rows) in
      case la_type L of
        Loss_bnpo \<Rightarrow> Some (tot / max 1 (real (sum_list (map (\<lambda>r. true_count (loss_mask L r)) rows))))
      | Loss_dr_grpo \<Rightarrow> over tot (real (length rows) * real (la_max_completion_length L))
      | Loss_dapo \<Rightarrow> over tot (items / real (la_processes L))
      | Loss_cispo \<Rightarrow> over tot (items / real (la_processes L))
      | _ \<Rightarrow> tmean (map (row_mean L everywhere threshold) rows))"

text \<open>What the loss needs from a batch: reference values with a divergence, nonzero temperatures for SAPO.\<close>

definition compute_loss :: "loss_args \<Rightarrow> real \<Rightarrow> bool \<Rightarrow> loss_row list \<Rightarrow> fl res" where
  "compute_loss L items everywhere rows =
     (if kl_in_loss L \<and> \<not> list_all (\<lambda>r. lr_ref r \<noteq> None) rows then Inl TypeError
      else if la_type L = Loss_sapo \<and> (la_tau_pos L = 0 \<or> la_tau_neg L = 0) then Inl ZeroDivisionError
      else Inr (reduce_loss L items everywhere (if la_entropy_quantile L < 1 then entropy_threshold L rows else None) rows))"

subsection \<open>The fraction of clipped ratios\<close>

text \<open>
  The ratio that the statistics see is the capped one, one value per row at the sequence level; such
  values are averaged over the rows, otherwise over the tokens of the batch.
\<close>

definition seen_ratio :: "loss_args \<Rightarrow> loss_row \<Rightarrow> nat \<Rightarrow> real" where
  "seen_ratio L r i =
     (let c = policy_ratio L r i
      in if la_type L = Loss_cispo then c else capped_ratio L c)"

definition stat_mean :: "loss_args \<Rightarrow> (loss_row \<Rightarrow> nat \<Rightarrow> bool) \<Rightarrow> loss_row list \<Rightarrow> fl" where
  "stat_mean L P rows =
     (let ind = (\<lambda>r i. if P r i then 1 else 0 :: real) in
      if la_level L = Level_sequence then tmean (map (\<lambda>r. ind r 0) rows)
      else if rows \<noteq> [] \<and> length (lr_mask (hd rows)) = 1 then tmean (map (\<lambda>r. ind r 0) rows)
      else Some (sum_list (map (\<lambda>r. masked_sum (loss_mask L r) (ind r)) rows)
                 / max 1 (real (sum_list (map (\<lambda>r. true_count (loss_mask L r)) rows)))))"

definition low_clipped :: "loss_args \<Rightarrow> loss_row \<Rightarrow> nat \<Rightarrow> bool" where
  "low_clipped L r i = (seen_ratio L r i < 1 - la_epsilon_low L \<and> lr_advantage r < 0)"

definition high_clipped :: "loss_args \<Rightarrow> loss_row \<Rightarrow> nat \<Rightarrow> bool" where
  "high_clipped L r i = (1 + la_epsilon_high L < seen_ratio L r i \<and> 0 < lr_advantage r)"

definition clip_fractions :: "loss_args \<Rightarrow> loss_row list \<Rightarrow> fl list" where
  "clip_fractions L rows =
     (case la_type L of
        Loss_cispo \<Rightarrow> [stat_mean L (\<lambda>r i. la_epsilon_high L < seen_ratio L r i \<and> 0 < lr_advantage r) rows]
      | Loss_sapo \<Rightarrow> []
      | _ \<Rightarrow> [stat_mean L (low_clipped L) rows, stat_mean L (high_clipped L) rows,
               stat_mean L (\<lambda>r i. low_clipped L r i \<or> high_clipped L r i) rows])"

subsection \<open>The loss in chunks\<close>

definition ceil_div :: "nat \<Rightarrow> nat \<Rightarrow> nat" where
  "ceil_div a b = (a + b - 1) div b"

text \<open>The chunks a process runs: real ones with their rows, then dummies that repeat the last inputs.\<close>

definition loss_chunks :: "nat \<Rightarrow> nat list \<Rightarrow> 'a list \<Rightarrow> 'a list list res" where
  "loss_chunks chunk_size batch_sizes rows =
     (if batch_sizes = [] then Inl ValueError
      else if chunk_size = 0 then Inl ZeroDivisionError
      else
        let most = Max (set (map (\<lambda>b. ceil_div b chunk_size) batch_sizes))
        in if most = 0 then Inl ZeroDivisionError
           else if rows = [] then Inl KeyError
           else Inr (chunks (ceil_div (length rows) most) rows))"

text \<open>The losses of the chunks weighted by their rows; a dummy adds nothing.\<close>

fun weighted_losses :: "(nat \<times> fl) list \<Rightarrow> fl" where
  "weighted_losses [] = Some 0"
| "weighted_losses ((w, l) # rest) =
     (case (l, weighted_losses rest) of (Some x, Some y) \<Rightarrow> Some (x * real w + y) | _ \<Rightarrow> None)"

definition compute_loss_chunked ::
  "loss_args \<Rightarrow> real \<Rightarrow> bool \<Rightarrow> nat \<Rightarrow> nat list \<Rightarrow> loss_row list \<Rightarrow> fl res" where
  "compute_loss_chunked L items everywhere chunk_size batch_sizes rows =
     res_bind (loss_chunks chunk_size batch_sizes rows) (\<lambda>cs.
     res_bind (map_res (\<lambda>c. res_bind (compute_loss L items everywhere c) (\<lambda>l. Inr (length c, l))) cs) (\<lambda>ls.
     Inr (map_option (\<lambda>t. t / real (sum_list (map fst ls))) (weighted_losses ls))))"

text \<open>\<open>_compute_loss\<close>: in chunks only when the number of samples varies and some process has too many.\<close>

definition grpo_loss ::
  "loss_args \<Rightarrow> real \<Rightarrow> bool \<Rightarrow> bool \<Rightarrow> nat \<Rightarrow> nat list \<Rightarrow> loss_row list \<Rightarrow> fl res" where
  "grpo_loss L items everywhere dynamic expected batch_sizes rows =
     (if dynamic \<and> list_ex (\<lambda>b. expected < b) batch_sizes
      then compute_loss_chunked L items everywhere expected batch_sizes rows
      else compute_loss L items everywhere rows)"

subsection \<open>CHORD\<close>

text \<open>The weight of the supervised loss: a warmup, then a cosine decay.\<close>

definition mu_schedule :: "nat \<Rightarrow> nat \<Rightarrow> nat \<Rightarrow> real \<Rightarrow> real \<Rightarrow> real" where
  "mu_schedule t warmup decay peak valley =
     (if t < warmup then real t / real warmup * peak
      else if warmup + decay \<le> t then valley
      else (peak - valley) * (1 / 2 * (1 + cos (pi * real (t - warmup) / real decay))) + valley)"

text \<open>\<open>sft\<close> is the supervised loss of the next supervised batch.\<close>

definition chord_loss :: "real \<Rightarrow> real \<Rightarrow> real \<Rightarrow> real res" where
  "chord_loss mu sft grpo =
     (if 0 < mu then Inr ((1 - mu) * grpo + mu * sft)
      else if mu = 0 then Inr ((1 - mu) * grpo + mu * 0) else Inl AssertionError)"

end
