(* ===== verification/LossLaws.thy ===== *)
theory LossLaws
  imports GrpoLoss RolloutLaws
begin

text \<open>
  What the loss of \<open>GRPOTrainer\<close> guarantees: padding never enters it, an update on the sampling policy
  starts at the negative mean advantage, clipping and importance weights are bounded, and computing it
  in chunks changes nothing for the losses averaged over completions.
\<close>

subsection \<open>Masks\<close>

lemma masked_sum_cong:
  "(\<And>i. i < length m \<Longrightarrow> m ! i \<Longrightarrow> f i = g i) \<Longrightarrow> masked_sum m f = masked_sum m g"
  unfolding masked_sum_def by (rule arg_cong [where f = sum_list]) (rule map_cong, auto)

lemma masked_mean_cong:
  "(\<And>i. i < length m \<Longrightarrow> m ! i \<Longrightarrow> f i = g i) \<Longrightarrow> masked_mean m f = masked_mean m g"
  unfolding masked_mean_def by (metis masked_sum_cong)

lemma true_count_nth: "true_count m = length (filter (\<lambda>i. m ! i) [0 ..< length m])"
proof -
  have "filter id m = map ((!) m) (filter (\<lambda>i. m ! i) [0 ..< length m])"
    using filter_map [of id "(!) m" "[0 ..< length m]"] by (simp add: map_nth o_def)
  then show ?thesis by (simp add: true_count_def)
qed

lemma masked_sum_const: "masked_sum m (\<lambda>i. c) = c * real (true_count m)"
proof -
  have "sum_list (map (\<lambda>i. if P i then c else 0) xs) = c * real (length (filter P xs))" for P and xs :: "nat list"
    by (induction xs) (auto simp: algebra_simps)
  then show ?thesis by (simp add: masked_sum_def true_count_nth)
qed

lemma masked_sum_False [simp]: "masked_sum (map (\<lambda>_. False) m) f = 0"
  using masked_sum_cong [of "map (\<lambda>_. False) m" f "\<lambda>i. 0"] by (simp add: masked_sum_const)

lemma masked_mean_const: "0 < true_count m \<Longrightarrow> masked_mean m (\<lambda>i. c) = c"
  by (simp add: masked_mean_def masked_sum_const)

lemma masked_mean_zero [simp]: "masked_mean m (\<lambda>i. 0) = 0"
  by (simp add: masked_mean_def masked_sum_const)

lemma length_overlong_mask [simp]: "length (overlong_mask L r) = length (lr_mask r)"
  by (simp add: overlong_mask_def)

lemma overlong_mask_sub: "i < length (lr_mask r) \<Longrightarrow> overlong_mask L r ! i \<Longrightarrow> lr_mask r ! i"
  by (auto simp: overlong_mask_def split: if_splits)

lemma length_loss_mask [simp]: "length (loss_mask L r) = length (lr_mask r)"
  by (simp add: loss_mask_def)

lemma loss_mask_sub: "i < length (lr_mask r) \<Longrightarrow> loss_mask L r ! i \<Longrightarrow> lr_mask r ! i"
  by (auto simp: loss_mask_def overlong_mask_sub split: if_splits)

subsection \<open>Padding\<close>

text \<open>Two rows that differ at masked positions only.\<close>

definition same_at :: "bool list \<Rightarrow> real list \<Rightarrow> real list \<Rightarrow> bool" where
  "same_at m xs ys \<longleftrightarrow> (\<forall>i < length m. m ! i \<longrightarrow> xs ! i = ys ! i)"

definition same_opt :: "bool list \<Rightarrow> real list option \<Rightarrow> real list option \<Rightarrow> bool" where
  "same_opt m a b = (case (a, b) of (None, None) \<Rightarrow> True | (Some x, Some y) \<Rightarrow> same_at m x y | _ \<Rightarrow> False)"

definition same_tokens :: "loss_row \<Rightarrow> loss_row \<Rightarrow> bool" where
  "same_tokens r s \<longleftrightarrow> lr_mask s = lr_mask r \<and> lr_truncated s = lr_truncated r \<and> lr_advantage s = lr_advantage r \<and>
     length (lr_entropies r) = length (lr_mask r) \<and> length (lr_entropies s) = length (lr_mask r) \<and>
     same_at (lr_mask r) (lr_logps r) (lr_logps s) \<and> same_at (lr_mask r) (lr_entropies r) (lr_entropies s) \<and>
     same_opt (lr_mask r) (lr_old r) (lr_old s) \<and> same_opt (lr_mask r) (lr_ref r) (lr_ref s) \<and>
     same_opt (lr_mask r) (lr_rollout r) (lr_rollout s)"

lemma same_optD: "same_opt m a b \<Longrightarrow> (a = None \<longleftrightarrow> b = None) \<and> (a \<noteq> None \<longrightarrow> same_at m (the a) (the b))"
  by (cases a; cases b) (auto simp: same_opt_def)

lemma at_token:
  assumes "same_tokens r s" "i < length (lr_mask r)" "lr_mask r ! i"
  shows "lr_logps s ! i = lr_logps r ! i" "lr_entropies s ! i = lr_entropies r ! i" "old_logps s ! i = old_logps r ! i"
    "lr_ref r \<noteq> None \<Longrightarrow> the (lr_ref s) ! i = the (lr_ref r) ! i"
    "lr_rollout r \<noteq> None \<Longrightarrow> the (lr_rollout s) ! i = the (lr_rollout r) ! i"
proof -
  show l: "lr_logps s ! i = lr_logps r ! i" and "lr_entropies s ! i = lr_entropies r ! i"
    using assms by (simp_all add: same_tokens_def same_at_def)
  show "old_logps s ! i = old_logps r ! i"
    using l assms by (auto simp: same_tokens_def same_at_def same_opt_def old_logps_def split: option.splits)
  show "lr_ref r \<noteq> None \<Longrightarrow> the (lr_ref s) ! i = the (lr_ref r) ! i"
    "lr_rollout r \<noteq> None \<Longrightarrow> the (lr_rollout s) ! i = the (lr_rollout r) ! i"
    using assms by (auto simp: same_tokens_def same_at_def dest!: same_optD)
qed

lemma fixed_parts:
  assumes "same_tokens r s"
  shows "lr_mask s = lr_mask r" "lr_truncated s = lr_truncated r" "lr_advantage s = lr_advantage r"
    "overlong_mask L s = overlong_mask L r" "lr_ref s = None \<longleftrightarrow> lr_ref r = None" "lr_rollout s = None \<longleftrightarrow> lr_rollout r = None"
  using assms by (auto simp: same_tokens_def overlong_mask_def dest!: same_optD)

lemma over_tokens:
  assumes "same_tokens r s" "\<And>i. i < length (lr_mask r) \<Longrightarrow> lr_mask r ! i \<Longrightarrow> f i = g i"
  shows "masked_mean (overlong_mask L r) f = masked_mean (overlong_mask L r) g"
  by (rule masked_mean_cong) (use assms(2) overlong_mask_sub in force)

lemma same_policy_ratio:
  assumes s: "same_tokens r s" and "i < length (lr_mask r)" "lr_mask r ! i"
  shows "policy_ratio L s i = policy_ratio L r i"
proof -
  have "log_ratio s i = log_ratio r i" if "i < length (lr_mask r)" "lr_mask r ! i" for i
    using at_token [OF s that] by (simp add: log_ratio_def)
  then show ?thesis
    using assms over_tokens [OF s, of "log_ratio s" "log_ratio r"] by (simp add: policy_ratio_def fixed_parts [OF s])
qed

lemma same_keeps_sequence:
  assumes s: "same_tokens r s"
  shows "keeps_sequence L s = keeps_sequence L r"
proof -
  let ?v = "\<lambda>r. case lr_rollout r of None \<Rightarrow> old_logps r | Some v \<Rightarrow> v"
  have v: "?v s ! i - lr_logps s ! i = ?v r ! i - lr_logps r ! i" if "i < length (lr_mask r)" "lr_mask r ! i" for i
    using at_token [OF s that] fixed_parts(6) [OF s] by (auto split: option.splits)
  have m: "masked_mean (overlong_mask L r) (\<lambda>i. ?v s ! i - lr_logps s ! i) = masked_mean (overlong_mask L r) (\<lambda>i. ?v r ! i - lr_logps r ! i)"
    using v by (rule over_tokens [OF s])
  show ?thesis unfolding keeps_sequence_def Let_def fixed_parts [OF s] m ..
qed

lemma same_loss_mask: "same_tokens r s \<Longrightarrow> loss_mask L s = loss_mask L r"
  by (simp add: loss_mask_def same_keeps_sequence fixed_parts)


lemma is_weight_cong:
  assumes "\<And>j. j < length m \<Longrightarrow> m ! j \<Longrightarrow> f j = g j" "f i = g i"
  shows "is_weight mode t m f i = is_weight mode t m g i"
proof -
  have "sequence_ratio m (\<lambda>j. is_ratio (f j)) = sequence_ratio m (\<lambda>j. is_ratio (g j))"
    unfolding sequence_ratio_def using assms(1) by (metis (mono_tags, lifting) masked_mean_cong)
  then show ?thesis unfolding is_weight_def Let_def using assms(2) by (simp split: option.split is_mode.split)
qed

lemma same_token_weight:
  assumes s: "same_tokens r s" and i: "i < length (lr_mask r)" "lr_mask r ! i"
  shows "token_weight L e s i = token_weight L e r i"
proof -
  have "old_logps s ! j - the (lr_rollout s) ! j = old_logps r ! j - the (lr_rollout r) ! j"
    if "j < length (lr_mask r)" "lr_mask r ! j" for j
    using at_token [OF s that] fixed_parts(6) [OF s] by (cases "lr_rollout r = None") simp_all
  then show ?thesis
    unfolding token_weight_def fixed_parts [OF s]
    using is_weight_cong [of "overlong_mask L r" "\<lambda>j. old_logps s ! j - the (lr_rollout s) ! j" "\<lambda>j. old_logps r ! j - the (lr_rollout r) ! j" i
        "la_is_mode L" "la_is_threshold L"] overlong_mask_sub [of _ r L] i
    by simp
qed

lemma same_token_loss:
  assumes s: "same_tokens r s" and i: "i < length (lr_mask r)" "lr_mask r ! i"
  shows "token_loss L e t s i = token_loss L e t r i"
proof -
  have "kl_term L s i = kl_term L r i"
    using at_token [OF s i] fixed_parts(5) [OF s] by (cases "lr_ref r = None") (simp_all add: kl_term_def)
  then show ?thesis
    unfolding token_loss_def Let_def fixed_parts [OF s] same_token_weight [OF s i] same_policy_ratio [OF s i] at_token(1,2) [OF s i]
    by simp
qed

lemma same_row_sum:
  assumes s: "same_tokens r s"
  shows "row_sum L e t s = row_sum L e t r" "row_mean L e t s = row_mean L e t r"
proof -
  have "masked_sum (loss_mask L r) (token_loss L e t s) = masked_sum (loss_mask L r) (token_loss L e t r)"
    by (rule masked_sum_cong) (use same_token_loss [OF s] loss_mask_sub in force)
  then show "row_sum L e t s = row_sum L e t r" "row_mean L e t s = row_mean L e t r"
    by (simp_all add: row_sum_def row_mean_def masked_mean_def same_loss_mask [OF s])
qed

lemma same_entropies:
  assumes "same_tokens r s"
  shows "map (\<lambda>(m, e). if m then Some e else None) (zip (lr_mask s) (lr_entropies s))
    = map (\<lambda>(m, e). if m then Some e else None) (zip (lr_mask r) (lr_entropies r))"
  using assms by (intro nth_equalityI) (auto simp: same_tokens_def same_at_def)

text \<open>
  C20. Padding never enters the loss: if two batches have the same masks, advantages and truncation
  flags and agree on the tokens of the completions, whatever stands at the masked positions, their
  losses are the same, for every loss type, ratio level, correction and mask setting.
\<close>

theorem padding_never_counts:
  assumes "list_all2 same_tokens rows rows'"
  shows "compute_loss L items everywhere rows' = compute_loss L items everywhere rows"
proof -
  have maps: "map f rows' = map f rows" if "\<And>r s. same_tokens r s \<Longrightarrow> f s = f r" for f :: "loss_row \<Rightarrow> 'a"
    using assms that by (induction rule: list_all2_induct) auto
  have "entropy_threshold L rows' = entropy_threshold L rows"
    unfolding entropy_threshold_def by (subst maps) (simp_all add: same_entropies)
  moreover have "reduce_loss L items everywhere t rows' = reduce_loss L items everywhere t rows" for t
    unfolding reduce_loss_def
    using maps [of "row_sum L everywhere t"] maps [of "row_mean L everywhere t"] maps [of "\<lambda>r. true_count (loss_mask L r)"]
      list_all2_lengthD [OF assms]
    by (cases "la_type L") (simp_all add: same_row_sum same_loss_mask Let_def)
  moreover have "list_all (\<lambda>r. lr_ref r \<noteq> None) rows' = list_all (\<lambda>r. lr_ref r \<noteq> None) rows"
    using assms by (induction rule: list_all2_induct) (simp_all add: fixed_parts(5) del: not_None_eq)
  ultimately show ?thesis by (simp add: compute_loss_def)
qed


subsection \<open>Bounds\<close>

definition clips :: "loss_args \<Rightarrow> bool" where
  "clips L \<longleftrightarrow> la_type L \<in> {Loss_grpo, Loss_bnpo, Loss_dr_grpo, Loss_dapo} \<and>
     0 \<le> la_epsilon_low L \<and> la_epsilon_low L \<le> 1 \<and> 0 \<le> la_epsilon_high L"

lemma policy_ratio_pos: "0 < policy_ratio L r i"
  by (simp add: policy_ratio_def)

lemma clamp_range: "lo \<le> hi \<Longrightarrow> lo \<le> clamp lo hi x \<and> clamp lo hi x \<le> hi"
  by (auto simp: clamp_def)

text \<open>A better answer never loses more than the upper clip allows; a worse one always pays at least the lower.\<close>

lemma clipped_loss_bounds:
  assumes "clips L" "0 < c" "\<And>d. la_delta L = Some d \<Longrightarrow> 0 < d"
  shows "0 \<le> a \<Longrightarrow> - ((1 + la_epsilon_high L) * a) \<le> policy_loss L a c logp \<and> policy_loss L a c logp \<le> 0"
    and "a \<le> 0 \<Longrightarrow> (1 - la_epsilon_low L) * \<bar>a\<bar> \<le> policy_loss L a c logp"
    and "a \<le> 0 \<Longrightarrow> la_delta L = Some d \<Longrightarrow> policy_loss L a c logp \<le> max d (1 + la_epsilon_high L) * \<bar>a\<bar>"
proof -
  let ?lo = "1 - la_epsilon_low L" and ?hi = "1 + la_epsilon_high L"
  let ?c1 = "capped_ratio L c" and ?c2 = "clamp ?lo ?hi c"
  have p: "policy_loss L a c logp = - min (?c1 * a) (?c2 * a)"
    using assms(1) by (auto simp: clips_def policy_loss_def clipped_loss_def)
  have c2: "?lo \<le> ?c2" "?c2 \<le> ?hi" "0 \<le> ?lo" using assms(1) clamp_range [of ?lo ?hi c] by (auto simp: clips_def)
  have c1: "0 < ?c1" using assms(2,3) by (auto simp: capped_ratio_def split: option.split)
  {
    assume a: "0 \<le> a"
    have "?c2 * a \<le> ?hi * a" using c2(2) a by (rule mult_right_mono)
    moreover have "0 \<le> ?c1 * a" "0 \<le> ?c2 * a" using c1 c2 a by (simp_all add: mult_nonneg_nonneg)
    ultimately show "- (?hi * a) \<le> policy_loss L a c logp \<and> policy_loss L a c logp \<le> 0" unfolding p by linarith
  }
  {
    assume a: "a \<le> 0"
    have "?lo * - a \<le> ?c2 * - a" using c2(1) a by (intro mult_right_mono) auto
    then show "?lo * \<bar>a\<bar> \<le> policy_loss L a c logp" unfolding p using a by simp
  }
  {
    assume a: "a \<le> 0" and d: "la_delta L = Some d"
    have "?c1 * - a \<le> max d ?hi * - a" using a d by (intro mult_right_mono) (auto simp: capped_ratio_def)
    moreover have "?c2 * - a \<le> max d ?hi * - a" using a c2(2) by (intro mult_right_mono) auto
    ultimately show "policy_loss L a c logp \<le> max d ?hi * \<bar>a\<bar>" unfolding p using a by simp
  }
qed

text \<open>The estimate of the divergence from the reference model is never negative.\<close>

lemma token_kl_nonneg: "0 \<le> token_kl ref logp" and token_kl_same: "token_kl x x = 0"
proof -
  show "0 \<le> token_kl ref logp"
    using exp_ge_add_one_self [of "ref - logp"] unfolding token_kl_def by linarith
qed (simp add: token_kl_def)

lemma is_ratio_range: "0 < is_ratio x" "is_ratio x \<le> exp 20"
  by (auto simp: is_ratio_def clamp_def safety_bound_def)

text \<open>
  Importance weights are between 0 and the threshold in three modes; masking whole sequences keeps
  token ratios up to the safety bound.
\<close>

lemma is_weight_range:
  assumes "0 < t"
  shows "0 \<le> is_weight mode t m f i"
    and "mode \<in> {Some Token_truncate, Some Token_mask, Some Sequence_truncate} \<Longrightarrow> is_weight mode t m f i \<le> t"
    and "mode = Some Sequence_mask \<Longrightarrow> is_weight mode t m f i \<le> exp 20"
  using assms is_ratio_range [of "f i"]
  by (auto simp: is_weight_def sequence_ratio_def Let_def less_imp_le split: option.split is_mode.split)

subsection \<open>The first update on a batch\<close>

definition plain_loss :: "loss_args \<Rightarrow> bool" where
  "plain_loss L \<longleftrightarrow> clips L \<and> \<not> kl_in_loss L \<and> la_is_mode L = None \<and> la_sequence_mask_delta L = None \<and>
     1 \<le> la_entropy_quantile L \<and> \<not> la_overlong_filter L \<and> (\<forall>d. la_delta L = Some d \<longrightarrow> 1 \<le> d)"

lemma on_policy_ratio:
  assumes "\<And>i. i < length (lr_mask r) \<Longrightarrow> lr_mask r ! i \<Longrightarrow> old_logps r ! i = lr_logps r ! i" "i < length (lr_mask r)" "lr_mask r ! i"
  shows "policy_ratio L r i = 1"
proof -
  have "masked_mean (overlong_mask L r) (log_ratio r) = masked_mean (overlong_mask L r) (\<lambda>i. 0)"
    using assms(1) overlong_mask_sub by (intro masked_mean_cong) (auto simp: log_ratio_def)
  then show ?thesis using assms by (simp add: policy_ratio_def log_ratio_def)
qed

lemma clipped_loss_one: "clips L \<Longrightarrow> \<forall>d. la_delta L = Some d \<longrightarrow> 1 \<le> d \<Longrightarrow> policy_loss L a 1 logp = - a"
  by (auto simp: clips_def policy_loss_def clipped_loss_def capped_ratio_def clamp_def split: option.splits)

lemma on_policy_row:
  assumes "plain_loss L" "lr_old r = None" "0 < true_count (lr_mask r)"
  shows "row_mean L e t r = - lr_advantage r"
proof -
  have m: "loss_mask L r = lr_mask r"
    using assms(1) by (simp add: plain_loss_def loss_mask_def keeps_sequence_def overlong_mask_def)
  have "token_loss L e t r i = - lr_advantage r" if "i < length (lr_mask r)" "lr_mask r ! i" for i
    using assms(1,2) on_policy_ratio [of r i L] that clipped_loss_one [of L]
    by (simp add: plain_loss_def token_loss_def token_weight_def corrected_def kl_term_def old_logps_def)
  then have "row_mean L e t r = masked_mean (lr_mask r) (\<lambda>i. - lr_advantage r)"
    unfolding row_mean_def m by (intro masked_mean_cong)
  then show ?thesis using masked_mean_const [OF assms(3)] by simp
qed

text \<open>
  On the policy that sampled the batch the loss is minus the mean advantage; with the advantages of
  whole groups it is 0, and only its gradient moves the model.
\<close>

lemma on_policy_loss:
  assumes "plain_loss L" "la_type L = Loss_grpo" "rows \<noteq> []"
    and "list_all (\<lambda>r. lr_old r = None \<and> 0 < true_count (lr_mask r)) rows"
  shows "compute_loss L items everywhere rows = Inr (Some (- mean (map lr_advantage rows)))"
proof -
  have "map (row_mean L everywhere None) rows = map (\<lambda>r. - lr_advantage r) rows"
    using assms(1,4) by (auto simp: list_all_iff on_policy_row)
  moreover have "mean (map (\<lambda>r. - lr_advantage r) rows) = - mean (map lr_advantage rows)"
  proof -
    have "sum_list (map (\<lambda>r. - lr_advantage r) xs) = - sum_list (map lr_advantage xs)" for xs :: "loss_row list"
      by (induction xs) auto
    then show ?thesis by (simp add: mean_def)
  qed
  ultimately have "mean (map (row_mean L everywhere None) rows) = - mean (map lr_advantage rows)" by metis
  then show ?thesis
    using assms(1-3) by (simp add: compute_loss_def plain_loss_def reduce_loss_def tmean_def Let_def)
qed


subsection \<open>Chunks\<close>

lemma ceil_div_pos: "0 < a \<Longrightarrow> 0 < b \<Longrightarrow> 0 < ceil_div a b"
  by (simp add: ceil_div_def div_greater_zero_iff)

lemma loss_chunks_ok:
  assumes "0 < chunk_size" "length rows \<in> set batch_sizes" "rows \<noteq> []"
  shows "\<exists>n > 0. loss_chunks chunk_size batch_sizes rows = Inr (chunks n rows)"
proof -
  let ?most = "Max (set (map (\<lambda>b. ceil_div b chunk_size) batch_sizes))"
  have "ceil_div (length rows) chunk_size \<le> ?most" using assms(2) by (intro Max_ge) auto
  then have "0 < ?most" using ceil_div_pos [of "length rows" chunk_size] assms(1,3) by simp
  then show ?thesis
    using assms ceil_div_pos [of "length rows" ?most]
    by (intro exI [of _ "ceil_div (length rows) ?most"]) (auto simp: loss_chunks_def Let_def)
qed

lemma weighted_losses_sum:
  "\<forall>c \<in> set cs. c \<noteq> [] \<Longrightarrow>
    weighted_losses (map (\<lambda>c. (length c, Some (sum_list (map h c) / real (length c)))) cs) = Some (sum_list (map h (concat cs)))"
  by (induction cs) auto

text \<open>A loss that is the mean of a quantity of the rows.\<close>

definition averages :: "loss_args \<Rightarrow> real \<Rightarrow> bool \<Rightarrow> (loss_row \<Rightarrow> real) \<Rightarrow> loss_row list \<Rightarrow> bool" where
  "averages L items everywhere h rows \<longleftrightarrow>
     (\<forall>xs. xs \<noteq> [] \<longrightarrow> set xs \<subseteq> set rows \<longrightarrow>
        compute_loss L items everywhere xs = Inr (Some (sum_list (map h xs) / real (length xs))))"

lemma chunked_average:
  assumes "averages L items everywhere h rows" "0 < chunk_size" "length rows \<in> set batch_sizes" "rows \<noteq> []"
  shows "compute_loss_chunked L items everywhere chunk_size batch_sizes rows = compute_loss L items everywhere rows"
proof -
  obtain n where n: "0 < n" "loss_chunks chunk_size batch_sizes rows = Inr (chunks n rows)"
    using loss_chunks_ok [OF assms(2-4)] by blast
  let ?cs = "chunks n rows" and ?v = "\<lambda>c. (length c, Some (sum_list (map h c) / real (length c)))"
  have ne: "\<forall>c \<in> set ?cs. c \<noteq> []" using chunks_bound by blast
  have c: "concat ?cs = rows" by (rule concat_chunks [OF n(1)])
  have sub: "set c \<subseteq> set rows" if "c \<in> set ?cs" for c using that arg_cong [OF c, of set] by auto
  have "map_res (\<lambda>c. res_bind (compute_loss L items everywhere c) (\<lambda>l. Inr (length c, l))) ?cs = Inr (map ?v ?cs)"
    using assms(1) ne sub by (auto simp: map_res_Inr_iff list_all2_map2 averages_def intro: list.rel_refl_strong)
  moreover have "sum_list (map fst (map ?v ?cs)) = length rows"
    using arg_cong [OF c, of length] by (simp add: o_def length_concat)
  moreover have "weighted_losses (map ?v ?cs) = Some (sum_list (map h rows))"
    using weighted_losses_sum [OF ne, of h] c by simp
  ultimately show ?thesis
    using assms(1,4) n(2) by (simp add: compute_loss_chunked_def averages_def)
qed

text \<open>
  The losses averaged over completions, or divided by a fixed length, with the parameters that they
  divide by; with a divergence in the loss the rows carry the reference values.
\<close>

definition completion_average :: "loss_args \<Rightarrow> bool" where
  "completion_average L \<longleftrightarrow>
     (case la_type L of
        Loss_grpo \<Rightarrow> True
      | Loss_sapo \<Rightarrow> la_tau_pos L \<noteq> 0 \<and> la_tau_neg L \<noteq> 0
      | Loss_dr_grpo \<Rightarrow> 0 < la_max_completion_length L
      | _ \<Rightarrow> False)"

definition has_reference :: "loss_args \<Rightarrow> loss_row list \<Rightarrow> bool" where
  "has_reference L rows \<longleftrightarrow> (kl_in_loss L \<longrightarrow> list_all (\<lambda>r. lr_ref r \<noteq> None) rows)"

lemma completion_average_averages:
  assumes "completion_average L" "has_reference L rows" "1 \<le> la_entropy_quantile L"
  shows "\<exists>h. averages L items everywhere h rows"
proof (intro exI)
  let ?h = "\<lambda>r. if la_type L = Loss_dr_grpo then row_sum L everywhere None r / real (la_max_completion_length L)
    else row_mean L everywhere None r"
  have div: "sum_list (map (\<lambda>r. f r / c) xs) = sum_list (map f xs) / c" for f :: "loss_row \<Rightarrow> real" and c xs
    by (induction xs) (auto simp: add_divide_distrib)
  show "averages L items everywhere ?h rows"
    unfolding averages_def
  proof (intro allI impI)
    fix xs assume xs: "xs \<noteq> []" "set xs \<subseteq> set rows"
    then have ref: "kl_in_loss L \<longrightarrow> list_all (\<lambda>r. lr_ref r \<noteq> None) xs"
      using assms by (auto simp: has_reference_def list_all_iff)
    show "compute_loss L items everywhere xs = Inr (Some (sum_list (map ?h xs) / real (length xs)))"
      using assms xs(1) ref
      by (cases "la_type L") (simp_all add: completion_average_def compute_loss_def reduce_loss_def tmean_def mean_def over_def div Let_def)
  qed
qed

text \<open>
  C27. Computing the loss in chunks, so that all processes run the same number of steps, gives the loss
  of the whole batch for the losses that average over completions (GRPO, SAPO, Dr. GRPO), whatever the
  batch sizes of the other processes, when no token is filtered by its entropy
  (\<open>top_entropy_quantile\<close> is at least 1, the default).  SAPO needs nonzero temperatures, Dr. GRPO a
  positive length limit, and a divergence in the loss needs the reference values of the rows.  With a
  smaller quantile the threshold is computed within each chunk and the loss differs
  (\<open>entropy_filter_depends_on_chunks\<close>).
\<close>

theorem chunked_loss_agrees:
  assumes "completion_average L" "has_reference L rows" "1 \<le> la_entropy_quantile L"
    and "0 < expected" "length rows \<in> set batch_sizes" "rows \<noteq> []"
  shows "grpo_loss L items everywhere dynamic expected batch_sizes rows = compute_loss L items everywhere rows"
  using completion_average_averages [OF assms(1-3), of items everywhere] chunked_average assms(4-6)
  by (auto simp: grpo_loss_def)


text \<open>
  The losses normalised by the tokens of all processes (DAPO, CISPO) are averaged over the chunks a
  second time: in chunks of one row the loss is the whole loss divided by the number of rows.
\<close>

lemma chunks_one: "chunks 1 xs = map (\<lambda>x. [x]) xs"
  by (induction xs) (simp_all add: chunks.simps)

lemma weighted_losses_singles: "weighted_losses (map (\<lambda>r. (Suc 0, Some (f r))) rows) = Some (sum_list (map f rows))"
  by (induction rows) auto

lemma token_normalised_chunks_shrink:
  assumes "la_type L = Loss_dapo \<or> la_type L = Loss_cispo" "1 \<le> la_entropy_quantile L" "\<not> kl_in_loss L"
    and "items / real (la_processes L) \<noteq> 0" "1 < length rows"
  shows "\<exists>l. compute_loss L items everywhere rows = Inr (Some l) \<and>
    grpo_loss L items everywhere True 1 [length rows] rows = Inr (Some (l / real (length rows)))"
proof -
  let ?N = "items / real (la_processes L)" and ?f = "\<lambda>r. row_sum L everywhere None r / (items / real (la_processes L))"
  have div: "sum_list (map (\<lambda>r. g r / c) xs) = sum_list (map g xs) / c" for g :: "loss_row \<Rightarrow> real" and c xs
    by (induction xs) (auto simp: add_divide_distrib)
  have loss: "compute_loss L items everywhere xs = Inr (Some (sum_list (map ?f xs)))" for xs
  proof -
    have "sum_list (map ?f xs) = sum_list (map (row_sum L everywhere None) xs) / ?N" by (rule div)
    then show ?thesis
      using assms(1-4) by (elim disjE) (simp_all add: compute_loss_def reduce_loss_def over_def Let_def)
  qed
  have "ceil_div (length rows) (length rows) = 1" "ceil_div (length rows) 1 = length rows"
    using assms(5) by (auto simp: ceil_div_def div_nat_eqI)
  then have cs: "loss_chunks 1 [length rows] rows = Inr (map (\<lambda>r. [r]) rows)"
    using assms(5) by (auto simp: loss_chunks_def Let_def chunks_one [simplified])
  have mr: "map_res (\<lambda>c. res_bind (compute_loss L items everywhere c) (\<lambda>l. Inr (length c, l))) (map (\<lambda>r. [r]) rows)
      = Inr (map (\<lambda>r. (Suc 0, Some (?f r))) rows)"
    by (simp add: map_res_Inr_iff loss list_all2_conv_all_nth)
  have "compute_loss_chunked L items everywhere 1 [length rows] rows
      = Inr (Some (sum_list (map ?f rows) / real (length rows)))"
    unfolding compute_loss_chunked_def cs res_bind_Inr mr weighted_losses_singles by (simp add: o_def sum_list_triv)
  then show ?thesis using assms(5) loss [of rows] by (simp add: grpo_loss_def)
qed

subsection \<open>CHORD\<close>

text \<open>The supervised weight stays between 0 and its peak, and between valley and peak once warmed up.\<close>

lemma mu_schedule_range:
  assumes "0 \<le> valley" "valley \<le> peak"
  shows "0 \<le> mu_schedule t warmup decay peak valley \<and> mu_schedule t warmup decay peak valley \<le> peak"
    and "warmup \<le> t \<Longrightarrow> valley \<le> mu_schedule t warmup decay peak valley"
proof -
  have c: "0 \<le> (1 / 2 * (1 + cos x)) \<and> (1 / 2 * (1 + cos x)) \<le> 1" for x :: real
  proof -
    have "0 \<le> 1 + cos x" "1 + cos x \<le> 2"
      using add_left_mono [OF cos_ge_minus_one, of 1 x] add_left_mono [OF cos_le_one, of 1 x] by (simp_all only: one_add_one add.right_inverse)
    then show ?thesis by simp
  qed
  have d: "0 \<le> (peak - valley) * (1 / 2 * (1 + cos x)) \<and> (peak - valley) * (1 / 2 * (1 + cos x)) \<le> peak - valley" for x
    using c [of x] assms mult_left_le [of "1 / 2 * (1 + cos x)" "peak - valley"] by simp
  have w: "0 \<le> real t / real warmup * peak \<and> real t / real warmup * peak \<le> peak" if "t < warmup"
    using that assms mult_right_mono [of "real t / real warmup" 1 peak] by simp
  show "0 \<le> mu_schedule t warmup decay peak valley \<and> mu_schedule t warmup decay peak valley \<le> peak"
    using w assms d [of "pi * real (t - warmup) / real decay"] unfolding mu_schedule_def
    by (smt (verit, ccfv_SIG))
  show "warmup \<le> t \<Longrightarrow> valley \<le> mu_schedule t warmup decay peak valley"
    using d [of "pi * real (t - warmup) / real decay"] by (simp add: mu_schedule_def)
qed

lemma chord_loss_defined:
  "0 \<le> valley \<Longrightarrow> valley \<le> peak \<Longrightarrow> \<exists>l. chord_loss (mu_schedule t warmup decay peak valley) sft grpo = Inr l"
  using mu_schedule_range(1) [of valley peak t warmup decay] by (auto simp: chord_loss_def)


subsection \<open>The tensors of a batch\<close>

lemma select_Cons [simp]: "select (b # m) (x # xs) = (if b then x # select m xs else select m xs)"
  by (simp add: select_def)

lemma select_Nil [simp]: "select [] xs = []" "select m [] = []"
  by (simp_all add: select_def)

lemma true_count_Cons [simp]: "true_count (b # m) = (if b then Suc (true_count m) else true_count m)"
  by (simp add: true_count_def)

lemma select_scatter: "length vs = true_count m \<Longrightarrow> select m (scatter m vs) = vs"
proof (induction m arbitrary: vs)
  case (Cons b m)
  then show ?case by (cases b; cases vs) simp_all
qed (simp add: true_count_def)

lemma length_scatter [simp]: "length (scatter m vs) = length m"
  by (induction m vs rule: scatter.induct) (auto split: list.splits)

text \<open>The rollout's log probabilities stand on the completion tokens, in order, and nowhere else.\<close>

lemma rollout_logps_aligned:
  assumes "align_rollout_logps masks lps = Some rows" "i < length rows"
  shows "map Some (select (masks ! i) (rows ! i)) = concat (the (lps ! i)) \<and> length (rows ! i) = length (masks ! i)"
proof -
  let ?f = "flat_logps (lps ! i)"
  have ok: "None \<notin> set (map flat_logps lps)" "list_all2 (\<lambda>m f. length (the f) = true_count m) masks (map flat_logps lps)"
      "list_all (\<lambda>f. None \<notin> set (the f)) (map flat_logps lps)"
      "rows = map (\<lambda>(m, f). scatter m (map the (the f))) (zip masks (map flat_logps lps))"
    using assms(1) by (auto simp: align_rollout_logps_def Let_def split: if_splits)
  have i: "i < length masks" "i < length lps" using assms(2) ok(4) by simp_all
  have row: "rows ! i = scatter (masks ! i) (map the (the ?f))" unfolding ok(4) using i by simp
  have len: "length (the ?f) = true_count (masks ! i)" using list_all2_nthD [OF ok(2) i(1)] i by simp
  have "flat_logps (lps ! i) \<noteq> None" using ok(1) i(2) by (metis length_map nth_map nth_mem)
  then have c: "the ?f = concat (the (lps ! i))" by (auto simp: flat_logps_def split: option.splits if_splits)
  have "None \<notin> set (the ?f)" using ok(3) i(2) by (simp add: list_all_length)
  then have "map Some (map the (the ?f)) = the ?f" by (auto intro!: map_idI) (metis option.exhaust_sel)
  then show ?thesis using select_scatter [of "map the (the ?f)" "masks ! i"] len row c by simp
qed

lemma first_label_prefix: "\<forall>l \<in> set (take (first_label ls) ls). l = -100"
proof -
  have "take (length (takeWhile P ls)) ls = takeWhile P ls" for P
    by (metis takeWhile_eq_take)
  then show ?thesis by (auto simp: first_label_def Let_def dest: set_takeWhileD)
qed

text \<open>No learned token is lost when the prompt is cut off in front of the earliest completion.\<close>

lemma completion_masks_keep_labels:
  assumes "logits_to_keep labels = Inr k" "ls \<in> set labels"
  shows "filter (\<lambda>l. l \<noteq> -100) (drop (length ls - k) ls) = filter (\<lambda>l. l \<noteq> -100) ls"
    and "k \<le> Max (set (map length labels))"
proof -
  let ?g = "\<lambda>ls. length ls - first_label ls"
  have k: "k = Max (set (map ?g labels))" and ne: "labels \<noteq> []" using assms by (auto simp: logits_to_keep_def split: if_splits)
  have "?g ls \<le> k" unfolding k using assms(2) by (intro Max_ge) auto
  then have "length ls - k \<le> first_label ls" by linarith
  then have "take (length ls - k) ls = take (length ls - k) (take (first_label ls) ls)" by simp
  then have "\<forall>l \<in> set (take (length ls - k) ls). l = -100"
    using first_label_prefix [of ls] by (metis in_set_takeD)
  then have "filter (\<lambda>l. l \<noteq> -100) (take (length ls - k) ls) = []" by (simp add: filter_empty_conv)
  then show "filter (\<lambda>l. l \<noteq> -100) (drop (length ls - k) ls) = filter (\<lambda>l. l \<noteq> -100) ls"
    by (metis append_self_conv2 append_take_drop_id filter_append)
  show "k \<le> Max (set (map length labels))"
    unfolding k using ne by (auto intro!: Max.boundedI) (meson Max_ge List.finite_set finite_imageI image_eqI le_diff_conv le_trans trans_le_add1)
qed

definition right_aligned :: "nat \<Rightarrow> 'a list \<times> bool list \<Rightarrow> bool" where
  "right_aligned width p \<longleftrightarrow> length (fst p) = width \<and> snd p = replicate (width - true_count (snd p)) False @ replicate (true_count (snd p)) True"

lemma pad_row_ok:
  assumes "start + n \<le> length flat" "n \<le> width"
  shows "pad_row pad width flat (start, n) =
    Inr (replicate (width - n) pad @ take n (drop start flat), replicate (width - n) False @ replicate n True)"
  using assms by (cases n) (auto simp: pad_row_def Let_def)

lemma concat_runs:
  "sum_list lens = length xs \<Longrightarrow> concat (map (\<lambda>i. take (lens ! i) (drop (sum_list (take i lens)) xs)) [0 ..< length lens]) = xs"
proof (induction lens arbitrary: xs)
  case (Cons n lens)
  have "[0 ..< length (n # lens)] = 0 # map Suc [0 ..< length lens]" by (simp add: upt_conv_Cons map_Suc_upt del: upt_Suc)
  then have "concat (map (\<lambda>i. take ((n # lens) ! i) (drop (sum_list (take i (n # lens))) xs)) [0 ..< length (n # lens)])
      = take n xs @ concat (map (\<lambda>i. take (lens ! i) (drop (sum_list (take i lens)) (drop n xs))) [0 ..< length lens])"
    by (simp add: o_def add.commute)
  also have "\<dots> = take n xs @ drop n xs" using Cons.IH [of "drop n xs"] Cons.prems by simp
  finally show ?case by simp
qed simp

text \<open>
  Values computed without padding are put back into a batch of rows without loss: every row has the
  full width, its own values stand at its right end, the mask counts them, and reading the rows through
  their masks gives the packed values again.
\<close>

theorem padded_back_and_read:
  assumes "sum_list lens = length flat" "list_all (\<lambda>n. n \<le> width) lens"
  shows "\<exists>rows. pad_logps_back_to_batch pad width lens flat = Inr rows \<and>
    concat (map (\<lambda>(row, m). select m row) rows) = flat \<and> map (true_count \<circ> snd) rows = lens \<and>
    list_all (right_aligned width) rows"
proof -
  define run where "run i = take (lens ! i) (drop (sum_list (take i lens)) flat)" for i
  define row where "row i = (replicate (width - lens ! i) pad @ run i, replicate (width - lens ! i) False @ replicate (lens ! i) True)" for i
  have fits: "sum_list (take i lens) + lens ! i \<le> length flat" "lens ! i \<le> width" if "i < length lens" for i
  proof -
    have "sum_list lens = sum_list (take i lens @ lens ! i # drop (Suc i) lens)" using id_take_nth_drop [OF that] by simp
    then show "sum_list (take i lens) + lens ! i \<le> length flat" using assms(1) by simp
    show "lens ! i \<le> width" using assms(2) that by (simp add: list_all_length)
  qed
  have run: "length (run i) = lens ! i" if "i < length lens" for i using fits [OF that] by (simp add: run_def)
  have "pad_row pad width flat (sum_list (take i lens), lens ! i) = Inr (row i)" if "i < length lens" for i
    using pad_row_ok [OF fits [OF that]] by (simp add: row_def run_def)
  then have rows: "pad_logps_back_to_batch pad width lens flat = Inr (map row [0 ..< length lens])"
    by (simp add: pad_logps_back_to_batch_def map_res_Inr_iff list_all2_conv_all_nth)
  have sel: "select (snd (row i)) (fst (row i)) = run i" if "i < length lens" for i
    using select_const [of "replicate (width - lens ! i) pad" False] select_const [of "run i" True] run [OF that]
    by (simp add: select_append row_def)
  have "map ((\<lambda>(row, m). select m row) \<circ> row) [0 ..< length lens] = map run [0 ..< length lens]"
    by (rule map_cong) (simp_all add: sel case_prod_unfold)
  then have "concat (map (\<lambda>(row, m). select m row) (map row [0 ..< length lens])) = concat (map run [0 ..< length lens])"
    by (simp only: map_map)
  also have "\<dots> = flat" unfolding run_def by (rule concat_runs [OF assms(1)])
  finally have read: "concat (map (\<lambda>(row, m). select m row) (map row [0 ..< length lens])) = flat" .
  have count: "true_count (snd (row i)) = lens ! i" for i by (simp add: true_count_def row_def)
  have counts: "map (true_count \<circ> snd) (map row [0 ..< length lens]) = lens"
    by (rule nth_equalityI) (simp_all add: count)
  have "right_aligned width (row i)" if "i < length lens" for i
    using fits [OF that] run [OF that] by (simp add: right_aligned_def count) (simp add: row_def)
  then have "list_all (right_aligned width) (map row [0 ..< length lens])" by (simp add: list_all_length)
  with rows read counts show ?thesis by (intro exI [of _ "map row [0 ..< length lens]"] conjI)
qed

theorem padded_back_and_read_witness:
  "\<exists>rows. pad_logps_back_to_batch 0 3 [2, 3] [1, 2, 3, 4, 5 :: nat] = Inr rows \<and>
    concat (map (\<lambda>(row, m). select m row) rows) = [1, 2, 3, 4, 5] \<and> map (true_count \<circ> snd) rows = [2, 3] \<and>
    list_all (right_aligned 3) rows"
  by (rule padded_back_and_read) simp_all

definition one_token :: "real \<Rightarrow> loss_row" where
  "one_token a = \<lparr>lr_mask = [True, False], lr_truncated = False, lr_advantage = a, lr_logps = [0, 0], lr_entropies = [0, 0],
     lr_old = None, lr_ref = None, lr_rollout = None\<rparr>"

definition grpo_defaults :: loss_args where
  "grpo_defaults = \<lparr>la_type = Loss_grpo, la_level = Level_token, la_epsilon_low = 1 / 5, la_epsilon_high = 1 / 5, la_delta = None,
     la_beta = 0, la_kl_in_reward = False, la_tau_pos = 1, la_tau_neg = 21 / 20, la_overlong_filter = False, la_entropy_quantile = 1,
     la_max_completion_length = 512, la_processes = 1, la_is_mode = None, la_is_threshold = 2, la_disable_is = False,
     la_sequence_mask_delta = None\<rparr>"

theorem padding_never_counts_witness:
  "compute_loss grpo_defaults 1 False [(one_token 1)\<lparr>lr_logps := [0, 7]\<rparr>] = compute_loss grpo_defaults 1 False [one_token 1]"
  by (rule padding_never_counts) (simp add: same_tokens_def same_at_def same_opt_def one_token_def nth_Cons split: nat.split)

theorem chunked_loss_agrees_witness:
  "grpo_loss grpo_defaults 1 False True 1 [2] [one_token 1, one_token (- 1)] = compute_loss grpo_defaults 1 False [one_token 1, one_token (- 1)]"
  by (rule chunked_loss_agrees) (simp_all add: completion_average_def has_reference_def grpo_defaults_def kl_in_loss_def)

text \<open>
  With the entropy filter the chunks matter: of two completions with entropies 1 and 2 the upper half
  keeps the second only, while each of them passes its own threshold in a chunk of its own.
\<close>

lemma entropy_filter_depends_on_chunks:
  defines "L \<equiv> grpo_defaults\<lparr>la_entropy_quantile := 1 / 2\<rparr>"
    and "rows \<equiv> [(one_token 1)\<lparr>lr_entropies := [1, 0]\<rparr>, (one_token (- 1))\<lparr>lr_entropies := [2, 0]\<rparr>]"
  shows "grpo_loss L 1 False True 1 [2] rows = Inr (Some 0)" "compute_loss L 1 False rows = Inr (Some (1 / 2))"
proof -
  let ?a = "(one_token 1)\<lparr>lr_entropies := [1, 0]\<rparr>" and ?b = "(one_token (- 1))\<lparr>lr_entropies := [2, 0]\<rparr>"
  have q: "entropy_threshold L [?a] = Some 1" "entropy_threshold L [?b] = Some 2" "entropy_threshold L [?a, ?b] = Some (3 / 2)"
    by (simp_all add: entropy_threshold_def nanquantile_def one_token_def L_def grpo_defaults_def present_def map_filter_def)
  have sets: "la_type L = Loss_grpo" "\<not> kl_in_loss L" "la_entropy_quantile L = 1 / 2"
    by (simp_all add: L_def grpo_defaults_def kl_in_loss_def)
  have mean: "row_mean L False t ?a = (case t of None \<Rightarrow> 0 | Some q \<Rightarrow> if q \<le> 1 then - 1 else 0)"
    "row_mean L False t ?b = (case t of None \<Rightarrow> 0 | Some q \<Rightarrow> if q \<le> 2 then 1 else 0)" for t
    by (auto simp: row_mean_def masked_mean_def masked_sum_def loss_mask_def keeps_sequence_def overlong_mask_def true_count_def
        token_loss_def token_weight_def corrected_def kl_term_def kl_in_loss_def policy_loss_def clipped_loss_def capped_ratio_def clamp_def
        policy_ratio_def log_ratio_def old_logps_def one_token_def L_def grpo_defaults_def upt_rec Let_def split: option.split)
  have one: "compute_loss L 1 False [?a] = Inr (Some (- 1))" "compute_loss L 1 False [?b] = Inr (Some 1)"
    using q mean sets by (simp_all add: compute_loss_def reduce_loss_def tmean_def mean_def)
  show "compute_loss L 1 False rows = Inr (Some (1 / 2))"
    using q mean sets by (simp add: compute_loss_def reduce_loss_def tmean_def mean_def rows_def)
  have "loss_chunks 1 [2] rows = Inr [[?a], [?b]]"
    by (simp add: loss_chunks_def ceil_div_def rows_def chunks.simps)
  then show "grpo_loss L 1 False True 1 [2] rows = Inr (Some 0)"
    using one by (simp add: grpo_loss_def compute_loss_chunked_def)
qed

end
