(* ===== verification/DataRows.thy ===== *)
theory DataRows
  imports GeoCoder PyPath
begin

text \<open>
  Rows of a training dataset (\<open>swift/dataset/preprocessor\<close>): the checks of a row, batches of rows as
  columns and back, the batched preprocessing that drops rows with errors, the renaming of columns,
  and the preprocessors that turn the common layouts into messages.  A row is a dictionary; a batch
  is a dictionary of columns.  \<open>ast.literal_eval\<close>, the text of floats and random choices are arguments;
  a message or a box that is no dictionary or list raises \<open>TypeError\<close>, where the source may raise another
  exception.
\<close>

subsection \<open>Dictionaries\<close>

definition ddel :: "'k \<Rightarrow> ('k, 'v) dict \<Rightarrow> ('k, 'v) dict" where
  "ddel k d = filter (\<lambda>p. fst p \<noteq> k) d"

type_synonym columns = "(string, pyval list) dict"

text \<open>\<open>_remove_prefix_keys\<close>: a key loses its prefix unless the shorter key is there.\<close>

definition strip_key :: "string \<Rightarrow> string \<Rightarrow> (string, 'v) dict \<Rightarrow> (string, 'v) dict" where
  "strip_key prefix k d =
     (if \<not> starts_with prefix k then d
      else case dget d k of
        None \<Rightarrow> d
      | Some v \<Rightarrow> let d' = ddel k d; k' = drop (length prefix) k in if dget d' k' = None then dset k' v d' else d')"

definition remove_prefix_keys :: "string \<Rightarrow> (string, 'v) dict \<Rightarrow> (string, 'v) dict" where
  "remove_prefix_keys prefix d = fold (strip_key prefix) (map fst d) d"

subsection \<open>Checks of a row\<close>

definition clean_message :: "pyval \<Rightarrow> pyval res" where
  "clean_message m =
     (case m of
        PDict d \<Rightarrow> Inr (PDict (filter (\<lambda>p. fst p \<in> {''role'', ''content'', ''loss''}) d))
      | _ \<Rightarrow> Inl AttributeError)"

definition message_roles :: "string list" where
  "message_roles = [''system'', ''user'', ''tool_call'', ''tool_response'', ''tool'', ''assistant'']"

definition check_message :: "pyval \<Rightarrow> unit res" where
  "check_message m =
     res_bind (py_item m ''role'') (\<lambda>role.
     res_bind (py_item m ''content'') (\<lambda>content.
     case role of
       PStr r \<Rightarrow> if r \<in> set message_roles \<and> content \<noteq> PNone then Inr () else Inl AssertionError
     | PList _ \<Rightarrow> Inl TypeError
     | PDict _ \<Rightarrow> Inl TypeError
     | _ \<Rightarrow> Inl AssertionError))"

definition check_messages :: "pydict \<Rightarrow> pydict res" where
  "check_messages row =
     (case dget row ''messages'' of
        None \<Rightarrow> Inr row
      | Some v \<Rightarrow>
          (case v of
             PList ms \<Rightarrow>
               if ms = [] then Inl AssertionError
               else res_bind (map_res clean_message ms) (\<lambda>ms'.
                    res_bind (map_res check_message ms') (\<lambda>_. Inr (dset ''messages'' (PList ms') row)))
           | PStr s \<Rightarrow> Inl (if s = [] then AssertionError else AttributeError)
           | PDict d \<Rightarrow> Inl (if d = [] then AssertionError else AttributeError)
           | _ \<Rightarrow> Inl TypeError))"

definition image_entry :: "pyval \<Rightarrow> pyval" where
  "image_entry v = PDict [(''bytes'', PNone), (''path'', v)]"

definition cast_images :: "string \<Rightarrow> pydict \<Rightarrow> pydict" where
  "cast_images key row =
     (case pget row key of
        PStr s \<Rightarrow> dset key (PList [image_entry (PStr s)]) row
      | PList (PStr s # vs) \<Rightarrow> dset key (PList (map image_entry (PStr s # vs))) row
      | PDict d \<Rightarrow> dset key (PList [PDict d]) row
      | _ \<Rightarrow> row)"

definition cast_media :: "string \<Rightarrow> pydict \<Rightarrow> pydict" where
  "cast_media key row = (case pget row key of PStr s \<Rightarrow> dset key (PList [PStr s]) row | _ \<Rightarrow> row)"

definition cast_mm_data :: "pydict \<Rightarrow> pydict" where
  "cast_mm_data row =
     cast_media ''audios'' (cast_media ''videos'' (cast_images ''rejected_images'' (cast_images ''images'' row)))"

text \<open>\<open>messages[-1]['content']\<close>.\<close>

definition last_content :: "pyval \<Rightarrow> pyval res" where
  "last_content v =
     (case v of
        PList ms \<Rightarrow> if ms = [] then Inl IndexError else py_item (last ms) ''content''
      | PStr s \<Rightarrow> Inl (if s = [] then IndexError else TypeError)
      | PDict d \<Rightarrow> Inl KeyError
      | _ \<Rightarrow> Inl TypeError)"

definition check_rejected_response :: "pydict \<Rightarrow> unit res" where
  "check_rejected_response row =
     (case dget row ''rejected_response'' of
        None \<Rightarrow> Inr ()
      | Some r \<Rightarrow>
          res_bind (row_item row ''messages'') (\<lambda>ms.
          case r of
            PNone \<Rightarrow> Inl ValueError
          | PStr s \<Rightarrow> res_bind (last_content ms) (\<lambda>c. if py_eq (PStr s) c then Inl ValueError else Inr ())
          | _ \<Rightarrow> Inr ()))"

text \<open>A box of four numbers gets its smaller coordinates first.\<close>

definition less_num :: "pyval \<Rightarrow> pyval \<Rightarrow> bool res" where
  "less_num v w = (case (num_of v, num_of w) of (Some x, Some y) \<Rightarrow> Inr (x < y) | _ \<Rightarrow> Inl TypeError)"

definition order_pair :: "pyval \<Rightarrow> pyval \<Rightarrow> (pyval \<times> pyval) res" where
  "order_pair a b = res_bind (less_num b a) (\<lambda>gt. Inr (if gt then (b, a) else (a, b)))"

definition check_box :: "pyval \<Rightarrow> pyval res" where
  "check_box box =
     (case box of
        PList vs \<Rightarrow>
          (case vs of
             [x, y] \<Rightarrow> Inr box
           | [x0, y0, x1, y1] \<Rightarrow>
               res_bind (order_pair x0 x1) (\<lambda>(x0', x1').
               res_bind (order_pair y0 y1) (\<lambda>(y0', y1'). Inr (PList [x0', y0', x1', y1'])))
           | _ \<Rightarrow> Inl AssertionError)
      | _ \<Rightarrow> Inl TypeError)"

definition object_keys :: "string list" where
  "object_keys = [''ref'', ''bbox'', ''bbox_type'', ''image_id'']"

definition check_objects :: "pydict \<Rightarrow> pydict res" where
  "check_objects row =
     (case pget row ''objects'' of
        PNone \<Rightarrow> Inr row
      | PDict d \<Rightarrow>
          (let new = List.map_filter (\<lambda>k. map_option (\<lambda>v. (k, v)) (dget d k)) object_keys
           in case dget new ''bbox'' of
                None \<Rightarrow> Inl KeyError
              | Some (PList boxes) \<Rightarrow>
                  res_bind (map_res check_box boxes) (\<lambda>boxes'.
                  Inr (dset ''objects'' (PDict (dset ''bbox'' (PList boxes') new)) row))
              | Some _ \<Rightarrow> Inl TypeError)
      | _ \<Rightarrow> Inl AttributeError)"

definition check_row :: "pydict \<Rightarrow> pydict res" where
  "check_row row =
     res_bind (check_objects row) (\<lambda>r1.
     res_bind (check_rejected_response r1) (\<lambda>_.
     res_bind (check_messages r1) (\<lambda>r2. Inr (cast_mm_data r2))))"

subsection \<open>Batches\<close>

definition batched_to_rows :: "columns \<Rightarrow> pydict list res" where
  "batched_to_rows b =
     (case b of
        [] \<Rightarrow> Inl IndexError
      | (k, c) # _ \<Rightarrow>
          map_res (\<lambda>i. map_res (\<lambda>(k, c). if i < length c then Inr (k, c ! i) else Inl IndexError) b) [0 ..< length c])"

text \<open>One row more: a new key starts with \<open>None\<close> for the rows before, a missing key gets \<open>None\<close>.\<close>

definition add_cell :: "nat \<Rightarrow> string \<times> pyval \<Rightarrow> columns \<Rightarrow> columns" where
  "add_cell i p b = dset (fst p) (dget_or b (fst p) (replicate i PNone) @ [snd p]) b"

definition pad_columns :: "string list \<Rightarrow> columns \<Rightarrow> columns" where
  "pad_columns ks b = map (\<lambda>(k, c). (k, if k \<in> set ks then c else c @ [PNone])) b"

definition add_row :: "nat \<times> pydict \<Rightarrow> columns \<Rightarrow> columns" where
  "add_row ir b = (case ir of (i, row) \<Rightarrow> pad_columns (map fst row) (fold (add_cell i) row b))"

definition rows_to_batched :: "pydict list \<Rightarrow> columns" where
  "rows_to_batched rows = fold add_row (zip [0 ..< length rows] rows) []"

text \<open>What a preprocessor returns for a row, and the settings and the state of the batch function.\<close>

datatype row_out = No_row | One_row pydict | Many_rows "pydict list"

datatype row_exn = Too_long | Other_exn py_exn

record prep =
  pr_strict :: bool
  pr_ignore_max_length :: bool
  pr_traceback_limit :: "nat option"

definition rows_of :: "row_out \<Rightarrow> pydict list" where
  "rows_of r = (case r of No_row \<Rightarrow> [] | One_row d \<Rightarrow> [d] | Many_rows ds \<Rightarrow> ds)"

definition process_row :: "(pydict \<Rightarrow> row_exn + row_out) \<Rightarrow> pydict \<Rightarrow> row_exn + pydict list" where
  "process_row preprocess row =
     (case preprocess row of
        Inl e \<Rightarrow> Inl e
      | Inr r \<Rightarrow> (case map_res check_row (rows_of r) of Inl e \<Rightarrow> Inl (Other_exn e) | Inr ds \<Rightarrow> Inr ds))"

definition count_error :: "prep \<Rightarrow> row_exn \<Rightarrow> nat \<Rightarrow> nat" where
  "count_error P e n =
     (if e = Too_long \<and> pr_ignore_max_length P then n
      else case pr_traceback_limit P of Some l \<Rightarrow> if n < l then Suc n else n | None \<Rightarrow> n)"

fun process_rows ::
  "prep \<Rightarrow> (pydict \<Rightarrow> row_exn + row_out) \<Rightarrow> pydict list \<Rightarrow> nat \<Rightarrow> row_exn + (pydict list \<times> nat)" where
  "process_rows P f [] n = Inr ([], n)"
| "process_rows P f (row # rows) n =
     (case process_row f row of
        Inl e \<Rightarrow> if pr_strict P then Inl e else process_rows P f rows (count_error P e n)
      | Inr ds \<Rightarrow> (case process_rows P f rows n of Inl e \<Rightarrow> Inl e | Inr (out, n') \<Rightarrow> Inr (ds @ out, n')))"

definition finish_batch :: "columns \<Rightarrow> columns" where
  "finish_batch b = (let b' = remove_prefix_keys ''__#'' b in if b' = [] then [(''messages'', [])] else b')"

definition batched_preprocess ::
  "prep \<Rightarrow> (pydict \<Rightarrow> row_exn + row_out) \<Rightarrow> columns \<Rightarrow> nat \<Rightarrow> row_exn + (columns \<times> nat)" where
  "batched_preprocess P f b n =
     (if b = [] then Inl (Other_exn AssertionError)
      else case batched_to_rows (remove_prefix_keys ''__@'' b) of
        Inl e \<Rightarrow> Inl (Other_exn e)
      | Inr rows \<Rightarrow>
          (case process_rows P f rows n of
             Inl e \<Rightarrow> Inl e
           | Inr (out, n') \<Rightarrow> Inr (finish_batch (rows_to_batched out), n')))"

text \<open>
  A dataset is a table of cells under its features; \<open>map\<close> hands it to the function batch by batch, and
  the counter of reported errors lives as long as the preprocessor.
\<close>

definition table_batch :: "string list \<Rightarrow> pyval list list \<Rightarrow> columns" where
  "table_batch features rows = map (\<lambda>j. (features ! j, map (\<lambda>r. r ! j) rows)) [0 ..< length features]"

fun map_batches ::
  "prep \<Rightarrow> (pydict \<Rightarrow> row_exn + row_out) \<Rightarrow> columns list \<Rightarrow> nat \<Rightarrow> row_exn + (columns list \<times> nat)" where
  "map_batches P f [] n = Inr ([], n)"
| "map_batches P f (b # bs) n =
     (case batched_preprocess P f b n of
        Inl e \<Rightarrow> Inl e
      | Inr (out, n1) \<Rightarrow> (case map_batches P f bs n1 of Inl e \<Rightarrow> Inl e | Inr (outs, n2) \<Rightarrow> Inr (out # outs, n2)))"

definition map_dataset ::
  "prep \<Rightarrow> (pydict \<Rightarrow> row_exn + row_out) \<Rightarrow> nat \<Rightarrow> string list \<Rightarrow> pyval list list \<Rightarrow> row_exn + (columns list \<times> nat)" where
  "map_dataset P f batch_size features rows = map_batches P f (map (table_batch features) (chunks batch_size rows)) 0"

subsection \<open>Columns\<close>

definition lower_table :: "string list \<Rightarrow> (string, string) dict" where
  "lower_table features = fold (\<lambda>k d. dset (lower k) k d) features []"

definition matched_columns :: "string list \<Rightarrow> (string, string) dict \<Rightarrow> (string, string) dict" where
  "matched_columns features cols =
     fold (\<lambda>(k, v) d. case dget (lower_table features) (lower k) of None \<Rightarrow> d | Some f \<Rightarrow> dset f v d) cols []"

definition safe_columns :: "string list \<Rightarrow> (string, string) dict \<Rightarrow> (string, string) dict" where
  "safe_columns features cols =
     (let m = matched_columns features cols
      in filter (\<lambda>(k, v). count_list (map snd m) v \<le> 1 \<and> k \<noteq> v) m)"

definition safe_rename_columns :: "string list \<Rightarrow> (string, string) dict \<Rightarrow> string list" where
  "safe_rename_columns features cols = map (\<lambda>f. dget_or (safe_columns features cols) f f) features"

definition pair_keys :: "string list" where
  "pair_keys = [''messages'', ''images'', ''videos'', ''audios'', ''tools'', ''objects'']"

definition standard_keys :: "string list" where
  "standard_keys = pair_keys @ concat (map (\<lambda>p. map (\<lambda>k. p @ ''_'' @ k) pair_keys) [''rejected'', ''positive'', ''negative''])
     @ [''rejected_response'', ''label'', ''channel'', ''margin'']"

definition remove_useless_columns :: "string list \<Rightarrow> string list" where
  "remove_useless_columns features =
     (let ks = filter (\<lambda>k. k \<in> set features) standard_keys
      in if length ks \<noteq> length features then ks else features)"

definition column_map :: "(string list \<times> string) list \<Rightarrow> (string, string) dict \<Rightarrow> (string, string) dict" where
  "column_map groups cols = fold (\<lambda>(ks, target) d. fold (\<lambda>k. dset k target) ks d) groups cols"

definition media_columns :: "(string list \<times> string) list" where
  "media_columns = [([''images'', ''image''], ''images''), ([''audios'', ''audio''], ''audios''), ([''videos'', ''video''], ''videos'')]"

definition response_columns :: "(string, string) dict \<Rightarrow> (string, string) dict" where
  "response_columns cols =
     column_map (media_columns @
       [([''system'', ''system_prompt''], ''system''),
        ([''query'', ''prompt'', ''input'', ''instruction'', ''question'', ''problem''], ''query''),
        ([''response'', ''answer'', ''output'', ''targets'', ''target'', ''answer_key'', ''answers'', ''solution'',
          ''text'', ''completion'', ''content''], ''response'')]) cols"

definition messages_columns :: "string \<Rightarrow> (string, string) dict \<Rightarrow> (string, string) dict" where
  "messages_columns system_role cols =
     column_map (media_columns @
       [([''messages'', ''conversation'', ''conversations''], ''messages''),
        ([''system'', ''system_prompt''] @ (if system_role \<in> {''system'', ''system_prompt''} then [] else [system_role]),
         ''system'')]) cols"

datatype layout = Messages_layout | Alpaca_layout | Response_layout

definition layout_of :: "string list \<Rightarrow> layout" where
  "layout_of features =
     (if \<exists>k \<in> set [''conversation'', ''conversations'', ''messages'']. k \<in> set features then Messages_layout
      else if ''instruction'' \<in> set features \<and> ''input'' \<in> set features then Alpaca_layout
      else Response_layout)"

text \<open>\<open>__call__\<close>: the solution is kept in a column of its own, the columns are renamed, then the rows mapped.\<close>

definition keep_solution :: "string list \<Rightarrow> pyval list list \<Rightarrow> string list \<times> pyval list list" where
  "keep_solution features rows =
     (if ''solution'' \<in> set features
      then (features @ [''__#solution''], map (\<lambda>r. r @ [pget (zip features r) ''solution'']) rows)
      else (features, rows))"

definition stream_columns :: "bool \<Rightarrow> string list \<Rightarrow> string list" where
  "stream_columns streaming features =
     (if streaming then map (\<lambda>k. if k \<in> set standard_keys then ''__@'' @ k else k) features else features)"

definition call_preprocessor ::
  "prep \<Rightarrow> (pydict \<Rightarrow> row_exn + row_out) \<Rightarrow> (string, string) dict \<Rightarrow> (string, string) dict \<Rightarrow> bool \<Rightarrow> nat
    \<Rightarrow> string list \<Rightarrow> pyval list list \<Rightarrow> row_exn + (columns list \<times> nat)" where
  "call_preprocessor P f origin cols streaming batch_size features rows =
     (let (fs, rs) = keep_solution features rows
      in map_dataset P f batch_size
           (stream_columns streaming (safe_rename_columns (safe_rename_columns fs origin) cols)) rs)"

subsection \<open>Queries and responses\<close>

definition row_message :: "string \<Rightarrow> pyval \<Rightarrow> pyval" where
  "row_message role content = PDict [(''role'', PStr role), (''content'', content)]"

definition turn_messages :: "pyval \<Rightarrow> pyval list res" where
  "turn_messages h =
     (case h of
        PList (q # r # _) \<Rightarrow>
          Inr ((if q \<noteq> PNone then [row_message ''user'' q] else []) @ (if r \<noteq> PNone then [row_message ''assistant'' r] else []))
      | PList _ \<Rightarrow> Inl IndexError
      | _ \<Rightarrow> Inl AssertionError)"

definition history_messages :: "pyval list \<Rightarrow> pyval \<Rightarrow> pyval list res" where
  "history_messages history system =
     res_bind (map_res turn_messages history) (\<lambda>mss.
     Inr ((if system \<noteq> PNone then [row_message ''system'' system] else []) @ concat mss))"

text \<open>A list of responses stands for its first element, or for a random one.\<close>

definition one_response :: "(pyval list \<Rightarrow> pyval) option \<Rightarrow> pyval \<Rightarrow> pyval res" where
  "one_response pick v =
     (case v of
        PList rs \<Rightarrow>
          (case pick of
             Some choice \<Rightarrow> if rs = [] then Inl ValueError else Inr (choice rs)
           | None \<Rightarrow> py_first (PList rs))
      | _ \<Rightarrow> Inr v)"

definition history_of :: "(string \<Rightarrow> pyval res) \<Rightarrow> pyval \<Rightarrow> pyval res" where
  "history_of literal_eval v =
     (let h = (if truthy v then v else PList []) in case h of PStr s \<Rightarrow> literal_eval s | _ \<Rightarrow> Inr h)"

definition response_preprocess ::
  "(string \<Rightarrow> pyval res) \<Rightarrow> (pyval list \<Rightarrow> pyval) option \<Rightarrow> pydict \<Rightarrow> pydict res" where
  "response_preprocess literal_eval pick row =
     (let rest = ddel ''system'' (ddel ''query'' (ddel ''history'' (ddel ''response'' row))) in
      res_bind (one_response pick (pget row ''response'')) (\<lambda>response.
      res_bind (history_of literal_eval (pget row ''history'')) (\<lambda>history.
      case history of
        PList hs \<Rightarrow>
          res_bind (history_messages (hs @ [PList [pget row ''query'', response]]) (pget row ''system'')) (\<lambda>ms.
          Inr (dset ''messages'' (PList ms) rest))
      | _ \<Rightarrow> Inl AttributeError)))"

definition concat_inst_input :: "(pyval \<Rightarrow> string) \<Rightarrow> pyval \<Rightarrow> pyval \<Rightarrow> string res" where
  "concat_inst_input rp inst inp =
     (if truthy inst \<and> truthy inp then Inr (py_str rp inst @ [CHR 0x0A] @ py_str rp inp)
      else case (if truthy inst then inst else inp) of PStr q \<Rightarrow> Inr q | _ \<Rightarrow> Inl AssertionError)"

definition alpaca_preprocess ::
  "(pyval \<Rightarrow> string) \<Rightarrow> (string \<Rightarrow> pyval res) \<Rightarrow> (pyval list \<Rightarrow> pyval) option \<Rightarrow> pydict \<Rightarrow> pydict res" where
  "alpaca_preprocess rp literal_eval pick row =
     (let rest = ddel ''output'' (ddel ''input'' (ddel ''instruction'' row));
          rest' = (if pget row ''output'' \<noteq> PNone then dset ''response'' (pget row ''output'') rest else rest)
      in res_bind (concat_inst_input rp (pget row ''instruction'') (pget row ''input'')) (\<lambda>q.
         response_preprocess literal_eval pick (dset ''query'' (PStr q) rest')))"

definition cls_preprocess ::
  "(string \<Rightarrow> pyval res) \<Rightarrow> (pyval list \<Rightarrow> pyval) option \<Rightarrow> pydict \<Rightarrow> pydict res" where
  "cls_preprocess literal_eval pick row =
     res_bind (response_preprocess literal_eval pick row) (\<lambda>r.
     res_bind (row_item r ''label'') (\<lambda>l.
     res_bind (py_int l) (\<lambda>i. Inr (dset ''label'' (PInt i) r))))"

definition text_generation_preprocess ::
  "string \<Rightarrow> string \<Rightarrow> (string \<Rightarrow> pyval res) \<Rightarrow> (pyval list \<Rightarrow> pyval) option \<Rightarrow> pydict \<Rightarrow> pydict res" where
  "text_generation_preprocess prompt tag literal_eval pick row =
     res_bind (row_item row ''query'') (\<lambda>q.
     case q of
       PStr s \<Rightarrow> response_preprocess literal_eval pick (dset ''query'' (PStr (replace tag s prompt)) row)
     | _ \<Rightarrow> Inl TypeError)"

subsection \<open>Conversations\<close>

record conversation =
  cv_role_keys :: "string list"
  cv_content_keys :: "string list"
  cv_user_roles :: "string list"
  cv_assistant_roles :: "string list"
  cv_system_role :: string
  cv_inner_key :: "string option"

text \<open>Every argument is \<open>None\<close> for automatic matching.\<close>

definition conversation_of ::
  "string option \<Rightarrow> string option \<Rightarrow> string option \<Rightarrow> string option \<Rightarrow> string \<Rightarrow> string option \<Rightarrow> conversation" where
  "conversation_of role_key content_key user_role assistant_role system_role inner =
     (let keys = (\<lambda>k ks. case k of None \<Rightarrow> ks | Some x \<Rightarrow> [x])
      in \<lparr>cv_role_keys = keys role_key [''role'', ''from''], cv_content_keys = keys content_key [''content'', ''value''],
          cv_user_roles = keys user_role [''user'', ''human''],
          cv_assistant_roles = keys assistant_role [''assistant'', ''gpt'', ''bot''],
          cv_system_role = system_role, cv_inner_key = inner\<rparr>)"

definition tool_call_roles :: "string list" where
  "tool_call_roles = [''function_call'']"

definition tool_response_roles :: "string list" where
  "tool_response_roles = [''function_response'', ''observation'', ''observations'']"

definition std_key :: "string \<Rightarrow> string \<Rightarrow> pydict \<Rightarrow> pydict" where
  "std_key std key m = (case dget m key of None \<Rightarrow> m | Some v \<Rightarrow> dset std v (ddel key m))"

definition to_std_key :: "string \<Rightarrow> string list \<Rightarrow> pydict \<Rightarrow> pydict" where
  "to_std_key std keys m = fold (std_key std) keys m"

definition is_sharegpt_format :: "pydict \<Rightarrow> bool" where
  "is_sharegpt_format m = (\<not> has_key m ''role'' \<and> \<not> has_key m ''content'')"

definition sharegpt_turn :: "conversation \<Rightarrow> pydict \<Rightarrow> pydict list res" where
  "sharegpt_turn C m =
     (let m' = to_std_key ''assistant'' (cv_assistant_roles C) (to_std_key ''user'' (cv_user_roles C) m)
      in res_bind (row_item m' ''user'') (\<lambda>u.
         res_bind (row_item m' ''assistant'') (\<lambda>a.
         Inr [[(''role'', PStr ''user''), (''content'', u)], [(''role'', PStr ''assistant''), (''content'', a)]])))"

definition system_first :: "pyval \<Rightarrow> pydict list \<Rightarrow> pydict list" where
  "system_first system ms =
     (if system \<noteq> PNone then [(''role'', PStr ''system''), (''content'', system)] # ms else ms)"

definition sharegpt_to_messages :: "conversation \<Rightarrow> pydict list \<Rightarrow> pyval \<Rightarrow> pydict list res" where
  "sharegpt_to_messages C ms system =
     res_bind (map_res (sharegpt_turn C) ms) (\<lambda>turns. Inr (system_first system (concat turns)))"

definition std_role :: "conversation \<Rightarrow> pyval \<Rightarrow> pyval res" where
  "std_role C role =
     (case role of
        PStr r \<Rightarrow>
          (let under = replace_char (CHR ''-'') ''_'' r in
           Inr (PStr (if r \<in> set (cv_user_roles C) then ''user''
                      else if r \<in> set (cv_assistant_roles C) then ''assistant''
                      else if under \<in> set tool_call_roles then ''tool_call''
                      else if under \<in> set tool_response_roles then ''tool_response'' else r)))
      | _ \<Rightarrow> Inl AttributeError)"

definition to_std_messages :: "conversation \<Rightarrow> pydict list \<Rightarrow> pyval \<Rightarrow> pydict list res" where
  "to_std_messages C ms system =
     (case ms of
        [] \<Rightarrow> Inl IndexError
      | m # rest \<Rightarrow>
          res_bind (row_item m ''role'') (\<lambda>role.
          let ms' = (if role = PStr (cv_system_role C) then dset ''role'' (PStr ''system'') m # rest
                     else system_first system ms)
          in map_res (\<lambda>m. res_bind (row_item m ''role'') (\<lambda>r.
                          res_bind (std_role C r) (\<lambda>r'. Inr (dset ''role'' r' m)))) ms'))"

definition message_dict :: "pyval \<Rightarrow> pydict res" where
  "message_dict m = (case m of PDict d \<Rightarrow> Inr d | _ \<Rightarrow> Inl TypeError)"

text \<open>The messages of a value, and \<open>None\<close> when the row is dropped.\<close>

definition std_messages ::
  "(string \<Rightarrow> pyval res) \<Rightarrow> conversation \<Rightarrow> pyval \<Rightarrow> pyval \<Rightarrow> pydict list option res" where
  "std_messages literal_eval C value system =
     res_bind (case cv_inner_key C of None \<Rightarrow> Inr value | Some k \<Rightarrow> py_item value k) (\<lambda>v.
     res_bind (case v of PStr s \<Rightarrow> literal_eval s | _ \<Rightarrow> Inr v) (\<lambda>w.
     if \<not> truthy w \<or> is_str w then Inr None
     else case w of
       PList vs \<Rightarrow>
         res_bind (map_res message_dict vs) (\<lambda>ms.
         let ms' = map (\<lambda>m. to_std_key ''content'' (cv_content_keys C) (to_std_key ''role'' (cv_role_keys C) m)) ms
         in res_bind (if is_sharegpt_format (hd ms') then sharegpt_to_messages C ms' system
                      else to_std_messages C ms' system) (\<lambda>out. Inr (Some out)))
     | _ \<Rightarrow> Inl TypeError))"

definition messages_preprocess :: "(string \<Rightarrow> pyval res) \<Rightarrow> conversation \<Rightarrow> pydict \<Rightarrow> pydict option res" where
  "messages_preprocess literal_eval C row =
     res_bind (case dget row ''rejected_messages'' of
         None \<Rightarrow> Inr row
       | Some v \<Rightarrow>
           res_bind (std_messages literal_eval C v PNone) (\<lambda>out.
           case out of
             None \<Rightarrow> Inl TypeError
           | Some ms \<Rightarrow> Inr (dset ''rejected_messages'' (PList (map PDict ms)) row))) (\<lambda>row1.
     res_bind (row_item row1 ''messages'') (\<lambda>v.
     res_bind (std_messages literal_eval C v (pget row1 ''system'')) (\<lambda>out.
     Inr (map_option (\<lambda>ms. dset ''messages'' (PList (map PDict ms)) (ddel ''system'' row1)) out))))"

text \<open>The preprocessors as the batch function sees them.\<close>

definition row_result :: "pydict res \<Rightarrow> row_exn + row_out" where
  "row_result r = (case r of Inl e \<Rightarrow> Inl (Other_exn e) | Inr d \<Rightarrow> Inr (One_row d))"

definition row_result_opt :: "pydict option res \<Rightarrow> row_exn + row_out" where
  "row_result_opt r =
     (case r of Inl e \<Rightarrow> Inl (Other_exn e) | Inr None \<Rightarrow> Inr No_row | Inr (Some d) \<Rightarrow> Inr (One_row d))"

end
