(* ===== verification/DataSource.thy ===== *)
theory DataSource
  imports DataRows
begin

text \<open>
  Where training rows come from (\<open>swift/dataset\<close>): the syntax of a dataset on the command line, the
  registry of datasets and their subsets, downloading with retries, sampling, the split into training
  and validation rows, and the lazy dataset that replaces rows it cannot encode.  The file system, the
  hub, permutations and the library's \<open>train_test_split\<close> are arguments; a dataset is the list of its rows.
\<close>

subsection \<open>The syntax of a dataset\<close>

datatype side = From_left | From_right

definition cut_text :: "side \<Rightarrow> string \<Rightarrow> string \<Rightarrow> (string \<times> string) option" where
  "cut_text sd sep s =
     (case sd of
        From_left \<Rightarrow> find_sub sep s
      | From_right \<Rightarrow> map_option (\<lambda>(a, b). (rev b, rev a)) (find_sub (rev sep) (rev s)))"

definition safe_split :: "string option \<Rightarrow> string \<Rightarrow> bool \<Rightarrow> side \<Rightarrow> string option \<times> string option" where
  "safe_split s sep use_0 sd =
     (case s of
        None \<Rightarrow> (None, None)
      | Some t \<Rightarrow>
          if t = [] then (None, None)
          else case cut_text sd sep t of
            Some (a, b) \<Rightarrow> (Some a, Some b)
          | None \<Rightarrow> if use_0 then (Some t, None) else (None, Some t))"

record dataset_syntax =
  dx_dataset :: string
  dx_subsets :: "string list"
  dx_sample :: "int option"
  dx_use_hf :: "bool option"
  dx_is_path :: bool

definition hub_of :: "string option \<Rightarrow> bool option" where
  "hub_of h =
     (case map_option lower h of
        None \<Rightarrow> None
      | Some t \<Rightarrow> if t = ''hf'' then Some True else if t = ''ms'' then Some False else None)"

text \<open>\<open>os.path.exists\<close>, which raises on \<open>None\<close>.\<close>

definition path_exists :: "(string \<Rightarrow> bool) \<Rightarrow> string option \<Rightarrow> bool res" where
  "path_exists ex p = (case p of None \<Rightarrow> Inl TypeError | Some s \<Rightarrow> Inr (ex s))"

definition parse_dataset :: "(string \<Rightarrow> bool) \<Rightarrow> (string \<Rightarrow> bool) \<Rightarrow> string \<Rightarrow> dataset_syntax res" where
  "parse_dataset ex isfile s =
     (let (hub, d) = (if ex s then (None, Some s) else (let (h, d) = safe_split (Some s) ''::'' False From_left in (hub_of h, d))) in
      res_bind (path_exists ex d) (\<lambda>e1.
      let (other, sample) = (if e1 then (d, None) else safe_split d ''#'' True From_right) in
      res_bind (path_exists ex other) (\<lambda>e2.
      let (name, subsets) = (if e2 then (other, None) else safe_split other '':'' True From_left);
          subs = (case subsets of None \<Rightarrow> [] | Some t \<Rightarrow> map strip (split_char (CHR ''/'') t)) in
      res_bind (case sample of None \<Rightarrow> Inr None | Some t \<Rightarrow> res_bind (py_int (PStr t)) (\<lambda>n. Inr (Some n))) (\<lambda>n.
      case name of
        None \<Rightarrow> Inl AttributeError
      | Some t \<Rightarrow> Inr \<lparr>dx_dataset = strip t, dx_subsets = subs, dx_sample = n, dx_use_hf = hub,
                       dx_is_path = isfile (strip t)\<rparr>))))"

definition get_raw :: "dataset_syntax \<Rightarrow> string" where
  "get_raw d = dx_dataset d @ join ''/'' (dx_subsets d) @ (case dx_sample d of None \<Rightarrow> [] | Some n \<Rightarrow> CHR ''#'' # show_int n)"

text \<open>\<open>get_dataset_name\<close>: the last part of an id, or the name in the path of a hub snapshot.\<close>

definition not_newline :: rx where
  "not_newline = Cls (\<lambda>c. c \<noteq> CHR 0x0A)"

definition snapshot_re :: rx where
  "snapshot_re =
     (let some = Seq not_newline (Star False not_newline)
      in seqs [lit ''/datasets--'', some, lit ''--'', Grp 1 some, lit ''/snapshots/''])"

definition get_dataset_name :: "string \<Rightarrow> string" where
  "get_dataset_name s =
     (let t = rev (dropWhile (\<lambda>c. c = CHR ''/'') (rev s)) in
      case re_search snapshot_re t of
        Some g \<Rightarrow> dget_or g 1 []
      | None \<Rightarrow> last (split_char (CHR ''/'') t))"

subsection \<open>The registry\<close>

record 'f subset_data =
  sd_name :: string
  sd_subset :: string
  sd_split :: "string list option"
  sd_func :: "'f option"
  sd_weak :: bool

record 'f dataset_meta =
  dm_ms :: "string option"
  dm_hf :: "string option"
  dm_path :: "string option"
  dm_name :: "string option"
  dm_ms_revision :: "string option"
  dm_hf_revision :: "string option"
  dm_subsets :: "'f subset_data list"
  dm_split :: "string list"
  dm_func :: 'f

definition plain_subset :: "string \<Rightarrow> 'f subset_data" where
  "plain_subset n = \<lparr>sd_name = n, sd_subset = n, sd_split = None, sd_func = None, sd_weak = False\<rparr>"

definition default_meta :: "'f \<Rightarrow> 'f dataset_meta" where
  "default_meta f = \<lparr>dm_ms = None, dm_hf = None, dm_path = None, dm_name = None, dm_ms_revision = None,
     dm_hf_revision = None, dm_subsets = [plain_subset ''default''], dm_split = [''train''], dm_func = f\<rparr>"

datatype reg_key = Named string | Ids "string option" "string option" "string option"

type_synonym 'f registry = "(reg_key, 'f dataset_meta) dict"

definition key_of :: "'f dataset_meta \<Rightarrow> reg_key" where
  "key_of m = (case dm_name m of Some n \<Rightarrow> if n = [] then Ids (dm_ms m) (dm_hf m) (dm_path m) else Named n
                | None \<Rightarrow> Ids (dm_ms m) (dm_hf m) (dm_path m))"

definition register_dataset :: "bool \<Rightarrow> 'f dataset_meta \<Rightarrow> 'f registry \<Rightarrow> 'f registry res" where
  "register_dataset exist_ok m R =
     (if \<not> exist_ok \<and> dget R (key_of m) \<noteq> None then Inl ValueError else Inr (dset (key_of m) m R))"

definition set_default :: "'f dataset_meta \<Rightarrow> 'f subset_data \<Rightarrow> 'f subset_data" where
  "set_default m s =
     s\<lparr>sd_split := Some (case sd_split s of None \<Rightarrow> dm_split m | Some x \<Rightarrow> x),
       sd_func := Some (case sd_func s of None \<Rightarrow> dm_func m | Some f \<Rightarrow> f)\<rparr>"

definition select_subsets :: "string list \<Rightarrow> 'f dataset_meta \<Rightarrow> 'f subset_data list res" where
  "select_subsets subsets m =
     (let table = fold (\<lambda>s d. dset (sd_name s) s d) (dm_subsets m) []; names = map fst table in
      res_bind
        (if subsets = [] then
           (if length names \<le> 1 then Inr names
            else if ''default'' \<in> set names then Inr [''default''] else Inl ValueError)
         else if subsets = [''all''] \<and> ''all'' \<notin> set names then
           Inr (filter (\<lambda>n. case dget table n of Some s \<Rightarrow> \<not> sd_weak s | None \<Rightarrow> False) names)
         else Inr subsets)
        (\<lambda>chosen. Inr (map (\<lambda>n. set_default m (case dget table n of Some s \<Rightarrow> s | None \<Rightarrow> plain_subset n)) chosen)))"

text \<open>Registered datasets by kind and id; \<open>isdir\<close> tells the directories of the file system.\<close>

definition add_meta ::
  "(string \<Rightarrow> bool) \<Rightarrow> 'f dataset_meta \<Rightarrow> (string \<times> string, 'f dataset_meta) dict \<Rightarrow> (string \<times> string, 'f dataset_meta) dict" where
  "add_meta isdir m d =
     (let put = (\<lambda>kind x e. case x of None \<Rightarrow> e | Some i \<Rightarrow> dset (kind, i) m e)
      in put ''hf'' (dm_hf m) (put ''ms'' (dm_ms m)
           (case dm_path m of None \<Rightarrow> d | Some p \<Rightarrow> dset (if isdir p then ''repo'' else ''path'', p) m d)))"

definition meta_table :: "(string \<Rightarrow> bool) \<Rightarrow> 'f registry \<Rightarrow> (string \<times> string, 'f dataset_meta) dict" where
  "meta_table isdir R = fold (add_meta isdir) (map snd R) []"

definition matched_meta ::
  "(string \<times> string, 'f dataset_meta) dict \<Rightarrow> dataset_syntax \<Rightarrow> 'f dataset_meta option" where
  "matched_meta table d =
     dget (fold (\<lambda>(k, m) e. dset (get_dataset_name (snd k)) m e) table []) (get_dataset_name (dx_dataset d))"

definition get_dataset_meta ::
  "(string \<Rightarrow> bool) \<Rightarrow> 'f \<Rightarrow> 'f registry \<Rightarrow> dataset_syntax \<Rightarrow> bool \<Rightarrow> 'f dataset_meta" where
  "get_dataset_meta isdir auto R d use_hf =
     (let table = meta_table isdir R;
          kind = (if dx_is_path d then ''path'' else if isdir (dx_dataset d) then ''repo'' else if use_hf then ''hf'' else ''ms'')
      in case dget table (kind, dx_dataset d) of
           Some m \<Rightarrow> m
         | None \<Rightarrow> (case matched_meta table d of Some m \<Rightarrow> m | None \<Rightarrow> default_meta auto))"

text \<open>
  The part of \<open>load_dataset\<close> that decides on the hub, the id and the settings: \<open>dataset_syntax.use_hf or
  use_hf_default\<close>, and a registered name stands for its path or id.
\<close>

definition effective_hub :: "bool option \<Rightarrow> bool \<Rightarrow> bool" where
  "effective_hub h by_default = (h = Some True \<or> by_default)"

definition resolve_dataset ::
  "(string \<Rightarrow> bool) \<Rightarrow> 'f \<Rightarrow> 'f registry \<Rightarrow> bool \<Rightarrow> dataset_syntax
    \<Rightarrow> string option \<times> bool \<times> bool \<times> 'f dataset_meta" where
  "resolve_dataset isdir auto R by_default d =
     (let use_hf = effective_hub (dx_use_hf d) by_default in
      case dget R (Named (dx_dataset d)) of
        Some m \<Rightarrow>
          if dx_use_hf d = None \<and> dm_path m \<noteq> None then (dm_path m, True, use_hf, m)
          else (if use_hf then dm_hf m else dm_ms m, dx_is_path d, use_hf, m)
      | None \<Rightarrow> (Some (dx_dataset d), dx_is_path d, use_hf, get_dataset_meta isdir auto R d use_hf))"

text \<open>The download loop: attempt \<open>i\<close> of at most \<open>retry\<close>, of which \<open>left\<close> more are allowed.\<close>

fun load_attempts :: "(nat \<Rightarrow> 'e + 'a) \<Rightarrow> nat \<Rightarrow> nat \<Rightarrow> 'e + 'a" where
  "load_attempts load i 0 = load i"
| "load_attempts load i (Suc left) = (case load i of Inl e \<Rightarrow> load_attempts load (Suc i) left | Inr d \<Rightarrow> Inr d)"

definition load_with_retry :: "bool \<Rightarrow> (nat \<Rightarrow> 'e + 'a) \<Rightarrow> 'e + 'a" where
  "load_with_retry local load = load_attempts load 1 (if local then 0 else 2)"

definition concat_datasets :: "'a list list \<Rightarrow> 'a list option" where
  "concat_datasets ds = (if ds = [] then None else Some (concat ds))"

subsection \<open>Sampling\<close>

text \<open>\<open>perm n\<close> is the permutation of the random state, \<open>reorder\<close> its shuffle of the whole index list.\<close>

definition sample_indices :: "(nat \<Rightarrow> nat list) \<Rightarrow> (nat list \<Rightarrow> nat list) \<Rightarrow> bool \<Rightarrow> bool \<Rightarrow> nat \<Rightarrow> nat \<Rightarrow> nat list" where
  "sample_indices perm reorder shuffle shuffle_all n k =
     (let repeats = k div n; remain = k mod n;
          idx = concat (replicate repeats [0 ..< n]) @
                (if 1 \<le> remain then take remain (if shuffle then perm n else [0 ..< n]) else [])
      in if 1 \<le> repeats \<and> shuffle \<and> shuffle_all then reorder idx else idx)"

definition sample_dataset ::
  "(nat \<Rightarrow> nat list) \<Rightarrow> (nat list \<Rightarrow> nat list) \<Rightarrow> bool \<Rightarrow> bool \<Rightarrow> nat option \<Rightarrow> 'a list \<Rightarrow> 'a list res" where
  "sample_dataset perm reorder shuffle shuffle_all k xs =
     (case k of
        None \<Rightarrow> Inr xs
      | Some k' \<Rightarrow>
          if xs = [] then Inl ZeroDivisionError
          else Inr (map ((!) xs) (sample_indices perm reorder shuffle shuffle_all (length xs) k')))"

text \<open>\<open>post_process\<close>; a part is \<open>None\<close> where the source has \<open>None\<close>.\<close>

definition split_streaming ::
  "nat option \<Rightarrow> real \<Rightarrow> 'a list \<Rightarrow> ('a list option \<times> 'a list option) res" where
  "split_streaming sample ratio xs =
     (case sample of
        None \<Rightarrow>
          if ratio = 0 then Inr (Some xs, None) else if ratio = 1 then Inr (None, Some xs) else Inl ValueError
      | Some k \<Rightarrow>
          let taken = take k xs; v = nat \<lfloor>real k * ratio\<rfloor>
          in if v = 0 then Inr (Some taken, None) else Inr (Some (drop v taken), Some (take v taken)))"

definition split_table ::
  "(nat \<Rightarrow> nat list) \<Rightarrow> (nat \<Rightarrow> 'a list \<Rightarrow> 'a list \<times> 'a list) \<Rightarrow> bool \<Rightarrow> nat option \<Rightarrow> real \<Rightarrow> 'a list
    \<Rightarrow> ('a list option \<times> 'a list option) res" where
  "split_table perm train_test_split shuffle sample ratio xs =
     (let k = (case sample of None \<Rightarrow> length xs | Some k \<Rightarrow> k);
          pick = (\<lambda>n ys. sample_dataset perm id shuffle False (Some n) ys) in
      if ratio = 0 then res_bind (pick k xs) (\<lambda>t. Inr (Some t, None))
      else if ratio = 1 then
        (if length xs < k then Inl AssertionError else res_bind (pick k xs) (\<lambda>v. Inr (None, Some v)))
      else
        let v = max (nat \<lfloor>real (min (length xs) k) * ratio\<rfloor>) 1
        in if k \<le> v then Inl AssertionError
           else if length xs \<le> v then Inl ValueError
           else let (train, val) = train_test_split v xs in res_bind (pick (k - v) train) (\<lambda>t. Inr (Some t, Some val)))"

definition post_process ::
  "(nat \<Rightarrow> nat list) \<Rightarrow> (nat \<Rightarrow> 'a list \<Rightarrow> 'a list \<times> 'a list) \<Rightarrow> bool \<Rightarrow> bool \<Rightarrow> int option \<Rightarrow> real \<Rightarrow> 'a list
    \<Rightarrow> ('a list option \<times> 'a list option) res" where
  "post_process perm train_test_split streaming shuffle sample ratio xs =
     (if (case sample of None \<Rightarrow> False | Some k \<Rightarrow> k \<le> 0) \<or> ratio < 0 \<or> 1 < ratio then Inl AssertionError
      else
        let k = map_option nat sample
        in if streaming then split_streaming k ratio xs
           else split_table perm train_test_split shuffle k ratio xs)"

subsection \<open>The lazy dataset\<close>

record lazy_data =
  lz_size :: nat
  lz_tries :: nat
  lz_strict :: bool
  lz_order :: "nat list"
  lz_next :: nat

definition lazy_dataset :: "(nat \<Rightarrow> nat list) \<Rightarrow> nat \<Rightarrow> nat \<Rightarrow> bool \<Rightarrow> lazy_data res" where
  "lazy_dataset perm n n_try_fetch strict =
     (let tries = (if strict then 1 else min n_try_fetch n)
      in if tries = 0 then Inl AssertionError
         else Inr \<lparr>lz_size = n, lz_tries = tries, lz_strict = strict, lz_order = perm n, lz_next = 0\<rparr>)"

text \<open>The attempts of \<open>__getitem__\<close>: \<open>left\<close> more are allowed after the one at \<open>cand\<close>.\<close>

fun fetch :: "(nat \<Rightarrow> 'e + 'b) \<Rightarrow> lazy_data \<Rightarrow> nat \<Rightarrow> nat \<Rightarrow> ('e + 'b) \<times> lazy_data" where
  "fetch enc L 0 cand = (enc cand, L)"
| "fetch enc L (Suc left) cand =
     (case enc cand of
        Inr y \<Rightarrow> (Inr y, L)
      | Inl e \<Rightarrow>
          if lz_strict L then (Inl e, L)
          else fetch enc (L\<lparr>lz_next := (lz_next L + 1) mod lz_size L\<rparr>) left (lz_order L ! lz_next L))"

definition get_item :: "(nat \<Rightarrow> 'e + 'b) \<Rightarrow> lazy_data \<Rightarrow> nat \<Rightarrow> ('e + 'b) \<times> lazy_data" where
  "get_item enc L idx = fetch enc L (lz_tries L - 1) idx"

end
