(* ===== verification/DataSourceLaws.thy ===== *)
theory DataSourceLaws
  imports DataSource "HOL-Library.Multiset"
begin

text \<open>
  Laws of the data sources: a dataset spelled on the command line is read back, sampling uses all rows
  evenly, training and validation rows stay apart, and the lazy dataset returns the first row it can
  encode.
\<close>

subsection \<open>Spelling and parsing\<close>

lemma find_sub_char: "c \<notin> set a \<Longrightarrow> find_sub [c] (a @ c # b) = Some (a, b)"
  by (induction a) (auto simp: starts_with_def)

lemma find_sub_char_None: "c \<notin> set a \<Longrightarrow> find_sub [c] a = None"
  by (induction a) (auto simp: starts_with_def)

lemma find_sub_double_None:
  assumes "c \<notin> set a" "c \<notin> set b"
  shows "find_sub [c, c] (a @ c # b) = None"
proof -
  have "\<not> contains [c, c] (a @ c # b)"
  proof
    assume "contains [c, c] (a @ c # b)"
    then obtain x y where "a @ c # b = x @ [c, c] @ y" by (auto simp: contains_iff)
    then have "count_list (a @ c # b) c = count_list (x @ [c, c] @ y) c" by simp
    then show False using assms by (simp add: count_list_0_iff)
  qed
  then show ?thesis unfolding contains_def by (rule notnotD)
qed

text \<open>The spelling of a dataset: hub, id, subsets and sample size.\<close>

definition spell_hub :: "bool option \<Rightarrow> string" where
  "spell_hub h = (case h of None \<Rightarrow> [] | Some b \<Rightarrow> if b then ''hf::'' else ''ms::'')"

definition spell_dataset :: "bool option \<Rightarrow> string \<Rightarrow> string list \<Rightarrow> nat \<Rightarrow> string" where
  "spell_dataset h d subs n = spell_hub h @ d @ CHR '':'' # join ''/'' subs @ CHR ''#'' # show_nat n"

definition plain_name :: "string \<Rightarrow> bool" where
  "plain_name s = (s \<noteq> [] \<and> strip s = s \<and> CHR '':'' \<notin> set s \<and> CHR ''#'' \<notin> set s)"

lemma show_nat_char: "c \<in> set (show_nat n) \<Longrightarrow> is_digit c"
proof (induction n rule: show_nat.induct)
  case (1 n)
  have "is_digit (char_of (48 + d) :: char)" if "d < 10" for d :: nat
    using that by (simp add: is_digit_def of_char_of)
  moreover have "n mod 10 < 10" by simp
  ultimately show ?case using 1 by (auto simp: show_nat.simps [of n] split: if_splits)
qed

lemma digit_run_digits: "list_all is_digit s \<Longrightarrow> digit_run s = (s, [])"
  by (induction s rule: digit_run.induct) (auto simp: is_digit_def)

lemma digits_not_space: "is_digit c \<Longrightarrow> \<not> is_ws c"
  by (auto simp: is_digit_def is_ws_def Let_def)

lemma strip_digits:
  assumes "list_all is_digit s"
  shows "strip s = s"
proof -
  have "dropWhile is_ws t = t" if "list_all is_digit t" for t
    using that by (cases t) (auto dest: digits_not_space)
  moreover have "list_all is_digit (rev s)" using assms by simp
  ultimately show ?thesis using assms by (simp add: strip_def lstrip_def rstrip_def)
qed

lemma show_nat_not_empty: "show_nat n \<noteq> []"
  by (subst show_nat.simps) simp

lemma py_int_show_nat: "py_int (PStr (show_nat n)) = Inr (int n)"
proof -
  have d: "list_all is_digit (show_nat n)" using show_nat_char by (auto simp: list_all_iff)
  then have "sign_of (show_nat n) = (1, show_nat n)"
    using show_nat_not_empty [of n] by (cases "show_nat n") (auto simp: sign_of_def is_digit_def)
  then show ?thesis
    using d show_nat_not_empty [of n] by (simp add: py_int_def strip_digits digit_run_digits nat_of_digits_show_nat)
qed

lemma split_names:
  assumes "subs \<noteq> []" "list_all (\<lambda>s. CHR ''/'' \<notin> set s) subs"
  shows "split_char (CHR ''/'') (join ''/'' subs) = subs"
proof -
  have one: "split_char c s = [s]" if "c \<notin> set s" for c s
    using that by (induction s) auto
  have more: "split_char c (s @ c # t) = s # split_char c t" if "c \<notin> set s" for c s t
    using that by (induction s) auto
  show ?thesis using assms by (induction "''/''" subs rule: join.induct) (simp_all add: one more)
qed

lemma join_set: "set (join ''/'' subs) \<subseteq> {CHR ''/''} \<union> (\<Union>s \<in> set subs. set s)"
  by (induction "''/''" subs rule: join.induct) auto

lemma read_back_parts:
  assumes d: "plain_name d" and subs: "subs \<noteq> []" "list_all plain_name subs" "list_all (\<lambda>s. CHR ''/'' \<notin> set s) subs"
  shows "safe_split (Some (d @ CHR '':'' # join ''/'' subs @ CHR ''#'' # show_nat n)) ''#'' True From_right
      = (Some (d @ CHR '':'' # join ''/'' subs), Some (show_nat n))"
    and "safe_split (Some (d @ CHR '':'' # join ''/'' subs)) '':'' True From_left = (Some d, Some (join ''/'' subs))"
    and "safe_split (Some (spell_dataset h d subs n)) ''::'' False From_left
      = (case h of None \<Rightarrow> None | Some b \<Rightarrow> Some (if b then ''hf'' else ''ms''), Some (d @ CHR '':'' # join ''/'' subs @ CHR ''#'' # show_nat n))"
proof -
  let ?rest = "join ''/'' subs"
  have hash: "CHR ''#'' \<notin> set (show_nat n)" "CHR '':'' \<notin> set (show_nat n)"
    using show_nat_char [of "CHR ''#''" n] show_nat_char [of "CHR '':''" n] by (auto simp: is_digit_def Let_def)
  have colon: "CHR '':'' \<notin> set ?rest"
    using join_set [of subs] subs(2) by (auto simp: list_all_iff plain_name_def)
  have dcolon: "CHR '':'' \<notin> set d" "d \<noteq> []" using d by (simp_all add: plain_name_def)
  have "find_sub (rev ''#'') (rev (d @ CHR '':'' # ?rest @ CHR ''#'' # show_nat n))
      = Some (rev (show_nat n), rev (d @ CHR '':'' # ?rest))"
    using find_sub_char [of "CHR ''#''" "rev (show_nat n)" "rev (d @ CHR '':'' # ?rest)"] hash(1) by simp
  then show "safe_split (Some (d @ CHR '':'' # ?rest @ CHR ''#'' # show_nat n)) ''#'' True From_right
      = (Some (d @ CHR '':'' # ?rest), Some (show_nat n))"
    by (simp add: safe_split_def cut_text_def)
  show "safe_split (Some (d @ CHR '':'' # ?rest)) '':'' True From_left = (Some d, Some ?rest)"
    using find_sub_char [OF dcolon(1)] by (simp add: safe_split_def cut_text_def)
  let ?s = "d @ CHR '':'' # ?rest @ CHR ''#'' # show_nat n"
  show "safe_split (Some (spell_dataset h d subs n)) ''::'' False From_left
      = (case h of None \<Rightarrow> None | Some b \<Rightarrow> Some (if b then ''hf'' else ''ms''), Some ?s)"
  proof (cases h)
    case None
    have "find_sub ''::'' ?s = None" using dcolon(1) colon hash by (intro find_sub_double_None) simp_all
    then show ?thesis using None by (simp add: safe_split_def cut_text_def spell_dataset_def spell_hub_def)
  next
    case (Some b)
    then show ?thesis
      by (cases b) (simp_all add: safe_split_def cut_text_def spell_dataset_def spell_hub_def starts_with_def)
  qed
qed

text \<open>
  C33. A dataset spelled on the command line with hub, id, subsets and sample size is parsed into exactly
  these parts, when no local path has one of the names involved.
\<close>

theorem spelling_is_parsed:
  assumes "\<And>s. \<not> ex s" "plain_name d" "subs \<noteq> []" "list_all plain_name subs" "list_all (\<lambda>s. CHR ''/'' \<notin> set s) subs"
  shows "parse_dataset ex isfile (spell_dataset h d subs n) =
    Inr \<lparr>dx_dataset = d, dx_subsets = subs, dx_sample = Some (int n), dx_use_hf = h, dx_is_path = isfile d\<rparr>"
proof -
  have hub: "hub_of (case h of None \<Rightarrow> None | Some b \<Rightarrow> Some (if b then ''hf'' else ''ms'')) = h"
    by (cases h) (auto simp: hub_of_def lower_def lower_char_def)
  have "map strip subs = subs" using assms(4) by (induction subs) (simp_all add: plain_name_def)
  then have subs: "map strip (split_char (CHR ''/'') (join ''/'' subs)) = subs" using split_names [OF assms(3,5)] by simp
  have "strip d = d" using assms(2) by (simp add: plain_name_def)
  then show ?thesis
    using assms(1) hub subs
    by (simp add: parse_dataset_def path_exists_def read_back_parts [OF assms(2-5)] py_int_show_nat del: split_char.simps)
qed

theorem spelling_is_parsed_witness:
  "parse_dataset (\<lambda>_. False) (\<lambda>_. False) (spell_dataset (Some True) ''org/name'' [''a'', ''b''] 500) =
    Inr \<lparr>dx_dataset = ''org/name'', dx_subsets = [''a'', ''b''], dx_sample = Some (int 500), dx_use_hf = Some True, dx_is_path = False\<rparr>"
  by (rule spelling_is_parsed) (simp_all add: plain_name_def strip_def lstrip_def rstrip_def is_ws_def)

text \<open>\<open>get_raw\<close> forgets the colon, so it spells another dataset.\<close>

lemma raw_spelling_loses_subsets:
  "parse_dataset (\<lambda>_. False) (\<lambda>_. False)
     (get_raw \<lparr>dx_dataset = ''org/name'', dx_subsets = [''en''], dx_sample = None, dx_use_hf = None, dx_is_path = False\<rparr>)
   = Inr \<lparr>dx_dataset = ''org/nameen'', dx_subsets = [], dx_sample = None, dx_use_hf = None, dx_is_path = False\<rparr>"
  by code_simp

text \<open>An explicit \<open>ms::\<close> does not override a default of the Hugging Face hub.\<close>

lemma ms_prefix_overruled: "effective_hub (Some False) True"
  by (simp add: effective_hub_def)

subsection \<open>Sampling\<close>

definition permutes :: "(nat \<Rightarrow> nat list) \<Rightarrow> bool" where
  "permutes perm = (\<forall>n. mset (perm n) = mset [0 ..< n])"

lemma count_list_mset: "count_list xs x = count (mset xs) x"
  by (induction xs) auto

lemma count_upt: "i < n \<Longrightarrow> count_list [0 ..< n] i = 1"
  by (induction n) (auto simp: less_Suc_eq count_list_0_iff)

lemma count_replicate: "count_list (concat (replicate k xs)) i = k * count_list xs i"
  by (induction k) simp_all

lemma permutesD:
  assumes "permutes perm"
  shows "length (perm n) = n" "set (perm n) = {0 ..< n}" "distinct (perm n)"
proof -
  have m: "mset (perm n) = mset [0 ..< n]" using assms by (simp add: permutes_def)
  show "length (perm n) = n" using mset_eq_length [OF m] by simp
  show "set (perm n) = {0 ..< n}" using mset_eq_setD [OF m] by simp
  show "distinct (perm n)" using mset_eq_imp_distinct_iff [OF m] by simp
qed

lemma count_distinct: "distinct xs \<Longrightarrow> count_list xs i \<le> 1"
  by (induction xs) (auto simp: count_list_0_iff)

lemma sample_indices_laws:
  assumes "permutes perm" "0 < n"
  shows "length (sample_indices perm id shuffle False n k) = k"
    and "i < n \<Longrightarrow> k div n \<le> count_list (sample_indices perm id shuffle False n k) i
           \<and> count_list (sample_indices perm id shuffle False n k) i \<le> Suc (k div n)"
    and "set (sample_indices perm id shuffle False n k) \<subseteq> {0 ..< n}"
proof -
  let ?tail = "take (k mod n) (if shuffle then perm n else [0 ..< n])"
  have idx: "sample_indices perm id shuffle False n k = concat (replicate (k div n) [0 ..< n]) @ ?tail"
    by (auto simp: sample_indices_def Let_def)
  have len: "length ?tail = k mod n"
    using permutesD(1) [OF assms(1)] mod_less_divisor [OF assms(2), of k] by auto
  show "length (sample_indices perm id shuffle False n k) = k"
    unfolding idx by (simp add: length_concat sum_list_replicate len del: length_take)
  have "distinct ?tail" using permutesD(3) [OF assms(1)] by simp
  then show "i < n \<Longrightarrow> k div n \<le> count_list (sample_indices perm id shuffle False n k) i
      \<and> count_list (sample_indices perm id shuffle False n k) i \<le> Suc (k div n)"
    using count_distinct [of ?tail i] unfolding idx by (simp add: count_replicate count_upt)
  have "set ?tail \<subseteq> {0 ..< n}"
    using permutesD(2) [OF assms(1), of n] set_take_subset [of "k mod n"] by (cases shuffle) fastforce+
  then show "set (sample_indices perm id shuffle False n k) \<subseteq> {0 ..< n}" unfolding idx by auto
qed

text \<open>
  Sampling \<open>k\<close> of \<open>n\<close> rows gives exactly \<open>k\<close> rows of the dataset, and uses every row evenly: each position
  is drawn \<open>k div n\<close> or one more times, so rows repeat only when there are fewer than asked for.
\<close>

theorem sampling_uses_rows_evenly:
  assumes "permutes perm" "xs \<noteq> []"
  shows "\<exists>idx. sample_dataset perm id shuffle False (Some k) xs = Inr (map ((!) xs) idx) \<and> length idx = k \<and>
    list_all (\<lambda>i. i < length xs) idx \<and>
    list_all (\<lambda>i. k div length xs \<le> count_list idx i \<and> count_list idx i \<le> Suc (k div length xs)) [0 ..< length xs]"
  using sample_indices_laws [OF assms(1), where n = "length xs" and shuffle = shuffle and k = k] assms(2)
  by (intro exI [of _ "sample_indices perm id shuffle False (length xs) k"]) (auto simp: sample_dataset_def list_all_iff)

theorem sampling_uses_rows_evenly_witness:
  "\<exists>idx. sample_dataset (\<lambda>n. rev [0 ..< n]) id True False (Some 5) [''a'', ''b''] = Inr (map ((!) [''a'', ''b'']) idx) \<and> length idx = 5 \<and>
    list_all (\<lambda>i. i < length [''a'', ''b'']) idx \<and>
    list_all (\<lambda>i. 5 div length [''a'', ''b''] \<le> count_list idx i \<and> count_list idx i \<le> Suc (5 div length [''a'', ''b'']))
      [0 ..< length [''a'', ''b'']]"
  by (rule sampling_uses_rows_evenly) (simp_all add: permutes_def)

subsection \<open>Training and validation\<close>

text \<open>What \<open>train_test_split\<close> documents: the rows are divided, with the asked number of test rows.\<close>

definition splits_well :: "(nat \<Rightarrow> 'a list \<Rightarrow> 'a list \<times> 'a list) \<Rightarrow> bool" where
  "splits_well split = (\<forall>v xs. 0 < v \<longrightarrow> v < length xs \<longrightarrow>
     mset (fst (split v xs)) + mset (snd (split v xs)) = mset xs \<and> length (snd (split v xs)) = v)"

definition rows_in :: "'a list option \<Rightarrow> 'a list" where
  "rows_in p = (case p of None \<Rightarrow> [] | Some xs \<Rightarrow> xs)"

lemma sampled_subset:
  assumes "permutes perm" "sample_dataset perm id shuffle False (Some k) xs = Inr ys"
  shows "set ys \<subseteq> set xs" "length ys = k"
proof -
  have "xs \<noteq> []" using assms(2) by (auto simp: sample_dataset_def split: if_splits)
  then obtain idx where "ys = map ((!) xs) idx" "length idx = k" "list_all (\<lambda>i. i < length xs) idx"
    using sample_indices_laws [OF assms(1), where n = "length xs" and shuffle = shuffle and k = k] assms(2)
    by (auto simp: sample_dataset_def list_all_iff subset_iff)
  then show "set ys \<subseteq> set xs" "length ys = k" by (auto simp: list_all_iff)
qed

lemma split_table_apart:
  assumes "permutes perm" "splits_well split" "distinct xs"
    and "split_table perm split shuffle k ratio xs = Inr (train, val)"
  shows "set (rows_in train) \<inter> set (rows_in val) = {}" "set (rows_in train) \<union> set (rows_in val) \<subseteq> set xs"
    "length (rows_in train) + length (rows_in val) = (case k of None \<Rightarrow> length xs | Some n \<Rightarrow> n)"
proof -
  define n where "n = (case k of None \<Rightarrow> length xs | Some n \<Rightarrow> n)"
  define v where "v = max (nat \<lfloor>real (min (length xs) n) * ratio\<rfloor>) 1"
  consider (all) ys where "train = Some ys" "val = None" "sample_dataset perm id shuffle False (Some n) xs = Inr ys"
    | (none) ys where "train = None" "val = Some ys" "sample_dataset perm id shuffle False (Some n) xs = Inr ys"
    | (part) ys where "v < n" "v < length xs" "train = Some ys" "val = Some (snd (split v xs))"
        "sample_dataset perm id shuffle False (Some (n - v)) (fst (split v xs)) = Inr ys"
    using assms(4) unfolding split_table_def Let_def n_def [symmetric] v_def [symmetric]
    by (auto simp: res_bind_eq_Inr_iff case_prod_beta split: if_splits)
  then have "set (rows_in train) \<inter> set (rows_in val) = {} \<and> set (rows_in train) \<union> set (rows_in val) \<subseteq> set xs \<and>
      length (rows_in train) + length (rows_in val) = n"
  proof cases
    case all
    then show ?thesis using sampled_subset [OF assms(1) all(3)] by (simp add: rows_in_def)
  next
    case none
    then show ?thesis using sampled_subset [OF assms(1) none(3)] by (simp add: rows_in_def)
  next
    case part
    have "0 < v" by (simp add: v_def)
    then have s: "mset (fst (split v xs)) + mset (snd (split v xs)) = mset xs" "length (snd (split v xs)) = v"
      using assms(2) part(2) by (auto simp: splits_well_def)
    from s(1) have "mset (fst (split v xs) @ snd (split v xs)) = mset xs" by simp
    then have "distinct (fst (split v xs) @ snd (split v xs))" "set (fst (split v xs) @ snd (split v xs)) = set xs"
      using assms(3) mset_eq_imp_distinct_iff mset_eq_setD by blast+
    then show ?thesis using sampled_subset [OF assms(1) part(5)] part s(2) by (auto simp: rows_in_def)
  qed
  then show "set (rows_in train) \<inter> set (rows_in val) = {}" "set (rows_in train) \<union> set (rows_in val) \<subseteq> set xs"
    "length (rows_in train) + length (rows_in val) = (case k of None \<Rightarrow> length xs | Some n \<Rightarrow> n)"
    by (simp_all add: n_def)
qed

lemma split_streaming_apart:
  assumes "distinct xs" "split_streaming k ratio xs = Inr (train, val)"
  shows "set (rows_in train) \<inter> set (rows_in val) = {}" "set (rows_in train) \<union> set (rows_in val) \<subseteq> set xs"
    "length (rows_in train) + length (rows_in val) = (case k of None \<Rightarrow> length xs | Some n \<Rightarrow> min n (length xs))"
proof -
  consider "k = None" "rows_in train = xs" "rows_in val = []" | "k = None" "rows_in train = []" "rows_in val = xs"
    | n v where "k = Some n" "rows_in train = drop v (take n xs)" "rows_in val = take v (take n xs)"
  proof (cases k)
    case None
    then show ?thesis using assms(2) that(1,2) by (auto simp: split_streaming_def rows_in_def split: if_splits)
  next
    case (Some n)
    then show ?thesis using assms(2) that(3) [of n "nat \<lfloor>real n * ratio\<rfloor>"]
      by (cases "nat \<lfloor>real n * ratio\<rfloor>") (auto simp: split_streaming_def rows_in_def Let_def)
  qed
  then have "set (rows_in train) \<inter> set (rows_in val) = {} \<and> set (rows_in train) \<union> set (rows_in val) \<subseteq> set xs \<and>
      length (rows_in train) + length (rows_in val) = (case k of None \<Rightarrow> length xs | Some n \<Rightarrow> min n (length xs))"
  proof cases
    case (3 n v)
    have "distinct (take v ys @ drop v ys)" if "distinct ys" for ys :: "'a list" using that by (simp only: append_take_drop_id)
    then have "set (drop v (take n xs)) \<inter> set (take v (take n xs)) = {}"
      using distinct_take [OF assms(1), of n] unfolding distinct_append by blast
    moreover have "set (drop v (take n xs)) \<union> set (take v (take n xs)) \<subseteq> set xs"
      by (meson Un_least order_trans set_drop_subset set_take_subset)
    moreover have "length (drop v (take n xs)) + length (take v (take n xs)) = min n (length xs)" by simp
    ultimately show ?thesis using 3 by simp
  qed (simp_all split: option.splits)
  then show "set (rows_in train) \<inter> set (rows_in val) = {}" "set (rows_in train) \<union> set (rows_in val) \<subseteq> set xs"
    "length (rows_in train) + length (rows_in val) = (case k of None \<Rightarrow> length xs | Some n \<Rightarrow> min n (length xs))"
    by simp_all
qed

text \<open>
  C13. Splitting a dataset never leaks: whatever the ratio, the sample size and the mode, no row is both in
  the training and in the validation part, all rows come from the dataset, and together the parts have
  as many rows as were asked for, or as a stream still has.
\<close>

theorem split_never_leaks:
  assumes "permutes perm" "splits_well split" "distinct xs"
    and "post_process perm split streaming shuffle sample ratio xs = Inr (train, val)"
  shows "set (rows_in train) \<inter> set (rows_in val) = {} \<and> set (rows_in train) \<union> set (rows_in val) \<subseteq> set xs \<and>
    length (rows_in train) + length (rows_in val)
      = (case sample of None \<Rightarrow> length xs | Some n \<Rightarrow> if streaming then min (nat n) (length xs) else nat n)"
proof (cases streaming)
  case True
  then have "split_streaming (map_option nat sample) ratio xs = Inr (train, val)"
    using assms(4) by (simp add: post_process_def Let_def split: if_splits)
  from split_streaming_apart [OF assms(3) this] show ?thesis using True by (cases sample) simp_all
next
  case False
  then have "split_table perm split shuffle (map_option nat sample) ratio xs = Inr (train, val)"
    using assms(4) by (simp add: post_process_def Let_def split: if_splits)
  from split_table_apart [OF assms(1-3) this] show ?thesis using False by (cases sample) simp_all
qed

definition first_rows_split :: "nat \<Rightarrow> 'a list \<Rightarrow> 'a list \<times> 'a list" where
  "first_rows_split v xs = (drop v xs, take v xs)"

lemma first_rows_split_well: "splits_well (first_rows_split :: nat \<Rightarrow> 'a list \<Rightarrow> _)"
proof -
  have "mset (drop v xs) + mset (take v xs) = mset xs" for v and xs :: "'a list"
    using mset_append [of "take v xs" "drop v xs"] by (simp add: add.commute)
  then show ?thesis by (simp add: splits_well_def first_rows_split_def)
qed

lemma split_example:
  "post_process (\<lambda>n. rev [0 ..< n]) first_rows_split False True None (1 / 2) [''a'', ''b'', ''c'']
    = Inr (Some [''b'', ''c''], Some [''a''])"
proof -
  have "\<lfloor>(3 :: real) / 2\<rfloor> = 1" by (simp add: floor_eq_iff)
  then show ?thesis
    by (simp add: post_process_def split_table_def sample_dataset_def sample_indices_def first_rows_split_def upt_rec Let_def)
qed

theorem split_never_leaks_witness:
  "set (rows_in (Some [''b'', ''c''])) \<inter> set (rows_in (Some [''a''])) = {} \<and>
    set (rows_in (Some [''b'', ''c''])) \<union> set (rows_in (Some [''a''])) \<subseteq> set [''a'', ''b'', ''c''] \<and>
    length (rows_in (Some [''b'', ''c''])) + length (rows_in (Some [''a'']))
      = (case None of None \<Rightarrow> length [''a'', ''b'', ''c''] | Some n \<Rightarrow> if False then min (nat n) (length [''a'', ''b'', ''c'']) else nat n)"
  by (rule split_never_leaks [OF _ first_rows_split_well _ split_example]) (simp_all add: permutes_def)

subsection \<open>The lazy dataset\<close>

text \<open>The positions that \<open>__getitem__\<close> may try: the asked one, then the random order in a circle.\<close>

fun candidates :: "lazy_data \<Rightarrow> nat \<Rightarrow> nat \<Rightarrow> nat list" where
  "candidates L 0 cand = [cand]"
| "candidates L (Suc left) cand =
     cand # candidates (L\<lparr>lz_next := (lz_next L + 1) mod lz_size L\<rparr>) left (lz_order L ! lz_next L)"

definition first_encoded :: "(nat \<Rightarrow> 'e + 'b) \<Rightarrow> nat list \<Rightarrow> 'e + 'b" where
  "first_encoded enc js = (case dropWhile (\<lambda>j. \<exists>e. enc j = Inl e) js of [] \<Rightarrow> enc (last js) | j # _ \<Rightarrow> enc j)"

lemma first_encoded_Cons:
  "first_encoded enc (i # js) = (case enc i of Inl e \<Rightarrow> if js = [] then Inl e else first_encoded enc js | Inr y \<Rightarrow> Inr y)"
proof (cases "enc i")
  case (Inl e)
  then show ?thesis by (cases "js = []") (simp_all add: first_encoded_def cong: list.case_cong)
qed (simp add: first_encoded_def)

lemma candidates_nonempty [simp]: "candidates L n c \<noteq> []"
  by (cases n) simp_all

lemma fetch_first: "\<not> lz_strict L \<Longrightarrow> fst (fetch enc L left cand) = first_encoded enc (candidates L left cand)"
proof (induction left arbitrary: L cand)
  case 0
  then show ?case by (simp add: first_encoded_def)
next
  case (Suc left)
  then show ?case by (cases "enc cand") (simp_all add: first_encoded_Cons)
qed

lemma fetch_strict: "lz_strict L \<Longrightarrow> fetch enc L left cand = (enc cand, L)"
  by (cases left) (simp_all split: sum.splits)

lemma candidates_in_range:
  assumes "set (lz_order L) \<subseteq> {0 ..< lz_size L}" "length (lz_order L) = lz_size L" "lz_next L < lz_size L" "cand < lz_size L"
  shows "length (candidates L left cand) = Suc left \<and> list_all (\<lambda>i. i < lz_size L) (candidates L left cand) \<and>
    lz_next (snd (fetch enc L left cand)) < lz_size L"
  using assms
proof (induction left arbitrary: L cand)
  case (Suc left)
  let ?L = "L\<lparr>lz_next := (lz_next L + 1) mod lz_size L\<rparr>"
  have "lz_order L ! lz_next L < lz_size L"
    using Suc.prems nth_mem [of "lz_next L" "lz_order L"] by fastforce
  moreover have "(lz_next L + 1) mod lz_size L < lz_size L" using Suc.prems(3) by simp
  ultimately have "length (candidates ?L left (lz_order L ! lz_next L)) = Suc left \<and>
      list_all (\<lambda>i. i < lz_size ?L) (candidates ?L left (lz_order L ! lz_next L)) \<and>
      lz_next (snd (fetch enc ?L left (lz_order L ! lz_next L))) < lz_size ?L"
    using Suc.prems by (intro Suc.IH) simp_all
  then show ?case using Suc.prems by (cases "enc cand") simp_all
qed simp

text \<open>
  Reading a row of the lazy dataset asks for at most \<open>n_try_fetch\<close> rows, all of them in the dataset: the
  result is that of the first one that can be encoded, starting with the row asked for, and the error
  of the last one when none can; in strict mode it is the result of the row itself.
\<close>

theorem lazy_row_is_first_encoded:
  assumes "permutes perm" "lazy_dataset perm n n_try_fetch strict = Inr L" "idx < n" "p < n"
  shows "\<exists>js. fst (get_item enc (L\<lparr>lz_next := p\<rparr>) idx) = first_encoded enc (idx # js) \<and>
    length (idx # js) \<le> (if strict then 1 else min n_try_fetch n) \<and> list_all (\<lambda>i. i < n) (idx # js) \<and>
    lz_next (snd (get_item enc (L\<lparr>lz_next := p\<rparr>) idx)) < n"
proof -
  let ?L = "L\<lparr>lz_next := p\<rparr>"
  have L: "lz_size ?L = n" "lz_tries ?L = (if strict then 1 else min n_try_fetch n)" "lz_strict ?L = strict"
    "lz_order ?L = perm n" "0 < lz_tries ?L"
    using assms(2) by (auto simp: lazy_dataset_def Let_def split: if_splits)
  show ?thesis
  proof (cases strict)
    case True
    then show ?thesis using L assms(3,4)
      by (intro exI [of _ "[]"]) (simp add: get_item_def fetch_strict first_encoded_def)
  next
    case False
    have range: "set (lz_order ?L) \<subseteq> {0 ..< lz_size ?L}" "length (lz_order ?L) = lz_size ?L" "lz_next ?L < lz_size ?L" "idx < lz_size ?L"
      using permutesD [OF assms(1), of n] assms(3,4) L by auto
    obtain js where c: "candidates ?L (lz_tries ?L - 1) idx = idx # js" by (cases "lz_tries ?L - 1") auto
    have "fst (get_item enc ?L idx) = first_encoded enc (idx # js)"
      using fetch_first [of ?L enc "lz_tries ?L - 1" idx] False L(3) c by (simp add: get_item_def)
    moreover have "length (idx # js) = lz_tries ?L"
      using candidates_in_range [OF range, of "lz_tries ?L - 1" enc] L(5) unfolding c by simp
    moreover have "list_all (\<lambda>i. i < n) (idx # js)"
      using candidates_in_range [OF range, of "lz_tries ?L - 1" enc] L(1) unfolding c by simp
    moreover have "lz_next (snd (get_item enc ?L idx)) < n"
      using candidates_in_range [OF range, of "lz_tries ?L - 1" enc] L(1) unfolding get_item_def by simp
    ultimately show ?thesis using L(2) by (intro exI [of _ js]) simp
  qed
qed

theorem lazy_row_is_first_encoded_witness:
  "\<exists>js. fst (get_item (\<lambda>i. if i = 2 then Inr i else Inl i)
        (\<lparr>lz_size = 3, lz_tries = 3, lz_strict = False, lz_order = [2, 1, 0], lz_next = 0\<rparr>\<lparr>lz_next := 1\<rparr>) 1)
      = first_encoded (\<lambda>i. if i = 2 then Inr i else Inl i) (1 # js) \<and>
    length (1 # js) \<le> (if False then 1 else min 10 3) \<and> list_all (\<lambda>i. i < 3) (1 # js) \<and>
    lz_next (snd (get_item (\<lambda>i. if i = 2 then Inr i else Inl i)
        (\<lparr>lz_size = 3, lz_tries = 3, lz_strict = False, lz_order = [2, 1, 0], lz_next = 0\<rparr>\<lparr>lz_next := 1\<rparr>) 1)) < 3"
proof (rule lazy_row_is_first_encoded)
  show "permutes (\<lambda>n. rev [0 ..< n])" by (simp add: permutes_def)
  show "lazy_dataset (\<lambda>n. rev [0 ..< n]) 3 10 False
      = Inr \<lparr>lz_size = 3, lz_tries = 3, lz_strict = False, lz_order = [2, 1, 0], lz_next = 0\<rparr>"
    by (simp add: lazy_dataset_def upt_rec)
qed simp_all

lemma load_attempts_first:
  "load_attempts load i left = first_encoded load [i ..< i + Suc left]"
proof (induction left arbitrary: i)
  case 0
  then show ?case by (simp add: first_encoded_def)
next
  case (Suc left)
  have u: "[i ..< i + Suc (Suc left)] = i # [Suc i ..< Suc i + Suc left]" by (subst upt_conv_Cons) simp_all
  have "[Suc i ..< Suc i + Suc left] \<noteq> []" by simp
  then show ?case unfolding u using Suc.IH [of "Suc i"] by (cases "load i") (simp_all add: first_encoded_Cons del: upt.simps)
qed

end
