(* ===== verification/TemplateRows.thy ===== *)
theory TemplateRows
  imports DataRows PyDumps
begin

text \<open>
  From a dataset row to the inputs of the chat template (\<open>swift/template/template_inputs.py\<close>): media taken
  out of the messages, tool messages as text, the rejected conversation of preference data, positive
  and negative samples.  The text of floats is an argument; messages are dictionaries, and lists of
  messages are lists, otherwise a \<open>TypeError\<close> stands for the exception of the source.
\<close>

subsection \<open>Media in messages\<close>

record media =
  md_images :: "pyval list"
  md_audios :: "pyval list"
  md_videos :: "pyval list"

definition no_media :: media where
  "no_media = \<lparr>md_images = [], md_audios = [], md_videos = []\<rparr>"

definition add_media :: "string \<Rightarrow> pyval \<Rightarrow> media \<Rightarrow> media res" where
  "add_media key v m =
     (if key = ''image'' then Inr (m\<lparr>md_images := md_images m @ [v]\<rparr>)
      else if key = ''audio'' then Inr (m\<lparr>md_audios := md_audios m @ [v]\<rparr>)
      else if key = ''video'' then Inr (m\<lparr>md_videos := md_videos m @ [v]\<rparr>)
      else Inl KeyError)"

definition drop_url :: "string \<Rightarrow> string" where
  "drop_url key = (if ends_with ''_url'' key then take (length key - 4) key else key)"

text \<open>One item of a content list: the text so far and the media so far.\<close>

definition content_item :: "pyval \<Rightarrow> string \<times> media \<Rightarrow> (string \<times> media) res" where
  "content_item item st =
     (let (txt, m) = st in
      res_bind (py_item item ''type'') (\<lambda>key.
      case (key, item) of
        (PStr k, PDict d) \<Rightarrow>
          (let value = pget d k in
           if k = ''text'' then (case value of PStr s \<Rightarrow> Inr (txt @ s, m) | _ \<Rightarrow> Inl TypeError)
           else
             let k' = drop_url k in
             res_bind (case value of PDict e \<Rightarrow> row_item e ''url'' | _ \<Rightarrow> Inr value) (\<lambda>v.
             let txt' = txt @ ''<'' @ k' @ ''>'' in
             if truthy v then res_bind (add_media k' v m) (\<lambda>m'. Inr (txt', m')) else Inr (txt', m)))
      | _ \<Rightarrow> Inl AttributeError))"

fun content_items :: "pyval list \<Rightarrow> string \<times> media \<Rightarrow> (string \<times> media) res" where
  "content_items [] st = Inr st"
| "content_items (item # items) st = res_bind (content_item item st) (content_items items)"

definition is_token_content :: "pyval \<Rightarrow> bool" where
  "is_token_content c =
     (case c of
        PList (v # _) \<Rightarrow> (case v of PInt _ \<Rightarrow> True | PBool _ \<Rightarrow> True | _ \<Rightarrow> False)
      | PDict d \<Rightarrow> has_key d ''token_ids''
      | _ \<Rightarrow> False)"

definition message_media :: "pydict \<Rightarrow> media \<Rightarrow> (pydict \<times> media) res" where
  "message_media msg m =
     res_bind (row_item msg ''content'') (\<lambda>c.
     if is_str c \<or> is_token_content c then Inr (msg, m)
     else case c of
       PDict [] \<Rightarrow> Inr (dset ''content'' (PStr []) msg, m)
     | PList items \<Rightarrow> res_bind (content_items items ([], m)) (\<lambda>(txt, m'). Inr (dset ''content'' (PStr txt) msg, m'))
     | _ \<Rightarrow> Inl TypeError)"

fun remove_messages_media :: "pydict list \<Rightarrow> media \<Rightarrow> (pydict list \<times> media) res" where
  "remove_messages_media [] m = Inr ([], m)"
| "remove_messages_media (msg # msgs) m =
     res_bind (message_media msg m) (\<lambda>(msg', m').
     res_bind (remove_messages_media msgs m') (\<lambda>(msgs', m''). Inr (msg' # msgs', m'')))"

subsection \<open>The inputs of one conversation\<close>

record conv_inputs =
  si_messages :: "pydict list"
  si_system :: pyval
  si_tools :: pyval
  si_label :: pyval
  si_channel :: pyval
  si_images :: "pyval list"
  si_videos :: "pyval list"
  si_audios :: "pyval list"
  si_objects :: pyval
  si_margin :: pyval
  si_extra :: pydict

definition input_fields :: "string list" where
  "input_fields = [''messages'', ''system'', ''tools'', ''label'', ''channel'', ''images'', ''videos'', ''audios'',
     ''objects'', ''margin'', ''mm_processor_kwargs'', ''extra_kwargs'']"

definition std_tool_message :: "(real \<Rightarrow> string) \<Rightarrow> pydict \<Rightarrow> pydict res" where
  "std_tool_message fl msg =
     res_bind (row_item msg ''role'') (\<lambda>role.
     let role' = (if role = PStr ''tool_response'' then PStr ''tool'' else role); msg' = dset ''role'' role' msg in
     if (case role of PList _ \<Rightarrow> True | PDict _ \<Rightarrow> True | _ \<Rightarrow> False) then Inl TypeError
     else if role' = PStr ''tool_call'' \<or> role' = PStr ''tool'' then
       res_bind (row_item msg' ''content'') (\<lambda>c.
       Inr (if is_str c then msg' else dset ''content'' (PStr (json_dumps fl c)) msg'))
     else Inr msg')"

text \<open>The media of the row, used when the messages hold none of the kind.\<close>

definition own_media :: "pyval \<Rightarrow> pyval list res" where
  "own_media v =
     (case v of
        PStr s \<Rightarrow> Inr [PStr s]
      | PList vs \<Rightarrow> Inr vs
      | PDict d \<Rightarrow> Inr (if d = [] then [] else [PDict d])
      | _ \<Rightarrow> if truthy v then Inl AttributeError else Inr [])"

definition pick_media :: "pyval list \<Rightarrow> pyval \<Rightarrow> pyval list res" where
  "pick_media found v =
     res_bind (own_media v) (\<lambda>own. if found = [] then Inr own else if own = [] then Inr found else Inl AssertionError)"

definition split_system :: "pydict list \<Rightarrow> (pyval \<times> pydict list) res" where
  "split_system ms =
     (case ms of
        [] \<Rightarrow> Inr (PNone, [])
      | m # rest \<Rightarrow>
          res_bind (row_item m ''role'') (\<lambda>role.
          if role = PStr ''system'' then res_bind (row_item m ''content'') (\<lambda>c. Inr (c, rest)) else Inr (PNone, ms)))"

definition message_list :: "pyval \<Rightarrow> pydict list res" where
  "message_list v = (case v of PList vs \<Rightarrow> map_res message_dict vs | _ \<Rightarrow> Inl TypeError)"

definition std_from_dict :: "(real \<Rightarrow> string) \<Rightarrow> pydict \<Rightarrow> conv_inputs res" where
  "std_from_dict fl row =
     res_bind (row_item row ''messages'') (\<lambda>v.
     res_bind (message_list v) (\<lambda>ms.
     res_bind (split_system ms) (\<lambda>(system, rest).
     res_bind (map_res (std_tool_message fl) rest) (\<lambda>ms1.
     res_bind (remove_messages_media ms1 no_media) (\<lambda>(ms2, m).
     res_bind (pick_media (md_images m) (pget row ''images'')) (\<lambda>images.
     res_bind (pick_media (md_audios m) (pget row ''audios'')) (\<lambda>audios.
     res_bind (pick_media (md_videos m) (pget row ''videos'')) (\<lambda>videos.
     if has_key row ''rejected_response'' then Inl TypeError
     else Inr \<lparr>si_messages = ms2, si_system = system, si_tools = pget row ''tools'', si_label = pget row ''label'',
               si_channel = pget row ''channel'', si_images = images, si_videos = videos, si_audios = audios,
               si_objects = (if truthy (pget row ''objects'') then pget row ''objects'' else PDict []),
               si_margin = pget row ''margin'',
               si_extra = filter (\<lambda>p. fst p \<notin> set input_fields) row\<rparr>))))))))"

subsection \<open>Preference data\<close>

text \<open>The messages up to the last one of the user.\<close>

definition not_user :: "pydict \<Rightarrow> bool" where
  "not_user m = (pget m ''role'' \<noteq> PStr ''user'')"

definition up_to_last_user :: "pydict list \<Rightarrow> pydict list" where
  "up_to_last_user ms = rev (dropWhile not_user (rev ms))"

definition rejected_messages_of :: "pyval \<Rightarrow> pydict list res" where
  "rejected_messages_of v =
     (case v of
        PStr s \<Rightarrow> Inr [[(''role'', PStr ''assistant''), (''content'', PStr s)]]
      | PList vs \<Rightarrow>
          res_bind (map_res message_dict vs) (\<lambda>ms.
          map_res (\<lambda>m. res_bind (row_item m ''role'') (\<lambda>r. if r = PStr ''user'' then Inl ValueError else Inr m)) ms)
      | _ \<Rightarrow> Inl ValueError)"

definition compat_rejected_response :: "pydict \<Rightarrow> pydict res" where
  "compat_rejected_response row =
     (case dget row ''rejected_response'' of
        None \<Rightarrow> Inr row
      | Some v \<Rightarrow>
          res_bind (row_item row ''messages'') (\<lambda>mv.
          res_bind (message_list mv) (\<lambda>ms.
          if ms = [] then Inl AssertionError
          else
            res_bind (map_res (\<lambda>m. row_item m ''role'') (takeWhile not_user (rev ms))) (\<lambda>_.
            res_bind (rejected_messages_of v) (\<lambda>rs.
            let prompt = up_to_last_user ms; answer = drop (length prompt) ms in
            res_bind (case (answer, rs) of
                ([a], [r]) \<Rightarrow>
                  res_bind (row_item a ''content'') (\<lambda>c.
                  res_bind (row_item r ''content'') (\<lambda>c'. if py_eq c' c then Inl AssertionError else Inr ()))
              | _ \<Rightarrow> Inr ()) (\<lambda>_.
            Inr (dset ''rejected_messages'' (PList (map PDict (prompt @ rs))) (ddel ''rejected_response'' row))))))))"

definition other_prefixes :: "string list" where
  "other_prefixes = [''rejected_'', ''positive_'', ''negative_'']"

definition chosen_part :: "pydict \<Rightarrow> pydict" where
  "chosen_part row = filter (\<lambda>p. list_all (\<lambda>q. \<not> starts_with q (fst p)) other_prefixes) row"

definition prefixed_part :: "string \<Rightarrow> pydict \<Rightarrow> pydict" where
  "prefixed_part q row = map (\<lambda>(k, v). (drop (length q) k, v)) (filter (\<lambda>p. starts_with q (fst p)) row)"

text \<open>Keys of the chosen conversation that the rejected one lacks.\<close>

definition supplement :: "pydict \<Rightarrow> pydict \<Rightarrow> pydict" where
  "supplement chosen rejected =
     fold (\<lambda>(k, v) r. if v \<noteq> PNone \<and> pget r k = PNone then dset k v r else r) chosen rejected"

text \<open>The \<open>i\<close>-th of several samples takes the \<open>i\<close>-th value of every field.\<close>

definition py_index :: "nat \<Rightarrow> pyval \<Rightarrow> pyval res" where
  "py_index i v =
     (case v of
        PList vs \<Rightarrow> if i < length vs then Inr (vs ! i) else Inl IndexError
      | PDict d \<Rightarrow> Inl KeyError
      | _ \<Rightarrow> Inl TypeError)"

definition sample_of :: "pydict \<Rightarrow> nat \<Rightarrow> pydict res" where
  "sample_of part i =
     map_res (\<lambda>k. res_bind (py_index i (pget part k)) (\<lambda>v. Inr (k, v))) (filter (\<lambda>k. pget part k \<noteq> PNone) input_fields)"

definition samples_of :: "(real \<Rightarrow> string) \<Rightarrow> pydict \<Rightarrow> conv_inputs list res" where
  "samples_of fl part =
     (if part = [] then Inr []
      else
        res_bind (row_item part ''messages'') (\<lambda>v.
        case v of
          PList vs \<Rightarrow> map_res (\<lambda>i. res_bind (sample_of part i) (std_from_dict fl)) [0 ..< length vs]
        | _ \<Rightarrow> Inl TypeError))"

record template_inputs =
  ti_chosen :: conv_inputs
  ti_rejected :: "conv_inputs option"
  ti_positive :: "conv_inputs list"
  ti_negative :: "conv_inputs list"

definition from_dict :: "(real \<Rightarrow> string) \<Rightarrow> pydict \<Rightarrow> template_inputs res" where
  "from_dict fl inputs =
     res_bind (compat_rejected_response inputs) (\<lambda>row.
     let chosen = chosen_part row;
         rejected = prefixed_part ''rejected_'' row;
         rejected' = (if pget inputs ''rejected_messages'' = PNone \<and> rejected \<noteq> [] then supplement chosen rejected else rejected)
     in if chosen = [] then Inl (if pget inputs ''rejected_messages'' = PNone \<and> rejected \<noteq> [] then KeyError else TypeError)
        else
          res_bind (std_from_dict fl chosen) (\<lambda>c.
          res_bind (if rejected' = [] then Inr None else res_bind (std_from_dict fl rejected') (\<lambda>r. Inr (Some r))) (\<lambda>r.
          res_bind (samples_of fl (prefixed_part ''positive_'' row)) (\<lambda>ps.
          res_bind (samples_of fl (prefixed_part ''negative_'' row)) (\<lambda>ns.
          Inr \<lparr>ti_chosen = c, ti_rejected = r, ti_positive = ps, ti_negative = ns\<rparr>)))))"

end
