(* ===== verification/DataLaws.thy ===== *)
theory DataLaws
  imports DataRows
begin

text \<open>
  What holds of dataset rows: rows survive being turned into columns, errors of a row stay with the
  row, renaming never merges two columns, and the layouts of a conversation give the same messages.
\<close>

subsection \<open>Dictionaries\<close>

lemma dget_ddel [simp]: "dget (ddel k d) k' = (if k' = k then None else dget d k')"
  by (induction d) (auto simp: ddel_def)

lemma pget_ddel [simp]: "pget (ddel k d) k' = (if k' = k then PNone else pget d k')"
  by (simp add: pget_def dget_or_def)

lemma distinct_ddel: "distinct (map fst d) \<Longrightarrow> distinct (map fst (ddel k d))"
  by (simp add: ddel_def distinct_map_filter)

lemma strip_key_other: "\<not> starts_with p k \<Longrightarrow> strip_key p k d = d"
  by (simp add: strip_key_def)

lemma remove_prefix_none: "list_all (\<lambda>q. \<not> starts_with p (fst q)) d \<Longrightarrow> remove_prefix_keys p d = d"
proof -
  assume "list_all (\<lambda>q. \<not> starts_with p (fst q)) d"
  then have "list_all (\<lambda>k. \<not> starts_with p k) (map fst d)" by (simp add: list_all_iff)
  moreover have "fold (strip_key p) ks e = e" if "list_all (\<lambda>k. \<not> starts_with p k) ks" for ks e
    using that by (induction ks) (simp_all add: strip_key_other)
  ultimately show ?thesis by (simp add: remove_prefix_keys_def)
qed

subsection \<open>Rows as columns\<close>

lemma dget_fold_add_cell:
  assumes "distinct (map fst row)"
  shows "dget (fold (add_cell i) row b) k =
    (case dget row k of None \<Rightarrow> dget b k | Some v \<Rightarrow> Some (dget_or b k (replicate i PNone) @ [v]))"
  using assms
proof (induction row arbitrary: b)
  case (Cons p row)
  then have "dget row (fst p) = None" by (simp add: map_of_eq_None_iff)
  with Cons show ?case by (auto simp: add_cell_def dget_or_def split: option.splits)
qed simp

lemma distinct_fold_add_cell: "distinct (map fst b) \<Longrightarrow> distinct (map fst (fold (add_cell i) row b))"
  by (induction row arbitrary: b) (simp_all add: add_cell_def distinct_dset)

lemma dget_pad_columns: "dget (pad_columns ks b) k = map_option (\<lambda>c. if k \<in> set ks then c else c @ [PNone]) (dget b k)"
  by (induction b) (auto simp: pad_columns_def)

lemma map_fst_pad_columns [simp]: "map fst (pad_columns ks b) = map fst b"
  by (induction b) (auto simp: pad_columns_def)

lemma rows_to_batched_snoc: "rows_to_batched (rows @ [r]) = add_row (length rows, r) (rows_to_batched rows)"
  by (simp add: rows_to_batched_def)

text \<open>A batch has a column for every key of some row, with the values of all rows.\<close>

definition keyed :: "pydict list \<Rightarrow> string \<Rightarrow> bool" where
  "keyed rows k = list_ex (\<lambda>r. dget r k \<noteq> None) rows"

lemma distinct_rows_to_batched: "distinct (map fst (rows_to_batched rows))"
  by (induction rows rule: rev_induct)
    (simp_all add: rows_to_batched_snoc add_row_def distinct_fold_add_cell, simp add: rows_to_batched_def)

lemma not_keyed: "\<not> keyed rows k \<Longrightarrow> r \<in> set rows \<Longrightarrow> pget r k = PNone"
  by (auto simp: keyed_def list_ex_iff pget_def dget_or_def)

lemma dget_rows_to_batched:
  assumes "list_all (\<lambda>r. distinct (map fst r)) rows"
  shows "dget (rows_to_batched rows) k = (if keyed rows k then Some (map (\<lambda>r. pget r k) rows) else None)"
  using assms
proof (induction rows rule: rev_induct)
  case Nil
  show ?case by (simp add: rows_to_batched_def keyed_def)
next
  case (snoc r rows)
  then have d: "distinct (map fst r)"
    and IH: "dget (rows_to_batched rows) k = (if keyed rows k then Some (map (\<lambda>r. pget r k) rows) else None)"
    by simp_all
  have none: "map (\<lambda>r. pget r k) rows = replicate (length rows) PNone" if "\<not> keyed rows k"
    using not_keyed [OF that] by (simp add: list_eq_iff_nth_eq)
  show ?case
  proof (cases "dget r k")
    case None
    then have "k \<notin> fst ` set r" by (simp add: map_of_eq_None_iff)
    then show ?thesis using None IH
      by (simp add: rows_to_batched_snoc add_row_def dget_pad_columns dget_fold_add_cell [OF d] keyed_def pget_def dget_or_def)
  next
    case (Some v)
    then have "k \<in> fst ` set r" by (metis map_of_eq_None_iff option.distinct(1))
    then show ?thesis using Some IH none
      by (auto simp: rows_to_batched_snoc add_row_def dget_pad_columns dget_fold_add_cell [OF d] keyed_def pget_def dget_or_def)
  qed
qed

text \<open>Two rows with the same values: a missing key stands for \<open>None\<close>.\<close>

definition same_row :: "pydict \<Rightarrow> pydict \<Rightarrow> bool" where
  "same_row r s = (\<forall>k. pget r k = pget s k)"

lemma map_res_pure: "map_res (\<lambda>x. Inr (f x)) xs = Inr (map f xs)"
  by (induction xs) simp_all

lemma map_res_cong: "(\<And>x. x \<in> set xs \<Longrightarrow> f x = g x) \<Longrightarrow> map_res f xs = map_res g xs"
  by (induction xs) simp_all

lemma batched_to_rows_even:
  assumes "b \<noteq> []" "list_all (\<lambda>p. length (snd p) = n) b"
  shows "batched_to_rows b = Inr (map (\<lambda>i. map (\<lambda>(k, c). (k, c ! i)) b) [0 ..< n])"
proof -
  obtain k c rest where b: "b = (k, c) # rest" using assms(1) by (cases b) auto
  have "map_res (\<lambda>(k, c). if i < length c then Inr (k, c ! i) else Inl IndexError) b = Inr (map (\<lambda>(k, c). (k, c ! i)) b)"
    if "i < n" for i
  proof -
    have "map_res (\<lambda>(k, c). if i < length c then Inr (k, c ! i) else Inl IndexError) b
        = map_res (\<lambda>p. Inr ((\<lambda>(k, c). (k, c ! i)) p)) b"
      using assms(2) that by (intro map_res_cong) (auto simp: list_all_iff)
    then show ?thesis by (simp only: map_res_pure)
  qed
  then have "map_res (\<lambda>i. map_res (\<lambda>(k, c). if i < length c then Inr (k, c ! i) else Inl IndexError) b) [0 ..< n]
      = map_res (\<lambda>i. Inr (map (\<lambda>(k, c). (k, c ! i)) b)) [0 ..< n]"
    by (intro map_res_cong) simp
  moreover have "length c = n" using assms(2) b by simp
  ultimately show ?thesis unfolding batched_to_rows_def
    by (subst (1) b) (simp add: map_res_pure)
qed

lemma pget_map_cell: "pget (map (\<lambda>(k, c). (k, c ! i)) b) k = (case dget b k of None \<Rightarrow> PNone | Some c \<Rightarrow> c ! i)"
  by (induction b) (auto simp: pget_def dget_or_def)

lemma batch_lengths:
  assumes "list_all (\<lambda>r. distinct (map fst r)) rows"
  shows "list_all (\<lambda>p. length (snd p) = length rows) (rows_to_batched rows)"
proof -
  have "length c = length rows" if "(k, c) \<in> set (rows_to_batched rows)" for k c
  proof -
    have "dget (rows_to_batched rows) k = Some c"
      using that distinct_rows_to_batched [of rows] by simp
    then show ?thesis using dget_rows_to_batched [OF assms, of k] by (auto split: if_splits)
  qed
  then show ?thesis by (auto simp: list_all_iff)
qed

lemma rows_to_batched_Nil: 
  assumes "list_all (\<lambda>r. distinct (map fst r)) rows"
  shows "rows_to_batched rows = [] \<longleftrightarrow> list_all (\<lambda>r. r = []) rows"
proof -
  have "rows_to_batched rows = [] \<longleftrightarrow> (\<forall>k. dget (rows_to_batched rows) k = None)"
    by (cases "rows_to_batched rows") auto
  also have "\<dots> \<longleftrightarrow> (\<forall>k. \<not> keyed rows k)" using dget_rows_to_batched [OF assms] by auto
  also have "\<dots> \<longleftrightarrow> list_all (\<lambda>r. r = []) rows"
  proof -
    have "(\<forall>k. dget r k = None) \<longleftrightarrow> r = []" for r :: pydict by (cases r) auto
    then show ?thesis by (auto simp: keyed_def list_all_iff list_ex_iff)
  qed
  finally show ?thesis .
qed

lemma rows_of_batch:
  assumes "list_all (\<lambda>r. distinct (map fst r)) rows" "\<not> list_all (\<lambda>r. r = []) rows"
  obtains rows' where "batched_to_rows (rows_to_batched rows) = Inr rows'" "list_all2 same_row rows' rows"
    "list_all (\<lambda>r. map fst r = map fst (rows_to_batched rows)) rows'"
proof
  let ?b = "rows_to_batched rows"
  let ?rows = "map (\<lambda>i. map (\<lambda>(k, c). (k, c ! i)) ?b) [0 ..< length rows]"
  show "batched_to_rows ?b = Inr ?rows"
    using assms rows_to_batched_Nil [OF assms(1)] by (intro batched_to_rows_even batch_lengths) auto
  have "same_row (map (\<lambda>(k, c). (k, c ! i)) ?b) (rows ! i)" if "i < length rows" for i
  proof -
    have "pget (rows ! i) k = PNone" if "\<not> keyed rows k" for k
      using not_keyed [OF that] \<open>i < length rows\<close> by simp
    then show ?thesis
      unfolding same_row_def pget_map_cell dget_rows_to_batched [OF assms(1)] using that by simp
  qed
  then show "list_all2 same_row ?rows rows" by (simp add: list_all2_conv_all_nth)
  show "list_all (\<lambda>r. map fst r = map fst ?b) ?rows" by (simp add: list_all_iff comp_def case_prod_beta)
qed

subsection \<open>Errors stay with their row\<close>

text \<open>What a row gives when its errors are caught.\<close>

definition good_rows :: "(pydict \<Rightarrow> row_exn + row_out) \<Rightarrow> pydict \<Rightarrow> pydict list" where
  "good_rows f row = (case process_row f row of Inl _ \<Rightarrow> [] | Inr ds \<Rightarrow> ds)"

definition tidy :: "pydict \<Rightarrow> bool" where
  "tidy d = (d \<noteq> [] \<and> distinct (map fst d) \<and> list_all (\<lambda>p. \<not> starts_with ''__#'' (fst p)) d)"

definition within_limit :: "prep \<Rightarrow> nat \<Rightarrow> bool" where
  "within_limit P n = (case pr_traceback_limit P of None \<Rightarrow> n = 0 | Some l \<Rightarrow> n \<le> l)"

lemma count_error_within: "within_limit P n \<Longrightarrow> within_limit P (count_error P e n)"
  by (auto simp: within_limit_def count_error_def split: option.splits)

lemma process_rows_caught:
  assumes "\<not> pr_strict P" "within_limit P n"
  shows "\<exists>n'. process_rows P f rows n = Inr (concat (map (good_rows f) rows), n') \<and> within_limit P n'"
  using assms(2)
proof (induction rows arbitrary: n)
  case (Cons row rows)
  show ?case
  proof (cases "process_row f row")
    case (Inl e)
    then show ?thesis using Cons.IH [OF count_error_within [OF Cons.prems, of e]] assms(1) by (simp add: good_rows_def)
  next
    case (Inr ds)
    then show ?thesis using Cons.IH [OF Cons.prems] by (auto simp: good_rows_def)
  qed
qed simp

text \<open>In strict mode the first row with an error decides.\<close>

lemma process_rows_strict:
  assumes "pr_strict P" "process_row f row = Inl e" "list_all (\<lambda>r. \<exists>ds. process_row f r = Inr ds) before"
  shows "process_rows P f (before @ row # after) n = Inl e"
  using assms(3) by (induction before arbitrary: n) (auto simp: assms(1,2))

lemma table_batch_rows:
  assumes "features \<noteq> []" "list_all (\<lambda>r. length r = length features) rows"
  shows "batched_to_rows (table_batch features rows) = Inr (map (zip features) rows)"
proof -
  have "batched_to_rows (table_batch features rows) =
      Inr (map (\<lambda>i. map (\<lambda>(k, c). (k, c ! i)) (table_batch features rows)) [0 ..< length rows])"
    using assms(1) by (intro batched_to_rows_even) (auto simp: table_batch_def list_all_iff)
  also have "map (\<lambda>i. map (\<lambda>(k, c). (k, c ! i)) (table_batch features rows)) [0 ..< length rows] = map (zip features) rows"
  proof (rule nth_equalityI)
    fix i
    assume "i < length (map (\<lambda>i. map (\<lambda>(k, c). (k, c ! i)) (table_batch features rows)) [0 ..< length rows])"
    then have i: "i < length rows" by simp
    then have "length (rows ! i) = length features" using assms(2) by (simp add: list_all_length)
    then have "map (\<lambda>j. (features ! j, rows ! i ! j)) [0 ..< length features] = zip features (rows ! i)"
      by (intro nth_equalityI) simp_all
    then show "map (\<lambda>i. map (\<lambda>(k, c). (k, c ! i)) (table_batch features rows)) [0 ..< length rows] ! i = map (zip features) rows ! i"
      using i by (simp add: table_batch_def comp_def)
  qed simp
  finally show ?thesis .
qed

lemma tidy_rows:
  assumes "list_all tidy ds"
  shows "\<exists>rows. batched_to_rows (finish_batch (rows_to_batched ds)) = Inr rows \<and> list_all2 same_row rows ds"
proof (cases "ds = []")
  case True
  then show ?thesis
    by (auto simp: rows_to_batched_def finish_batch_def remove_prefix_keys_def batched_to_rows_def)
next
  case False
  have d: "list_all (\<lambda>r. distinct (map fst r)) ds" "\<not> list_all (\<lambda>r. r = []) ds"
    using assms False by (auto simp: tidy_def list_all_iff)
  have "\<not> starts_with ''__#'' k" if "(k, c) \<in> set (rows_to_batched ds)" for k c
  proof -
    have "dget (rows_to_batched ds) k = Some c" using that distinct_rows_to_batched [of ds] by simp
    then have "keyed ds k" using dget_rows_to_batched [OF d(1), of k] by (auto split: if_splits)
    then obtain r v where "r \<in> set ds" "(k, v) \<in> set r" by (auto simp: keyed_def list_ex_iff dest: map_of_SomeD)
    then show ?thesis using assms by (force simp: tidy_def list_all_iff)
  qed
  then have "remove_prefix_keys ''__#'' (rows_to_batched ds) = rows_to_batched ds"
    by (intro remove_prefix_none) (auto simp: list_all_iff)
  moreover have "rows_to_batched ds \<noteq> []" using rows_to_batched_Nil [OF d(1)] d(2) by simp
  ultimately have "finish_batch (rows_to_batched ds) = rows_to_batched ds" by (simp add: finish_batch_def)
  then show ?thesis using rows_of_batch [OF d] by metis
qed

lemma batch_caught:
  assumes "\<not> pr_strict P" "within_limit P n" "features \<noteq> []"
    and "list_all (\<lambda>k. \<not> starts_with ''__@'' k) features" "list_all (\<lambda>r. length r = length features) rows"
    and "list_all (\<lambda>r. list_all tidy (good_rows f (zip features r))) rows"
  shows "\<exists>b n' got. batched_preprocess P f (table_batch features rows) n = Inr (b, n') \<and> within_limit P n' \<and>
    batched_to_rows b = Inr got \<and> list_all2 same_row got (concat (map (\<lambda>r. good_rows f (zip features r)) rows))"
proof -
  let ?b = "table_batch features rows" and ?ds = "concat (map (\<lambda>r. good_rows f (zip features r)) rows)"
  have "remove_prefix_keys ''__@'' ?b = ?b"
    using assms(4) by (intro remove_prefix_none) (auto simp: table_batch_def list_all_iff)
  moreover have "?b \<noteq> []" using assms(3) by (simp add: table_batch_def)
  moreover obtain n' where "process_rows P f (map (zip features) rows) n = Inr (?ds, n')" "within_limit P n'"
    using process_rows_caught [OF assms(1,2), of f "map (zip features) rows"] by (auto simp: comp_def)
  moreover have "list_all tidy ?ds" using assms(6) by (auto simp: list_all_iff)
  then obtain got where "batched_to_rows (finish_batch (rows_to_batched ?ds)) = Inr got" "list_all2 same_row got ?ds"
    using tidy_rows by blast
  ultimately show ?thesis
    unfolding batched_preprocess_def using table_batch_rows [OF assms(3,5)] by simp
qed

lemma batches_caught:
  assumes "\<not> pr_strict P" "within_limit P n" "features \<noteq> []"
    and "list_all (\<lambda>k. \<not> starts_with ''__@'' k) features" "list_all (list_all (\<lambda>r. length r = length features)) parts"
    and "list_all (list_all (\<lambda>r. list_all tidy (good_rows f (zip features r)))) parts"
  shows "\<exists>outs n' gots. map_batches P f (map (table_batch features) parts) n = Inr (outs, n') \<and> within_limit P n' \<and>
    map_res batched_to_rows outs = Inr gots \<and>
    list_all2 same_row (concat gots) (concat (map (\<lambda>r. good_rows f (zip features r)) (concat parts)))"
  using assms(2,5,6)
proof (induction parts arbitrary: n)
  case (Cons part parts)
  obtain b n1 got where b: "batched_preprocess P f (table_batch features part) n = Inr (b, n1)" "within_limit P n1"
      "batched_to_rows b = Inr got" "list_all2 same_row got (concat (map (\<lambda>r. good_rows f (zip features r)) part))"
    using batch_caught [OF assms(1) Cons.prems(1) assms(3,4), of part f] Cons.prems(2,3) by auto
  obtain outs n2 gots where o: "map_batches P f (map (table_batch features) parts) n1 = Inr (outs, n2)" "within_limit P n2"
      "map_res batched_to_rows outs = Inr gots"
      "list_all2 same_row (concat gots) (concat (map (\<lambda>r. good_rows f (zip features r)) (concat parts)))"
    using Cons.IH [OF b(2)] Cons.prems(2,3) by auto
  show ?case using b o
    by (intro exI [of _ "b # outs"] exI [of _ n2] exI [of _ "got # gots"]) (simp add: list_all2_appendI)
qed simp

text \<open>
  C12. Preprocessing a dataset without \<open>strict\<close> always ends, whatever the preprocessor raises: the batches
  it returns hold, in order, exactly the rows of the inputs without errors, so an error costs its own
  row alone and the batch size makes no difference; no more errors are reported than the limit allows.
  The rows have the same columns, at least one and none of a reserved name (\<open>__@\<close>), and the rows the
  preprocessor returns are \<open>tidy\<close>: not empty, without repeated keys or reserved names (\<open>__#\<close>).
\<close>

theorem errors_cost_own_row:
  assumes "\<not> pr_strict P" "0 < batch_size" "features \<noteq> []" "list_all (\<lambda>k. \<not> starts_with ''__@'' k) features"
    and "list_all (\<lambda>r. length r = length features) rows"
    and "list_all (\<lambda>r. list_all tidy (good_rows f (zip features r))) rows"
  shows "\<exists>outs n gots. map_dataset P f batch_size features rows = Inr (outs, n) \<and> within_limit P n \<and>
    map_res batched_to_rows outs = Inr gots \<and>
    list_all2 same_row (concat gots) (concat (map (\<lambda>r. good_rows f (zip features r)) rows))"
proof -
  have parts: "list_all (list_all Q) (chunks batch_size rows)" if "list_all Q rows" for Q
    using that concat_chunks [OF assms(2), of rows] by (metis list_all_iff set_concat UN_I)
  have "within_limit P 0" by (simp add: within_limit_def split: option.splits)
  from batches_caught [OF assms(1) this assms(3,4) parts [OF assms(5)] parts [OF assms(6)]]
  show ?thesis unfolding map_dataset_def concat_chunks [OF assms(2)] .
qed

definition qa_rows :: "pyval list list" where
  "qa_rows = [[PStr ''where'', PStr ''here'', PNone], [PStr ''who'', PStr ''me'', PInt 5]]"

definition qa_preprocess :: "pydict \<Rightarrow> row_exn + row_out" where
  "qa_preprocess row = row_result (response_preprocess (\<lambda>s. Inl ValueError) None row)"

definition qa_settings :: prep where
  "qa_settings = \<lparr>pr_strict = False, pr_ignore_max_length = True, pr_traceback_limit = Some 10\<rparr>"

lemma qa_good:
  "good_rows qa_preprocess (zip [''query'', ''response'', ''history''] [PStr ''where'', PStr ''here'', PNone])
    = [[(''messages'', PList [row_message ''user'' (PStr ''where''), row_message ''assistant'' (PStr ''here'')])]]"
  "good_rows qa_preprocess (zip [''query'', ''response'', ''history''] [PStr ''who'', PStr ''me'', PInt 5]) = []"
  by code_simp+

theorem errors_cost_own_row_witness:
  "\<exists>outs n gots. map_dataset qa_settings qa_preprocess 2 [''query'', ''response'', ''history''] qa_rows = Inr (outs, n) \<and>
    within_limit qa_settings n \<and> map_res batched_to_rows outs = Inr gots \<and>
    list_all2 same_row (concat gots)
      (concat (map (\<lambda>r. good_rows qa_preprocess (zip [''query'', ''response'', ''history''] r)) qa_rows))"
proof (rule errors_cost_own_row)
  show "list_all (\<lambda>r. list_all tidy (good_rows qa_preprocess (zip [''query'', ''response'', ''history''] r))) qa_rows"
    by (simp add: qa_rows_def qa_good [simplified] tidy_def starts_with_def)
qed (simp_all add: qa_settings_def qa_rows_def starts_with_def)

subsection \<open>Layouts of a conversation\<close>

definition auto_conversation :: conversation where
  "auto_conversation = conversation_of None None None None ''system'' None"

text \<open>A turn as a pair of ShareGPT, as two tagged_turn messages, and in a history.\<close>

definition paired :: "string \<times> string \<Rightarrow> pyval" where
  "paired t = PDict [(''human'', PStr (fst t)), (''gpt'', PStr (snd t))]"

definition tagged_turn :: "string \<times> string \<Rightarrow> pyval list" where
  "tagged_turn t = [PDict [(''from'', PStr ''human''), (''value'', PStr (fst t))], PDict [(''from'', PStr ''gpt''), (''value'', PStr (snd t))]]"

definition turn_of :: "string \<times> string \<Rightarrow> pyval" where
  "turn_of t = PList [PStr (fst t), PStr (snd t)]"

definition std_turn :: "string \<times> string \<Rightarrow> pydict list" where
  "std_turn t = [[(''role'', PStr ''user''), (''content'', PStr (fst t))], [(''role'', PStr ''assistant''), (''content'', PStr (snd t))]]"

lemmas conversation_simps = auto_conversation_def conversation_of_def Let_def

lemma map_res_append: "map_res f (xs @ ys) = res_bind (map_res f xs) (\<lambda>a. res_bind (map_res f ys) (\<lambda>b. Inr (a @ b)))"
  by (induction xs) (auto simp: res_bind_def split: sum.splits)

lemma map_res_concat_map: "(\<And>t. map_res f (g t) = Inr (h t)) \<Longrightarrow> map_res f (concat (map g ts)) = Inr (concat (map h ts))"
  by (induction ts) (simp_all add: map_res_append)

lemma history_turns: "history_messages (map turn_of ts) system = Inr (map PDict (system_first system (concat (map std_turn ts))))"
proof -
  have "map_res turn_messages (map turn_of ts) = Inr (map (map PDict \<circ> std_turn) ts)"
    by (induction ts) (simp_all add: turn_of_def turn_messages_def std_turn_def row_message_def)
  then show ?thesis by (simp add: history_messages_def system_first_def row_message_def map_concat comp_def)
qed

lemma std_key_simps:
  "to_std_key ''content'' [''content'', ''value''] (to_std_key ''role'' [''role'', ''from''] [(''human'', u), (''gpt'', v)]) = [(''human'', u), (''gpt'', v)]"
  "to_std_key ''content'' [''content'', ''value''] (to_std_key ''role'' [''role'', ''from''] [(''from'', u), (''value'', v)]) = [(''role'', u), (''content'', v)]"
  by (simp_all add: to_std_key_def std_key_def ddel_def)

lemma sharegpt_turns:
  "map_res (sharegpt_turn auto_conversation) (map (\<lambda>t. [(''human'', PStr (fst t)), (''gpt'', PStr (snd t))]) ts) = Inr (map std_turn ts)"
  by (induction ts)
    (simp_all add: sharegpt_turn_def conversation_simps to_std_key_def std_key_def ddel_def row_item_def std_turn_def)

definition std_keys :: "conversation \<Rightarrow> pydict \<Rightarrow> pydict" where
  "std_keys C m = to_std_key ''content'' (cv_content_keys C) (to_std_key ''role'' (cv_role_keys C) m)"

lemma std_messages_dicts:
  assumes "ms \<noteq> []" "cv_inner_key C = None"
  shows "std_messages le C (PList (map PDict ms)) system =
    res_bind (if is_sharegpt_format (std_keys C (hd ms)) then sharegpt_to_messages C (map (std_keys C) ms) system
              else to_std_messages C (map (std_keys C) ms) system) (\<lambda>out. Inr (Some out))"
proof -
  have "map_res message_dict (map PDict ms) = Inr ms" by (induction ms) (simp_all add: message_dict_def)
  then show ?thesis using assms by (simp add: std_messages_def std_keys_def [abs_def] hd_map)
qed

lemma auto_keys:
  "std_keys auto_conversation [(''human'', u), (''gpt'', v)] = [(''human'', u), (''gpt'', v)]"
  "std_keys auto_conversation [(''from'', u), (''value'', v)] = [(''role'', u), (''content'', v)]"
  "cv_inner_key auto_conversation = None" "cv_system_role auto_conversation = ''system''"
  by (simp_all add: std_keys_def conversation_simps std_key_simps)

lemma paired_messages:
  assumes "ts \<noteq> []"
  shows "std_messages le auto_conversation (PList (map paired ts)) system = Inr (Some (system_first system (concat (map std_turn ts))))"
proof -
  let ?f = "\<lambda>t. [(''human'', PStr (fst t)), (''gpt'', PStr (snd t))]"
  have "map paired ts = map PDict (map ?f ts)" by (simp add: paired_def)
  moreover have "is_sharegpt_format (?f (hd ts))" by (simp add: is_sharegpt_format_def has_key_def)
  moreover have "map (std_keys auto_conversation) (map ?f ts) = map ?f ts" by (simp add: auto_keys)
  ultimately show ?thesis
    using assms std_messages_dicts [of "map ?f ts" auto_conversation le system]
    by (simp only: auto_keys list.map_disc_iff hd_map if_True sharegpt_to_messages_def sharegpt_turns res_bind_Inr simp_thms)
qed

lemma tagged_messages:
  assumes "ts \<noteq> []"
  shows "std_messages le auto_conversation (PList (concat (map tagged_turn ts))) system =
    Inr (Some (system_first system (concat (map std_turn ts))))"
proof -
  let ?f = "\<lambda>t. [[(''from'', PStr ''human''), (''value'', PStr (fst t))], [(''from'', PStr ''gpt''), (''value'', PStr (snd t))]]"
  let ?g = "\<lambda>t. [[(''role'', PStr ''human''), (''content'', PStr (fst t))], [(''role'', PStr ''gpt''), (''content'', PStr (snd t))]]"
  let ?role = "\<lambda>m. res_bind (row_item m ''role'') (\<lambda>r. res_bind (std_role auto_conversation r) (\<lambda>r'. Inr (dset ''role'' r' m)))"
  obtain t ts' where ts: "ts = t # ts'" using assms by (cases ts) auto
  have tagged_turn: "concat (map tagged_turn ts) = map PDict (concat (map ?f ts))" by (induction ts) (simp_all add: tagged_turn_def)
  have keys: "map (std_keys auto_conversation) (concat (map ?f ts)) = concat (map ?g ts)"
    by (induction ts) (simp_all add: auto_keys)
  have "map_res ?role (?g t) = Inr (std_turn t)" for t
    by (simp add: row_item_def std_role_def conversation_simps std_turn_def)
  then have roles: "map_res ?role (concat (map ?g ts)) = Inr (concat (map std_turn ts))" by (rule map_res_concat_map)
  have sys: "?role [(''role'', PStr ''system''), (''content'', system)] = Inr [(''role'', PStr ''system''), (''content'', system)]"
    by (simp add: row_item_def std_role_def conversation_simps tool_call_roles_def tool_response_roles_def replace_char_def)
  have "to_std_messages auto_conversation (concat (map ?g ts)) system = map_res ?role (system_first system (concat (map ?g ts)))"
    unfolding to_std_messages_def ts by (simp add: row_item_def auto_keys)
  also have "\<dots> = Inr (system_first system (concat (map std_turn ts)))"
    using roles sys by (simp add: system_first_def)
  finally have "to_std_messages auto_conversation (concat (map ?g ts)) system = Inr (system_first system (concat (map std_turn ts)))" .
  moreover have "\<not> is_sharegpt_format (std_keys auto_conversation (hd (concat (map ?f ts))))"
    unfolding ts by (simp add: auto_keys is_sharegpt_format_def has_key_def)
  moreover have "concat (map ?f ts) \<noteq> []" unfolding ts by simp
  ultimately show ?thesis
    unfolding tagged_turn using std_messages_dicts [of "concat (map ?f ts)" auto_conversation le system] keys
    by (simp only: auto_keys if_False res_bind_Inr simp_thms)
qed

text \<open>
  C34. The three layouts of a conversation that \<open>AutoPreprocessor\<close> accepts mean the same: a row with query,
  response and history, a ShareGPT list of pairs, and a list of messages with other names for keys and
  roles give the same messages, with the system prompt first.
\<close>

theorem layouts_agree:
  "\<exists>ms. response_preprocess le None
          [(''query'', PStr q), (''response'', PStr a), (''history'', PList (map turn_of ts)), (''system'', system)]
        = Inr [(''messages'', PList (map PDict ms))] \<and>
    messages_preprocess le auto_conversation [(''messages'', PList (map paired (ts @ [(q, a)]))), (''system'', system)]
        = Inr (Some [(''messages'', PList (map PDict ms))]) \<and>
    messages_preprocess le auto_conversation [(''messages'', PList (concat (map tagged_turn (ts @ [(q, a)])))), (''system'', system)]
        = Inr (Some [(''messages'', PList (map PDict ms))])"
proof (intro exI conjI)
  let ?all = "ts @ [(q, a)]"
  let ?ms = "system_first system (concat (map std_turn ?all))"
  have "map turn_of ts @ [PList [PStr q, PStr a]] = map turn_of ?all" by (simp add: turn_of_def)
  moreover have "history_of le (PList (map turn_of ts)) = Inr (PList (map turn_of ts))"
    by (simp add: history_of_def Let_def)
  ultimately show "response_preprocess le None
      [(''query'', PStr q), (''response'', PStr a), (''history'', PList (map turn_of ts)), (''system'', system)]
      = Inr [(''messages'', PList (map PDict ?ms))]"
    using history_turns [of ?all system] by (simp add: response_preprocess_def ddel_def one_response_def)
  show "messages_preprocess le auto_conversation [(''messages'', PList (map paired ?all)), (''system'', system)]
      = Inr (Some [(''messages'', PList (map PDict ?ms))])"
    using paired_messages [of ?all le system] by (simp add: messages_preprocess_def row_item_def ddel_def)
  show "messages_preprocess le auto_conversation [(''messages'', PList (concat (map tagged_turn ?all))), (''system'', system)]
      = Inr (Some [(''messages'', PList (map PDict ?ms))])"
    using tagged_messages [of ?all le system] by (simp add: messages_preprocess_def row_item_def ddel_def)
qed

subsection \<open>Renamed columns\<close>

definition plain_columns :: "(string, string) dict \<Rightarrow> bool" where
  "plain_columns cols = (distinct (map fst cols) \<and> list_all (\<lambda>(k, v). lower k = k \<and> dget cols v = Some v) cols)"

lemma dget_lower_table:
  assumes "distinct (map lower features)"
  shows "dget (lower_table features) l = Some f \<longleftrightarrow> f \<in> set features \<and> lower f = l"
proof -
  have "dget (fold (\<lambda>k d. dset (lower k) k d) ks d) l = Some f \<longleftrightarrow>
      (f \<in> set ks \<and> lower f = l) \<or> (l \<notin> lower ` set ks \<and> dget d l = Some f)"
    if "distinct (map lower ks)" for ks d
    using that by (induction ks arbitrary: d) auto
  from this [OF assms, of "[]"] show ?thesis by (simp add: lower_table_def)
qed

lemma dget_matched_columns:
  assumes "distinct (map lower features)" "distinct (map fst cols)" "list_all (\<lambda>p. lower (fst p) = fst p) cols" "f \<in> set features"
  shows "dget (matched_columns features cols) f = dget cols (lower f)"
proof -
  let ?step = "\<lambda>(k, v) d. case dget (lower_table features) (lower k) of None \<Rightarrow> d | Some f \<Rightarrow> dset f v d"
  note table = dget_lower_table [OF assms(1)]
  have "dget (fold ?step cs d) f = (case dget cs (lower f) of None \<Rightarrow> dget d f | Some v \<Rightarrow> Some v)"
    if "distinct (map fst cs)" "list_all (\<lambda>p. lower (fst p) = fst p) cs" for cs d
    using that
  proof (induction cs arbitrary: d)
    case (Cons p cs)
    obtain k v where p: "p = (k, v)" by (cases p)
    have k: "lower k = k" "k \<notin> fst ` set cs" using Cons.prems p by simp_all
    have IH: "dget (fold ?step cs d') f = (case dget cs (lower f) of None \<Rightarrow> dget d' f | Some v \<Rightarrow> Some v)" for d'
      using Cons by simp
    show ?case
    proof (cases "dget (lower_table features) k")
      case None
      then have "lower f \<noteq> k" using table [of k f] assms(4) by auto
      then show ?thesis using None IH k(1) by (simp add: p)
    next
      case (Some f')
      then have f': "f' \<in> set features" "lower f' = k" using table by blast+
      show ?thesis
      proof (cases "f' = f")
        case True
        then have "dget cs (lower f) = None" using k(2) f'(2) by (simp add: map_of_eq_None_iff)
        then show ?thesis using Some IH k(1) f'(2) True by (simp add: p)
      next
        case False
        then have "lower f \<noteq> k" using table [of k f] Some assms(4) by auto
        then show ?thesis using Some IH k(1) False by (simp add: p split: option.splits)
      qed
    qed
  qed simp
  from this [OF assms(2,3), of "[]"] show ?thesis by (simp add: matched_columns_def split: option.splits)
qed

lemma distinct_matched_columns: "distinct (map fst (matched_columns features cols))"
proof -
  have "distinct (map fst (fold (\<lambda>(k, v) d. case dget (lower_table features) (lower k) of None \<Rightarrow> d | Some f \<Rightarrow> dset f v d) cs d))"
    if "distinct (map fst d)" for cs :: "(string, string) dict" and d :: "(string, string) dict"
    using that by (induction cs arbitrary: d) (auto simp: distinct_dset split: option.splits)
  from this [of "[]" cols] show ?thesis by (simp add: matched_columns_def)
qed

lemma count_two:
  assumes "dget m a = Some v" "dget m b = Some v" "a \<noteq> b"
  shows "2 \<le> count_list (map snd m) v"
proof -
  have "{(a, v), (b, v)} \<subseteq> set (filter (\<lambda>p. v = snd p) m)" using assms(1,2) by (auto dest: map_of_SomeD)
  then have "card {(a, v), (b, v)} \<le> length (filter (\<lambda>p. v = snd p) m)"
    by (meson List.finite_set card_length card_mono order_trans)
  then show ?thesis using assms(3) by (simp add: count_list_eq_length_filter filter_map comp_def)
qed

lemma dget_filter: "distinct (map fst m) \<Longrightarrow> dget (filter P m) k = (case dget m k of None \<Rightarrow> None | Some v \<Rightarrow> if P (k, v) then Some v else None)"
  by (induction m) (auto simp: map_of_eq_None_iff image_iff split: option.splits)

lemma renamed_distinct:
  assumes "distinct (map lower features)" "plain_columns cols"
  shows "distinct (safe_rename_columns features cols)"
proof -
  let ?m = "matched_columns features cols" and ?s = "safe_columns features cols"
  have c: "distinct (map fst cols)" "list_all (\<lambda>p. lower (fst p) = fst p) cols"
    using assms(2) by (auto simp: plain_columns_def list_all_iff)
  note matched = dget_matched_columns [OF assms(1) c]
  have safe: "dget ?s f = Some v \<longleftrightarrow> dget ?m f = Some v \<and> count_list (map snd ?m) v \<le> 1 \<and> f \<noteq> v" for f v
    by (auto simp: safe_columns_def Let_def dget_filter [OF distinct_matched_columns] split: option.splits)
  have clash: False if "f \<in> set features" "w \<in> set features" "f \<noteq> w" "dget ?s f = Some v"
      "dget ?s w = Some v \<or> w = v" for f w v
  proof -
    have f: "dget ?m f = Some v" "count_list (map snd ?m) v \<le> 1" using that(4) safe by blast+
    have "dget ?m w = Some v"
    proof (cases "w = v")
      case True
      have "(lower f, v) \<in> set cols" using matched [OF that(1)] f(1) by (simp add: map_of_SomeD)
      then have "dget cols v = Some v" using assms(2) by (auto simp: plain_columns_def list_all_iff)
      moreover then have "lower v = v" using c(2) map_of_SomeD [of cols v v] by (force simp: list_all_iff)
      ultimately show ?thesis using matched [OF that(2)] True by simp
    next
      case False
      then show ?thesis using that(5) safe by blast
    qed
    then show False using count_two [OF f(1) _ that(3)] f(2) by fastforce
  qed
  have "inj_on (\<lambda>f. dget_or ?s f f) (set features)"
  proof (rule inj_onI)
    fix f w
    assume fw: "f \<in> set features" "w \<in> set features" "dget_or ?s f f = dget_or ?s w w"
    show "f = w"
    proof (rule ccontr)
      assume "f \<noteq> w"
      with fw clash [of f w] clash [of w f] show False
        by (cases "dget ?s f"; cases "dget ?s w") (auto simp: dget_or_def)
    qed
  qed
  moreover have "distinct features" using assms(1) by (simp add: distinct_map)
  ultimately show ?thesis by (simp add: safe_rename_columns_def distinct_map)
qed

lemma default_columns_plain: "plain_columns (response_columns [])" "plain_columns (messages_columns ''system'' [])"
  by code_simp+

text \<open>
  When the columns of a dataset differ by more than case, renaming them with the default names of
  the preprocessors keeps them apart: no two columns get the same name, so no data is lost.
\<close>

theorem renaming_keeps_columns_apart:
  assumes "distinct (map lower features)"
  shows "distinct (safe_rename_columns features (response_columns [])) \<and>
    distinct (safe_rename_columns features (messages_columns ''system'' []))"
  using renamed_distinct [OF assms] default_columns_plain by simp

theorem renaming_keeps_columns_apart_witness:
  "distinct (safe_rename_columns [''Question'', ''answer'', ''image''] (response_columns [])) \<and>
    distinct (safe_rename_columns [''Question'', ''answer'', ''image''] (messages_columns ''system'' []))"
  by (rule renaming_keeps_columns_apart) (simp add: lower_def lower_char_def)

text \<open>Columns that differ only in case are renamed to the same name.\<close>

lemma case_columns_collide:
  "safe_rename_columns [''query'', ''Query'', ''response''] (response_columns []) = [''query'', ''query'', ''response'']"
  by code_simp

text \<open>A conversation whose rejected messages are missing is dropped, although the column only fills it with \<open>None\<close>.\<close>

lemma missing_rejected_drops_row:
  "messages_preprocess le auto_conversation
     [(''messages'', PList (tagged_turn (q, a))), (''rejected_messages'', PNone)] = Inl TypeError"
  by (simp add: messages_preprocess_def std_messages_def conversation_simps)

text \<open>Objects without boxes are an error.\<close>

lemma objects_need_boxes: "check_objects [(''objects'', PDict [(''ref'', PList [PStr ''cat''])])] = Inl KeyError"
  by (simp add: check_objects_def object_keys_def map_filter_simps)

text \<open>A box that was checked has its smaller coordinates first, and checking it again changes nothing.\<close>

lemma order_pair_idem: "order_pair a b = Inr (x, y) \<Longrightarrow> order_pair x y = Inr (x, y)"
  by (auto simp: order_pair_def less_num_def split: option.splits if_splits)

lemma check_box_idem:
  assumes "check_box box = Inr box'"
  shows "check_box box' = Inr box'"
proof -
  obtain vs where box: "box = PList vs" using assms by (cases box) (simp_all add: check_box_def)
  have "length vs = 2 \<or> length vs = 4"
    using assms unfolding box check_box_def by (auto split: list.splits)
  then consider x y where "vs = [x, y]" | a b c d where "vs = [a, b, c, d]"
    by (auto simp: numeral_eq_Suc length_Suc_conv)
  then show ?thesis
  proof cases
    case 1
    then show ?thesis using assms box by (auto simp: check_box_def)
  next
    case (2 a b c d)
    then obtain a' c' b' d' where "order_pair a c = Inr (a', c')" "order_pair b d = Inr (b', d')" "box' = PList [a', b', c', d']"
      using assms unfolding box check_box_def by (auto simp: res_bind_eq_Inr_iff)
    then show ?thesis using order_pair_idem [of a c a' c'] order_pair_idem [of b d b' d'] by (simp add: check_box_def)
  qed
qed

end
