(* ===== verification/TemplateLaws.thy ===== *)
theory TemplateLaws
  imports TemplateRows DataLaws
begin

text \<open>
  Laws of the template inputs: the rejected conversation of preference data continues the same prompt as
  the chosen one, and the media of a message keep their order.
\<close>

subsection \<open>Parts of a row\<close>

lemma starts_with_drop: "starts_with p k \<Longrightarrow> k = p @ drop (length p) k"
  by (rule starts_withD)

lemma filter_dset: "\<not> P k \<Longrightarrow> filter (\<lambda>p. P (fst p)) (dset k v d) = filter (\<lambda>p. P (fst p)) d"
  by (induction d) auto

lemma filter_ddel: "\<not> P k \<Longrightarrow> filter (\<lambda>p. P (fst p)) (ddel k d) = filter (\<lambda>p. P (fst p)) d"
  by (induction d) (auto simp: ddel_def)

lemma dset_fresh_end: "dget d k = None \<Longrightarrow> dset k v d = d @ [(k, v)]"
  by (induction d) (auto split: if_splits)

lemma dget_filter_key: "P k \<Longrightarrow> dget (filter (\<lambda>p. P (fst p)) d) k = dget d k"
  by (induction d) auto

lemma pget_supplement:
  assumes "distinct (map fst c)"
  shows "pget (supplement c r) k = (if pget r k = PNone then pget c k else pget r k)"
  using assms
proof (induction c arbitrary: r)
  case Nil
  then show ?case by (simp add: supplement_def)
next
  case (Cons p c)
  obtain j v where p: "p = (j, v)" by (cases p)
  let ?r = "if v \<noteq> PNone \<and> pget r j = PNone then dset j v r else r"
  have "dget c j = None" using Cons.prems p by (simp add: map_of_eq_None_iff)
  then have "pget c j = PNone" by (simp add: pget_def dget_or_def)
  moreover have "supplement (p # c) r = supplement c ?r" by (simp add: supplement_def p)
  moreover have "pget (supplement c ?r) k = (if pget ?r k = PNone then pget c k else pget ?r k)"
    using Cons.prems by (intro Cons.IH) simp
  ultimately show ?case by (cases "k = j") (auto simp: p)
qed

lemma row_item_pget: "row_item d k = Inr v \<Longrightarrow> pget d k = v"
  by (simp add: row_item_def pget_def dget_or_def split: option.splits)

subsection \<open>Messages of a conversation\<close>

lemma remove_media_append:
  "remove_messages_media (xs @ ys) m =
    res_bind (remove_messages_media xs m) (\<lambda>(xs', m1).
    res_bind (remove_messages_media ys m1) (\<lambda>(ys', m2). Inr (xs' @ ys', m2)))"
proof (induction xs arbitrary: m)
  case Nil
  show ?case by (cases "remove_messages_media ys m") auto
next
  case (Cons x xs)
  show ?case
  proof (cases "message_media x m")
    case (Inr p)
    obtain x' m' where p: "p = (x', m')" by (cases p)
    show ?thesis
      by (cases "remove_messages_media xs m'") (auto simp: Cons.IH Inr p res_bind_def split: sum.splits)
  qed simp
qed

lemma message_media_role: "message_media x m = Inr (x', m') \<Longrightarrow> pget x' ''role'' = pget x ''role''"
  by (auto simp: message_media_def res_bind_eq_Inr_iff split: if_splits pyval.splits list.splits)

lemma remove_media_roles:
  "remove_messages_media xs m = Inr (xs', m') \<Longrightarrow> map (\<lambda>x. pget x ''role'') xs' = map (\<lambda>x. pget x ''role'') xs"
  by (induction xs arbitrary: m xs' m') (auto simp: res_bind_eq_Inr_iff dest: message_media_role)

lemma std_tool_not_user: "std_tool_message fl x = Inr x' \<Longrightarrow> not_user x \<Longrightarrow> not_user x'"
  by (auto simp: std_tool_message_def res_bind_eq_Inr_iff not_user_def Let_def dest: row_item_pget split: if_splits)

lemma std_tools_not_user: "map_res (std_tool_message fl) xs = Inr xs' \<Longrightarrow> list_all not_user xs \<Longrightarrow> list_all not_user xs'"
  by (induction xs arbitrary: xs') (auto simp: res_bind_eq_Inr_iff dest: std_tool_not_user)

lemma not_user_roles:
  assumes "map (\<lambda>x. pget x ''role'') xs' = map (\<lambda>x. pget x ''role'') xs"
  shows "list_all not_user xs' = list_all not_user xs"
proof -
  have "list_all not_user ys = list_all (\<lambda>r. r \<noteq> PStr ''user'') (map (\<lambda>x. pget x ''role'') ys)" for ys
    by (simp add: list_all_iff not_user_def)
  then show ?thesis using assms by simp
qed

lemma split_system_append:
  "p \<noteq> [] \<Longrightarrow> split_system (p @ a) = res_bind (split_system p) (\<lambda>(s, q). Inr (s, q @ a))"
  by (cases p) (auto simp: split_system_def res_bind_def split: sum.splits)

lemma std_from_dict_parts:
  assumes "std_from_dict fl row = Inr c"
  obtains ms q ms1 m where "message_list (pget row ''messages'') = Inr ms" "split_system ms = Inr (si_system c, q)"
    "map_res (std_tool_message fl) q = Inr ms1" "remove_messages_media ms1 no_media = Inr (si_messages c, m)"
    "si_tools c = pget row ''tools''" "si_label c = pget row ''label''" "si_channel c = pget row ''channel''"
    "si_margin c = pget row ''margin''"
    "si_objects c = (if truthy (pget row ''objects'') then pget row ''objects'' else PDict [])"
  using assms by (auto simp: std_from_dict_def res_bind_eq_Inr_iff split: if_splits dest!: row_item_pget)

text \<open>Two conversations that continue the same prompt.\<close>

definition same_prompt :: "conv_inputs \<Rightarrow> conv_inputs \<Rightarrow> bool" where
  "same_prompt c r = (\<exists>p a b. si_messages c = p @ a \<and> si_messages r = p @ b \<and> list_all not_user a \<and> list_all not_user b)"

lemma map_res_dicts: "map_res message_dict (map PDict ms) = Inr ms"
  by (induction ms) (simp_all add: message_dict_def)

lemma shared_prompt:
  assumes c: "std_from_dict fl row = Inr c" "message_list (pget row ''messages'') = Inr (p @ a)"
    and r: "std_from_dict fl row' = Inr r" "pget row' ''messages'' = PList (map PDict (p @ b))"
    and p: "p \<noteq> []" and "list_all not_user a" "list_all not_user b"
  shows "si_system r = si_system c \<and> same_prompt c r"
proof -
  obtain qc mc m1 where C: "split_system (p @ a) = Inr (si_system c, qc)"
      "map_res (std_tool_message fl) qc = Inr mc" "remove_messages_media mc no_media = Inr (si_messages c, m1)"
    using std_from_dict_parts [OF c(1)] c(2) by (metis sum.inject(2))
  have "message_list (pget row' ''messages'') = Inr (p @ b)"
    unfolding r(2) message_list_def pyval.case by (rule map_res_dicts)
  then obtain qr mr m2 where R: "split_system (p @ b) = Inr (si_system r, qr)"
      "map_res (std_tool_message fl) qr = Inr mr" "remove_messages_media mr no_media = Inr (si_messages r, m2)"
    using std_from_dict_parts [OF r(1)] by (metis sum.inject(2))
  obtain s q where q: "split_system p = Inr (s, q)" "si_system c = s" "qc = q @ a" "si_system r = s" "qr = q @ b"
    using C(1) R(1) unfolding split_system_append [OF p] by (auto simp: res_bind_eq_Inr_iff)
  obtain q1 a1 b1 where t: "map_res (std_tool_message fl) q = Inr q1" "map_res (std_tool_message fl) a = Inr a1" "mc = q1 @ a1"
      "map_res (std_tool_message fl) b = Inr b1" "mr = q1 @ b1"
    using C(2) R(2) unfolding q(3,5) map_res_append by (auto simp: res_bind_eq_Inr_iff)
  obtain q2 m a2 b2 where u: "remove_messages_media q1 no_media = Inr (q2, m)" "remove_messages_media a1 m = Inr (a2, m1)"
      "si_messages c = q2 @ a2" "remove_messages_media b1 m = Inr (b2, m2)" "si_messages r = q2 @ b2"
    using C(3) R(3) unfolding t(3,5) remove_media_append by (auto simp: res_bind_eq_Inr_iff)
  have "list_all not_user a2" "list_all not_user b2"
    using not_user_roles [OF remove_media_roles [OF u(2)]] not_user_roles [OF remove_media_roles [OF u(4)]]
      std_tools_not_user [OF t(2) assms(6)] std_tools_not_user [OF t(4) assms(7)] by simp_all
  then show ?thesis using q(2,4) u(3,5) unfolding same_prompt_def by blast
qed

lemma rejected_not_user: "rejected_messages_of v = Inr rs \<Longrightarrow> list_all not_user rs"
proof -
  have *: "list_all not_user ys"
    if "map_res (\<lambda>m. res_bind (row_item m ''role'') (\<lambda>r. if r = PStr ''user'' then Inl ValueError else Inr m)) xs = Inr ys" for xs ys
    using that by (induction xs arbitrary: ys) (auto simp: res_bind_eq_Inr_iff not_user_def dest: row_item_pget split: if_splits)
  assume "rejected_messages_of v = Inr rs"
  then show ?thesis
    by (auto simp: rejected_messages_of_def not_user_def res_bind_eq_Inr_iff split: pyval.splits dest: *)
qed

lemma after_last_user: "up_to_last_user ms @ rev (takeWhile not_user (rev ms)) = ms"
  unfolding up_to_last_user_def by (metis rev_append rev_rev_ident takeWhile_dropWhile_id)

lemma take_until_not_user: "list_all not_user (rev (takeWhile not_user (rev ms)))"
  by (auto simp: list_all_iff dest: set_takeWhileD)

text \<open>The two conversations that \<open>from_dict\<close> reads out of a row with a rejected response.\<close>

definition rejected_dict :: "pydict list \<Rightarrow> pydict list \<Rightarrow> pydict \<Rightarrow> pydict" where
  "rejected_dict ms rs row = supplement (chosen_part row) [(''messages'', PList (map PDict (up_to_last_user ms @ rs)))]"

lemma rejected_dict_get:
  "distinct (map fst row) \<Longrightarrow> pget (rejected_dict ms rs row) k =
    (if k = ''messages'' then PList (map PDict (up_to_last_user ms @ rs)) else pget (chosen_part row) k)"
  by (simp add: rejected_dict_def pget_supplement chosen_part_def distinct_map_filter)

lemma chosen_part_get:
  assumes "list_all (\<lambda>q. \<not> starts_with q k) other_prefixes"
  shows "pget (chosen_part row) k = pget row k"
  using dget_filter_key [of "\<lambda>k. list_all (\<lambda>q. \<not> starts_with q k) other_prefixes", OF assms, of row]
  by (simp add: chosen_part_def pget_def dget_or_def)

lemma rejected_conversations:
  assumes "from_dict fl row = Inr t" "distinct (map fst row)" "dget row ''rejected_response'' = Some v"
    and "list_all (\<lambda>p. starts_with ''rejected_'' (fst p) \<longrightarrow> fst p = ''rejected_response'') row"
  obtains ms rs r where "message_list (pget row ''messages'') = Inr ms" "rejected_messages_of v = Inr rs"
    "std_from_dict fl (chosen_part row) = Inr (ti_chosen t)" "std_from_dict fl (rejected_dict ms rs row) = Inr r" "ti_rejected t = Some r"
proof -
  let ?Q = "\<lambda>k. starts_with ''rejected_'' k"
  obtain row' where row': "compat_rejected_response row = Inr row'" using assms(1) by (auto simp: from_dict_def res_bind_eq_Inr_iff)
  then obtain ms rs where ms: "message_list (pget row ''messages'') = Inr ms" "rejected_messages_of v = Inr rs"
      "row' = dset ''rejected_messages'' (PList (map PDict (up_to_last_user ms @ rs))) (ddel ''rejected_response'' row)"
    using assms(3) unfolding compat_rejected_response_def
    by (auto simp: res_bind_eq_Inr_iff Let_def split: if_splits dest!: row_item_pget)
  let ?M = "PList (map PDict (up_to_last_user ms @ rs))"
  have chosen: "chosen_part row' = chosen_part row"
    unfolding chosen_part_def ms(3)
    by (subst filter_dset, simp add: other_prefixes_def starts_with_def, subst filter_ddel,
        simp add: other_prefixes_def starts_with_def, rule refl)
  have none: "filter (\<lambda>p. ?Q (fst p)) (ddel ''rejected_response'' row) = []"
    using assms(4) by (auto simp: ddel_def filter_empty_conv list_all_iff)
  have "?Q ''rejected_messages''" by (simp add: starts_with_def)
  from dget_filter_key [of ?Q, OF this, of "ddel ''rejected_response'' row"]
  have absent: "dget (ddel ''rejected_response'' row) ''rejected_messages'' = None" unfolding none by simp
  then have rejected: "prefixed_part ''rejected_'' row' = [(''messages'', ?M)]"
    unfolding prefixed_part_def ms(3) dset_fresh_end [OF absent] filter_append none by (simp add: starts_with_def)
  have full: "rejected_dict ms rs row \<noteq> []"
    using rejected_dict_get [OF assms(2), of ms rs "''messages''"] by (metis pget_Nil pyval.distinct(9))
  have "pget row ''rejected_messages'' = PNone"
    using absent by (simp add: pget_def dget_or_def)
  then obtain r where "std_from_dict fl (chosen_part row) = Inr (ti_chosen t)"
      "std_from_dict fl (rejected_dict ms rs row) = Inr r" "ti_rejected t = Some r"
    using assms(1) unfolding from_dict_def row' res_bind_Inr Let_def chosen rejected
    using full by (auto simp: rejected_dict_def res_bind_eq_Inr_iff split: if_splits)
  then show ?thesis using that ms(1,2) by blast
qed

text \<open>
  C21. A row with a rejected response becomes two conversations over one prompt: the rejected conversation
  has the system prompt, the tools, the objects and all messages of the chosen one up to the last one of the
  user, and after that neither has a message of the user.
\<close>

theorem rejected_continues_prompt:
  assumes "from_dict fl row = Inr t" "distinct (map fst row)" "has_key row ''rejected_response''"
    and "list_all (\<lambda>p. starts_with ''rejected_'' (fst p) \<longrightarrow> fst p = ''rejected_response'') row"
    and "list_ex (\<lambda>m. pget m ''role'' = PStr ''user'') (projr (message_list (pget row ''messages'')))"
  shows "\<exists>r. ti_rejected t = Some r \<and> si_system r = si_system (ti_chosen t) \<and> same_prompt (ti_chosen t) r \<and>
    si_tools r = si_tools (ti_chosen t) \<and> si_objects r = si_objects (ti_chosen t)"
proof -
  obtain v where "dget row ''rejected_response'' = Some v" using assms(3) by (auto simp: has_key_def)
  then obtain ms rs r where ms: "message_list (pget row ''messages'') = Inr ms" "rejected_messages_of v = Inr rs"
      "std_from_dict fl (chosen_part row) = Inr (ti_chosen t)" "std_from_dict fl (rejected_dict ms rs row) = Inr r" "ti_rejected t = Some r"
    using rejected_conversations [OF assms(1,2) _ assms(4)] by metis
  note get = rejected_dict_get [OF assms(2)]
  have "up_to_last_user ms \<noteq> []"
    using assms(5) ms(1) by (auto simp: up_to_last_user_def not_user_def list_ex_iff)
  moreover have "message_list (pget (chosen_part row) ''messages'') = Inr (up_to_last_user ms @ rev (takeWhile not_user (rev ms)))"
    using ms(1) chosen_part_get [of "''messages''" row] by (simp add: after_last_user other_prefixes_def starts_with_def)
  moreover have "pget (rejected_dict ms rs row) ''messages'' = PList (map PDict (up_to_last_user ms @ rs))" by (simp add: get)
  ultimately have "si_system r = si_system (ti_chosen t) \<and> same_prompt (ti_chosen t) r"
    using shared_prompt [OF ms(3) _ ms(4) _ _ take_until_not_user rejected_not_user [OF ms(2)]] by blast
  moreover have "si_tools r = si_tools (ti_chosen t)" "si_objects r = si_objects (ti_chosen t)"
  proof -
    obtain "si_tools r = pget (rejected_dict ms rs row) ''tools''"
        "si_objects r = (let v = pget (rejected_dict ms rs row) ''objects'' in if truthy v then v else PDict [])"
      using std_from_dict_parts [OF ms(4)] unfolding Let_def by metis
    moreover obtain "si_tools (ti_chosen t) = pget (chosen_part row) ''tools''"
        "si_objects (ti_chosen t) = (let v = pget (chosen_part row) ''objects'' in if truthy v then v else PDict [])"
      using std_from_dict_parts [OF ms(3)] unfolding Let_def by metis
    ultimately show "si_tools r = si_tools (ti_chosen t)" "si_objects r = si_objects (ti_chosen t)" by (simp_all add: get)
  qed
  ultimately show ?thesis using ms(5) by blast
qed

definition preference_row :: pydict where
  "preference_row =
     [(''messages'', PList [PDict [(''role'', PStr ''user''), (''content'', PStr ''hi'')],
                            PDict [(''role'', PStr ''assistant''), (''content'', PStr ''good'')]]),
      (''rejected_response'', PStr ''bad'')]"

lemma preference_row_accepted: "\<exists>t. from_dict (\<lambda>_. []) preference_row = Inr t"
proof -
  have "\<not> isl (from_dict (\<lambda>_. []) preference_row)" by code_simp
  then show ?thesis by (cases "from_dict (\<lambda>_. []) preference_row") simp_all
qed

theorem rejected_continues_prompt_witness:
  "\<exists>t. from_dict (\<lambda>_. []) preference_row = Inr t \<and> (\<exists>r. ti_rejected t = Some r \<and> si_system r = si_system (ti_chosen t) \<and> same_prompt (ti_chosen t) r \<and>
    si_tools r = si_tools (ti_chosen t) \<and> si_objects r = si_objects (ti_chosen t))"
proof -
  obtain t where t: "from_dict (\<lambda>_. []) preference_row = Inr t" using preference_row_accepted by blast
  have "\<exists>r. ti_rejected t = Some r \<and> si_system r = si_system (ti_chosen t) \<and> same_prompt (ti_chosen t) r \<and>
      si_tools r = si_tools (ti_chosen t) \<and> si_objects r = si_objects (ti_chosen t)"
    by (rule rejected_continues_prompt [OF t])
      (simp_all add: preference_row_def has_key_def starts_with_def row_item_def message_list_def message_dict_def)
  with t show ?thesis by (intro exI [of _ t] conjI)
qed

end
