(* ===== verification/MultiTurn.thy ===== *)
theory MultiTurn
  imports GrpoRollout PyPath
begin

text \<open>
  Rollouts of several turns for \<open>GRPOTrainer\<close> (\<open>swift/rollout\<close>): the scheduler that runs one request on
  the rollout server (\<open>MultiTurnScheduler.run\<close>), the loop of the trainer that runs a batch turn by turn
  (\<open>_colocate_multi_turn_infer\<close>), the schedulers that give tips, and the environments.  The inference
  engine, the tokenizer, the accuracy function and the environments are arguments; the engine sees
  the number of the turn and the request.  The content of an answer that is continued is a text.
\<close>

subsection \<open>Loops\<close>

text \<open>\<open>while True\<close> around a step that raises, returns, or goes on: \<open>None\<close> when the loop never ends.\<close>

partial_function (option) repeat_turns :: "('s \<Rightarrow> ('o + 's) res) \<Rightarrow> 's \<Rightarrow> 'o res option" where
  [code]: "repeat_turns f s =
     (case f s of
        Inl e \<Rightarrow> Some (Inl e)
      | Inr (Inl x) \<Rightarrow> Some (Inr x)
      | Inr (Inr t) \<Rightarrow> repeat_turns f t)"

subsection \<open>Requests and replies\<close>

record reply =
  re_id :: string
  re_content :: string
  re_finish :: "string option"
  re_ids :: "int list option"
  re_logprobs :: "(string, real list) dict option"

record rollout_request =
  rq_messages :: "message list"
  rq_data :: pydict
  rq_uuid :: string

text \<open>What \<open>step\<close> returns, with the keys it may leave out.\<close>

record turn_result =
  tr_request :: rollout_request
  tr_ids :: "int list option"
  tr_mask :: "int list option"
  tr_infos :: "pydict option"
  tr_logprobs :: "real list option"

text \<open>\<open>check_finished\<close>, \<open>step\<close> and \<open>max_turns\<close> of a scheduler.\<close>

record turn_scheduler =
  sc_check :: "rollout_request \<Rightarrow> reply \<Rightarrow> nat \<Rightarrow> bool res"
  sc_step :: "rollout_request \<Rightarrow> reply \<Rightarrow> nat \<Rightarrow> turn_result res"
  sc_max_turns :: "nat option"

record tally =
  ta_infos :: pydict
  ta_ids :: "int list list"
  ta_mask :: "int list list"
  ta_logprobs :: "real list list"

definition no_tally :: tally where
  "no_tally = \<lparr>ta_infos = [], ta_ids = [], ta_mask = [], ta_logprobs = []\<rparr>"

record rollout_out =
  ou_reply :: reply
  ou_messages :: "message list"
  ou_ids :: "int list list"
  ou_mask :: "int list list"
  ou_infos :: pydict
  ou_logprobs :: "real list list"

definition extract_logprobs :: "reply \<Rightarrow> real list" where
  "extract_logprobs ch = (case re_logprobs ch of None \<Rightarrow> [] | Some d \<Rightarrow> dget_or d ''content'' [])"

definition limit_reached :: "nat option \<Rightarrow> nat \<Rightarrow> bool" where
  "limit_reached limit n = (case limit of None \<Rightarrow> False | Some k \<Rightarrow> 0 < k \<and> k \<le> n)"

definition base_check :: "nat option \<Rightarrow> reply \<Rightarrow> nat \<Rightarrow> bool" where
  "base_check limit ch n = (re_finish ch = Some ''length'' \<or> limit_reached limit n)"

definition single_run :: "(rollout_request \<Rightarrow> reply res) \<Rightarrow> rollout_request \<Rightarrow> rollout_out res" where
  "single_run E rq =
     res_bind (E rq) (\<lambda>ch.
     case re_ids ch of
       None \<Rightarrow> Inl TypeError
     | Some ids \<Rightarrow>
         Inr \<lparr>ou_reply = ch, ou_messages = rq_messages rq, ou_ids = [ids], ou_mask = [replicate (length ids) 1],
              ou_infos = [(''num_turns'', PInt 1)], ou_logprobs = []\<rparr>)"

text \<open>\<open>async_infer\<close>: the outputs of all requests in one list; \<open>n\<close> is the number of answers per request.\<close>

datatype 'o run_result = One_output 'o | Many_outputs "'o list"

definition outputs_of :: "'o run_result \<Rightarrow> 'o list" where
  "outputs_of r = (case r of One_output x \<Rightarrow> [x] | Many_outputs xs \<Rightarrow> xs)"

definition async_infer :: "('r \<Rightarrow> 'o run_result res) \<Rightarrow> nat \<Rightarrow> 'r list \<Rightarrow> 'o list res" where
  "async_infer run n rqs =
     (if n \<noteq> 1 then Inl AssertionError
      else res_bind (map_res run rqs) (\<lambda>rs. Inr (concat (map outputs_of rs))))"

subsection \<open>Messages of a turn\<close>

definition is_answer :: "message \<Rightarrow> bool" where
  "is_answer m = (m_role m = ''assistant'')"

definition falsy_content :: "content \<Rightarrow> bool" where
  "falsy_content c = (case c of CNone \<Rightarrow> True | COne x \<Rightarrow> x = CText [] \<or> x = CIds [] | CMany xs \<Rightarrow> xs = [])"

text \<open>The answer joins a closing message of the assistant, or becomes one.\<close>

definition add_completion :: "string \<Rightarrow> message list \<Rightarrow> (message list \<times> bool) res" where
  "add_completion s ms =
     (if ms = [] then Inl IndexError
      else if is_answer (last ms) then
        (case m_content (last ms) of
           COne (CText t) \<Rightarrow> Inr (butlast ms @ [(last ms)\<lparr>m_content := COne (CText (t @ s))\<rparr>], True)
         | _ \<Rightarrow> Inl TypeError)
      else Inr (ms @ [msg ''assistant'' (COne (CText s))], False))"

text \<open>The dummy answer that lets the engine continue, and its removal.\<close>

definition add_dummy :: "rollout_request \<Rightarrow> rollout_request res" where
  "add_dummy rq =
     (if rq_messages rq = [] then Inl IndexError
      else Inr (if is_answer (last (rq_messages rq)) then rq\<lparr>rq_messages := rq_messages rq @ [msg ''assistant'' CNone]\<rparr> else rq))"

definition drop_dummy :: "nat \<Rightarrow> message list \<Rightarrow> message list res" where
  "drop_dummy n ms =
     (if n \<le> 1 then Inr ms
      else if ms = [] then Inl IndexError
      else Inr (if falsy_content (m_content (last ms)) then remove_response ms else ms))"

subsection \<open>What is kept of a turn\<close>

definition extend_last :: "'a list \<Rightarrow> 'a list list \<Rightarrow> 'a list list" where
  "extend_last xs xss = butlast xss @ [last xss @ xs]"

definition add_part :: "bool \<Rightarrow> 'a list \<Rightarrow> 'a list list \<Rightarrow> 'a list list" where
  "add_part cont xs xss = (if cont \<and> xss \<noteq> [] then extend_last xs xss else xss @ [xs])"

definition step_logprobs :: "turn_result \<Rightarrow> reply \<Rightarrow> real list" where
  "step_logprobs r ch =
     (case tr_logprobs r of None \<Rightarrow> extract_logprobs ch | Some l \<Rightarrow> if l = [] then extract_logprobs ch else l)"

definition mask_fits :: "turn_result \<Rightarrow> bool" where
  "mask_fits r =
     (case tr_mask r of None \<Rightarrow> True | Some m \<Rightarrow> (case tr_ids r of None \<Rightarrow> False | Some ids \<Rightarrow> length m = length ids))"

definition track_step :: "bool \<Rightarrow> turn_result \<Rightarrow> reply \<Rightarrow> tally \<Rightarrow> tally res" where
  "track_step cont r ch T =
     (if \<not> mask_fits r then Inl AssertionError
      else let l = step_logprobs r ch in
        Inr \<lparr>ta_infos = (case tr_infos r of None \<Rightarrow> ta_infos T | Some d \<Rightarrow> dupdate (ta_infos T) d),
             ta_ids = (case tr_ids r of None \<Rightarrow> ta_ids T | Some ids \<Rightarrow> add_part cont ids (ta_ids T)),
             ta_mask = (case tr_mask r of None \<Rightarrow> ta_mask T | Some m \<Rightarrow> add_part cont m (ta_mask T)),
             ta_logprobs = (if l = [] then ta_logprobs T else add_part cont l (ta_logprobs T))\<rparr>)"

text \<open>The closing answer, when it continues one that was kept, and when nothing was kept before.\<close>

definition extend_tally :: "reply \<Rightarrow> tally \<Rightarrow> tally res" where
  "extend_tally ch T =
     (case re_ids ch of
        None \<Rightarrow> Inl TypeError
      | Some ids \<Rightarrow>
          let l = extract_logprobs ch in
          Inr (T\<lparr>ta_ids := extend_last ids (ta_ids T),
                 ta_mask := (if ta_mask T = [] then [] else extend_last (replicate (length ids) 1) (ta_mask T)),
                 ta_logprobs := (if ta_logprobs T = [] \<or> l = [] then ta_logprobs T else extend_last l (ta_logprobs T))\<rparr>))"

definition start_tally :: "reply \<Rightarrow> tally \<Rightarrow> tally" where
  "start_tally ch T =
     (let ids = (case re_ids ch of None \<Rightarrow> [] | Some ids \<Rightarrow> ids); l = extract_logprobs ch
      in T\<lparr>ta_ids := (if ids = [] then ta_ids T else [ids]),
           ta_mask := (if ids = [] then ta_mask T else [replicate (length ids) 1]),
           ta_logprobs := (if l = [] then ta_logprobs T else [l])\<rparr>)"

definition append_tally :: "reply \<Rightarrow> tally \<Rightarrow> tally" where
  "append_tally ch T =
     (let ids = (case re_ids ch of None \<Rightarrow> [] | Some ids \<Rightarrow> ids); l = extract_logprobs ch
      in T\<lparr>ta_ids := (if ids = [] then ta_ids T else ta_ids T @ [ids]),
           ta_mask := (if ids = [] then ta_mask T else ta_mask T @ [replicate (length ids) 1]),
           ta_logprobs := (if l = [] then ta_logprobs T else ta_logprobs T @ [l])\<rparr>)"

definition server_close :: "bool \<Rightarrow> reply \<Rightarrow> tally \<Rightarrow> tally res" where
  "server_close cont ch T =
     (if cont \<and> ta_ids T \<noteq> [] then extend_tally ch T
      else if ta_ids T = [] then Inr (start_tally ch T)
      else Inr T)"

definition colocate_close :: "bool \<Rightarrow> reply \<Rightarrow> tally \<Rightarrow> tally res" where
  "colocate_close cont ch T =
     (if cont \<and> ta_ids T \<noteq> [] then extend_tally ch T
      else if ta_ids T = [] then Inr (start_tally ch T)
      else Inr (append_tally ch T))"

text \<open>Log probabilities are kept only when there is one for every token that is trained.\<close>

definition complete_logprobs :: "tally \<Rightarrow> real list list" where
  "complete_logprobs T =
     (let l = ta_logprobs T; n = sum_list (map length l) in
      if l = [] then []
      else if ta_mask T \<noteq> [] then (if sum_list (map sum_list (ta_mask T)) = int n then l else [])
      else if ta_ids T \<noteq> [] then (if sum_list (map length (ta_ids T)) = n then l else [])
      else [])"

definition make_output :: "nat \<Rightarrow> reply \<Rightarrow> message list \<Rightarrow> tally \<Rightarrow> rollout_out" where
  "make_output n ch ms T =
     \<lparr>ou_reply = ch, ou_messages = ms, ou_ids = ta_ids T, ou_mask = ta_mask T,
      ou_infos = dset ''num_turns'' (PInt (int n)) (ta_infos T), ou_logprobs = complete_logprobs T\<rparr>"

subsection \<open>One request on the server\<close>

record talk =
  tk_request :: rollout_request
  tk_turn :: nat
  tk_tally :: tally

definition shown_request :: "talk \<Rightarrow> rollout_request" where
  "shown_request st =
     (let rq = tk_request st
      in if tk_turn st = 1 then rq\<lparr>rq_messages := remove_response (rq_messages rq)\<rparr> else rq)"

definition talk_once ::
  "turn_scheduler \<Rightarrow> (nat \<Rightarrow> rollout_request \<Rightarrow> reply res) \<Rightarrow> talk \<Rightarrow> (rollout_out + talk) res" where
  "talk_once S E st =
     (let rq = shown_request st; n = tk_turn st in
      res_bind (E n rq) (\<lambda>ch.
      res_bind (drop_dummy n (rq_messages rq)) (\<lambda>ms.
      res_bind (add_completion (re_content ch) ms) (\<lambda>(ms', cont).
      let rq' = rq\<lparr>rq_messages := ms'\<rparr> in
      res_bind (sc_check S rq' ch n) (\<lambda>stop.
      if stop \<or> limit_reached (sc_max_turns S) n then
        res_bind (server_close cont ch (tk_tally st)) (\<lambda>T. Inr (Inl (make_output n ch ms' T)))
      else
        res_bind (sc_step S rq' ch n) (\<lambda>r.
        res_bind (track_step cont r ch (tk_tally st)) (\<lambda>T.
        res_bind (add_dummy (tr_request r)) (\<lambda>rq''.
        Inr (Inr \<lparr>tk_request = rq'', tk_turn = Suc n, tk_tally = T\<rparr>)))))))))"

definition first_talk :: "rollout_request \<Rightarrow> talk" where
  "first_talk rq = \<lparr>tk_request = rq, tk_turn = 1, tk_tally = no_tally\<rparr>"

definition server_run ::
  "turn_scheduler \<Rightarrow> (nat \<Rightarrow> rollout_request \<Rightarrow> reply res) \<Rightarrow> rollout_request \<Rightarrow> rollout_out res option" where
  "server_run S E rq = repeat_turns (talk_once S E) (first_talk rq)"

subsection \<open>A batch in the trainer\<close>

text \<open>The parallel lists of \<open>_colocate_multi_turn_infer\<close>, index by index.\<close>

record dialogue =
  di_request :: rollout_request
  di_cont :: bool
  di_tally :: tally
  di_out :: "rollout_out option"

record batch =
  bt_turn :: nat
  bt_active :: "nat list"
  bt_replies :: "reply list"
  bt_rows :: "dialogue list"

text \<open>A loop over indices that updates their rows.\<close>

fun for_rows :: "('c \<Rightarrow> 'a \<Rightarrow> 'a res) \<Rightarrow> (nat \<times> 'c) list \<Rightarrow> 'a list \<Rightarrow> 'a list res" where
  "for_rows f [] rows = Inr rows"
| "for_rows f ((i, c) # ps) rows = res_bind (f c (rows ! i)) (\<lambda>r. for_rows f ps (rows[i := r]))"

definition place_reply :: "reply \<Rightarrow> dialogue \<Rightarrow> dialogue res" where
  "place_reply ch d =
     (let ms = rq_messages (di_request d) in
      if ms = [] then Inl IndexError
      else res_bind (add_completion (re_content ch) (if m_content (last ms) = CNone then remove_response ms else ms))
        (\<lambda>(ms', cont). Inr (d\<lparr>di_request := (di_request d)\<lparr>rq_messages := ms'\<rparr>, di_cont := cont\<rparr>)))"

definition settle_row :: "turn_scheduler \<Rightarrow> nat \<Rightarrow> bool \<times> reply \<Rightarrow> dialogue \<Rightarrow> dialogue res" where
  "settle_row S n sc d =
     (case sc of (stop, ch) \<Rightarrow>
        if stop then
          res_bind (colocate_close (di_cont d) ch (di_tally d)) (\<lambda>T.
          Inr (d\<lparr>di_tally := T, di_out := Some (make_output n ch (rq_messages (di_request d)) T)\<rparr>))
        else
          res_bind (sc_step S (di_request d) ch n) (\<lambda>r.
          res_bind (track_step (di_cont d) r ch (di_tally d)) (\<lambda>T.
          res_bind (add_dummy (tr_request r)) (\<lambda>rq.
          Inr (d\<lparr>di_tally := T, di_request := rq\<rparr>)))))"

text \<open>The engine gets the index of the request too.\<close>

definition batch_round ::
  "turn_scheduler \<Rightarrow> (nat \<Rightarrow> nat \<Rightarrow> rollout_request \<Rightarrow> reply res) \<Rightarrow> batch \<Rightarrow> batch res" where
  "batch_round S E B =
     (let n = bt_turn B; pairs = zip (bt_active B) (bt_replies B) in
      if length (bt_active B) \<noteq> length (bt_replies B) then Inl AssertionError
      else
        res_bind (for_rows place_reply pairs (bt_rows B)) (\<lambda>rows.
        res_bind (map_res (\<lambda>(i, ch). sc_check S (di_request (rows ! i)) ch n) pairs) (\<lambda>stops.
        let ends = map (\<lambda>s. s \<or> limit_reached (sc_max_turns S) n) stops;
            next_ones = map fst (filter (\<lambda>p. \<not> snd p) (zip (bt_active B) ends)) in
        res_bind (for_rows (settle_row S n) (zip (bt_active B) (zip ends (bt_replies B))) rows) (\<lambda>rows'.
        res_bind (map_res (\<lambda>i. E i (Suc n) (di_request (rows' ! i))) next_ones) (\<lambda>replies.
        Inr \<lparr>bt_turn = Suc n, bt_active = next_ones, bt_replies = replies, bt_rows = rows'\<rparr>)))))"

definition round_once ::
  "turn_scheduler \<Rightarrow> (nat \<Rightarrow> nat \<Rightarrow> rollout_request \<Rightarrow> reply res) \<Rightarrow> batch \<Rightarrow> (dialogue list + batch) res" where
  "round_once S E B =
     (if bt_active B = [] then Inr (Inl (bt_rows B)) else res_bind (batch_round S E B) (\<lambda>B'. Inr (Inr B')))"

definition first_batch :: "rollout_request list \<Rightarrow> reply list \<Rightarrow> batch" where
  "first_batch rqs replies =
     \<lparr>bt_turn = 1, bt_active = [0 ..< length rqs], bt_replies = replies,
      bt_rows = map (\<lambda>rq. \<lparr>di_request = rq, di_cont = False, di_tally = no_tally, di_out = None\<rparr>) rqs\<rparr>"

definition colocate_run ::
  "turn_scheduler \<Rightarrow> (nat \<Rightarrow> nat \<Rightarrow> rollout_request \<Rightarrow> reply res) \<Rightarrow> rollout_request list \<Rightarrow> reply list
    \<Rightarrow> rollout_out list res option" where
  "colocate_run S E rqs replies =
     map_option
       (\<lambda>r. res_bind r (\<lambda>rows. map_res (\<lambda>d. case di_out d of None \<Rightarrow> Inl AssertionError | Some out \<Rightarrow> Inr out) rows))
       (repeat_turns (round_once S E) (first_batch rqs replies))"

subsection \<open>Rows with their outputs\<close>

record rollout_row =
  rw_id :: string
  rw_messages :: "message list"
  rw_ids :: "int nested option"
  rw_mask :: "int list list option"
  rw_logprobs :: "real list list option"
  rw_infos :: pydict
  rw_media :: pydict
  rw_finish :: "string option"
  rw_truncated :: bool

definition media_keys :: "string list" where
  "media_keys = [''images'', ''videos'', ''audios'']"

text \<open>The log probabilities of the output, otherwise those of the reply.\<close>

definition merged_logprobs :: "rollout_out \<Rightarrow> real list list option \<Rightarrow> real list list option" where
  "merged_logprobs out old =
     (if ou_logprobs out \<noteq> [] then Some (ou_logprobs out)
      else case re_logprobs (ou_reply out) of
        None \<Rightarrow> old
      | Some d \<Rightarrow> (case dget d ''content'' of None \<Rightarrow> old | Some l \<Rightarrow> Some [l]))"

definition merge_output :: "bool \<Rightarrow> rollout_row \<Rightarrow> rollout_out \<Rightarrow> rollout_row" where
  "merge_output scheduled row out =
     (let ch = ou_reply out; given = ou_ids out \<noteq> [] in
      row\<lparr>rw_messages := (if ou_messages out \<noteq> [] then ou_messages out
             else remove_response (rw_messages row) @ [msg ''assistant'' (COne (CText (re_content ch)))]),
          rw_ids := (if given then Some (Nested (ou_ids out))
             else if scheduled then rw_ids row else map_option Flat (re_ids ch)),
          rw_mask := (if given \<and> ou_mask out \<noteq> [] then Some (ou_mask out) else rw_mask row),
          rw_infos := (if ou_infos out = [] then rw_infos row else ou_infos out),
          rw_logprobs := merged_logprobs out (rw_logprobs row),
          rw_finish := re_finish ch,
          rw_truncated := (re_finish ch = Some ''length''),
          rw_media := fold (\<lambda>k d. case dget (ou_infos out) k of None \<Rightarrow> d | Some v \<Rightarrow> dset k v d) media_keys (rw_media row)\<rparr>)"

text \<open>\<open>varies\<close> tells that the number of outputs may differ from that of the rows; \<open>asynchronous\<close> that they may be missing.\<close>

definition rows_by_id :: "rollout_row list \<Rightarrow> (string, rollout_row) dict" where
  "rows_by_id rows = fold (\<lambda>r d. if dget d (rw_id r) = None then dset (rw_id r) r d else d) rows []"

definition postprocess_outputs ::
  "bool \<Rightarrow> bool \<Rightarrow> bool \<Rightarrow> rollout_row list \<Rightarrow> rollout_out list \<Rightarrow> rollout_row list res" where
  "postprocess_outputs scheduled varies asynchronous rows outs =
     (if \<not> varies then
        (if asynchronous \<and> outs = [] then Inr []
         else if length rows \<noteq> length outs then Inl AssertionError
         else Inr (map2 (merge_output scheduled) rows outs))
      else
        map_res (\<lambda>out. case dget (rows_by_id rows) (re_id (ou_reply out)) of
            None \<Rightarrow> Inl AssertionError
          | Some row \<Rightarrow> Inr (merge_output scheduled row out)) outs)"

end
