(* ===== verification/TurnSchedulers.thy ===== *)
theory TurnSchedulers
  imports MultiTurn
begin

text \<open>
  The schedulers of \<open>swift/rollout/multi_turn.py\<close>: tips for a wrong answer, written into the answer
  (\<open>MathTipsScheduler\<close>) or asked by the user (\<open>ThinkingModelTipsScheduler\<close>), dialogues with an environment
  (\<open>GYMScheduler\<close>, \<open>gym_env.py\<close>), and the merge of the outputs into the rows of the trainer.
\<close>

subsection \<open>Tips in the answer\<close>

record math_tips =
  mt_accuracy :: "string \<Rightarrow> pyval \<Rightarrow> real res"
  mt_tokenizer :: "((int list \<Rightarrow> string) \<times> (string \<Rightarrow> int list)) option"
  mt_max_turns :: "nat option"

definition math_tip :: string where
  "math_tip = ''But wait... It seems I made a mistake,''"

text \<open>The content of a message as a text; \<open>in\<close> raises on \<open>None\<close>.\<close>

definition turn_text :: "message \<Rightarrow> string res" where
  "turn_text m = (case m_content m of COne (CText s) \<Rightarrow> Inr s | _ \<Rightarrow> Inl TypeError)"

definition is_correct :: "(string \<Rightarrow> pyval \<Rightarrow> real res) \<Rightarrow> string \<Rightarrow> pydict \<Rightarrow> bool res" where
  "is_correct acc s d = res_bind (row_item d ''solution'') (\<lambda>sol. res_bind (acc s sol) (\<lambda>a. Inr (a = 1)))"

definition math_check :: "math_tips \<Rightarrow> rollout_request \<Rightarrow> reply \<Rightarrow> nat \<Rightarrow> bool res" where
  "math_check M rq ch n =
     (if rq_messages rq = [] then Inl IndexError
      else
        res_bind (turn_text (last (rq_messages rq))) (\<lambda>s.
        if contains math_tip s then Inr True
        else res_bind (is_correct (mt_accuracy M) s (rq_data rq)) (\<lambda>ok.
             Inr (ok \<or> base_check (mt_max_turns M) ch n))))"

definition tag_position :: "string \<Rightarrow> string \<Rightarrow> nat" where
  "tag_position tag s = (case find_sub tag s of None \<Rightarrow> length s | Some (a, b) \<Rightarrow> length a)"

definition cut_position :: "string \<Rightarrow> nat" where
  "cut_position s = min (tag_position ''<answer>'' s) (tag_position ''</think>'' s)"

text \<open>The number of tokens whose text reaches the cut.\<close>

definition token_cut :: "(int list \<Rightarrow> string) \<Rightarrow> int list \<Rightarrow> nat \<Rightarrow> nat" where
  "token_cut decode ids n =
     (case find (\<lambda>i. n \<le> length (decode (take i ids))) [1 ..< Suc (length ids)] of None \<Rightarrow> length ids | Some i \<Rightarrow> i)"

definition kept_tokens :: "math_tips \<Rightarrow> reply \<Rightarrow> int list \<times> real list" where
  "kept_tokens M ch =
     (let s = re_content ch; ids = (case re_ids ch of None \<Rightarrow> [] | Some ids \<Rightarrow> ids); l = extract_logprobs ch in
      case mt_tokenizer M of
        None \<Rightarrow> (ids, l)
      | Some (decode, encode) \<Rightarrow>
          if cut_position s < length s \<and> ids \<noteq> []
          then (let k = token_cut decode ids (cut_position s) in (take k ids, take k l))
          else (ids, l))"

definition with_tip :: "math_tips \<Rightarrow> int list \<Rightarrow> int list \<times> int list" where
  "with_tip M ids =
     (case mt_tokenizer M of
        None \<Rightarrow> (ids, [])
      | Some (decode, encode) \<Rightarrow>
          if ids = [] then (ids, [])
          else (ids @ encode math_tip, replicate (length ids) 1 @ replicate (length (encode math_tip)) 0))"

definition write_answer :: "string \<Rightarrow> message list \<Rightarrow> message list res" where
  "write_answer s ms =
     (if ms = [] then Inl IndexError
      else if is_answer (last ms) then
        (let ms' = (if falsy_content (m_content (last ms)) then butlast ms else ms)
         in if ms' = [] then Inl IndexError
            else Inr (butlast ms' @ [(last ms')\<lparr>m_content := COne (CText s)\<rparr>]))
      else Inr (ms @ [msg ''assistant'' (COne (CText s))]))"

definition math_step :: "math_tips \<Rightarrow> rollout_request \<Rightarrow> reply \<Rightarrow> nat \<Rightarrow> turn_result res" where
  "math_step M rq ch n =
     (let (ids, l) = kept_tokens M ch; (ids', mask) = with_tip M ids; s = re_content ch in
      res_bind (write_answer (take (cut_position s) s @ math_tip) (rq_messages rq)) (\<lambda>ms.
      Inr \<lparr>tr_request = rq\<lparr>rq_messages := ms\<rparr>,
           tr_ids = (if ids' = [] then None else Some ids'),
           tr_mask = (if ids' = [] then None else Some mask),
           tr_infos = None,
           tr_logprobs = (if ids' = [] \<or> l = [] then None else Some l)\<rparr>))"

definition math_scheduler :: "math_tips \<Rightarrow> turn_scheduler" where
  "math_scheduler M = \<lparr>sc_check = math_check M, sc_step = math_step M, sc_max_turns = mt_max_turns M\<rparr>"

subsection \<open>Tips of the user\<close>

text \<open>\<open>prepare\<close> is the preparation of messages of a thinking template, \<open>None\<close> for any other template.\<close>

record thinking_tips =
  th_accuracy :: "string \<Rightarrow> pyval \<Rightarrow> real res"
  th_prepare :: "(message list \<Rightarrow> message list res) option"
  th_max_turns :: "nat option"

definition user_tip :: string where
  "user_tip = ''The answer is not correct, It seems You made a mistake, you need to recheck very carefully.''"

datatype round_item = Whole message | Bare string

definition last_part :: "string \<Rightarrow> string \<Rightarrow> string" where
  "last_part sep s = last (split_str sep s)"

definition round_message :: "bool \<Rightarrow> message \<Rightarrow> round_item" where
  "round_message final m =
     (case m_content m of
        COne (CText s) \<Rightarrow> if is_answer m \<and> \<not> final then Bare (strip (last_part ''</think>'' s)) else Whole m
      | _ \<Rightarrow> Whole m)"

definition plain_messages :: "message list \<Rightarrow> round_item list" where
  "plain_messages ms = map (\<lambda>i. round_message (Suc i = length ms) (ms ! i)) [0 ..< length ms]"

text \<open>\<open>RolloutOutput\<close> takes dictionaries only.\<close>

definition build_messages :: "thinking_tips \<Rightarrow> message list \<Rightarrow> message list res" where
  "build_messages H ms =
     (case th_prepare H of
        Some prepare \<Rightarrow> prepare ms
      | None \<Rightarrow> map_res (\<lambda>x. case x of Whole m \<Rightarrow> Inr m | Bare s \<Rightarrow> Inl ValueError) (plain_messages ms))"

definition thinking_check :: "thinking_tips \<Rightarrow> rollout_request \<Rightarrow> reply \<Rightarrow> nat \<Rightarrow> bool res" where
  "thinking_check H rq ch n =
     (let ms = rq_messages rq in
      if length ms < 2 then Inl IndexError
      else
        res_bind (turn_text (ms ! (length ms - 2))) (\<lambda>q.
        if contains user_tip q then Inr True
        else res_bind (is_correct (th_accuracy H) (re_content ch) (rq_data rq)) (\<lambda>ok.
             Inr (ok \<or> base_check (th_max_turns H) ch n))))"

definition thinking_once ::
  "thinking_tips \<Rightarrow> (nat \<Rightarrow> rollout_request \<Rightarrow> reply res) \<Rightarrow> nat \<times> rollout_request \<times> rollout_out list
    \<Rightarrow> (rollout_out list + nat \<times> rollout_request \<times> rollout_out list) res" where
  "thinking_once H E st =
     (case st of (n, rq, outs) \<Rightarrow>
        res_bind (E n rq) (\<lambda>ch.
        let rq' = rq\<lparr>rq_messages := rq_messages rq @ [msg ''assistant'' (COne (CText (re_content ch)))]\<rparr> in
        res_bind (build_messages H (rq_messages rq')) (\<lambda>ms.
        case re_ids ch of
          None \<Rightarrow> Inl ValueError
        | Some ids \<Rightarrow>
            let out = \<lparr>ou_reply = ch, ou_messages = ms, ou_ids = (if ids = [] then [] else [ids]), ou_mask = [],
                       ou_infos = [(''num_turns'', PInt (int n))], ou_logprobs = []\<rparr> in
            res_bind (thinking_check H rq' ch n) (\<lambda>stop.
            if stop then Inr (Inl (outs @ [out]))
            else Inr (Inr (Suc n, rq'\<lparr>rq_messages := rq_messages rq' @ [msg ''user'' (COne (CText user_tip))]\<rparr>, outs @ [out]))))))"

definition thinking_run ::
  "thinking_tips \<Rightarrow> (nat \<Rightarrow> rollout_request \<Rightarrow> reply res) \<Rightarrow> rollout_request \<Rightarrow> rollout_out list res option" where
  "thinking_run H E rq = repeat_turns (thinking_once H E) (1, rq, [])"

subsection \<open>Environments\<close>

text \<open>An environment with a state \<open>'s\<close>, from \<open>reset\<close> on; closing it changes no result and its errors are only logged.\<close>

record 's environment =
  en_reset :: "rollout_request \<Rightarrow> (string \<times> pydict \<times> string \<times> 's) res"
  en_step :: "'s \<Rightarrow> message list \<Rightarrow> (string \<times> real \<times> bool \<times> pydict \<times> 's) res"

type_synonym context_manager = "message list \<Rightarrow> string \<Rightarrow> message list res"

record 's gym =
  gy_envs :: "(string, pydict \<Rightarrow> 's environment res) dict"
  gy_managers :: "(string, pydict \<Rightarrow> context_manager res) dict"
  gy_env_name :: pyval
  gy_manager_name :: pyval
  gy_max_turns :: "nat option"

text \<open>A registry and the name in the settings; a name that cannot be a key raises \<open>TypeError\<close>.\<close>

definition registered :: "(string, 'a) dict \<Rightarrow> pyval \<Rightarrow> 'a res" where
  "registered table name =
     (case name of
        PStr s \<Rightarrow> (case dget table s of None \<Rightarrow> Inl ValueError | Some x \<Rightarrow> Inr x)
      | PList _ \<Rightarrow> Inl TypeError
      | PDict _ \<Rightarrow> Inl TypeError
      | _ \<Rightarrow> Inl ValueError)"

definition create_env :: "'s gym \<Rightarrow> pydict \<Rightarrow> 's environment res" where
  "create_env G conf = res_bind (registered (gy_envs G) (dget_or conf ''name'' (gy_env_name G))) (\<lambda>mk. mk conf)"

definition create_manager :: "'s gym \<Rightarrow> pydict \<Rightarrow> context_manager res" where
  "create_manager G conf =
     (let name = dget_or conf ''name'' (gy_manager_name G) in
      res_bind (registered (gy_managers G) (if truthy name then name else PStr ''dummyContextManager'')) (\<lambda>mk. mk conf))"

definition dummy_manager :: context_manager where
  "dummy_manager history trajectory = Inr history"

record 's gym_state =
  gs_messages :: "message list"
  gs_turn :: nat
  gs_done :: bool
  gs_total :: real
  gs_rewards :: "real list"
  gs_infos :: "pydict list"
  gs_reply :: "reply option"
  gs_env :: 's

record gym_out =
  go_reply :: "reply option"
  go_messages :: "message list"
  go_turns :: nat
  go_trajectory :: string
  go_total :: real
  go_rewards :: "real list"
  go_infos :: "pydict list"

definition gym_goes_on :: "nat option \<Rightarrow> 's gym_state \<Rightarrow> bool" where
  "gym_goes_on limit s =
     (\<not> gs_done s \<and> (case limit of None \<Rightarrow> True | Some k \<Rightarrow> k = 0 \<or> gs_turn s \<le> k))"

definition gym_turn ::
  "'s environment \<Rightarrow> context_manager \<Rightarrow> (nat \<Rightarrow> rollout_request \<Rightarrow> reply res) \<Rightarrow> rollout_request \<Rightarrow> 's gym_state
    \<Rightarrow> 's gym_state res" where
  "gym_turn V manage E rq s =
     res_bind (manage (gs_messages s) (rq_uuid rq)) (\<lambda>ms0.
     let ms = remove_response ms0 in
     res_bind (E (gs_turn s) (rq\<lparr>rq_messages := ms\<rparr>)) (\<lambda>ch.
     let ms' = ms @ [msg ''assistant'' (COne (CText (re_content ch)))] in
     res_bind (en_step V (gs_env s) ms') (\<lambda>(obs, reward, done, info, v).
     Inr \<lparr>gs_messages = (if done then ms' else ms' @ [msg ''user'' (COne (CText obs))]),
          gs_turn = (if done then gs_turn s else Suc (gs_turn s)),
          gs_done = done, gs_total = gs_total s + reward, gs_rewards = gs_rewards s @ [reward],
          gs_infos = gs_infos s @ [info], gs_reply = Some ch, gs_env = v\<rparr>)))"

definition gym_once ::
  "nat option \<Rightarrow> 's environment \<Rightarrow> context_manager \<Rightarrow> (nat \<Rightarrow> rollout_request \<Rightarrow> reply res) \<Rightarrow> rollout_request
    \<Rightarrow> 's gym_state \<Rightarrow> ('s gym_state + 's gym_state) res" where
  "gym_once limit V manage E rq s =
     (if gym_goes_on limit s then res_bind (gym_turn V manage E rq s) (\<lambda>s'. Inr (Inr s')) else Inr (Inl s))"

definition gym_start :: "string \<Rightarrow> pydict \<Rightarrow> string \<Rightarrow> 's \<Rightarrow> 's gym_state" where
  "gym_start obs info system v =
     \<lparr>gs_messages = (if system = [] then [] else [msg ''system'' (COne (CText system))]) @ [msg ''user'' (COne (CText obs))],
      gs_turn = 1, gs_done = False, gs_total = 0, gs_rewards = [], gs_infos = [info], gs_reply = None, gs_env = v\<rparr>"

definition gym_output :: "rollout_request \<Rightarrow> 's gym_state \<Rightarrow> gym_out" where
  "gym_output rq s =
     \<lparr>go_reply = gs_reply s, go_messages = gs_messages s, go_turns = gs_turn s, go_trajectory = rq_uuid rq,
      go_total = gs_total s, go_rewards = gs_rewards s, go_infos = gs_infos s\<rparr>"

definition config_of :: "pydict \<Rightarrow> string \<Rightarrow> pydict res" where
  "config_of d k = (case dget_or d k (PDict []) of PDict c \<Rightarrow> Inr c | _ \<Rightarrow> Inl AttributeError)"

definition gym_run :: "'s gym \<Rightarrow> (nat \<Rightarrow> rollout_request \<Rightarrow> reply res) \<Rightarrow> rollout_request \<Rightarrow> gym_out res option" where
  "gym_run G E rq =
     (case res_bind (config_of (rq_data rq) ''env_config'') (\<lambda>conf.
           res_bind (create_env G conf) (\<lambda>V.
           res_bind (res_bind (config_of (rq_data rq) ''ctx_config'') (create_manager G)) (\<lambda>manage.
           res_bind (en_reset V rq) (\<lambda>start. Inr (V, manage, start))))) of
        Inl e \<Rightarrow> Some (Inl e)
      | Inr (V, manage, obs, info, system, v) \<Rightarrow>
          map_option (\<lambda>r. res_bind r (\<lambda>s. Inr (gym_output rq s)))
            (repeat_turns (gym_once (gy_max_turns G) V manage E rq) (gym_start obs info system v)))"

text \<open>
  The environment of \<open>math_env\<close>; its state is the solution.  \<open>too_long\<close> counts tokens with a tokenizer of
  the hub; a problem that is no text raises \<open>TypeError\<close>.
\<close>

definition math_env_prompt :: string where
  "math_env_prompt = join [CHR 0x0A]
     [''A conversation between User and Assistant.'',
      ''        The user asks a question, and the Assistant solves it.'',
      ''        The assistant first thinks about the reasoning process in the mind and then provides the user with the answer.'',
      ''        The reasoning process and answer are enclosed within <think> </think> and <answer> </answer> tags,'',
      ''        respectively, i.e., <think> reasoning process here </think><answer> answer here </answer>'',
      ''        '']"

definition math_env_step ::
  "(string \<Rightarrow> pyval \<Rightarrow> real res) \<Rightarrow> (message list \<Rightarrow> bool) \<Rightarrow> pyval \<Rightarrow> message list
    \<Rightarrow> (string \<times> real \<times> bool \<times> pydict \<times> pyval) res" where
  "math_env_step acc too_long solution ms =
     (if ms = [] then Inl IndexError
      else
        res_bind (turn_text (last ms)) (\<lambda>s.
        res_bind (acc s solution) (\<lambda>a.
        let long = too_long ms; reward = (if a = 1 then 1 else 0);
            info = (if a = 1 then [(''stop_reason'', PStr ''Correct'')]
                    else if long then [(''stop_reason'', PStr ''Exceeded maximum length'')] else []) in
        Inr (user_tip, reward, long \<or> a = 1, info @ [(''math_reward'', PFloat reward)], solution))))"

definition math_env :: "(string \<Rightarrow> pyval \<Rightarrow> real res) \<Rightarrow> (message list \<Rightarrow> bool) \<Rightarrow> pyval environment" where
  "math_env acc too_long =
     \<lparr>en_reset = (\<lambda>rq.
        res_bind (row_item (rq_data rq) ''problem'') (\<lambda>p.
        res_bind (row_item (rq_data rq) ''solution'') (\<lambda>sol.
        case p of PStr s \<Rightarrow> Inr (s, [], math_env_prompt, sol) | _ \<Rightarrow> Inl TypeError))),
      en_step = math_env_step acc too_long\<rparr>"

end
