(* ===== verification/TurnLaws.thy ===== *)
theory TurnLaws
  imports TurnSchedulers
begin

text \<open>
  Laws of the rollouts of several turns: the trainer and the rollout server produce the same outputs for
  schedulers that continue the answer, tokens, masks and log probabilities stay aligned, and tips are
  given once.
\<close>

subsection \<open>Loops\<close>

lemma repeat_simps:
  "f s = Inl e \<Longrightarrow> repeat_turns f s = Some (Inl e)"
  "f s = Inr (Inl x) \<Longrightarrow> repeat_turns f s = Some (Inr x)"
  "f s = Inr (Inr t) \<Longrightarrow> repeat_turns f s = repeat_turns f t"
  by (subst repeat_turns.simps, simp)+

text \<open>The result comes within a number of steps.\<close>

fun yields :: "('s \<Rightarrow> ('o + 's) res) \<Rightarrow> nat \<Rightarrow> 's \<Rightarrow> 'o \<Rightarrow> bool" where
  "yields f 0 s x = False"
| "yields f (Suc k) s x = (case f s of Inl e \<Rightarrow> False | Inr (Inl y) \<Rightarrow> y = x | Inr (Inr t) \<Rightarrow> yields f k t x)"

lemma yields_more: "yields f k s x \<Longrightarrow> k \<le> n \<Longrightarrow> yields f n s x"
proof (induction k arbitrary: s n)
  case (Suc k)
  then obtain n' where "n = Suc n'" "k \<le> n'" by (cases n) auto
  then show ?case using Suc by (auto split: sum.splits)
qed simp

lemma yields_repeat: "yields f k s x \<Longrightarrow> repeat_turns f s = Some (Inr x)"
  by (induction k arbitrary: s) (auto simp: repeat_simps split: sum.splits)

lemma repeat_yields:
  fixes f :: "'s \<Rightarrow> ('o + 's) res"
  assumes "repeat_turns f s = Some (Inr x)"
  shows "\<exists>k. yields f k s x"
proof -
  have "\<forall>x. r = Inr x \<longrightarrow> (\<exists>k. yields f k s x)" if "repeat_turns f s = Some r" for r
  proof (rule repeat_turns.raw_induct [OF _ that])
    fix g and f :: "'s \<Rightarrow> ('o + 's) res" and s r
    assume IH: "\<And>f s r. g f s = Some r \<Longrightarrow> \<forall>x. r = Inr x \<longrightarrow> (\<exists>k. yields f k s x)"
      and now: "(case f s of Inl e \<Rightarrow> Some (Inl e) | Inr (Inl x) \<Rightarrow> Some (Inr x) | Inr (Inr t) \<Rightarrow> g f t) = Some r"
    show "\<forall>x. r = Inr x \<longrightarrow> (\<exists>k. yields f k s x)"
    proof (cases "f s")
      case (Inr y)
      show ?thesis
      proof (cases y)
        case (Inl z)
        then show ?thesis using now Inr by (auto intro: exI [of _ "Suc 0"])
      next
        case (Inr t)
        then have y: "f s = Inr (Inr t)" using \<open>f s = Inr y\<close> by simp
        then have "g f t = Some r" using now by simp
        from IH [OF this] show ?thesis using y by (metis sum.simps(6) yields.simps(2))
      qed
    qed (use now in auto)
  qed
  then show ?thesis using assms by blast
qed

lemma repeat_invariant:
  assumes "repeat_turns f s = Some (Inr x)" "I s"
    and "\<And>s t. I s \<Longrightarrow> f s = Inr (Inr t) \<Longrightarrow> I t" and "\<And>s x. I s \<Longrightarrow> f s = Inr (Inl x) \<Longrightarrow> Q x"
  shows "Q x"
proof -
  obtain k where "yields f k s x" using repeat_yields [OF assms(1)] by blast
  then show ?thesis using assms(2)
    by (induction k arbitrary: s) (auto split: sum.splits dest: assms(3,4))
qed

lemma repeat_returns:
  fixes m :: "'s \<Rightarrow> nat"
  assumes "I s" and "\<And>s t. I s \<Longrightarrow> f s = Inr (Inr t) \<Longrightarrow> I t \<and> m t < m s"
  shows "\<exists>r. repeat_turns f s = Some r"
  using assms(1)
proof (induction "m s" arbitrary: s rule: less_induct)
  case less
  show ?case
  proof (cases "f s")
    case (Inr y)
    then show ?thesis
      using less assms(2) [OF less.prems] by (cases y) (simp_all add: repeat_simps)
  qed (simp add: repeat_simps)
qed

subsection \<open>Aligned tokens and masks\<close>

definition ones :: "nat \<Rightarrow> int list" where
  "ones n = replicate n 1"

definition aligned :: "tally \<Rightarrow> bool" where
  "aligned T = (map length (ta_ids T) = map length (ta_mask T))"

lemma aligned_empty: "aligned T \<Longrightarrow> ta_mask T = [] \<longleftrightarrow> ta_ids T = []"
  by (auto simp: aligned_def)

lemma map_length_extend: "xss \<noteq> [] \<Longrightarrow> map length (extend_last xs xss) = butlast (map length xss) @ [last (map length xss) + length xs]"
  by (simp add: extend_last_def map_butlast last_map)

lemma map_length_add_part:
  "map length (add_part cont xs xss) =
    (if cont \<and> xss \<noteq> [] then butlast (map length xss) @ [last (map length xss) + length xs] else map length xss @ [length xs])"
  by (simp add: add_part_def map_length_extend)

lemma aligned_add_part:
  assumes "map length xss = map length yss" "length xs = length ys"
  shows "map length (add_part cont xs xss) = map length (add_part cont ys yss)"
proof -
  have "xss = [] \<longleftrightarrow> yss = []" using assms(1) by (metis list.map_disc_iff)
  then show ?thesis using assms unfolding map_length_add_part by simp
qed

definition answered :: "rollout_request \<Rightarrow> bool" where
  "answered rq =
     (rq_messages rq \<noteq> [] \<and> is_answer (last (rq_messages rq)) \<and> \<not> falsy_content (m_content (last (rq_messages rq))))"

text \<open>
  What the two loops ask of a scheduler: token ids come with a mask (for the alignment), and after an
  answer the dialogue goes on in the answer (for the agreement of server and trainer).
\<close>

locale masked_scheduler =
  fixes S :: turn_scheduler
  assumes masked: "\<And>rq ch n r. sc_step S rq ch n = Inr r \<Longrightarrow> tr_mask r = None \<longleftrightarrow> tr_ids r = None"
begin

lemma track_aligned:
  assumes "sc_step S rq ch n = Inr r" "track_step cont r ch T = Inr T'" "aligned T"
  shows "aligned T'"
proof (cases "tr_ids r")
  case None
  then have "tr_mask r = None" using masked [OF assms(1)] by simp
  then show ?thesis using assms(2,3) None by (auto simp: track_step_def aligned_def Let_def split: if_splits)
next
  case (Some ids)
  then obtain m where m: "tr_mask r = Some m" using masked [OF assms(1)] by auto
  then have "length ids = length m" "ta_ids T' = add_part cont ids (ta_ids T)" "ta_mask T' = add_part cont m (ta_mask T)"
    using assms(2) Some by (auto simp: track_step_def mask_fits_def Let_def split: if_splits)
  then show ?thesis using assms(3) aligned_add_part [of "ta_ids T" "ta_mask T" ids m cont] by (simp add: aligned_def)
qed

end

locale answering_scheduler =
  fixes S :: turn_scheduler
  assumes answer_last: "\<And>rq ch n r. answered rq \<Longrightarrow> sc_step S rq ch n = Inr r \<Longrightarrow> rq_messages (tr_request r) \<noteq> [] \<and> is_answer (last (rq_messages (tr_request r)))"

lemma extend_aligned: "extend_tally ch T = Inr T' \<Longrightarrow> aligned T \<Longrightarrow> ta_ids T \<noteq> [] \<Longrightarrow> aligned T'"
  using aligned_empty [of T]
  by (auto simp: extend_tally_def aligned_def Let_def map_length_extend split: option.splits)

lemma start_aligned: "aligned T \<Longrightarrow> ta_ids T = [] \<Longrightarrow> aligned (start_tally ch T)"
  by (auto simp: start_tally_def aligned_def Let_def)

lemma append_aligned: "aligned T \<Longrightarrow> aligned (append_tally ch T)"
  by (auto simp: append_tally_def aligned_def Let_def)

lemma close_aligned:
  "server_close cont ch T = Inr T' \<Longrightarrow> aligned T \<Longrightarrow> aligned T'"
  "colocate_close cont ch T = Inr T' \<Longrightarrow> aligned T \<Longrightarrow> aligned T'"
  by (auto simp: server_close_def colocate_close_def intro: extend_aligned start_aligned append_aligned split: if_splits)

lemma sum_map_sum: "sum_list (map sum_list xss) = sum_list (concat (xss :: int list list))"
  by (induction xss) simp_all

lemma complete_logprobs_count:
  assumes "aligned T"
  shows "complete_logprobs T = [] \<or> int (length (concat (complete_logprobs T))) = sum_list (concat (ta_mask T))"
  using aligned_empty [OF assms]
  by (auto simp: complete_logprobs_def Let_def length_concat sum_map_sum)

lemma talk_once_result:
  assumes "talk_once S E st = Inr (Inl out)"
  obtains ch ms0 ms cont T where "E (tk_turn st) (shown_request st) = Inr ch"
    "drop_dummy (tk_turn st) (rq_messages (shown_request st)) = Inr ms0" "add_completion (re_content ch) ms0 = Inr (ms, cont)"
    "server_close cont ch (tk_tally st) = Inr T" "out = make_output (tk_turn st) ch ms T"
  using assms by (auto simp: talk_once_def Let_def res_bind_eq_Inr_iff split: if_splits)

lemma talk_once_next:
  assumes "talk_once S E st = Inr (Inr st')"
  obtains ch ms0 ms cont r where "E (tk_turn st) (shown_request st) = Inr ch"
    "drop_dummy (tk_turn st) (rq_messages (shown_request st)) = Inr ms0" "add_completion (re_content ch) ms0 = Inr (ms, cont)"
    "sc_check S ((shown_request st)\<lparr>rq_messages := ms\<rparr>) ch (tk_turn st) = Inr False"
    "sc_step S ((shown_request st)\<lparr>rq_messages := ms\<rparr>) ch (tk_turn st) = Inr r"
    "track_step cont r ch (tk_tally st) = Inr (tk_tally st')"
    "add_dummy (tr_request r) = Inr (tk_request st')" "tk_turn st' = Suc (tk_turn st)"
proof -
  from assms obtain ch ms0 ms cont where a: "E (tk_turn st) (shown_request st) = Inr ch"
      "drop_dummy (tk_turn st) (rq_messages (shown_request st)) = Inr ms0" "add_completion (re_content ch) ms0 = Inr (ms, cont)"
    by (auto simp: talk_once_def Let_def res_bind_eq_Inr_iff)
  with assms obtain r where "sc_check S ((shown_request st)\<lparr>rq_messages := ms\<rparr>) ch (tk_turn st) = Inr False"
    "sc_step S ((shown_request st)\<lparr>rq_messages := ms\<rparr>) ch (tk_turn st) = Inr r"
    "track_step cont r ch (tk_tally st) = Inr (tk_tally st')"
    "add_dummy (tr_request r) = Inr (tk_request st')" "tk_turn st' = Suc (tk_turn st)"
    by (auto simp: talk_once_def Let_def res_bind_eq_Inr_iff split: if_splits)
  with a show ?thesis by (rule that)
qed

context masked_scheduler
begin

lemma run_aligned:
  assumes "server_run S E rq = Some (Inr out)"
  shows "map length (ou_ids out) = map length (ou_mask out) \<and>
    (ou_logprobs out = [] \<or> int (length (concat (ou_logprobs out))) = sum_list (concat (ou_mask out)))"
proof (rule repeat_invariant [OF assms [unfolded server_run_def], where I = "\<lambda>st. aligned (tk_tally st)"])
  show "aligned (tk_tally (first_talk rq))" by (simp add: first_talk_def no_tally_def aligned_def)
next
  fix st st'
  assume "aligned (tk_tally st)" "talk_once S E st = Inr (Inr st')"
  then show "aligned (tk_tally st')" by (elim talk_once_next) (use track_aligned in blast)
next
  fix st out
  assume a: "aligned (tk_tally st)" "talk_once S E st = Inr (Inl out)"
  obtain ch ms0 ms cont T where "server_close cont ch (tk_tally st) = Inr T" "out = make_output (tk_turn st) ch ms T"
    using a(2) by (rule talk_once_result)
  then show "map length (ou_ids out) = map length (ou_mask out) \<and>
    (ou_logprobs out = [] \<or> int (length (concat (ou_logprobs out))) = sum_list (concat (ou_mask out)))"
    using close_aligned(1) [OF _ a(1)] complete_logprobs_count [of T] by (auto simp: make_output_def aligned_def)
qed

end

subsection \<open>Tips are given once\<close>

lemma write_answer_last:
  "write_answer s ms = Inr ms' \<Longrightarrow> ms' \<noteq> [] \<and> m_content (last ms') = COne (CText s)"
  by (auto simp: write_answer_def Let_def msg_def split: if_splits)

lemma write_answer_stays:
  assumes "write_answer s ms = Inr ms'" "ms \<noteq> []" "is_answer (last ms)" "\<not> falsy_content (m_content (last ms))"
  shows "ms' = butlast ms @ [(last ms)\<lparr>m_content := COne (CText s)\<rparr>]"
  using assms by (auto simp: write_answer_def Let_def)

lemma math_step_parts:
  assumes "math_step M rq ch n = Inr r"
  obtains ids l ids' mask ms where "kept_tokens M ch = (ids, l)" "with_tip M ids = (ids', mask)"
    "write_answer (take (cut_position (re_content ch)) (re_content ch) @ math_tip) (rq_messages rq) = Inr ms"
    "r = \<lparr>tr_request = rq\<lparr>rq_messages := ms\<rparr>, tr_ids = (if ids' = [] then None else Some ids'),
          tr_mask = (if ids' = [] then None else Some mask), tr_infos = None,
          tr_logprobs = (if ids' = [] \<or> l = [] then None else Some l)\<rparr>"
proof -
  obtain ids l where k: "kept_tokens M ch = (ids, l)" by (cases "kept_tokens M ch")
  obtain ids' mask where w: "with_tip M ids = (ids', mask)" by (cases "with_tip M ids")
  from assms show ?thesis
    by (auto simp: math_step_def k w Let_def res_bind_eq_Inr_iff intro: that [OF k w])
qed

interpretation math: masked_scheduler "math_scheduler M" for M
proof
  fix rq ch n r
  assume "sc_step (math_scheduler M) rq ch n = Inr r"
  then have "math_step M rq ch n = Inr r" by (simp add: math_scheduler_def)
  then show "tr_mask r = None \<longleftrightarrow> tr_ids r = None" by (rule math_step_parts) simp
qed

interpretation math_answers: answering_scheduler "math_scheduler M" for M
proof
  fix rq ch n r
  assume "answered rq" "sc_step (math_scheduler M) rq ch n = Inr r"
  then have "math_step M rq ch n = Inr r" by (simp add: math_scheduler_def)
  then obtain ids l ids' mask ms where r: "write_answer (take (cut_position (re_content ch)) (re_content ch) @ math_tip) (rq_messages rq) = Inr ms"
      "r = \<lparr>tr_request = rq\<lparr>rq_messages := ms\<rparr>, tr_ids = (if ids' = [] then None else Some ids'),
          tr_mask = (if ids' = [] then None else Some mask), tr_infos = None,
          tr_logprobs = (if ids' = [] \<or> l = [] then None else Some l)\<rparr>"
    by (rule math_step_parts)
  with write_answer_stays [OF r(1)] \<open>answered rq\<close>
  show "rq_messages (tr_request r) \<noteq> [] \<and> is_answer (last (rq_messages (tr_request r)))"
    by (simp add: r(2) answered_def is_answer_def)
qed

text \<open>A dialogue that got its tip: the closing answer ends with it, before the dummy.\<close>

definition tipped_by :: "string \<Rightarrow> talk \<Rightarrow> bool" where
  "tipped_by s st = (1 < tk_turn st \<and> (\<exists>xs a. rq_messages (tk_request st) = xs @ [a, msg ''assistant'' CNone] \<and>
     is_answer a \<and> m_content a = COne (CText (s @ math_tip))))"

definition tipped :: "talk \<Rightarrow> bool" where
  "tipped st = (\<exists>s. tipped_by s st)"

lemma add_completion_answered:
  assumes "add_completion s ms = Inr (ms', cont)" "s \<noteq> []"
  shows "ms' \<noteq> [] \<and> is_answer (last ms') \<and> \<not> falsy_content (m_content (last ms'))"
  using assms by (auto simp: add_completion_def is_answer_def msg_def falsy_content_def split: if_splits content.splits ctx.splits)

lemma math_step_tips:
  assumes "math_step M rq ch n = Inr r" "answered rq" "add_dummy (tr_request r) = Inr (tk_request st)" "1 < tk_turn st"
  shows "tipped_by (take (cut_position (re_content ch)) (re_content ch)) st"
proof -
  obtain ids l ids' mask ms where r: "write_answer (take (cut_position (re_content ch)) (re_content ch) @ math_tip) (rq_messages rq) = Inr ms"
      "r = \<lparr>tr_request = rq\<lparr>rq_messages := ms\<rparr>, tr_ids = (if ids' = [] then None else Some ids'),
          tr_mask = (if ids' = [] then None else Some mask), tr_infos = None,
          tr_logprobs = (if ids' = [] \<or> l = [] then None else Some l)\<rparr>"
    using assms(1) by (rule math_step_parts)
  let ?a = "(last (rq_messages rq))\<lparr>m_content := COne (CText (take (cut_position (re_content ch)) (re_content ch) @ math_tip))\<rparr>"
  have ms: "ms = butlast (rq_messages rq) @ [?a]"
    using write_answer_stays [OF r(1)] assms(2) by (simp add: answered_def)
  moreover have "is_answer ?a" using assms(2) by (simp add: answered_def is_answer_def)
  ultimately have "tk_request st = rq\<lparr>rq_messages := butlast (rq_messages rq) @ [?a, msg ''assistant'' CNone]\<rparr>"
    using assms(3) by (auto simp: r(2) add_dummy_def)
  then have "rq_messages (tk_request st) = butlast (rq_messages rq) @ [?a, msg ''assistant'' CNone]" by simp
  then show ?thesis using assms(4) \<open>is_answer ?a\<close> unfolding tipped_by_def
    by (intro conjI exI [of _ "butlast (rq_messages rq)"] exI [of _ ?a]) simp_all
qed

lemma tipped_shown: "tipped st \<Longrightarrow> shown_request st = tk_request st"
  by (auto simp: tipped_def tipped_by_def shown_request_def Let_def)

lemma tipped_places:
  assumes "tipped_by s st"
  obtains xs a where "drop_dummy (tk_turn st) (rq_messages (shown_request st)) = Inr (xs @ [a])"
    "add_completion c (xs @ [a]) = Inr (xs @ [a\<lparr>m_content := COne (CText (s @ math_tip @ c))\<rparr>], True)"
proof -
  obtain xs a where a: "rq_messages (tk_request st) = xs @ [a, msg ''assistant'' CNone]" "is_answer a"
      "m_content a = COne (CText (s @ math_tip))" "1 < tk_turn st"
    using assms by (auto simp: tipped_by_def)
  have "drop_dummy (tk_turn st) (xs @ [a, msg ''assistant'' CNone]) = Inr (xs @ [a])"
    using a(4) by (simp add: drop_dummy_def msg_def falsy_content_def remove_response_def butlast_append)
  moreover have "add_completion c (xs @ [a]) = Inr (xs @ [a\<lparr>m_content := COne (CText (s @ math_tip @ c))\<rparr>], True)"
    using a(2,3) by (simp add: add_completion_def)
  moreover have "shown_request st = tk_request st" using tipped_shown assms by (auto simp: tipped_def)
  ultimately show ?thesis using that a(1) by simp
qed

lemma tipped_ends:
  assumes "tipped st"
  shows "talk_once (math_scheduler M) E st \<noteq> Inr (Inr st')"
proof
  assume "talk_once (math_scheduler M) E st = Inr (Inr st')"
  then obtain ch ms0 ms cont where ch: "drop_dummy (tk_turn st) (rq_messages (shown_request st)) = Inr ms0"
      "add_completion (re_content ch) ms0 = Inr (ms, cont)"
      "sc_check (math_scheduler M) ((shown_request st)\<lparr>rq_messages := ms\<rparr>) ch (tk_turn st) = Inr False"
    by (rule talk_once_next)
  obtain s where "tipped_by s st" using assms by (auto simp: tipped_def)
  then obtain xs a where "drop_dummy (tk_turn st) (rq_messages (shown_request st)) = Inr (xs @ [a])"
      "add_completion (re_content ch) (xs @ [a]) = Inr (xs @ [a\<lparr>m_content := COne (CText (s @ math_tip @ re_content ch))\<rparr>], True)"
    using tipped_places by metis
  with ch have ms: "ms = xs @ [a\<lparr>m_content := COne (CText (s @ math_tip @ re_content ch))\<rparr>]" by simp
  have "contains math_tip (s @ math_tip @ re_content ch)" by (auto simp: contains_iff)
  then show False using ch(3) unfolding ms by (simp add: math_scheduler_def math_check_def turn_text_def)
qed

lemma math_next_tipped:
  assumes "talk_once (math_scheduler M) E st = Inr (Inr st')" "1 \<le> tk_turn st"
    and "E (tk_turn st) (shown_request st) = Inr ch" "re_content ch \<noteq> []"
  shows "tipped_by (take (cut_position (re_content ch)) (re_content ch)) st'"
proof -
  obtain ms0 ms cont r where ch: "add_completion (re_content ch) ms0 = Inr (ms, cont)"
      "sc_step (math_scheduler M) ((shown_request st)\<lparr>rq_messages := ms\<rparr>) ch (tk_turn st) = Inr r"
      "add_dummy (tr_request r) = Inr (tk_request st')" "tk_turn st' = Suc (tk_turn st)"
    using assms(1,3) by (elim talk_once_next) (auto intro: that)
  have "answered ((shown_request st)\<lparr>rq_messages := ms\<rparr>)"
    using add_completion_answered [OF ch(1)] assms(4) by (simp add: answered_def)
  then show ?thesis using ch(2-4) assms(2) by (intro math_step_tips) (auto simp: math_scheduler_def)
qed

lemma math_run_returns:
  assumes "\<And>n rq ch. E n rq = Inr ch \<Longrightarrow> re_content ch \<noteq> []"
  shows "\<exists>r. server_run (math_scheduler M) E rq = Some r"
  unfolding server_run_def
proof (rule repeat_returns [where I = "\<lambda>st. tk_turn st = 1 \<or> tipped st" and m = "\<lambda>st. if tk_turn st = 1 then 1 else 0"])
  show "tk_turn (first_talk rq) = 1 \<or> tipped (first_talk rq)" by (simp add: first_talk_def)
next
  fix st st'
  assume a: "tk_turn st = 1 \<or> tipped st" "talk_once (math_scheduler M) E st = Inr (Inr st')"
  then have "tk_turn st = 1" using tipped_ends by blast
  moreover obtain ch where "E (tk_turn st) (shown_request st) = Inr ch" using a(2) by (rule talk_once_next)
  then have "tipped st'" using math_next_tipped [OF a(2)] assms \<open>tk_turn st = 1\<close> by (auto simp: tipped_def)
  moreover from this have "1 < tk_turn st'" by (auto simp: tipped_def tipped_by_def)
  ultimately show "(tk_turn st' = 1 \<or> tipped st') \<and>
      (if tk_turn st' = 1 then 1 else 0 :: nat) < (if tk_turn st = 1 then 1 else 0)"
    by simp
qed

subsection \<open>Only answers are trained\<close>

definition tokens :: "reply \<Rightarrow> int list" where
  "tokens ch = (case re_ids ch of None \<Rightarrow> [] | Some ids \<Rightarrow> ids)"

text \<open>A reply with text and tokens, and a log probability for each token.\<close>

definition full_reply :: "reply \<Rightarrow> bool" where
  "full_reply ch = (re_content ch \<noteq> [] \<and> tokens ch \<noteq> [] \<and> length (extract_logprobs ch) = length (tokens ch))"

lemma full_reply_ids: "full_reply ch \<Longrightarrow> re_ids ch = Some (tokens ch)"
  by (simp add: full_reply_def tokens_def split: option.splits)

definition one_turn :: "reply \<Rightarrow> rollout_out \<Rightarrow> bool" where
  "one_turn ch out =
     (ou_ids out = [tokens ch] \<and> ou_mask out = [ones (length (tokens ch))] \<and> ou_logprobs out = [extract_logprobs ch])"

text \<open>
  Where the kept part of an answer ends: at the first \<open><answer>\<close> or \<open></think>\<close>, or nowhere.  The tokens
  kept for it are the fewest, but at least one, whose text is as long; all when no tag cuts the answer.
\<close>

definition tag_at :: "string \<Rightarrow> nat \<Rightarrow> bool" where
  "tag_at s n = (starts_with ''<answer>'' (drop n s) \<or> starts_with ''</think>'' (drop n s))"

definition answer_end :: "string \<Rightarrow> nat \<Rightarrow> bool" where
  "answer_end s n \<longleftrightarrow> n \<le> length s \<and> (\<forall>m < n. \<not> tag_at s m) \<and> (n < length s \<longrightarrow> tag_at s n)"

definition fewest_tokens :: "(int list \<Rightarrow> string) \<Rightarrow> int list \<Rightarrow> nat \<Rightarrow> nat \<Rightarrow> bool" where
  "fewest_tokens decode ids n k \<longleftrightarrow>
     0 < k \<and> k \<le> length ids \<and> (\<forall>i. 0 < i \<and> i < k \<longrightarrow> length (decode (take i ids)) < n)
     \<and> (k < length ids \<longrightarrow> n \<le> length (decode (take k ids)))"

definition kept_of :: "(int list \<Rightarrow> string) \<Rightarrow> reply \<Rightarrow> nat \<Rightarrow> nat \<Rightarrow> bool" where
  "kept_of decode ch n k \<longleftrightarrow>
     answer_end (re_content ch) n \<and>
     (if n < length (re_content ch) then fewest_tokens decode (tokens ch) n k else k = length (tokens ch))"

definition tip_tally :: "int list \<Rightarrow> nat \<Rightarrow> reply \<Rightarrow> tally" where
  "tip_tally tip k ch =
     \<lparr>ta_infos = [], ta_ids = [take k (tokens ch) @ tip],
      ta_mask = [ones (length (take k (tokens ch))) @ replicate (length tip) 0], ta_logprobs = [take k (extract_logprobs ch)]\<rparr>"

definition two_turns :: "(int list \<Rightarrow> string) \<Rightarrow> int list \<Rightarrow> reply \<Rightarrow> reply \<Rightarrow> rollout_out \<Rightarrow> bool" where
  "two_turns decode tip ch1 ch2 out =
     (\<exists>n k. kept_of decode ch1 n k \<and>
        m_content (last (ou_messages out)) = COne (CText (take n (re_content ch1) @ math_tip @ re_content ch2)) \<and>
        ou_ids out = [take k (tokens ch1) @ tip @ tokens ch2] \<and>
        ou_mask out = [ones (length (take k (tokens ch1))) @ replicate (length tip) 0 @ ones (length (tokens ch2))] \<and>
        ou_logprobs out = [take k (extract_logprobs ch1) @ extract_logprobs ch2])"

lemma find_in_set: "find P xs = Some x \<Longrightarrow> x \<in> set xs"
  by (induction xs) (auto split: if_splits)

lemma find_upt:
  assumes "find P [a ..< b] = Some i"
  shows "a \<le> i \<and> i < b \<and> P i \<and> (\<forall>j. a \<le> j \<and> j < i \<longrightarrow> \<not> P j)"
proof -
  obtain m where m: "m < b - a" "P (a + m)" "i = a + m" "\<And>j. j < m \<Longrightarrow> \<not> P (a + j)"
    using assms by (auto simp: find_Some_iff)
  have "\<not> P j" if "a \<le> j" "j < i" for j
    using m(4) [of "j - a"] m(3) that by simp
  then show ?thesis using m by simp
qed

lemma token_cut_fewest:
  assumes "ids \<noteq> []"
  shows "fewest_tokens decode ids n (token_cut decode ids n)"
proof (cases "find (\<lambda>i. n \<le> length (decode (take i ids))) [1 ..< Suc (length ids)]")
  case None
  then have "token_cut decode ids n = length ids" by (simp add: token_cut_def del: upt_Suc)
  moreover have "length (decode (take i ids)) < n" if "0 < i" "i \<le> length ids" for i
  proof -
    have "i \<in> set [1 ..< Suc (length ids)]" using that by auto
    then show ?thesis using None unfolding find_None_iff by (meson not_le)
  qed
  ultimately show ?thesis using assms by (simp add: fewest_tokens_def)
next
  case (Some i)
  then have "token_cut decode ids n = i" by (simp add: token_cut_def del: upt_Suc)
  then show ?thesis using find_upt [OF Some] by (auto simp: fewest_tokens_def not_le Suc_le_eq)
qed

lemma tag_position_first:
  assumes "tag \<noteq> []"
  shows "tag_position tag s \<le> length s \<and> (\<forall>m < tag_position tag s. \<not> starts_with tag (drop m s)) \<and>
    (tag_position tag s < length s \<longrightarrow> starts_with tag (drop (tag_position tag s) s))"
proof (induction s)
  case Nil
  then show ?case using assms by (simp add: tag_position_def)
next
  case (Cons c s)
  show ?case
  proof (cases "starts_with tag (c # s)")
    case True
    then show ?thesis by (simp add: tag_position_def)
  next
    case False
    then have "tag_position tag (c # s) = Suc (tag_position tag s)"
      by (auto simp: tag_position_def split: option.splits)
    then show ?thesis using Cons.IH False by (auto simp: less_Suc_eq_0_disj)
  qed
qed

lemma cut_position_end: "answer_end s (cut_position s)"
  using tag_position_first [of "''<answer>''" s] tag_position_first [of "''</think>''" s]
  unfolding answer_end_def tag_at_def cut_position_def by (auto simp: min_def split: if_splits)

lemma kept_tokens_of:
  assumes "mt_tokenizer M = Some (decode, encode)" "full_reply ch"
  obtains k where "0 < k" "kept_of decode ch (cut_position (re_content ch)) k"
    "kept_tokens M ch = (take k (tokens ch), take k (extract_logprobs ch))"
proof (cases "cut_position (re_content ch) < length (re_content ch)")
  case True
  have ne: "tokens ch \<noteq> []" using assms(2) by (simp add: full_reply_def)
  have f: "fewest_tokens decode (tokens ch) (cut_position (re_content ch)) (token_cut decode (tokens ch) (cut_position (re_content ch)))"
    by (rule token_cut_fewest [OF ne])
  then have "0 < token_cut decode (tokens ch) (cut_position (re_content ch))" by (simp add: fewest_tokens_def)
  then show ?thesis
    using that [of "token_cut decode (tokens ch) (cut_position (re_content ch))"] True assms ne f cut_position_end
    by (simp add: kept_tokens_def kept_of_def Let_def full_reply_ids)
next
  case False
  have "0 < length (tokens ch)" "length (extract_logprobs ch) = length (tokens ch)" using assms(2) by (simp_all add: full_reply_def)
  then show ?thesis
    using that [of "length (tokens ch)"] False assms cut_position_end
    by (simp add: kept_tokens_def kept_of_def Let_def full_reply_ids)
qed

lemma take_nonempty: "0 < k \<Longrightarrow> xs \<noteq> [] \<Longrightarrow> take k xs \<noteq> []"
  by (cases k; cases xs) simp_all

lemma math_first_tally:
  assumes "mt_tokenizer M = Some (decode, encode)" "full_reply ch"
    and "math_step M rq ch n = Inr r" "track_step cont r ch no_tally = Inr T"
  shows "\<exists>k. kept_of decode ch (cut_position (re_content ch)) k \<and> T = tip_tally (encode math_tip) k ch"
proof -
  obtain k where k: "0 < k" "kept_tokens M ch = (take k (tokens ch), take k (extract_logprobs ch))"
    and kept: "kept_of decode ch (cut_position (re_content ch)) k"
    using kept_tokens_of [OF assms(1,2)] by metis
  let ?ids = "take k (tokens ch)" and ?l = "take k (extract_logprobs ch)"
  have ne: "?ids \<noteq> []" "?l \<noteq> []" using k(1) assms(2) by (auto simp: full_reply_def intro!: take_nonempty)
  have w: "with_tip M ?ids = (?ids @ encode math_tip, ones (length ?ids) @ replicate (length (encode math_tip)) 0)"
    using ne(1) assms(1) by (simp add: with_tip_def ones_def)
  obtain ids l ids' mask ms where m: "kept_tokens M ch = (ids, l)" "with_tip M ids = (ids', mask)"
      "r = \<lparr>tr_request = rq\<lparr>rq_messages := ms\<rparr>, tr_ids = (if ids' = [] then None else Some ids'),
          tr_mask = (if ids' = [] then None else Some mask), tr_infos = None,
          tr_logprobs = (if ids' = [] \<or> l = [] then None else Some l)\<rparr>"
    using assms(3) by (rule math_step_parts)
  have p: "ids = ?ids" "l = ?l" using m(1) k(2) by simp_all
  have "ids' = ?ids @ encode math_tip" "mask = ones (length ?ids) @ replicate (length (encode math_tip)) 0"
    using m(2) w unfolding p by simp_all
  with m(3) p ne have "r = \<lparr>tr_request = rq\<lparr>rq_messages := ms\<rparr>, tr_ids = Some (?ids @ encode math_tip),
      tr_mask = Some (ones (length ?ids) @ replicate (length (encode math_tip)) 0), tr_infos = None, tr_logprobs = Some ?l\<rparr>"
    by simp
  then have "T = tip_tally (encode math_tip) k ch"
    using assms(4) ne(2)
    by (simp add: track_step_def step_logprobs_def mask_fits_def no_tally_def add_part_def tip_tally_def Let_def split: if_splits)
  then show ?thesis using kept by blast
qed

lemma sum_ones: "sum_list (ones n) = int n" "sum_list (replicate n (0 :: int)) = 0" "length (ones n) = n"
  by (simp_all add: ones_def sum_list_replicate)

lemma first_close:
  assumes "full_reply ch" "server_close cont ch no_tally = Inr T"
  shows "one_turn ch (make_output n ch' ms T)"
proof -
  have "tokens ch \<noteq> []" "extract_logprobs ch \<noteq> []" "length (extract_logprobs ch) = length (tokens ch)"
    using assms(1) by (auto simp: full_reply_def)
  then have "T = \<lparr>ta_infos = [], ta_ids = [tokens ch], ta_mask = [ones (length (tokens ch))], ta_logprobs = [extract_logprobs ch]\<rparr>"
    using assms(2) full_reply_ids [OF assms(1)] by (simp add: server_close_def no_tally_def start_tally_def ones_def Let_def)
  then show ?thesis
    using \<open>length _ = length _\<close> by (simp add: make_output_def one_turn_def complete_logprobs_def sum_ones)
qed

lemma second_close:
  assumes "full_reply ch1" "full_reply ch2" "kept_of decode ch1 e k" "server_close True ch2 (tip_tally tip k ch1) = Inr T"
    and "m_content (last ms) = COne (CText (take e (re_content ch1) @ math_tip @ re_content ch2))"
  shows "two_turns decode tip ch1 ch2 (make_output n ch' ms T)"
proof -
  have l: "length (extract_logprobs ch1) = length (tokens ch1)" "length (extract_logprobs ch2) = length (tokens ch2)"
      "extract_logprobs ch2 \<noteq> []"
    using assms(1,2) by (auto simp: full_reply_def)
  have "T = \<lparr>ta_infos = [], ta_ids = [take k (tokens ch1) @ tip @ tokens ch2],
      ta_mask = [ones (length (take k (tokens ch1))) @ replicate (length tip) 0 @ ones (length (tokens ch2))],
      ta_logprobs = [take k (extract_logprobs ch1) @ extract_logprobs ch2]\<rparr>"
    using assms(4) l(3) full_reply_ids [OF assms(2)]
    by (simp add: server_close_def tip_tally_def extend_tally_def extend_last_def ones_def)
  then show ?thesis
    using l(1,2) assms(3,5) unfolding two_turns_def
    by (intro exI [of _ e] exI [of _ k]) (simp add: make_output_def complete_logprobs_def sum_ones Let_def)
qed

definition math_state ::
  "(nat \<Rightarrow> rollout_request \<Rightarrow> reply res) \<Rightarrow> (int list \<Rightarrow> string) \<Rightarrow> int list \<Rightarrow> talk \<Rightarrow> bool" where
  "math_state E decode tip st =
     (tk_turn st = 1 \<and> tk_tally st = no_tally \<or>
      tk_turn st = 2 \<and> (\<exists>ch rq n k. E 1 rq = Inr ch \<and> kept_of decode ch n k \<and> tipped_by (take n (re_content ch)) st \<and>
        tk_tally st = tip_tally tip k ch))"

definition math_output ::
  "(nat \<Rightarrow> rollout_request \<Rightarrow> reply res) \<Rightarrow> (int list \<Rightarrow> string) \<Rightarrow> int list \<Rightarrow> rollout_out \<Rightarrow> bool" where
  "math_output E decode tip out =
     ((\<exists>ch rq. E 1 rq = Inr ch \<and> one_turn ch out) \<or>
      (\<exists>ch1 ch2 rq1 rq2. E 1 rq1 = Inr ch1 \<and> E 2 rq2 = Inr ch2 \<and> two_turns decode tip ch1 ch2 out))"

lemma math_state_next:
  assumes tok: "mt_tokenizer M = Some (decode, encode)" and full: "\<And>n rq ch. E n rq = Inr ch \<Longrightarrow> full_reply ch"
    and now: "math_state E decode (encode math_tip) st" and go: "talk_once (math_scheduler M) E st = Inr (Inr st')"
  shows "math_state E decode (encode math_tip) st'"
proof -
  have "\<not> tipped st" using tipped_ends go by blast
  then have one: "tk_turn st = 1" "tk_tally st = no_tally" using now by (auto simp: math_state_def tipped_def)
  obtain ch ms0 ms cont r where ch: "E (tk_turn st) (shown_request st) = Inr ch"
      "sc_step (math_scheduler M) ((shown_request st)\<lparr>rq_messages := ms\<rparr>) ch (tk_turn st) = Inr r"
      "track_step cont r ch (tk_tally st) = Inr (tk_tally st')" "tk_turn st' = Suc (tk_turn st)"
    using go by (rule talk_once_next)
  have "math_step M ((shown_request st)\<lparr>rq_messages := ms\<rparr>) ch 1 = Inr r" "track_step cont r ch no_tally = Inr (tk_tally st')"
    using ch(2,3) one by (simp_all add: math_scheduler_def)
  from math_first_tally [OF tok full [OF ch(1)] this]
  obtain k where k: "kept_of decode ch (cut_position (re_content ch)) k" "tk_tally st' = tip_tally (encode math_tip) k ch" by blast
  have "re_content ch \<noteq> []" using full [OF ch(1)] by (simp add: full_reply_def)
  then have "tipped_by (take (cut_position (re_content ch)) (re_content ch)) st'"
    using math_next_tipped [OF go _ ch(1)] one(1) by simp
  moreover have "E 1 (shown_request st) = Inr ch" "tk_turn st' = 2" using ch(1,4) one(1) by simp_all
  ultimately show ?thesis using k unfolding math_state_def by blast
qed

lemma math_state_close:
  assumes full: "\<And>n rq ch. E n rq = Inr ch \<Longrightarrow> full_reply ch"
    and now: "math_state E decode tip st" and go: "talk_once (math_scheduler M) E st = Inr (Inl out)"
  shows "math_output E decode tip out"
proof -
  obtain ch ms0 ms cont T where ch: "E (tk_turn st) (shown_request st) = Inr ch"
      "drop_dummy (tk_turn st) (rq_messages (shown_request st)) = Inr ms0" "add_completion (re_content ch) ms0 = Inr (ms, cont)"
      "server_close cont ch (tk_tally st) = Inr T" "out = make_output (tk_turn st) ch ms T"
    using go by (rule talk_once_result)
  from now consider (one) "tk_turn st = 1" "tk_tally st = no_tally"
    | (two) ch1 rq1 e k where "tk_turn st = 2" "tipped_by (take e (re_content ch1)) st" "E 1 rq1 = Inr ch1"
        "kept_of decode ch1 e k" "tk_tally st = tip_tally tip k ch1"
    unfolding math_state_def by blast
  then show ?thesis
  proof cases
    case one
    have "one_turn ch out" unfolding ch(5) by (rule first_close [OF full [OF ch(1)] ch(4) [unfolded one(2)]])
    then show ?thesis using ch(1) one(1) unfolding math_output_def by metis
  next
    case two
    obtain xs a where p: "drop_dummy (tk_turn st) (rq_messages (shown_request st)) = Inr (xs @ [a])"
        "add_completion (re_content ch) (xs @ [a])
          = Inr (xs @ [a\<lparr>m_content := COne (CText (take e (re_content ch1) @ math_tip @ re_content ch))\<rparr>], True)"
      using tipped_places [OF two(2)] by metis
    then have cont and ms: "m_content (last ms) = COne (CText (take e (re_content ch1) @ math_tip @ re_content ch))"
      using ch(2,3) by auto
    then have "server_close True ch (tip_tally tip k ch1) = Inr T" using ch(4) two(5) by simp
    from second_close [OF full [OF two(3)] full [OF ch(1)] two(4) this ms]
    have "two_turns decode tip ch1 ch out" unfolding ch(5) .
    then show ?thesis using ch(1) two(1,3) unfolding math_output_def by metis
  qed
qed

text \<open>
  C17. Tips are given once: when \<open>MathTipsScheduler\<close> has a tokenizer and every reply of the engine has
  text and tokens with a log probability for each, a rollout always returns, after one reply or two
  (or with an error of the engine or of the data).  One reply is trained whole.  With two, the first is
  cut at its first \<open><answer>\<close> or \<open></think>\<close>: the closing message is that part of it, the tip and the
  second reply.  The tokens kept of the first reply are the fewest, at least one, whose text reaches the
  cut (all without a tag); the mask trains exactly these and the tokens of the second reply, not those
  of the tip, and the log probabilities are those of the trained tokens, in order.
\<close>

theorem tips_given_once:
  assumes "mt_tokenizer M = Some (decode, encode)" "\<And>n rq ch. E n rq = Inr ch \<Longrightarrow> full_reply ch"
  shows "\<exists>r. server_run (math_scheduler M) E rq = Some r \<and>
    (case r of Inl e \<Rightarrow> True | Inr out \<Rightarrow> math_output E decode (encode math_tip) out)"
proof -
  have "re_content ch \<noteq> []" if "E n rq = Inr ch" for n rq ch using assms(2) [OF that] by (simp add: full_reply_def)
  then obtain r where r: "server_run (math_scheduler M) E rq = Some r" using math_run_returns by blast
  have start: "math_state E decode (encode math_tip) (first_talk rq)" by (simp add: math_state_def first_talk_def)
  have "math_output E decode (encode math_tip) out" if "r = Inr out" for out
  proof (rule repeat_invariant [where I = "math_state E decode (encode math_tip)" and Q = "math_output E decode (encode math_tip)"])
    show "repeat_turns (talk_once (math_scheduler M) E) (first_talk rq) = Some (Inr out)"
      using r unfolding that server_run_def .
    show "math_state E decode (encode math_tip) (first_talk rq)" by (rule start)
    show "math_state E decode (encode math_tip) t" if "math_state E decode (encode math_tip) s" "talk_once (math_scheduler M) E s = Inr (Inr t)" for s t
      by (rule math_state_next [OF assms(1) _ that]) (rule assms(2))
    show "math_output E decode (encode math_tip) x" if "math_state E decode (encode math_tip) s" "talk_once (math_scheduler M) E s = Inr (Inl x)" for s x
      by (rule math_state_close [OF _ that]) (rule assms(2))
  qed
  then show ?thesis using r by (cases r) simp_all
qed

definition tip_settings :: math_tips where
  "tip_settings = \<lparr>mt_accuracy = (\<lambda>s sol. Inr (if PStr s = sol then 1 else 0)),
     mt_tokenizer = Some (map (\<lambda>i. CHR ''x''), map (\<lambda>c. 1)), mt_max_turns = None\<rparr>"

definition tip_engine :: "nat \<Rightarrow> rollout_request \<Rightarrow> reply res" where
  "tip_engine n rq = Inr \<lparr>re_id = ''r'', re_content = (if n = 1 then ''4</think>'' else '' so 5''), re_finish = Some ''stop'',
     re_ids = Some [7, 8], re_logprobs = Some [(''content'', [- 1, - 2])]\<rparr>"

definition tip_request :: rollout_request where
  "tip_request = \<lparr>rq_messages = [msg ''user'' (COne (CText ''2+3''))], rq_data = [(''solution'', PStr ''5'')], rq_uuid = ''u''\<rparr>"

theorem tips_given_once_witness:
  "\<exists>r. server_run (math_scheduler tip_settings) tip_engine tip_request = Some r \<and>
    (case r of Inl e \<Rightarrow> True | Inr out \<Rightarrow> math_output tip_engine (map (\<lambda>i. CHR ''x'')) (map (\<lambda>c. 1) math_tip) out)"
  by (rule tips_given_once [where decode = "map (\<lambda>i. CHR ''x'')"])
    (auto simp: tip_settings_def tip_engine_def full_reply_def tokens_def extract_logprobs_def dget_or_def)

text \<open>This rollout takes the two turns.\<close>

lemma tip_rollout:
  "case server_run (math_scheduler tip_settings) tip_engine tip_request of
     Some (Inr out) \<Rightarrow> ou_ids out = [[7] @ replicate 38 1 @ [7, 8]] \<and> ou_logprobs out = [[- 1, - 1, - 2]]
   | _ \<Rightarrow> False"
  by code_simp

subsection \<open>The trainer and the server agree\<close>

text \<open>Where a dialogue stands between two turns.\<close>

definition between_turns :: "talk \<Rightarrow> bool" where
  "between_turns st =
     (let ms = rq_messages (tk_request st) in
      (tk_turn st = 1 \<and> ta_ids (tk_tally st) = [] \<and> ms \<noteq> [] \<and> \<not> is_answer (last ms)) \<or>
      (1 < tk_turn st \<and> (\<exists>xs a. ms = xs @ [a, msg ''assistant'' CNone] \<and> is_answer a)))"

lemma between_places:
  assumes "between_turns st"
  obtains ms where "shown_request st = tk_request st" "drop_dummy (tk_turn st) (rq_messages (tk_request st)) = Inr ms"
    "(let ms0 = rq_messages (tk_request st) in if m_content (last ms0) = CNone then remove_response ms0 else ms0) = ms"
    "rq_messages (tk_request st) \<noteq> []" "ta_ids (tk_tally st) = [] \<or> is_answer (last ms)"
proof -
  let ?ms = "rq_messages (tk_request st)"
  from assms consider (one) "tk_turn st = 1" "ta_ids (tk_tally st) = []" "?ms \<noteq> []" "\<not> is_answer (last ?ms)"
    | (more) xs a where "1 < tk_turn st" "?ms = xs @ [a, msg ''assistant'' CNone]" "is_answer a"
    unfolding between_turns_def Let_def by blast
  then show ?thesis
  proof cases
    case one
    then show ?thesis
      by (intro that [of ?ms]) (simp_all add: shown_request_def drop_dummy_def remove_response_def is_answer_def Let_def)
  next
    case more
    then show ?thesis
      by (intro that [of "xs @ [a]"])
        (simp_all add: shown_request_def drop_dummy_def remove_response_def falsy_content_def msg_def butlast_append Let_def)
  qed
qed

text \<open>What one turn does to the row of the batch, when it does not raise on the server.\<close>

definition row_follows :: "turn_scheduler \<Rightarrow> nat \<Rightarrow> reply \<Rightarrow> dialogue \<Rightarrow> rollout_out + talk \<Rightarrow> dialogue \<Rightarrow> bool \<Rightarrow> dialogue \<Rightarrow> bool" where
  "row_follows S n ch d x d1 stop d2 =
     (place_reply ch d = Inr d1 \<and> sc_check S (di_request d1) ch n = Inr stop \<and>
      (let fin = stop \<or> limit_reached (sc_max_turns S) n in
       settle_row S n (fin, ch) d1 = Inr d2 \<and>
       (case x of
          Inl out \<Rightarrow> fin \<and> di_out d2 = Some out
        | Inr st' \<Rightarrow> \<not> fin \<and> st' = \<lparr>tk_request = di_request d2, tk_turn = Suc n, tk_tally = di_tally d2\<rparr> \<and> between_turns st')))"

lemma closes_agree: "ta_ids T = [] \<or> cont \<Longrightarrow> server_close cont ch T = colocate_close cont ch T"
  by (auto simp: server_close_def colocate_close_def)

context answering_scheduler
begin

lemma row_turn:
  assumes st: "between_turns st" "tk_request st = di_request d" "tk_tally st = di_tally d" "tk_turn st = n" "1 \<le> n"
    and E: "E n (shown_request st) = Inr ch" "re_content ch \<noteq> []" and go: "talk_once S E st = Inr x"
  shows "\<exists>d1 stop d2. row_follows S n ch d x d1 stop d2"
proof -
  obtain ms0 where ms0: "shown_request st = di_request d" "drop_dummy n (rq_messages (di_request d)) = Inr ms0"
      "(let ms = rq_messages (di_request d) in if m_content (last ms) = CNone then remove_response ms else ms) = ms0"
      "rq_messages (di_request d) \<noteq> []" "ta_ids (di_tally d) = [] \<or> is_answer (last ms0)"
    using between_places [OF st(1)] unfolding st(2-4) by metis
  obtain ms cont where a: "add_completion (re_content ch) ms0 = Inr (ms, cont)"
    using go E(1) ms0(1,2) unfolding talk_once_def st(4) by (auto simp: Let_def res_bind_eq_Inr_iff)
  have cont: "ta_ids (di_tally d) = [] \<or> cont" using ms0(5) a by (auto simp: add_completion_def split: if_splits content.splits ctx.splits)
  let ?rq = "(di_request d)\<lparr>rq_messages := ms\<rparr>"
  let ?d1 = "d\<lparr>di_request := ?rq, di_cont := cont\<rparr>"
  have place: "place_reply ch d = Inr ?d1" using ms0(3,4) a by (simp add: place_reply_def Let_def)
  obtain stop where check: "sc_check S ?rq ch n = Inr stop"
    using go E(1) ms0(1,2) a unfolding talk_once_def st(4) by (auto simp: Let_def res_bind_eq_Inr_iff)
  show ?thesis
  proof (cases "stop \<or> limit_reached (sc_max_turns S) n")
    case True
    then obtain T where T: "server_close cont ch (di_tally d) = Inr T" "x = Inl (make_output n ch ms T)"
      using go E(1) ms0(1,2) a check unfolding talk_once_def st(3,4) by (auto simp: Let_def res_bind_eq_Inr_iff)
    then have "settle_row S n (True, ch) ?d1 = Inr (?d1\<lparr>di_tally := T, di_out := Some (make_output n ch ms T)\<rparr>)"
      using closes_agree [OF cont] by (simp add: settle_row_def)
    then show ?thesis using place check True T(2) by (auto simp: row_follows_def)
  next
    case False
    then obtain r T rq' where r: "sc_step S ?rq ch n = Inr r" "track_step cont r ch (di_tally d) = Inr T"
        "add_dummy (tr_request r) = Inr rq'" "x = Inr \<lparr>tk_request = rq', tk_turn = Suc n, tk_tally = T\<rparr>"
      using go E(1) ms0(1,2) a check unfolding talk_once_def st(3,4) by (auto simp: Let_def res_bind_eq_Inr_iff)
    have "answered ?rq" using add_completion_answered [OF a E(2)] by (simp add: answered_def)
    from answer_last [OF this r(1)]
    have l: "rq_messages (tr_request r) \<noteq> []" "is_answer (last (rq_messages (tr_request r)))" by simp_all
    then have "rq_messages rq' = butlast (rq_messages (tr_request r)) @ [last (rq_messages (tr_request r)), msg ''assistant'' CNone]"
      using r(3) by (auto simp: add_dummy_def)
    then have "between_turns \<lparr>tk_request = rq', tk_turn = Suc n, tk_tally = T\<rparr>"
      using l(2) st(5) unfolding between_turns_def Let_def by auto
    moreover have "settle_row S n (False, ch) ?d1 = Inr (?d1\<lparr>di_tally := T, di_request := rq'\<rparr>)"
      using r(1-3) by (simp add: settle_row_def)
    ultimately show ?thesis using place check False r(4)
      by (intro exI [of _ ?d1] exI [of _ stop] exI [of _ "?d1\<lparr>di_tally := T, di_request := rq'\<rparr>"]) (simp add: row_follows_def)
  qed
qed

end

lemma for_rows_nth:
  assumes "distinct js" "\<And>i. i \<in> set js \<Longrightarrow> i < length rows \<and> f (c i) (rows ! i) = Inr (g i)"
  shows "\<exists>rows'. for_rows f (map (\<lambda>i. (i, c i)) js) rows = Inr rows' \<and> length rows' = length rows \<and>
    (\<forall>i. rows' ! i = (if i \<in> set js then g i else rows ! i))"
  using assms
proof (induction js arbitrary: rows)
  case (Cons i js)
  have i: "i < length rows" "f (c i) (rows ! i) = Inr (g i)" "i \<notin> set js" using Cons.prems by auto
  have "j < length (rows[i := g i]) \<and> f (c j) (rows[i := g i] ! j) = Inr (g j)" if "j \<in> set js" for j
    using Cons.prems(2) [of j] that i(3) by (cases "j = i") auto
  then obtain rows' where "for_rows f (map (\<lambda>i. (i, c i)) js) (rows[i := g i]) = Inr rows'" "length rows' = length rows"
      "\<And>j. rows' ! j = (if j \<in> set js then g j else rows[i := g i] ! j)"
    using Cons.IH [of "rows[i := g i]"] Cons.prems(1) by auto
  then show ?case using i by (intro exI [of _ rows']) (auto simp: nth_list_update)
qed simp

definition talk_of :: "batch \<Rightarrow> nat \<Rightarrow> talk" where
  "talk_of B i = \<lparr>tk_request = di_request (bt_rows B ! i), tk_turn = bt_turn B, tk_tally = di_tally (bt_rows B ! i)\<rparr>"

text \<open>The batch follows the dialogues of its requests, which end within \<open>k\<close> turns with \<open>outs\<close>.\<close>

definition follows ::
  "turn_scheduler \<Rightarrow> (nat \<Rightarrow> nat \<Rightarrow> rollout_request \<Rightarrow> reply res) \<Rightarrow> rollout_out list \<Rightarrow> nat \<Rightarrow> (nat \<Rightarrow> reply) \<Rightarrow> batch \<Rightarrow> bool" where
  "follows S E outs k CH B =
     (length (bt_rows B) = length outs \<and> distinct (bt_active B) \<and> set (bt_active B) \<subseteq> {0 ..< length outs} \<and> 1 \<le> bt_turn B \<and>
      bt_replies B = map CH (bt_active B) \<and>
      (\<forall>i \<in> set (bt_active B). between_turns (talk_of B i) \<and> E i (bt_turn B) (di_request (bt_rows B ! i)) = Inr (CH i) \<and>
         yields (talk_once S (E i)) k (talk_of B i) (outs ! i)) \<and>
      (\<forall>i < length outs. i \<notin> set (bt_active B) \<longrightarrow> di_out (bt_rows B ! i) = Some (outs ! i)))"

lemma yields_reply: "yields (talk_once S E) k st out \<Longrightarrow> \<exists>ch. E (tk_turn st) (shown_request st) = Inr ch"
  by (cases k) (auto simp: talk_once_def Let_def res_bind_def split: sum.splits)

context answering_scheduler
begin

lemma round_follows:
  assumes F: "follows S E outs (Suc k) CH B" and E: "\<And>i n rq ch. E i n rq = Inr ch \<Longrightarrow> re_content ch \<noteq> []"
  shows "\<exists>CH' B'. batch_round S E B = Inr B' \<and> follows S E outs k CH' B'"
proof -
  let ?n = "bt_turn B" and ?A = "bt_active B" and ?rows = "bt_rows B" and ?N = "length outs"
  have A: "length ?rows = ?N" "distinct ?A" "set ?A \<subseteq> {0 ..< ?N}" "1 \<le> ?n" "bt_replies B = map CH ?A"
    and act: "\<And>i. i \<in> set ?A \<Longrightarrow> between_turns (talk_of B i) \<and> E i ?n (di_request (?rows ! i)) = Inr (CH i) \<and>
         yields (talk_once S (E i)) (Suc k) (talk_of B i) (outs ! i)"
    and idle: "\<And>i. i < ?N \<Longrightarrow> i \<notin> set ?A \<Longrightarrow> di_out (?rows ! i) = Some (outs ! i)"
    using F by (auto simp: follows_def)
  have "\<exists>x d1 stop d2. talk_once S (E i) (talk_of B i) = Inr x \<and> row_follows S ?n (CH i) (?rows ! i) x d1 stop d2"
    if i: "i \<in> set ?A" for i
  proof -
    obtain x where x: "talk_once S (E i) (talk_of B i) = Inr x" using act [OF i] by (auto split: sum.splits)
    have "shown_request (talk_of B i) = di_request (?rows ! i)"
      using between_places [of "talk_of B i"] act [OF i] by (auto simp: talk_of_def)
    then have "E i ?n (shown_request (talk_of B i)) = Inr (CH i)" using act [OF i] by simp
    from row_turn [OF _ _ _ _ A(4) this E x, of "?rows ! i"] act [OF i] x show ?thesis by (auto simp: talk_of_def)
  qed
  then obtain X D1 ST D2 where go: "\<And>i. i \<in> set ?A \<Longrightarrow> talk_once S (E i) (talk_of B i) = Inr (X i)"
      and row: "\<And>i. i \<in> set ?A \<Longrightarrow> row_follows S ?n (CH i) (?rows ! i) (X i) (D1 i) (ST i) (D2 i)"
    by metis
  define fin where "fin i = (ST i \<or> limit_reached (sc_max_turns S) ?n)" for i
  have zip1: "zip ?A (map CH ?A) = map (\<lambda>i. (i, CH i)) ?A" by (simp add: zip_map2 zip_same_conv_map)
  obtain rows1 where rows1: "for_rows place_reply (map (\<lambda>i. (i, CH i)) ?A) ?rows = Inr rows1" "length rows1 = ?N"
      "\<And>i. rows1 ! i = (if i \<in> set ?A then D1 i else ?rows ! i)"
    using for_rows_nth [OF A(2), of ?rows place_reply CH D1] A(1,3) row by (force simp: row_follows_def)
  have "map_res (\<lambda>(i, ch). sc_check S (di_request (rows1 ! i)) ch ?n) (map (\<lambda>i. (i, CH i)) ?A)
      = Inr (map (\<lambda>p. ST (fst p)) (map (\<lambda>i. (i, CH i)) ?A))"
    using row rows1(3) by (intro map_res_all) (auto simp: row_follows_def)
  then have "map_res (\<lambda>(i, ch). sc_check S (di_request (rows1 ! i)) ch ?n) (map (\<lambda>i. (i, CH i)) ?A) = Inr (map ST ?A)"
    by (simp add: comp_def)
  moreover have ends: "map (\<lambda>s. s \<or> limit_reached (sc_max_turns S) ?n) (map ST ?A) = map fin ?A" by (simp add: fin_def)
  moreover have zip2: "zip ?A (zip (map fin ?A) (map CH ?A)) = map (\<lambda>i. (i, fin i, CH i)) ?A"
    by (simp add: zip_map1 zip_map2 zip_same_conv_map)
  moreover obtain rows2 where rows2: "for_rows (settle_row S ?n) (map (\<lambda>i. (i, fin i, CH i)) ?A) rows1 = Inr rows2" "length rows2 = ?N"
      "\<And>i. rows2 ! i = (if i \<in> set ?A then D2 i else rows1 ! i)"
    using for_rows_nth [OF A(2), of rows1 "settle_row S ?n" "\<lambda>i. (fin i, CH i)" D2] A(3) row rows1(2,3)
    by (force simp: row_follows_def fin_def Let_def)
  define nxt where "nxt = filter (\<lambda>i. \<not> fin i) ?A"
  have zip3: "map fst (filter (\<lambda>p. \<not> snd p) (zip ?A (map fin ?A))) = nxt"
    by (simp add: nxt_def zip_map2 zip_same_conv_map filter_map comp_def)
  have next_row: "between_turns \<lparr>tk_request = di_request (D2 i), tk_turn = Suc ?n, tk_tally = di_tally (D2 i)\<rparr> \<and>
      yields (talk_once S (E i)) k \<lparr>tk_request = di_request (D2 i), tk_turn = Suc ?n, tk_tally = di_tally (D2 i)\<rparr> (outs ! i)"
    if "i \<in> set nxt" for i
  proof -
    have i: "i \<in> set ?A" "\<not> fin i" using that by (auto simp: nxt_def)
    then show ?thesis using act [OF i(1)] go [OF i(1)] row [OF i(1)]
      by (auto simp: row_follows_def fin_def Let_def split: sum.splits)
  qed
  have "\<exists>ch. E i (Suc ?n) (di_request (rows2 ! i)) = Inr ch" if "i \<in> set nxt" for i
  proof -
    let ?st = "\<lparr>tk_request = di_request (D2 i), tk_turn = Suc ?n, tk_tally = di_tally (D2 i)\<rparr>"
    have "shown_request ?st = di_request (D2 i)"
      using between_places [of ?st] next_row [OF that] by auto
    then show ?thesis using yields_reply [of S "E i" k ?st] next_row [OF that] rows2(3) [of i] that by (auto simp: nxt_def)
  qed
  then obtain CH' where CH': "\<And>i. i \<in> set nxt \<Longrightarrow> E i (Suc ?n) (di_request (rows2 ! i)) = Inr (CH' i)" by metis
  then have replies: "map_res (\<lambda>i. E i (Suc ?n) (di_request (rows2 ! i))) nxt = Inr (map CH' nxt)" by (rule map_res_all)
  let ?B = "\<lparr>bt_turn = Suc ?n, bt_active = nxt, bt_replies = map CH' nxt, bt_rows = rows2\<rparr>"
  have "batch_round S E B = Inr ?B"
    unfolding batch_round_def Let_def A(5) zip1
    using rows1(1) calculation(1) rows2(1) replies by (simp only: ends zip2 zip3 res_bind_Inr length_map simp_thms if_False)
  moreover have "follows S E outs k CH' ?B"
  proof -
    have "di_out (rows2 ! i) = Some (outs ! i)" if "i < ?N" "i \<notin> set nxt" for i
    proof (cases "i \<in> set ?A")
      case True
      then have "fin i" using that(2) by (simp add: nxt_def)
      then show ?thesis using True act [OF True] go [OF True] row [OF True] rows2(3) [of i]
        by (auto simp: row_follows_def fin_def Let_def split: sum.splits)
    next
      case False
      then show ?thesis using idle [OF that(1)] rows1(3) [of i] rows2(3) [of i] by simp
    qed
    moreover have "di_request (rows2 ! i) = di_request (D2 i) \<and> di_tally (rows2 ! i) = di_tally (D2 i)" if "i \<in> set nxt" for i
      using that rows2(3) [of i] by (simp add: nxt_def)
    ultimately show ?thesis
      using A(2,3) rows2(2) next_row CH' unfolding follows_def by (auto simp: talk_of_def nxt_def)
  qed
  ultimately show ?thesis by blast
qed

lemma rounds_follow:
  assumes "follows S E outs k CH B" and E: "\<And>i n rq ch. E i n rq = Inr ch \<Longrightarrow> re_content ch \<noteq> []"
  shows "\<exists>rows. repeat_turns (round_once S E) B = Some (Inr rows) \<and> map di_out rows = map Some outs"
  using assms(1)
proof (induction k arbitrary: CH B)
  case 0
  then have "bt_active B = []" by (cases "bt_active B") (auto simp: follows_def)
  then show ?case using 0
    by (intro exI [of _ "bt_rows B"]) (auto simp: round_once_def repeat_simps follows_def intro!: nth_equalityI)
next
  case (Suc k)
  show ?case
  proof (cases "bt_active B = []")
    case True
    then show ?thesis using Suc.prems
      by (intro exI [of _ "bt_rows B"]) (auto simp: round_once_def repeat_simps follows_def intro!: nth_equalityI)
  next
    case False
    obtain CH' B' where "batch_round S E B = Inr B'" "follows S E outs k CH' B'" using round_follows [OF Suc.prems] E by blast
    then show ?thesis using Suc.IH False by (simp add: round_once_def repeat_simps)
  qed
qed

end

text \<open>
  C22. What a rollout keeps of its turns stays aligned, for every scheduler whose steps return a mask
  exactly when they return tokens, wherever the dialogue goes on (in the answer, or with a question of
  the user): when the rollout on the server ends without an error, each row of tokens has a mask of
  its length, the log probabilities are missing or there is one for each trained token, and the
  trainer accepts tokens and masks in place of the answers.
\<close>

theorem rollout_stays_aligned:
  assumes "masked_scheduler S" "server_run S E rq = Some (Inr out)"
  shows "map length (ou_ids out) = map length (ou_mask out) \<and>
    (ou_logprobs out = [] \<or> int (length (concat (ou_logprobs out))) = sum_list (concat (ou_mask out))) \<and>
    (ou_ids out = [] \<or> (\<exists>ms. replace_assistant_response_with_ids (ou_messages out) (Nested (ou_ids out))
       (Some (Nested (map (map of_int) (ou_mask out)))) = Inr ms))"
proof -
  note a = masked_scheduler.run_aligned [OF assms]
  moreover have "\<exists>ms. replace_assistant_response_with_ids (ou_messages out) (Nested (ou_ids out))
       (Some (Nested (map (map of_int) (ou_mask out)))) = Inr ms" if "ou_ids out \<noteq> []"
  proof -
    have "map length (ou_ids out) = map length (map (map of_int) (ou_mask out) :: real list list)" using a by (simp add: comp_def)
    moreover have "ou_mask out \<noteq> []" using a that by auto
    ultimately show ?thesis using that by (simp add: replace_assistant_response_with_ids_def Let_def)
  qed
  ultimately show ?thesis by blast
qed

lemma tip_rollout_ends: "\<exists>out. server_run (math_scheduler tip_settings) tip_engine tip_request = Some (Inr out)"
  using tip_rollout by (auto split: option.splits sum.splits)

theorem rollout_stays_aligned_witness:
  "\<exists>out. server_run (math_scheduler tip_settings) tip_engine tip_request = Some (Inr out) \<and>
    map length (ou_ids out) = map length (ou_mask out) \<and>
    (ou_logprobs out = [] \<or> int (length (concat (ou_logprobs out))) = sum_list (concat (ou_mask out))) \<and>
    (ou_ids out = [] \<or> (\<exists>ms. replace_assistant_response_with_ids (ou_messages out) (Nested (ou_ids out))
       (Some (Nested (map (map of_int) (ou_mask out)))) = Inr ms))"
proof -
  obtain out where "server_run (math_scheduler tip_settings) tip_engine tip_request = Some (Inr out)"
    using tip_rollout_ends by blast
  then show ?thesis using rollout_stays_aligned [OF math.masked_scheduler_axioms] by blast
qed

text \<open>
  C16. The trainer and the rollout server agree on successful dialogues: for a scheduler that, after an
  answer, goes on in the answer (the request it returns ends with the assistant), an engine whose
  replies are never empty, and requests that end with another role than the assistant.  When the run
  of every request on the server ends without an error, running the requests as a batch, turn by turn
  in the trainer, gives for each request what its own run on the server gives, with the same replies
  of the engine, however many turns the others take.  The conditions matter: after an empty reply,
  which \<open>MathTipsScheduler\<close> takes for the dummy answer and removes, or with a scheduler that asks the
  user again, the dialogue does not go on in the answer; then the server loses the tokens of the
  closing turn and the trainer keeps them (\<open>server_loses_last_turn\<close>).
\<close>

theorem server_and_trainer_agree:
  assumes "answering_scheduler S" and "\<And>i n rq ch. E i n rq = Inr ch \<Longrightarrow> re_content ch \<noteq> []"
    and "list_all (\<lambda>rq. rq_messages rq \<noteq> [] \<and> \<not> is_answer (last (rq_messages rq))) rqs"
    and "map_res (\<lambda>i. E i 1 (rqs ! i)) [0 ..< length rqs] = Inr replies"
    and "length outs = length rqs" "list_all (\<lambda>i. server_run S (E i) (rqs ! i) = Some (Inr (outs ! i))) [0 ..< length rqs]"
  shows "colocate_run S E rqs replies = Some (Inr outs)"
proof -
  let ?N = "length rqs"
  have "\<exists>k. yields (talk_once S (E i)) k (first_talk (rqs ! i)) (outs ! i)" if "i < ?N" for i
    using assms(6) that repeat_yields unfolding server_run_def by (fastforce simp: list_all_iff)
  then obtain K where K: "\<And>i. i < ?N \<Longrightarrow> yields (talk_once S (E i)) (K i) (first_talk (rqs ! i)) (outs ! i)" by metis
  define k where "k = (\<Sum>i < ?N. K i)"
  have k: "yields (talk_once S (E i)) k (first_talk (rqs ! i)) (outs ! i)" if "i < ?N" for i
    using K [OF that] that by (rule_tac yields_more) (auto simp: k_def intro: member_le_sum)
  have rep: "length replies = ?N" "\<And>i. i < ?N \<Longrightarrow> E i 1 (rqs ! i) = Inr (replies ! i)"
    using assms(4) by (auto simp: map_res_Inr_iff list_all2_conv_all_nth)
  then have "replies = map ((!) replies) [0 ..< ?N]" by (metis map_nth)
  moreover have "between_turns (first_talk (rqs ! i))" if "i < ?N" for i
    using assms(3) that by (auto simp: between_turns_def first_talk_def no_tally_def list_all_length)
  ultimately have F: "follows S E outs k ((!) replies) (first_batch rqs replies)"
    using k rep assms(5) by (auto simp: follows_def first_batch_def talk_of_def first_talk_def)
  have "\<exists>rows. repeat_turns (round_once S E) (first_batch rqs replies) = Some (Inr rows) \<and> map di_out rows = map Some outs"
    by (rule answering_scheduler.rounds_follow [OF assms(1) F]) (rule assms(2))
  then obtain rows where rows: "repeat_turns (round_once S E) (first_batch rqs replies) = Some (Inr rows)" "map di_out rows = map Some outs"
    by blast
  have "map_res (\<lambda>d. case di_out d of None \<Rightarrow> Inl AssertionError | Some out \<Rightarrow> Inr out) rows = Inr outs"
    using rows(2) by (simp add: map_res_Inr_iff list_all2_conv_all_nth list_eq_iff_nth_eq)
  then show ?thesis using rows(1) by (simp add: colocate_run_def)
qed

theorem server_and_trainer_agree_witness:
  "\<exists>out replies. colocate_run (math_scheduler tip_settings) (\<lambda>i. tip_engine) [tip_request, tip_request] replies = Some (Inr [out, out])"
proof -
  obtain out where out: "server_run (math_scheduler tip_settings) tip_engine tip_request = Some (Inr out)"
    using tip_rollout_ends by blast
  have "colocate_run (math_scheduler tip_settings) (\<lambda>i. tip_engine) [tip_request, tip_request]
      [projr (tip_engine 1 tip_request), projr (tip_engine 1 tip_request)] = Some (Inr [out, out])"
    by (rule server_and_trainer_agree [OF math_answers.answering_scheduler_axioms])
      (use out in \<open>auto simp: tip_engine_def tip_request_def msg_def is_answer_def upt_rec less_Suc_eq\<close>)
  then show ?thesis by blast
qed

subsection \<open>Where the rollouts go wrong\<close>

text \<open>
  A scheduler that asks the user again: the server loses the tokens of the closing turn, the trainer
  keeps them; put in place of the answers, the tokens of the first answer stand for the second.
\<close>

definition ask_again :: turn_scheduler where
  "ask_again =
     \<lparr>sc_check = (\<lambda>rq ch n. Inr (n = 2)),
      sc_step = (\<lambda>rq ch n. Inr \<lparr>tr_request = rq\<lparr>rq_messages := rq_messages rq @ [msg ''user'' (COne (CText ''more''))]\<rparr>,
        tr_ids = Some (tokens ch), tr_mask = Some (ones (length (tokens ch))), tr_infos = None, tr_logprobs = None\<rparr>),
      sc_max_turns = None\<rparr>"

interpretation asks: masked_scheduler ask_again
  by unfold_locales (auto simp: ask_again_def)

definition two_replies :: "nat \<Rightarrow> rollout_request \<Rightarrow> reply res" where
  "two_replies n rq = Inr \<lparr>re_id = ''r'', re_content = (if n = 1 then ''a'' else ''b''), re_finish = Some ''stop'',
     re_ids = Some (if n = 1 then [1] else [2]), re_logprobs = None\<rparr>"

lemma server_loses_last_turn:
  "case server_run ask_again two_replies tip_request of
     Some (Inr out) \<Rightarrow> ou_ids out = [[1]] \<and> length (filter is_answer (ou_messages out)) = 2 \<and>
       map m_content (projr (replace_assistant_response_with_ids (ou_messages out) (Nested (ou_ids out)) None))
         = [COne (CText ''2+3''), COne (CText ''a''), COne (CText ''more''), COne (CIds [1])]
   | _ \<Rightarrow> False"
  "case colocate_run ask_again (\<lambda>i. two_replies) [tip_request] [projr (two_replies 1 tip_request)] of
     Some (Inr [out]) \<Rightarrow> ou_ids out = [[1], [2]]
   | _ \<Rightarrow> False"
  by code_simp+

text \<open>An empty answer is taken for the dummy: the tip replaces the question of the user.\<close>

definition silent :: reply where
  "silent = \<lparr>re_id = ''r'', re_content = [], re_finish = Some ''stop'', re_ids = None, re_logprobs = None\<rparr>"

lemma empty_answer_overwrites_question:
  "case math_step tip_settings (tip_request\<lparr>rq_messages := rq_messages tip_request @ [msg ''assistant'' (COne (CText []))]\<rparr>) silent 1 of
     Inr r \<Rightarrow> rq_messages (tr_request r) = [msg ''user'' (COne (CText math_tip))]
   | _ \<Rightarrow> False"
  by code_simp

text \<open>Without a tokenizer the mask is empty and does not fit the tokens.\<close>

lemma tips_need_tokenizer:
  "server_run (math_scheduler (tip_settings\<lparr>mt_tokenizer := None\<rparr>)) tip_engine tip_request = Some (Inl AssertionError)"
  by code_simp

text \<open>Log probabilities that were cleared as incomplete come back as those of the last reply.\<close>

lemma cleared_logprobs_return:
  "re_logprobs (ou_reply out) = Some [(''content'', l)] \<Longrightarrow> ou_logprobs out = [] \<Longrightarrow> rw_logprobs (merge_output b row out) = Some [l]"
  by (simp add: merge_output_def merged_logprobs_def Let_def)

text \<open>The thinking scheduler cannot run a second turn without a thinking template.\<close>

lemma bare_answers_rejected:
  "thinking_run \<lparr>th_accuracy = (\<lambda>s sol. Inr 0), th_prepare = None, th_max_turns = None\<rparr> tip_engine tip_request
    = Some (Inl ValueError)"
  by code_simp

subsection \<open>Environments\<close>

definition gym_state_ok :: "nat \<Rightarrow> 's gym_state \<Rightarrow> bool" where
  "gym_state_ok k s =
     (gs_total s = sum_list (gs_rewards s) \<and> length (gs_infos s) = Suc (length (gs_rewards s)) \<and> length (gs_rewards s) \<le> k \<and>
      gs_turn s = (if gs_done s then length (gs_rewards s) else Suc (length (gs_rewards s))) \<and>
      (gs_rewards s = [] \<longleftrightarrow> gs_reply s = None) \<and> (gs_done s \<longrightarrow> gs_rewards s \<noteq> []))"

lemma gym_turn_ok:
  assumes "gym_turn V manage E rq s = Inr s'" "gym_state_ok k s" "gym_goes_on (Some k) s" "0 < k"
  shows "gym_state_ok k s' \<and> length (gs_rewards s') = Suc (length (gs_rewards s))"
  using assms by (auto simp: gym_turn_def gym_state_ok_def gym_goes_on_def Let_def res_bind_eq_Inr_iff)

text \<open>
  C32. A dialogue with an environment ends when the turns are limited, whatever the engine and the
  environment do: the total reward is the sum of the rewards of the steps, there is an information for
  the start and for each step, and one step at least and as many as the limit at most; the number of
  turns reported is that of the steps, or one more when the limit was reached.
\<close>

theorem gym_accounts:
  assumes "gy_max_turns G = Some k" "0 < k"
  shows "\<exists>r. gym_run G E rq = Some r \<and>
    (case r of Inl e \<Rightarrow> True
     | Inr out \<Rightarrow> go_total out = sum_list (go_rewards out) \<and> length (go_infos out) = Suc (length (go_rewards out)) \<and>
         go_reply out \<noteq> None \<and> 1 \<le> length (go_rewards out) \<and> length (go_rewards out) \<le> k \<and>
         go_turns out \<in> {length (go_rewards out), if length (go_rewards out) = k then Suc k else length (go_rewards out)})"
proof -
  let ?prepared = "res_bind (config_of (rq_data rq) ''env_config'') (\<lambda>conf.
           res_bind (create_env G conf) (\<lambda>V.
           res_bind (res_bind (config_of (rq_data rq) ''ctx_config'') (create_manager G)) (\<lambda>manage.
           res_bind (en_reset V rq) (\<lambda>start. Inr (V, manage, start)))))"
  show ?thesis
  proof (cases ?prepared)
    case (Inr p)
    obtain V manage obs info system v where p: "p = (V, manage, obs, info, system, v)" by (cases p)
    let ?f = "gym_once (Some k) V manage E rq" and ?s = "gym_start obs info system v"
    have start: "gym_state_ok k ?s" by (simp add: gym_state_ok_def gym_start_def)
    have next_ok: "gym_state_ok k t \<and> length (gs_rewards t) = Suc (length (gs_rewards s))"
      if "gym_state_ok k s" "?f s = Inr (Inr t)" for s t
      using that assms(2) by (auto simp: gym_once_def res_bind_eq_Inr_iff split: if_splits dest: gym_turn_ok)
    have "\<exists>r. repeat_turns ?f ?s = Some r"
    proof (rule repeat_returns [where I = "gym_state_ok k" and m = "\<lambda>s. Suc k - length (gs_rewards s)"])
      fix s t assume "gym_state_ok k s" "?f s = Inr (Inr t)"
      from next_ok [OF this] show "gym_state_ok k t \<and> Suc k - length (gs_rewards t) < Suc k - length (gs_rewards s)"
        by (auto simp: gym_state_ok_def)
    qed (rule start)
    then obtain r where r: "repeat_turns ?f ?s = Some r" by blast
    have "gym_state_ok k s \<and> \<not> gym_goes_on (Some k) s" if "r = Inr s" for s
    proof (rule repeat_invariant [where I = "gym_state_ok k" and Q = "\<lambda>s. gym_state_ok k s \<and> \<not> gym_goes_on (Some k) s" and x = s and f = ?f and s = ?s])
      show "repeat_turns ?f ?s = Some (Inr s)" using r that by simp
      show "gym_state_ok k t" if "gym_state_ok k s" "?f s = Inr (Inr t)" for s t using next_ok [OF that] by blast
      show "gym_state_ok k x \<and> \<not> gym_goes_on (Some k) x" if "gym_state_ok k s" "?f s = Inr (Inl x)" for s x
        using that by (auto simp: gym_once_def res_bind_eq_Inr_iff split: if_splits)
    qed (rule start)
    moreover have "gym_run G E rq = Some (res_bind r (\<lambda>s. Inr (gym_output rq s)))"
      unfolding gym_run_def Inr p using r assms(1) by simp
    ultimately show ?thesis using assms(2)
      by (cases r) (auto simp: gym_state_ok_def gym_goes_on_def gym_output_def Suc_le_eq)
  qed (simp add: gym_run_def)
qed

definition math_gym :: "pyval gym" where
  "math_gym = \<lparr>gy_envs = [(''math_env'', \<lambda>conf. Inr (math_env (\<lambda>s sol. Inr (if PStr s = sol then 1 else 0)) (\<lambda>ms. False)))],
     gy_managers = [(''dummyContextManager'', \<lambda>conf. Inr dummy_manager)], gy_env_name = PStr ''math_env'',
     gy_manager_name = PNone, gy_max_turns = Some 2\<rparr>"

theorem gym_accounts_witness:
  "\<exists>r. gym_run math_gym two_replies tip_request = Some r \<and>
    (case r of Inl e \<Rightarrow> True
     | Inr out \<Rightarrow> go_total out = sum_list (go_rewards out) \<and> length (go_infos out) = Suc (length (go_rewards out)) \<and>
         go_reply out \<noteq> None \<and> 1 \<le> length (go_rewards out) \<and> length (go_rewards out) \<le> 2 \<and>
         go_turns out \<in> {length (go_rewards out), if length (go_rewards out) = 2 then Suc 2 else length (go_rewards out)})"
  by (rule gym_accounts) (simp_all add: math_gym_def)

text \<open>A wrong answer in each of the two turns: three turns are reported, and the dialogue ends with the user.\<close>

lemma gym_turns_exceed_limit:
  "case gym_run math_gym two_replies (tip_request\<lparr>rq_data := [(''problem'', PStr ''2+3''), (''solution'', PStr ''5'')]\<rparr>) of
     Some (Inr out) \<Rightarrow> go_turns out = 3 \<and> length (go_rewards out) = 2 \<and> m_role (last (go_messages out)) = ''user''
   | _ \<Rightarrow> False"
  by code_simp

end
