(* ===== verification/Spec2Isabelle.thy ===== *)
theory Spec2Isabelle
  imports Prelude PyValue PyPath PyRegex PyJson GeoMath GeoCoder Rewards GeoRewards GeoMetric SelParse Selector SelStats GroupSel Postprocess EvalRows EvalScore Scheduler EncodeLaws PackingLaws TextBench AgentLaws RolloutLaws LossLaws DataSourceLaws TemplateLaws TurnLaws
begin

text \<open>
  A verification development of the Geobench repository: a fork of the ms-swift training framework
  (\<open>src/swift\<close>) for image geolocation, with its data cleaning tools (\<open>src/data_clean\<close>), its benchmark
  evaluator (\<open>src/GeoVerse-Val\<close>) and its training launcher (\<open>src/tools\<close>).

  \<^bold>\<open>The program.\<close>  A vision language model answers with a place name.  The GeoScore reward
  geocodes the name with the OpenCage service and turns the distance to the true coordinates into a
  reward in [0, 1].  The data selector scores generated answers of candidate images with the same
  formula, turns the mean and spread of the rewards into sampling probabilities and draws the
  training images; the group selector does so per group, and the post-processor draws again from a
  finished run.  The launcher orders and balances the rows and builds the command line of the
  trainer.  The dataset loader finds the rows on disk or on a hub, brings their layouts into messages, samples
  them and sets validation rows apart.  During training the chat template turns conversations into token rows, packing and
  sharded samplers bring the rows to the ranks, agent templates write and read tool calls, and the
  reward functions and metrics score the completions, and the GRPO trainer turns the rewards of a group
  into advantages and a loss.  The evaluator answers the benchmark images
  and reports scores per group.  Components share the geocoding client (reward, selector and
  evaluator each have one), its cache file (shared by worker processes) and the answer parsers.

  \<^bold>\<open>The theories\<close>, bottom up.

  \<^item> \<open>Prelude\<close>: Python exceptions as a sum type (\<open>'a res\<close>), string and list idioms, statistics over
    the reals, insertion-ordered dictionaries, choice without replacement (locale \<open>chooser\<close>).
    \<open>PyValue\<close>: JSON-like values, \<open>float()\<close> and \<open>str()\<close>.  \<open>PyPath\<close>: pure paths and row readers.
    \<open>PyRegex\<close>: the backtracking matcher of \<open>re\<close> with its order of alternatives; matching loses no
    text.  \<open>PyJson\<close> and \<open>PyDumps\<close>: \<open>json.loads\<close> and \<open>json.dumps\<close> with their round trip.
  \<^item> \<open>GeoMath\<close>: the haversine distance (\<open>rewards/orm.py\<close>, \<open>geo_data_selector.py\<close>) and the score of a
    distance; the distance is total, symmetric, bounded, and zero for equal points.
  \<^item> \<open>GeoCoder\<close>: the client of \<open>GeoScoreAccuracy\<close> in \<open>rewards/orm.py\<close>: configuration, cache keys, the
    write-once cache in memory and on disk (locales \<open>memo_cache\<close>, \<open>write_once_cache\<close>, interpreted on
    the model), waiting for a usage limit, retries, shortened addresses.  The step relation
    \<open>cache_step\<close> interleaves worker processes on one cache file.  Lemmas: every request ends, limits
    are waited out and never reported or cached, an answer once cached is never asked for again,
    workers agree on every stored answer, the fallback client returns the same outcomes.
  \<^item> \<open>Rewards\<close>, \<open>GeoRewards\<close>: the reward functions of \<open>rewards/orm.py\<close>, the second with the
    geolocation formats and the GeoScore batch.  \<open>GeoMetric\<close>: \<open>metrics/geo_metric.py\<close>, state and
    operations of both metric classes, with an invariant of the state.
  \<^item> \<open>SelParse\<close>, \<open>Selector\<close>, \<open>SelStats\<close>: \<open>data_clean/geo_data_selector.py\<close>: configuration, annotations,
    answer parsing; cached geocoding, generation, scoring, judging; statistics, probabilities, Gumbel
    top-k sampling, reuse of saved generations.  \<open>GroupSel\<close>: \<open>group_geo_selector.py\<close>.
    \<open>Postprocess\<close>: \<open>postprocess_grpo_run.py\<close>.  \<open>TextBench\<close>: \<open>text_latlon_benchmark.py\<close> and
    \<open>compare_selection_overlap.py\<close>.
  \<^item> \<open>EvalRows\<close>, \<open>EvalScore\<close>: \<open>GeoVerse-Val/eval_geoverse_val_geoscore.py\<close>: input rows, images and the
    batched inference loop; answers, broadened addresses, scoring and grouped reports.
  \<^item> \<open>Scheduler\<close>: \<open>tools/train_geogrpo.py\<close>: rows, buckets, orders, balances, the command and its
    redaction.
  \<^item> \<open>Contexts\<close>, \<open>LossScale\<close>, \<open>ChatTemplate\<close>, \<open>EncodeRow\<close>, \<open>EncodeLaws\<close>: \<open>swift/template\<close> and
    \<open>swift/loss_scale\<close>: template metadata, message handling, loss weights, layout of rounds, encoding,
    truncation and splitting.  The laws follow the text of a conversation through splitting,
    weighting and merging, and the labels and weights through every later step.
  \<^item> \<open>AgentTools\<close>, \<open>AgentFamilies\<close>, \<open>AgentLaws\<close>: \<open>swift/agent_template\<close>: tools, calls and results as
    text for all registered templates, and the calls read back (locale \<open>tagged_text\<close>, interpreted on
    the tags of Hermes and Seed).
  \<^item> \<open>DataRows\<close>, \<open>DataLaws\<close>: \<open>swift/dataset/preprocessor\<close>: checks of a row, batches as columns, the
    preprocessing that drops rows with errors, renamed columns, the layouts of conversations.  The laws:
    an error costs its own row, the layouts agree, renaming keeps columns apart.
    \<open>DataSource\<close>, \<open>DataSourceLaws\<close>: \<open>dataset_syntax.py\<close>, \<open>dataset_meta.py\<close>, \<open>register.py\<close>, \<open>loader.py\<close>
    and \<open>utils.py\<close> of \<open>swift/dataset\<close>: command-line syntax, registry, retries, sampling, split, lazy rows.
    \<open>TemplateRows\<close>, \<open>TemplateLaws\<close>: \<open>swift/template/template_inputs.py\<close>: media out of messages and the
    rejected conversation of preference data, which continues the prompt of the chosen one.
  \<^item> \<open>Packing\<close>, \<open>PackingLaws\<close>: \<open>swift/dataset/packing.py\<close>, \<open>swift/dataloader\<close> and \<open>split_list\<close>: packing
    workers as streams of messages in any interleaving, the sharded sampler, the dispatcher.
  \<^item> \<open>GrpoAdvantage\<close>, \<open>AdvantageLaws\<close>: \<open>swift/rlhf_trainers/grpo_trainer.py\<close>: prompt and request ids,
    weighted rewards, advantages of all estimators and scales in both modes, statistics.  The laws:
    advantages rank a group, are bounded, and are the same in both modes; where GDPO gives no number
    and different images share a baseline.
  \<^item> \<open>GrpoRollout\<close>, \<open>RolloutLaws\<close>: the buffer of generations, even splits (locale \<open>even_split\<close>,
    interpreted on the three splits of the code), resampling, dynamic sampling, answers as token ids.
    Resampling reads a stream of batches; its inner loop is a \<open>partial_function\<close> and returns whenever
    no batch is empty.
  \<^item> \<open>MultiTurn\<close>, \<open>TurnSchedulers\<close>, \<open>TurnLaws\<close>: \<open>swift/rollout\<close> and the turn loop of
    \<open>rlhf_trainers/rollout_mixin.py\<close>: every \<open>while True\<close> is \<open>repeat_turns\<close> of one step, a
    \<open>partial_function\<close>.  The laws (locales \<open>masked_scheduler\<close> and \<open>answering_scheduler\<close>, interpreted on \<open>MathTipsScheduler\<close>): server
    and trainer give the same outputs, tokens and masks stay aligned, tips are given once.
  \<^item> \<open>GrpoLoss\<close>, \<open>LossLaws\<close>: completion masks, padding-free rows, the token losses with their
    corrections and masks, metrics, reduction, chunks and the CHORD weight.  The laws: padding never
    counts, chunks agree with the batch (and where they do not), packed values are put back and read.

  \<^bold>\<open>Reading the model.\<close>  A class is a record, a method a function on it that returns the new state;
  every raise and early return is a branch, with the exception as the left summand.  Python integers
  are \<open>int\<close> or, where they count, \<open>nat\<close>; strings are byte strings in UTF-8; dictionaries are association
  lists in insertion order.  What is not under \<open>src\<close> is an argument: the HTTP service, the inference
  engine, the tokenizer, the jinja renderer, \<open>argsort\<close> and random draws, the bin packer, file
  contents; laws about it are named predicates (\<open>packs_well\<close>, \<open>spaces_well\<close>, \<open>permutes_well\<close>,
  \<open>permutes\<close>, \<open>splits_well\<close>) that a
  witness instantiates.

  \<^bold>\<open>Fuel and bounds.\<close>  \<open>geo_call\<close> counts down from a bound on its requests (\<open>request_bound\<close>) that
  the termination property shows to suffice; \<open>rx_iter\<close> and \<open>matches_from\<close> get the length of the text
  ahead, which every round shortens; the JSON reader gets twice the length of the text, and \<open>cost\<close>
  bounds what a value takes; the ratio order of the launcher gets the number of queued rows; all
  other loops are structural or have a termination proof.  Loops that can wait for ever are option
  values (\<open>collect\<close>: the master of packing blocks; \<open>split_from\<close> and \<open>repeat_turns\<close> are partial functions, with proofs that
  they return).

  \<^bold>\<open>Not modelled, and why.\<close>  Floats are reals: no infinity or rounding, and \<open>nan\<close> only in tensors.  Character classes and
  case folding are ASCII.  The recursion limit of the interpreter and failing file writes are left
  out, as are console output, argument parsing and plots.  The GRPO model starts from log
  probabilities and entropies of the tokens and ends with the value of the loss: forward passes,
  gradients, the fused liger loss, rollout engines, weight synchronisation and the gathering of
  metrics stay outside, and \<open>nan\<close> is a value of its own there (\<open>fl\<close>).  The other trainers
  (\<open>rlhf_trainers\<close>, \<open>trainers\<close>, \<open>megatron\<close>) and \<open>tuners\<close>, \<open>sequence_parallel\<close>, \<open>model\<close> are tensor
  programs on torch; the inference engines, Ray, the web pages, the hub and the pipelines are glue
  around libraries; vision utilities and multimodal templates call image libraries.  Of
  \<open>swift/template/base.py\<close> the encode variants for preference and embedding tasks, collation,
  decoding and media loading are not modelled, of \<open>swift/dataset\<close> interleaving, caching, the table of
  registered datasets and the indexed files, and of the rollouts the asynchronous queue.
\<close>

end
